(* ===== verification/Prelude.thy ===== *)
theory Prelude
  imports "HOL-Library.Word"
begin

text \<open>
  Shared vocabulary of the development.

  Machine integers.  The unsigned integers the code uses as counts, indices and coordinates
  (\<open>u8\<close>, \<open>u16\<close>, \<open>u32\<close>, \<open>u64\<close>, \<open>usize\<close>) are \<open>nat\<close>; every saturating, wrapping or truncating
  operation of the source is written out with the bound of its width (the functions below), and
  saturating subtraction is the subtraction of \<open>nat\<close>.  Bit sets (\<open>bitflags!\<close> types, flag bytes)
  are words of their width, so that \<open>|\<close>, \<open>&\<close> and \<open>!\<close> are \<open>OR\<close>, \<open>AND\<close> and \<open>NOT\<close>.

  Text.  A Rust \<open>str\<close>/\<open>String\<close> is the list of its Unicode scalar values; \<open>lit\<close> turns an ASCII
  literal into one and \<open>utf8_len\<close> is the length in bytes that \<open>str::len\<close> reports.  A byte buffer
  (\<open>Vec<u8>\<close>, \<open>&[u8]\<close>) is a HOL \<open>string\<close>, whose \<open>char\<close> is exactly a byte.

  Containers.  \<open>get_mut(i)\<close> with an out-of-range \<open>i\<close> does nothing, as \<open>xs[i := x]\<close> does; \<open>get(i)\<close>
  is \<open>nth_opt\<close>.
\<close>

type_synonym rstr = "nat list"
type_synonym bytes = string

section \<open>Rules collected for the component proofs\<close>

named_theorems dims_simps \<open>equations saying which operation keeps which dimension\<close>
named_theorems inv_intros \<open>preservation rules of the state invariants\<close>

section \<open>Machine integers\<close>

definition u16_max :: nat where "u16_max = 65535"
definition u32_max :: nat where "u32_max = 4294967295"
definition u64_max :: nat where "u64_max = 18446744073709551615"

definition sadd16 :: "nat \<Rightarrow> nat \<Rightarrow> nat" where
  "sadd16 a b = min (a + b) u16_max"

definition smul16 :: "nat \<Rightarrow> nat \<Rightarrow> nat" where
  "smul16 a b = min (a * b) u16_max"

definition sadd32 :: "nat \<Rightarrow> nat \<Rightarrow> nat" where
  "sadd32 a b = min (a + b) u32_max"

definition smul32 :: "nat \<Rightarrow> nat \<Rightarrow> nat" where
  "smul32 a b = min (a * b) u32_max"

definition wadd32 :: "nat \<Rightarrow> nat \<Rightarrow> nat" where
  "wadd32 a b = (a + b) mod (u32_max + 1)"

definition wadd64 :: "nat \<Rightarrow> nat \<Rightarrow> nat" where
  "wadd64 a b = (a + b) mod (u64_max + 1)"

definition as_u8 :: "nat \<Rightarrow> nat" where "as_u8 n = n mod 256"
definition as_u16 :: "nat \<Rightarrow> nat" where "as_u16 n = n mod (u16_max + 1)"
definition as_u32 :: "nat \<Rightarrow> nat" where "as_u32 n = n mod (u32_max + 1)"

definition checked_sub :: "nat \<Rightarrow> nat \<Rightarrow> nat option" where
  "checked_sub a b = (if b \<le> a then Some (a - b) else None)"

definition div_ceil :: "nat \<Rightarrow> nat \<Rightarrow> nat" where
  "div_ceil a b = (a + b - 1) div b"

definition clamp :: "nat \<Rightarrow> nat \<Rightarrow> nat \<Rightarrow> nat" where
  "clamp lo hi x = (if x < lo then lo else if x > hi then hi else x)"

lemma sadd16_le [simp]: "sadd16 a b \<le> u16_max"
  by (simp add: sadd16_def)

lemma sadd16_exact: "a + b \<le> u16_max \<Longrightarrow> sadd16 a b = a + b"
  by (simp add: sadd16_def)

lemma sadd16_0 [simp]: "sadd16 0 a = min a u16_max" "sadd16 a 0 = min a u16_max"
  by (simp_all add: sadd16_def)

lemma sadd16_ge: "a \<le> u16_max \<Longrightarrow> a \<le> sadd16 a b"
  by (simp add: sadd16_def)

lemma as_u16_id: "n \<le> u16_max \<Longrightarrow> as_u16 n = n"
  by (simp add: as_u16_def)

lemma as_u16_le [simp]: "as_u16 n \<le> u16_max"
  by (simp add: as_u16_def u16_max_def)

lemma checked_sub_Some [simp]: "checked_sub a b = Some c \<longleftrightarrow> b \<le> a \<and> c = a - b"
  by (auto simp: checked_sub_def)

lemma checked_sub_None [simp]: "checked_sub a b = None \<longleftrightarrow> a < b"
  by (auto simp: checked_sub_def)

lemma clamp_bounds: "lo \<le> hi \<Longrightarrow> lo \<le> clamp lo hi x \<and> clamp lo hi x \<le> hi"
  by (simp add: clamp_def)

section \<open>Text\<close>

definition lit :: "string \<Rightarrow> rstr" where
  "lit s = map of_char s"

definition chr :: "char \<Rightarrow> nat" where
  "chr c = of_char c"

definition utf8_width :: "nat \<Rightarrow> nat" where
  "utf8_width c = (if c < 128 then 1 else if c < 2048 then 2 else if c < 65536 then 3 else 4)"

definition utf8_len :: "rstr \<Rightarrow> nat" where
  "utf8_len s = sum_list (map utf8_width s)"

lemma lit_Nil [simp]: "lit [] = []"
  by (simp add: lit_def)

lemma lit_Cons [simp]: "lit (c # cs) = of_char c # lit cs"
  by (simp add: lit_def)

lemma length_le_utf8_len: "length s \<le> utf8_len s"
  by (induction s) (auto simp: utf8_len_def utf8_width_def)

text \<open>\<open>format!("{n}")\<close> for an unsigned integer: the decimal digits as bytes.\<close>

fun dec :: "nat \<Rightarrow> bytes" where
  "dec n = (if n < 10 then [char_of (48 + n)] else dec (n div 10) @ [char_of (48 + n mod 10)])"

declare dec.simps [simp del]

lemma dec_nonempty [simp]: "dec n \<noteq> []"
  by (subst dec.simps) simp

definition is_digit :: "char \<Rightarrow> bool" where
  "is_digit c \<longleftrightarrow> 48 \<le> (of_char c :: nat) \<and> (of_char c :: nat) \<le> 57"

definition digit_val :: "char \<Rightarrow> nat" where
  "digit_val c = of_char c - 48"

text \<open>
  \<open>str::parse\<close> for integers: an optional sign (\<open>-\<close> for signed types only), then at least one
  digit and nothing else; a value outside the type's range is an error.
\<close>

definition digits_val :: "bytes \<Rightarrow> nat" where
  "digits_val ds = foldl (\<lambda>acc d. 10 * acc + digit_val d) 0 ds"

definition parse_digits :: "bytes \<Rightarrow> nat option" where
  "parse_digits ds = (if ds \<noteq> [] \<and> list_all is_digit ds then Some (digits_val ds) else None)"

definition parse_unsigned :: "nat \<Rightarrow> bytes \<Rightarrow> nat option" where
  "parse_unsigned m s =
     (let ds = (case s of c # r \<Rightarrow> if c = CHR ''+'' then r else s | [] \<Rightarrow> s)
      in case parse_digits ds of None \<Rightarrow> None | Some n \<Rightarrow> if n \<le> m then Some n else None)"

definition parse_i32 :: "bytes \<Rightarrow> int option" where
  "parse_i32 s =
     (case s of
        c # r \<Rightarrow>
          if c = CHR ''-'' then
            (case parse_digits r of
               None \<Rightarrow> None
             | Some n \<Rightarrow> if n \<le> 2147483648 then Some (- int n) else None)
          else
            (case parse_digits (if c = CHR ''+'' then r else s) of
               None \<Rightarrow> None
             | Some n \<Rightarrow> if n \<le> 2147483647 then Some (int n) else None)
      | [] \<Rightarrow> None)"

lemma of_char_of_nat: "n < 256 \<Longrightarrow> (of_char (char_of n :: char) :: nat) = n"
  by simp

lemma digits_val_snoc: "digits_val (ds @ [d]) = 10 * digits_val ds + digit_val d"
  by (simp add: digits_val_def)

lemma dec_digits: "list_all is_digit (dec n)"
proof (induction n rule: dec.induct)
  case (1 n)
  have digit: "is_digit (char_of (48 + m))" if "m < 10" for m :: nat
    using that by (simp add: is_digit_def)
  from 1 show ?case
    by (subst dec.simps) (simp add: digit)
qed

lemma digits_val_dec: "digits_val (dec n) = n"
proof (induction n rule: dec.induct)
  case (1 n)
  then show ?case
    by (subst dec.simps) (auto simp: digits_val_snoc digit_val_def digits_val_def)
qed

text \<open>Decimal output parses back to the number it came from.\<close>

lemma parse_digits_dec: "parse_digits (dec n) = Some n"
  by (simp add: parse_digits_def dec_digits digits_val_dec)

section \<open>Lists\<close>

definition nth_opt :: "'a list \<Rightarrow> nat \<Rightarrow> 'a option" where
  "nth_opt xs i = (if i < length xs then Some (xs ! i) else None)"

definition last_opt :: "'a list \<Rightarrow> 'a option" where
  "last_opt xs = (if xs = [] then None else Some (last xs))"

definition head_opt :: "'a list \<Rightarrow> 'a option" where
  "head_opt xs = (case xs of [] \<Rightarrow> None | x # _ \<Rightarrow> Some x)"

text \<open>\<open>Vec::insert\<close>/\<open>Vec::remove\<close> at an index the code has already checked.\<close>

definition insert_at :: "nat \<Rightarrow> 'a \<Rightarrow> 'a list \<Rightarrow> 'a list" where
  "insert_at i x xs = take i xs @ x # drop i xs"

definition remove_at :: "nat \<Rightarrow> 'a list \<Rightarrow> 'a list" where
  "remove_at i xs = take i xs @ drop (Suc i) xs"

lemma nth_opt_Some [simp]: "nth_opt xs i = Some x \<longleftrightarrow> i < length xs \<and> xs ! i = x"
  by (auto simp: nth_opt_def)

lemma nth_opt_None [simp]: "nth_opt xs i = None \<longleftrightarrow> length xs \<le> i"
  by (auto simp: nth_opt_def)

lemma nth_opt_in: "nth_opt xs i = Some x \<Longrightarrow> x \<in> set xs"
  by auto

lemma length_insert_at [simp]: "length (insert_at i x xs) = Suc (length xs)"
  by (simp add: insert_at_def)

lemma length_remove_at [simp]: "i < length xs \<Longrightarrow> length (remove_at i xs) = length xs - 1"
  by (simp add: remove_at_def)

lemma length_remove_at_0 [simp]: "length (remove_at 0 xs) = length xs - 1"
  by (simp add: remove_at_def)

lemma set_insert_at: "set (insert_at i x xs) = insert x (set xs)"
  by (simp add: insert_at_def) (metis append_take_drop_id set_append)

lemma set_remove_at: "set (remove_at i xs) \<subseteq> set xs"
  by (auto simp: remove_at_def dest: in_set_takeD in_set_dropD)

text \<open>
  \<open>split\<close> on a separator: the pieces between the separators, always at least one.
\<close>

fun split_on :: "'a \<Rightarrow> 'a list \<Rightarrow> 'a list list" where
  "split_on sep [] = [[]]"
| "split_on sep (x # xs) =
     (if x = sep then [] # split_on sep xs
      else (case split_on sep xs of p # ps \<Rightarrow> (x # p) # ps | [] \<Rightarrow> [[x]]))"

text \<open>\<open>split_once\<close> and \<open>splitn(2, _)\<close>: cut at the first separator.\<close>

fun split_once :: "'a \<Rightarrow> 'a list \<Rightarrow> ('a list \<times> 'a list) option" where
  "split_once sep [] = None"
| "split_once sep (x # xs) =
     (if x = sep then Some ([], xs)
      else map_option (\<lambda>(a, b). (x # a, b)) (split_once sep xs))"

fun strip_prefix :: "'a list \<Rightarrow> 'a list \<Rightarrow> 'a list option" where
  "strip_prefix [] xs = Some xs"
| "strip_prefix (p # ps) [] = None"
| "strip_prefix (p # ps) (x # xs) = (if x = p then strip_prefix ps xs else None)"

definition strip_suffix :: "'a list \<Rightarrow> 'a list \<Rightarrow> 'a list option" where
  "strip_suffix suf xs = map_option rev (strip_prefix (rev suf) (rev xs))"

text \<open>\<open>Iterator::position\<close>, and \<open>find\<close> over a range from its lower and from its upper end.\<close>

fun position :: "('a \<Rightarrow> bool) \<Rightarrow> 'a list \<Rightarrow> nat option" where
  "position p [] = None"
| "position p (x # xs) = (if p x then Some 0 else map_option Suc (position p xs))"

lemma position_Some:
  "position p xs = Some i \<longleftrightarrow> i < length xs \<and> p (xs ! i) \<and> (\<forall>j < i. \<not> p (xs ! j))"
  by (induction xs arbitrary: i) (auto simp: nth_Cons less_Suc_eq_0_disj split: nat.splits)

lemma position_None: "position p xs = None \<longleftrightarrow> (\<forall>x \<in> set xs. \<not> p x)"
  by (induction xs) auto

lemma find_upt_Some:
  "find P [a..<b] = Some i \<longleftrightarrow> a \<le> i \<and> i < b \<and> P i \<and> (\<forall>j. a \<le> j \<and> j < i \<longrightarrow> \<not> P j)"
proof (induction "b - a" arbitrary: a)
  case 0
  then show ?case by simp
next
  case (Suc n)
  then have ab: "a < b" by simp
  then have up: "[a..<b] = a # [Suc a..<b]" by (rule upt_conv_Cons)
  show ?case
  proof (cases "P a")
    case True
    then show ?thesis using ab by (auto simp: up dest: le_neq_implies_less)
  next
    case False
    then have "find P [a..<b] = Some i \<longleftrightarrow> find P [Suc a..<b] = Some i" by (simp add: up)
    also have "\<dots> \<longleftrightarrow> Suc a \<le> i \<and> i < b \<and> P i \<and> (\<forall>j. Suc a \<le> j \<and> j < i \<longrightarrow> \<not> P j)"
      using Suc by simp
    also have "\<dots> \<longleftrightarrow> a \<le> i \<and> i < b \<and> P i \<and> (\<forall>j. a \<le> j \<and> j < i \<longrightarrow> \<not> P j)"
      using False by (auto simp: Suc_le_eq) (metis le_neq_implies_less)+
    finally show ?thesis .
  qed
qed

lemma find_rev_upt_Some:
  "find P (rev [0..<b]) = Some i \<longleftrightarrow> i < b \<and> P i \<and> (\<forall>j. i < j \<and> j < b \<longrightarrow> \<not> P j)"
  by (induction b) (auto simp: less_Suc_eq)

text \<open>\<open>char::is_whitespace\<close>: the White_Space property.\<close>

definition is_whitespace :: "nat \<Rightarrow> bool" where
  "is_whitespace c \<longleftrightarrow> (9 \<le> c \<and> c \<le> 13) \<or> c = 32 \<or> c = 133 \<or> c = 160 \<or> c = 5760
     \<or> (8192 \<le> c \<and> c \<le> 8202) \<or> c = 8232 \<or> c = 8233 \<or> c = 8239 \<or> c = 8287 \<or> c = 12288"

fun join_with :: "'a \<Rightarrow> 'a list list \<Rightarrow> 'a list" where
  "join_with sep [] = []"
| "join_with sep [x] = x"
| "join_with sep (x # y # ys) = x @ sep # join_with sep (y # ys)"

lemma split_on_nonempty [simp]: "split_on sep xs \<noteq> []"
  by (induction xs) (auto split: list.splits)

lemma split_on_no_sep: "p \<in> set (split_on sep xs) \<Longrightarrow> sep \<notin> set p"
  by (induction xs arbitrary: p) (auto split: list.splits if_splits)

lemma join_Cons: "ys \<noteq> [] \<Longrightarrow> join_with sep (x # ys) = x @ sep # join_with sep ys"
  by (cases ys) simp_all

lemma join_split: "join_with sep (split_on sep xs) = xs"
proof (induction xs)
  case (Cons x xs)
  then show ?case
    by (cases "split_on sep xs"; cases "tl (split_on sep xs)") (auto simp: join_Cons)
qed simp

lemma split_once_Some: "split_once sep xs = Some (a, b) \<longleftrightarrow> xs = a @ sep # b \<and> sep \<notin> set a"
proof (induction xs arbitrary: a)
  case Nil
  then show ?case by simp
next
  case (Cons x xs)
  show ?case
    by (cases a) (auto simp: Cons)
qed

lemma strip_prefix_Some: "strip_prefix p xs = Some r \<longleftrightarrow> xs = p @ r"
  by (induction p xs rule: strip_prefix.induct) auto

lemma strip_suffix_Some: "strip_suffix p xs = Some r \<longleftrightarrow> xs = r @ p"
  by (auto simp: strip_suffix_def strip_prefix_Some) (metis rev_append rev_rev_ident)

text \<open>
  A loop \<open>for _ in 0..n\<close> that runs \<open>f\<close> on the state is \<open>f ^^ n\<close>; what one step keeps, the loop
  keeps.
\<close>

lemma funpow_inv: "P s \<Longrightarrow> (\<And>t. P t \<Longrightarrow> P (f t)) \<Longrightarrow> P ((f ^^ n) s)"
  by (induction n) auto

lemma foldl_inv: "P s \<Longrightarrow> (\<And>t x. P t \<Longrightarrow> x \<in> set xs \<Longrightarrow> P (f t x)) \<Longrightarrow> P (foldl f s xs)"
  by (induction xs arbitrary: s) auto

section \<open>Interface: operations that share an invariant\<close>

text \<open>
  Every component with a state machine has the same contract: an event applied to a state that
  satisfies the invariant gives one that satisfies it.  What follows for runs is proved once here
  and obtained by interpretation on each component's step function.
\<close>

locale invariant_machine =
  fixes inv :: "'s \<Rightarrow> bool"
    and step :: "'s \<Rightarrow> 'e \<Rightarrow> 's"
  assumes step_inv: "inv s \<Longrightarrow> inv (step s e)"
begin

lemma run_inv: "inv s \<Longrightarrow> inv (foldl step s es)"
  by (induction es arbitrary: s) (auto intro: step_inv)

lemma prefix_inv: "inv s \<Longrightarrow> inv (foldl step s (take n es))"
  by (rule run_inv)

end

section \<open>Interface: bounded buffers\<close>

text \<open>
  Several components keep a buffer that drops its oldest elements when it grows past a cap (the
  scrollback, the paste buffers, the Kitty flag stack).  \<open>items\<close> lists the contents oldest
  first; \<open>push\<close> appends the newest and keeps at most \<open>cap\<close> of the newest ones.
\<close>

locale bounded_buffer =
  fixes items :: "'b \<Rightarrow> 'x list"
    and cap :: "'b \<Rightarrow> nat"
    and push :: "'b \<Rightarrow> 'x \<Rightarrow> 'b"
  assumes push_items: "length (items b) \<le> cap b \<Longrightarrow>
      items (push b x) = drop (Suc (length (items b)) - cap b) (items b @ [x])"
    and push_cap: "cap (push b x) = cap b"
begin

lemma push_bound: "length (items b) \<le> cap b \<Longrightarrow> length (items (push b x)) \<le> cap (push b x)"
  by (simp add: push_items push_cap)

lemma run_bound:
  "length (items b) \<le> cap b \<Longrightarrow> length (items (foldl push b xs)) \<le> cap (foldl push b xs)"
  by (induction xs arbitrary: b) (auto intro: push_bound)

lemma run_cap: "cap (foldl push b xs) = cap b"
  by (induction xs arbitrary: b) (auto simp: push_cap)

text \<open>After any run of pushes the buffer holds exactly the newest \<open>cap\<close> elements.\<close>

lemma run_items:
  "length (items b) \<le> cap b \<Longrightarrow>
     items (foldl push b xs) = drop (length (items b) + length xs - cap b) (items b @ xs)"
proof (induction xs arbitrary: b)
  case Nil
  then show ?case by simp
next
  case (Cons x xs)
  have bound: "length (items (push b x)) \<le> cap (push b x)"
    using Cons.prems by (rule push_bound)
  define k where "k = Suc (length (items b)) - cap b"
  have pushed: "items (push b x) = drop k (items b @ [x])"
    using Cons.prems by (simp add: push_items k_def)
  have k: "k \<le> Suc (length (items b))"
    by (simp add: k_def)
  have count: "length (items (push b x)) + length xs - cap b + k
      = Suc (length (items b) + length xs) - cap b"
    using Cons.prems by (simp add: pushed k_def)
  have join: "items (push b x) @ xs = drop k (items b @ x # xs)"
    using k by (cases "k = Suc (length (items b))") (simp_all add: pushed)
  have "items (foldl push (push b x) xs)
      = drop (length (items (push b x)) + length xs - cap b) (drop k (items b @ x # xs))"
    using Cons.IH [OF bound] by (simp only: push_cap join)
  also have "\<dots> = drop (Suc (length (items b) + length xs) - cap b) (items b @ x # xs)"
    by (simp only: drop_drop count)
  finally show ?case
    by simp
qed

lemma push_newest: "length (items b) \<le> cap b \<Longrightarrow> 0 < cap b \<Longrightarrow> last (items (push b x)) = x"
  by (simp add: push_items)

end


text \<open>A queue that removes its front element before a push that would pass the cap.\<close>

definition push_capped :: "nat \<Rightarrow> 'a \<Rightarrow> 'a list \<Rightarrow> 'a list" where
  "push_capped m x xs = (if length xs \<ge> m then remove_at 0 xs else xs) @ [x]"

interpretation capped: bounded_buffer "\<lambda>xs. xs" "\<lambda>_. Suc m" "\<lambda>xs x. push_capped (Suc m) x xs" for m
  by unfold_locales (auto simp: push_capped_def remove_at_def drop_Suc not_le dest: le_antisym)

lemma push_capped_length: "length xs \<le> m \<Longrightarrow> 0 < m \<Longrightarrow> length (push_capped m x xs) \<le> m"
  using capped.push_bound [of xs "m - 1" x] by simp

section \<open>Refinement\<close>

text \<open>
  Interface between a component and its abstract specification: a functional simulation.  The
  client supplies the abstraction function, the invariant and the two step functions, and gets the
  statement about whole runs.
\<close>

locale simulation =
  fixes inv :: "'s \<Rightarrow> bool"
    and abst :: "'s \<Rightarrow> 'a"
    and cstep :: "'s \<Rightarrow> 'e \<Rightarrow> 's"
    and astep :: "'a \<Rightarrow> 'e \<Rightarrow> 'a"
  assumes sim_inv: "inv s \<Longrightarrow> inv (cstep s e)"
    and sim_step: "inv s \<Longrightarrow> abst (cstep s e) = astep (abst s) e"
begin

lemma run_keeps: "inv s \<Longrightarrow> inv (foldl cstep s es)"
  by (induction es arbitrary: s) (auto intro: sim_inv)

lemma run_refines: "inv s \<Longrightarrow> abst (foldl cstep s es) = foldl astep (abst s) es"
  by (induction es arbitrary: s) (auto simp: sim_inv sim_step)

end

text \<open>A simulation is in particular a machine that keeps its invariant.\<close>

sublocale simulation \<subseteq> invariant_machine inv cstep
  by unfold_locales (rule sim_inv)

end
