(* ===== verification/Cells.thy ===== *)
theory Cells
  imports Prelude
begin

text \<open>
  Cells of the terminal grid: \<open>cell.rs\<close>, \<open>attrs.rs\<close>, \<open>color.rs\<close>, \<open>coords.rs\<close> and \<open>width.rs\<close> of
  \<open>crates/emulator/src\<close>.  A grid coordinate (\<open>coords::Row\<close>, \<open>coords::Col\<close>) is its \<open>u16\<close>.

  \<open>UnicodeWidthStr::width\<close> and \<open>UnicodeWidthChar::width\<close> belong to the crate \<open>unicode-width\<close>, so
  the width of a string is a parameter \<open>wd\<close> of every definition that measures text.  What the code
  relies on is \<open>width_ok wd\<close>: the empty string has width 0 and a printable ASCII character width 1.
\<close>

section \<open>Attributes and colours\<close>

datatype underline_style = UlNone | UlSingle | UlDouble | UlCurly | UlDotted | UlDashed

definition from_sgr_subparam :: "nat \<Rightarrow> underline_style" where
  "from_sgr_subparam code =
     (if code = 0 then UlNone
      else if code = 2 then UlDouble
      else if code = 3 then UlCurly
      else if code = 4 then UlDotted
      else if code = 5 then UlDashed
      else UlSingle)"

type_synonym attrs = "16 word"

definition A_BOLD :: attrs where "A_BOLD = 1"
definition A_DIM :: attrs where "A_DIM = 2"
definition A_ITALIC :: attrs where "A_ITALIC = 4"
definition A_UNDERLINE :: attrs where "A_UNDERLINE = 8"
definition A_BLINK :: attrs where "A_BLINK = 16"
definition A_REVERSE :: attrs where "A_REVERSE = 32"
definition A_HIDDEN :: attrs where "A_HIDDEN = 64"
definition A_STRIKETHROUGH :: attrs where "A_STRIKETHROUGH = 128"
definition A_HIGHLIGHT :: attrs where "A_HIGHLIGHT = 256"

lemmas attr_bits = A_BOLD_def A_DIM_def A_ITALIC_def A_UNDERLINE_def A_BLINK_def A_REVERSE_def
  A_HIDDEN_def A_STRIKETHROUGH_def A_HIGHLIGHT_def

datatype color = DefaultColor | Indexed nat | Rgb nat nat nat

definition from_ansi_basic :: "nat \<Rightarrow> color" where
  "from_ansi_basic n = Indexed n"

definition from_ansi_bright :: "nat \<Rightarrow> color" where
  "from_ansi_bright n = Indexed (n + 8)"

section \<open>Coordinates\<close>

text \<open>\<open>Row::advance\<close>/\<open>Col::advance\<close> saturate at \<open>u16::MAX\<close>, \<open>retreat\<close> at 0.\<close>

definition advance :: "nat \<Rightarrow> nat \<Rightarrow> nat" where
  "advance v n = sadd16 v n"

definition retreat :: "nat \<Rightarrow> nat \<Rightarrow> nat" where
  "retreat v n = v - n"

lemma advance_le: "advance v n \<le> v + n"
  by (simp add: advance_def sadd16_def)

lemma advance_exact: "v + n \<le> u16_max \<Longrightarrow> advance v n = v + n"
  by (simp add: advance_def sadd16_exact)

lemma retreat_advance: "v + n \<le> u16_max \<Longrightarrow> retreat (advance v n) n = v"
  by (simp add: retreat_def advance_exact)

section \<open>Cells\<close>

record cell =
  grapheme :: rstr
  c_fg :: color
  c_bg :: color
  c_ucolor :: color
  c_ustyle :: underline_style
  c_attrs :: attrs
  c_link :: "nat option"

definition default_cell :: cell where
  "default_cell = \<lparr>grapheme = [32], c_fg = DefaultColor, c_bg = DefaultColor,
     c_ucolor = DefaultColor, c_ustyle = UlNone, c_attrs = 0, c_link = None\<rparr>"

definition wide_spacer :: cell where
  "wide_spacer = \<lparr>grapheme = [], c_fg = DefaultColor, c_bg = DefaultColor,
     c_ucolor = DefaultColor, c_ustyle = UlNone, c_attrs = 0, c_link = None\<rparr>"

definition is_wide_spacer :: "cell \<Rightarrow> bool" where
  "is_wide_spacer c \<longleftrightarrow> grapheme c = []"

definition is_blank :: "cell \<Rightarrow> bool" where
  "is_blank c \<longleftrightarrow> grapheme c = [32] \<and> c_fg c = DefaultColor \<and> c_bg c = DefaultColor
     \<and> c_ucolor c = DefaultColor \<and> c_ustyle c = UlNone \<and> c_attrs c = 0 \<and> c_link c = None"

lemma is_blank_iff: "is_blank c \<longleftrightarrow> c = default_cell"
  by (cases c) (auto simp: is_blank_def default_cell_def)

lemma default_cell_simps [simp]:
  "grapheme default_cell = [32]" "\<not> is_wide_spacer default_cell"
  "is_wide_spacer wide_spacer" "grapheme wide_spacer = []"
  "wide_spacer \<noteq> default_cell" "default_cell \<noteq> wide_spacer"
  by (simp_all add: default_cell_def wide_spacer_def is_wide_spacer_def)

section \<open>Widths\<close>

definition width_ok :: "(rstr \<Rightarrow> nat) \<Rightarrow> bool" where
  "width_ok wd \<longleftrightarrow> wd [] = 0 \<and> (\<forall>c. 32 \<le> c \<and> c < 127 \<longrightarrow> wd [c] = 1)"

definition display_width :: "(rstr \<Rightarrow> nat) \<Rightarrow> rstr \<Rightarrow> nat" where
  "display_width wd s = (if wd s \<le> u16_max then wd s else u16_max)"

definition grapheme_advance :: "(rstr \<Rightarrow> nat) \<Rightarrow> rstr \<Rightarrow> nat" where
  "grapheme_advance wd g = max (display_width wd g) 1"

definition cell_advance :: "(rstr \<Rightarrow> nat) \<Rightarrow> rstr \<Rightarrow> nat" where
  "cell_advance wd g = clamp 1 2 (display_width wd g)"

text \<open>
  \<open>truncate_to_width\<close> walks the grapheme clusters of a string (the crate \<open>unicode-segmentation\<close>
  cuts it: the cutting is the parameter \<open>seg\<close>) and keeps the longest prefix whose advance fits.  \<open>used + w\<close>
  is a plain \<open>u16\<close> addition: it cannot overflow while \<open>w\<close> is the width of one cluster of a
  string shorter than \<open>u16::MAX\<close> columns, and the release build wraps.
\<close>

fun truncate_loop :: "(rstr \<Rightarrow> nat) \<Rightarrow> nat \<Rightarrow> nat \<Rightarrow> rstr list \<Rightarrow> rstr list" where
  "truncate_loop wd mx used [] = []"
| "truncate_loop wd mx used (g # gs) =
     (let w = grapheme_advance wd g
      in if as_u16 (used + w) > mx then []
         else g # truncate_loop wd mx (as_u16 (used + w)) gs)"

definition truncate_to_width ::
  "(rstr \<Rightarrow> nat) \<Rightarrow> (rstr \<Rightarrow> rstr list) \<Rightarrow> rstr \<Rightarrow> nat \<Rightarrow> rstr" where
  "truncate_to_width wd seg s mx = concat (truncate_loop wd mx 0 (seg s))"

lemma display_width_le: "display_width wd s \<le> u16_max"
  by (simp add: display_width_def)

lemma display_width_ge2 [simp]: "2 \<le> display_width wd s \<longleftrightarrow> 2 \<le> wd s"
  by (simp add: display_width_def u16_max_def)

lemma cell_advance_bounds: "1 \<le> cell_advance wd g \<and> cell_advance wd g \<le> 2"
  unfolding cell_advance_def by (rule clamp_bounds) simp

lemma width_ok_simps:
  assumes "width_ok wd"
  shows "wd [32] = 1" "wd [] = 0"
  using assms by (simp_all add: width_ok_def)

text \<open>The clusters kept fit in the budget, and they are a prefix of the input.\<close>

lemma truncate_loop_fits:
  "used \<le> mx \<Longrightarrow> mx < u16_max \<Longrightarrow>
     (\<And>g. g \<in> set gs \<Longrightarrow> grapheme_advance wd g \<le> u16_max - mx) \<Longrightarrow>
     used + sum_list (map (grapheme_advance wd) (truncate_loop wd mx used gs)) \<le> mx"
proof (induction gs arbitrary: used)
  case Nil
  then show ?case by simp
next
  case (Cons g gs)
  have w: "grapheme_advance wd g \<le> u16_max - mx"
    using Cons.prems(3) by simp
  then have exact: "as_u16 (used + grapheme_advance wd g) = used + grapheme_advance wd g"
    using Cons.prems(1,2) by (intro as_u16_id) linarith
  show ?case
  proof (cases "used + grapheme_advance wd g > mx")
    case True
    with exact Cons.prems(1) show ?thesis by (simp add: Let_def)
  next
    case False
    then have "used + grapheme_advance wd g \<le> mx" by simp
    from Cons.IH [OF this Cons.prems(2)] Cons.prems(3) False exact show ?thesis
      by (simp add: Let_def add.assoc)
  qed
qed

lemma truncate_loop_prefix: "\<exists>rest. gs = truncate_loop wd mx used gs @ rest"
  by (induction gs arbitrary: used) (simp_all add: Let_def)

end
