(* ===== verification/Grid.thy ===== *)
theory Grid
  imports Cells
begin

unbundle bit_operations_syntax

text \<open>
  The rectangular cell grid: \<open>crates/emulator/src/grid.rs\<close>.  A \<open>RowMark\<close> is the record
  \<open>row_mark\<close> with its private flag byte, a \<open>Row\<close> is \<open>grid_row\<close>, a \<open>Grid\<close> is \<open>grid\<close>.  The lemmas
  show that every operation keeps the grid rectangular and its wide pairs intact, and give the
  closed form of the scrolls and splices.
\<close>

section \<open>Row marks\<close>

datatype wrap_origin = Hard | SoftFrom nat

record row_mark =
  rm_flags :: "8 word"
  rm_prompt_end_col :: nat
  rm_exit_code :: int
  rm_duration_ms :: nat

definition RM_PROMPT_START :: "8 word" where "RM_PROMPT_START = 1"
definition RM_OUTPUT_START :: "8 word" where "RM_OUTPUT_START = 2"
definition RM_BLOCK_END :: "8 word" where "RM_BLOCK_END = 4"
definition RM_PROMPT_END :: "8 word" where "RM_PROMPT_END = 8"
definition RM_FOLDED :: "8 word" where "RM_FOLDED = 16"
definition RM_HAS_DURATION :: "8 word" where "RM_HAS_DURATION = 32"
definition RM_HAS_EXIT :: "8 word" where "RM_HAS_EXIT = 128"

lemmas rm_bits = RM_PROMPT_START_def RM_OUTPUT_START_def RM_BLOCK_END_def RM_PROMPT_END_def
  RM_FOLDED_def RM_HAS_DURATION_def RM_HAS_EXIT_def

definition mark_default :: row_mark where
  "mark_default = \<lparr>rm_flags = 0, rm_prompt_end_col = 0, rm_exit_code = 0, rm_duration_ms = 0\<rparr>"

definition mark_set :: "8 word \<Rightarrow> row_mark \<Rightarrow> row_mark" where
  "mark_set flag m = m\<lparr>rm_flags := rm_flags m OR flag\<rparr>"

definition mark_contains :: "row_mark \<Rightarrow> 8 word \<Rightarrow> bool" where
  "mark_contains m flag \<longleftrightarrow> rm_flags m AND flag \<noteq> 0"

definition set_prompt_end :: "nat \<Rightarrow> row_mark \<Rightarrow> row_mark" where
  "set_prompt_end col m =
     m\<lparr>rm_flags := rm_flags m OR RM_PROMPT_END, rm_prompt_end_col := col\<rparr>"

definition prompt_end_col :: "row_mark \<Rightarrow> nat option" where
  "prompt_end_col m =
     (if rm_flags m AND RM_PROMPT_END \<noteq> 0 then Some (rm_prompt_end_col m) else None)"

definition set_exit :: "int option \<Rightarrow> row_mark \<Rightarrow> row_mark" where
  "set_exit ex m = (case ex of
       Some code \<Rightarrow> m\<lparr>rm_flags := rm_flags m OR RM_HAS_EXIT, rm_exit_code := code\<rparr>
     | None \<Rightarrow> m\<lparr>rm_flags := rm_flags m AND NOT RM_HAS_EXIT, rm_exit_code := 0\<rparr>)"

definition mark_exit :: "row_mark \<Rightarrow> int option" where
  "mark_exit m = (if rm_flags m AND RM_HAS_EXIT \<noteq> 0 then Some (rm_exit_code m) else None)"

definition mark_is_empty :: "row_mark \<Rightarrow> bool" where
  "mark_is_empty m \<longleftrightarrow> rm_flags m = 0"

definition set_folded :: "bool \<Rightarrow> row_mark \<Rightarrow> row_mark" where
  "set_folded folded m =
     (if folded then m\<lparr>rm_flags := rm_flags m OR RM_FOLDED\<rparr>
      else m\<lparr>rm_flags := rm_flags m AND NOT RM_FOLDED\<rparr>)"

definition is_folded :: "row_mark \<Rightarrow> bool" where
  "is_folded m \<longleftrightarrow> rm_flags m AND RM_FOLDED \<noteq> 0"

definition set_duration :: "nat option \<Rightarrow> row_mark \<Rightarrow> row_mark" where
  "set_duration dur m = (case dur of
       Some ms \<Rightarrow> m\<lparr>rm_flags := rm_flags m OR RM_HAS_DURATION, rm_duration_ms := ms\<rparr>
     | None \<Rightarrow> m\<lparr>rm_flags := rm_flags m AND NOT RM_HAS_DURATION, rm_duration_ms := 0\<rparr>)"

definition duration_ms :: "row_mark \<Rightarrow> nat option" where
  "duration_ms m =
     (if rm_flags m AND RM_HAS_DURATION \<noteq> 0 then Some (rm_duration_ms m) else None)"

definition mark_merge :: "row_mark \<Rightarrow> row_mark \<Rightarrow> row_mark" where
  "mark_merge self other =
     (let m1 = self\<lparr>rm_flags := rm_flags self OR rm_flags other\<rparr>;
          m2 = (if rm_flags other AND RM_HAS_EXIT \<noteq> 0
                then m1\<lparr>rm_exit_code := rm_exit_code other\<rparr> else m1);
          m3 = (if rm_flags other AND RM_PROMPT_END \<noteq> 0
                then m2\<lparr>rm_prompt_end_col := rm_prompt_end_col other\<rparr> else m2)
      in if rm_flags other AND RM_HAS_DURATION \<noteq> 0
         then m3\<lparr>rm_duration_ms := rm_duration_ms other\<rparr> else m3)"

section \<open>Rows and the grid\<close>

record grid_row =
  cells :: "cell list"
  wrap_origin :: wrap_origin
  mark :: row_mark

record grid =
  g_rows :: "grid_row list"
  g_cols :: nat

definition blank_row :: "nat \<Rightarrow> grid_row" where
  "blank_row cols = \<lparr>cells = replicate cols default_cell, wrap_origin = Hard, mark = mark_default\<rparr>"

text \<open>One pass over the cells, left to right; each orphan half becomes a blank.\<close>

definition normalize_step :: "(rstr \<Rightarrow> nat) \<Rightarrow> cell list \<Rightarrow> nat \<Rightarrow> cell list" where
  "normalize_step wd cs i =
     (if is_wide_spacer (cs ! i) then
        (if i > 0 \<and> display_width wd (grapheme (cs ! (i - 1))) \<ge> 2 then cs
         else cs[i := default_cell])
      else if display_width wd (grapheme (cs ! i)) \<ge> 2 then
        (if i + 1 < length cs \<and> is_wide_spacer (cs ! (i + 1)) then cs
         else cs[i := default_cell])
      else cs)"

definition normalize_wide_pairs :: "(rstr \<Rightarrow> nat) \<Rightarrow> cell list \<Rightarrow> cell list" where
  "normalize_wide_pairs wd cs = foldl (normalize_step wd) cs [0..<length cs]"

definition grid_new :: "nat \<Rightarrow> nat \<Rightarrow> grid" where
  "grid_new rows cols =
     (let rows = max rows 1; cols = max cols 1
      in \<lparr>g_rows = replicate rows (blank_row cols), g_cols = cols\<rparr>)"

definition num_rows :: "grid \<Rightarrow> nat" where
  "num_rows g = as_u16 (length (g_rows g))"

definition num_cols :: "grid \<Rightarrow> nat" where
  "num_cols g = g_cols g"

text \<open>Replace the row at an index by its image under a function; nothing happens out of range.\<close>

definition map_row :: "nat \<Rightarrow> (grid_row \<Rightarrow> grid_row) \<Rightarrow> grid \<Rightarrow> grid" where
  "map_row r f g = (if r < length (g_rows g)
     then g\<lparr>g_rows := (g_rows g)[r := f (g_rows g ! r)]\<rparr> else g)"

definition put_cell :: "grid \<Rightarrow> nat \<Rightarrow> nat \<Rightarrow> cell \<Rightarrow> grid" where
  "put_cell g row col c = map_row row (\<lambda>r. r\<lparr>cells := (cells r)[col := c]\<rparr>) g"

definition get_cell :: "grid \<Rightarrow> nat \<Rightarrow> nat \<Rightarrow> cell option" where
  "get_cell g row col =
     (case nth_opt (g_rows g) row of None \<Rightarrow> None | Some r \<Rightarrow> nth_opt (cells r) col)"

definition clear_grid_row :: "grid_row \<Rightarrow> grid_row" where
  "clear_grid_row r = r\<lparr>cells := map (\<lambda>_. default_cell) (cells r), wrap_origin := Hard,
     mark := mark_default\<rparr>"

definition grid_clear :: "grid \<Rightarrow> grid" where
  "grid_clear g = g\<lparr>g_rows := map clear_grid_row (g_rows g)\<rparr>"

definition blank_span :: "nat \<Rightarrow> nat \<Rightarrow> cell list \<Rightarrow> cell list" where
  "blank_span start_col end_col cs = foldl (\<lambda>cs c. cs[c := default_cell]) cs [start_col..<Suc end_col]"

definition clear_rect :: "(rstr \<Rightarrow> nat) \<Rightarrow> grid \<Rightarrow> nat \<Rightarrow> nat \<Rightarrow> nat \<Rightarrow> nat \<Rightarrow> grid" where
  "clear_rect wd g start_row start_col end_row end_col =
     (let er = min end_row (num_rows g - 1);
          ec = min end_col (g_cols g - 1)
      in if start_row > er \<or> start_col > ec then g
         else foldl (\<lambda>g r. map_row r (\<lambda>row. row\<lparr>cells :=
                normalize_wide_pairs wd (blank_span start_col ec (cells row))\<rparr>) g)
              g [start_row..<Suc er])"

definition insert_cells :: "(rstr \<Rightarrow> nat) \<Rightarrow> grid \<Rightarrow> nat \<Rightarrow> nat \<Rightarrow> nat \<Rightarrow> grid" where
  "insert_cells wd g row col n =
     (if col \<ge> g_cols g then g
      else let n = min n (g_cols g - col)
           in map_row row (\<lambda>r. r\<lparr>cells := normalize_wide_pairs wd
                (((\<lambda>cs. insert_at col default_cell (butlast cs)) ^^ n) (cells r))\<rparr>) g)"

definition delete_cells :: "(rstr \<Rightarrow> nat) \<Rightarrow> grid \<Rightarrow> nat \<Rightarrow> nat \<Rightarrow> nat \<Rightarrow> grid" where
  "delete_cells wd g row col n =
     (if col \<ge> g_cols g then g
      else let n = min n (g_cols g - col)
           in map_row row (\<lambda>r. r\<lparr>cells := normalize_wide_pairs wd
                (((\<lambda>cs. remove_at col cs @ [default_cell]) ^^ n) (cells r))\<rparr>) g)"

definition scroll_up_once ::
  "nat \<Rightarrow> nat \<Rightarrow> nat \<Rightarrow> grid_row list \<times> grid_row list option \<Rightarrow> grid_row list \<times> grid_row list option"
where
  "scroll_up_once cols tp bt = (\<lambda>(rows, popped).
     (insert_at bt (blank_row cols) (remove_at tp rows),
      map_option (\<lambda>p. p @ [rows ! tp]) popped))"

definition scroll_up ::
  "grid \<Rightarrow> nat \<Rightarrow> nat \<Rightarrow> nat \<Rightarrow> grid_row list option \<Rightarrow> grid \<times> grid_row list option" where
  "scroll_up g tp bt n popped =
     (let bt = min bt (length (g_rows g) - 1)
      in if tp > bt then (g, popped)
         else let n = min n (bt - tp + 1);
                  (rows, popped) = (scroll_up_once (g_cols g) tp bt ^^ n) (g_rows g, popped)
              in (g\<lparr>g_rows := rows\<rparr>, popped))"

definition scroll_down :: "grid \<Rightarrow> nat \<Rightarrow> nat \<Rightarrow> nat \<Rightarrow> grid" where
  "scroll_down g tp bt n =
     (let bt = min bt (length (g_rows g) - 1)
      in if tp > bt then g
         else let n = min n (bt - tp + 1)
              in g\<lparr>g_rows := ((\<lambda>rows. insert_at tp (blank_row (g_cols g)) (remove_at bt rows)) ^^ n)
                    (g_rows g)\<rparr>)"


section \<open>Well-formed grids\<close>

text \<open>Rectangular: at least one row and one column, \<open>u16\<close> dimensions, every row \<open>cols\<close> wide.\<close>

definition grid_wf :: "grid \<Rightarrow> bool" where
  "grid_wf g \<longleftrightarrow> 0 < length (g_rows g) \<and> length (g_rows g) \<le> u16_max
     \<and> 0 < g_cols g \<and> g_cols g \<le> u16_max
     \<and> (\<forall>r \<in> set (g_rows g). length (cells r) = g_cols g)"

text \<open>
  Wide pairs: a spacer follows a wide grapheme, and a wide grapheme is followed by a spacer
  (the condition the tests of \<open>prop_erase.rs\<close> call well-formed).
\<close>

definition is_wide :: "(rstr \<Rightarrow> nat) \<Rightarrow> cell \<Rightarrow> bool" where
  "is_wide wd c \<longleftrightarrow> 2 \<le> display_width wd (grapheme c)"

definition pair_ok_at :: "(rstr \<Rightarrow> nat) \<Rightarrow> cell list \<Rightarrow> nat \<Rightarrow> bool" where
  "pair_ok_at wd cs i \<longleftrightarrow>
     (is_wide_spacer (cs ! i) \<longrightarrow> 0 < i \<and> is_wide wd (cs ! (i - 1)))
     \<and> (is_wide wd (cs ! i) \<longrightarrow> i + 1 < length cs \<and> is_wide_spacer (cs ! (i + 1)))"

definition pairs_ok :: "(rstr \<Rightarrow> nat) \<Rightarrow> cell list \<Rightarrow> bool" where
  "pairs_ok wd cs \<longleftrightarrow> (\<forall>i < length cs. pair_ok_at wd cs i)"

definition grid_pairs :: "(rstr \<Rightarrow> nat) \<Rightarrow> grid \<Rightarrow> bool" where
  "grid_pairs wd g \<longleftrightarrow> (\<forall>r \<in> set (g_rows g). pairs_ok wd (cells r))"

lemma is_wide_default [simp]: "width_ok wd \<Longrightarrow> \<not> is_wide wd default_cell"
  by (simp add: is_wide_def width_ok_simps)

lemma is_wide_not_spacer: "width_ok wd \<Longrightarrow> is_wide wd c \<Longrightarrow> \<not> is_wide_spacer c"
  by (auto simp: is_wide_def is_wide_spacer_def width_ok_simps)

lemma is_wide_spacer_cell [simp]: "width_ok wd \<Longrightarrow> \<not> is_wide wd wide_spacer"
  by (simp add: is_wide_def width_ok_simps)

section \<open>Normalising wide pairs\<close>

lemma normalize_step_wide:
  "normalize_step wd cs i =
     (if is_wide_spacer (cs ! i) then
        (if 0 < i \<and> is_wide wd (cs ! (i - 1)) then cs else cs[i := default_cell])
      else if is_wide wd (cs ! i) then
        (if i + 1 < length cs \<and> is_wide_spacer (cs ! (i + 1)) then cs else cs[i := default_cell])
      else cs)"
  by (simp add: normalize_step_def is_wide_def)

lemma normalize_step_length [simp]: "length (normalize_step wd cs i) = length cs"
  by (simp add: normalize_step_def)

lemma foldl_normalize_length [simp]: "length (foldl (normalize_step wd) cs is) = length cs"
  by (induction "is" arbitrary: cs) simp_all

lemma normalize_length [simp]: "length (normalize_wide_pairs wd cs) = length cs"
  by (simp add: normalize_wide_pairs_def)

lemma normalize_step_other: "j \<noteq> i \<Longrightarrow> normalize_step wd cs i ! j = cs ! j"
  by (simp add: normalize_step_def)

lemma normalize_step_cases:
  "normalize_step wd cs i = cs \<or> normalize_step wd cs i = cs[i := default_cell]"
  by (simp add: normalize_step_def)

text \<open>The pass over the first \<open>k\<close> cells leaves each of them well paired.\<close>

lemma normalize_prefix:
  assumes w: "width_ok wd" and "k \<le> length cs"
  shows "\<forall>i < k. pair_ok_at wd (foldl (normalize_step wd) cs [0..<k]) i"
  using assms(2)
proof (induction k)
  case 0
  then show ?case by simp
next
  case (Suc k)
  define ds where "ds = foldl (normalize_step wd) cs [0..<k]"
  have IH: "\<forall>i < k. pair_ok_at wd ds i"
    using Suc by (simp add: ds_def)
  have len: "k < length ds"
    using Suc.prems by (simp add: ds_def)
  have step: "foldl (normalize_step wd) cs [0..<Suc k] = normalize_step wd ds k"
    by (simp add: ds_def)
  have keep: "pair_ok_at wd (normalize_step wd ds k) i" if i: "i < k" for i
  proof (cases "normalize_step wd ds k = ds")
    case True
    then show ?thesis using IH i by simp
  next
    case False
    then have upd: "normalize_step wd ds k = ds[k := default_cell]"
      using normalize_step_cases by blast
    have "\<not> (is_wide wd (ds ! i) \<and> i + 1 = k)"
    proof
      assume h: "is_wide wd (ds ! i) \<and> i + 1 = k"
      then have "is_wide_spacer (ds ! k)" using IH i by (auto simp: pair_ok_at_def)
      moreover from h have "0 < k \<and> is_wide wd (ds ! (k - 1))" by auto
      ultimately have "normalize_step wd ds k = ds" by (simp add: normalize_step_wide)
      with False show False by simp
    qed
    then show ?thesis
      using IH i unfolding upd pair_ok_at_def by (auto simp: nth_list_update)
  qed
  moreover have "pair_ok_at wd (normalize_step wd ds k) k"
    using w len is_wide_not_spacer [OF w, of "ds ! k"]
    by (auto simp: normalize_step_wide pair_ok_at_def nth_list_update)
  ultimately show ?case
    unfolding step by (auto simp: less_Suc_eq)
qed

lemma normalize_pairs_ok: "width_ok wd \<Longrightarrow> pairs_ok wd (normalize_wide_pairs wd cs)"
  using normalize_prefix [of wd "length cs" cs]
  by (simp add: pairs_ok_def normalize_wide_pairs_def)

lemma normalize_step_id: "pair_ok_at wd cs i \<Longrightarrow> normalize_step wd cs i = cs"
  by (auto simp: normalize_step_wide pair_ok_at_def)

lemma foldl_normalize_id:
  "(\<forall>i \<in> set is. pair_ok_at wd cs i) \<Longrightarrow> foldl (normalize_step wd) cs is = cs"
  by (induction "is") (simp_all add: normalize_step_id)

lemma normalize_id: "pairs_ok wd cs \<Longrightarrow> normalize_wide_pairs wd cs = cs"
  unfolding normalize_wide_pairs_def by (rule foldl_normalize_id) (auto simp: pairs_ok_def)

text \<open>A cell is only ever replaced by a blank, and only a wide grapheme or a spacer is.\<close>

lemma normalize_step_nth:
  "normalize_step wd cs i ! j = cs ! j
     \<or> (normalize_step wd cs i ! j = default_cell \<and> (is_wide wd (cs ! j) \<or> is_wide_spacer (cs ! j)))"
  by (cases "j = i"; cases "i < length cs")
    (auto simp: normalize_step_wide nth_list_update list_update_beyond)

lemma normalize_nth:
  assumes w: "width_ok wd"
  shows "normalize_wide_pairs wd cs ! j = cs ! j
     \<or> (normalize_wide_pairs wd cs ! j = default_cell \<and> (is_wide wd (cs ! j) \<or> is_wide_spacer (cs ! j)))"
proof -
  have "foldl (normalize_step wd) cs is ! j = cs ! j
     \<or> (foldl (normalize_step wd) cs is ! j = default_cell
         \<and> (is_wide wd (cs ! j) \<or> is_wide_spacer (cs ! j)))" for "is"
  proof (induction "is" rule: rev_induct)
    case Nil
    then show ?case by simp
  next
    case (snoc i "is")
    then show ?case
      using normalize_step_nth [of wd "foldl (normalize_step wd) cs is" i j] w by auto
  qed
  then show ?thesis by (simp add: normalize_wide_pairs_def)
qed

section \<open>Dimensions\<close>

lemma grid_new_wf: "rows \<le> u16_max \<Longrightarrow> cols \<le> u16_max \<Longrightarrow> grid_wf (grid_new rows cols)"
  by (auto simp: grid_wf_def grid_new_def Let_def blank_row_def u16_max_def)

lemma grid_new_pairs: "width_ok wd \<Longrightarrow> grid_pairs wd (grid_new rows cols)"
  by (auto simp: grid_pairs_def grid_new_def Let_def blank_row_def pairs_ok_def pair_ok_at_def
      split: if_splits)

lemma grid_new_dims [dims_simps]:
  "length (g_rows (grid_new rows cols)) = max rows 1" "g_cols (grid_new rows cols) = max cols 1"
  by (simp_all add: grid_new_def Let_def)

lemma num_rows_wf: "grid_wf g \<Longrightarrow> num_rows g = length (g_rows g)"
  by (simp add: num_rows_def grid_wf_def as_u16_id)

lemma map_row_dims [dims_simps]:
  "length (g_rows (map_row r f g)) = length (g_rows g)" "g_cols (map_row r f g) = g_cols g"
  by (simp_all add: map_row_def)

lemma map_row_rows:
  "x \<in> set (g_rows (map_row r f g)) \<Longrightarrow> x \<in> set (g_rows g) \<or> (\<exists>y \<in> set (g_rows g). x = f y)"
  by (auto simp: map_row_def dest!: set_update_subset_insert [THEN subsetD] split: if_splits)

lemma map_row_wf [inv_intros]:
  assumes "grid_wf g" and "\<And>r. length (cells r) = g_cols g \<Longrightarrow> length (cells (f r)) = g_cols g"
  shows "grid_wf (map_row i f g)"
  using assms unfolding grid_wf_def by (auto simp: dims_simps dest!: map_row_rows)

lemma map_row_pairs:
  assumes "grid_pairs wd g" and "\<And>r. pairs_ok wd (cells r) \<Longrightarrow> pairs_ok wd (cells (f r))"
  shows "grid_pairs wd (map_row i f g)"
  using assms unfolding grid_pairs_def by (auto dest!: map_row_rows)

lemma put_cell_dims [dims_simps]:
  "length (g_rows (put_cell g r c x)) = length (g_rows g)" "g_cols (put_cell g r c x) = g_cols g"
  by (simp_all add: put_cell_def dims_simps)

lemma put_cell_wf [inv_intros]: "grid_wf g \<Longrightarrow> grid_wf (put_cell g r c x)"
  unfolding put_cell_def by (rule map_row_wf) simp_all

lemma grid_clear_dims [dims_simps]:
  "length (g_rows (grid_clear g)) = length (g_rows g)" "g_cols (grid_clear g) = g_cols g"
  by (simp_all add: grid_clear_def)

lemma grid_clear_wf [inv_intros]: "grid_wf g \<Longrightarrow> grid_wf (grid_clear g)"
  by (auto simp: grid_wf_def grid_clear_def clear_grid_row_def)

lemma grid_clear_pairs: "width_ok wd \<Longrightarrow> grid_pairs wd (grid_clear g)"
  by (auto simp: grid_pairs_def grid_clear_def clear_grid_row_def pairs_ok_def pair_ok_at_def)

lemma foldl_map_row_dims [dims_simps]:
  "length (g_rows (foldl (\<lambda>g r. map_row r f g) g rs)) = length (g_rows g)"
  "g_cols (foldl (\<lambda>g r. map_row r f g) g rs) = g_cols g"
  by (induction rs arbitrary: g) (simp_all add: dims_simps)

lemma blank_span_length [simp]: "length (blank_span a b cs) = length cs"
proof -
  have "length (foldl (\<lambda>cs c. cs[c := default_cell]) cs is) = length cs" for "is"
    by (induction "is" arbitrary: cs) simp_all
  then show ?thesis by (simp add: blank_span_def)
qed

lemma clear_rect_dims [dims_simps]:
  "length (g_rows (clear_rect wd g a b c d)) = length (g_rows g)"
  "g_cols (clear_rect wd g a b c d) = g_cols g"
  by (simp_all add: clear_rect_def Let_def dims_simps)

lemma clear_rect_wf [inv_intros]: "grid_wf g \<Longrightarrow> grid_wf (clear_rect wd g a b c d)"
  unfolding clear_rect_def Let_def
  by (auto intro!: foldl_inv [where P = grid_wf] map_row_wf)

lemma clear_rect_pairs: "width_ok wd \<Longrightarrow> grid_pairs wd g \<Longrightarrow> grid_pairs wd (clear_rect wd g a b c d)"
  unfolding clear_rect_def Let_def
  by (auto intro!: foldl_inv [where P = "grid_pairs wd"] map_row_pairs normalize_pairs_ok)


section \<open>Inserting and deleting cells\<close>

lemma funpow_length:
  fixes f :: "'a list \<Rightarrow> 'a list"
  assumes "\<And>xs. length xs = k \<Longrightarrow> length (f xs) = k" and "length xs = k"
  shows "length ((f ^^ n) xs) = k"
  using funpow_inv [where P = "\<lambda>xs. length xs = k" and s = xs and f = f] assms by simp

lemma insert_cells_dims [dims_simps]:
  "length (g_rows (insert_cells wd g r c n)) = length (g_rows g)"
  "g_cols (insert_cells wd g r c n) = g_cols g"
  by (simp_all add: insert_cells_def Let_def dims_simps)

lemma delete_cells_dims [dims_simps]:
  "length (g_rows (delete_cells wd g r c n)) = length (g_rows g)"
  "g_cols (delete_cells wd g r c n) = g_cols g"
  by (simp_all add: delete_cells_def Let_def dims_simps)

lemma insert_cells_wf [inv_intros]:
  assumes "grid_wf g" shows "grid_wf (insert_cells wd g r c n)"
proof -
  have "0 < g_cols g" using assms by (simp add: grid_wf_def)
  then show ?thesis
    using assms unfolding insert_cells_def Let_def
    by (auto intro!: map_row_wf funpow_length)
qed

lemma delete_cells_wf [inv_intros]:
  assumes "grid_wf g" shows "grid_wf (delete_cells wd g r c n)"
  using assms unfolding delete_cells_def Let_def
  by (auto intro!: map_row_wf funpow_length)

lemma insert_cells_pairs:
  "width_ok wd \<Longrightarrow> grid_pairs wd g \<Longrightarrow> grid_pairs wd (insert_cells wd g r c n)"
  by (auto simp: insert_cells_def Let_def intro!: map_row_pairs normalize_pairs_ok)

lemma delete_cells_pairs:
  "width_ok wd \<Longrightarrow> grid_pairs wd g \<Longrightarrow> grid_pairs wd (delete_cells wd g r c n)"
  by (auto simp: delete_cells_def Let_def intro!: map_row_pairs normalize_pairs_ok)

text \<open>The loops of ICH and DCH in closed form, before the pairs are normalised.\<close>

lemma insert_loop:
  "c \<le> length cs \<Longrightarrow> n \<le> length cs - c \<Longrightarrow>
     ((\<lambda>cs. insert_at c x (butlast cs)) ^^ n) cs
       = take c cs @ replicate n x @ take (length cs - c - n) (drop c cs)"
proof (induction n)
  case 0
  then show ?case by simp
next
  case (Suc n)
  define ys where "ys = take (length cs - c - n) (drop c cs)"
  have ys: "ys \<noteq> []" using Suc.prems by (auto simp: ys_def)
  have last: "butlast ys = take (length cs - c - Suc n) (drop c cs)"
    using Suc.prems by (simp add: ys_def butlast_take)
  have "((\<lambda>cs. insert_at c x (butlast cs)) ^^ Suc n) cs
      = insert_at c x (butlast (take c cs @ replicate n x @ ys))"
    using Suc by (simp add: ys_def)
  also have "\<dots> = insert_at c x (take c cs @ replicate n x @ butlast ys)"
    using ys by (simp add: butlast_append)
  also have "\<dots> = take c cs @ x # replicate n x @ butlast ys"
    using Suc.prems by (simp add: insert_at_def)
  finally show ?case
    using last by simp
qed

lemma delete_loop:
  "c \<le> length cs \<Longrightarrow> n \<le> length cs - c \<Longrightarrow>
     ((\<lambda>cs. remove_at c cs @ [x]) ^^ n) cs = take c cs @ drop (c + n) cs @ replicate n x"
proof (induction n)
  case 0
  then show ?case by simp
next
  case (Suc n)
  have split: "drop (c + n) cs = cs ! (c + n) # drop (Suc (c + n)) cs"
    using Suc.prems by (intro Cons_nth_drop_Suc [symmetric]) simp
  have "((\<lambda>cs. remove_at c cs @ [x]) ^^ Suc n) cs
      = remove_at c (take c cs @ drop (c + n) cs @ replicate n x) @ [x]"
    using Suc by simp
  also have "\<dots> = take c cs @ drop (Suc (c + n)) cs @ replicate n x @ [x]"
    using Suc.prems by (simp add: remove_at_def split min_def)
  finally show ?case
    by (simp add: replicate_append_same)
qed

section \<open>Scrolling\<close>

lemma blank_row_cells [simp]: "length (cells (blank_row cols)) = cols"
  by (simp add: blank_row_def)

lemma blank_row_pairs: "width_ok wd \<Longrightarrow> pairs_ok wd (cells (blank_row cols))"
  by (simp add: blank_row_def pairs_ok_def pair_ok_at_def)

text \<open>
  Scrolling a region up by \<open>n\<close> in closed form: the first \<open>n\<close> rows of the region leave, the rest
  move up, \<open>n\<close> blank rows take the bottom; what is outside the region does not move.
\<close>

lemma scroll_up_loop:
  assumes "tp \<le> bt" "bt < length rows" "n \<le> Suc bt - tp"
  shows "(scroll_up_once cols tp bt ^^ n) (rows, popped) =
     (take tp rows @ take (Suc bt - tp - n) (drop (tp + n) rows) @ replicate n (blank_row cols)
        @ drop (Suc bt) rows,
      map_option (\<lambda>p. p @ take n (drop tp rows)) popped)"
  using assms(3)
proof (induction n)
  case 0
  have "take (Suc bt - tp) (drop tp rows) @ drop (Suc bt) rows = drop tp rows"
    using assms by (metis append_take_drop_id drop_drop le_add_diff_inverse2 le_Suc_eq)
  then show ?case by (cases popped) simp_all
next
  case (Suc n)
  define body where "body = take (Suc bt - tp - n) (drop (tp + n) rows)"
  have body: "body = rows ! (tp + n) # take (Suc bt - tp - Suc n) (drop (tp + Suc n) rows)"
  proof -
    have "drop (tp + n) rows = rows ! (tp + n) # drop (tp + Suc n) rows"
      using Suc.prems assms by (simp add: Cons_nth_drop_Suc)
    moreover have "Suc bt - tp - n = Suc (Suc bt - tp - Suc n)"
      using Suc.prems by simp
    ultimately show ?thesis by (simp add: body_def)
  qed
  have tk: "length (take tp rows) = tp" using assms by simp
  have nxt: "(take tp rows @ body @ xs) ! tp = rows ! (tp + n)" for xs
    using tk by (simp add: nth_append body)
  have cut: "remove_at tp (take tp rows @ body @ xs) = take tp rows @ tl body @ xs" for xs
    using tk by (simp add: remove_at_def body)
  have len: "tp + length (tl body) + n = bt"
    using Suc.prems assms by (simp add: body_def)
  have ins: "insert_at bt b (take tp rows @ tl body @ replicate n b @ xs)
      = take tp rows @ tl body @ replicate (Suc n) b @ xs" for b :: grid_row and xs
    using len tk by (simp add: insert_at_def replicate_append_same flip: len)
  have taken: "take (Suc n) (drop tp rows) = take n (drop tp rows) @ [rows ! (tp + n)]"
    using Suc.prems assms by (simp add: take_Suc_conv_app_nth)
  have tail: "tl body = take (Suc bt - tp - Suc n) (drop (tp + Suc n) rows)"
    by (simp add: body)
  have IH: "(scroll_up_once cols tp bt ^^ n) (rows, popped) =
     (take tp rows @ body @ replicate n (blank_row cols) @ drop (Suc bt) rows,
      map_option (\<lambda>p. p @ take n (drop tp rows)) popped)"
    using Suc by (simp add: body_def)
  have "(scroll_up_once cols tp bt ^^ Suc n) (rows, popped) = scroll_up_once cols tp bt
     (take tp rows @ body @ replicate n (blank_row cols) @ drop (Suc bt) rows,
      map_option (\<lambda>p. p @ take n (drop tp rows)) popped)"
    by (simp only: funpow.simps o_apply IH)
  also have "\<dots> = (take tp rows @ tl body @ replicate (Suc n) (blank_row cols) @ drop (Suc bt) rows,
      map_option (\<lambda>p. p @ take (Suc n) (drop tp rows)) popped)"
    by (cases popped) (simp_all only: scroll_up_once_def prod.case cut ins nxt taken option.map append_assoc)
  finally show ?case
    by (simp only: tail)
qed

lemma scroll_down_loop:
  assumes "tp \<le> bt" "bt < length rows" "n \<le> Suc bt - tp"
  shows "((\<lambda>rows. insert_at tp b (remove_at bt rows)) ^^ n) rows =
     take tp rows @ replicate n b @ take (Suc bt - tp - n) (drop tp rows) @ drop (Suc bt) rows"
  using assms(3)
proof (induction n)
  case 0
  have "take (Suc bt - tp) (drop tp rows) @ drop (Suc bt) rows = drop tp rows"
    using assms by (metis append_take_drop_id drop_drop le_add_diff_inverse2 le_Suc_eq)
  then show ?case by simp
next
  case (Suc n)
  define body where "body = take (Suc bt - tp - n) (drop tp rows)"
  have body: "body = take (Suc bt - tp - Suc n) (drop tp rows) @ [last body]"
    using Suc.prems assms by (simp add: body_def take_Suc_conv_app_nth Suc_diff_le)
  have len: "tp + n + length (butlast body) = bt"
    using Suc.prems assms by (simp add: body_def)
  have "remove_at bt ((take tp rows @ replicate n b @ butlast body) @ last body # drop (Suc bt) rows)
      = (take tp rows @ replicate n b @ butlast body) @ drop (Suc bt) rows"
    using len assms by (simp add: remove_at_def)
  then have cut: "remove_at bt (take tp rows @ replicate n b @ body @ drop (Suc bt) rows)
      = take tp rows @ replicate n b @ butlast body @ drop (Suc bt) rows"
    using body by (metis append.assoc append_Cons append_Nil butlast_snoc)
  have ins: "insert_at tp b (take tp rows @ xs) = take tp rows @ b # xs" for xs
    using assms by (simp add: insert_at_def)
  have IH: "((\<lambda>rows. insert_at tp b (remove_at bt rows)) ^^ n) rows
      = take tp rows @ replicate n b @ body @ drop (Suc bt) rows"
    using Suc by (simp add: body_def)
  have "butlast body = take (Suc bt - tp - Suc n) (drop tp rows)"
    using body by (metis butlast_snoc)
  then show ?case
    unfolding funpow.simps o_def IH cut ins by simp
qed


lemma grid_wf_rows: "grid_wf g \<Longrightarrow> 0 < length (g_rows g)"
  by (simp add: grid_wf_def)

text \<open>The clamped bottom row and the clamped count meet the conditions of the loop lemmas.\<close>

lemma scroll_up_eq:
  assumes "grid_wf g"
  shows "scroll_up g tp bt n popped =
     (let bt = min bt (length (g_rows g) - 1); n = min n (Suc bt - tp)
      in if bt < tp then (g, popped)
         else (g\<lparr>g_rows := take tp (g_rows g) @ take (Suc bt - tp - n) (drop (tp + n) (g_rows g))
                 @ replicate n (blank_row (g_cols g)) @ drop (Suc bt) (g_rows g)\<rparr>,
               map_option (\<lambda>p. p @ take n (drop tp (g_rows g))) popped))"
proof -
  define b where "b = min bt (length (g_rows g) - 1)"
  define m where "m = min n (Suc b - tp)"
  have b: "b < length (g_rows g)" using grid_wf_rows [OF assms] by (simp only: b_def)
  have "scroll_up g tp bt n popped = (if b < tp then (g, popped)
      else let (rows, popped) = (scroll_up_once (g_cols g) tp b ^^ m) (g_rows g, popped)
           in (g\<lparr>g_rows := rows\<rparr>, popped))"
    unfolding scroll_up_def Let_def b_def [symmetric] by (simp add: m_def Suc_diff_le)
  moreover have "m \<le> Suc b - tp" by (simp add: m_def)
  ultimately show ?thesis
    unfolding Let_def b_def [symmetric] m_def [symmetric]
    using b by (simp add: scroll_up_loop)
qed

lemma scroll_down_rows:
  assumes "grid_wf g"
  shows "scroll_down g tp bt n =
     (let bt = min bt (length (g_rows g) - 1); n = min n (Suc bt - tp)
      in if bt < tp then g
         else g\<lparr>g_rows := take tp (g_rows g) @ replicate n (blank_row (g_cols g))
                 @ take (Suc bt - tp - n) (drop tp (g_rows g)) @ drop (Suc bt) (g_rows g)\<rparr>)"
proof -
  define b where "b = min bt (length (g_rows g) - 1)"
  define m where "m = min n (Suc b - tp)"
  have b: "b < length (g_rows g)" using grid_wf_rows [OF assms] by (simp only: b_def)
  have "scroll_down g tp bt n = (if b < tp then g
      else g\<lparr>g_rows := ((\<lambda>rows. insert_at tp (blank_row (g_cols g)) (remove_at b rows)) ^^ m)
                    (g_rows g)\<rparr>)"
    unfolding scroll_down_def Let_def b_def [symmetric] by (simp add: m_def Suc_diff_le)
  moreover have "m \<le> Suc b - tp" by (simp add: m_def)
  ultimately show ?thesis
    unfolding Let_def b_def [symmetric] m_def [symmetric]
    using b by (simp add: scroll_down_loop)
qed

lemma region_bounds:
  assumes "grid_wf g"
  obtains b where "b = min bt (length (g_rows g) - 1)" "Suc b \<le> length (g_rows g)"
proof
  show "Suc (min bt (length (g_rows g) - 1)) \<le> length (g_rows g)"
    using grid_wf_rows [OF assms] by linarith
qed simp

lemma scroll_up_cols [dims_simps]: "g_cols (fst (scroll_up g tp bt n p)) = g_cols g"
  by (auto simp: scroll_up_def Let_def split: prod.splits)

lemma scroll_down_cols [dims_simps]: "g_cols (scroll_down g tp bt n) = g_cols g"
  by (simp add: scroll_down_def Let_def)

lemma scroll_up_num_rows [dims_simps]:
  assumes "grid_wf g"
  shows "length (g_rows (fst (scroll_up g tp bt n p))) = length (g_rows g)"
proof -
  obtain b where b: "b = min bt (length (g_rows g) - 1)" "Suc b \<le> length (g_rows g)"
    using assms by (rule region_bounds)
  define m where "m = min n (Suc b - tp)"
  have "m \<le> Suc b - tp" by (simp add: m_def)
  then show ?thesis
    unfolding scroll_up_eq [OF assms] Let_def b(1) [symmetric] m_def [symmetric]
    using b(2) by simp
qed

lemma scroll_down_num_rows [dims_simps]:
  assumes "grid_wf g"
  shows "length (g_rows (scroll_down g tp bt n)) = length (g_rows g)"
proof -
  obtain b where b: "b = min bt (length (g_rows g) - 1)" "Suc b \<le> length (g_rows g)"
    using assms by (rule region_bounds)
  define m where "m = min n (Suc b - tp)"
  have "m \<le> Suc b - tp" by (simp add: m_def)
  then show ?thesis
    unfolding scroll_down_rows [OF assms] Let_def b(1) [symmetric] m_def [symmetric]
    using b(2) by simp
qed

lemma scroll_up_set:
  "grid_wf g \<Longrightarrow> set (g_rows (fst (scroll_up g tp bt n p))) \<subseteq> insert (blank_row (g_cols g)) (set (g_rows g))"
  by (auto simp: scroll_up_eq Let_def dest: in_set_takeD in_set_dropD)

lemma scroll_down_set:
  "grid_wf g \<Longrightarrow> set (g_rows (scroll_down g tp bt n)) \<subseteq> insert (blank_row (g_cols g)) (set (g_rows g))"
  by (auto simp: scroll_down_rows Let_def dest: in_set_takeD in_set_dropD)

lemma scroll_up_wf [inv_intros]: "grid_wf g \<Longrightarrow> grid_wf (fst (scroll_up g tp bt n p))"
  using scroll_up_set [of g tp bt n p] by (auto simp: grid_wf_def dims_simps)

lemma scroll_down_wf [inv_intros]: "grid_wf g \<Longrightarrow> grid_wf (scroll_down g tp bt n)"
  using scroll_down_set [of g tp bt n] by (auto simp: grid_wf_def dims_simps)

lemma scroll_up_pairs:
  "width_ok wd \<Longrightarrow> grid_wf g \<Longrightarrow> grid_pairs wd g \<Longrightarrow> grid_pairs wd (fst (scroll_up g tp bt n p))"
  using scroll_up_set [of g tp bt n p] blank_row_pairs [of wd "g_cols g"]
  by (auto simp: grid_pairs_def)

lemma scroll_down_pairs:
  "width_ok wd \<Longrightarrow> grid_wf g \<Longrightarrow> grid_pairs wd g \<Longrightarrow> grid_pairs wd (scroll_down g tp bt n)"
  using scroll_down_set [of g tp bt n] blank_row_pairs [of wd "g_cols g"]
  by (auto simp: grid_pairs_def)

text \<open>Every row a scroll hands over for the scrollback is a row of the grid.\<close>

lemma scroll_up_popped_rows:
  "grid_wf g \<Longrightarrow> snd (scroll_up g tp bt n (Some [])) = Some rs \<Longrightarrow> set rs \<subseteq> set (g_rows g)"
  by (auto simp: scroll_up_eq Let_def split: if_splits dest: in_set_takeD in_set_dropD)

section \<open>Row marks: accessors against mutators\<close>

lemma bit_or_nonzero [simp]: "(x OR b) AND b = (b :: 8 word)"
  by (rule bit_word_eqI) (auto simp: bit_simps)

lemma bit_clear_zero [simp]: "(x AND NOT b) AND b = (0 :: 8 word)"
  by (rule bit_word_eqI) (auto simp: bit_simps)

lemma rm_nonzero [simp]: "RM_HAS_EXIT \<noteq> 0" "RM_HAS_DURATION \<noteq> 0" "RM_PROMPT_END \<noteq> 0" "RM_FOLDED \<noteq> 0"
  by (simp_all add: rm_bits)

lemma exit_set_exit: "mark_exit (set_exit ex m) = ex"
  by (cases ex) (simp_all add: mark_exit_def set_exit_def)

lemma duration_set_duration: "duration_ms (set_duration d m) = d"
  by (cases d) (simp_all add: duration_ms_def set_duration_def)

lemma prompt_end_set: "prompt_end_col (set_prompt_end c m) = Some c"
  by (simp add: prompt_end_col_def set_prompt_end_def)

lemma folded_set: "is_folded (set_folded f m) = f"
  by (simp add: is_folded_def set_folded_def)

lemma rm_or_disjoint:
  "(x OR RM_HAS_EXIT) AND RM_HAS_DURATION = x AND RM_HAS_DURATION"
  "(x AND NOT RM_HAS_EXIT) AND RM_HAS_DURATION = x AND RM_HAS_DURATION"
  "(x OR RM_HAS_DURATION) AND RM_HAS_EXIT = x AND RM_HAS_EXIT"
  "(x AND NOT RM_HAS_DURATION) AND RM_HAS_EXIT = x AND RM_HAS_EXIT"
proof -
  have disj: "RM_HAS_EXIT AND RM_HAS_DURATION = 0" by (simp add: rm_bits)
  have A: "(x OR a) AND b = x AND b" if "a AND b = 0" for a b :: "8 word"
    using that by (simp add: bit.conj_disj_distrib2)
  have B: "(x AND NOT a) AND b = x AND b" if "a AND b = 0" for a b :: "8 word"
  proof (rule bit_word_eqI)
    fix n assume "n < LENGTH(8)"
    moreover have "bit (a AND b) n = False" using that by simp
    ultimately show "bit ((x AND NOT a) AND b) n = bit (x AND b) n"
      by (auto simp: bit_simps)
  qed
  show "(x OR RM_HAS_EXIT) AND RM_HAS_DURATION = x AND RM_HAS_DURATION"
    "(x AND NOT RM_HAS_EXIT) AND RM_HAS_DURATION = x AND RM_HAS_DURATION"
    "(x OR RM_HAS_DURATION) AND RM_HAS_EXIT = x AND RM_HAS_EXIT"
    "(x AND NOT RM_HAS_DURATION) AND RM_HAS_EXIT = x AND RM_HAS_EXIT"
    using disj A B by (simp_all add: and.commute)
qed

lemma exit_set_duration: "mark_exit (set_duration d m) = mark_exit m"
  by (cases d) (simp_all add: mark_exit_def set_duration_def rm_or_disjoint)

lemma duration_set_exit: "duration_ms (set_exit ex m) = duration_ms m"
  by (cases ex) (simp_all add: duration_ms_def set_exit_def rm_or_disjoint)

text \<open>A merge takes the other mark's exit code when it has one and keeps its own otherwise.\<close>

lemma word_or_eq_0 [simp]: "x OR y = 0 \<longleftrightarrow> x = 0 \<and> y = (0 :: 8 word)"
  by (auto simp: bit_eq_iff bit_simps)

lemma exit_merge:
  "mark_exit (mark_merge a b) = (case mark_exit b of Some c \<Rightarrow> Some c | None \<Rightarrow> mark_exit a)"
  by (auto simp: mark_exit_def mark_merge_def Let_def bit.conj_disj_distrib2)

lemma duration_merge:
  "duration_ms (mark_merge a b) = (case duration_ms b of Some c \<Rightarrow> Some c | None \<Rightarrow> duration_ms a)"
  by (auto simp: duration_ms_def mark_merge_def Let_def bit.conj_disj_distrib2)

lemma prompt_end_merge:
  "prompt_end_col (mark_merge a b) =
     (case prompt_end_col b of Some c \<Rightarrow> Some c | None \<Rightarrow> prompt_end_col a)"
  by (auto simp: prompt_end_col_def mark_merge_def Let_def bit.conj_disj_distrib2)

end
