(* ===== verification/Screen_Tables.thy ===== *)
theory Screen_Tables
  imports Prelude
begin

text \<open>The small tables of a screen: tab stops, hyperlinks and modes.\<close>

text \<open>
  Tab stops: \<open>crates/emulator/src/tabs.rs\<close>.  \<open>TabStops\<close> is its vector of booleans.  The lemmas
  characterise \<open>next\<close> and \<open>prev\<close> as the nearest stop on either side.
\<close>

type_synonym tab_stops = "bool list"

definition default_interval :: nat where "default_interval = 8"

definition tabs_new :: "nat \<Rightarrow> tab_stops" where
  "tabs_new cols = map (\<lambda>i. i mod default_interval = 0) [0..<cols]"

definition tabs_set :: "tab_stops \<Rightarrow> nat \<Rightarrow> tab_stops" where
  "tabs_set t col = t[col := True]"

definition tabs_clear :: "tab_stops \<Rightarrow> nat \<Rightarrow> tab_stops" where
  "tabs_clear t col = t[col := False]"

definition tabs_clear_all :: "tab_stops \<Rightarrow> tab_stops" where
  "tabs_clear_all t = map (\<lambda>_. False) t"

definition tabs_next :: "tab_stops \<Rightarrow> nat \<Rightarrow> nat option" where
  "tabs_next t col = map_option as_u16 (find (\<lambda>i. t ! i) [col + 1..<length t])"

definition tabs_prev :: "tab_stops \<Rightarrow> nat \<Rightarrow> nat option" where
  "tabs_prev t col =
     (let start = min col (length t)
      in map_option as_u16 (find (\<lambda>i. t ! i) (rev [0..<start])))"

definition tabs_resize :: "tab_stops \<Rightarrow> nat \<Rightarrow> tab_stops" where
  "tabs_resize t cols =
     (let old_len = length t;
          t1 = take cols t @ replicate (cols - old_len) False
      in if cols > old_len
         then foldl (\<lambda>t i. if i mod default_interval = 0 then t[i := True] else t) t1 [old_len..<cols]
         else t1)"

section \<open>Nearest stops\<close>

lemma tabs_next_Some:
  assumes "length t \<le> u16_max"
  shows "tabs_next t col = Some n \<longleftrightarrow>
     col < n \<and> n < length t \<and> t ! n \<and> (\<forall>j. col < j \<and> j < n \<longrightarrow> \<not> t ! j)"
proof -
  have "tabs_next t col = Some n \<longleftrightarrow> find (\<lambda>i. t ! i) [col + 1..<length t] = Some n"
    using assms by (auto simp: tabs_next_def find_upt_Some as_u16_id)
  then show ?thesis by (auto simp: find_upt_Some Suc_le_eq)
qed

lemma tabs_next_None:
  "tabs_next t col = None \<longleftrightarrow> (\<forall>j. col < j \<and> j < length t \<longrightarrow> \<not> t ! j)"
  by (auto simp: tabs_next_def find_None_iff Suc_le_eq)

lemma tabs_prev_Some:
  assumes "length t \<le> u16_max"
  shows "tabs_prev t col = Some n \<longleftrightarrow>
     n < col \<and> n < length t \<and> t ! n \<and> (\<forall>j. n < j \<and> j < col \<and> j < length t \<longrightarrow> \<not> t ! j)"
proof -
  have "tabs_prev t col = Some n \<longleftrightarrow> find (\<lambda>i. t ! i) (rev [0..<min col (length t)]) = Some n"
    using assms by (auto simp: tabs_prev_def Let_def find_rev_upt_Some as_u16_id)
  then show ?thesis by (auto simp: find_rev_upt_Some)
qed

lemma tabs_prev_less: "length t \<le> u16_max \<Longrightarrow> tabs_prev t col = Some n \<Longrightarrow> n < col"
  by (simp add: tabs_prev_Some)

lemma tabs_next_less: "length t \<le> u16_max \<Longrightarrow> tabs_next t col = Some n \<Longrightarrow> n < length t"
  by (simp add: tabs_next_Some)

section \<open>Lengths\<close>

lemma tabs_lengths [dims_simps]:
  "length (tabs_new cols) = cols" "length (tabs_set t c) = length t"
  "length (tabs_clear t c) = length t" "length (tabs_clear_all t) = length t"
  by (simp_all add: tabs_new_def tabs_set_def tabs_clear_def tabs_clear_all_def)

lemma foldl_seed_length:
  "length (foldl (\<lambda>t i. if P i then t[i := True] else t) t is) = length t"
  by (induction "is" arbitrary: t) auto

lemma tabs_resize_length [dims_simps]: "length (tabs_resize t cols) = cols"
  by (simp add: tabs_resize_def Let_def foldl_seed_length)

lemma foldl_seed_nth:
  "i < length t \<Longrightarrow> foldl (\<lambda>t i. if P i then t[i := True] else t) t is ! i \<longleftrightarrow> t ! i \<or> (P i \<and> i \<in> set is)"
proof (induction "is" arbitrary: t)
  case (Cons a "is")
  then show ?case by (cases "a = i") (auto simp: nth_list_update)
qed simp

text \<open>Resizing keeps the stops that survive and seeds the new tail with the defaults.\<close>

lemma tabs_resize_nth:
  assumes "i < cols"
  shows "tabs_resize t cols ! i =
     (if i < length t then t ! i else i mod default_interval = 0)"
  using assms by (auto simp: tabs_resize_def Let_def foldl_seed_nth nth_append)

lemma tabs_resize_new: "tabs_resize (tabs_new a) b = tabs_new b"
  by (rule nth_equalityI) (auto simp: dims_simps tabs_resize_nth tabs_new_def)

text \<open>
  The OSC 8 hyperlink table: \<open>crates/emulator/src/hyperlinks.rs\<close>.  An id is an index into \<open>urls\<close>.
  The lemmas show that the table has no duplicates, that an interned URL is found under its id
  and that earlier ids keep their meaning.
\<close>

record link_table =
  urls :: "rstr list"
  full_warned :: bool

definition link_table_default :: link_table where
  "link_table_default = \<lparr>urls = [], full_warned = False\<rparr>"

definition intern :: "rstr \<Rightarrow> link_table \<Rightarrow> nat option \<times> link_table" where
  "intern url t =
     (case position (\<lambda>u. u = url) (urls t) of
        Some idx \<Rightarrow> (Some (as_u16 idx), t)
      | None \<Rightarrow>
          if length (urls t) \<ge> u16_max then
            (None, if \<not> full_warned t then t\<lparr>full_warned := True\<rparr> else t)
          else (Some (as_u16 (length (urls t))), t\<lparr>urls := urls t @ [url]\<rparr>))"

definition link_get :: "nat \<Rightarrow> link_table \<Rightarrow> rstr option" where
  "link_get i t = nth_opt (urls t) i"

definition links_ok :: "link_table \<Rightarrow> bool" where
  "links_ok t \<longleftrightarrow> distinct (urls t) \<and> length (urls t) \<le> u16_max"

lemma links_default_ok [simp]: "links_ok link_table_default"
  by (simp add: links_ok_def link_table_default_def)

lemma intern_ok [inv_intros]: "links_ok t \<Longrightarrow> links_ok (snd (intern url t))"
  by (auto simp: intern_def links_ok_def position_None split: option.splits)

lemma intern_get:
  assumes "links_ok t" "fst (intern url t) = Some i"
  shows "link_get i (snd (intern url t)) = Some url"
proof (cases "position (\<lambda>u. u = url) (urls t)")
  case None
  with assms show ?thesis
    by (auto simp: intern_def link_get_def links_ok_def as_u16_id split: if_splits)
next
  case (Some idx)
  then have "idx < length (urls t)" "urls t ! idx = url"
    by (simp_all add: position_Some)
  with Some assms show ?thesis
    by (simp add: intern_def link_get_def links_ok_def as_u16_id)
qed

lemma intern_stable:
  "link_get i t = Some u \<Longrightarrow> link_get i (snd (intern url t)) = Some u"
  by (auto simp: intern_def link_get_def nth_append split: option.splits)

lemma intern_full:
  "fst (intern url t) = None \<longleftrightarrow> url \<notin> set (urls t) \<and> u16_max \<le> length (urls t)"
  by (auto simp: intern_def position_None position_Some split: option.splits)

lemma intern_idem:
  assumes "links_ok t" "fst (intern url t) = Some i"
  shows "intern url (snd (intern url t)) = (Some i, snd (intern url t))"
proof -
  let ?t = "snd (intern url t)"
  have ok: "links_ok ?t" using assms(1) by (rule intern_ok)
  have get: "i < length (urls ?t)" "urls ?t ! i = url"
    using intern_get [OF assms] by (simp_all add: link_get_def)
  have "position (\<lambda>u. u = url) (urls ?t) = Some i"
    using ok get unfolding position_Some links_ok_def
    by (metis less_trans nat_less_le nth_eq_iff_index_eq)
  then show ?thesis
    using get ok by (simp add: intern_def links_ok_def as_u16_id)
qed

unbundle bit_operations_syntax

text \<open>
  DEC private modes: \<open>crates/emulator/src/modes.rs\<close>.  \<open>Modes\<close> is its 64-bit flag word; \<open>insert\<close>
  and \<open>remove\<close> are the \<open>bitflags\<close> methods.
\<close>

type_synonym modes = "64 word"

definition M_AUTOWRAP :: modes where "M_AUTOWRAP = push_bit 0 1"
definition M_ORIGIN :: modes where "M_ORIGIN = push_bit 1 1"
definition M_ALT_SCREEN :: modes where "M_ALT_SCREEN = push_bit 3 1"
definition M_CURSOR_VISIBLE :: modes where "M_CURSOR_VISIBLE = push_bit 4 1"
definition M_BRACKETED_PASTE :: modes where "M_BRACKETED_PASTE = push_bit 5 1"
definition M_MOUSE_X10 :: modes where "M_MOUSE_X10 = push_bit 6 1"
definition M_MOUSE_BTN :: modes where "M_MOUSE_BTN = push_bit 7 1"
definition M_MOUSE_ANY :: modes where "M_MOUSE_ANY = push_bit 8 1"
definition M_MOUSE_SGR :: modes where "M_MOUSE_SGR = push_bit 9 1"
definition M_APP_CURSOR_KEYS :: modes where "M_APP_CURSOR_KEYS = push_bit 10 1"
definition M_APP_KEYPAD :: modes where "M_APP_KEYPAD = push_bit 11 1"
definition M_MOUSE_BTN_EVENT :: modes where "M_MOUSE_BTN_EVENT = push_bit 12 1"
definition M_FOCUS_EVENTS :: modes where "M_FOCUS_EVENTS = push_bit 13 1"
definition M_COLOR_SCHEME_UPDATES :: modes where "M_COLOR_SCHEME_UPDATES = push_bit 14 1"

lemmas mode_bits = M_AUTOWRAP_def M_ORIGIN_def M_ALT_SCREEN_def M_CURSOR_VISIBLE_def
  M_BRACKETED_PASTE_def M_MOUSE_X10_def M_MOUSE_BTN_def M_MOUSE_ANY_def M_MOUSE_SGR_def
  M_APP_CURSOR_KEYS_def M_APP_KEYPAD_def M_MOUSE_BTN_EVENT_def M_FOCUS_EVENTS_def
  M_COLOR_SCHEME_UPDATES_def

definition m_insert :: "modes \<Rightarrow> modes \<Rightarrow> modes" where
  "m_insert flag m = m OR flag"

definition m_remove :: "modes \<Rightarrow> modes \<Rightarrow> modes" where
  "m_remove flag m = m AND NOT flag"

definition m_contains :: "modes \<Rightarrow> modes \<Rightarrow> bool" where
  "m_contains m flag \<longleftrightarrow> m AND flag = flag"

definition modes_default :: modes where
  "modes_default = M_AUTOWRAP OR M_CURSOR_VISIBLE"

definition mouse_reporting_bits :: modes where
  "mouse_reporting_bits =
     M_MOUSE_X10 OR M_MOUSE_BTN OR M_MOUSE_BTN_EVENT OR M_MOUSE_ANY OR M_MOUSE_SGR"

definition any_mouse_mode_active :: "modes \<Rightarrow> bool" where
  "any_mouse_mode_active m \<longleftrightarrow> m AND mouse_reporting_bits \<noteq> 0"

definition decrqm_flag :: "nat \<Rightarrow> modes option" where
  "decrqm_flag ps =
     (if ps = 1 then Some M_APP_CURSOR_KEYS
      else if ps = 6 then Some M_ORIGIN
      else if ps = 7 then Some M_AUTOWRAP
      else if ps = 25 then Some M_CURSOR_VISIBLE
      else if ps = 9 then Some M_MOUSE_X10
      else if ps = 1000 then Some M_MOUSE_BTN
      else if ps = 1002 then Some M_MOUSE_BTN_EVENT
      else if ps = 1003 then Some M_MOUSE_ANY
      else if ps = 1006 then Some M_MOUSE_SGR
      else if ps = 1004 then Some M_FOCUS_EVENTS
      else if ps = 1049 then Some M_ALT_SCREEN
      else if ps = 2004 then Some M_BRACKETED_PASTE
      else if ps = 2031 then Some M_COLOR_SCHEME_UPDATES
      else None)"

definition decrqm_state :: "modes \<Rightarrow> nat \<Rightarrow> nat" where
  "decrqm_state m ps =
     (case decrqm_flag ps of None \<Rightarrow> 0 | Some flag \<Rightarrow> if m_contains m flag then 1 else 2)"

lemma m_contains_insert [simp]: "m_contains (m_insert f m) f"
  unfolding m_contains_def m_insert_def by (rule bit_word_eqI) (auto simp: bit_simps)

lemma m_contains_remove [simp]: "f \<noteq> 0 \<Longrightarrow> \<not> m_contains (m_remove f m) f"
proof -
  have "(m AND NOT f) AND f = 0"
    by (rule bit_word_eqI) (auto simp: bit_simps)
  then show "f \<noteq> 0 \<Longrightarrow> \<not> m_contains (m_remove f m) f"
    by (simp add: m_contains_def m_remove_def)
qed

lemma m_contains_other:
  assumes "f AND g = 0"
  shows "m_contains (m_insert f m) g = m_contains m g" "m_contains (m_remove f m) g = m_contains m g"
proof -
  have "(m OR f) AND g = m AND g"
    using assms by (simp add: bit.conj_disj_distrib2)
  then show "m_contains (m_insert f m) g = m_contains m g"
    by (simp add: m_contains_def m_insert_def)
  have "(m AND NOT f) AND g = m AND g"
  proof (rule bit_word_eqI)
    fix n assume "n < LENGTH(64)"
    moreover have "bit (f AND g) n = False" using assms by simp
    ultimately show "bit ((m AND NOT f) AND g) n = bit (m AND g) n"
      by (auto simp: bit_simps)
  qed
  then show "m_contains (m_remove f m) g = m_contains m g"
    by (simp add: m_contains_def m_remove_def)
qed

lemma m_remove_insert:
  assumes "\<not> m_contains m f" "\<exists>i. f = push_bit i 1"
  shows "m_remove f (m_insert f m) = m"
proof -
  from assms(2) obtain i where f: "f = push_bit i 1" by blast
  show ?thesis
  proof (rule bit_word_eqI)
    fix n assume n: "n < LENGTH(64)"
    have "\<not> bit m i \<or> f = 0"
    proof (rule ccontr)
      assume "\<not> ?thesis"
      then have "m AND f = f"
        by (intro bit_word_eqI) (auto simp: f bit_simps)
      with assms(1) show False by (simp add: m_contains_def)
    qed
    then show "bit (m_remove f (m_insert f m)) n = bit m n"
      using n by (auto simp: m_remove_def m_insert_def f bit_simps)
  qed
qed

end
