(* ===== verification/Cursor.thy ===== *)
theory Cursor
  imports Cells
begin

text \<open>
  The cursor: \<open>crates/emulator/src/cursor.rs\<close>.  \<open>move_to\<close>, \<open>up\<close>, \<open>down\<close>, \<open>left\<close> and \<open>right\<close> are
  the methods of the same name; each clamps into the grid and ends a pending wrap.
\<close>

datatype cursor_shape = ShapeDefault | ShapeBlock | ShapeUnderline | ShapeBar

record cursor =
  row :: nat
  col :: nat
  attrs :: attrs
  fg :: color
  bg :: color
  underline_color :: color
  underline_style :: underline_style
  hyperlink_id :: "nat option"
  pending_wrap :: bool
  visible :: bool
  shape :: cursor_shape
  blink :: bool

definition cursor_default :: cursor where
  "cursor_default = \<lparr>row = 0, col = 0, attrs = 0, fg = DefaultColor, bg = DefaultColor,
     underline_color = DefaultColor, underline_style = UlNone, hyperlink_id = None,
     pending_wrap = False, visible = True, shape = ShapeDefault, blink = True\<rparr>"

definition move_to :: "nat \<Rightarrow> nat \<Rightarrow> nat \<Rightarrow> nat \<Rightarrow> cursor \<Rightarrow> cursor" where
  "move_to r c max_rows max_cols cur =
     cur\<lparr>row := min r (retreat max_rows 1), col := min c (retreat max_cols 1), pending_wrap := False\<rparr>"

definition cur_up :: "nat \<Rightarrow> cursor \<Rightarrow> cursor" where
  "cur_up n cur = cur\<lparr>row := retreat (row cur) n, pending_wrap := False\<rparr>"

definition cur_down :: "nat \<Rightarrow> nat \<Rightarrow> cursor \<Rightarrow> cursor" where
  "cur_down n max_rows cur =
     cur\<lparr>row := min (advance (row cur) n) (retreat max_rows 1), pending_wrap := False\<rparr>"

definition cur_left :: "nat \<Rightarrow> cursor \<Rightarrow> cursor" where
  "cur_left n cur = cur\<lparr>col := retreat (col cur) n, pending_wrap := False\<rparr>"

definition cur_right :: "nat \<Rightarrow> nat \<Rightarrow> cursor \<Rightarrow> cursor" where
  "cur_right n max_cols cur =
     cur\<lparr>col := min (advance (col cur) n) (retreat max_cols 1), pending_wrap := False\<rparr>"

lemma cursor_default_pos [simp]:
  "row cursor_default = 0" "col cursor_default = 0" "\<not> pending_wrap cursor_default"
  by (simp_all add: cursor_default_def)

section \<open>Bounds\<close>

text \<open>
  A position inside a grid of the given size.  A wide grapheme printed in a one-column grid
  leaves the column at 1, so the column bound is that of a grid of at least two columns.
\<close>

definition in_bounds :: "nat \<Rightarrow> nat \<Rightarrow> cursor \<Rightarrow> bool" where
  "in_bounds rows cols cur \<longleftrightarrow> row cur < rows \<and> col cur < max cols 2"

lemma in_bounds_default: "0 < rows \<Longrightarrow> in_bounds rows cols cursor_default"
  by (simp add: in_bounds_def)

lemma in_bounds_moves [inv_intros]:
  assumes "0 < rows" "0 < cols"
  shows "in_bounds rows cols (move_to r c rows cols cur)"
    "in_bounds rows cols cur \<Longrightarrow> in_bounds rows cols (cur_up n cur)"
    "in_bounds rows cols cur \<Longrightarrow> in_bounds rows cols (cur_down n rows cur)"
    "in_bounds rows cols cur \<Longrightarrow> in_bounds rows cols (cur_left n cur)"
    "in_bounds rows cols cur \<Longrightarrow> in_bounds rows cols (cur_right n cols cur)"
  using assms
  by (auto simp: in_bounds_def move_to_def cur_up_def cur_down_def cur_left_def cur_right_def
      retreat_def)

text \<open>Every motion ends a pending wrap.\<close>

lemma moves_end_wrap:
  "\<not> pending_wrap (move_to r c a b cur)" "\<not> pending_wrap (cur_up n cur)"
  "\<not> pending_wrap (cur_down n a cur)" "\<not> pending_wrap (cur_left n cur)"
  "\<not> pending_wrap (cur_right n a cur)"
  by (simp_all add: move_to_def cur_up_def cur_down_def cur_left_def cur_right_def)

end
