(* ===== verification/Keyboard.thy ===== *)
theory Keyboard
  imports Prelude
begin

unbundle bit_operations_syntax

text \<open>
  Keyboard-protocol negotiation: \<open>crates/emulator/src/keyboard.rs\<close>.  The Kitty flag stack is a
  bounded buffer: a push past the cap evicts the oldest entry.
\<close>

datatype screen_buffer = Main | Alt

definition kitty_stack_cap :: nat where "kitty_stack_cap = 32"

record kitty_stack =
  ks_current :: "8 word"
  ks_stack :: "8 word list"

definition ks_default :: kitty_stack where
  "ks_default = \<lparr>ks_current = 0, ks_stack = []\<rparr>"

definition ks_set :: "8 word \<Rightarrow> nat \<Rightarrow> kitty_stack \<Rightarrow> kitty_stack" where
  "ks_set flags mode k =
     (if mode = 2 then k\<lparr>ks_current := ks_current k OR flags\<rparr>
      else if mode = 3 then k\<lparr>ks_current := ks_current k AND NOT flags\<rparr>
      else k\<lparr>ks_current := flags\<rparr>)"

definition ks_push :: "8 word \<Rightarrow> kitty_stack \<Rightarrow> kitty_stack" where
  "ks_push flags k =
     (let st = ks_stack k @ [ks_current k];
          st = (if length st > kitty_stack_cap then remove_at 0 st else st)
      in k\<lparr>ks_stack := st, ks_current := flags\<rparr>)"

fun ks_pop_loop :: "nat \<Rightarrow> kitty_stack \<Rightarrow> kitty_stack" where
  "ks_pop_loop 0 k = k"
| "ks_pop_loop (Suc n) k =
     (case last_opt (ks_stack k) of
        Some prev \<Rightarrow> ks_pop_loop n (k\<lparr>ks_stack := butlast (ks_stack k), ks_current := prev\<rparr>)
      | None \<Rightarrow> k\<lparr>ks_current := 0\<rparr>)"

definition ks_pop :: "nat \<Rightarrow> kitty_stack \<Rightarrow> kitty_stack" where
  "ks_pop n k = ks_pop_loop (max n 1) k"

definition ks_clear :: "kitty_stack \<Rightarrow> kitty_stack" where
  "ks_clear k = k\<lparr>ks_current := 0, ks_stack := []\<rparr>"

record keyboard =
  modify_other_keys :: nat
  kitty_main :: kitty_stack
  kitty_alt :: kitty_stack

definition kbd_default :: keyboard where
  "kbd_default = \<lparr>modify_other_keys = 0, kitty_main = ks_default, kitty_alt = ks_default\<rparr>"

definition set_modify_other_keys :: "nat \<Rightarrow> keyboard \<Rightarrow> keyboard" where
  "set_modify_other_keys level k = (if level \<le> 2 then k\<lparr>modify_other_keys := as_u8 level\<rparr> else k)"

definition reset_modify_other_keys :: "keyboard \<Rightarrow> keyboard" where
  "reset_modify_other_keys k = k\<lparr>modify_other_keys := 0\<rparr>"

definition kbd_active :: "screen_buffer \<Rightarrow> keyboard \<Rightarrow> kitty_stack" where
  "kbd_active s k = (case s of Alt \<Rightarrow> kitty_alt k | Main \<Rightarrow> kitty_main k)"

definition upd_active ::
  "screen_buffer \<Rightarrow> (kitty_stack \<Rightarrow> kitty_stack) \<Rightarrow> keyboard \<Rightarrow> keyboard" where
  "upd_active s f k = (case s of Alt \<Rightarrow> k\<lparr>kitty_alt := f (kitty_alt k)\<rparr>
                               | Main \<Rightarrow> k\<lparr>kitty_main := f (kitty_main k)\<rparr>)"

definition kitty_set :: "screen_buffer \<Rightarrow> 8 word \<Rightarrow> nat \<Rightarrow> keyboard \<Rightarrow> keyboard" where
  "kitty_set s flags mode k = upd_active s (ks_set flags mode) k"

definition kitty_push :: "screen_buffer \<Rightarrow> 8 word \<Rightarrow> keyboard \<Rightarrow> keyboard" where
  "kitty_push s flags k = upd_active s (ks_push flags) k"

definition kitty_pop :: "screen_buffer \<Rightarrow> nat \<Rightarrow> keyboard \<Rightarrow> keyboard" where
  "kitty_pop s n k = upd_active s (ks_pop n) k"

definition kitty_flags :: "screen_buffer \<Rightarrow> keyboard \<Rightarrow> 8 word" where
  "kitty_flags s k = ks_current (kbd_active s k)"

definition kbd_reset :: "keyboard \<Rightarrow> keyboard" where
  "kbd_reset k = k\<lparr>modify_other_keys := 0, kitty_main := ks_clear (kitty_main k),
     kitty_alt := ks_clear (kitty_alt k)\<rparr>"

section \<open>The flag stack\<close>

text \<open>
  Pushing the current flags first makes the whole history, oldest first, the stack followed by
  the current flags.
\<close>

definition ks_history :: "kitty_stack \<Rightarrow> 8 word list" where
  "ks_history k = ks_stack k @ [ks_current k]"

definition ks_history_cap :: "kitty_stack \<Rightarrow> nat" where
  "ks_history_cap k = Suc kitty_stack_cap"

interpretation ks: bounded_buffer ks_history ks_history_cap "\<lambda>k flags. ks_push flags k"
proof
  fix b and x
  assume "length (ks_history b) \<le> ks_history_cap b"
  then show "ks_history (ks_push x b)
      = drop (Suc (length (ks_history b)) - ks_history_cap b) (ks_history b @ [x])"
    by (cases "length (ks_stack b) < kitty_stack_cap")
      (simp_all add: ks_history_def ks_history_cap_def ks_push_def Let_def remove_at_def
        kitty_stack_cap_def drop_Suc)
qed (simp add: ks_history_cap_def)

definition ks_ok :: "kitty_stack \<Rightarrow> bool" where
  "ks_ok k \<longleftrightarrow> length (ks_stack k) \<le> kitty_stack_cap"

lemma ks_push_ok: "ks_ok k \<Longrightarrow> ks_ok (ks_push f k)"
  using ks.push_bound [of k f] by (simp add: ks_ok_def ks_history_def ks_history_cap_def)

lemma ks_pop_loop_ok: "ks_ok k \<Longrightarrow> ks_ok (ks_pop_loop n k)"
  by (induction n k rule: ks_pop_loop.induct) (auto simp: ks_ok_def split: option.splits)

lemma ks_ops_ok: "ks_ok k \<Longrightarrow> ks_ok (ks_pop n k)" "ks_ok k \<Longrightarrow> ks_ok (ks_set f m k)"
    "ks_ok (ks_clear k)" "ks_ok ks_default"
proof -
  show "ks_ok k \<Longrightarrow> ks_ok (ks_pop n k)"
    by (simp only: ks_pop_def ks_pop_loop_ok)
qed (simp_all add: ks_set_def ks_ok_def ks_clear_def ks_default_def)

text \<open>Below the cap a pop undoes a push.\<close>

lemma ks_pop_push: "length (ks_stack k) < kitty_stack_cap \<Longrightarrow> ks_pop 1 (ks_push f k) = k"
  by (cases k) (simp add: ks_pop_def ks_push_def Let_def last_opt_def)

text \<open>Popping at least the whole stack leaves no flags and an empty stack.\<close>

lemma ks_pop_loop_all:
  "length (ks_stack k) < n \<Longrightarrow> ks_pop_loop n k = \<lparr>ks_current = 0, ks_stack = []\<rparr>"
proof (induction n k rule: ks_pop_loop.induct)
  case (1 k)
  then show ?case by simp
next
  case (2 n k)
  then show ?case
    by (cases k; cases "ks_stack k" rule: rev_cases) (auto simp: last_opt_def)
qed

lemma ks_pop_all: "length (ks_stack k) < n \<Longrightarrow> ks_pop n k = ks_default"
  by (simp add: ks_pop_def ks_pop_loop_all ks_default_def)

section \<open>The two screens\<close>

definition kbd_ok :: "keyboard \<Rightarrow> bool" where
  "kbd_ok k \<longleftrightarrow> modify_other_keys k \<le> 2 \<and> ks_ok (kitty_main k) \<and> ks_ok (kitty_alt k)"

lemma kbd_default_ok [simp]: "kbd_ok kbd_default"
  by (simp add: kbd_ok_def kbd_default_def ks_ops_ok)

lemma kbd_ops_ok [inv_intros]:
  assumes "kbd_ok k"
  shows "kbd_ok (kitty_set s f m k)" "kbd_ok (kitty_push s f k)" "kbd_ok (kitty_pop s n k)"
    "kbd_ok (kbd_reset k)" "kbd_ok (set_modify_other_keys l k)" "kbd_ok (reset_modify_other_keys k)"
  using assms
  by (auto simp: kbd_ok_def kitty_set_def kitty_push_def kitty_pop_def kbd_reset_def upd_active_def
      set_modify_other_keys_def reset_modify_other_keys_def ks_ops_ok ks_push_ok as_u8_def
      split: screen_buffer.splits)

text \<open>The stacks of the two screens are independent.\<close>

lemma kitty_other_screen:
  assumes "s \<noteq> t"
  shows "kbd_active t (kitty_push s f k) = kbd_active t k" "kbd_active t (kitty_pop s n k) = kbd_active t k"
    "kbd_active t (kitty_set s f m k) = kbd_active t k"
  using assms
  by (cases s; cases t; simp add: kbd_active_def kitty_push_def kitty_pop_def kitty_set_def upd_active_def)+

lemma kitty_pop_active: "kbd_active b (kitty_pop b n k) = ks_pop n (kbd_active b k)"
  by (cases b) (simp_all add: kitty_pop_def kbd_active_def upd_active_def)

lemma kitty_push_active: "kbd_active b (kitty_push b f k) = ks_push f (kbd_active b k)"
  by (cases b) (simp_all add: kitty_push_def kbd_active_def upd_active_def)

lemma ks_pop_Suc: "ks_pop (Suc (Suc n)) k = ks_pop (Suc n) (ks_pop 1 k)"
  by (cases k) (auto simp: ks_pop_def last_opt_def split: option.splits)

lemma ks_pushes_length:
  "length (ks_stack (foldl (\<lambda>k f. ks_push f k) k fs)) \<le> length (ks_stack k) + length fs"
proof (induction fs arbitrary: k)
  case (Cons f fs)
  have "length (ks_stack (ks_push f k)) \<le> Suc (length (ks_stack k))"
    by (simp add: ks_push_def Let_def length_remove_at_0)
  with Cons.IH [of "ks_push f k"] show ?case by simp
qed simp

lemma ks_pop_pushes:
  "fs \<noteq> [] \<Longrightarrow> length (ks_stack k) + length fs \<le> kitty_stack_cap \<Longrightarrow>
     ks_pop (length fs) (foldl (\<lambda>k f. ks_push f k) k fs) = k"
proof (induction fs rule: rev_induct)
  case (snoc f fs)
  let ?k = "foldl (\<lambda>k f. ks_push f k) k fs"
  have len: "length (ks_stack ?k) < kitty_stack_cap"
    using snoc.prems ks_pushes_length [of k fs] by simp
  show ?case
  proof (cases "fs = []")
    case True
    then show ?thesis using ks_pop_push [OF len] by simp
  next
    case False
    then obtain n where n: "length fs = Suc n" by (cases fs) auto
    then have "ks_pop (Suc (Suc n)) (ks_push f ?k) = ks_pop (Suc n) (ks_pop 1 (ks_push f ?k))"
      by (simp only: ks_pop_Suc)
    also have "\<dots> = k" using ks_pop_push [OF len] snoc False n by simp
    finally show ?thesis using n by simp
  qed
qed simp

lemma kitty_pop_pushes:
  assumes "fs \<noteq> []" "length (ks_stack (kbd_active b k)) + length fs \<le> kitty_stack_cap"
  shows "kbd_active b (kitty_pop b (length fs) (foldl (\<lambda>k f. kitty_push b f k) k fs)) = kbd_active b k"
proof -
  have "kbd_active b (foldl (\<lambda>k f. kitty_push b f k) k fs) = foldl (\<lambda>k f. ks_push f k) (kbd_active b k) fs"
    by (induction fs arbitrary: k) (simp_all add: kitty_push_active)
  then show ?thesis using assms ks_pop_pushes by (simp add: kitty_pop_active)
qed

end
