(* ===== verification/Scrollback.thy ===== *)
theory Scrollback
  imports Grid
begin

text \<open>
  The scrollback ring: \<open>crates/emulator/src/scrollback.rs\<close>.  A bounded buffer of rows; \<open>sb_push\<close>
  also returns how many rows it evicted.
\<close>

record scrollback =
  sb_rows :: "grid_row list"
  sb_cap :: nat

definition default_scrollback_lines :: nat where "default_scrollback_lines = 10000"

definition with_cap :: "nat \<Rightarrow> scrollback" where
  "with_cap cap = \<lparr>sb_rows = [], sb_cap = cap\<rparr>"

definition sb_default :: scrollback where
  "sb_default = with_cap default_scrollback_lines"

fun evict_loop :: "nat \<Rightarrow> grid_row list \<Rightarrow> nat \<Rightarrow> grid_row list \<times> nat" where
  "evict_loop cap [] evicted = ([], evicted)"
| "evict_loop cap (r # rs) evicted =
     (if length (r # rs) > cap then evict_loop cap rs (evicted + 1) else (r # rs, evicted))"

definition sb_push :: "grid_row \<Rightarrow> scrollback \<Rightarrow> nat \<times> scrollback" where
  "sb_push r sb =
     (let (rows, evicted) = evict_loop (sb_cap sb) (sb_rows sb @ [r]) 0
      in (evicted, sb\<lparr>sb_rows := rows\<rparr>))"

definition sb_len :: "scrollback \<Rightarrow> nat" where
  "sb_len sb = length (sb_rows sb)"

lemma evict_loop_eq:
  "evict_loop cap rs e = (drop (length rs - cap) rs, e + (length rs - cap))"
  by (induction cap rs e rule: evict_loop.induct) (auto simp: Suc_diff_le)

lemma sb_push_rows: "sb_rows (snd (sb_push r sb))
    = drop (Suc (length (sb_rows sb)) - sb_cap sb) (sb_rows sb @ [r])"
  by (simp add: sb_push_def Let_def evict_loop_eq)

lemma sb_push_cap [simp]: "sb_cap (snd (sb_push r sb)) = sb_cap sb"
  by (simp add: sb_push_def Let_def split: prod.splits)

lemma sb_push_evicted: "fst (sb_push r sb) = Suc (length (sb_rows sb)) - sb_cap sb"
  by (simp add: sb_push_def Let_def evict_loop_eq)

interpretation sb: bounded_buffer sb_rows sb_cap "\<lambda>sb r. snd (sb_push r sb)"
  by unfold_locales (simp_all add: sb_push_rows)

definition sb_ok :: "scrollback \<Rightarrow> bool" where
  "sb_ok sb \<longleftrightarrow> length (sb_rows sb) \<le> sb_cap sb"

lemma sb_default_ok [simp]: "sb_ok sb_default"
  by (simp add: sb_ok_def sb_default_def with_cap_def)

lemma sb_push_ok [inv_intros]: "sb_ok sb \<Longrightarrow> sb_ok (snd (sb_push r sb))"
  unfolding sb_ok_def by (rule sb.push_bound)

text \<open>In steady state a push evicts at most one row: the length and the evictions balance.\<close>

lemma sb_push_balance:
  "sb_len (snd (sb_push r sb)) + fst (sb_push r sb) = Suc (sb_len sb)"
  by (simp add: sb_len_def sb_push_rows sb_push_evicted)

lemma sb_push_nth:
  assumes "i < sb_len (snd (sb_push r sb))"
  shows "sb_rows (snd (sb_push r sb)) ! i = (sb_rows sb @ [r]) ! (i + fst (sb_push r sb))"
proof -
  have "Suc (length (sb_rows sb)) - sb_cap sb \<le> length (sb_rows sb @ [r])" by simp
  then show ?thesis
    unfolding sb_push_rows sb_push_evicted by (simp only: nth_drop add.commute)
qed

end
