(* ===== verification/Utf8.thy ===== *)
theory Utf8
  imports Prelude
begin

text \<open>
  UTF-8 as the Rust standard library reads it: \<open>str::from_utf8\<close> and \<open>String::from_utf8_lossy\<close>,
  which replaces each maximal ill-formed prefix by U+FFFD.  \<open>utf8_step\<close> reads one sequence: the
  scalar value (or \<open>None\<close>) and the number of bytes it takes.
\<close>

definition byte_in :: "nat \<Rightarrow> nat \<Rightarrow> nat \<Rightarrow> bool" where
  "byte_in lo hi b \<longleftrightarrow> lo \<le> b \<and> b \<le> hi"

definition byte_at :: "bytes \<Rightarrow> nat \<Rightarrow> nat" where
  "byte_at bs i = (if i < length bs then of_char (bs ! i) else 0)"

definition cont_bits :: "nat \<Rightarrow> nat" where
  "cont_bits b = b - 128"

definition utf8_step :: "bytes \<Rightarrow> nat option \<times> nat" where
  "utf8_step bs =
     (let b0 = byte_at bs 0; b1 = byte_at bs 1; b2 = byte_at bs 2; b3 = byte_at bs 3;
          cont = byte_in 128 191
      in if b0 < 128 then (Some b0, 1)
         else if byte_in 194 223 b0 then
           (if cont b1 then (Some ((b0 - 192) * 64 + cont_bits b1), 2) else (None, 1))
         else if byte_in 224 239 b0 then
           (if byte_in (if b0 = 224 then 160 else 128) (if b0 = 237 then 159 else 191) b1 then
              (if cont b2 then (Some ((b0 - 224) * 4096 + cont_bits b1 * 64 + cont_bits b2), 3)
               else (None, 2))
            else (None, 1))
         else if byte_in 240 244 b0 then
           (if byte_in (if b0 = 240 then 144 else 128) (if b0 = 244 then 143 else 191) b1 then
              (if cont b2 then
                 (if cont b3 then
                    (Some ((b0 - 240) * 262144 + cont_bits b1 * 4096 + cont_bits b2 * 64 + cont_bits b3), 4)
                  else (None, 3))
               else (None, 2))
            else (None, 1))
         else (None, 1))"

lemma utf8_step_pos: "0 < snd (utf8_step bs)"
  by (simp add: utf8_step_def Let_def)

function utf8_chunks :: "bytes \<Rightarrow> nat option list" where
  "utf8_chunks bs =
     (if bs = [] then []
      else let (c, n) = utf8_step bs in c # utf8_chunks (drop n bs))"
  by pat_completeness auto

termination
proof (relation "measure length")
  fix bs :: bytes and x :: "nat option \<times> nat" and c n
  assume "bs \<noteq> []" "x = utf8_step bs" "(c, n) = x"
  then have "0 < n" using utf8_step_pos [of bs] by (metis snd_conv)
  then show "(drop n bs, bs) \<in> measure length" using \<open>bs \<noteq> []\<close> by simp
qed simp

declare utf8_chunks.simps [simp del]

definition from_utf8 :: "bytes \<Rightarrow> rstr option" where
  "from_utf8 bs =
     (let cs = utf8_chunks bs in if None \<in> set cs then None else Some (map the cs))"

definition from_utf8_lossy :: "bytes \<Rightarrow> rstr" where
  "from_utf8_lossy bs = map (\<lambda>c. case c of Some x \<Rightarrow> x | None \<Rightarrow> 65533) (utf8_chunks bs)"

definition utf8_char :: "nat \<Rightarrow> bytes" where
  "utf8_char c =
     (if c < 128 then [char_of c]
      else if c < 2048 then [char_of (192 + c div 64), char_of (128 + c mod 64)]
      else if c < 65536 then
        [char_of (224 + c div 4096), char_of (128 + c div 64 mod 64), char_of (128 + c mod 64)]
      else [char_of (240 + c div 262144), char_of (128 + c div 4096 mod 64),
            char_of (128 + c div 64 mod 64), char_of (128 + c mod 64)])"

definition utf8_encode :: "rstr \<Rightarrow> bytes" where
  "utf8_encode s = concat (map utf8_char s)"

definition is_scalar :: "nat \<Rightarrow> bool" where
  "is_scalar c \<longleftrightarrow> c < 55296 \<or> (57344 \<le> c \<and> c < 1114112)"

lemma from_utf8_lossy_valid: "from_utf8 bs = Some s \<Longrightarrow> from_utf8_lossy bs = s"
  by (auto simp: from_utf8_def from_utf8_lossy_def Let_def split: option.splits if_splits)

lemma utf8_char_length: "length (utf8_char c) = utf8_width c"
  by (simp add: utf8_char_def utf8_width_def)

lemma utf8_encode_length: "length (utf8_encode s) = utf8_len s"
  by (induction s) (simp_all add: utf8_encode_def utf8_len_def utf8_char_length)

lemma utf8_step_char:
  assumes "is_scalar c"
  shows "utf8_step (utf8_char c @ rest) = (Some c, length (utf8_char c))"
proof -
  consider "c < 128" | "128 \<le> c" "c < 2048" | "2048 \<le> c" "c < 65536" | "65536 \<le> c" "c < 1114112"
    using assms unfolding is_scalar_def by linarith
  then show ?thesis
  proof cases
    case 1
    then show ?thesis by (simp add: utf8_char_def utf8_step_def byte_at_def Let_def)
  next
    case 2
    have "c div 64 < 32" "2 \<le> c div 64" using 2 by auto
    with 2 show ?thesis
      by (simp add: utf8_char_def utf8_step_def byte_at_def Let_def byte_in_def cont_bits_def)
  next
    case 3
    define q p where "q = c div 64" and "p = q div 64"
    have p: "c div 4096 = p" by (simp add: p_def q_def flip: div_mult2_eq)
    have m: "c div 64 mod 64 < 64" "c mod 64 < 64" by simp_all
    have "c = 64 * q + c mod 64" "q = 64 * p + c div 64 mod 64"
      by (simp_all add: q_def p_def)
    then have c: "c = 4096 * p + 64 * (c div 64 mod 64) + c mod 64" by linarith
    have d: "c div 4096 < 16" using c m 3 p by linarith
    have lo: "c div 4096 = 0 \<Longrightarrow> 32 \<le> c div 64 mod 64" using c m 3 p by linarith
    have hi: "c div 4096 = 13 \<Longrightarrow> c div 64 mod 64 \<le> 31"
      using c m 3 p assms unfolding is_scalar_def by linarith
    have eq: "c div 4096 * 4096 + c div 64 mod 64 * 64 + c mod 64 = c" using c p by linarith
    have "c div 64 mod 64 \<le> 63" "c mod 64 \<le> 63" using m by linarith+
    then show ?thesis
      using 3 d lo hi eq
      by (auto simp: utf8_char_def utf8_step_def byte_at_def Let_def byte_in_def cont_bits_def)
  next
    case 4
    define q p r where "q = c div 64" and "p = q div 64" and "r = p div 64"
    have p: "c div 4096 = p" by (simp add: p_def q_def flip: div_mult2_eq)
    have r: "c div 262144 = r" by (simp add: r_def p_def q_def flip: div_mult2_eq)
    have m: "c div 4096 mod 64 < 64" "c div 64 mod 64 < 64" "c mod 64 < 64" by simp_all
    have "c = 64 * q + c mod 64" by (simp add: q_def)
    moreover have "q = 64 * p + c div 64 mod 64" by (simp add: p_def flip: q_def)
    moreover have "p = 64 * r + c div 4096 mod 64" by (simp add: p r_def)
    ultimately have c: "c = 262144 * r + 4096 * (c div 4096 mod 64) + 64 * (c div 64 mod 64) + c mod 64"
      by linarith
    have d: "c div 262144 < 5" using c m 4 r by linarith
    have lo: "c div 262144 = 0 \<Longrightarrow> 16 \<le> c div 4096 mod 64" using c m 4 r by linarith
    have hi: "c div 262144 = 4 \<Longrightarrow> c div 4096 mod 64 \<le> 15" using c m 4 r by linarith
    have eq: "c div 262144 * 262144 + c div 4096 mod 64 * 4096 + c div 64 mod 64 * 64 + c mod 64 = c"
      using c r by linarith
    have "c div 4096 mod 64 \<le> 63" "c div 64 mod 64 \<le> 63" "c mod 64 \<le> 63" using m by linarith+
    then show ?thesis
      using 4 d lo hi eq
      by (auto simp: utf8_char_def utf8_step_def byte_at_def Let_def byte_in_def cont_bits_def)
  qed
qed

lemma utf8_char_nonempty [simp]: "utf8_char c \<noteq> []"
  by (simp add: utf8_char_def)

lemma utf8_chunks_encode: "list_all is_scalar s \<Longrightarrow> utf8_chunks (utf8_encode s) = map Some s"
proof (induction s)
  case Nil
  then show ?case by (simp add: utf8_encode_def utf8_chunks.simps)
next
  case (Cons c s)
  have "utf8_chunks (utf8_char c @ utf8_encode s) = Some c # utf8_chunks (utf8_encode s)"
    by (subst utf8_chunks.simps) (use Cons.prems in \<open>simp add: utf8_step_char\<close>)
  with Cons show ?case by (simp add: utf8_encode_def)
qed

text \<open>Decoding the encoding of a Rust string gives it back.\<close>

lemma from_utf8_encode: "list_all is_scalar s \<Longrightarrow> from_utf8 (utf8_encode s) = Some s"
  by (auto simp: from_utf8_def utf8_chunks_encode Let_def comp_def)

end
