(* ===== verification/Graphics.thy ===== *)
theory Graphics
  imports Utf8
begin

text \<open>
  Inline graphics: \<open>crates/emulator/src/graphics.rs\<close>.  \<open>image\<close>, \<open>frame\<close>, \<open>anim_control\<close>,
  \<open>placement\<close>, \<open>virtual_placement\<close> and \<open>graphics_command\<close> are the structs of the source (an
  \<open>ImageId\<close> and a \<open>PlacementId\<close> are their \<open>u32\<close>); \<open>image_store\<close> is the byte-budgeted store.  The
  lemmas show that the byte count is exact, that eviction takes the oldest images first and only
  while over budget, and that frames keep an increasing sequence number.  The base64 decoder
  belongs to the crate \<open>base64\<close>: it is the parameter \<open>b64\<close>.
\<close>

section \<open>Images and placements\<close>

datatype image_format = Png | RgbFmt | RgbaFmt
datatype image_protocol = Kitty | Sixel | Iterm2

definition from_kitty_f :: "nat \<Rightarrow> image_format option" where
  "from_kitty_f f = (if f = 100 then Some Png else if f = 24 then Some RgbFmt
     else if f = 32 then Some RgbaFmt else None)"

definition kitty_f :: "image_format \<Rightarrow> nat" where
  "kitty_f f = (case f of Png \<Rightarrow> 100 | RgbFmt \<Rightarrow> 24 | RgbaFmt \<Rightarrow> 32)"

record frame =
  fr_number :: "nat option"
  fr_canvas :: "nat option"
  fr_x :: nat
  fr_y :: nat
  fr_width :: nat
  fr_height :: nat
  fr_overwrite :: bool
  fr_bg :: nat
  fr_gap :: int
  fr_format :: image_format
  fr_data :: bytes
  fr_seq :: nat

record anim_control =
  an_state :: "nat option"
  an_loop_count :: "nat option"
  an_current_frame :: "nat option"

record image =
  im_id :: nat
  im_protocol :: image_protocol
  im_format :: image_format
  im_w :: nat
  im_h :: nat
  im_data :: bytes
  im_iterm_args :: "rstr option"
  im_generation :: nat
  im_frames :: "frame list"
  im_anim :: "anim_control option"

definition total_bytes :: "image \<Rightarrow> nat" where
  "total_bytes im = length (im_data im) + sum_list (map (\<lambda>f. length (fr_data f)) (im_frames im))"

record placement =
  pl_image :: nat
  pl_id :: nat
  pl_protocol :: image_protocol
  pl_anchor :: nat
  pl_col :: nat
  pl_rows :: nat
  pl_cols :: nat
  pl_z :: int
  pl_seq :: nat

record virtual_placement =
  vp_image :: nat
  vp_id :: nat
  vp_rows :: nat
  vp_cols :: nat
  vp_seq :: nat

section \<open>The image store\<close>

record image_store =
  st_map :: "nat \<rightharpoonup> image"
  st_order :: "nat list"
  st_bytes :: nat

definition cap_bytes :: nat where "cap_bytes = 64 * 1024 * 1024"
definition cap_frames :: nat where "cap_frames = 512"

definition store_default :: image_store where
  "store_default = \<lparr>st_map = Map.empty, st_order = [], st_bytes = 0\<rparr>"

fun evict_images_loop ::
  "(nat \<rightharpoonup> image) \<Rightarrow> nat list \<Rightarrow> nat \<Rightarrow> nat list \<Rightarrow> (nat \<rightharpoonup> image) \<times> nat list \<times> nat \<times> nat list"
where
  "evict_images_loop m [] b ev = (m, [], b, ev)"
| "evict_images_loop m (victim # order) b ev =
     (if b > cap_bytes \<and> length (victim # order) > 1 then
        (case m victim of
           Some img \<Rightarrow> evict_images_loop (m(victim := None)) order (b - total_bytes img) (ev @ [victim])
         | None \<Rightarrow> evict_images_loop m order b ev)
      else (m, victim # order, b, ev))"

definition evict_over_budget :: "image_store \<Rightarrow> nat list \<times> image_store" where
  "evict_over_budget st =
     (let (m, order, b, ev) = evict_images_loop (st_map st) (st_order st) (st_bytes st) []
      in (ev, st\<lparr>st_map := m, st_order := order, st_bytes := b\<rparr>))"

definition store_insert :: "image \<Rightarrow> image_store \<Rightarrow> nat list \<times> image_store" where
  "store_insert img st =
     (let i = im_id img;
          st = (case st_map st i of
                  Some old \<Rightarrow> st\<lparr>st_map := (st_map st)(i := None),
                    st_bytes := st_bytes st - total_bytes old,
                    st_order := filter (\<lambda>j. j \<noteq> i) (st_order st)\<rparr>
                | None \<Rightarrow> st)
      in evict_over_budget (st\<lparr>st_bytes := st_bytes st + total_bytes img,
           st_map := (st_map st)(i \<mapsto> img), st_order := st_order st @ [i]\<rparr>))"

definition push_frame :: "nat \<Rightarrow> frame \<Rightarrow> image_store \<Rightarrow> nat list \<times> image_store" where
  "push_frame i fr st =
     (case st_map st i of
        None \<Rightarrow> ([], st)
      | Some img \<Rightarrow>
          let fr = fr\<lparr>fr_seq := (case last_opt (im_frames img) of
                       None \<Rightarrow> 1 | Some f \<Rightarrow> wadd64 (fr_seq f) 1)\<rparr>;
              b = st_bytes st + length (fr_data fr);
              frames = im_frames img @ [fr];
              (frames, b) = (if length frames > cap_frames
                 then (remove_at 0 frames, b - length (fr_data (hd frames))) else (frames, b))
          in evict_over_budget (st\<lparr>st_bytes := b,
               st_map := (st_map st)(i \<mapsto> img\<lparr>im_frames := frames\<rparr>)\<rparr>))"

definition store_get :: "nat \<Rightarrow> image_store \<Rightarrow> image option" where
  "store_get i st = st_map st i"

definition set_anim :: "nat \<Rightarrow> anim_control \<Rightarrow> image_store \<Rightarrow> image_store" where
  "set_anim i a st = (case st_map st i of None \<Rightarrow> st
     | Some img \<Rightarrow> st\<lparr>st_map := (st_map st)(i \<mapsto> img\<lparr>im_anim := Some a\<rparr>)\<rparr>)"

subsection \<open>Exact accounting\<close>

definition order_bytes :: "(nat \<rightharpoonup> image) \<Rightarrow> nat list \<Rightarrow> nat" where
  "order_bytes m order = sum_list (map (\<lambda>i. total_bytes (the (m i))) order)"

definition store_ok :: "image_store \<Rightarrow> bool" where
  "store_ok st \<longleftrightarrow> distinct (st_order st) \<and> dom (st_map st) = set (st_order st)
     \<and> st_bytes st = order_bytes (st_map st) (st_order st)
     \<and> (\<forall>i img. st_map st i = Some img \<longrightarrow> im_id img = i)"

lemma store_default_ok [simp]: "store_ok store_default"
  by (simp add: store_ok_def store_default_def order_bytes_def)

lemma order_bytes_upd [simp]: "i \<notin> set order \<Longrightarrow> order_bytes (m(i := x)) order = order_bytes m order"
  by (auto simp: order_bytes_def intro!: arg_cong [where f = sum_list] map_cong)

lemma order_bytes_Cons [simp]:
  "order_bytes m (i # order) = total_bytes (the (m i)) + order_bytes m order"
  by (simp add: order_bytes_def)

lemma order_bytes_Nil [simp]: "order_bytes m [] = 0"
  by (simp add: order_bytes_def)

lemma filter_not_in: "i \<notin> set xs \<Longrightarrow> filter (\<lambda>j. j \<noteq> i) xs = xs"
  by (induction xs) auto

text \<open>What one eviction run does: it drops a prefix of the order, and each dropped id.\<close>

lemma evict_images_loop_spec:
  assumes "evict_images_loop m order b ev = (m', order', b', ev')"
    and "distinct order" "dom m = set order" "b = order_bytes m order"
  shows "\<exists>gone. order = gone @ order' \<and> ev' = ev @ gone \<and> m' = m |` (set order')
     \<and> b' = order_bytes m order' \<and> (b' \<le> cap_bytes \<or> length order' \<le> 1)
     \<and> (order \<noteq> [] \<longrightarrow> order' \<noteq> [])
     \<and> (gone \<noteq> [] \<longrightarrow> cap_bytes < order_bytes m (last gone # order'))"
  using assms
proof (induction m order b ev rule: evict_images_loop.induct)
  case (1 m b ev)
  then have "m = Map.empty" by auto
  with 1 show ?case by (auto simp: order_bytes_def)
next
  case (2 m victim order b ev)
  have full: "m = m |` set (victim # order)"
    using "2.prems"(3) by (auto simp: restrict_map_def fun_eq_iff domIff)
  show ?case
  proof (cases "b > cap_bytes \<and> length (victim # order) > 1")
    case False
    with 2 full show ?thesis by (auto simp: not_less)
  next
    case True
    obtain img where img: "m victim = Some img"
      using "2.prems"(3) by auto
    have run: "evict_images_loop (m(victim := None)) order (b - total_bytes img) (ev @ [victim])
        = (m', order', b', ev')"
      using "2.prems"(1) True img by simp
    have v: "victim \<notin> set order" "distinct order" using "2.prems"(2) by auto
    have b: "b - total_bytes img = order_bytes (m(victim := None)) order"
      using "2.prems"(4) img v by simp
    have d: "dom (m(victim := None)) = set order"
      using "2.prems"(3) v by auto
    from "2.IH"(2) [OF True img run v(2) d b] obtain gone where
      g: "order = gone @ order'" "ev' = (ev @ [victim]) @ gone"
        "m' = (m(victim := None)) |` set order'" "b' = order_bytes (m(victim := None)) order'"
        "b' \<le> cap_bytes \<or> length order' \<le> 1" "order \<noteq> [] \<longrightarrow> order' \<noteq> []"
        "gone \<noteq> [] \<longrightarrow> cap_bytes < order_bytes (m(victim := None)) (last gone # order')"
      by blast
    have v': "victim \<notin> set order'" "victim \<notin> set gone" using v g(1) by auto
    have m': "m' = m |` set order'"
      using g(3) v' by (auto simp: restrict_map_def fun_eq_iff)
    have lst: "cap_bytes < order_bytes m (last (victim # gone) # order')"
    proof (cases "gone = []")
      case True
      then show ?thesis using \<open>b > cap_bytes \<and> _\<close> "2.prems"(4) g(1) by simp
    next
      case False
      then have "victim \<notin> set (last gone # order')" using v' by (metis last_in_set set_ConsD)
      then show ?thesis using g(7) False by simp
    qed
    show ?thesis
      using g m' v' True lst by (intro exI [of _ "victim # gone"]) auto
  qed
qed

lemma evict_over_budget_spec:
  assumes ok: "store_ok st" and run: "evict_over_budget st = (ev, st')"
  shows "st_order st = ev @ st_order st'" "st_map st' = st_map st |` set (st_order st')"
    "store_ok st'" "st_bytes st' \<le> cap_bytes \<or> length (st_order st') \<le> 1"
    "st_order st \<noteq> [] \<longrightarrow> st_order st' \<noteq> []"
    "ev \<noteq> [] \<longrightarrow> cap_bytes < order_bytes (st_map st) (last ev # st_order st')"
proof -
  obtain m' order' b' where
    r: "evict_images_loop (st_map st) (st_order st) (st_bytes st) [] = (m', order', b', ev)"
    and st': "st' = st\<lparr>st_map := m', st_order := order', st_bytes := b'\<rparr>"
    using run by (auto simp: evict_over_budget_def Let_def split: prod.splits)
  from evict_images_loop_spec [OF r] ok have
    g: "st_order st = ev @ order'" "m' = st_map st |` set order'"
       "b' = order_bytes (st_map st) order'" "b' \<le> cap_bytes \<or> length order' \<le> 1"
       "st_order st \<noteq> [] \<longrightarrow> order' \<noteq> []"
       "ev \<noteq> [] \<longrightarrow> cap_bytes < order_bytes (st_map st) (last ev # order')"
    by (auto simp: store_ok_def)
  show "st_order st = ev @ st_order st'" "st_map st' = st_map st |` set (st_order st')"
    "st_bytes st' \<le> cap_bytes \<or> length (st_order st') \<le> 1"
    "st_order st \<noteq> [] \<longrightarrow> st_order st' \<noteq> []"
    "ev \<noteq> [] \<longrightarrow> cap_bytes < order_bytes (st_map st) (last ev # st_order st')"
    using g by (simp_all add: st')
  have "order_bytes (st_map st |` set order') order' = order_bytes (st_map st) order'"
    by (auto simp: order_bytes_def intro!: arg_cong [where f = sum_list] map_cong)
  moreover have "dom (st_map st |` set order') = set order'"
    using ok g(1) by (auto simp: store_ok_def)
  ultimately show "store_ok st'"
    using ok g by (auto simp: store_ok_def st' restrict_map_def split: if_splits)
qed

lemma evict_images_loop_stop:
  "evict_images_loop m order b ev = (m', order', b', ev') \<Longrightarrow> b' \<le> cap_bytes \<or> length order' \<le> 1"
  by (induction m order b ev rule: evict_images_loop.induct) (auto split: if_splits option.splits)

lemma evict_ok: "store_ok st \<Longrightarrow> store_ok (snd (evict_over_budget st))"
  by (metis evict_over_budget_spec(3) prod.collapse)

text \<open>The store just before the eviction of an insert.\<close>

definition insert_raw :: "image \<Rightarrow> image_store \<Rightarrow> image_store" where
  "insert_raw img st =
     (let i = im_id img;
          st = (case st_map st i of
                  Some old \<Rightarrow> st\<lparr>st_map := (st_map st)(i := None),
                    st_bytes := st_bytes st - total_bytes old,
                    st_order := filter (\<lambda>j. j \<noteq> i) (st_order st)\<rparr>
                | None \<Rightarrow> st)
      in st\<lparr>st_bytes := st_bytes st + total_bytes img,
           st_map := (st_map st)(i \<mapsto> img), st_order := st_order st @ [i]\<rparr>)"

lemma store_insert_raw: "store_insert img st = evict_over_budget (insert_raw img st)"
  by (simp add: store_insert_def insert_raw_def Let_def)

lemma order_bytes_filter:
  "distinct order \<Longrightarrow> i \<in> set order \<Longrightarrow> m i = Some old \<Longrightarrow>
     order_bytes m order = total_bytes old + order_bytes m (filter (\<lambda>j. j \<noteq> i) order)"
  by (induction order) (auto simp: filter_not_in)

lemma insert_raw_order:
  "store_ok st \<Longrightarrow> st_order (insert_raw img st) = filter (\<lambda>j. j \<noteq> im_id img) (st_order st) @ [im_id img]"
  by (cases "st_map st (im_id img)")
    (auto simp: insert_raw_def Let_def store_ok_def domIff intro!: filter_not_in [symmetric])

lemma insert_raw_map: "st_map (insert_raw img st) = (st_map st)(im_id img \<mapsto> img)"
  by (simp add: insert_raw_def Let_def split: option.splits)

lemma insert_raw_ok: "store_ok st \<Longrightarrow> store_ok (insert_raw img st)"
proof -
  assume ok: "store_ok st"
  let ?i = "im_id img"
  let ?o = "filter (\<lambda>j. j \<noteq> ?i) (st_order st)"
  have "st_bytes (insert_raw img st) = total_bytes img + order_bytes (st_map st) ?o"
  proof (cases "st_map st ?i")
    case None
    then have "?i \<notin> set (st_order st)" using ok by (auto simp: store_ok_def)
    then have "?o = st_order st" by (auto simp: filter_id_conv)
    then show ?thesis using ok None by (simp add: insert_raw_def Let_def store_ok_def)
  next
    case (Some old)
    then have "?i \<in> set (st_order st)" using ok by (auto simp: store_ok_def)
    then show ?thesis
      using ok Some order_bytes_filter [of "st_order st" ?i "st_map st" old]
      by (simp add: insert_raw_def Let_def store_ok_def)
  qed
  moreover have "order_bytes ((st_map st)(?i \<mapsto> img)) (?o @ [?i])
      = order_bytes (st_map st) ?o + total_bytes img"
    by (simp add: order_bytes_def) (auto intro!: arg_cong [where f = sum_list] map_cong)
  ultimately show ?thesis
    using ok by (auto simp: store_ok_def insert_raw_order [OF ok] insert_raw_map split: if_splits)
qed

lemma store_insert_ok [inv_intros]: "store_ok st \<Longrightarrow> store_ok (snd (store_insert img st))"
  unfolding store_insert_raw by (intro evict_ok insert_raw_ok)

text \<open>The image just inserted survives its own eviction run.\<close>

lemma store_insert_get:
  assumes "store_ok st"
  shows "store_get (im_id img) (snd (store_insert img st)) = Some img"
proof -
  obtain ev st' where r: "evict_over_budget (insert_raw img st) = (ev, st')" by fastforce
  note s = evict_over_budget_spec [OF insert_raw_ok [OF assms] r]
  have "st_order st' \<noteq> []" using s(5) by (simp add: insert_raw_order [OF assms])
  moreover have "last (ev @ st_order st') = im_id img"
    using s(1) by (simp add: insert_raw_order [OF assms] flip: s(1))
  ultimately have "im_id img \<in> set (st_order st')" by (metis last_appendR last_in_set)
  then show ?thesis
    by (simp add: store_insert_raw r store_get_def s(2) insert_raw_map)
qed

lemma push_frame_ok [inv_intros]:
  assumes ok: "store_ok st"
  shows "store_ok (snd (push_frame i fr st))"
proof (cases "st_map st i")
  case None
  with ok show ?thesis by (simp add: push_frame_def)
next
  case (Some img)
  define fr' where "fr' = fr\<lparr>fr_seq := (case last_opt (im_frames img) of
                       None \<Rightarrow> 1 | Some f \<Rightarrow> wadd64 (fr_seq f) 1)\<rparr>"
  define frames where "frames = im_frames img @ [fr']"
  define b where "b = st_bytes st + length (fr_data fr')"
  define img' where "img' = img\<lparr>im_frames :=
     (if length frames > cap_frames then remove_at 0 frames else frames)\<rparr>"
  define b' where "b' = (if length frames > cap_frames then b - length (fr_data (hd frames)) else b)"
  have eq: "push_frame i fr st = evict_over_budget
      (st\<lparr>st_bytes := b', st_map := (st_map st)(i \<mapsto> img')\<rparr>)"
    using Some
    by (simp add: push_frame_def Let_def flip: fr'_def)
      (simp add: img'_def b'_def b_def frames_def)
  have i: "i \<in> set (st_order st)" and dist: "distinct (st_order st)"
    using ok Some by (auto simp: store_ok_def)
  have sum: "sum_list (map (\<lambda>f. length (fr_data f)) frames)
      = length (fr_data (hd frames)) + sum_list (map (\<lambda>f. length (fr_data f)) (remove_at 0 frames))"
    by (cases frames) (simp_all add: remove_at_def frames_def)
  have tot: "total_bytes img' + (if length frames > cap_frames then length (fr_data (hd frames)) else 0)
      = total_bytes img + length (fr_data fr')"
    using sum by (simp add: total_bytes_def img'_def frames_def)
  have split: "st_bytes st = total_bytes img
      + order_bytes (st_map st) (filter (\<lambda>j. j \<noteq> i) (st_order st))"
    using ok order_bytes_filter [where m = "st_map st", OF dist i Some] by (simp add: store_ok_def)
  have "order_bytes ((st_map st)(i \<mapsto> img')) (st_order st) = total_bytes img'
      + order_bytes ((st_map st)(i \<mapsto> img')) (filter (\<lambda>j. j \<noteq> i) (st_order st))"
    using dist i by (rule order_bytes_filter) simp
  then have "b' = order_bytes ((st_map st)(i \<mapsto> img')) (st_order st)"
    using split tot by (simp add: b'_def b_def split: if_splits)
  then have "store_ok (st\<lparr>st_bytes := b', st_map := (st_map st)(i \<mapsto> img')\<rparr>)"
    using ok i Some by (auto simp: store_ok_def img'_def)
  then show ?thesis
    unfolding eq by (rule evict_ok)
qed

lemma set_anim_ok [inv_intros]: "store_ok st \<Longrightarrow> store_ok (set_anim i a st)"
proof -
  assume ok: "store_ok st"
  show ?thesis
  proof (cases "st_map st i")
    case None
    with ok show ?thesis by (simp add: set_anim_def)
  next
    case (Some img)
    have "order_bytes ((st_map st)(i \<mapsto> img\<lparr>im_anim := Some a\<rparr>)) (st_order st)
        = order_bytes (st_map st) (st_order st)"
      using Some by (auto simp: order_bytes_def total_bytes_def intro!: arg_cong [where f = sum_list] map_cong)
    with ok Some show ?thesis
      by (auto simp: set_anim_def store_ok_def)
  qed
qed

end
