(* ===== verification/Graphics_Parse.thy ===== *)
theory Graphics_Parse
  imports Graphics
begin

text \<open>
  Reading graphics input: \<open>parse_command\<close>, \<open>sixel_dimensions\<close>, \<open>parse_iterm_file\<close>,
  \<open>iterm_dimensions\<close>, \<open>jpeg_dimensions\<close> and \<open>png_dimensions\<close> of
  \<open>crates/emulator/src/graphics.rs\<close>.  Every scan is over child-controlled bytes; the lemmas bound
  what they return.
\<close>

section \<open>Kitty commands\<close>

record graphics_command =
  gc_action :: char
  gc_id :: "nat option"
  gc_placement_id :: "nat option"
  gc_format :: "nat option"
  gc_width :: "nat option"
  gc_height :: "nat option"
  gc_rows :: "nat option"
  gc_cols :: "nat option"
  gc_more :: bool
  gc_saw_m :: bool
  gc_delete_target :: "char option"
  gc_unicode :: bool
  gc_z :: "int option"
  gc_frame_x :: "nat option"
  gc_frame_y :: "nat option"
  gc_overwrite :: bool
  gc_bg :: "nat option"
  gc_payload :: bytes

definition command_default :: graphics_command where
  "command_default = \<lparr>gc_action = CHR ''t'', gc_id = None, gc_placement_id = None, gc_format = None,
     gc_width = None, gc_height = None, gc_rows = None, gc_cols = None, gc_more = False,
     gc_saw_m = False, gc_delete_target = None, gc_unicode = False, gc_z = None, gc_frame_x = None,
     gc_frame_y = None, gc_overwrite = False, gc_bg = None, gc_payload = []\<rparr>"

text \<open>\<open>str::from_utf8(v).unwrap_or("")\<close>, as the bytes of the string.\<close>

definition str_or_empty :: "bytes \<Rightarrow> bytes" where
  "str_or_empty v = (case from_utf8 v of Some _ \<Rightarrow> v | None \<Rightarrow> [])"

definition parse_u32 :: "bytes \<Rightarrow> nat option" where "parse_u32 v = parse_unsigned u32_max v"
definition parse_u16 :: "bytes \<Rightarrow> nat option" where "parse_u16 v = parse_unsigned u16_max v"

definition apply_key :: "graphics_command \<Rightarrow> bytes \<Rightarrow> graphics_command" where
  "apply_key cmd kv =
     (case split_once CHR ''='' kv of
        None \<Rightarrow> cmd
      | Some (k, v) \<Rightarrow>
          let val = str_or_empty v
          in if k = ''a'' then cmd\<lparr>gc_action := (case head_opt v of Some c \<Rightarrow> c | None \<Rightarrow> CHR ''t'')\<rparr>
             else if k = ''i'' then cmd\<lparr>gc_id := parse_u32 val\<rparr>
             else if k = ''p'' then cmd\<lparr>gc_placement_id := parse_u32 val\<rparr>
             else if k = ''f'' then cmd\<lparr>gc_format := parse_u32 val\<rparr>
             else if k = ''s'' then cmd\<lparr>gc_width := parse_u32 val\<rparr>
             else if k = ''v'' then cmd\<lparr>gc_height := parse_u32 val\<rparr>
             else if k = ''r'' then cmd\<lparr>gc_rows := parse_u16 val\<rparr>
             else if k = ''c'' then cmd\<lparr>gc_cols := parse_u16 val\<rparr>
             else if k = ''z'' then cmd\<lparr>gc_z := parse_i32 val\<rparr>
             else if k = ''m'' then cmd\<lparr>gc_saw_m := True, gc_more := (val = ''1'')\<rparr>
             else if k = ''d'' then cmd\<lparr>gc_delete_target := head_opt v\<rparr>
             else if k = ''U'' then cmd\<lparr>gc_unicode := (val = ''1'')\<rparr>
             else if k = ''x'' then cmd\<lparr>gc_frame_x := parse_u32 val\<rparr>
             else if k = ''y'' then cmd\<lparr>gc_frame_y := parse_u32 val\<rparr>
             else if k = ''X'' then cmd\<lparr>gc_overwrite := (val = ''1'')\<rparr>
             else if k = ''Y'' then cmd\<lparr>gc_bg := parse_u32 val\<rparr>
             else cmd)"

definition parse_command :: "bytes \<Rightarrow> graphics_command option" where
  "parse_command framed =
     (case strip_prefix [CHR 0x1B, CHR ''_''] framed of
        None \<Rightarrow> None
      | Some inner \<Rightarrow>
          let inner = (case strip_suffix [CHR 0x1B, CHR 0x5C] inner of Some i \<Rightarrow> i | None \<Rightarrow> inner)
          in (case strip_prefix ''G'' inner of
                None \<Rightarrow> None
              | Some inner \<Rightarrow>
                  let (params, payload) =
                    (case split_once CHR '';'' inner of Some pp \<Rightarrow> pp | None \<Rightarrow> (inner, []))
                  in Some (foldl apply_key (command_default\<lparr>gc_payload := payload\<rparr>)
                       (split_on CHR '','' params))))"

section \<open>Sixel\<close>

fun raster_loop :: "bytes \<Rightarrow> nat list \<Rightarrow> nat \<Rightarrow> nat option \<Rightarrow> nat list \<times> nat" where
  "raster_loop [] nums idx cur = (nums, idx)"
| "raster_loop (b # bs) nums idx cur =
     (let stored = (if idx < 4 then nums[idx := (case cur of Some n \<Rightarrow> n | None \<Rightarrow> 0)] else nums);
          next = (if idx < 4 then idx + 1 else idx)
      in if is_digit b then
           raster_loop bs nums idx
             (Some (sadd32 (smul32 (case cur of Some n \<Rightarrow> n | None \<Rightarrow> 0) 10) (digit_val b)))
         else if b = CHR '';'' then
           raster_loop bs stored next (if idx < 4 then None else cur)
         else (stored, next))"

definition sixel_raster :: "bytes \<Rightarrow> (nat \<times> nat) option" where
  "sixel_raster payload =
     (case split_once CHR 0x22 payload of
        None \<Rightarrow> None
      | Some (_, rest) \<Rightarrow>
          let (nums, idx) = raster_loop rest [0, 0, 0, 0] 0 None
          in if idx \<ge> 4 \<and> nums ! 2 > 0 \<and> nums ! 3 > 0 then Some (nums ! 2, nums ! 3) else None)"

text \<open>The repeat count after \<open>!\<close>, and the bytes that follow it.\<close>

fun take_count :: "bytes \<Rightarrow> nat \<Rightarrow> nat \<times> bytes" where
  "take_count [] n = (n, [])"
| "take_count (b # bs) n =
     (if is_digit b then take_count bs (sadd32 (smul32 n 10) (digit_val b)) else (n, b # bs))"

fun skip_params :: "bytes \<Rightarrow> bytes" where
  "skip_params [] = []"
| "skip_params (b # bs) = (if is_digit b \<or> b = CHR '';'' then skip_params bs else b # bs)"

definition sixel_data :: "char \<Rightarrow> bool" where
  "sixel_data b \<longleftrightarrow> 63 \<le> (of_char b :: nat) \<and> (of_char b :: nat) \<le> 126"

lemma take_count_length [simp]: "length (snd (take_count bs n)) \<le> length bs"
  by (induction bs n rule: take_count.induct) auto

lemma skip_params_length: "length (skip_params bs) \<le> length bs"
  by (induction bs rule: skip_params.induct) auto

lemma take_count_less: "(m, rest) = take_count bs n \<Longrightarrow> length rest \<le> length bs"
  using take_count_length [of bs n] by (cases "take_count bs n") simp

function sixel_scan :: "bytes \<Rightarrow> nat \<Rightarrow> nat \<Rightarrow> nat \<Rightarrow> bool \<Rightarrow> nat \<times> nat \<times> bool" where
  "sixel_scan [] x max_x bands saw = (max_x, bands, saw)"
| "sixel_scan (b # bs) x max_x bands saw =
     (if b = CHR ''!'' then
        (case take_count bs 0 of
           (n, d # rest) \<Rightarrow>
             if sixel_data d then sixel_scan rest (sadd32 x (max n 1)) (max max_x (sadd32 x (max n 1))) bands True
             else sixel_scan (d # rest) x (max max_x x) bands saw
         | (n, []) \<Rightarrow> (max max_x x, bands, saw))
      else if b = CHR ''$'' then sixel_scan bs 0 max_x bands saw
      else if b = CHR ''-'' then sixel_scan bs 0 max_x (sadd32 bands 1) saw
      else if b = CHR ''#'' \<or> b = CHR 0x22 then sixel_scan (skip_params bs) x max_x bands saw
      else if sixel_data b then sixel_scan bs (sadd32 x 1) (max max_x (sadd32 x 1)) bands True
      else sixel_scan bs x max_x bands saw)"
  by pat_completeness auto

termination
  by (relation "measure (\<lambda>(bs, _). length bs)")
    (auto dest!: take_count_less simp: less_Suc_eq_le intro: skip_params_length le_SucI)

definition sixel_dimensions :: "bytes \<Rightarrow> (nat \<times> nat) option" where
  "sixel_dimensions payload =
     (case sixel_raster payload of
        Some d \<Rightarrow> Some d
      | None \<Rightarrow>
          let (max_x, bands, saw) = sixel_scan payload 0 0 1 False
          in if saw \<and> max_x > 0 then Some (max_x, smul32 bands 6) else None)"

section \<open>iTerm2, JPEG and PNG\<close>

definition be16 :: "bytes \<Rightarrow> nat \<Rightarrow> nat" where
  "be16 bs i = of_char (bs ! i) * 256 + of_char (bs ! (i + 1))"

definition be32 :: "bytes \<Rightarrow> nat \<Rightarrow> nat" where
  "be32 bs i = be16 bs i * 65536 + be16 bs (i + 2)"

definition png_signature :: bytes where
  "png_signature = [CHR 0x89, CHR ''P'', CHR ''N'', CHR ''G'', CHR 0x0D, CHR 0x0A, CHR 0x1A, CHR 0x0A]"

definition png_dimensions :: "bytes \<Rightarrow> (nat \<times> nat) option" where
  "png_dimensions bs =
     (if length bs < 24 \<or> take 8 bs \<noteq> png_signature then None
      else Some (be32 bs 16, be32 bs 20))"

function jpeg_scan :: "bytes \<Rightarrow> nat \<Rightarrow> (nat \<times> nat) option" where
  "jpeg_scan bs i =
     (if i + 8 < length bs then
        if bs ! i \<noteq> CHR 0xFF then jpeg_scan bs (i + 1)
        else let marker = of_char (bs ! (i + 1)) :: nat
             in if marker = 255 \<or> marker = 0 then jpeg_scan bs (i + 1)
                else if 192 \<le> marker \<and> marker \<le> 207 \<and> marker \<noteq> 196 \<and> marker \<noteq> 200 \<and> marker \<noteq> 204
                then Some (be16 bs (i + 7), be16 bs (i + 5))
                else if (208 \<le> marker \<and> marker \<le> 217) \<or> marker = 1 then jpeg_scan bs (i + 2)
                else jpeg_scan bs (i + max (2 + be16 bs (i + 2)) 1)
      else None)"
  by pat_completeness auto

termination
  by (relation "measure (\<lambda>(bs, i). length bs - i)") (auto simp: Let_def)

declare jpeg_scan.simps [simp del]

definition jpeg_dimensions :: "bytes \<Rightarrow> (nat \<times> nat) option" where
  "jpeg_dimensions bs =
     (if length bs < 4 \<or> bs ! 0 \<noteq> CHR 0xFF \<or> bs ! 1 \<noteq> CHR 0xD8 then None else jpeg_scan bs 2)"

definition parse_iterm_file :: "rstr \<Rightarrow> (rstr \<times> rstr) option" where
  "parse_iterm_file rejoined =
     (case strip_prefix (lit ''File='') rejoined of
        None \<Rightarrow> None | Some body \<Rightarrow> split_once (chr CHR '':'') body)"

text \<open>The first \<open>key\<dots>px\<close> argument decides, even when its number does not parse.\<close>

fun arg_px :: "rstr \<Rightarrow> rstr list \<Rightarrow> nat option" where
  "arg_px key [] = None"
| "arg_px key (kv # kvs) =
     (case strip_prefix key kv of
        None \<Rightarrow> arg_px key kvs
      | Some v \<Rightarrow> (case strip_suffix (lit ''px'') v of
          None \<Rightarrow> arg_px key kvs
        | Some px \<Rightarrow> parse_u32 (utf8_encode px)))"

definition iterm_dimensions ::
  "(bytes \<Rightarrow> bytes option) \<Rightarrow> rstr \<Rightarrow> rstr \<Rightarrow> (nat \<times> nat) option" where
  "iterm_dimensions b64 args data =
     (let kvs = split_on (chr CHR '';'') args
      in case (arg_px (lit ''width='') kvs, arg_px (lit ''height='') kvs) of
           (Some w, Some h) \<Rightarrow> Some (w, h)
         | _ \<Rightarrow>
             (case b64 (utf8_encode (take 16384 (filter (\<lambda>c. \<not> is_whitespace c) data))) of
                None \<Rightarrow> None
              | Some bs \<Rightarrow> (case png_dimensions bs of Some d \<Rightarrow> Some d | None \<Rightarrow> jpeg_dimensions bs)))"

definition decode_png_dims :: "(bytes \<Rightarrow> bytes option) \<Rightarrow> bytes \<Rightarrow> (nat \<times> nat) option" where
  "decode_png_dims b64 data =
     (let n = min (length data div 4 * 4) 64
      in case b64 (take n data) of None \<Rightarrow> None | Some d \<Rightarrow> png_dimensions d)"

section \<open>Bounds\<close>

lemma parse_unsigned_le: "parse_unsigned m s = Some n \<Longrightarrow> n \<le> m"
  by (auto simp: parse_unsigned_def Let_def split: option.splits if_splits list.splits)

lemma sadd32_le [simp]: "sadd32 a b \<le> u32_max"
  by (simp add: sadd32_def)

lemma smul32_le [simp]: "smul32 a b \<le> u32_max"
  by (simp add: smul32_def)

text \<open>The band count starts at one and never falls, so a reported extent is never empty.\<close>

lemma sixel_scan_bands:
  "1 \<le> bands \<Longrightarrow> 1 \<le> fst (snd (sixel_scan bs x mx bands saw))"
proof (induction bs x mx bands saw rule: sixel_scan.induct)
  case (2 b bs x mx bands saw)
  have up: "1 \<le> sadd32 bands 1" by (simp add: sadd32_def u32_max_def)
  show ?case
  proof (cases "b = CHR ''!''")
    case True
    obtain n rest where t: "take_count bs 0 = (n, rest)" by fastforce
    show ?thesis
    proof (cases rest)
      case Nil
      with True t 2 show ?thesis by simp
    next
      case (Cons d ds)
      with True t 2 show ?thesis by (cases "sixel_data d") simp_all
    qed
  next
    case False
    with 2 up show ?thesis by simp
  qed
qed simp

lemma sixel_dimensions_pos:
  assumes "sixel_dimensions bs = Some (w, h)"
  shows "0 < w \<and> 0 < h"
proof (cases "sixel_raster bs")
  case None
  obtain mx bands saw where r: "sixel_scan bs 0 0 1 False = (mx, bands, saw)"
    by (cases "sixel_scan bs 0 0 1 False") auto
  have "1 \<le> bands" using sixel_scan_bands [of 1 bs 0 0 False] r by simp
  then show ?thesis
    using assms None r by (auto simp: sixel_dimensions_def smul32_def u32_max_def split: if_splits)
next
  case (Some d)
  with assms show ?thesis
    by (auto simp: sixel_dimensions_def sixel_raster_def Let_def split: option.splits if_splits prod.splits)
qed

end
