(* ===== verification/Terminfo.thy ===== *)
theory Terminfo
  imports Utf8
begin

text \<open>
  The capability table and the hex codec of XTGETTCAP: \<open>crates/emulator/src/terminfo.rs\<close>.
  Capability names and values are the UTF-8 bytes of the Rust strings.
\<close>

datatype capability = CapBoolean | CapNum nat | CapStr bytes | CapUnsupported

definition ESC :: char where "ESC = CHR 0x1B"

definition SETULC :: bytes where
  "SETULC = CHR 0x5C # ''E[58:2:%p1%{65536}%/%d:%p1%{256}%/%{255}%&%d:%p1%{255}%&%d%;m''"

definition SMULX :: bytes where "SMULX = CHR 0x5C # ''E[4:%p1%dm''"
definition SETRGBF :: bytes where "SETRGBF = CHR 0x5C # ''E[38:2:%p1%d:%p2%d:%p3%dm''"
definition SETRGBB :: bytes where "SETRGBB = CHR 0x5C # ''E[48:2:%p1%d:%p2%d:%p3%dm''"

definition lookup :: "bytes \<Rightarrow> bytes \<Rightarrow> capability" where
  "lookup name term =
     (if name = ''TN'' \<or> name = ''name'' then CapStr term
      else if name = ''Co'' \<or> name = ''colors'' then CapNum 256
      else if name = ''RGB'' then CapNum 8
      else if name = ''Tc'' \<or> name = ''Su'' then CapBoolean
      else if name = ''Smulx'' then CapStr SMULX
      else if name = ''Setulc'' then CapStr SETULC
      else if name = ''setrgbf'' then CapStr SETRGBF
      else if name = ''setrgbb'' then CapStr SETRGBB
      else if name = ''smcup'' then CapStr (ESC # ''[?1049h'')
      else if name = ''rmcup'' then CapStr (ESC # ''[?1049l'')
      else if name = ''sitm'' then CapStr (ESC # ''[3m'')
      else if name = ''ritm'' then CapStr (ESC # ''[23m'')
      else if name = ''BE'' then CapStr (ESC # ''[?2004h'')
      else if name = ''BD'' then CapStr (ESC # ''[?2004l'')
      else if name = ''PS'' then CapStr (ESC # ''[200~'')
      else if name = ''PE'' then CapStr (ESC # ''[201~'')
      else if name = ''Ms'' then
        CapStr (CHR 0x5C # ''E]52;%p1%s;%p2%s'' @ [CHR 0x5C, CHR ''E'', CHR 0x5C, CHR 0x5C])
      else if name = ''kbs'' then CapStr (CHR 0x5C # ''177'')
      else if name = ''kcuu1'' then CapStr (CHR 0x5C # ''EOA'')
      else if name = ''kcud1'' then CapStr (CHR 0x5C # ''EOB'')
      else if name = ''kcuf1'' then CapStr (CHR 0x5C # ''EOC'')
      else if name = ''kcub1'' then CapStr (CHR 0x5C # ''EOD'')
      else if name = ''kHOM'' then CapStr (CHR 0x5C # ''E[1;2H'')
      else if name = ''kEND'' then CapStr (CHR 0x5C # ''E[1;2F'')
      else if name = ''kDC'' then CapStr (CHR 0x5C # ''E[3;2~'')
      else if name = ''kPRV'' then CapStr (CHR 0x5C # ''E[5;2~'')
      else if name = ''kNXT'' then CapStr (CHR 0x5C # ''E[6;2~'')
      else CapUnsupported)"

definition hex_digit :: "nat \<Rightarrow> char" where
  "hex_digit n = char_of (if n < 10 then 48 + n else 87 + n)"

definition hex_encode :: "bytes \<Rightarrow> bytes" where
  "hex_encode bs = concat (map (\<lambda>b. [hex_digit (of_char b div 16), hex_digit (of_char b mod 16)]) bs)"

definition nib :: "char \<Rightarrow> nat option" where
  "nib c = (let n = of_char c :: nat
     in if 48 \<le> n \<and> n \<le> 57 then Some (n - 48)
        else if 97 \<le> n \<and> n \<le> 102 then Some (n - 97 + 10)
        else if 65 \<le> n \<and> n \<le> 70 then Some (n - 65 + 10)
        else None)"

fun hex_pairs :: "bytes \<Rightarrow> bytes option" where
  "hex_pairs (a # b # rest) =
     (case nib a of None \<Rightarrow> None
      | Some x \<Rightarrow> (case nib b of None \<Rightarrow> None
          | Some y \<Rightarrow> map_option (\<lambda>r. char_of (x * 16 + y) # r) (hex_pairs rest)))"
| "hex_pairs _ = Some []"

definition hex_decode :: "bytes \<Rightarrow> bytes option" where
  "hex_decode hex = (if length hex mod 2 \<noteq> 0 then None else hex_pairs hex)"

lemma nib_hex_digit: "n < 16 \<Longrightarrow> nib (hex_digit n) = Some n"
  by (simp add: nib_def hex_digit_def)

lemma hex_pairs_encode: "hex_pairs (hex_encode bs) = Some bs"
proof (induction bs)
  case Nil
  then show ?case by (simp add: hex_encode_def)
next
  case (Cons b bs)
  have b: "(of_char b :: nat) < 256" by simp
  have "(of_char b :: nat) div 16 < 16" using b by linarith
  then show ?case
    using Cons by (simp add: hex_encode_def nib_hex_digit)
qed

lemma hex_encode_length: "length (hex_encode bs) = 2 * length bs"
  by (induction bs) (simp_all add: hex_encode_def)

text \<open>Decoding an encoded name gives it back.\<close>

lemma hex_decode_encode: "hex_decode (hex_encode bs) = Some bs"
  by (simp add: hex_decode_def hex_encode_length hex_pairs_encode)

end
