(* ===== verification/Screen.thy ===== *)
theory Screen
  imports Grid Screen_Tables Cursor Keyboard Scrollback Graphics_Parse Terminfo
begin

unbundle bit_operations_syntax

text \<open>
  The screen: state, printing, line feeds, C0 controls and ESC sequences of
  \<open>crates/emulator/src/screen.rs\<close>.  The record \<open>screen\<close> has the fields of \<open>Screen\<close> (\<open>term\<close> is
  \<open>term_name\<close>).  Sequences of bytes the screen owes the child are HOL strings; \<open>wd\<close> is the width
  function of \<open>unicode-width\<close>.  \<open>tracing\<close> calls have no effect on the state and are left out.
\<close>

section \<open>State\<close>

record pending_tx =
  tx_id :: nat
  tx_format :: image_format
  tx_width :: "nat option"
  tx_height :: "nat option"
  tx_data :: bytes
  tx_display :: bool
  tx_place_rows :: "nat option"
  tx_place_cols :: "nat option"
  tx_unicode :: bool
  tx_placement_id :: "nat option"
  tx_z :: int

record pending_frame =
  pf_image_id :: nat
  pf_number :: "nat option"
  pf_canvas :: "nat option"
  pf_x :: nat
  pf_y :: nat
  pf_width :: nat
  pf_height :: nat
  pf_overwrite :: bool
  pf_bg :: nat
  pf_gap :: int
  pf_format :: image_format
  pf_data :: bytes

datatype color_query = QForeground | QBackground | QCursor
datatype charset = Ascii | DecSpecialGraphics
datatype gset = G0 | G1
datatype color_scheme = Dark | Light

record notification =
  nt_title :: rstr
  nt_body :: rstr

definition special_table :: "rstr list" where
  "special_table =
     [[0x25C6], [0x2592], [0x2409], [0x240C], [0x240D], [0x240A], [0x00B0], [0x00B1], [0x2424],
      [0x240B], [0x2518], [0x2510], [0x250C], [0x2514], [0x253C], [0x23BA], [0x23BB], [0x2500],
      [0x23BC], [0x23BD], [0x251C], [0x2524], [0x2534], [0x252C], [0x2502], [0x2264], [0x2265],
      [0x03C0], [0x2260], [0x00A3], [0x00B7]]"

definition dec_special_graphic :: "nat \<Rightarrow> rstr option" where
  "dec_special_graphic b = (if 96 \<le> b \<and> b \<le> 126 then Some (special_table ! (b - 96)) else None)"

record screen =
  active :: grid
  alt :: "grid option"
  scrollback :: scrollback
  cursor :: cursor
  saved_cursor :: "cursor option"
  modes :: modes
  tabs :: tab_stops
  title :: rstr
  icon_title :: rstr
  cwd :: "rstr option"
  hyperlinks :: link_table
  scroll_region :: "nat \<times> nat"
  replies :: "bytes list"
  clipboard_writes :: "bytes list"
  color_queries :: "(nat \<times> color_query) list"
  bell_pending :: bool
  pending_notifications :: "notification list"
  kbd :: keyboard
  term_name :: bytes
  color_scheme :: color_scheme
  blocks_completed :: nat
  last_block_exit :: "int option"
  last_block_duration :: "nat option"
  pending_command_start :: "nat option"
  area_px_w :: nat
  area_px_h :: nat
  images :: image_store
  placements :: "placement list"
  virtual_placements :: "virtual_placement list"
  pending_tx :: "pending_tx option"
  pending_frame :: "pending_frame option"
  graphics_seq :: nat
  placement_id_seq :: nat
  image_id_seq :: nat
  image_gen :: nat
  last_graphic :: "rstr option"
  charset_g0 :: charset
  charset_g1 :: charset
  gl :: gset

definition screen_new :: "nat \<Rightarrow> nat \<Rightarrow> screen" where
  "screen_new rows cols =
     \<lparr>active = grid_new rows cols, alt = None, scrollback = sb_default, cursor = cursor_default,
      saved_cursor = None, modes = modes_default, tabs = tabs_new cols, title = [],
      icon_title = [], cwd = None, hyperlinks = link_table_default,
      scroll_region = (0, rows - 1), replies = [], clipboard_writes = [], color_queries = [],
      bell_pending = False, pending_notifications = [], kbd = kbd_default,
      term_name = ''xterm-256color'', color_scheme = Dark, blocks_completed = 0,
      last_block_exit = None, last_block_duration = None, pending_command_start = None,
      area_px_w = 0, area_px_h = 0, images = store_default, placements = [],
      virtual_placements = [], pending_tx = None, pending_frame = None, graphics_seq = 0,
      placement_id_seq = 0, image_id_seq = 0x80000000, image_gen = 0, last_graphic = None,
      charset_g0 = Ascii, charset_g1 = Ascii, gl = G0\<rparr>"

definition active_charset :: "screen \<Rightarrow> charset" where
  "active_charset s = (if gl s = G1 then charset_g1 s else charset_g0 s)"

definition s_rows :: "screen \<Rightarrow> nat" where
  "s_rows s = num_rows (active s)"

definition s_cols :: "screen \<Rightarrow> nat" where
  "s_cols s = num_cols (active s)"

definition cell_pixels :: "screen \<Rightarrow> nat \<times> nat" where
  "cell_pixels s =
     (let cols = max (s_cols s) 1; rows = max (s_rows s) 1
      in if area_px_w s = 0 \<or> area_px_h s = 0 then (10, 20)
         else (max (area_px_w s div cols) 1, max (area_px_h s div rows) 1))"

definition upd_cur :: "(cursor \<Rightarrow> cursor) \<Rightarrow> screen \<Rightarrow> screen" where
  "upd_cur f s = s\<lparr>cursor := f (cursor s)\<rparr>"

definition set_col :: "nat \<Rightarrow> screen \<Rightarrow> screen" where
  "set_col c s = upd_cur (\<lambda>k. k\<lparr>col := c\<rparr>) s"

definition set_row :: "nat \<Rightarrow> screen \<Rightarrow> screen" where
  "set_row r s = upd_cur (\<lambda>k. k\<lparr>row := r\<rparr>) s"

definition set_wrap :: "bool \<Rightarrow> screen \<Rightarrow> screen" where
  "set_wrap b s = upd_cur (\<lambda>k. k\<lparr>pending_wrap := b\<rparr>) s"

definition set_pixel_area :: "nat \<Rightarrow> nat \<Rightarrow> screen \<Rightarrow> screen" where
  "set_pixel_area w h s = s\<lparr>area_px_w := w, area_px_h := h\<rparr>"

definition set_term :: "bytes \<Rightarrow> screen \<Rightarrow> screen" where
  "set_term t s = s\<lparr>term_name := t\<rparr>"

definition set_color_scheme :: "color_scheme \<Rightarrow> screen \<Rightarrow> screen" where
  "set_color_scheme c s = s\<lparr>color_scheme := c\<rparr>"

definition take_replies :: "screen \<Rightarrow> bytes list \<times> screen" where
  "take_replies s = (replies s, s\<lparr>replies := []\<rparr>)"

definition take_clipboard_writes :: "screen \<Rightarrow> bytes list \<times> screen" where
  "take_clipboard_writes s = (clipboard_writes s, s\<lparr>clipboard_writes := []\<rparr>)"

definition take_color_queries :: "screen \<Rightarrow> (nat \<times> color_query) list \<times> screen" where
  "take_color_queries s = (color_queries s, s\<lparr>color_queries := []\<rparr>)"

definition take_bell :: "screen \<Rightarrow> bool \<times> screen" where
  "take_bell s = (bell_pending s, s\<lparr>bell_pending := False\<rparr>)"

definition take_notifications :: "screen \<Rightarrow> notification list \<times> screen" where
  "take_notifications s = (pending_notifications s, s\<lparr>pending_notifications := []\<rparr>)"

section \<open>Scrollback and line feeds\<close>

text \<open>\<open>retain_mut\<close> on the placements: shift every anchor down, drop those that fall off.\<close>

definition shift_placements :: "nat \<Rightarrow> placement list \<Rightarrow> placement list" where
  "shift_placements k ps =
     List.map_filter (\<lambda>p. map_option (\<lambda>a. p\<lparr>pl_anchor := a\<rparr>) (checked_sub (pl_anchor p) k)) ps"

definition push_scrollback :: "grid_row \<Rightarrow> screen \<Rightarrow> screen" where
  "push_scrollback r s =
     (let (ev, sb) = sb_push r (scrollback s);
          evicted = as_u32 ev;
          s = s\<lparr>scrollback := sb\<rparr>
      in if evicted = 0 \<or> placements s = [] then s
         else s\<lparr>placements := shift_placements evicted (placements s)\<rparr>)"

text \<open>
  \<open>scroll_up\<close> on the active grid, its popped rows pushed into the scrollback; rows are collected
  only on the main screen and only for a region at the top of the screen.
\<close>

definition scroll_up_feed :: "nat \<Rightarrow> nat \<Rightarrow> nat \<Rightarrow> screen \<Rightarrow> screen" where
  "scroll_up_feed tp bt n s =
     (let target = (if alt s = None \<and> tp = 0 then Some [] else None);
          (g, popped) = scroll_up (active s) tp bt n target;
          s = s\<lparr>active := g\<rparr>
      in case popped of Some rs \<Rightarrow> foldl (\<lambda>s r. push_scrollback r s) s rs | None \<Rightarrow> s)"

definition advance_to_next_row :: "bool \<Rightarrow> screen \<Rightarrow> screen" where
  "advance_to_next_row soft_wrap s =
     (let (tp, bt) = scroll_region s;
          r = row (cursor s);
          s = (if r = bt then set_row bt (scroll_up_feed tp bt 1 s)
               else if r > bt then set_row (min (advance r 1) (s_rows s - 1)) s
               else set_row (advance r 1) s)
      in if soft_wrap then
           let dest = row (cursor s)
           in s\<lparr>active := map_row dest (\<lambda>g. g\<lparr>wrap_origin := SoftFrom dest\<rparr>) (active s)\<rparr>
         else s)"

section \<open>Printing\<close>

definition put_cell_at_cursor :: "cell \<Rightarrow> screen \<Rightarrow> screen" where
  "put_cell_at_cursor c s = s\<lparr>active := put_cell (active s) (row (cursor s)) (col (cursor s)) c\<rparr>"

definition clear_wide_straddle :: "(rstr \<Rightarrow> nat) \<Rightarrow> nat \<Rightarrow> nat \<Rightarrow> screen \<Rightarrow> screen" where
  "clear_wide_straddle wd start stop s =
     (let r = row (cursor s);
          g = active s;
          g = (if start > 0 \<and> (case get_cell g r start of Some c \<Rightarrow> is_wide_spacer c | None \<Rightarrow> False)
               then put_cell g r (retreat start 1) default_cell else g);
          g = (if (case get_cell g r stop of Some c \<Rightarrow> display_width wd (grapheme c) \<ge> 2 | None \<Rightarrow> False)
               then put_cell g r (advance stop 1) default_cell else g)
      in s\<lparr>active := g\<rparr>)"

definition append_grapheme :: "nat \<Rightarrow> nat \<Rightarrow> rstr \<Rightarrow> screen \<Rightarrow> screen" where
  "append_grapheme r c cluster s =
     (case get_cell (active s) r c of
        None \<Rightarrow> s
      | Some prev \<Rightarrow> s\<lparr>active := put_cell (active s) r c (prev\<lparr>grapheme := grapheme prev @ cluster\<rparr>)\<rparr>)"

definition attach_zero_width :: "rstr \<Rightarrow> screen \<Rightarrow> screen" where
  "attach_zero_width cluster s =
     (let r = row (cursor s);
          base = (if pending_wrap (cursor s) then Some (col (cursor s))
                  else checked_sub (col (cursor s)) 1)
      in case base of
           Some base \<Rightarrow>
             let base = (if (case get_cell (active s) r base of Some c \<Rightarrow> is_wide_spacer c | None \<Rightarrow> False)
                         then (case checked_sub base 1 of Some b \<Rightarrow> b | None \<Rightarrow> base) else base)
             in append_grapheme r base cluster s
         | None \<Rightarrow>
             if r > 0 then append_grapheme (retreat r 1) (s_cols s - 1) cluster s else s)"

text \<open>The cluster actually written: a single GL byte goes through the line-drawing charset.\<close>

definition mapped_cluster :: "screen \<Rightarrow> rstr \<Rightarrow> rstr" where
  "mapped_cluster s cluster =
     (case (active_charset s, cluster) of
        (DecSpecialGraphics, [b]) \<Rightarrow>
          (if b < 128 then (case dec_special_graphic b of Some g \<Rightarrow> g | None \<Rightarrow> cluster) else cluster)
      | _ \<Rightarrow> cluster)"

definition cursor_cell :: "rstr \<Rightarrow> cursor \<Rightarrow> cell" where
  "cursor_cell g k = \<lparr>grapheme = g, c_fg = fg k, c_bg = bg k, c_ucolor = underline_color k,
     c_ustyle = underline_style k, c_attrs = attrs k, c_link = hyperlink_id k\<rparr>"

definition resolve_wrap :: "screen \<Rightarrow> screen" where
  "resolve_wrap s =
     (if pending_wrap (cursor s) \<and> m_contains (modes s) M_AUTOWRAP
      then set_wrap False (set_col 0 (advance_to_next_row True s)) else s)"

text \<open>A wide cluster that does not fit pads the last column and wraps, or is clamped.\<close>

definition make_room_wide :: "(rstr \<Rightarrow> nat) \<Rightarrow> nat \<Rightarrow> screen \<Rightarrow> screen" where
  "make_room_wide wd w s =
     (if w \<ge> 2 \<and> col (cursor s) + 1 \<ge> s_cols s then
        if m_contains (modes s) M_AUTOWRAP then
          let s = (if col (cursor s) < s_cols s
                   then put_cell_at_cursor default_cell
                          (clear_wide_straddle wd (col (cursor s)) (col (cursor s)) s)
                   else s)
          in set_wrap False (set_col 0 (advance_to_next_row True s))
        else set_col (s_cols s - 2) s
      else s)"

definition write_cluster :: "(rstr \<Rightarrow> nat) \<Rightarrow> nat \<Rightarrow> rstr \<Rightarrow> screen \<Rightarrow> screen" where
  "write_cluster wd w cluster s =
     (let s = clear_wide_straddle wd (col (cursor s))
                (advance (col (cursor s)) (if w \<ge> 2 then 1 else 0)) s;
          s = put_cell_at_cursor (cursor_cell cluster (cursor s)) s
      in if w \<ge> 2
         then put_cell_at_cursor wide_spacer (set_col (advance (col (cursor s)) 1) s) else s)"

definition step_right :: "screen \<Rightarrow> screen" where
  "step_right s =
     (if col (cursor s) + 1 \<ge> s_cols s then set_wrap True s
      else set_col (advance (col (cursor s)) 1) s)"

definition put_grapheme :: "(rstr \<Rightarrow> nat) \<Rightarrow> rstr \<Rightarrow> screen \<Rightarrow> screen" where
  "put_grapheme wd cluster s =
     (let cluster = mapped_cluster s cluster;
          w = as_u16 (wd cluster)
      in if w = 0 then attach_zero_width cluster s
         else step_right (write_cluster wd w cluster
                (make_room_wide wd w (resolve_wrap (s\<lparr>last_graphic := Some cluster\<rparr>)))))"

section \<open>C0 controls\<close>

definition execute_c0 :: "nat \<Rightarrow> screen \<Rightarrow> screen" where
  "execute_c0 b s =
     (let s = s\<lparr>last_graphic := None\<rparr>
      in if b = 0x07 then s\<lparr>bell_pending := True\<rparr>
         else if b = 0x08 then set_wrap False (set_col (retreat (col (cursor s)) 1) s)
         else if b = 0x09 then
           let next = (case tabs_next (tabs s) (col (cursor s)) of Some c \<Rightarrow> c | None \<Rightarrow> s_cols s - 1)
           in set_wrap False (set_col (min next (s_cols s - 1)) s)
         else if 0x0A \<le> b \<and> b \<le> 0x0C then set_wrap False (advance_to_next_row False s)
         else if b = 0x0D then set_wrap False (set_col 0 s)
         else if b = 0x0E then s\<lparr>gl := G1\<rparr>
         else if b = 0x0F then s\<lparr>gl := G0\<rparr>
         else s)"

section \<open>ESC sequences\<close>

definition decaln :: "screen \<Rightarrow> screen" where
  "decaln s =
     (let rows = s_rows s; cols = s_cols s;
          g = foldl (\<lambda>g r. foldl (\<lambda>g c. put_cell g r c (default_cell\<lparr>grapheme := lit ''E''\<rparr>)) g [0..<cols])
                (active s) [0..<rows]
      in upd_cur (move_to 0 0 rows cols) (s\<lparr>active := g\<rparr>)\<lparr>last_graphic := None\<rparr>)"

definition designate :: "nat \<Rightarrow> nat \<Rightarrow> screen \<Rightarrow> screen" where
  "designate slot b s =
     (let cs = (if b = 48 then Some DecSpecialGraphics else if b = 66 then Some Ascii else None)
      in case cs of
           Some cs \<Rightarrow> (if slot = 40 then s\<lparr>charset_g0 := cs\<rparr> else s\<lparr>charset_g1 := cs\<rparr>)
         | None \<Rightarrow> s)"

definition full_reset :: "screen \<Rightarrow> screen" where
  "full_reset s =
     (screen_new (s_rows s) (s_cols s))\<lparr>term_name := term_name s, color_scheme := color_scheme s\<rparr>"

definition reverse_index :: "screen \<Rightarrow> screen" where
  "reverse_index s =
     (let (tp, bt) = scroll_region s
      in if row (cursor s) = tp then s\<lparr>active := scroll_down (active s) tp bt 1\<rparr>
         else upd_cur (cur_up 1) s)"

definition handle_esc :: "nat list \<Rightarrow> nat \<Rightarrow> screen \<Rightarrow> screen" where
  "handle_esc ints b s =
     (if ints = [35] then (if b = 56 then decaln s else s)
      else if ints = [40] \<or> ints = [41] then designate (hd ints) b s
      else if ints \<noteq> [] then s
      else let s = s\<lparr>last_graphic := None\<rparr>
        in if b = chr CHR ''7'' then s\<lparr>saved_cursor := Some (cursor s)\<rparr>
           else if b = chr CHR ''8'' then
             (case saved_cursor s of Some c \<Rightarrow> set_wrap False (s\<lparr>cursor := c\<rparr>) | None \<Rightarrow> s)
           else if b = chr CHR ''H'' then s\<lparr>tabs := tabs_set (tabs s) (col (cursor s))\<rparr>
           else if b = chr CHR ''c'' then full_reset s
           else if b = chr CHR ''M'' then reverse_index s
           else if b = chr CHR ''D'' then set_wrap False (advance_to_next_row False s)
           else if b = chr CHR ''E'' then set_wrap False (advance_to_next_row False (set_col 0 s))
           else s)"

end
