(* ===== verification/Screen_Csi.thy ===== *)
theory Screen_Csi
  imports Screen
begin

unbundle bit_operations_syntax

text \<open>
  CSI sequences: \<open>handle_csi\<close> and what it calls, of \<open>crates/emulator/src/screen.rs\<close>.  The
  parameters (\<open>vte::Params\<close>) are a list of groups of subparameters; a final byte is a \<open>char\<close>,
  intermediates are bytes.  One definition per control, named as ECMA-48 or xterm names it.
\<close>

section \<open>Parameters\<close>

type_synonym params = "nat list list"

definition param :: "params \<Rightarrow> nat \<Rightarrow> nat option" where
  "param ps i = (case nth_opt ps i of None \<Rightarrow> None | Some g \<Rightarrow> head_opt g)"

definition param_or :: "nat \<Rightarrow> params \<Rightarrow> nat \<Rightarrow> nat" where
  "param_or d ps i = (case param ps i of Some n \<Rightarrow> n | None \<Rightarrow> d)"

text \<open>\<open>first.filter(|&n| n > 0).unwrap_or(1)\<close>\<close>

definition count_param :: "params \<Rightarrow> nat" where
  "count_param ps = (case param ps 0 of Some n \<Rightarrow> if n > 0 then n else 1 | None \<Rightarrow> 1)"

definition reply :: "bytes \<Rightarrow> screen \<Rightarrow> screen" where
  "reply bs s = s\<lparr>replies := replies s @ [bs]\<rparr>"

section \<open>Cursor motion\<close>

definition absolute_row :: "nat \<Rightarrow> screen \<Rightarrow> nat" where
  "absolute_row row_arg s =
     (if m_contains (modes s) M_ORIGIN then
        let (tp, bt) = scroll_region s in min (sadd16 tp row_arg) bt
      else min row_arg (s_rows s - 1))"

definition row_up :: "nat \<Rightarrow> screen \<Rightarrow> nat" where
  "row_up n s =
     (let tp = fst (scroll_region s);
          floor = (if row (cursor s) \<ge> tp then tp else 0)
      in max (retreat (row (cursor s)) n) floor)"

definition row_down :: "nat \<Rightarrow> screen \<Rightarrow> nat" where
  "row_down n s =
     (let bt = snd (scroll_region s);
          ceil = (if row (cursor s) \<le> bt then bt else s_rows s - 1)
      in min (advance (row (cursor s)) n) ceil)"

definition csi_cuu :: "params \<Rightarrow> screen \<Rightarrow> screen" where
  "csi_cuu ps s = set_wrap False (set_row (row_up (count_param ps) s) s)"

definition csi_cud :: "params \<Rightarrow> screen \<Rightarrow> screen" where
  "csi_cud ps s = set_wrap False (set_row (row_down (count_param ps) s) s)"

definition csi_cuf :: "params \<Rightarrow> screen \<Rightarrow> screen" where
  "csi_cuf ps s = upd_cur (cur_right (count_param ps) (s_cols s)) s"

definition csi_cub :: "params \<Rightarrow> screen \<Rightarrow> screen" where
  "csi_cub ps s = upd_cur (cur_left (count_param ps)) s"

definition csi_cnl :: "params \<Rightarrow> screen \<Rightarrow> screen" where
  "csi_cnl ps s = set_wrap False (set_col 0 (set_row (row_down (count_param ps) s) s))"

definition csi_cpl :: "params \<Rightarrow> screen \<Rightarrow> screen" where
  "csi_cpl ps s = set_wrap False (set_col 0 (set_row (row_up (count_param ps) s) s))"

definition csi_cha :: "params \<Rightarrow> screen \<Rightarrow> screen" where
  "csi_cha ps s = set_wrap False (set_col (min (param_or 1 ps 0 - 1) (s_cols s - 1)) s)"

definition csi_cup :: "params \<Rightarrow> screen \<Rightarrow> screen" where
  "csi_cup ps s =
     set_wrap False (set_col (min (param_or 1 ps 1 - 1) (s_cols s - 1))
       (set_row (absolute_row (param_or 1 ps 0 - 1) s) s))"

definition csi_vpa :: "params \<Rightarrow> screen \<Rightarrow> screen" where
  "csi_vpa ps s = set_wrap False (set_row (absolute_row (param_or 1 ps 0 - 1) s) s)"

fun cht_loop :: "tab_stops \<Rightarrow> nat \<Rightarrow> nat \<Rightarrow> nat \<Rightarrow> nat" where
  "cht_loop t lst 0 c = c"
| "cht_loop t lst (Suc n) c =
     (case tabs_next t c of Some c' \<Rightarrow> cht_loop t lst n (min c' lst) | None \<Rightarrow> lst)"

fun cbt_loop :: "tab_stops \<Rightarrow> nat \<Rightarrow> nat \<Rightarrow> nat" where
  "cbt_loop t 0 c = c"
| "cbt_loop t (Suc n) c = (case tabs_prev t c of Some c' \<Rightarrow> cbt_loop t n c' | None \<Rightarrow> 0)"

definition csi_cht :: "params \<Rightarrow> screen \<Rightarrow> screen" where
  "csi_cht ps s =
     set_wrap False (set_col (cht_loop (tabs s) (s_cols s - 1) (count_param ps) (col (cursor s))) s)"

definition csi_cbt :: "params \<Rightarrow> screen \<Rightarrow> screen" where
  "csi_cbt ps s = set_wrap False (set_col (cbt_loop (tabs s) (count_param ps) (col (cursor s))) s)"

definition csi_rep :: "(rstr \<Rightarrow> nat) \<Rightarrow> rstr option \<Rightarrow> params \<Rightarrow> screen \<Rightarrow> screen" where
  "csi_rep wd g ps s =
     (case g of Some g \<Rightarrow> (put_grapheme wd g ^^ count_param ps) s | None \<Rightarrow> s)"

section \<open>Erasing, inserting, scrolling\<close>

definition erase :: "(rstr \<Rightarrow> nat) \<Rightarrow> nat \<Rightarrow> nat \<Rightarrow> nat \<Rightarrow> nat \<Rightarrow> screen \<Rightarrow> screen" where
  "erase wd r0 c0 r1 c1 s = s\<lparr>active := clear_rect wd (active s) r0 c0 r1 c1\<rparr>"

definition erase_scrollback :: "screen \<Rightarrow> screen" where
  "erase_scrollback s =
     (let cleared = as_u32 (sb_len (scrollback s));
          s = s\<lparr>active := grid_clear (active s), scrollback := (scrollback s)\<lparr>sb_rows := []\<rparr>\<rparr>
      in if cleared > 0 then s\<lparr>placements := shift_placements cleared (placements s)\<rparr> else s)"

definition csi_ed :: "(rstr \<Rightarrow> nat) \<Rightarrow> params \<Rightarrow> screen \<Rightarrow> screen" where
  "csi_ed wd ps s =
     (let mode = param_or 0 ps 0; r = row (cursor s); c = col (cursor s);
          last_r = s_rows s - 1; last_c = s_cols s - 1
      in set_wrap False
        (if mode = 0 then
           let s = erase wd r c r last_c s
           in if r < last_r then erase wd (advance r 1) 0 last_r last_c s else s
         else if mode = 1 then
           erase wd r 0 r c (if r > 0 then erase wd 0 0 (retreat r 1) last_c s else s)
         else if mode = 2 then s\<lparr>active := grid_clear (active s)\<rparr>
         else if mode = 3 then erase_scrollback s
         else s))"

definition csi_el :: "(rstr \<Rightarrow> nat) \<Rightarrow> params \<Rightarrow> screen \<Rightarrow> screen" where
  "csi_el wd ps s =
     (let mode = param_or 0 ps 0; r = row (cursor s); c = col (cursor s); last_c = s_cols s - 1
      in set_wrap False
        (if mode = 0 then erase wd r c r last_c s
         else if mode = 1 then erase wd r 0 r c s
         else if mode = 2 then erase wd r 0 r last_c s
         else s))"

definition csi_ech :: "(rstr \<Rightarrow> nat) \<Rightarrow> params \<Rightarrow> screen \<Rightarrow> screen" where
  "csi_ech wd ps s =
     (let n = count_param ps; r = row (cursor s); c = col (cursor s);
          stop = min (advance c (n - 1)) (s_cols s - 1)
      in set_wrap False (erase wd r c r stop s))"

definition csi_ich :: "(rstr \<Rightarrow> nat) \<Rightarrow> params \<Rightarrow> screen \<Rightarrow> screen" where
  "csi_ich wd ps s = set_wrap False
     (s\<lparr>active := insert_cells wd (active s) (row (cursor s)) (col (cursor s)) (count_param ps)\<rparr>)"

definition csi_dch :: "(rstr \<Rightarrow> nat) \<Rightarrow> params \<Rightarrow> screen \<Rightarrow> screen" where
  "csi_dch wd ps s = set_wrap False
     (s\<lparr>active := delete_cells wd (active s) (row (cursor s)) (col (cursor s)) (count_param ps)\<rparr>)"

definition csi_decstbm :: "params \<Rightarrow> screen \<Rightarrow> screen" where
  "csi_decstbm ps s =
     (let tp = param_or 1 ps 0 - 1;
          bt = min (param_or (s_rows s) ps 1 - 1) (s_rows s - 1);
          s = s\<lparr>scroll_region := (if tp < bt then (tp, bt) else (0, s_rows s - 1))\<rparr>;
          home = (if m_contains (modes s) M_ORIGIN then fst (scroll_region s) else 0)
      in upd_cur (move_to home 0 (s_rows s) (s_cols s)) s)"

definition csi_su :: "params \<Rightarrow> screen \<Rightarrow> screen" where
  "csi_su ps s =
     (let (tp, bt) = scroll_region s in scroll_up_feed tp bt (count_param ps) s)"

definition csi_sd :: "params \<Rightarrow> screen \<Rightarrow> screen" where
  "csi_sd ps s =
     (let (tp, bt) = scroll_region s in s\<lparr>active := scroll_down (active s) tp bt (count_param ps)\<rparr>)"

definition in_region :: "screen \<Rightarrow> bool" where
  "in_region s \<longleftrightarrow> fst (scroll_region s) \<le> row (cursor s) \<and> row (cursor s) \<le> snd (scroll_region s)"

definition csi_il :: "params \<Rightarrow> screen \<Rightarrow> screen" where
  "csi_il ps s =
     (if in_region s then
        set_wrap False (set_col 0 (s\<lparr>active :=
          scroll_down (active s) (row (cursor s)) (snd (scroll_region s)) (count_param ps)\<rparr>))
      else s)"

definition csi_dl :: "params \<Rightarrow> screen \<Rightarrow> screen" where
  "csi_dl ps s =
     (if in_region s then
        set_wrap False (set_col 0 (s\<lparr>active :=
          fst (scroll_up (active s) (row (cursor s)) (snd (scroll_region s)) (count_param ps) None)\<rparr>))
      else s)"

definition csi_tbc :: "params \<Rightarrow> screen \<Rightarrow> screen" where
  "csi_tbc ps s =
     (let mode = param_or 0 ps 0
      in if mode = 0 then s\<lparr>tabs := tabs_clear (tabs s) (col (cursor s))\<rparr>
         else if mode = 3 then s\<lparr>tabs := tabs_clear_all (tabs s)\<rparr> else s)"

section \<open>Reports\<close>

definition csi_dsr :: "params \<Rightarrow> bytes \<Rightarrow> screen \<Rightarrow> screen" where
  "csi_dsr ps ints s =
     (let mode = param_or 0 ps 0
      in if head_opt ints = Some CHR ''?'' then
           (if mode = 996 then
              reply (ESC # ''[?997;'' @ dec (case color_scheme s of Dark \<Rightarrow> 1 | Light \<Rightarrow> 2) @ ''n'') s
            else s)
         else if mode = 5 then reply (ESC # ''[0n'') s
         else if mode = 6 then
           reply (ESC # ''['' @ dec (sadd16 (row (cursor s)) 1) @ '';'' @ dec (sadd16 (col (cursor s)) 1)
                    @ ''R'') s
         else s)"

definition pkg_version :: bytes where "pkg_version = ''0.1.0''"

definition pack_da2_version :: nat where
  "pack_da2_version =
     (let part = (\<lambda>i. case nth_opt (split_on CHR ''.'' pkg_version) i of
                     Some p \<Rightarrow> (case parse_unsigned u32_max p of Some n \<Rightarrow> n | None \<Rightarrow> 0)
                   | None \<Rightarrow> 0)
      in part 0 * 10000 + part 1 * 100 + part 2)"

definition csi_da :: "bytes \<Rightarrow> screen \<Rightarrow> screen" where
  "csi_da ints s =
     (if head_opt ints = Some CHR ''>'' then reply (ESC # ''[>0;'' @ dec pack_da2_version @ '';0c'') s
      else reply (ESC # ''[?1;2c'') s)"

definition csi_q :: "params \<Rightarrow> bytes \<Rightarrow> screen \<Rightarrow> screen" where
  "csi_q ps ints s =
     (if head_opt ints = Some CHR ''>'' then
        reply (ESC # ''P>|plexy-glass('' @ pkg_version @ '')'' @ [ESC, CHR 0x5C]) s
      else if head_opt ints = Some CHR '' '' then
        let n = param_or 0 ps 0;
            sh = (if n = 0 then ShapeDefault else if n \<le> 2 then ShapeBlock
                  else if n \<le> 4 then ShapeUnderline else if n \<le> 6 then ShapeBar
                  else shape (cursor s));
            bl = (if n \<le> 6 then n = 0 \<or> n mod 2 = 1 else blink (cursor s))
        in upd_cur (\<lambda>k. k\<lparr>shape := sh, blink := bl\<rparr>) s
      else s)"

definition csi_window_op :: "params \<Rightarrow> screen \<Rightarrow> screen" where
  "csi_window_op ps s =
     (let (cell_w, cell_h) = cell_pixels s; rows = s_rows s; cols = s_cols s;
          op = param_or 0 ps 0;
          pair = (\<lambda>k a b. ESC # ''['' @ dec k @ '';'' @ dec a @ '';'' @ dec b @ ''t'')
      in if op = 14 then reply (pair 4 (smul16 cell_h rows) (smul16 cell_w cols)) s
         else if op = 15 then reply (pair 5 (smul16 cell_h rows) (smul16 cell_w cols)) s
         else if op = 16 then reply (pair 6 cell_h cell_w) s
         else if op = 18 then reply (pair 8 rows cols) s
         else if op = 19 then reply (pair 9 rows cols) s
         else s)"

definition handle_xtmodkeys :: "params \<Rightarrow> screen \<Rightarrow> screen" where
  "handle_xtmodkeys ps s =
     (if param ps 0 \<noteq> Some 4 then s
      else case param ps 1 of
        Some level \<Rightarrow> s\<lparr>kbd := set_modify_other_keys level (kbd s)\<rparr>
      | None \<Rightarrow> s\<lparr>kbd := reset_modify_other_keys (kbd s)\<rparr>)"

definition xtqmodkeys_report :: "params \<Rightarrow> screen \<Rightarrow> screen" where
  "xtqmodkeys_report ps s =
     (if param ps 0 \<noteq> Some 4 then s
      else reply (ESC # ''[>4;'' @ dec (modify_other_keys (kbd s)) @ ''m'') s)"

definition handle_kitty_kbd :: "params \<Rightarrow> bytes \<Rightarrow> screen \<Rightarrow> screen" where
  "handle_kitty_kbd ps ints s =
     (let buf = (if m_contains (modes s) M_ALT_SCREEN then Alt else Main)
      in if head_opt ints = Some CHR ''?'' then
           reply (ESC # ''[?'' @ dec (unat (kitty_flags buf (kbd s))) @ ''u'') s
         else if head_opt ints = Some CHR ''='' then
           s\<lparr>kbd := kitty_set buf (of_nat (param_or 0 ps 0)) (as_u8 (param_or 1 ps 1)) (kbd s)\<rparr>
         else if head_opt ints = Some CHR ''>'' then
           s\<lparr>kbd := kitty_push buf (of_nat (param_or 0 ps 0)) (kbd s)\<rparr>
         else if head_opt ints = Some CHR ''<'' then
           s\<lparr>kbd := kitty_pop buf (param_or 1 ps 0) (kbd s)\<rparr>
         else s)"

definition handle_decstr :: "screen \<Rightarrow> screen" where
  "handle_decstr s =
     (upd_cur (\<lambda>k. k\<lparr>attrs := 0, fg := DefaultColor, bg := DefaultColor,
        underline_color := DefaultColor, underline_style := UlNone, pending_wrap := False\<rparr>)
      (s\<lparr>kbd := kbd_reset (kbd s)\<rparr>))
     \<lparr>saved_cursor := None, charset_g0 := Ascii, charset_g1 := Ascii, gl := G0\<rparr>"

definition handle_decrqm :: "params \<Rightarrow> bool \<Rightarrow> screen \<Rightarrow> screen" where
  "handle_decrqm ps private s =
     (case param ps 0 of
        None \<Rightarrow> s
      | Some n \<Rightarrow>
          let pm = (if private then decrqm_state (modes s) n else 0)
          in reply (ESC # ''['' @ (if private then ''?'' else []) @ dec n @ '';'' @ dec pm @ ''$y'') s)"

definition csi_p :: "params \<Rightarrow> bytes \<Rightarrow> screen \<Rightarrow> screen" where
  "csi_p ps ints s =
     (if CHR ''$'' \<in> set ints then handle_decrqm ps (CHR ''?'' \<in> set ints) s
      else if head_opt ints = Some CHR ''!'' then handle_decstr s
      else s)"

section \<open>Modes and the alternate screen\<close>

definition enter_alt_screen :: "screen \<Rightarrow> screen" where
  "enter_alt_screen s =
     (if alt s \<noteq> None then s
      else s\<lparr>active := grid_new (s_rows s) (s_cols s), alt := Some (active s),
             saved_cursor := Some (cursor s), cursor := cursor_default,
             modes := m_insert M_ALT_SCREEN (modes s)\<rparr>)"

definition leave_alt_screen :: "screen \<Rightarrow> screen" where
  "leave_alt_screen s =
     (case alt s of
        None \<Rightarrow> s
      | Some g \<Rightarrow>
          let s = s\<lparr>active := g, alt := None\<rparr>;
              s = (case saved_cursor s of Some c \<Rightarrow> s\<lparr>cursor := c, saved_cursor := None\<rparr> | None \<Rightarrow> s)
          in s\<lparr>modes := m_remove M_ALT_SCREEN (modes s)\<rparr>)"

definition set_flag :: "modes \<Rightarrow> bool \<Rightarrow> screen \<Rightarrow> screen" where
  "set_flag flag on s = s\<lparr>modes := (if on then m_insert flag else m_remove flag) (modes s)\<rparr>"

definition private_mode_flag :: "nat \<Rightarrow> modes option" where
  "private_mode_flag code =
     (if code = 1 then Some M_APP_CURSOR_KEYS
      else if code = 7 then Some M_AUTOWRAP
      else if code = 25 then Some M_CURSOR_VISIBLE
      else if code = 2004 then Some M_BRACKETED_PASTE
      else if code = 9 then Some M_MOUSE_X10
      else if code = 1000 then Some M_MOUSE_BTN
      else if code = 1002 then Some M_MOUSE_BTN_EVENT
      else if code = 1003 then Some M_MOUSE_ANY
      else if code = 1004 then Some M_FOCUS_EVENTS
      else if code = 1006 then Some M_MOUSE_SGR
      else if code = 2031 then Some M_COLOR_SCHEME_UPDATES
      else None)"

definition set_dec_private_mode :: "nat \<Rightarrow> bool \<Rightarrow> screen \<Rightarrow> screen" where
  "set_dec_private_mode code on s =
     (if code = 6 then
        let s = set_flag M_ORIGIN on s
        in upd_cur (move_to (if on then fst (scroll_region s) else 0) 0 (s_rows s) (s_cols s)) s
      else if code = 1049 then (if on then enter_alt_screen s else leave_alt_screen s)
      else case private_mode_flag code of Some flag \<Rightarrow> set_flag flag on s | None \<Rightarrow> s)"

definition set_mode :: "params \<Rightarrow> bytes \<Rightarrow> bool \<Rightarrow> screen \<Rightarrow> screen" where
  "set_mode ps ints on s =
     foldl (\<lambda>s p. case p of
              [] \<Rightarrow> s
            | code # _ \<Rightarrow>
                if head_opt ints = Some CHR ''?'' then set_dec_private_mode code on s else s) s ps"

section \<open>SGR\<close>

definition parse_extended_color :: "nat list \<Rightarrow> color option \<times> nat" where
  "parse_extended_color rest =
     (case rest of
        [] \<Rightarrow> (None, 0)
      | sel # args \<Rightarrow>
          if sel = 5 \<and> length rest \<ge> 2 then (Some (Indexed (min (rest ! 1) 255)), 2)
          else if sel = 2 \<and> length rest \<ge> 4 then
            (Some (Rgb (min (rest ! 1) 255) (min (rest ! 2) 255) (min (rest ! 3) 255)), 4)
          else (None, 0))"

definition is_color_sel :: "nat \<Rightarrow> bool" where
  "is_color_sel n \<longleftrightarrow> n = 38 \<or> n = 48 \<or> n = 58"

text \<open>One colon group: the codes it contributes, and its direct effect on the cursor.\<close>

definition sgr_group :: "cursor \<times> nat list \<Rightarrow> nat list \<Rightarrow> cursor \<times> nat list" where
  "sgr_group = (\<lambda>(k, codes) g.
     case g of
       a # b # rest \<Rightarrow>
         if a = 4 then
           ((if b = 0 then k\<lparr>attrs := attrs k AND NOT A_UNDERLINE, underline_style := UlNone\<rparr>
             else k\<lparr>attrs := attrs k OR A_UNDERLINE, underline_style := from_sgr_subparam b\<rparr>), codes)
         else if is_color_sel a \<and> b = 2 then
           (k, codes @ [a, 2] @ (if length rest = 4 then drop 1 rest else rest))
         else if is_color_sel a \<and> b = 5 then (k, codes @ [a, 5] @ rest)
         else (k, codes @ g)
     | _ \<Rightarrow> (k, codes @ g))"

definition add_attr :: "attrs \<Rightarrow> cursor \<Rightarrow> cursor" where
  "add_attr a k = k\<lparr>attrs := attrs k OR a\<rparr>"

definition del_attr :: "attrs \<Rightarrow> cursor \<Rightarrow> cursor" where
  "del_attr a k = k\<lparr>attrs := attrs k AND NOT a\<rparr>"

definition sgr_reset :: "cursor \<Rightarrow> cursor" where
  "sgr_reset k = k\<lparr>attrs := 0, fg := DefaultColor, bg := DefaultColor,
     underline_color := DefaultColor, underline_style := UlNone\<rparr>"

text \<open>A code that takes no arguments.\<close>

definition sgr_code :: "nat \<Rightarrow> cursor \<Rightarrow> cursor" where
  "sgr_code n k =
     (if n = 0 then sgr_reset k
      else if n = 1 then add_attr A_BOLD k
      else if n = 2 then add_attr A_DIM k
      else if n = 3 then add_attr A_ITALIC k
      else if n = 4 then (add_attr A_UNDERLINE k)\<lparr>underline_style := UlSingle\<rparr>
      else if n = 5 then add_attr A_BLINK k
      else if n = 7 then add_attr A_REVERSE k
      else if n = 8 then add_attr A_HIDDEN k
      else if n = 9 then add_attr A_STRIKETHROUGH k
      else if n = 22 then del_attr A_DIM (del_attr A_BOLD k)
      else if n = 23 then del_attr A_ITALIC k
      else if n = 24 then (del_attr A_UNDERLINE k)\<lparr>underline_style := UlNone\<rparr>
      else if n = 25 then del_attr A_BLINK k
      else if n = 27 then del_attr A_REVERSE k
      else if n = 28 then del_attr A_HIDDEN k
      else if n = 29 then del_attr A_STRIKETHROUGH k
      else if 30 \<le> n \<and> n \<le> 37 then k\<lparr>fg := from_ansi_basic (as_u8 (n - 30))\<rparr>
      else if n = 39 then k\<lparr>fg := DefaultColor\<rparr>
      else if 40 \<le> n \<and> n \<le> 47 then k\<lparr>bg := from_ansi_basic (as_u8 (n - 40))\<rparr>
      else if n = 49 then k\<lparr>bg := DefaultColor\<rparr>
      else if n = 59 then k\<lparr>underline_color := DefaultColor\<rparr>
      else if 90 \<le> n \<and> n \<le> 97 then k\<lparr>fg := from_ansi_bright (as_u8 (n - 90))\<rparr>
      else if 100 \<le> n \<and> n \<le> 107 then k\<lparr>bg := from_ansi_bright (as_u8 (n - 100))\<rparr>
      else k)"

definition set_color :: "nat \<Rightarrow> color \<Rightarrow> cursor \<Rightarrow> cursor" where
  "set_color sel c k =
     (if sel = 38 then k\<lparr>fg := c\<rparr> else if sel = 48 then k\<lparr>bg := c\<rparr> else k\<lparr>underline_color := c\<rparr>)"

function sgr_loop :: "nat list \<Rightarrow> cursor \<Rightarrow> cursor" where
  "sgr_loop [] k = k"
| "sgr_loop (n # rest) k =
     (if is_color_sel n then
        let (c, consumed) = parse_extended_color rest
        in sgr_loop (drop consumed rest) (case c of Some c \<Rightarrow> set_color n c k | None \<Rightarrow> k)
      else sgr_loop rest (sgr_code n k))"
  by pat_completeness auto

termination
  by (relation "measure (\<lambda>(codes, _). length codes)") auto

definition handle_sgr :: "params \<Rightarrow> screen \<Rightarrow> screen" where
  "handle_sgr ps s =
     (let (k, codes) = foldl sgr_group (cursor s, []) ps in s\<lparr>cursor := sgr_loop codes k\<rparr>)"

definition csi_m :: "params \<Rightarrow> bytes \<Rightarrow> screen \<Rightarrow> screen" where
  "csi_m ps ints s =
     (if head_opt ints = Some CHR ''>'' then handle_xtmodkeys ps s
      else if head_opt ints = Some CHR ''?'' then xtqmodkeys_report ps s
      else handle_sgr ps s)"

section \<open>Dispatch on the final byte\<close>

definition handle_csi :: "(rstr \<Rightarrow> nat) \<Rightarrow> params \<Rightarrow> bytes \<Rightarrow> char \<Rightarrow> screen \<Rightarrow> screen" where
  "handle_csi wd ps ints f s =
     (let g = last_graphic s;
          s = s\<lparr>last_graphic := None\<rparr>
      in if f = CHR ''A'' then csi_cuu ps s
         else if f = CHR ''B'' then csi_cud ps s
         else if f = CHR ''C'' then csi_cuf ps s
         else if f = CHR ''D'' then csi_cub ps s
         else if f = CHR ''E'' then csi_cnl ps s
         else if f = CHR ''F'' then csi_cpl ps s
         else if f = CHR ''G'' then csi_cha ps s
         else if f = CHR ''H'' \<or> f = CHR ''f'' then csi_cup ps s
         else if f = CHR ''d'' then csi_vpa ps s
         else if f = CHR ''I'' then csi_cht ps s
         else if f = CHR ''Z'' then csi_cbt ps s
         else if f = CHR ''b'' then csi_rep wd g ps s
         else if f = CHR ''J'' then csi_ed wd ps s
         else if f = CHR ''K'' then csi_el wd ps s
         else if f = CHR ''m'' then csi_m ps ints s
         else if f = CHR ''h'' then set_mode ps ints True s
         else if f = CHR ''l'' then set_mode ps ints False s
         else if f = CHR ''r'' then csi_decstbm ps s
         else if f = CHR ''S'' then csi_su ps s
         else if f = CHR ''T'' then csi_sd ps s
         else if f = CHR ''@'' then csi_ich wd ps s
         else if f = CHR ''P'' then csi_dch wd ps s
         else if f = CHR ''X'' then csi_ech wd ps s
         else if f = CHR ''L'' then csi_il ps s
         else if f = CHR ''M'' then csi_dl ps s
         else if f = CHR ''g'' then csi_tbc ps s
         else if f = CHR ''n'' then csi_dsr ps ints s
         else if f = CHR ''c'' then csi_da ints s
         else if f = CHR ''q'' then csi_q ps ints s
         else if f = CHR ''t'' then csi_window_op ps s
         else if f = CHR ''p'' then csi_p ps ints s
         else if f = CHR ''u'' then handle_kitty_kbd ps ints s
         else s)"

end
