(* ===== verification/Screen_Graphics.thy ===== *)
theory Screen_Graphics
  imports Screen
begin

text \<open>
  Captured images: \<open>handle_sixel\<close>, \<open>handle_graphics\<close> and what they call, of
  \<open>crates/emulator/src/screen.rs\<close>.  Chunked transmissions accumulate in \<open>pending_tx\<close> and
  \<open>pending_frame\<close>; the base64 decoder is the parameter \<open>b64\<close>.
\<close>

definition max_placements :: nat where "max_placements = 1024"
definition max_virtual :: nat where "max_virtual = 1024"

definition drop_evicted :: "nat list \<Rightarrow> screen \<Rightarrow> screen" where
  "drop_evicted ev s =
     (if ev = [] then s
      else s\<lparr>placements := filter (\<lambda>p. pl_image p \<notin> set ev) (placements s),
             virtual_placements := filter (\<lambda>p. vp_image p \<notin> set ev) (virtual_placements s)\<rparr>)"

definition insert_image :: "image \<Rightarrow> screen \<Rightarrow> screen" where
  "insert_image im s =
     (let (ev, st) = store_insert im (images s) in drop_evicted ev (s\<lparr>images := st\<rparr>))"

definition next_image_id :: "screen \<Rightarrow> nat" where
  "next_image_id s = wadd32 (image_id_seq s) 1"

definition add_placement ::
  "nat \<Rightarrow> image_protocol \<Rightarrow> nat \<Rightarrow> nat \<Rightarrow> nat option \<Rightarrow> nat option \<Rightarrow> int \<Rightarrow> screen \<Rightarrow> screen" where
  "add_placement i protocol pixel_w pixel_h r c z s =
     (let (cell_w, cell_h) = cell_pixels s;
          rows = (case r of Some n \<Rightarrow> n | None \<Rightarrow> as_u16 (clamp 1 1000 (div_ceil pixel_h (max cell_h 1))));
          cols = (case c of Some n \<Rightarrow> n | None \<Rightarrow> as_u16 (clamp 1 1000 (div_ceil pixel_w (max cell_w 1))));
          anchor = wadd32 (as_u32 (sb_len (scrollback s))) (row (cursor s));
          pid = wadd32 (placement_id_seq s) 1;
          sq = graphics_seq s;
          s = s\<lparr>placement_id_seq := pid, graphics_seq := wadd64 sq 1,
                placements := push_capped max_placements \<lparr>pl_image = i, pl_id = pid, pl_protocol = protocol,
                  pl_anchor = anchor, pl_col = col (cursor s), pl_rows = rows, pl_cols = cols,
                  pl_z = z, pl_seq = sq\<rparr>
                  (placements s)\<rparr>
      in set_col 0 ((advance_to_next_row False ^^ rows) s))"

definition add_virtual_placement ::
  "nat \<Rightarrow> nat option \<Rightarrow> nat option \<Rightarrow> nat option \<Rightarrow> screen \<Rightarrow> screen" where
  "add_virtual_placement i pid r c s =
     (let pid = (case pid of Some p \<Rightarrow> p | None \<Rightarrow> 0);
          sq = graphics_seq s;
          vs = filter (\<lambda>p. \<not> (vp_image p = i \<and> vp_id p = pid)) (virtual_placements s)
      in s\<lparr>graphics_seq := wadd64 sq 1,
           virtual_placements := push_capped max_virtual \<lparr>vp_image = i, vp_id = pid,
             vp_rows = (case r of Some n \<Rightarrow> n | None \<Rightarrow> 0),
             vp_cols = (case c of Some n \<Rightarrow> n | None \<Rightarrow> 0), vp_seq = sq\<rparr> vs\<rparr>)"

definition sixel_inner :: "nat list list \<Rightarrow> bytes \<Rightarrow> bytes" where
  "sixel_inner params payload =
     join_with CHR '';'' (map (\<lambda>g. case g of [] \<Rightarrow> [] | v # _ \<Rightarrow> dec v) params) @ CHR ''q'' # payload"

definition handle_sixel :: "nat list list \<Rightarrow> bytes \<Rightarrow> screen \<Rightarrow> screen" where
  "handle_sixel params payload s =
     (if alt s \<noteq> None \<or> payload = [] then s
      else let (w, h) = (case sixel_dimensions payload of Some d \<Rightarrow> d | None \<Rightarrow> (0, 0));
               i = next_image_id s;
               gen = wadd64 (image_gen s) 1;
               s = s\<lparr>image_id_seq := i, image_gen := gen\<rparr>
           in add_placement i Sixel w h None None 0
                (insert_image \<lparr>im_id = i, im_protocol = Sixel, im_format = RgbaFmt, im_w = w, im_h = h,
                   im_data = sixel_inner params payload, im_iterm_args = None, im_generation = gen,
                   im_frames = [], im_anim = None\<rparr> s))"

section \<open>Transmissions\<close>

definition display_image ::
  "nat \<Rightarrow> pending_tx \<Rightarrow> nat \<Rightarrow> nat \<Rightarrow> screen \<Rightarrow> screen" where
  "display_image i tx w h s =
     (if \<not> tx_display tx then s
      else if tx_unicode tx then
        add_virtual_placement i (tx_placement_id tx) (tx_place_rows tx) (tx_place_cols tx) s
      else add_placement i Kitty w h (tx_place_rows tx) (tx_place_cols tx) (tx_z tx) s)"

definition finalize_transmission :: "(bytes \<Rightarrow> bytes option) \<Rightarrow> screen \<Rightarrow> screen" where
  "finalize_transmission b64 s =
     (case pending_tx s of
        None \<Rightarrow> s
      | Some tx \<Rightarrow>
          let s = s\<lparr>pending_tx := None\<rparr>;
              w0 = (case tx_width tx of Some n \<Rightarrow> n | None \<Rightarrow> 0);
              h0 = (case tx_height tx of Some n \<Rightarrow> n | None \<Rightarrow> 0);
              (w, h) = (if (w0 = 0 \<or> h0 = 0) \<and> tx_format tx = Png then
                  (case decode_png_dims b64 (tx_data tx) of Some d \<Rightarrow> d | None \<Rightarrow> (w0, h0))
                 else (w0, h0));
              gen = wadd64 (image_gen s) 1;
              s = s\<lparr>image_gen := gen\<rparr>
          in display_image (tx_id tx) tx w h
               (insert_image \<lparr>im_id = tx_id tx, im_protocol = Kitty, im_format = tx_format tx,
                  im_w = w, im_h = h, im_data = tx_data tx, im_iterm_args = None,
                  im_generation = gen, im_frames = [], im_anim = None\<rparr> s))"

definition no_metadata :: "graphics_command \<Rightarrow> bool" where
  "no_metadata cmd \<longleftrightarrow> gc_format cmd = None \<and> gc_id cmd = None \<and> gc_width cmd = None
     \<and> gc_height cmd = None \<and> gc_rows cmd = None \<and> gc_cols cmd = None"

definition command_format :: "graphics_command \<Rightarrow> image_format" where
  "command_format cmd = (case gc_format cmd of None \<Rightarrow> Png
     | Some f \<Rightarrow> (case from_kitty_f f of Some i \<Rightarrow> i | None \<Rightarrow> Png))"

definition start_transmission :: "graphics_command \<Rightarrow> screen \<Rightarrow> screen" where
  "start_transmission cmd s =
     (let (i, s) = (case gc_id cmd of Some i \<Rightarrow> (i, s)
                    | None \<Rightarrow> (next_image_id s, s\<lparr>image_id_seq := next_image_id s\<rparr>))
      in s\<lparr>pending_tx := Some \<lparr>tx_id = i, tx_format = command_format cmd, tx_width = gc_width cmd,
             tx_height = gc_height cmd, tx_data = gc_payload cmd,
             tx_display = (gc_action cmd = CHR ''T''), tx_place_rows = gc_rows cmd,
             tx_place_cols = gc_cols cmd, tx_unicode = gc_unicode cmd,
             tx_placement_id = gc_placement_id cmd,
             tx_z = (case gc_z cmd of Some z \<Rightarrow> z | None \<Rightarrow> 0)\<rparr>\<rparr>)"

definition accumulate_transmission ::
  "(bytes \<Rightarrow> bytes option) \<Rightarrow> graphics_command \<Rightarrow> screen \<Rightarrow> screen" where
  "accumulate_transmission b64 cmd s =
     (let finish = (\<lambda>s. if gc_more cmd then s else finalize_transmission b64 s)
      in case pending_tx s of
           Some tx \<Rightarrow>
             if gc_saw_m cmd \<and> no_metadata cmd
             then finish (s\<lparr>pending_tx := Some (tx\<lparr>tx_data := tx_data tx @ gc_payload cmd\<rparr>)\<rparr>)
             else finish (start_transmission cmd s)
         | None \<Rightarrow>
             if gc_saw_m cmd \<and> no_metadata cmd then s else finish (start_transmission cmd s))"

section \<open>Animation frames\<close>

definition finalize_frame :: "screen \<Rightarrow> screen" where
  "finalize_frame s =
     (case pending_frame s of
        None \<Rightarrow> s
      | Some pf \<Rightarrow>
          let s = s\<lparr>pending_frame := None\<rparr>;
              (ev, st) = push_frame (pf_image_id pf)
                \<lparr>fr_number = pf_number pf, fr_canvas = pf_canvas pf, fr_x = pf_x pf, fr_y = pf_y pf,
                 fr_width = pf_width pf, fr_height = pf_height pf, fr_overwrite = pf_overwrite pf,
                 fr_bg = pf_bg pf, fr_gap = pf_gap pf, fr_format = pf_format pf,
                 fr_data = pf_data pf, fr_seq = 0\<rparr> (images s)
          in drop_evicted ev (s\<lparr>images := st\<rparr>))"

definition bare_frame :: "graphics_command \<Rightarrow> bool" where
  "bare_frame cmd \<longleftrightarrow> gc_saw_m cmd \<and> gc_id cmd = None \<and> gc_rows cmd = None \<and> gc_cols cmd = None
     \<and> gc_frame_x cmd = None \<and> gc_frame_y cmd = None \<and> gc_width cmd = None \<and> gc_height cmd = None"

definition accumulate_frame :: "graphics_command \<Rightarrow> screen \<Rightarrow> screen" where
  "accumulate_frame cmd s =
     (let finish = (\<lambda>s. if gc_more cmd then s else finalize_frame s);
          start = (case gc_id cmd of
             None \<Rightarrow> s
           | Some i \<Rightarrow> finish (s\<lparr>pending_frame := Some \<lparr>pf_image_id = i, pf_number = gc_rows cmd,
               pf_canvas = gc_cols cmd, pf_x = (case gc_frame_x cmd of Some n \<Rightarrow> n | None \<Rightarrow> 0),
               pf_y = (case gc_frame_y cmd of Some n \<Rightarrow> n | None \<Rightarrow> 0),
               pf_width = (case gc_width cmd of Some n \<Rightarrow> n | None \<Rightarrow> 0),
               pf_height = (case gc_height cmd of Some n \<Rightarrow> n | None \<Rightarrow> 0),
               pf_overwrite = gc_overwrite cmd, pf_bg = (case gc_bg cmd of Some n \<Rightarrow> n | None \<Rightarrow> 0),
               pf_gap = (case gc_z cmd of Some z \<Rightarrow> z | None \<Rightarrow> 0), pf_format = command_format cmd,
               pf_data = gc_payload cmd\<rparr>\<rparr>))
      in case pending_frame s of
           Some pf \<Rightarrow>
             if bare_frame cmd
             then finish (s\<lparr>pending_frame := Some (pf\<lparr>pf_data := pf_data pf @ gc_payload cmd\<rparr>)\<rparr>)
             else start
         | None \<Rightarrow> start)"

section \<open>Dispatch of a captured command\<close>

definition bare_continuation :: "graphics_command \<Rightarrow> bool" where
  "bare_continuation cmd \<longleftrightarrow> gc_saw_m cmd \<and> gc_id cmd = None \<and> gc_format cmd = None
     \<and> gc_width cmd = None \<and> gc_height cmd = None \<and> gc_rows cmd = None \<and> gc_cols cmd = None
     \<and> gc_frame_x cmd = None \<and> gc_frame_y cmd = None"

definition delete_placements :: "graphics_command \<Rightarrow> screen \<Rightarrow> screen" where
  "delete_placements cmd s =
     (case gc_id cmd of
        Some i \<Rightarrow> s\<lparr>placements := filter (\<lambda>p. pl_image p \<noteq> i) (placements s),
                    virtual_placements := filter (\<lambda>p. vp_image p \<noteq> i) (virtual_placements s)\<rparr>
      | None \<Rightarrow> s\<lparr>placements := [], virtual_placements := []\<rparr>)"

definition place_image :: "graphics_command \<Rightarrow> screen \<Rightarrow> screen" where
  "place_image cmd s =
     (case gc_id cmd of
        None \<Rightarrow> s
      | Some i \<Rightarrow> (case store_get i (images s) of
          None \<Rightarrow> s
        | Some im \<Rightarrow>
            if gc_unicode cmd
            then add_virtual_placement i (gc_placement_id cmd) (gc_rows cmd) (gc_cols cmd) s
            else add_placement i (im_protocol im) (im_w im) (im_h im) (gc_rows cmd) (gc_cols cmd)
                   (case gc_z cmd of Some z \<Rightarrow> z | None \<Rightarrow> 0) s))"

definition control_animation :: "graphics_command \<Rightarrow> screen \<Rightarrow> screen" where
  "control_animation cmd s =
     (case gc_id cmd of
        None \<Rightarrow> s
      | Some i \<Rightarrow> s\<lparr>images := set_anim i
          \<lparr>an_state = (case gc_width cmd of Some v \<Rightarrow> if v \<le> 255 \<and> v \<noteq> 0 then Some v else None | None \<Rightarrow> None),
           an_loop_count = (case gc_height cmd of Some v \<Rightarrow> if v \<noteq> 0 then Some v else None | None \<Rightarrow> None),
           an_current_frame = gc_cols cmd\<rparr> (images s)\<rparr>)"

definition dispatch_action ::
  "(bytes \<Rightarrow> bytes option) \<Rightarrow> graphics_command \<Rightarrow> screen \<Rightarrow> screen" where
  "dispatch_action b64 cmd s =
     (let a = gc_action cmd
      in if a = CHR ''d'' then delete_placements cmd s
         else if a = CHR ''p'' then place_image cmd s
         else if a = CHR ''t'' \<or> a = CHR ''T'' then accumulate_transmission b64 cmd s
         else if a = CHR ''f'' then accumulate_frame cmd s
         else if a = CHR ''a'' then control_animation cmd s
         else s)"

definition handle_graphics :: "(bytes \<Rightarrow> bytes option) \<Rightarrow> bytes \<Rightarrow> screen \<Rightarrow> screen" where
  "handle_graphics b64 framed s =
     (if alt s \<noteq> None then s
      else case parse_command framed of
        None \<Rightarrow> s
      | Some cmd \<Rightarrow>
          if bare_continuation cmd \<and> pending_frame s \<noteq> None \<and> pending_tx s = None
          then accumulate_frame cmd s
          else if bare_continuation cmd \<and> pending_tx s \<noteq> None \<and> pending_frame s = None
          then accumulate_transmission b64 cmd s
          else dispatch_action b64 cmd s)"

definition handle_iterm :: "(bytes \<Rightarrow> bytes option) \<Rightarrow> bytes list \<Rightarrow> screen \<Rightarrow> screen" where
  "handle_iterm b64 params s =
     (if alt s \<noteq> None then s
      else case parse_iterm_file (from_utf8_lossy (join_with CHR '';'' (drop 1 params))) of
        None \<Rightarrow> s
      | Some (args, data) \<Rightarrow>
          if lit ''inline=1'' \<notin> set (split_on (chr CHR '';'') args) then s
          else let (w, h) = (case iterm_dimensions b64 args data of Some d \<Rightarrow> d | None \<Rightarrow> (0, 0));
                   i = next_image_id s;
                   gen = wadd64 (image_gen s) 1;
                   s = s\<lparr>image_id_seq := i, image_gen := gen\<rparr>
               in add_placement i Iterm2 w h None None 0
                    (insert_image \<lparr>im_id = i, im_protocol = Iterm2, im_format = Png, im_w = w,
                       im_h = h, im_data = utf8_encode data, im_iterm_args = Some args,
                       im_generation = gen, im_frames = [], im_anim = None\<rparr> s))"

end
