(* ===== verification/Screen_Osc.thy ===== *)
theory Screen_Osc
  imports Screen_Csi Screen_Graphics
begin

text \<open>
  OSC and DCS strings, and the dispatch of the parser into the screen (\<open>impl ScreenOps for
  Screen\<close>), of \<open>crates/emulator/src/screen.rs\<close>.  The clock read of \<open>OSC 133;C\<close> and \<open>;D\<close> is
  the parameter \<open>now\<close>, in milliseconds.
\<close>

definition max_notifications :: nat where "max_notifications = 64"

definition push_notification :: "notification \<Rightarrow> screen \<Rightarrow> screen" where
  "push_notification n s =
     s\<lparr>pending_notifications := push_capped max_notifications n (pending_notifications s)\<rparr>"

definition lossy_or_empty :: "bytes option \<Rightarrow> rstr" where
  "lossy_or_empty b = (case b of Some b \<Rightarrow> from_utf8_lossy b | None \<Rightarrow> [])"

definition osc_hyperlink :: "bytes list \<Rightarrow> screen \<Rightarrow> screen" where
  "osc_hyperlink ps s =
     (let url = lossy_or_empty (nth_opt ps 2)
      in if url = [] then upd_cur (\<lambda>k. k\<lparr>hyperlink_id := None\<rparr>) s
         else let (i, t) = intern url (hyperlinks s)
              in upd_cur (\<lambda>k. k\<lparr>hyperlink_id := i\<rparr>) (s\<lparr>hyperlinks := t\<rparr>))"

definition handle_osc_color_query :: "bytes list \<Rightarrow> color_query \<Rightarrow> screen \<Rightarrow> screen" where
  "handle_osc_color_query ps q s =
     (case nth_opt ps 1 of
        None \<Rightarrow> s
      | Some payload \<Rightarrow>
          if payload = ''?'' then s\<lparr>color_queries := color_queries s @ [(length (replies s), q)]\<rparr> else s)"

definition mark_cursor_row :: "(row_mark \<Rightarrow> row_mark) \<Rightarrow> screen \<Rightarrow> screen" where
  "mark_cursor_row f s =
     s\<lparr>active := map_row (row (cursor s)) (\<lambda>r. r\<lparr>mark := f (mark r)\<rparr>) (active s)\<rparr>"

definition osc_133_exit :: "bytes list \<Rightarrow> int option" where
  "osc_133_exit ps = (case nth_opt ps 2 of None \<Rightarrow> None
     | Some p \<Rightarrow> (case from_utf8 p of Some _ \<Rightarrow> parse_i32 p | None \<Rightarrow> None))"

definition handle_osc_133 :: "nat \<Rightarrow> bytes list \<Rightarrow> screen \<Rightarrow> screen" where
  "handle_osc_133 now ps s =
     (if alt s \<noteq> None then s
      else case nth_opt ps 1 of
        None \<Rightarrow> s
      | Some [] \<Rightarrow> s
      | Some (sub # _) \<Rightarrow>
          if sub = CHR ''A'' then
            mark_cursor_row (mark_set RM_PROMPT_START) (s\<lparr>pending_command_start := None\<rparr>)
          else if sub = CHR ''C'' then
            mark_cursor_row (mark_set RM_OUTPUT_START) (s\<lparr>pending_command_start := Some now\<rparr>)
          else if sub = CHR ''D'' then
            let ex = osc_133_exit ps;
                dur = map_option (\<lambda>start. min (now - start) u32_max) (pending_command_start s);
                s = mark_cursor_row (\<lambda>m. set_duration dur (set_exit ex (mark_set RM_BLOCK_END m)))
                      (s\<lparr>pending_command_start := None\<rparr>)
            in s\<lparr>blocks_completed := wadd64 (blocks_completed s) 1, last_block_exit := ex,
                 last_block_duration := dur\<rparr>
          else if sub = CHR ''B'' then mark_cursor_row (set_prompt_end (col (cursor s))) s
          else s)"

definition osc52_max_bytes :: nat where "osc52_max_bytes = 4 * 1024 * 1024"

definition handle_osc_52 :: "(bytes \<Rightarrow> bytes option) \<Rightarrow> bytes list \<Rightarrow> screen \<Rightarrow> screen" where
  "handle_osc_52 b64 ps s =
     (case nth_opt ps 2 of
        None \<Rightarrow> s
      | Some payload \<Rightarrow>
          if payload = ''?'' then s
          else let sel = (case nth_opt ps 1 of Some (c # _) \<Rightarrow> c | _ \<Rightarrow> CHR ''c'')
            in if sel \<noteq> CHR ''c'' \<and> sel \<noteq> CHR ''s'' then s
               else if length payload > osc52_max_bytes * 4 div 3 + 4 then s
               else case b64 payload of
                 None \<Rightarrow> s
               | Some decoded \<Rightarrow>
                   if length decoded > osc52_max_bytes then s
                   else s\<lparr>clipboard_writes := clipboard_writes s @ [decoded]\<rparr>)"

definition osc_notify :: "bytes list \<Rightarrow> screen \<Rightarrow> screen" where
  "osc_notify ps s =
     (case nth_opt ps 1 of
        Some text \<Rightarrow>
          if text \<noteq> ''4'' then push_notification \<lparr>nt_title = [], nt_body = from_utf8_lossy text\<rparr> s else s
      | None \<Rightarrow> s)"

definition handle_osc ::
  "(bytes \<Rightarrow> bytes option) \<Rightarrow> nat \<Rightarrow> bytes list \<Rightarrow> screen \<Rightarrow> screen" where
  "handle_osc b64 now ps s =
     (case ps of
        [] \<Rightarrow> s
      | cmd0 # _ \<Rightarrow>
          let cmd = str_or_empty cmd0
          in if cmd = ''0'' \<or> cmd = ''2'' then
               (case nth_opt ps 1 of Some a \<Rightarrow> s\<lparr>title := from_utf8_lossy a\<rparr> | None \<Rightarrow> s)
             else if cmd = ''1'' then
               (case nth_opt ps 1 of Some a \<Rightarrow> s\<lparr>icon_title := from_utf8_lossy a\<rparr> | None \<Rightarrow> s)
             else if cmd = ''7'' then
               (case nth_opt ps 1 of Some a \<Rightarrow> s\<lparr>cwd := Some (from_utf8_lossy a)\<rparr> | None \<Rightarrow> s)
             else if cmd = ''8'' then osc_hyperlink ps s
             else if cmd = ''9'' then osc_notify ps s
             else if cmd = ''777'' then
               (if nth_opt ps 1 = Some ''notify''
                then push_notification \<lparr>nt_title = lossy_or_empty (nth_opt ps 2),
                       nt_body = lossy_or_empty (nth_opt ps 3)\<rparr> s
                else s)
             else if cmd = ''10'' then handle_osc_color_query ps QForeground s
             else if cmd = ''11'' then handle_osc_color_query ps QBackground s
             else if cmd = ''12'' then handle_osc_color_query ps QCursor s
             else if cmd = ''133'' then handle_osc_133 now ps s
             else if cmd = ''52'' then handle_osc_52 b64 ps s
             else if cmd = ''1337'' then handle_iterm b64 ps s
             else s)"

section \<open>DCS\<close>

definition cap_reply :: "bytes \<Rightarrow> bytes \<Rightarrow> bytes" where
  "cap_reply name trm =
     (case lookup name trm of
        CapBoolean \<Rightarrow> ESC # ''P1+r'' @ hex_encode name @ [ESC, CHR 0x5C]
      | CapNum n \<Rightarrow> ESC # ''P1+r'' @ hex_encode name @ ''='' @ hex_encode (dec n) @ [ESC, CHR 0x5C]
      | CapStr v \<Rightarrow> ESC # ''P1+r'' @ hex_encode name @ ''='' @ hex_encode v @ [ESC, CHR 0x5C]
      | CapUnsupported \<Rightarrow> ESC # ''P0+r'' @ hex_encode name @ [ESC, CHR 0x5C])"

definition xtgettcap_one :: "screen \<Rightarrow> bytes \<Rightarrow> screen" where
  "xtgettcap_one s hexname =
     (if hexname = [] then s
      else case hex_decode hexname of
        None \<Rightarrow> s
      | Some name \<Rightarrow> (case from_utf8 name of
          None \<Rightarrow> s
        | Some _ \<Rightarrow> reply (cap_reply name (term_name s)) s))"

definition xtgettcap :: "bytes \<Rightarrow> screen \<Rightarrow> screen" where
  "xtgettcap payload s =
     (case from_utf8 payload of
        None \<Rightarrow> s
      | Some _ \<Rightarrow> foldl xtgettcap_one s (split_on CHR '';'' payload))"

definition handle_dcs :: "bytes \<Rightarrow> char \<Rightarrow> nat list list \<Rightarrow> bytes \<Rightarrow> screen \<Rightarrow> screen" where
  "handle_dcs ints f params payload s =
     (if head_opt ints = Some CHR ''+'' \<and> f = CHR ''q'' then xtgettcap payload s
      else if f = CHR ''q'' \<and> ints = [] then handle_sixel params payload s
      else s)"

section \<open>Events\<close>

text \<open>
  The calls of the trait \<open>ScreenOps\<close>, by which the parser drives the screen, and the other public
  mutators of \<open>Screen\<close>.  \<open>screen_step\<close> is the transition of the terminal.
\<close>

datatype event =
    Print rstr
  | Execute nat
  | Csi params bytes char
  | Osc nat "bytes list"
  | Esc "nat list" nat
  | Dcs bytes char "nat list list" bytes
  | Apc bytes

definition screen_step ::
  "(rstr \<Rightarrow> nat) \<Rightarrow> (bytes \<Rightarrow> bytes option) \<Rightarrow> screen \<Rightarrow> event \<Rightarrow> screen" where
  "screen_step wd b64 s e =
     (case e of
        Print g \<Rightarrow> put_grapheme wd g s
      | Execute b \<Rightarrow> execute_c0 b s
      | Csi ps ints f \<Rightarrow> handle_csi wd ps ints f s
      | Osc now ps \<Rightarrow> handle_osc b64 now ps s
      | Esc ints b \<Rightarrow> handle_esc ints b s
      | Dcs ints f params payload \<Rightarrow> handle_dcs ints f params payload s
      | Apc framed \<Rightarrow> handle_graphics b64 framed s)"

definition run :: "(rstr \<Rightarrow> nat) \<Rightarrow> (bytes \<Rightarrow> bytes option) \<Rightarrow> screen \<Rightarrow> event list \<Rightarrow> screen" where
  "run wd b64 s es = foldl (screen_step wd b64) s es"

end
