(* ===== verification/Screen_Inv.thy ===== *)
theory Screen_Inv
  imports Screen_Osc
begin

text \<open>
  The invariant of the screen.  \<open>screen_wf\<close> says that both grids are rectangular and of one size,
  that the cursor and the saved cursor are inside, that the scroll region is an interval of rows
  and that every bounded resource is within its bound; each operation that the parser can trigger
  keeps it, so it holds in every reachable state.
\<close>

section \<open>The invariant\<close>

definition cur_ok :: "screen \<Rightarrow> cursor \<Rightarrow> bool" where
  "cur_ok s k \<longleftrightarrow> in_bounds (length (g_rows (active s))) (g_cols (active s)) k"

definition same_dims :: "grid \<Rightarrow> grid \<Rightarrow> bool" where
  "same_dims g h \<longleftrightarrow> length (g_rows g) = length (g_rows h) \<and> g_cols g = g_cols h"

definition screen_wf :: "screen \<Rightarrow> bool" where
  "screen_wf s \<longleftrightarrow>
     grid_wf (active s)
     \<and> (\<forall>g. alt s = Some g \<longrightarrow> grid_wf g \<and> same_dims g (active s))
     \<and> cur_ok s (cursor s)
     \<and> (\<forall>k. saved_cursor s = Some k \<longrightarrow> cur_ok s k)
     \<and> fst (scroll_region s) \<le> snd (scroll_region s)
     \<and> snd (scroll_region s) < length (g_rows (active s))
     \<and> length (tabs s) \<le> u16_max
     \<and> sb_ok (scrollback s) \<and> kbd_ok (kbd s) \<and> links_ok (hyperlinks s) \<and> store_ok (images s)
     \<and> length (placements s) \<le> max_placements
     \<and> length (virtual_placements s) \<le> max_virtual
     \<and> length (pending_notifications s) \<le> max_notifications
     \<and> (m_contains (modes s) M_ALT_SCREEN \<longleftrightarrow> alt s \<noteq> None)"

lemma wf_grid: "screen_wf s \<Longrightarrow> grid_wf (active s)"
  by (simp add: screen_wf_def)

lemma wf_rows: "screen_wf s \<Longrightarrow> s_rows s = length (g_rows (active s))"
  by (simp add: s_rows_def wf_grid num_rows_wf)

lemma s_cols_eq [simp]: "s_cols s = g_cols (active s)"
  by (simp add: s_cols_def num_cols_def)

lemma wf_pos:
  assumes "screen_wf s"
  shows "0 < length (g_rows (active s))" "0 < g_cols (active s)"
    "length (g_rows (active s)) \<le> u16_max" "g_cols (active s) \<le> u16_max"
  using wf_grid [OF assms] by (simp_all add: grid_wf_def)

lemma wf_cursor:
  "screen_wf s \<Longrightarrow> row (cursor s) < length (g_rows (active s))"
  "screen_wf s \<Longrightarrow> col (cursor s) < max (g_cols (active s)) 2"
  by (simp_all add: screen_wf_def cur_ok_def in_bounds_def)

lemma wf_in_bounds:
  "screen_wf s \<Longrightarrow> in_bounds (length (g_rows (active s))) (g_cols (active s)) (cursor s)"
  by (simp add: screen_wf_def cur_ok_def)

lemma wf_region:
  "screen_wf s \<Longrightarrow> fst (scroll_region s) \<le> snd (scroll_region s)"
  "screen_wf s \<Longrightarrow> snd (scroll_region s) < length (g_rows (active s))"
  by (simp_all add: screen_wf_def)

section \<open>Fields outside the invariant\<close>

lemma wf_other_fields [simp]:
  "screen_wf (s\<lparr>title := x1\<rparr>) = screen_wf s"
  "screen_wf (s\<lparr>icon_title := x1\<rparr>) = screen_wf s"
  "screen_wf (s\<lparr>cwd := x2\<rparr>) = screen_wf s"
  "screen_wf (s\<lparr>replies := x3\<rparr>) = screen_wf s"
  "screen_wf (s\<lparr>clipboard_writes := x3\<rparr>) = screen_wf s"
  "screen_wf (s\<lparr>color_queries := x4\<rparr>) = screen_wf s"
  "screen_wf (s\<lparr>bell_pending := x5\<rparr>) = screen_wf s"
  "screen_wf (s\<lparr>term_name := x6\<rparr>) = screen_wf s"
  "screen_wf (s\<lparr>color_scheme := x7\<rparr>) = screen_wf s"
  "screen_wf (s\<lparr>blocks_completed := x8\<rparr>) = screen_wf s"
  "screen_wf (s\<lparr>last_block_exit := x9\<rparr>) = screen_wf s"
  "screen_wf (s\<lparr>last_block_duration := x10\<rparr>) = screen_wf s"
  "screen_wf (s\<lparr>pending_command_start := x10\<rparr>) = screen_wf s"
  "screen_wf (s\<lparr>area_px_w := x8\<rparr>) = screen_wf s"
  "screen_wf (s\<lparr>area_px_h := x8\<rparr>) = screen_wf s"
  "screen_wf (s\<lparr>pending_tx := x11\<rparr>) = screen_wf s"
  "screen_wf (s\<lparr>pending_frame := x12\<rparr>) = screen_wf s"
  "screen_wf (s\<lparr>graphics_seq := x8\<rparr>) = screen_wf s"
  "screen_wf (s\<lparr>placement_id_seq := x8\<rparr>) = screen_wf s"
  "screen_wf (s\<lparr>image_id_seq := x8\<rparr>) = screen_wf s"
  "screen_wf (s\<lparr>image_gen := x8\<rparr>) = screen_wf s"
  "screen_wf (s\<lparr>last_graphic := x2\<rparr>) = screen_wf s"
  "screen_wf (s\<lparr>charset_g0 := x13\<rparr>) = screen_wf s"
  "screen_wf (s\<lparr>charset_g1 := x13\<rparr>) = screen_wf s"
  "screen_wf (s\<lparr>gl := x14\<rparr>) = screen_wf s"
  by (simp_all add: screen_wf_def cur_ok_def)

section \<open>Rules for the fields of the invariant\<close>

lemma wf_cursor_upd: "screen_wf s \<Longrightarrow> cur_ok s k \<Longrightarrow> screen_wf (s\<lparr>cursor := k\<rparr>)"
  by (simp add: screen_wf_def cur_ok_def)

lemma wf_upd_cur: "screen_wf s \<Longrightarrow> cur_ok s (f (cursor s)) \<Longrightarrow> screen_wf (upd_cur f s)"
  by (simp add: upd_cur_def wf_cursor_upd)

lemma wf_active:
  "screen_wf s \<Longrightarrow> grid_wf g \<Longrightarrow> length (g_rows g) = length (g_rows (active s)) \<Longrightarrow>
     g_cols g = g_cols (active s) \<Longrightarrow> screen_wf (s\<lparr>active := g\<rparr>)"
  by (simp add: screen_wf_def cur_ok_def same_dims_def)

lemma wf_set_wrap [inv_intros]: "screen_wf s \<Longrightarrow> screen_wf (set_wrap b s)"
  by (simp add: set_wrap_def wf_upd_cur screen_wf_def cur_ok_def in_bounds_def upd_cur_def)

lemma wf_set_col: "screen_wf s \<Longrightarrow> c < max (g_cols (active s)) 2 \<Longrightarrow> screen_wf (set_col c s)"
  unfolding set_col_def
  by (rule wf_upd_cur) (simp_all add: screen_wf_def cur_ok_def in_bounds_def)

lemma wf_set_row: "screen_wf s \<Longrightarrow> r < length (g_rows (active s)) \<Longrightarrow> screen_wf (set_row r s)"
  unfolding set_row_def
  by (rule wf_upd_cur) (simp_all add: screen_wf_def cur_ok_def in_bounds_def)

lemma wf_set_col_0 [inv_intros]: "screen_wf s \<Longrightarrow> screen_wf (set_col 0 s)"
  by (rule wf_set_col) simp_all

lemma wf_set_col_clamped: "screen_wf s \<Longrightarrow> screen_wf (set_col (min c (s_cols s - 1)) s)"
  using wf_pos [of s] by (intro wf_set_col) auto

text \<open>Position updates leave everything but the position alone.\<close>

lemma position_fields [simp]:
  "active (upd_cur f s) = active s" "active (set_col c s) = active s"
  "active (set_row c s) = active s" "active (set_wrap b s) = active s"
  "scroll_region (upd_cur f s) = scroll_region s" "scroll_region (set_col c s) = scroll_region s"
  "scroll_region (set_row c s) = scroll_region s" "scroll_region (set_wrap b s) = scroll_region s"
  "modes (upd_cur f s) = modes s" "modes (set_col c s) = modes s"
  "modes (set_row c s) = modes s" "modes (set_wrap b s) = modes s"
  "alt (upd_cur f s) = alt s" "alt (set_col c s) = alt s"
  "alt (set_row c s) = alt s" "alt (set_wrap b s) = alt s"
  "cursor (upd_cur f s) = f (cursor s)"
  "col (cursor (set_col c s)) = c" "row (cursor (set_col c s)) = row (cursor s)"
  "row (cursor (set_row r s)) = r" "col (cursor (set_row r s)) = col (cursor s)"
  "row (cursor (set_wrap b s)) = row (cursor s)" "col (cursor (set_wrap b s)) = col (cursor s)"
  "pending_wrap (cursor (set_wrap b s)) = b"
  "pending_wrap (cursor (set_col c s)) = pending_wrap (cursor s)"
  "pending_wrap (cursor (set_row c s)) = pending_wrap (cursor s)"
  by (simp_all add: upd_cur_def set_col_def set_row_def set_wrap_def)

section \<open>Scrollback and line feeds\<close>

lemma shift_placements_length: "length (shift_placements k ps) \<le> length ps"
  by (simp add: shift_placements_def List.map_filter_def)

lemma wf_push_scrollback [inv_intros]: "screen_wf s \<Longrightarrow> screen_wf (push_scrollback r s)"
  using order_trans [OF shift_placements_length, of "placements s" max_placements]
  by (auto simp: push_scrollback_def Let_def screen_wf_def cur_ok_def sb_push_ok
      split: prod.splits) (metis sb_push_ok snd_conv)+

lemma push_scrollback_fields [simp]:
  "active (push_scrollback r s) = active s" "cursor (push_scrollback r s) = cursor s"
  "alt (push_scrollback r s) = alt s" "scroll_region (push_scrollback r s) = scroll_region s"
  "modes (push_scrollback r s) = modes s"
  by (simp_all add: push_scrollback_def Let_def split: prod.splits)

lemma foldl_push_fields [simp]:
  "active (foldl (\<lambda>s r. push_scrollback r s) s rs) = active s"
  "cursor (foldl (\<lambda>s r. push_scrollback r s) s rs) = cursor s"
  "alt (foldl (\<lambda>s r. push_scrollback r s) s rs) = alt s"
  "scroll_region (foldl (\<lambda>s r. push_scrollback r s) s rs) = scroll_region s"
  "modes (foldl (\<lambda>s r. push_scrollback r s) s rs) = modes s"
  by (induction rs arbitrary: s) simp_all

lemma scroll_up_feed_fields [simp]:
  "active (scroll_up_feed tp bt n s)
     = fst (scroll_up (active s) tp bt n (if alt s = None \<and> tp = 0 then Some [] else None))"
  "cursor (scroll_up_feed tp bt n s) = cursor s"
  "alt (scroll_up_feed tp bt n s) = alt s"
  "scroll_region (scroll_up_feed tp bt n s) = scroll_region s"
  "modes (scroll_up_feed tp bt n s) = modes s"
  by (simp_all add: scroll_up_feed_def Let_def split: prod.splits option.splits)

lemma wf_scroll_up_feed [inv_intros]:
  assumes "screen_wf s"
  shows "screen_wf (scroll_up_feed tp bt n s)"
proof -
  let ?g = "fst (scroll_up (active s) tp bt n (if alt s = None \<and> tp = 0 then Some [] else None))"
  have "screen_wf (s\<lparr>active := ?g\<rparr>)"
    using assms by (intro wf_active) (auto intro: scroll_up_wf simp: dims_simps wf_grid)
  then have "screen_wf (foldl (\<lambda>s r. push_scrollback r s) (s\<lparr>active := ?g\<rparr>) rs)" for rs
    by (rule foldl_inv [where P = screen_wf]) (rule wf_push_scrollback)
  moreover have "screen_wf (s\<lparr>active := ?g\<rparr>)" by fact
  ultimately show ?thesis
    by (auto simp: scroll_up_feed_def Let_def split: prod.splits option.splits)
qed

lemma wf_map_row_active:
  assumes "screen_wf s" "\<And>r. length (cells (f r)) = length (cells r)"
  shows "screen_wf (s\<lparr>active := map_row i f (active s)\<rparr>)"
  using assms by (intro wf_active map_row_wf wf_grid) (simp_all add: dims_simps)

lemma wf_advance [inv_intros]:
  assumes wf: "screen_wf s"
  shows "screen_wf (advance_to_next_row soft s)"
proof -
  obtain tp bt where reg: "scroll_region s = (tp, bt)" by fastforce
  have bt: "tp \<le> bt" "bt < length (g_rows (active s))"
    using wf_region [OF wf] reg by simp_all
  define t where "t = (if row (cursor s) = bt then set_row bt (scroll_up_feed tp bt 1 s)
    else if row (cursor s) > bt then set_row (min (advance (row (cursor s)) 1) (s_rows s - 1)) s
    else set_row (advance (row (cursor s)) 1) s)"
  have le: "advance (row (cursor s)) 1 \<le> row (cursor s) + 1" by (rule advance_le)
  have "screen_wf t"
    unfolding t_def
    using wf bt wf_cursor(1) [OF wf] wf_pos [OF wf] le
    by (auto intro!: wf_set_row wf_scroll_up_feed simp: wf_rows wf_grid dims_simps)
  then have "screen_wf (t\<lparr>active := map_row i (\<lambda>g. g\<lparr>wrap_origin := w\<rparr>) (active t)\<rparr>)" for i w
    by (rule wf_map_row_active) simp
  moreover have "advance_to_next_row soft s =
      (if soft then t\<lparr>active := map_row (row (cursor t))
         (\<lambda>g. g\<lparr>wrap_origin := SoftFrom (row (cursor t))\<rparr>) (active t)\<rparr> else t)"
    unfolding advance_to_next_row_def reg Let_def t_def prod.case ..
  ultimately show ?thesis
    using \<open>screen_wf t\<close> by simp
qed

lemma advance_fields [simp]:
  "scroll_region (advance_to_next_row soft s) = scroll_region s"
  "alt (advance_to_next_row soft s) = alt s" "modes (advance_to_next_row soft s) = modes s"
  "col (cursor (advance_to_next_row soft s)) = col (cursor s)"
  by (simp_all add: advance_to_next_row_def Let_def split: prod.splits)

lemma advance_dims:
  assumes "screen_wf s"
  shows "length (g_rows (active (advance_to_next_row soft s))) = length (g_rows (active s))"
    "g_cols (active (advance_to_next_row soft s)) = g_cols (active s)"
  using assms
  by (simp_all add: advance_to_next_row_def Let_def dims_simps wf_grid split: prod.splits)

section \<open>Printing\<close>

lemma wf_put_cell: "screen_wf s \<Longrightarrow> screen_wf (s\<lparr>active := put_cell (active s) r c x\<rparr>)"
  by (intro wf_active put_cell_wf wf_grid) (simp_all add: dims_simps)

lemma wf_put_cell_at_cursor [inv_intros]: "screen_wf s \<Longrightarrow> screen_wf (put_cell_at_cursor x s)"
  unfolding put_cell_at_cursor_def by (rule wf_put_cell)

lemma put_cell_at_cursor_fields [simp]:
  "cursor (put_cell_at_cursor x s) = cursor s" "modes (put_cell_at_cursor x s) = modes s"
  "length (g_rows (active (put_cell_at_cursor x s))) = length (g_rows (active s))"
  "g_cols (active (put_cell_at_cursor x s)) = g_cols (active s)"
  by (simp_all add: put_cell_at_cursor_def dims_simps)

lemma wf_straddle [inv_intros]: "screen_wf s \<Longrightarrow> screen_wf (clear_wide_straddle wd a b s)"
  unfolding clear_wide_straddle_def Let_def
  by (intro wf_active) (auto intro!: put_cell_wf wf_grid simp: dims_simps)

lemma straddle_fields [simp]:
  "cursor (clear_wide_straddle wd a b s) = cursor s" "modes (clear_wide_straddle wd a b s) = modes s"
  "length (g_rows (active (clear_wide_straddle wd a b s))) = length (g_rows (active s))"
  "g_cols (active (clear_wide_straddle wd a b s)) = g_cols (active s)"
  by (simp_all add: clear_wide_straddle_def Let_def dims_simps)

lemma wf_attach [inv_intros]: "screen_wf s \<Longrightarrow> screen_wf (attach_zero_width g s)"
  by (simp add: attach_zero_width_def append_grapheme_def Let_def wf_put_cell split: option.splits)

lemma wf_resolve_wrap [inv_intros]: "screen_wf s \<Longrightarrow> screen_wf (resolve_wrap s)"
  unfolding resolve_wrap_def by (auto intro: inv_intros)

lemma wf_make_room [inv_intros]: "screen_wf s \<Longrightarrow> screen_wf (make_room_wide wd w s)"
  unfolding make_room_wide_def Let_def
  by (auto intro!: wf_set_wrap wf_set_col_0 wf_advance wf_put_cell_at_cursor wf_straddle wf_set_col)

text \<open>After making room a wide cluster has its two columns, unless the grid has a single one.\<close>

lemma make_room_col:
  assumes "screen_wf s" "2 \<le> w"
  shows "col (cursor (make_room_wide wd w s)) + 1 < max (g_cols (active s)) 2"
  using wf_pos(2) [OF assms(1)] assms(2)
  by (auto simp: make_room_wide_def Let_def)

lemma make_room_cols:
  assumes "screen_wf s"
  shows "g_cols (active (make_room_wide wd w s)) = g_cols (active s)"
  using assms by (auto simp: make_room_wide_def Let_def advance_dims inv_intros)

lemma resolve_wrap_cols: "screen_wf s \<Longrightarrow> g_cols (active (resolve_wrap s)) = g_cols (active s)"
  by (simp add: resolve_wrap_def advance_dims)

lemma wf_write_cluster:
  assumes "screen_wf s" "2 \<le> w \<Longrightarrow> col (cursor s) + 1 < max (g_cols (active s)) 2"
  shows "screen_wf (write_cluster wd w g s)"
proof -
  have "advance c 1 < m" if "c + 1 < m" for c m
    using advance_le [of c 1] that by linarith
  then show ?thesis
    using assms unfolding write_cluster_def Let_def
    by (auto intro!: wf_put_cell_at_cursor wf_straddle wf_set_col)
qed

lemma wf_step_right [inv_intros]: "screen_wf s \<Longrightarrow> screen_wf (step_right s)"
proof -
  assume wf: "screen_wf s"
  have "advance (col (cursor s)) 1 < max (g_cols (active s)) 2"
    if "\<not> g_cols (active s) \<le> Suc (col (cursor s))"
    using advance_le [of "col (cursor s)" 1] that by simp
  with wf show ?thesis
    unfolding step_right_def by (auto intro!: wf_set_wrap wf_set_col)
qed

lemma wf_put_grapheme [inv_intros]:
  assumes "screen_wf s"
  shows "screen_wf (put_grapheme wd g s)"
proof -
  let ?g = "mapped_cluster s g"
  let ?t = "resolve_wrap (s\<lparr>last_graphic := Some ?g\<rparr>)"
  have t: "screen_wf ?t" using assms by (intro wf_resolve_wrap) simp
  have "screen_wf (write_cluster wd w ?g (make_room_wide wd w ?t))" for w
    by (rule wf_write_cluster)
      (use t in \<open>simp_all only: wf_make_room make_room_cols make_room_col\<close>)
  with assms show ?thesis
    by (simp add: put_grapheme_def Let_def wf_attach wf_step_right)
qed

section \<open>C0 controls and ESC sequences\<close>

lemma retreat_le [simp]: "retreat v n \<le> v"
  by (simp add: retreat_def)

lemma wf_execute_c0 [inv_intros]:
  assumes "screen_wf s"
  shows "screen_wf (execute_c0 b s)"
proof -
  have bs: "screen_wf (set_col (retreat (col (cursor s)) 1) (s\<lparr>last_graphic := None\<rparr>))"
    using assms wf_cursor(2) [OF assms] by (intro wf_set_col) (auto simp: retreat_def)
  have ht: "screen_wf (set_col (min c (g_cols (active s) - Suc 0)) (s\<lparr>last_graphic := None\<rparr>))" for c
    using assms wf_set_col_clamped [of "s\<lparr>last_graphic := None\<rparr>" c] by simp
  show ?thesis
    using assms bs ht by (simp add: execute_c0_def Let_def inv_intros)
qed

lemma foldl_put_cell_dims:
  "length (g_rows (foldl (\<lambda>g c. put_cell g r c x) g cs)) = length (g_rows g)"
  "g_cols (foldl (\<lambda>g c. put_cell g r c x) g cs) = g_cols g"
  "grid_wf g \<Longrightarrow> grid_wf (foldl (\<lambda>g c. put_cell g r c x) g cs)"
  by (induction cs arbitrary: g) (simp_all add: dims_simps put_cell_wf)

lemma fill_dims:
  "length (g_rows (foldl (\<lambda>g r. foldl (\<lambda>g c. put_cell g r c x) g cs) g rs)) = length (g_rows g)"
  "g_cols (foldl (\<lambda>g r. foldl (\<lambda>g c. put_cell g r c x) g cs) g rs) = g_cols g"
  "grid_wf g \<Longrightarrow> grid_wf (foldl (\<lambda>g r. foldl (\<lambda>g c. put_cell g r c x) g cs) g rs)"
  by (induction rs arbitrary: g) (simp_all add: foldl_put_cell_dims)

lemma wf_decaln [inv_intros]:
  assumes "screen_wf s"
  shows "screen_wf (decaln s)"
proof -
  have cur: "cur_ok (s\<lparr>active := g\<rparr>) (move_to 0 0 (s_rows s) (g_cols (active s)) k)"
    if "length (g_rows g) = length (g_rows (active s))" "g_cols g = g_cols (active s)" for g k
    using that wf_pos [OF assms] by (simp add: cur_ok_def wf_rows [OF assms] in_bounds_moves)
  show ?thesis
    using assms unfolding decaln_def Let_def wf_other_fields
    by (intro wf_upd_cur wf_active fill_dims) (auto simp: fill_dims wf_grid cur)
qed

lemma wf_move_to:
  assumes "screen_wf s"
  shows "screen_wf (upd_cur (move_to r c (s_rows s) (g_cols (active s))) s)"
  using wf_pos [OF assms]
  by (intro wf_upd_cur assms) (simp add: cur_ok_def wf_rows [OF assms] in_bounds_moves)

lemma screen_new_wf:
  assumes "rows \<le> u16_max" "cols \<le> u16_max"
  shows "screen_wf (screen_new rows cols)"
proof -
  have alt: "\<not> m_contains modes_default M_ALT_SCREEN"
    by (simp add: m_contains_def modes_default_def mode_bits)
  have "length (tabs_new cols) \<le> u16_max" using assms by (simp add: dims_simps)
  with alt show ?thesis
    using assms
    by (auto simp: screen_wf_def screen_new_def grid_new_wf cur_ok_def in_bounds_default dims_simps)
qed

lemma wf_full_reset [inv_intros]: "screen_wf s \<Longrightarrow> screen_wf (full_reset s)"
  using wf_pos [of s] by (simp add: full_reset_def screen_new_wf wf_rows)

lemma wf_scroll_down: "screen_wf s \<Longrightarrow> screen_wf (s\<lparr>active := scroll_down (active s) a b n\<rparr>)"
  by (intro wf_active scroll_down_wf) (simp_all add: dims_simps wf_grid)

lemma wf_reverse_index [inv_intros]:
  assumes "screen_wf s" shows "screen_wf (reverse_index s)"
proof -
  have "cur_ok s (cur_up 1 (cursor s))"
    using assms wf_pos [OF assms] by (simp add: screen_wf_def cur_ok_def in_bounds_moves)
  with assms show ?thesis
    by (simp add: reverse_index_def wf_scroll_down wf_upd_cur split: prod.splits)
qed

lemma wf_tabs_set: "screen_wf s \<Longrightarrow> length t = length (tabs s) \<Longrightarrow> screen_wf (s\<lparr>tabs := t\<rparr>)"
  by (simp add: screen_wf_def cur_ok_def)

lemma wf_restore:
  assumes "screen_wf s" "saved_cursor s = Some k"
  shows "screen_wf (s\<lparr>cursor := k\<rparr>)"
  using assms by (intro wf_cursor_upd) (simp_all add: screen_wf_def)

lemma wf_save: "screen_wf s \<Longrightarrow> screen_wf (s\<lparr>saved_cursor := Some (cursor s)\<rparr>)"
  by (simp add: screen_wf_def cur_ok_def)

lemma wf_handle_esc [inv_intros]:
  assumes "screen_wf s"
  shows "screen_wf (handle_esc ints b s)"
proof -
  let ?t = "s\<lparr>last_graphic := None\<rparr>"
  have t: "screen_wf ?t" using assms by simp
  have "screen_wf (?t\<lparr>saved_cursor := Some (cursor s)\<rparr>)" using wf_save [OF t] by simp
  moreover have "screen_wf (?t\<lparr>cursor := k\<rparr>)" if "saved_cursor s = Some k" for k
    using wf_restore [OF t] that by simp
  moreover have "screen_wf (?t\<lparr>tabs := tabs_set (tabs s) (col (cursor s))\<rparr>)"
    using t by (intro wf_tabs_set) (simp_all add: dims_simps)
  moreover have "screen_wf (designate slot b s)" for slot
    using assms by (simp add: designate_def Let_def split: option.splits)
  ultimately show ?thesis
    using assms t
    by (simp add: handle_esc_def Let_def inv_intros split: option.splits)
qed

section \<open>CSI sequences\<close>

lemma wf_row_up: "screen_wf s \<Longrightarrow> screen_wf (set_row (row_up n s) s)"
  using wf_cursor(1) [of s] by (intro wf_set_row) (auto simp: row_up_def Let_def retreat_def)

lemma wf_row_down:
  assumes "screen_wf s" shows "screen_wf (set_row (row_down n s) s)"
  using wf_region(2) [OF assms] wf_pos(1) [OF assms]
  by (intro wf_set_row assms) (auto simp: row_down_def Let_def wf_rows [OF assms])

lemma wf_absolute_row:
  assumes "screen_wf s" shows "screen_wf (set_row (absolute_row a s) s)"
  using wf_region(2) [OF assms] wf_pos(1) [OF assms]
  by (intro wf_set_row assms) (auto simp: absolute_row_def Let_def wf_rows [OF assms] split: prod.splits)

lemma wf_set_col_min:
  "screen_wf s \<Longrightarrow> m = g_cols (active s) \<Longrightarrow> screen_wf (set_col (min c (m - Suc 0)) s)"
  using wf_set_col_clamped [of s c] by simp

lemma cht_loop_le: "c \<le> max m lst \<Longrightarrow> cht_loop t lst n c \<le> max m lst"
  by (induction t lst n c rule: cht_loop.induct) (auto split: option.splits)

lemma cbt_loop_le: "length t \<le> u16_max \<Longrightarrow> cbt_loop t n c \<le> c"
  by (induction t n c rule: cbt_loop.induct) (auto split: option.splits dest!: tabs_prev_less)

lemma wf_tabs_length: "screen_wf s \<Longrightarrow> length (tabs s) \<le> u16_max"
  by (simp add: screen_wf_def)

lemma wf_motions [inv_intros]:
  assumes "screen_wf s"
  shows "screen_wf (csi_cuu ps s)" "screen_wf (csi_cud ps s)" "screen_wf (csi_cnl ps s)"
    "screen_wf (csi_cpl ps s)" "screen_wf (csi_cha ps s)" "screen_wf (csi_cup ps s)"
    "screen_wf (csi_vpa ps s)"
  using assms
  by (simp_all add: csi_cuu_def csi_cud_def csi_cnl_def csi_cpl_def csi_cha_def csi_cup_def
      csi_vpa_def wf_row_up wf_row_down wf_absolute_row wf_set_col_min inv_intros)

lemma wf_cuf_cub [inv_intros]:
  assumes "screen_wf s"
  shows "screen_wf (csi_cuf ps s)" "screen_wf (csi_cub ps s)"
  using assms wf_pos [OF assms] wf_in_bounds [OF assms] unfolding csi_cuf_def csi_cub_def s_cols_eq
  by (auto intro!: wf_upd_cur simp: cur_ok_def in_bounds_moves)

lemma wf_tabulation [inv_intros]:
  assumes wf: "screen_wf s"
  shows "screen_wf (csi_cht ps s)" "screen_wf (csi_cbt ps s)"
proof -
  have c: "col (cursor s) < max (g_cols (active s)) 2" using wf by (rule wf_cursor)
  then have le: "cht_loop t (g_cols (active s) - Suc 0) n (col (cursor s))
      \<le> max 1 (g_cols (active s) - Suc 0)" for t n
    by (intro cht_loop_le) auto
  have "max 1 (g_cols (active s) - Suc 0) < max (g_cols (active s)) 2"
    using wf_pos(2) [OF wf] by linarith
  then have "cht_loop t (g_cols (active s) - Suc 0) n (col (cursor s)) < max (g_cols (active s)) 2" for t n
    using le [of t n] by (rule order_le_less_trans [rotated])
  then show "screen_wf (csi_cht ps s)"
    using wf by (simp add: csi_cht_def wf_set_wrap wf_set_col)
  have "cbt_loop (tabs s) n (col (cursor s)) < max (g_cols (active s)) 2" for n
    using cbt_loop_le [OF wf_tabs_length [OF wf]] c by (rule order_le_less_trans)
  then show "screen_wf (csi_cbt ps s)"
    using wf by (simp add: csi_cbt_def wf_set_wrap wf_set_col)
qed

lemma wf_rep [inv_intros]: "screen_wf s \<Longrightarrow> screen_wf (csi_rep wd g ps s)"
  by (auto simp: csi_rep_def split: option.splits intro!: funpow_inv [where P = screen_wf] wf_put_grapheme)

lemma wf_erase [inv_intros]: "screen_wf s \<Longrightarrow> screen_wf (erase wd a b c d s)"
  unfolding erase_def by (intro wf_active clear_rect_wf wf_grid) (simp_all add: dims_simps)

lemma wf_clear: "screen_wf s \<Longrightarrow> screen_wf (s\<lparr>active := grid_clear (active s)\<rparr>)"
  by (intro wf_active grid_clear_wf wf_grid) (simp_all add: dims_simps)

lemma wf_erase_scrollback [inv_intros]:
  assumes "screen_wf s" shows "screen_wf (erase_scrollback s)"
proof -
  have "screen_wf (s\<lparr>active := grid_clear (active s), scrollback := (scrollback s)\<lparr>sb_rows := []\<rparr>\<rparr>)"
    using wf_clear [OF assms] by (simp add: screen_wf_def cur_ok_def sb_ok_def)
  moreover from this have "screen_wf (s\<lparr>active := grid_clear (active s),
      scrollback := (scrollback s)\<lparr>sb_rows := []\<rparr>, placements := shift_placements k (placements s)\<rparr>)" for k
    using order_trans [OF shift_placements_length, of "placements s" max_placements k]
    by (simp add: screen_wf_def cur_ok_def)
  ultimately show ?thesis
    by (simp add: erase_scrollback_def Let_def)
qed

lemma wf_erasures [inv_intros]:
  assumes "screen_wf s"
  shows "screen_wf (csi_ed wd ps s)" "screen_wf (csi_el wd ps s)" "screen_wf (csi_ech wd ps s)"
  using assms
  by (simp_all add: csi_ed_def csi_el_def csi_ech_def Let_def wf_clear inv_intros)

lemma wf_ich_dch [inv_intros]:
  assumes "screen_wf s"
  shows "screen_wf (csi_ich wd ps s)" "screen_wf (csi_dch wd ps s)"
  using assms unfolding csi_ich_def csi_dch_def
  by (auto intro!: wf_set_wrap wf_active insert_cells_wf delete_cells_wf wf_grid simp: dims_simps)

lemma wf_scrolls [inv_intros]:
  assumes "screen_wf s"
  shows "screen_wf (csi_su ps s)" "screen_wf (csi_sd ps s)" "screen_wf (csi_il ps s)" "screen_wf (csi_dl ps s)"
proof -
  have "screen_wf (s\<lparr>active := fst (scroll_up (active s) a b n None)\<rparr>)" for a b n
    using assms by (intro wf_active scroll_up_wf) (simp_all add: dims_simps wf_grid)
  then show "screen_wf (csi_su ps s)" "screen_wf (csi_sd ps s)" "screen_wf (csi_il ps s)" "screen_wf (csi_dl ps s)"
    using assms
    by (auto simp: csi_su_def csi_sd_def csi_il_def csi_dl_def split: prod.splits
        intro!: wf_set_wrap wf_set_col_0 wf_scroll_up_feed wf_scroll_down)
qed

lemma wf_decstbm [inv_intros]:
  assumes "screen_wf s" shows "screen_wf (csi_decstbm ps s)"
proof -
  have "screen_wf (s\<lparr>scroll_region := (a, b)\<rparr>)" if "a \<le> b" "b < length (g_rows (active s))" for a b
    using assms that by (simp add: screen_wf_def cur_ok_def)
  moreover have "min x (s_rows s - Suc 0) < length (g_rows (active s))" for x
    using wf_pos(1) [OF assms] wf_rows [OF assms] by linarith
  ultimately have reg: "screen_wf (s\<lparr>scroll_region := (if a < min b (s_rows s - 1)
       then (a, min b (s_rows s - 1)) else (0, s_rows s - 1))\<rparr>)" for a b
    using wf_pos(1) [OF assms] wf_rows [OF assms] by simp
  have home: "screen_wf (upd_cur (move_to r 0 (s_rows t) (s_cols t)) t)" if "screen_wf t" for r t
    using wf_move_to [OF that] by simp
  show ?thesis
    unfolding csi_decstbm_def Let_def by (rule home) (rule reg)
qed

lemma wf_tbc [inv_intros]: "screen_wf s \<Longrightarrow> screen_wf (csi_tbc ps s)"
  by (simp add: csi_tbc_def Let_def wf_tabs_set dims_simps)

lemma wf_reply [simp]: "screen_wf (reply r s) = screen_wf s"
  by (simp add: reply_def)

lemma wf_kbd: "screen_wf s \<Longrightarrow> kbd_ok k \<Longrightarrow> screen_wf (s\<lparr>kbd := k\<rparr>)"
  by (simp add: screen_wf_def cur_ok_def)

lemma wf_kbd_ok: "screen_wf s \<Longrightarrow> kbd_ok (kbd s)"
  by (simp add: screen_wf_def)

lemma wf_pen:
  "screen_wf s \<Longrightarrow> row k = row (cursor s) \<Longrightarrow> col k = col (cursor s) \<Longrightarrow> screen_wf (s\<lparr>cursor := k\<rparr>)"
  by (intro wf_cursor_upd) (simp_all add: cur_ok_def in_bounds_def wf_cursor)

lemma wf_reports [inv_intros]:
  assumes "screen_wf s"
  shows "screen_wf (csi_dsr ps ints s)" "screen_wf (csi_da ints s)" "screen_wf (csi_q ps ints s)"
    "screen_wf (csi_window_op ps s)" "screen_wf (handle_xtmodkeys ps s)"
    "screen_wf (xtqmodkeys_report ps s)" "screen_wf (handle_kitty_kbd ps ints s)"
    "screen_wf (handle_decrqm ps b s)"
  using assms
  by (auto simp: csi_dsr_def csi_da_def csi_q_def csi_window_op_def handle_xtmodkeys_def
      xtqmodkeys_report_def handle_kitty_kbd_def handle_decrqm_def Let_def upd_cur_def
      intro!: wf_kbd kbd_ops_ok wf_kbd_ok wf_pen split: option.splits prod.splits)

lemma wf_decstr [inv_intros]: "screen_wf s \<Longrightarrow> screen_wf (handle_decstr s)"
  by (simp add: handle_decstr_def upd_cur_def screen_wf_def cur_ok_def in_bounds_def kbd_ops_ok)

lemma wf_csi_p [inv_intros]: "screen_wf s \<Longrightarrow> screen_wf (csi_p ps ints s)"
  by (simp add: csi_p_def inv_intros)

section \<open>Modes and SGR\<close>

lemma same_dims_new:
  "grid_wf g \<Longrightarrow> same_dims (grid_new (length (g_rows g)) (g_cols g)) g"
proof -
  assume wf: "grid_wf g"
  have "max (length (g_rows g)) 1 = length (g_rows g)" "max (g_cols g) 1 = g_cols g"
    using grid_wf_rows [OF wf] wf unfolding grid_wf_def by linarith+
  then show ?thesis by (simp only: same_dims_def dims_simps)
qed

lemma wf_enter_alt [inv_intros]:
  assumes "screen_wf s" shows "screen_wf (enter_alt_screen s)"
proof -
  let ?g = "grid_new (s_rows s) (g_cols (active s))"
  have sd: "same_dims ?g (active s)"
    using same_dims_new [OF wf_grid [OF assms]] by (simp add: wf_rows [OF assms])
  have new: "grid_wf ?g"
    using wf_pos [OF assms] by (simp add: grid_new_wf wf_rows [OF assms])
  have dims: "length (g_rows ?g) = length (g_rows (active s))" "g_cols ?g = g_cols (active s)"
    using sd by (simp_all add: same_dims_def)
  have "cur_ok (s\<lparr>active := ?g\<rparr>) cursor_default"
    using wf_pos(1) [OF assms] by (simp add: cur_ok_def dims in_bounds_default)
  then show ?thesis
    using assms new sd
    by (auto simp: enter_alt_screen_def screen_wf_def cur_ok_def same_dims_def dims)
qed

lemma m_alt_nonzero [simp]: "M_ALT_SCREEN \<noteq> 0"
  by (simp add: mode_bits)

lemma wf_leave_alt [inv_intros]:
  assumes "screen_wf s" shows "screen_wf (leave_alt_screen s)"
proof (cases "alt s")
  case None
  with assms show ?thesis by (simp add: leave_alt_screen_def)
next
  case (Some g)
  then have "grid_wf g" "length (g_rows g) = length (g_rows (active s))" "g_cols g = g_cols (active s)"
    using assms by (auto simp: screen_wf_def same_dims_def)
  with assms Some show ?thesis
    by (simp add: leave_alt_screen_def Let_def screen_wf_def cur_ok_def split: option.splits)
qed

lemma wf_modes:
  "screen_wf s \<Longrightarrow> m_contains m M_ALT_SCREEN = m_contains (modes s) M_ALT_SCREEN \<Longrightarrow>
     screen_wf (s\<lparr>modes := m\<rparr>)"
  by (simp add: screen_wf_def cur_ok_def)

lemma wf_set_flag:
  "screen_wf s \<Longrightarrow> flag AND M_ALT_SCREEN = 0 \<Longrightarrow> screen_wf (set_flag flag on s)"
  by (simp add: set_flag_def wf_modes m_contains_other)

lemma private_flag_not_alt: "private_mode_flag code = Some flag \<Longrightarrow> flag AND M_ALT_SCREEN = 0"
  by (auto simp: private_mode_flag_def mode_bits split: if_splits)

lemma wf_set_private [inv_intros]:
  assumes "screen_wf s" shows "screen_wf (set_dec_private_mode code on s)"
proof -
  have "screen_wf (set_flag M_ORIGIN on s)"
    using assms by (rule wf_set_flag) (simp add: mode_bits)
  then have "screen_wf (upd_cur (move_to r 0 (s_rows (set_flag M_ORIGIN on s))
      (s_cols (set_flag M_ORIGIN on s))) (set_flag M_ORIGIN on s))" for r
    using wf_move_to by simp
  with assms show ?thesis
    by (auto simp: set_dec_private_mode_def Let_def wf_set_flag inv_intros
        dest: private_flag_not_alt split: option.splits)
qed

lemma wf_set_mode [inv_intros]: "screen_wf s \<Longrightarrow> screen_wf (set_mode ps ints on s)"
  unfolding set_mode_def
  by (rule foldl_inv [where P = screen_wf]) (auto intro: wf_set_private split: list.splits)

text \<open>SGR never moves the cursor.\<close>

definition same_pos :: "cursor \<Rightarrow> cursor \<Rightarrow> bool" where
  "same_pos k l \<longleftrightarrow> row k = row l \<and> col k = col l \<and> pending_wrap k = pending_wrap l
     \<and> hyperlink_id k = hyperlink_id l \<and> visible k = visible l \<and> shape k = shape l \<and> blink k = blink l"

lemma same_pos_code: "same_pos (sgr_code n k) k"
  by (simp add: same_pos_def sgr_code_def sgr_reset_def add_attr_def del_attr_def)

lemma same_pos_loop: "same_pos (sgr_loop codes k) k"
proof (induction codes k rule: sgr_loop.induct)
  case (2 n rest k)
  obtain c consumed where c: "parse_extended_color rest = (c, consumed)" by fastforce
  show ?case
  proof (cases "is_color_sel n")
    case True
    have "same_pos (case c of Some c \<Rightarrow> set_color n c k | None \<Rightarrow> k) k"
      by (simp add: same_pos_def set_color_def split: option.splits)
    with 2(1) [OF True c [symmetric]] c True show ?thesis
      by (simp add: same_pos_def)
  next
    case False
    then show ?thesis
      using 2(2) same_pos_code [of n k] by (simp add: same_pos_def)
  qed
qed (simp add: same_pos_def)

lemma same_pos_group: "same_pos (fst (sgr_group (k, codes) g)) k"
  by (auto simp: sgr_group_def same_pos_def split: list.splits)

lemma same_pos_groups: "same_pos (fst (foldl sgr_group (k, codes) gs)) k"
proof (induction gs arbitrary: k codes)
  case (Cons g gs)
  obtain k' codes' where g: "sgr_group (k, codes) g = (k', codes')" by fastforce
  have "same_pos k' k" using same_pos_group [of k codes g] by (simp add: g)
  with Cons [of k' codes'] show ?case by (simp add: g same_pos_def)
qed (simp add: same_pos_def)

lemma sgr_cursor: "same_pos (cursor (handle_sgr ps s)) (cursor s)"
proof -
  obtain k codes where g: "foldl sgr_group (cursor s, []) ps = (k, codes)" by fastforce
  have "same_pos k (cursor s)" using same_pos_groups [of "cursor s" "[]" ps] by (simp add: g)
  with same_pos_loop [of codes k] show ?thesis
    by (simp add: handle_sgr_def g same_pos_def)
qed

lemma sgr_only_cursor: "handle_sgr ps s = s\<lparr>cursor := cursor (handle_sgr ps s)\<rparr>"
  by (simp add: handle_sgr_def split: prod.splits)

lemma wf_sgr [inv_intros]: "screen_wf s \<Longrightarrow> screen_wf (handle_sgr ps s)"
  using sgr_cursor [of ps s] by (subst sgr_only_cursor) (auto intro!: wf_pen simp: same_pos_def)

lemma wf_csi_m [inv_intros]: "screen_wf s \<Longrightarrow> screen_wf (csi_m ps ints s)"
  by (simp add: csi_m_def inv_intros)

lemma wf_if: "screen_wf a \<Longrightarrow> screen_wf b \<Longrightarrow> screen_wf (if c then a else b)"
  by simp

lemma wf_handle_csi [inv_intros]:
  assumes "screen_wf s"
  shows "screen_wf (handle_csi wd ps ints f s)"
proof -
  have "screen_wf (s\<lparr>last_graphic := None\<rparr>)" using assms by simp
  then show ?thesis
    unfolding handle_csi_def Let_def
    by (intro wf_if wf_motions wf_cuf_cub wf_tabulation wf_rep wf_erasures wf_csi_m wf_set_mode
        wf_decstbm wf_scrolls wf_ich_dch wf_tbc wf_reports wf_csi_p)
qed

section \<open>Graphics\<close>

lemma wf_graphics_fields:
  "screen_wf s \<Longrightarrow> store_ok st \<Longrightarrow> length ps \<le> max_placements \<Longrightarrow> length vs \<le> max_virtual \<Longrightarrow>
     screen_wf (s\<lparr>images := st, placements := ps, virtual_placements := vs\<rparr>)"
  by (simp add: screen_wf_def cur_ok_def)

lemma wf_images: "screen_wf s \<Longrightarrow> store_ok st \<Longrightarrow> screen_wf (s\<lparr>images := st\<rparr>)"
  by (simp add: screen_wf_def cur_ok_def)

lemma wf_placements: "screen_wf s \<Longrightarrow> length ps \<le> max_placements \<Longrightarrow> screen_wf (s\<lparr>placements := ps\<rparr>)"
  by (simp add: screen_wf_def cur_ok_def)

lemma wf_virtual: "screen_wf s \<Longrightarrow> length vs \<le> max_virtual \<Longrightarrow> screen_wf (s\<lparr>virtual_placements := vs\<rparr>)"
  by (simp add: screen_wf_def cur_ok_def)

lemma wf_lengths:
  assumes "screen_wf s"
  shows "length (placements s) \<le> max_placements" "length (virtual_placements s) \<le> max_virtual"
    "length (pending_notifications s) \<le> max_notifications" "store_ok (images s)"
    "links_ok (hyperlinks s)"
  using assms by (simp_all add: screen_wf_def)

lemma wf_filters:
  assumes "screen_wf s"
  shows "screen_wf (s\<lparr>placements := filter p (placements s), virtual_placements := filter q (virtual_placements s)\<rparr>)"
  using wf_lengths [OF assms] assms
  by (intro wf_virtual wf_placements) (auto intro: order_trans [OF length_filter_le])

lemma wf_drop_evicted [inv_intros]: "screen_wf s \<Longrightarrow> screen_wf (drop_evicted ev s)"
  by (simp add: drop_evicted_def wf_filters)

lemma wf_insert_image [inv_intros]:
  assumes "screen_wf s" shows "screen_wf (insert_image im s)"
  using store_insert_ok [OF wf_lengths(4) [OF assms], of im] assms
  by (auto simp: insert_image_def intro!: wf_drop_evicted wf_images split: prod.splits)

lemma wf_add_placement [inv_intros]:
  assumes "screen_wf s" shows "screen_wf (add_placement i pr w h r c z s)"
proof -
  have "screen_wf (s\<lparr>placement_id_seq := a, graphics_seq := b, placements :=
      push_capped max_placements p (placements s)\<rparr>)" for a b p
    using wf_lengths(1) [OF assms] assms
    by (intro wf_placements push_capped_length) (simp_all add: max_placements_def)
  then show ?thesis
    unfolding add_placement_def Let_def
    by (auto intro!: wf_set_col_0 funpow_inv [where P = screen_wf] wf_advance split: prod.splits)
qed

lemma wf_add_virtual [inv_intros]:
  assumes "screen_wf s" shows "screen_wf (add_virtual_placement i p r c s)"
proof -
  have "length (filter q (virtual_placements s)) \<le> max_virtual" for q
    using wf_lengths(2) [OF assms] by (rule order_trans [OF length_filter_le])
  moreover have "screen_wf (s\<lparr>graphics_seq := x\<rparr>)" for x
    using assms by simp
  ultimately show ?thesis
    unfolding add_virtual_placement_def Let_def
    by (intro wf_virtual push_capped_length) (simp_all add: max_virtual_def)
qed

lemma wf_handle_sixel [inv_intros]: "screen_wf s \<Longrightarrow> screen_wf (handle_sixel ps payload s)"
  by (auto simp: handle_sixel_def Let_def intro!: wf_add_placement wf_insert_image split: prod.splits)

lemma wf_display_image [inv_intros]: "screen_wf s \<Longrightarrow> screen_wf (display_image i tx w h s)"
  by (simp add: display_image_def inv_intros)

lemma wf_finalize_transmission [inv_intros]:
  "screen_wf s \<Longrightarrow> screen_wf (finalize_transmission b64 s)"
  by (auto simp: finalize_transmission_def Let_def intro!: wf_display_image wf_insert_image
      split: option.splits prod.splits)

lemma wf_start_transmission [inv_intros]: "screen_wf s \<Longrightarrow> screen_wf (start_transmission cmd s)"
  by (simp add: start_transmission_def split: option.splits prod.splits)

lemma wf_accumulate_transmission [inv_intros]:
  "screen_wf s \<Longrightarrow> screen_wf (accumulate_transmission b64 cmd s)"
  by (auto simp: accumulate_transmission_def Let_def intro!: wf_finalize_transmission wf_start_transmission
      split: option.splits)

lemma wf_finalize_frame [inv_intros]:
  assumes "screen_wf s" shows "screen_wf (finalize_frame s)"
  using push_frame_ok [OF wf_lengths(4) [OF assms]] assms
  by (auto simp: finalize_frame_def Let_def intro!: wf_drop_evicted wf_images
      split: option.splits prod.splits) (metis snd_conv)

lemma wf_accumulate_frame [inv_intros]: "screen_wf s \<Longrightarrow> screen_wf (accumulate_frame cmd s)"
  by (auto simp: accumulate_frame_def Let_def intro!: wf_finalize_frame split: option.splits)

lemma wf_dispatch_action [inv_intros]:
  assumes "screen_wf s" shows "screen_wf (dispatch_action b64 cmd s)"
proof -
  have "screen_wf (delete_placements cmd s)"
    using assms by (auto simp: delete_placements_def wf_filters split: option.splits
        intro!: wf_virtual wf_placements)
  moreover have "screen_wf (place_image cmd s)"
    using assms by (simp add: place_image_def inv_intros split: option.splits)
  moreover have "screen_wf (control_animation cmd s)"
    using assms by (auto simp: control_animation_def intro!: wf_images set_anim_ok wf_lengths
        split: option.splits)
  ultimately show ?thesis
    using assms by (simp add: dispatch_action_def Let_def inv_intros)
qed

lemma wf_handle_graphics [inv_intros]: "screen_wf s \<Longrightarrow> screen_wf (handle_graphics b64 framed s)"
  by (simp add: handle_graphics_def inv_intros split: option.splits)

lemma wf_handle_iterm [inv_intros]: "screen_wf s \<Longrightarrow> screen_wf (handle_iterm b64 ps s)"
  by (auto simp: handle_iterm_def Let_def intro!: wf_add_placement wf_insert_image
      split: prod.splits option.splits)

section \<open>OSC and DCS strings\<close>

lemma wf_notification [inv_intros]:
  assumes "screen_wf s" shows "screen_wf (push_notification n s)"
  using assms push_capped_length [OF wf_lengths(3) [OF assms], of n]
  by (simp add: push_notification_def screen_wf_def cur_ok_def max_notifications_def)

lemma wf_hyperlink [inv_intros]:
  assumes "screen_wf s" shows "screen_wf (osc_hyperlink ps s)"
proof -
  have "screen_wf (s\<lparr>hyperlinks := snd (intern u (hyperlinks s))\<rparr>)" for u
    using assms intern_ok [OF wf_lengths(5) [OF assms], of u]
    by (simp add: screen_wf_def cur_ok_def)
  then have "screen_wf (upd_cur (\<lambda>k. k\<lparr>hyperlink_id := i\<rparr>) (s\<lparr>hyperlinks := snd (intern u (hyperlinks s))\<rparr>))"
    for i u
    unfolding upd_cur_def by (rule wf_pen) simp_all
  moreover have "screen_wf (upd_cur (\<lambda>k. k\<lparr>hyperlink_id := None\<rparr>) s)"
    unfolding upd_cur_def using assms by (rule wf_pen) simp_all
  ultimately show ?thesis
    by (auto simp: osc_hyperlink_def Let_def split: prod.splits) (metis snd_conv)
qed

lemma wf_mark_cursor_row [inv_intros]: "screen_wf s \<Longrightarrow> screen_wf (mark_cursor_row f s)"
  unfolding mark_cursor_row_def by (rule wf_map_row_active) simp_all

lemma wf_osc_133 [inv_intros]: "screen_wf s \<Longrightarrow> screen_wf (handle_osc_133 now ps s)"
  by (auto simp: handle_osc_133_def Let_def intro!: wf_mark_cursor_row split: option.splits list.splits)

lemma wf_osc_52 [inv_intros]: "screen_wf s \<Longrightarrow> screen_wf (handle_osc_52 b64 ps s)"
  by (simp add: handle_osc_52_def Let_def split: option.splits)

lemma wf_osc_color [inv_intros]: "screen_wf s \<Longrightarrow> screen_wf (handle_osc_color_query ps q s)"
  by (simp add: handle_osc_color_query_def split: option.splits)

lemma wf_handle_osc [inv_intros]: "screen_wf s \<Longrightarrow> screen_wf (handle_osc b64 now ps s)"
  by (simp add: handle_osc_def osc_notify_def Let_def inv_intros split: list.splits option.splits)

lemma wf_xtgettcap [inv_intros]: "screen_wf s \<Longrightarrow> screen_wf (xtgettcap payload s)"
  by (auto simp: xtgettcap_def xtgettcap_one_def intro!: foldl_inv [where P = screen_wf] split: option.splits)

lemma wf_handle_dcs [inv_intros]: "screen_wf s \<Longrightarrow> screen_wf (handle_dcs ints f ps payload s)"
  by (simp add: handle_dcs_def inv_intros)

section \<open>Every event keeps the invariant\<close>

lemma wf_screen_step [inv_intros]: "screen_wf s \<Longrightarrow> screen_wf (screen_step wd b64 s e)"
  by (cases e) (simp_all add: screen_step_def inv_intros)

interpretation scr: invariant_machine screen_wf "screen_step wd b64" for wd b64
  by unfold_locales (rule wf_screen_step)

lemma run_wf: "screen_wf s \<Longrightarrow> screen_wf (run wd b64 s es)"
  unfolding run_def by (rule scr.run_inv)

end
