(* ===== verification/Parser.thy ===== *)
theory Parser
  imports Screen_Inv
begin

text \<open>
  The byte parser: \<open>crates/emulator/src/parser.rs\<close>.  The pre-scan diverts graphics APCs and caps
  OSC bodies ahead of the crate \<open>vte\<close>.  The automaton of \<open>vte\<close> is the parameter \<open>vadv\<close>: from its
  state and a run of bytes, a new state and the callbacks it makes (\<open>vte_event\<close>, one constructor
  per method of \<open>vte::Perform\<close>).  The cutting of a string into grapheme clusters is the parameter
  \<open>seg\<close>; what is used of it is \<open>seg_ok\<close>: the clusters are non-empty and concatenate to the string.
\<close>

section \<open>Pre-scan\<close>

datatype scan_state = ScGround | ScEsc | ScApc | ScApcEsc | ScOsc
datatype segment = Run bytes | Graphics bytes

definition apc_cap :: nat where "apc_cap = 16 * 1024 * 1024"
definition osc_cap :: nat where "osc_cap = 4 * 1024 * 1024"
definition dcs_cap :: nat where "dcs_cap = 4 * 1024 * 1024"
definition pending_cap :: nat where "pending_cap = 4096"

record scanner =
  sc_state :: scan_state
  sc_apc :: bytes
  sc_osc_len :: nat
  sc_segs :: "segment list"
  sc_run :: bytes

definition apc_push :: "char \<Rightarrow> bytes \<Rightarrow> bytes" where
  "apc_push b buf = (if length buf < apc_cap then buf @ [b] else buf)"

definition flush_run :: "scanner \<Rightarrow> scanner" where
  "flush_run s = (if sc_run s \<noteq> [] then s\<lparr>sc_segs := sc_segs s @ [Run (sc_run s)], sc_run := []\<rparr> else s)"

definition push_graphics :: "scanner \<Rightarrow> scanner" where
  "push_graphics s =
     (let s' = (if head_opt (sc_apc s) = Some CHR ''G''
                then s\<lparr>sc_segs := sc_segs s @ [Graphics ([ESC, CHR ''_''] @ sc_apc s @ [ESC, CHR 0x5C])]\<rparr>
                else s)
      in s'\<lparr>sc_apc := []\<rparr>)"

definition finish_apc :: "scanner \<Rightarrow> scanner" where
  "finish_apc s = (push_graphics (flush_run s))\<lparr>sc_state := ScGround\<rparr>"

definition forward :: "bytes \<Rightarrow> scan_state \<Rightarrow> scanner \<Rightarrow> scanner" where
  "forward bs st s = s\<lparr>sc_run := sc_run s @ bs, sc_state := st\<rparr>"

definition scan_byte :: "scanner \<Rightarrow> char \<Rightarrow> scanner" where
  "scan_byte s b =
     (case sc_state s of
        ScGround \<Rightarrow>
          if b = ESC then s\<lparr>sc_state := ScEsc\<rparr>
          else if b = CHR 0x9D then (forward [b] ScOsc s)\<lparr>sc_osc_len := 0\<rparr>
          else forward [b] ScGround s
      | ScEsc \<Rightarrow>
          if b = CHR 0x5F then s\<lparr>sc_state := ScApc, sc_apc := []\<rparr>
          else if b = CHR 0x5D then (forward [ESC, CHR 0x5D] ScOsc s)\<lparr>sc_osc_len := 0\<rparr>
          else if b = ESC then forward [ESC] ScEsc s
          else forward [ESC, b] ScGround s
      | ScOsc \<Rightarrow>
          if b = ESC then s\<lparr>sc_state := ScEsc\<rparr>
          else if b = CHR 0x07 \<or> b = CHR 0x18 \<or> b = CHR 0x1A then forward [b] ScGround s
          else if sc_osc_len s < osc_cap then (forward [b] ScOsc s)\<lparr>sc_osc_len := sc_osc_len s + 1\<rparr>
          else s
      | ScApc \<Rightarrow>
          if b = CHR 0x9C then finish_apc s
          else if b = ESC then s\<lparr>sc_state := ScApcEsc\<rparr>
          else s\<lparr>sc_apc := apc_push b (sc_apc s)\<rparr>
      | ScApcEsc \<Rightarrow>
          if b = CHR 0x5C then finish_apc s
          else if b = ESC then s\<lparr>sc_apc := apc_push ESC (sc_apc s)\<rparr>
          else s\<lparr>sc_apc := apc_push b (apc_push ESC (sc_apc s)), sc_state := ScApc\<rparr>)"

section \<open>The parser's state and its callbacks\<close>

datatype vte_event =
    VPrint nat
  | VExecute nat
  | VCsi "nat list list" bytes char
  | VOsc "bytes list"
  | VEsc "nat list" nat
  | VHook "nat list list" bytes char
  | VPut char
  | VUnhook

record 'v parser =
  ps_vte :: 'v
  ps_pending :: rstr
  ps_dcs_ints :: bytes
  ps_dcs_action :: char
  ps_dcs_params :: "nat list list"
  ps_dcs_payload :: bytes
  ps_in_dcs :: bool
  ps_scan :: scan_state
  ps_apc :: bytes
  ps_osc_len :: nat

definition parser_new :: "'v \<Rightarrow> 'v parser" where
  "parser_new v = \<lparr>ps_vte = v, ps_pending = [], ps_dcs_ints = [], ps_dcs_action = CHR 0x00,
     ps_dcs_params = [], ps_dcs_payload = [], ps_in_dcs = False, ps_scan = ScGround,
     ps_apc = [], ps_osc_len = 0\<rparr>"

definition prescan :: "bytes \<Rightarrow> 'v parser \<Rightarrow> segment list \<times> 'v parser" where
  "prescan bs p =
     (let s = flush_run (foldl scan_byte \<lparr>sc_state = ps_scan p, sc_apc = ps_apc p,
                 sc_osc_len = ps_osc_len p, sc_segs = [], sc_run = []\<rparr> bs)
      in (sc_segs s, p\<lparr>ps_scan := sc_state s, ps_apc := sc_apc s, ps_osc_len := sc_osc_len s\<rparr>))"

text \<open>The sink the parser drives: here a screen, by its event handler \<open>step\<close>.\<close>

type_synonym 'v machine = "'v parser \<times> screen"

definition flush_all ::
  "(screen \<Rightarrow> event \<Rightarrow> screen) \<Rightarrow> (rstr \<Rightarrow> rstr list) \<Rightarrow> 'v machine \<Rightarrow> 'v machine" where
  "flush_all step seg ps =
     (let (p, s) = ps
      in if ps_pending p = [] then (p, s)
         else (p\<lparr>ps_pending := []\<rparr>, foldl (\<lambda>s g. step s (Print g)) s (seg (ps_pending p))))"

definition flush_complete_clusters ::
  "(screen \<Rightarrow> event \<Rightarrow> screen) \<Rightarrow> (rstr \<Rightarrow> rstr list) \<Rightarrow> 'v machine \<Rightarrow> 'v machine" where
  "flush_complete_clusters step seg ps =
     (let (p, s) = ps
      in if ps_pending p = [] then (p, s)
         else if utf8_len (ps_pending p) > pending_cap then flush_all step seg (p, s)
         else let cs = seg (ps_pending p); done = butlast cs
              in if done = [] then (p, s)
                 else (p\<lparr>ps_pending := drop (length (concat done)) (ps_pending p)\<rparr>,
                       foldl (\<lambda>s g. step s (Print g)) s done))"

definition perform ::
  "(screen \<Rightarrow> event \<Rightarrow> screen) \<Rightarrow> (rstr \<Rightarrow> rstr list) \<Rightarrow> nat \<Rightarrow> 'v machine \<Rightarrow> vte_event \<Rightarrow> 'v machine"
where
  "perform step seg now ps e =
     (let emit = (\<lambda>ev. let (p, s) = flush_all step seg ps in (p, step s ev))
      in case e of
        VPrint c \<Rightarrow>
          let (p, s) = ps
          in flush_complete_clusters step seg (p\<lparr>ps_pending := ps_pending p @ [c]\<rparr>, s)
      | VExecute b \<Rightarrow> emit (Execute b)
      | VCsi params ints a \<Rightarrow> emit (Csi params ints a)
      | VOsc params \<Rightarrow> emit (Osc now params)
      | VEsc ints b \<Rightarrow> emit (Esc ints b)
      | VHook params ints a \<Rightarrow>
          let (p, s) = flush_all step seg ps
          in (p\<lparr>ps_in_dcs := True, ps_dcs_action := a, ps_dcs_ints := ints, ps_dcs_params := params,
                ps_dcs_payload := []\<rparr>, s)
      | VPut b \<Rightarrow>
          let (p, s) = ps
          in (if ps_in_dcs p \<and> length (ps_dcs_payload p) < dcs_cap
              then (p\<lparr>ps_dcs_payload := ps_dcs_payload p @ [b]\<rparr>, s) else (p, s))
      | VUnhook \<Rightarrow>
          let (p, s) = ps
          in (if ps_in_dcs p
              then (p\<lparr>ps_in_dcs := False, ps_dcs_payload := []\<rparr>,
                    step s (Dcs (ps_dcs_ints p) (ps_dcs_action p) (ps_dcs_params p) (ps_dcs_payload p)))
              else (p, s)))"

definition feed_segment ::
  "('v \<Rightarrow> bytes \<Rightarrow> 'v \<times> vte_event list) \<Rightarrow> (screen \<Rightarrow> event \<Rightarrow> screen) \<Rightarrow> (rstr \<Rightarrow> rstr list) \<Rightarrow> nat \<Rightarrow>
     'v machine \<Rightarrow> segment \<Rightarrow> 'v machine" where
  "feed_segment vadv step seg now ps sg =
     (let (p, s) = ps
      in case sg of
           Run bs \<Rightarrow>
             let (v, es) = vadv (ps_vte p) bs
             in foldl (perform step seg now) (p\<lparr>ps_vte := v\<rparr>, s) es
         | Graphics framed \<Rightarrow> (p, step s (Apc framed)))"

definition parser_advance ::
  "('v \<Rightarrow> bytes \<Rightarrow> 'v \<times> vte_event list) \<Rightarrow> (screen \<Rightarrow> event \<Rightarrow> screen) \<Rightarrow> (rstr \<Rightarrow> rstr list) \<Rightarrow> nat \<Rightarrow>
     bytes \<Rightarrow> 'v machine \<Rightarrow> 'v machine" where
  "parser_advance vadv step seg now bs ps =
     (let (segs, p) = prescan bs (fst ps)
      in flush_complete_clusters step seg (foldl (feed_segment vadv step seg now) (p, snd ps) segs))"

definition parser_flush ::
  "(screen \<Rightarrow> event \<Rightarrow> screen) \<Rightarrow> (rstr \<Rightarrow> rstr list) \<Rightarrow> 'v machine \<Rightarrow> 'v machine" where
  "parser_flush step seg ps = flush_all step seg ps"

definition seg_ok :: "(rstr \<Rightarrow> rstr list) \<Rightarrow> bool" where
  "seg_ok seg \<longleftrightarrow> (\<forall>s. concat (seg s) = s \<and> [] \<notin> set (seg s))"

section \<open>What the pre-scan forwards\<close>

text \<open>The segments as one stream of items, in which the cutting into runs does not show.\<close>

definition items_of :: "segment \<Rightarrow> (char + bytes) list" where
  "items_of sg = (case sg of Run bs \<Rightarrow> map Inl bs | Graphics f \<Rightarrow> [Inr f])"

definition stream :: "scanner \<Rightarrow> (char + bytes) list" where
  "stream s = concat (map items_of (sc_segs s)) @ map Inl (sc_run s)"

lemma stream_flush [simp]: "stream (flush_run s) = stream s"
  by (simp add: stream_def flush_run_def items_of_def)

lemma flush_fields [simp]:
  "sc_state (flush_run s) = sc_state s" "sc_apc (flush_run s) = sc_apc s"
  "sc_osc_len (flush_run s) = sc_osc_len s" "sc_run (flush_run s) = []"
  by (simp_all add: flush_run_def)

definition scan_control :: "scanner \<Rightarrow> scan_state \<times> bytes \<times> nat" where
  "scan_control s = (sc_state s, sc_apc s, sc_osc_len s)"

lemma scan_control_byte:
  "scan_control s = scan_control t \<Longrightarrow> scan_control (scan_byte s b) = scan_control (scan_byte t b)"
  by (cases "sc_state t")
    (auto simp: scan_control_def scan_byte_def forward_def finish_apc_def push_graphics_def flush_run_def Let_def)

lemma scan_stream_byte:
  assumes "scan_control s = scan_control t"
  shows "\<exists>d. stream (scan_byte s b) = stream s @ d \<and> stream (scan_byte t b) = stream t @ d"
  using assms
  by (cases "sc_state t")
    (auto simp: scan_control_def scan_byte_def forward_def finish_apc_def push_graphics_def flush_run_def
      stream_def items_of_def Let_def)

lemma scan_stream:
  "scan_control s = scan_control t \<Longrightarrow>
     scan_control (foldl scan_byte s bs) = scan_control (foldl scan_byte t bs)
     \<and> (\<exists>d. stream (foldl scan_byte s bs) = stream s @ d \<and> stream (foldl scan_byte t bs) = stream t @ d)"
proof (induction bs arbitrary: s t)
  case (Cons b bs)
  obtain d where d: "stream (scan_byte s b) = stream s @ d" "stream (scan_byte t b) = stream t @ d"
    using scan_stream_byte [OF Cons.prems] by blast
  from Cons.IH [OF scan_control_byte [OF Cons.prems, of b]] d show ?case
    by auto
qed simp

definition prescan_items :: "bytes \<Rightarrow> 'v parser \<Rightarrow> (char + bytes) list" where
  "prescan_items bs p = concat (map items_of (fst (prescan bs p)))"

lemma prescan_items_stream:
  "prescan_items bs p = stream (foldl scan_byte \<lparr>sc_state = ps_scan p, sc_apc = ps_apc p,
     sc_osc_len = ps_osc_len p, sc_segs = [], sc_run = []\<rparr> bs)"
proof -
  have "concat (map items_of (sc_segs (flush_run s))) = stream s" for s
    by (subst stream_flush [symmetric]) (simp add: stream_def)
  then show ?thesis by (simp add: prescan_items_def prescan_def Let_def)
qed

text \<open>A sequence split across reads is scanned as if it had come in one.\<close>

lemma prescan_split_items:
  "prescan_items (as @ bs) p = prescan_items as p @ prescan_items bs (snd (prescan as p))"
proof -
  define s0 where "s0 = \<lparr>sc_state = ps_scan p, sc_apc = ps_apc p, sc_osc_len = ps_osc_len p,
     sc_segs = [], sc_run = []\<rparr>"
  define s1 where "s1 = foldl scan_byte s0 as"
  define t1 where "t1 = \<lparr>sc_state = sc_state s1, sc_apc = sc_apc s1, sc_osc_len = sc_osc_len s1,
     sc_segs = [], sc_run = []\<rparr>"
  have "scan_control s1 = scan_control t1" by (simp add: scan_control_def t1_def)
  from scan_stream [OF this, of bs] obtain d where
    "stream (foldl scan_byte s1 bs) = stream s1 @ d" "stream (foldl scan_byte t1 bs) = stream t1 @ d"
    by blast
  moreover have "stream t1 = []" by (simp add: t1_def stream_def)
  moreover have "prescan_items bs (snd (prescan as p)) = stream (foldl scan_byte t1 bs)"
    by (simp add: prescan_items_stream prescan_def Let_def t1_def s1_def s0_def)
  ultimately show ?thesis
    by (simp add: prescan_items_stream s1_def s0_def)
qed

text \<open>The body of an OSC is forwarded up to its cap, and only its terminators end it.\<close>

definition osc_body :: "char \<Rightarrow> bool" where
  "osc_body b \<longleftrightarrow> b \<noteq> ESC \<and> b \<noteq> CHR 0x07 \<and> b \<noteq> CHR 0x18 \<and> b \<noteq> CHR 0x1A"

lemma scan_osc_body:
  assumes "sc_state s = ScOsc" "sc_osc_len s \<le> osc_cap" "list_all osc_body bs"
  shows "foldl scan_byte s bs = s\<lparr>sc_run := sc_run s @ take (osc_cap - sc_osc_len s) bs,
     sc_osc_len := min osc_cap (sc_osc_len s + length bs)\<rparr>"
  using assms
proof (induction bs arbitrary: s)
  case (Cons b bs)
  show ?case
  proof (cases "sc_osc_len s < osc_cap")
    case True
    then have "scan_byte s b = s\<lparr>sc_run := sc_run s @ [b], sc_osc_len := sc_osc_len s + 1\<rparr>"
      using Cons.prems by (cases s) (simp add: scan_byte_def osc_body_def forward_def)
    moreover have "take (osc_cap - sc_osc_len s) (b # bs) = b # take (osc_cap - (sc_osc_len s + 1)) bs"
      using True by (cases "osc_cap - sc_osc_len s") (auto simp: diff_Suc split: nat.split)
    ultimately show ?thesis
      using Cons.IH [of "s\<lparr>sc_run := sc_run s @ [b], sc_osc_len := sc_osc_len s + 1\<rparr>"] Cons.prems True
      by (simp add: min_def)
  next
    case False
    then have "scan_byte s b = s"
      using Cons.prems by (simp add: scan_byte_def osc_body_def)
    then show ?thesis using Cons.IH [of s] Cons.prems False by simp
  qed
qed simp

section \<open>Bounds\<close>

definition scan_bounded :: "scanner \<Rightarrow> bool" where
  "scan_bounded s \<longleftrightarrow> length (sc_apc s) \<le> apc_cap \<and> sc_osc_len s \<le> osc_cap"

lemma apc_push_bound: "length buf \<le> apc_cap \<Longrightarrow> length (apc_push b buf) \<le> apc_cap"
  by (simp add: apc_push_def)

lemma scan_byte_bounded: "scan_bounded s \<Longrightarrow> scan_bounded (scan_byte s b)"
  by (cases "sc_state s")
    (auto simp: scan_bounded_def scan_byte_def forward_def finish_apc_def push_graphics_def flush_run_def
      Let_def apc_push_bound)

interpretation scan: invariant_machine scan_bounded scan_byte
  by unfold_locales (rule scan_byte_bounded)

definition parser_bounded :: "'v parser \<Rightarrow> bool" where
  "parser_bounded p \<longleftrightarrow> length (ps_apc p) \<le> apc_cap \<and> ps_osc_len p \<le> osc_cap
     \<and> length (ps_dcs_payload p) \<le> dcs_cap \<and> utf8_len (ps_pending p) \<le> pending_cap"

lemma prescan_bounded:
  assumes "parser_bounded p" shows "parser_bounded (snd (prescan bs p))"
proof -
  have "scan_bounded \<lparr>sc_state = ps_scan p, sc_apc = ps_apc p, sc_osc_len = ps_osc_len p,
     sc_segs = [], sc_run = []\<rparr>"
    using assms by (simp add: scan_bounded_def parser_bounded_def)
  from scan.run_inv [OF this, of bs] show ?thesis
    using assms by (simp add: prescan_def Let_def parser_bounded_def scan_bounded_def)
qed

lemma utf8_len_append: "utf8_len (xs @ ys) = utf8_len xs + utf8_len ys"
  by (simp add: utf8_len_def)

lemma utf8_len_drop: "utf8_len (drop n xs) \<le> utf8_len xs"
  by (metis append_take_drop_id le_add2 utf8_len_append)

lemma utf8_width_le: "utf8_width c \<le> 4"
  by (simp add: utf8_width_def)

lemma flush_all_bounded: "parser_bounded (fst ps) \<Longrightarrow> parser_bounded (fst (flush_all step seg ps))"
  by (cases ps) (simp add: flush_all_def parser_bounded_def utf8_len_def)

text \<open>After a flush of the complete clusters the pending text is within its cap.\<close>

lemma flush_complete_bounded:
  assumes "length (ps_apc p) \<le> apc_cap" "ps_osc_len p \<le> osc_cap" "length (ps_dcs_payload p) \<le> dcs_cap"
  shows "parser_bounded (fst (flush_complete_clusters step seg (p, s)))"
  using assms utf8_len_drop [of _ "ps_pending p"]
  by (auto simp: flush_complete_clusters_def flush_all_def Let_def parser_bounded_def utf8_len_def not_less
      intro: order_trans)

lemma perform_bounded:
  assumes "parser_bounded (fst ps)"
  shows "parser_bounded (fst (perform step seg now ps e))"
proof -
  obtain p s where ps: "ps = (p, s)" by fastforce
  have fl: "parser_bounded (fst (flush_all step seg (p, s)))"
    using assms by (intro flush_all_bounded) (simp add: ps)
  show ?thesis
  proof (cases e)
    case (VPrint c)
    have "parser_bounded (fst (flush_complete_clusters step seg (p\<lparr>ps_pending := ps_pending p @ [c]\<rparr>, s)))"
      using assms by (intro flush_complete_bounded) (simp_all add: ps parser_bounded_def)
    then show ?thesis by (simp add: perform_def ps VPrint)
  qed (use fl assms in \<open>auto simp: perform_def ps Let_def parser_bounded_def split: prod.splits\<close>)
qed

lemma feed_segment_bounded:
  assumes "parser_bounded (fst ps)"
  shows "parser_bounded (fst (feed_segment vadv step seg now ps sg))"
proof (cases sg)
  case (Run bs)
  obtain p s v es where ps: "ps = (p, s)" and v: "vadv (ps_vte p) bs = (v, es)" by fastforce
  have "parser_bounded (fst (p\<lparr>ps_vte := v\<rparr>, s))"
    using assms by (simp add: ps parser_bounded_def)
  then have "parser_bounded (fst (foldl (perform step seg now) (p\<lparr>ps_vte := v\<rparr>, s) es))"
    by (rule foldl_inv [where P = "\<lambda>ps. parser_bounded (fst ps)"]) (rule perform_bounded)
  then show ?thesis by (simp add: feed_segment_def ps Run v)
next
  case (Graphics f)
  with assms show ?thesis by (cases ps) (simp add: feed_segment_def)
qed

lemma parser_advance_bounded:
  assumes "parser_bounded (fst ps)"
  shows "parser_bounded (fst (parser_advance vadv step seg now bs ps))"
proof -
  obtain segs p where pre: "prescan bs (fst ps) = (segs, p)" by fastforce
  have "parser_bounded (fst (p, snd ps))"
    using prescan_bounded [OF assms, of bs] by (simp add: pre)
  then have "parser_bounded (fst (foldl (feed_segment vadv step seg now) (p, snd ps) segs))"
    by (rule foldl_inv [where P = "\<lambda>ps. parser_bounded (fst ps)"]) (rule feed_segment_bounded)
  then have "parser_bounded (fst (flush_complete_clusters step seg
      (foldl (feed_segment vadv step seg now) (p, snd ps) segs)))"
    by (cases "foldl (feed_segment vadv step seg now) (p, snd ps) segs")
      (simp only: fst_conv, intro flush_complete_bounded, simp_all add: parser_bounded_def)
  then show ?thesis by (simp add: parser_advance_def pre)
qed

section \<open>The screen under the parser\<close>

text \<open>Whatever every screen event keeps, the parser keeps.\<close>

lemma prints_keep:
  assumes "P s" "\<And>t e. P t \<Longrightarrow> P (step t e)"
  shows "P (foldl (\<lambda>s g. step s (Print g)) s gs)"
  by (rule foldl_inv [where P = P]) (use assms in blast)+

lemma flush_all_keeps:
  assumes "P s" "\<And>t e. P t \<Longrightarrow> P (step t e)"
  shows "P (snd (flush_all step seg (p, s)))"
  using prints_keep [of P s step "seg (ps_pending p)", OF assms] assms(1)
  by (simp add: flush_all_def)

lemma flush_complete_keeps:
  assumes "P s" "\<And>t e. P t \<Longrightarrow> P (step t e)"
  shows "P (snd (flush_complete_clusters step seg (p, s)))"
  using prints_keep [of P s step "butlast (seg (ps_pending p))", OF assms]
    flush_all_keeps [of P s step seg p, OF assms] assms(1)
  by (simp add: flush_complete_clusters_def Let_def)

lemma perform_keeps:
  assumes "P (snd ps)" "\<And>t e. P t \<Longrightarrow> P (step t e)"
  shows "P (snd (perform step seg now ps e))"
proof -
  obtain p s where ps: "ps = (p, s)" by fastforce
  obtain q t where q: "flush_all step seg (p, s) = (q, t)" by fastforce
  have s: "P s" using assms(1) by (simp add: ps)
  have t: "P t" using flush_all_keeps [of P s step seg p, OF s assms(2)] by (simp add: q)
  have "P (snd (flush_complete_clusters step seg (r, s)))" for r
    using s assms(2) by (rule flush_complete_keeps)
  then show ?thesis
    using s t assms(2) by (cases e) (simp_all add: perform_def ps q)
qed

lemma feed_segment_keeps:
  fixes ps :: "'v machine"
  assumes "P (snd ps)" "\<And>t e. P t \<Longrightarrow> P (step t e)"
  shows "P (snd (feed_segment vadv step seg now ps sg))"
proof (cases sg)
  case (Run bs)
  obtain p s v es where ps: "ps = (p, s)" and v: "vadv (ps_vte p) bs = (v, es)" by fastforce
  have "P (snd (foldl (perform step seg now) (p\<lparr>ps_vte := v\<rparr>, s) es))"
  proof (rule foldl_inv [where P = "\<lambda>ps. P (snd ps)"])
    show "P (snd (p\<lparr>ps_vte := v\<rparr>, s))" using assms(1) by (simp add: ps)
  next
    fix qs :: "'v machine" and e assume "P (snd qs)"
    then show "P (snd (perform step seg now qs e))" using assms(2) by (rule perform_keeps)
  qed
  then show ?thesis by (simp add: feed_segment_def ps Run v)
next
  case (Graphics f)
  with assms show ?thesis by (cases ps) (simp add: feed_segment_def)
qed

lemma parser_advance_keeps:
  fixes ps :: "'v machine"
  assumes "P (snd ps)" "\<And>t e. P t \<Longrightarrow> P (step t e)"
  shows "P (snd (parser_advance vadv step seg now bs ps))"
proof -
  obtain segs p where pre: "prescan bs (fst ps) = (segs, p)" by fastforce
  obtain q t where q: "foldl (feed_segment vadv step seg now) (p, snd ps) segs = (q, t)" by fastforce
  have "P (snd (foldl (feed_segment vadv step seg now) (p, snd ps) segs))"
  proof (rule foldl_inv [where P = "\<lambda>ps. P (snd ps)"])
    show "P (snd (p, snd ps))" using assms(1) by simp
  next
    fix qs :: "'v machine" and sg assume "P (snd qs)"
    then show "P (snd (feed_segment vadv step seg now qs sg))" using assms(2) by (rule feed_segment_keeps)
  qed
  then have "P t" by (simp add: q)
  then show ?thesis
    using assms(2) by (simp add: parser_advance_def pre q flush_complete_keeps)
qed

end
