(* ===== verification/Reflow.thy ===== *)
theory Reflow
  imports Scrollback Cursor
begin

text \<open>
  Re-wrapping at a resize: \<open>crates/emulator/src/reflow.rs\<close>.  \<open>collect_lines\<close> is the loop that joins
  physical rows into logical lines (step 2), \<open>trim_line\<close> step 3, \<open>wrap_line\<close> the body of the
  re-wrap loop (step 4), \<open>reflow\<close> the whole.  The lemmas show that the new grid is rectangular,
  that the cursor lands inside it and that no visible cell is lost or reordered.
\<close>

section \<open>Logical lines\<close>

record collected =
  co_lines :: "cell list list"
  co_marks :: "row_mark list"
  co_cur_line :: "nat option"
  co_cur_col :: "nat option"

definition is_continuation :: "grid_row \<Rightarrow> bool" where
  "is_continuation r = (case wrap_origin r of SoftFrom _ \<Rightarrow> True | Hard \<Rightarrow> False)"

text \<open>One physical row; \<open>cur\<close> is the absolute row and the column of the cursor.\<close>

definition collect_row :: "nat \<times> nat \<Rightarrow> collected \<Rightarrow> nat \<times> grid_row \<Rightarrow> collected" where
  "collect_row cur st ir =
     (let (idx, r) = ir;
          st = (if \<not> is_continuation r \<or> co_lines st = []
                then st\<lparr>co_lines := co_lines st @ [[]], co_marks := co_marks st @ [mark_default]\<rparr> else st);
          line = last (co_lines st);
          st = st\<lparr>co_lines := butlast (co_lines st) @ [line @ cells r],
                  co_marks := butlast (co_marks st) @ [mark_merge (last (co_marks st)) (mark r)]\<rparr>
      in if idx = fst cur
         then st\<lparr>co_cur_line := Some (length (co_lines st) - 1), co_cur_col := Some (length line + snd cur)\<rparr>
         else st)"

definition collect_lines :: "nat \<times> nat \<Rightarrow> grid_row list \<Rightarrow> collected" where
  "collect_lines cur rows =
     foldl (collect_row cur) \<lparr>co_lines = [], co_marks = [], co_cur_line = None, co_cur_col = None\<rparr>
       (enumerate 0 rows)"

definition trim_line :: "cell list \<Rightarrow> cell list" where
  "trim_line line = rev (dropWhile is_blank (rev line))"

text \<open>A cursor on a spacer backs up to the wide cell.\<close>

definition back_off_spacer :: "cell list list \<Rightarrow> nat option \<Rightarrow> nat option \<Rightarrow> nat option" where
  "back_off_spacer lines li ci =
     (case (li, ci) of
        (Some l, Some c) \<Rightarrow>
          (case nth_opt lines l of
             None \<Rightarrow> ci
           | Some line \<Rightarrow> (case nth_opt line c of
               Some x \<Rightarrow> if is_wide_spacer x then Some (c - 1) else ci
             | None \<Rightarrow> ci))
      | _ \<Rightarrow> ci)"

section \<open>Re-wrapping\<close>

record wrapping =
  wr_buf :: "grid_row list"
  wr_cells :: "cell list"
  wr_col :: nat
  wr_first :: bool
  wr_cur_row :: "nat option"
  wr_cur_col :: nat

definition wrapped_row :: "cell list \<Rightarrow> bool \<Rightarrow> nat \<Rightarrow> nat \<Rightarrow> row_mark \<Rightarrow> grid_row" where
  "wrapped_row cs first line_idx cols m =
     \<lparr>cells = cs @ replicate (cols - as_u16 (length cs)) default_cell,
      wrap_origin = (if first then Hard else SoftFrom (as_u32 line_idx)),
      mark = (if first then m else mark_default)\<rparr>"

definition cell_width :: "(rstr \<Rightarrow> nat) \<Rightarrow> cell \<Rightarrow> nat" where
  "cell_width wd c = min (as_u16 (wd (grapheme c))) 2"

definition pad_wide :: "nat \<Rightarrow> nat \<Rightarrow> wrapping \<Rightarrow> wrapping" where
  "pad_wide cols cw w =
     (if cw = 2 \<and> as_u16 (wr_col w + 2) > cols \<and> wr_col w > 0 \<and> wr_col w < cols
      then w\<lparr>wr_cells := wr_cells w @ replicate (cols - wr_col w) default_cell, wr_col := cols\<rparr> else w)"

definition flush_row :: "nat \<Rightarrow> row_mark \<Rightarrow> nat \<Rightarrow> nat \<Rightarrow> wrapping \<Rightarrow> wrapping" where
  "flush_row cols m line_idx cw w =
     (if cw > 0 \<and> as_u16 (wr_col w + cw) > cols \<and> wr_col w > 0
      then w\<lparr>wr_buf := wr_buf w @ [wrapped_row (wr_cells w) (wr_first w) line_idx cols m],
             wr_cells := [], wr_col := 0, wr_first := False\<rparr>
      else w)"

definition emit_cell :: "nat \<Rightarrow> nat \<Rightarrow> cell \<Rightarrow> wrapping \<Rightarrow> wrapping" where
  "emit_cell cols cw c w =
     (let w = w\<lparr>wr_cells := wr_cells w @ [c], wr_col := as_u16 (wr_col w + 1)\<rparr>
      in if cw = 2 then
           (if wr_col w < cols
            then w\<lparr>wr_cells := wr_cells w @ [wide_spacer], wr_col := as_u16 (wr_col w + 1)\<rparr> else w)
         else if cw = 0 then
           (let lst = length (wr_cells w) - 1
            in if lst > 0 then
                 let p = wr_cells w ! (lst - 1)
                 in w\<lparr>wr_cells := (butlast (wr_cells w))
                        [lst - 1 := p\<lparr>grapheme := grapheme p @ grapheme (wr_cells w ! lst)\<rparr>],
                      wr_col := wr_col w - 1\<rparr>
               else w)
         else w)"

definition wrap_cell ::
  "(rstr \<Rightarrow> nat) \<Rightarrow> nat \<Rightarrow> row_mark \<Rightarrow> nat \<Rightarrow> nat option \<Rightarrow> wrapping \<Rightarrow> nat \<times> cell \<Rightarrow> wrapping" where
  "wrap_cell wd cols m line_idx cur w ic =
     (let (idx, c) = ic
      in if is_wide_spacer c then w
         else let cw = cell_width wd c;
                  w = flush_row cols m line_idx cw (pad_wide cols cw w);
                  w = (if cur = Some idx
                       then w\<lparr>wr_cur_row := Some (length (wr_buf w)), wr_cur_col := wr_col w\<rparr> else w)
              in emit_cell cols cw c w)"

text \<open>A logical line; \<open>cur\<close> is the cursor's column in it, when the cursor is on this line.\<close>

definition wrap_line ::
  "(rstr \<Rightarrow> nat) \<Rightarrow> nat \<Rightarrow> nat option \<Rightarrow> wrapping \<Rightarrow> nat \<times> cell list \<times> row_mark \<Rightarrow> wrapping" where
  "wrap_line wd cols cur w il =
     (let (line_idx, line, m) = il
      in if line = [] then
           (let w = (if cur \<noteq> None then w\<lparr>wr_cur_row := Some (length (wr_buf w)), wr_cur_col := 0\<rparr> else w)
            in w\<lparr>wr_buf := wr_buf w @ [(blank_row cols)\<lparr>mark := m\<rparr>]\<rparr>)
         else
           (let w = foldl (wrap_cell wd cols m line_idx cur) (w\<lparr>wr_cells := [], wr_col := 0, wr_first := True\<rparr>)
                      (enumerate 0 line);
                w = (if (case cur of Some c \<Rightarrow> c \<ge> length line | None \<Rightarrow> False)
                     then w\<lparr>wr_cur_row := Some (length (wr_buf w)), wr_cur_col := wr_col w\<rparr> else w)
            in w\<lparr>wr_buf := wr_buf w @ [wrapped_row (wr_cells w) (wr_first w) line_idx cols m]\<rparr>))"

definition wrap_lines ::
  "(rstr \<Rightarrow> nat) \<Rightarrow> nat \<Rightarrow> nat option \<Rightarrow> nat option \<Rightarrow> (nat \<times> cell list \<times> row_mark) list \<Rightarrow> wrapping" where
  "wrap_lines wd cols li ci ls =
     foldl (\<lambda>w il. wrap_line wd cols (if li = Some (fst il) then ci else None) w il)
       \<lparr>wr_buf = [], wr_cells = [], wr_col = 0, wr_first = True, wr_cur_row = None, wr_cur_col = 0\<rparr> ls"

text \<open>Steps 1 to 4: the rows taken together, joined, trimmed and re-wrapped.\<close>

definition rewrap :: "(rstr \<Rightarrow> nat) \<Rightarrow> grid_row list \<Rightarrow> nat \<times> nat \<Rightarrow> nat \<Rightarrow> wrapping" where
  "rewrap wd rows cur cols =
     (let co = collect_lines cur rows;
          lines = map trim_line (co_lines co);
          ci = back_off_spacer lines (co_cur_line co) (co_cur_col co)
      in wrap_lines wd cols (co_cur_line co) ci (enumerate 0 (zip lines (co_marks co))))"

definition pad_buf :: "nat \<Rightarrow> nat \<Rightarrow> grid_row list \<Rightarrow> grid_row list" where
  "pad_buf rows cols buf = buf @ replicate (rows - length buf) (blank_row cols)"

text \<open>Step 7: the cursor, given the rows that went to the scrollback.\<close>

definition resolve_cursor :: "nat \<Rightarrow> nat \<Rightarrow> nat \<Rightarrow> wrapping \<Rightarrow> cursor \<Rightarrow> cursor" where
  "resolve_cursor split_at rows cols w k =
     (case wr_cur_row w of
        Some ab \<Rightarrow>
          (if ab < split_at then k\<lparr>row := 0, col := 0\<rparr>
           else k\<lparr>row := as_u16 (ab - split_at), col := min (wr_cur_col w) (cols - 1)\<rparr>)
      | None \<Rightarrow> k\<lparr>row := min (row k) (rows - 1), col := min (col k) (cols - 1)\<rparr>)
     \<lparr>pending_wrap := False\<rparr>"

definition reflow ::
  "(rstr \<Rightarrow> nat) \<Rightarrow> grid \<Rightarrow> scrollback \<Rightarrow> cursor \<Rightarrow> nat \<Rightarrow> nat \<Rightarrow> grid \<times> scrollback \<times> cursor" where
  "reflow wd g sb k new_rows new_cols =
     (let rows = max new_rows 1;
          cols = max new_cols 1;
          w = rewrap wd (sb_rows sb @ g_rows g) (length (sb_rows sb) + row k, col k) cols;
          buf = pad_buf rows cols (wr_buf w);
          split_at = length buf - rows
      in (\<lparr>g_rows = drop split_at buf, g_cols = cols\<rparr>,
          foldl (\<lambda>sb r. snd (sb_push r sb)) (sb\<lparr>sb_rows := []\<rparr>) (take split_at buf),
          resolve_cursor split_at rows cols w k))"

section \<open>The rows of the buffer\<close>

text \<open>\<open>col_in_row\<close> counts the cells of the row under construction, and they fit.\<close>

definition wrap_ok :: "nat \<Rightarrow> wrapping \<Rightarrow> bool" where
  "wrap_ok cols w \<longleftrightarrow> wr_col w = length (wr_cells w) \<and> wr_col w \<le> cols
     \<and> (\<forall>r \<in> set (wr_buf w). length (cells r) = cols)"

lemma wrapped_row_length:
  "length cs \<le> cols \<Longrightarrow> cols \<le> u16_max \<Longrightarrow> length (cells (wrapped_row cs f i cols m)) = cols"
  by (simp add: wrapped_row_def as_u16_id)

lemma pad_wide_ok: "wrap_ok cols w \<Longrightarrow> wrap_ok cols (pad_wide cols cw w)"
  by (auto simp: wrap_ok_def pad_wide_def)

lemma flush_row_ok:
  "wrap_ok cols w \<Longrightarrow> cols \<le> u16_max \<Longrightarrow> wrap_ok cols (flush_row cols m i cw w)"
  by (auto simp: wrap_ok_def flush_row_def wrapped_row_length)

text \<open>After padding and flushing, a cell of width \<open>cw\<close> fits unless the row is still empty.\<close>

lemma flush_fits:
  assumes "wrap_ok cols w" "cols + 2 \<le> u16_max" "cw \<le> 2"
    and v: "v = flush_row cols m i cw (pad_wide cols cw w)"
  shows "wr_col v + cw \<le> cols \<or> wr_col v = 0"
proof -
  have "as_u16 (wr_col w + 2) = wr_col w + 2" "as_u16 (cols + cw) = cols + cw"
    "as_u16 (wr_col w + cw) = wr_col w + cw"
    using assms(1-3) by (simp_all add: wrap_ok_def as_u16_id)
  then show ?thesis
    using assms(1) by (auto simp: v flush_row_def pad_wide_def wrap_ok_def)
qed

lemma emit_cell_ok:
  assumes "wrap_ok cols w" "cols + 2 \<le> u16_max" "1 \<le> cols" "wr_col w + cw \<le> cols \<or> wr_col w = 0" "cw \<le> 2"
  shows "wrap_ok cols (emit_cell cols cw c w)"
proof -
  have id: "as_u16 (wr_col w + 1) = wr_col w + 1" "as_u16 (wr_col w + 2) = wr_col w + 2"
    using assms(1,2) by (simp_all add: wrap_ok_def as_u16_id)
  consider "cw = 0" | "cw = 1" | "cw = 2" using assms(5) by linarith
  then show ?thesis
  proof cases
    case 3
    then show ?thesis using assms id by (auto simp: emit_cell_def Let_def wrap_ok_def)
  next
    case 2
    then show ?thesis using assms id by (auto simp: emit_cell_def Let_def wrap_ok_def)
  next
    case 1
    then show ?thesis using assms id by (auto simp: emit_cell_def Let_def wrap_ok_def)
  qed
qed

lemma cell_width_le: "cell_width wd c \<le> 2"
  by (simp add: cell_width_def)

lemma wrap_cell_ok:
  assumes "wrap_ok cols w" "cols + 2 \<le> u16_max" "1 \<le> cols"
  shows "wrap_ok cols (wrap_cell wd cols m i cur w ic)"
proof -
  obtain idx c where ic: "ic = (idx, c)" by fastforce
  define v where "v = flush_row cols m i (cell_width wd c) (pad_wide cols (cell_width wd c) w)"
  have v: "wrap_ok cols v"
    using assms by (simp add: v_def flush_row_ok pad_wide_ok)
  have fit: "wr_col v + cell_width wd c \<le> cols \<or> wr_col v = 0"
    using assms(1,2) cell_width_le v_def by (rule flush_fits)
  have "wrap_ok cols (emit_cell cols (cell_width wd c) c (v\<lparr>wr_cur_row := x, wr_cur_col := y\<rparr>))"
    "wrap_ok cols (emit_cell cols (cell_width wd c) c v)" for x y
    by (rule emit_cell_ok; use v fit assms in \<open>simp add: wrap_ok_def cell_width_le\<close>)+
  then show ?thesis
    using assms(1) by (simp add: wrap_cell_def ic Let_def flip: v_def)
qed

text \<open>The state at the end of a line's cells.\<close>

definition wrap_cells ::
  "(rstr \<Rightarrow> nat) \<Rightarrow> nat \<Rightarrow> row_mark \<Rightarrow> nat \<Rightarrow> nat option \<Rightarrow> cell list \<Rightarrow> wrapping \<Rightarrow> wrapping" where
  "wrap_cells wd cols m i cur line w =
     foldl (wrap_cell wd cols m i cur) (w\<lparr>wr_cells := [], wr_col := 0, wr_first := True\<rparr>) (enumerate 0 line)"

lemma wrap_line_cells:
  "wrap_line wd cols cur w (i, line, m) =
     (if line = [] then
        (let w = (if cur \<noteq> None then w\<lparr>wr_cur_row := Some (length (wr_buf w)), wr_cur_col := 0\<rparr> else w)
         in w\<lparr>wr_buf := wr_buf w @ [(blank_row cols)\<lparr>mark := m\<rparr>]\<rparr>)
      else
        (let w = wrap_cells wd cols m i cur line w;
             w = (if (case cur of Some c \<Rightarrow> c \<ge> length line | None \<Rightarrow> False)
                  then w\<lparr>wr_cur_row := Some (length (wr_buf w)), wr_cur_col := wr_col w\<rparr> else w)
         in w\<lparr>wr_buf := wr_buf w @ [wrapped_row (wr_cells w) (wr_first w) i cols m]\<rparr>))"
  by (simp add: wrap_line_def wrap_cells_def)

lemma wrap_cells_ok:
  assumes "\<forall>r \<in> set (wr_buf w). length (cells r) = cols" "cols + 2 \<le> u16_max" "1 \<le> cols"
  shows "wrap_ok cols (wrap_cells wd cols m i cur line w)"
proof -
  have "wrap_ok cols (w\<lparr>wr_cells := [], wr_col := 0, wr_first := True\<rparr>)"
    using assms(1) by (simp add: wrap_ok_def)
  then show ?thesis
    unfolding wrap_cells_def by (rule foldl_inv) (rule wrap_cell_ok [OF _ assms(2,3)])
qed

lemma wrap_line_ok:
  assumes "\<forall>r \<in> set (wr_buf w). length (cells r) = cols" "cols + 2 \<le> u16_max" "1 \<le> cols"
  shows "\<forall>r \<in> set (wr_buf (wrap_line wd cols cur w il)). length (cells r) = cols"
proof -
  obtain i line m where il: "il = (i, line, m)" by (cases il) auto
  have "wrap_ok cols (wrap_cells wd cols m i cur line w)"
    using assms by (rule wrap_cells_ok)
  then show ?thesis
    using assms
    by (auto simp: wrap_line_cells il Let_def wrap_ok_def wrapped_row_length)
qed

lemma wrap_lines_ok:
  assumes "cols + 2 \<le> u16_max" "1 \<le> cols"
  shows "\<forall>r \<in> set (wr_buf (wrap_lines wd cols li ci ls)). length (cells r) = cols"
  unfolding wrap_lines_def
  by (rule foldl_inv) (simp, rule wrap_line_ok [OF _ assms])

section \<open>The cursor\<close>

lemma wrap_cell_buf_grows:
  "length (wr_buf w) \<le> length (wr_buf (wrap_cell wd cols m i cur w ic))"
  by (cases ic) (auto simp: wrap_cell_def Let_def emit_cell_def flush_row_def pad_wide_def)

lemma wrap_cell_cur:
  assumes "\<And>a. wr_cur_row w = Some a \<Longrightarrow> a \<le> length (wr_buf w)"
    and "wr_cur_row (wrap_cell wd cols m i cur w ic) = Some a"
  shows "a \<le> length (wr_buf (wrap_cell wd cols m i cur w ic))"
proof -
  obtain idx c where ic: "ic = (idx, c)" by fastforce
  define cw where "cw = cell_width wd c"
  define v where "v = flush_row cols m i cw (pad_wide cols cw w)"
  have v: "wr_cur_row v = wr_cur_row w" "length (wr_buf w) \<le> length (wr_buf v)"
    by (simp_all add: v_def flush_row_def pad_wide_def)
  have e: "wr_cur_row (emit_cell cols cw c u) = wr_cur_row u" "wr_buf (emit_cell cols cw c u) = wr_buf u" for u
    by (simp_all add: emit_cell_def Let_def)
  have eq: "wrap_cell wd cols m i cur w ic = (if is_wide_spacer c then w else emit_cell cols cw c
      (if cur = Some idx then v\<lparr>wr_cur_row := Some (length (wr_buf v)), wr_cur_col := wr_col v\<rparr> else v))"
    by (simp add: wrap_cell_def ic Let_def v_def cw_def)
  show ?thesis
  proof (cases "is_wide_spacer c \<or> cur \<noteq> Some idx")
    case True
    then have "wr_cur_row w = Some a" using assms(2) v by (auto simp: eq e split: if_splits)
    with True show ?thesis using assms(1) [of a] v by (simp add: eq e)
  next
    case False
    then show ?thesis using assms(2) unfolding eq by (simp add: e)
  qed
qed

lemma wrap_cells_cur:
  assumes "\<And>a. wr_cur_row w = Some a \<Longrightarrow> a \<le> length (wr_buf w)"
    and "wr_cur_row (wrap_cells wd cols m i cur line w) = Some a"
  shows "a \<le> length (wr_buf (wrap_cells wd cols m i cur line w))"
proof -
  have "\<forall>a. wr_cur_row (wrap_cells wd cols m i cur line w) = Some a \<longrightarrow>
      a \<le> length (wr_buf (wrap_cells wd cols m i cur line w))"
    unfolding wrap_cells_def
    by (rule foldl_inv) (use assms(1) in simp, use wrap_cell_cur in blast)
  with assms(2) show ?thesis by simp
qed

lemma wrap_line_cur:
  assumes "\<forall>a. wr_cur_row w = Some a \<longrightarrow> a < length (wr_buf w)"
  shows "\<forall>a. wr_cur_row (wrap_line wd cols cur w il) = Some a \<longrightarrow>
           a < length (wr_buf (wrap_line wd cols cur w il))"
proof -
  obtain i line m where il: "il = (i, line, m)" by (cases il) auto
  have "a \<le> length (wr_buf (wrap_cells wd cols m i cur line w))"
    if "wr_cur_row (wrap_cells wd cols m i cur line w) = Some a" for a
    using assms that by (intro wrap_cells_cur) (auto intro: less_imp_le)
  with assms show ?thesis
    by (auto simp: wrap_line_cells il Let_def less_Suc_eq_le intro: less_imp_le)
qed

lemma wrap_lines_cur:
  "wr_cur_row (wrap_lines wd cols li ci ls) = Some a \<Longrightarrow> a < length (wr_buf (wrap_lines wd cols li ci ls))"
proof -
  have "\<forall>a. wr_cur_row (wrap_lines wd cols li ci ls) = Some a \<longrightarrow>
      a < length (wr_buf (wrap_lines wd cols li ci ls))"
    unfolding wrap_lines_def by (rule foldl_inv) (simp, rule wrap_line_cur)
  then show "wr_cur_row (wrap_lines wd cols li ci ls) = Some a \<Longrightarrow> a < length (wr_buf (wrap_lines wd cols li ci ls))"
    by blast
qed

lemma pad_buf_length: "rows \<le> length (pad_buf rows cols buf)"
  by (simp add: pad_buf_def)

lemma rewrap_cur: "wr_cur_row (rewrap wd rows cur cols) = Some a \<Longrightarrow> a < length (wr_buf (rewrap wd rows cur cols))"
  by (simp add: rewrap_def Let_def wrap_lines_cur)

lemma rewrap_ok:
  "cols + 2 \<le> u16_max \<Longrightarrow> 1 \<le> cols \<Longrightarrow> \<forall>r \<in> set (wr_buf (rewrap wd rows cur cols)). length (cells r) = cols"
  unfolding rewrap_def Let_def by (rule wrap_lines_ok)

text \<open>The new grid has the requested size, and the cursor is inside it.\<close>

lemma max_bounds: "n + 2 \<le> u16_max \<Longrightarrow> max n 1 + 2 \<le> u16_max" "n \<le> u16_max \<Longrightarrow> max n 1 \<le> u16_max"
  by (simp_all add: u16_max_def)

lemma reflow_grid:
  assumes "rows \<le> u16_max" "cols + 2 \<le> u16_max"
    and "reflow wd g sb k rows cols = (g', sb', k')"
  shows "grid_wf g'" "length (g_rows g') = max rows 1" "g_cols g' = max cols 1"
proof -
  define cur where "cur = (length (sb_rows sb) + row k, col k)"
  define buf where "buf = pad_buf (max rows 1) (max cols 1)
     (wr_buf (rewrap wd (sb_rows sb @ g_rows g) cur (max cols 1)))"
  have g': "g' = \<lparr>g_rows = drop (length buf - max rows 1) buf, g_cols = max cols 1\<rparr>"
    using assms(3) by (simp add: reflow_def Let_def buf_def cur_def)
  have "\<forall>r \<in> set buf. length (cells r) = max cols 1"
    using rewrap_ok [OF max_bounds(1) [OF assms(2)], of wd "sb_rows sb @ g_rows g" cur]
    by (auto simp: buf_def pad_buf_def)
  moreover have len: "max rows 1 \<le> length buf"
    unfolding buf_def by (rule pad_buf_length)
  ultimately show "length (g_rows g') = max rows 1" "g_cols g' = max cols 1" "grid_wf g'"
    using max_bounds(2) [OF assms(1)] max_bounds(1) [OF assms(2)]
    by (auto simp: g' grid_wf_def dest: in_set_dropD)
qed

lemma clamp_lt: "0 < n \<Longrightarrow> min x (n - 1) < (n :: nat)"
  by linarith

lemma resolve_cursor_bounds:
  assumes "\<And>a. wr_cur_row w = Some a \<Longrightarrow> a < split_at + rows" "0 < rows" "0 < cols"
  shows "row (resolve_cursor split_at rows cols w k) < rows"
    "col (resolve_cursor split_at rows cols w k) < cols"
    "\<not> pending_wrap (resolve_cursor split_at rows cols w k)"
proof -
  have "as_u16 (a - split_at) < rows" if "wr_cur_row w = Some a" for a
  proof -
    have "as_u16 (a - split_at) \<le> a - split_at" by (simp add: as_u16_def)
    also have "\<dots> < rows" using assms(1) [OF that] assms(2) by linarith
    finally show ?thesis .
  qed
  then show "row (resolve_cursor split_at rows cols w k) < rows"
    "col (resolve_cursor split_at rows cols w k) < cols"
    "\<not> pending_wrap (resolve_cursor split_at rows cols w k)"
    using assms(2,3) clamp_lt [of rows] clamp_lt [of cols]
    by (simp_all add: resolve_cursor_def split: option.split)
qed

lemma reflow_cursor:
  assumes "reflow wd g sb k rows cols = (g', sb', k')"
  shows "row k' < max rows 1" "col k' < max cols 1" "\<not> pending_wrap k'"
proof -
  define w where "w = rewrap wd (sb_rows sb @ g_rows g) (length (sb_rows sb) + row k, col k) (max cols 1)"
  define buf where "buf = pad_buf (max rows 1) (max cols 1) (wr_buf w)"
  have k': "k' = resolve_cursor (length buf - max rows 1) (max rows 1) (max cols 1) w k"
    using assms by (simp add: reflow_def Let_def buf_def w_def)
  have "a < (length buf - max rows 1) + max rows 1" if "wr_cur_row w = Some a" for a
  proof -
    have "a < length (wr_buf w)" using that unfolding w_def by (rule rewrap_cur)
    moreover have "length (wr_buf w) \<le> length buf" by (simp add: buf_def pad_buf_def)
    moreover have "max rows 1 \<le> length buf" unfolding buf_def by (rule pad_buf_length)
    ultimately show ?thesis by linarith
  qed
  then show "row k' < max rows 1" "col k' < max cols 1" "\<not> pending_wrap k'"
    unfolding k' by (intro resolve_cursor_bounds; simp)+
qed

section \<open>No visible cell is lost\<close>

definition visible_cell :: "cell \<Rightarrow> bool" where
  "visible_cell c \<longleftrightarrow> \<not> is_blank c \<and> \<not> is_wide_spacer c"

definition content :: "grid_row list \<Rightarrow> cell list" where
  "content rows = filter visible_cell (concat (map cells rows))"

text \<open>No cell but a spacer has width zero (a printed cell never has).\<close>

definition has_width :: "(rstr \<Rightarrow> nat) \<Rightarrow> cell \<Rightarrow> bool" where
  "has_width wd c \<longleftrightarrow> is_wide_spacer c \<or> 0 < cell_width wd c"

lemma content_append [simp]: "content (xs @ ys) = content xs @ content ys"
  by (simp add: content_def)

lemma invisible_default [simp]: "\<not> visible_cell default_cell" "\<not> visible_cell wide_spacer"
  by (simp_all add: visible_cell_def is_blank_iff)

lemma filter_visible_replicate [simp]: "filter visible_cell (replicate n default_cell) = []"
  by simp

lemma content_blank [simp]: "content (replicate n (blank_row cols)) = []"
  by (simp add: content_def blank_row_def map_replicate_const)

lemma content_single: "content [r] = filter visible_cell (cells r)"
  by (simp add: content_def)

lemma collect_row_lines:
  "concat (co_lines (collect_row cur st ir)) = concat (co_lines st) @ cells (snd ir)"
proof -
  have "xs \<noteq> [] \<Longrightarrow> concat (butlast xs) @ last xs = concat xs" for xs :: "cell list list"
    by (metis append_butlast_last_id concat_append concat.simps append_Nil2)
  then show ?thesis
    by (auto simp: collect_row_def Let_def split: prod.splits)
qed

lemma collect_row_lengths:
  "length (co_marks st) = length (co_lines st) \<Longrightarrow>
     length (co_marks (collect_row cur st ir)) = length (co_lines (collect_row cur st ir))"
  by (auto simp: collect_row_def Let_def split: prod.splits)

lemma collect_fold:
  "length (co_marks st) = length (co_lines st) \<Longrightarrow>
     concat (co_lines (foldl (collect_row cur) st irs)) = concat (co_lines st) @ concat (map (cells \<circ> snd) irs)
     \<and> length (co_marks (foldl (collect_row cur) st irs)) = length (co_lines (foldl (collect_row cur) st irs))"
  by (induction irs arbitrary: st) (simp_all add: collect_row_lines collect_row_lengths)

text \<open>Joining the rows into logical lines keeps every cell, in order.\<close>

lemma collect_lines_concat:
  "concat (co_lines (collect_lines cur rows)) = concat (map cells rows)"
  "length (co_marks (collect_lines cur rows)) = length (co_lines (collect_lines cur rows))"
proof -
  have snd: "map (cells \<circ> snd) (enumerate 0 rows) = map cells rows"
    by (metis map_map map_snd_enumerate)
  show "concat (co_lines (collect_lines cur rows)) = concat (map cells rows)"
    "length (co_marks (collect_lines cur rows)) = length (co_lines (collect_lines cur rows))"
    using collect_fold [of "\<lparr>co_lines = [], co_marks = [], co_cur_line = None, co_cur_col = None\<rparr>" cur
        "enumerate 0 rows"]
    by (simp_all add: collect_lines_def snd)
qed

lemma trim_line_visible: "filter visible_cell (trim_line line) = filter visible_cell line"
proof -
  have "filter visible_cell (dropWhile is_blank xs) = filter visible_cell xs" for xs
    by (induction xs) (simp_all add: visible_cell_def)
  then show ?thesis by (simp add: trim_line_def rev_filter [symmetric])
qed

lemma trim_line_subset: "set (trim_line line) \<subseteq> set line"
  by (auto simp: trim_line_def dest: set_dropWhileD)

definition wrapped_content :: "wrapping \<Rightarrow> cell list" where
  "wrapped_content w = content (wr_buf w) @ filter visible_cell (wr_cells w)"

lemma wrapped_content_cur [simp]:
  "wrapped_content (w\<lparr>wr_cur_row := a, wr_cur_col := b\<rparr>) = wrapped_content w"
  by (simp add: wrapped_content_def)

lemma wrapped_row_content: "filter visible_cell (cells (wrapped_row cs f i cols m)) = filter visible_cell cs"
  by (simp add: wrapped_row_def)

lemma pad_wide_content [simp]: "wrapped_content (pad_wide cols cw w) = wrapped_content w"
  by (simp add: wrapped_content_def pad_wide_def)

lemma flush_row_content [simp]: "wrapped_content (flush_row cols m i cw w) = wrapped_content w"
  by (simp add: wrapped_content_def flush_row_def content_single wrapped_row_content)

lemma emit_cell_content:
  "0 < cw \<Longrightarrow> wrapped_content (emit_cell cols cw c w) = wrapped_content w @ filter visible_cell [c]"
  by (simp add: wrapped_content_def emit_cell_def Let_def)

lemma wrap_cell_content:
  assumes "has_width wd (snd ic)"
  shows "wrapped_content (wrap_cell wd cols m i cur w ic) = wrapped_content w @ filter visible_cell [snd ic]"
proof -
  obtain idx c where ic: "ic = (idx, c)" by fastforce
  show ?thesis
  proof (cases "is_wide_spacer c")
    case True
    then show ?thesis by (simp add: wrap_cell_def ic visible_cell_def)
  next
    case False
    then have cw: "0 < cell_width wd c" using assms ic by (simp add: has_width_def)
    show ?thesis
      using False by (simp add: wrap_cell_def ic Let_def emit_cell_content [OF cw])
  qed
qed

lemma wrap_cells_content:
  assumes "\<forall>c \<in> set line. has_width wd c"
  shows "wrapped_content (wrap_cells wd cols m i cur line w) = content (wr_buf w) @ filter visible_cell line"
proof -
  have fold: "wrapped_content (foldl (wrap_cell wd cols m i cur) v ics)
      = wrapped_content v @ filter visible_cell (map snd ics)"
    if "\<forall>ic \<in> set ics. has_width wd (snd ic)" for v ics
    using that
  proof (induction ics arbitrary: v)
    case (Cons ic ics)
    then show ?case using wrap_cell_content [of wd ic cols m i cur v] by simp
  qed simp
  have "\<forall>ic \<in> set (enumerate 0 line). has_width wd (snd ic)"
  proof
    fix ic assume "ic \<in> set (enumerate 0 line)"
    then have "snd ic \<in> snd ` set (enumerate 0 line)" by (rule imageI)
    then have "snd ic \<in> set line" by (simp flip: set_map)
    then show "has_width wd (snd ic)" using assms by simp
  qed
  from fold [OF this] show ?thesis
    unfolding wrap_cells_def by (simp add: wrapped_content_def)
qed

lemma wrap_line_content:
  assumes "\<forall>c \<in> set (fst (snd il)). has_width wd c"
  shows "content (wr_buf (wrap_line wd cols cur w il)) = content (wr_buf w) @ filter visible_cell (fst (snd il))"
proof -
  obtain i line m where il: "il = (i, line, m)" by (cases il) auto
  have single: "content [(blank_row cols)\<lparr>mark := m\<rparr>] = []"
    by (simp add: content_def blank_row_def)
  have "content (wr_buf v) @ content [wrapped_row (wr_cells v) f i cols m] = wrapped_content v" for v f
    by (simp add: wrapped_content_def content_single wrapped_row_content)
  then show ?thesis
    using wrap_cells_content [of line wd cols m i cur w] assms
    by (simp add: il wrap_line_cells Let_def single)
qed

lemma wrap_lines_content:
  assumes "\<forall>il \<in> set ls. \<forall>c \<in> set (fst (snd il)). has_width wd c"
  shows "content (wr_buf (wrap_lines wd cols li ci ls)) = filter visible_cell (concat (map (fst \<circ> snd) ls))"
proof -
  have "content (wr_buf (foldl (\<lambda>w il. wrap_line wd cols (if li = Some (fst il) then ci else None) w il) w ls))
      = content (wr_buf w) @ filter visible_cell (concat (map (fst \<circ> snd) ls))" for w
    using assms
  proof (induction ls arbitrary: w)
    case (Cons il ls)
    then show ?case
      using wrap_line_content [of il wd cols "if li = Some (fst il) then ci else None" w] by simp
  qed simp
  then show ?thesis by (simp add: wrap_lines_def content_def)
qed

lemma rewrap_content:
  assumes "\<forall>r \<in> set rows. \<forall>c \<in> set (cells r). has_width wd c"
  shows "content (wr_buf (rewrap wd rows cur cols)) = content rows"
proof -
  define co where "co = collect_lines cur rows"
  define lines where "lines = map trim_line (co_lines co)"
  define ls where "ls = enumerate 0 (zip lines (co_marks co))"
  have cat: "concat (co_lines co) = concat (map cells rows)" and len: "length (co_marks co) = length lines"
    by (simp_all add: co_def lines_def collect_lines_concat)
  have lines: "map (fst \<circ> snd) ls = lines"
    using len by (simp add: ls_def flip: map_map)
  have mem: "c \<in> set (concat (co_lines co))" if "il \<in> set ls" "c \<in> set (fst (snd il))" for il c
  proof -
    have "fst (snd il) \<in> set lines" using that(1) lines by force
    then obtain l where "l \<in> set (co_lines co)" "fst (snd il) = trim_line l" by (auto simp: lines_def)
    then show ?thesis using that(2) trim_line_subset by fastforce
  qed
  have "\<forall>il \<in> set ls. \<forall>c \<in> set (fst (snd il)). has_width wd c"
  proof (intro ballI)
    fix il c assume "il \<in> set ls" "c \<in> set (fst (snd il))"
    then have "c \<in> set (concat (map cells rows))" using mem by (simp only: cat)
    then show "has_width wd c" using assms by auto
  qed
  then have "content (wr_buf (rewrap wd rows cur cols)) = filter visible_cell (concat lines)"
    unfolding rewrap_def Let_def co_def [symmetric] lines_def [symmetric] ls_def [symmetric]
    by (simp add: wrap_lines_content lines)
  also have "\<dots> = filter visible_cell (concat (co_lines co))"
    by (simp add: lines_def filter_concat comp_def trim_line_visible)
  finally show ?thesis by (simp add: cat content_def)
qed

text \<open>
  What a reflow loses is a prefix of the oldest content, and only when the scrollback is full;
  everything else is kept, in order.
\<close>

lemma reflow_content:
  assumes width: "\<forall>r \<in> set (sb_rows sb @ g_rows g). \<forall>c \<in> set (cells r). has_width wd c"
    and run: "reflow wd g sb k rows cols = (g', sb', k')"
  shows "\<exists>lost. content (sb_rows sb @ g_rows g) = lost @ content (sb_rows sb' @ g_rows g')
           \<and> (lost \<noteq> [] \<longrightarrow> length (sb_rows sb') = sb_cap sb)"
proof -
  define w where "w = rewrap wd (sb_rows sb @ g_rows g) (length (sb_rows sb) + row k, col k) (max cols 1)"
  define buf where "buf = pad_buf (max rows 1) (max cols 1) (wr_buf w)"
  define n where "n = length buf - max rows 1"
  have g': "g_rows g' = drop n buf"
    and sb': "sb' = foldl (\<lambda>sb r. snd (sb_push r sb)) (sb\<lparr>sb_rows := []\<rparr>) (take n buf)"
    using run by (auto simp: reflow_def Let_def buf_def w_def n_def)
  have rows': "sb_rows sb' = drop (n - sb_cap sb) (take n buf)"
    using sb.run_items [of "sb\<lparr>sb_rows := []\<rparr>" "take n buf"] by (simp add: sb' n_def min_def)
  have "content buf = content (sb_rows sb @ g_rows g)"
    using rewrap_content [OF width] by (simp add: buf_def pad_buf_def w_def)
  moreover have "content buf = content (take (n - sb_cap sb) (take n buf)) @ content (sb_rows sb')
      @ content (g_rows g')"
    by (metis append.assoc append_take_drop_id content_append g' rows')
  moreover have "length (sb_rows sb') = sb_cap sb" if "content (take (n - sb_cap sb) (take n buf)) \<noteq> []"
  proof -
    have "sb_cap sb < n" using that by (cases "n - sb_cap sb") (auto simp: content_def)
    moreover have "n \<le> length buf" by (simp add: n_def)
    ultimately show ?thesis by (simp add: rows')
  qed
  ultimately show ?thesis by (intro exI [of _ "content (take (n - sb_cap sb) (take n buf))"]) simp
qed

end
