(* ===== verification/Emulator.thy ===== *)
theory Emulator
  imports Parser Reflow
begin

text \<open>
  The terminal: \<open>crates/emulator/src/emulator.rs\<close>, a parser and a screen.  \<open>emu_advance\<close> feeds
  bytes, \<open>emu_resize\<close> re-wraps both grids.  \<open>emu_step\<close> is what the daemon may do to a terminal, and
  \<open>reachable_wf\<close> the invariant of every terminal it can get to.
\<close>

record 'v emulator =
  em_parser :: "'v parser"
  em_screen :: screen

definition emu_new :: "'v \<Rightarrow> nat \<Rightarrow> nat \<Rightarrow> 'v emulator" where
  "emu_new v rows cols = \<lparr>em_parser = parser_new v, em_screen = screen_new rows cols\<rparr>"

definition emu_advance ::
  "('v \<Rightarrow> bytes \<Rightarrow> 'v \<times> vte_event list) \<Rightarrow> (rstr \<Rightarrow> nat) \<Rightarrow> (bytes \<Rightarrow> bytes option) \<Rightarrow>
     (rstr \<Rightarrow> rstr list) \<Rightarrow> nat \<Rightarrow> bytes \<Rightarrow> 'v emulator \<Rightarrow> 'v emulator" where
  "emu_advance vadv wd b64 seg now bs e =
     (let (p, s) = parser_advance vadv (screen_step wd b64) seg now bs (em_parser e, em_screen e)
      in e\<lparr>em_parser := p, em_screen := s\<rparr>)"

text \<open>
  The alternate screen and the parked main grid are re-wrapped with a throwaway scrollback of
  capacity zero; the main screen with its own.
\<close>

definition reflow_alt :: "(rstr \<Rightarrow> nat) \<Rightarrow> nat \<Rightarrow> nat \<Rightarrow> grid \<Rightarrow> screen \<Rightarrow> screen" where
  "reflow_alt wd rows cols parked s =
     (let (act, _, k) = reflow wd (active s) (with_cap 0) (cursor s) rows cols;
          parked_cursor = (case saved_cursor s of Some k \<Rightarrow> k | None \<Rightarrow> cursor_default);
          (main, _, pk) = reflow wd parked (with_cap 0) parked_cursor rows cols
      in s\<lparr>active := act, cursor := k, alt := Some main,
           saved_cursor := map_option (\<lambda>_. pk) (saved_cursor s)\<rparr>)"

definition reflow_main :: "(rstr \<Rightarrow> nat) \<Rightarrow> nat \<Rightarrow> nat \<Rightarrow> screen \<Rightarrow> screen" where
  "reflow_main wd rows cols s =
     (let (act, sb, k) = reflow wd (active s) (scrollback s) (cursor s) rows cols
      in s\<lparr>active := act, scrollback := sb, cursor := k\<rparr>)"

definition screen_resize :: "(rstr \<Rightarrow> nat) \<Rightarrow> nat \<Rightarrow> nat \<Rightarrow> screen \<Rightarrow> screen" where
  "screen_resize wd rows0 cols0 s =
     (let rows = max rows0 1;
          cols = max cols0 1;
          s = (case alt s of Some parked \<Rightarrow> reflow_alt wd rows cols parked s
                 | None \<Rightarrow> reflow_main wd rows cols s)
      in s\<lparr>placements := [], tabs := tabs_resize (tabs s) cols, scroll_region := (0, rows - 1)\<rparr>)"

definition emu_resize :: "(rstr \<Rightarrow> nat) \<Rightarrow> nat \<Rightarrow> nat \<Rightarrow> 'v emulator \<Rightarrow> 'v emulator" where
  "emu_resize wd rows cols e = e\<lparr>em_screen := screen_resize wd rows cols (em_screen e)\<rparr>"

section \<open>A resize keeps the screen well formed\<close>

text \<open>
  On the main screen the cursor saved by \<open>ESC 7\<close> is not re-wrapped: it must fit the new size, or
  restoring it leaves the grid.
\<close>

definition saved_fits :: "nat \<Rightarrow> nat \<Rightarrow> screen \<Rightarrow> bool" where
  "saved_fits rows cols s \<longleftrightarrow>
     alt s \<noteq> None \<or> (case saved_cursor s of None \<Rightarrow> True | Some k \<Rightarrow> in_bounds (max rows 1) (max cols 1) k)"

definition size_ok :: "nat \<Rightarrow> nat \<Rightarrow> bool" where
  "size_ok rows cols \<longleftrightarrow> rows \<le> u16_max \<and> cols + 2 \<le> u16_max"

lemma reflow_cap:
  "reflow wd g sb k rows cols = (g', sb', k') \<Longrightarrow> sb_cap sb' = sb_cap sb \<and> sb_ok sb'"
  using sb.run_cap [of "sb\<lparr>sb_rows := []\<rparr>"] sb.run_bound [of "sb\<lparr>sb_rows := []\<rparr>"]
  by (auto simp: reflow_def Let_def sb_ok_def)

lemma max_1_idem [simp]: "max (max n 1) 1 = max n (1 :: nat)"
  by simp

lemma reflow_wf:
  assumes "size_ok rows cols" and "reflow wd g sb k (max rows 1) (max cols 1) = (g', sb', k')"
  shows "grid_wf g' \<and> length (g_rows g') = max rows 1 \<and> g_cols g' = max cols 1
     \<and> in_bounds (max rows 1) (max cols 1) k'"
proof -
  have b: "max rows 1 \<le> u16_max" "max cols 1 + 2 \<le> u16_max"
    using assms(1) by (auto simp: size_ok_def u16_max_def max_def)
  show ?thesis
    using reflow_grid [OF b assms(2)] reflow_cursor [OF assms(2)]
    by (auto simp: in_bounds_def)
qed

lemma reflow_alt_wf:
  assumes s: "screen_wf s" "alt s = Some parked" and b: "size_ok rows cols"
  shows "screen_wf ((reflow_alt wd (max rows 1) (max cols 1) parked s)\<lparr>placements := [],
     tabs := tabs_resize (tabs s) (max cols 1), scroll_region := (0, max rows 1 - 1)\<rparr>)"
proof -
  obtain act sb k where a: "reflow wd (active s) (with_cap 0) (cursor s) (max rows 1) (max cols 1) = (act, sb, k)"
    using prod_cases3 by blast
  obtain main sb' pk where m: "reflow wd parked (with_cap 0)
      (case saved_cursor s of Some k \<Rightarrow> k | None \<Rightarrow> cursor_default) (max rows 1) (max cols 1) = (main, sb', pk)"
    using prod_cases3 by blast
  have "max cols 1 \<le> u16_max" using b by (auto simp: size_ok_def)
  then show ?thesis
    using s reflow_wf [OF b a] reflow_wf [OF b m]
    by (simp add: screen_wf_def reflow_alt_def a m cur_ok_def same_dims_def tabs_resize_length
        map_option_case split: option.splits del: One_nat_def)
qed

lemma reflow_main_wf:
  assumes s: "screen_wf s" "alt s = None" and b: "size_ok rows cols" "saved_fits rows cols s"
  shows "screen_wf ((reflow_main wd (max rows 1) (max cols 1) s)\<lparr>placements := [],
     tabs := tabs_resize (tabs s) (max cols 1), scroll_region := (0, max rows 1 - 1)\<rparr>)"
proof -
  obtain act sb k where a: "reflow wd (active s) (scrollback s) (cursor s) (max rows 1) (max cols 1) = (act, sb, k)"
    using prod_cases3 by blast
  have "max cols 1 \<le> u16_max" using b by (auto simp: size_ok_def)
  then show ?thesis
    using s b reflow_wf [OF b(1) a] reflow_cap [OF a]
    by (simp add: screen_wf_def reflow_main_def a cur_ok_def saved_fits_def tabs_resize_length
        split: option.splits del: One_nat_def)
qed

lemma reflow_tabs [simp]:
  "tabs (reflow_alt wd rows cols p s) = tabs s" "tabs (reflow_main wd rows cols s) = tabs s"
  by (simp_all add: reflow_alt_def reflow_main_def Let_def split: prod.splits)

lemma screen_resize_wf:
  assumes "screen_wf s" "size_ok rows cols" "saved_fits rows cols s"
  shows "screen_wf (screen_resize wd rows cols s)"
  using reflow_alt_wf [OF assms(1) _ assms(2)] reflow_main_wf [OF assms(1) _ assms(2,3)]
  by (simp add: screen_resize_def Let_def split: option.split)

section \<open>Reachable terminals\<close>

inductive emu_step ::
  "('v \<Rightarrow> bytes \<Rightarrow> 'v \<times> vte_event list) \<Rightarrow> (rstr \<Rightarrow> nat) \<Rightarrow> (bytes \<Rightarrow> bytes option) \<Rightarrow>
     (rstr \<Rightarrow> rstr list) \<Rightarrow> 'v emulator \<Rightarrow> 'v emulator \<Rightarrow> bool"
  for vadv wd b64 seg
where
  step_feed: "emu_step vadv wd b64 seg e (emu_advance vadv wd b64 seg now bs e)"
| step_resize: "size_ok rows cols \<Longrightarrow> saved_fits rows cols (em_screen e) \<Longrightarrow>
    emu_step vadv wd b64 seg e (emu_resize wd rows cols e)"
| step_replies: "emu_step vadv wd b64 seg e (e\<lparr>em_screen := snd (take_replies (em_screen e))\<rparr>)"
| step_clipboard: "emu_step vadv wd b64 seg e (e\<lparr>em_screen := snd (take_clipboard_writes (em_screen e))\<rparr>)"
| step_colors: "emu_step vadv wd b64 seg e (e\<lparr>em_screen := snd (take_color_queries (em_screen e))\<rparr>)"
| step_bell: "emu_step vadv wd b64 seg e (e\<lparr>em_screen := snd (take_bell (em_screen e))\<rparr>)"
| step_notes: "emu_step vadv wd b64 seg e (e\<lparr>em_screen := snd (take_notifications (em_screen e))\<rparr>)"
| step_pixels: "emu_step vadv wd b64 seg e (e\<lparr>em_screen := set_pixel_area w h (em_screen e)\<rparr>)"
| step_term: "emu_step vadv wd b64 seg e (e\<lparr>em_screen := set_term t (em_screen e)\<rparr>)"
| step_scheme: "emu_step vadv wd b64 seg e (e\<lparr>em_screen := set_color_scheme sch (em_screen e)\<rparr>)"

inductive emu_reachable ::
  "('v \<Rightarrow> bytes \<Rightarrow> 'v \<times> vte_event list) \<Rightarrow> (rstr \<Rightarrow> nat) \<Rightarrow> (bytes \<Rightarrow> bytes option) \<Rightarrow>
     (rstr \<Rightarrow> rstr list) \<Rightarrow> 'v emulator \<Rightarrow> 'v emulator \<Rightarrow> bool"
  for vadv wd b64 seg e0
where
  reach_refl: "emu_reachable vadv wd b64 seg e0 e0"
| reach_step: "emu_reachable vadv wd b64 seg e0 e \<Longrightarrow> emu_step vadv wd b64 seg e e' \<Longrightarrow>
    emu_reachable vadv wd b64 seg e0 e'"

inductive_cases emu_stepE: "emu_step vadv wd b64 seg e e'"

definition emu_ok :: "'v emulator \<Rightarrow> bool" where
  "emu_ok e \<longleftrightarrow> screen_wf (em_screen e) \<and> parser_bounded (em_parser e)"

lemma emu_new_ok:
  assumes "rows \<le> u16_max" "cols \<le> u16_max"
  shows "emu_ok (emu_new v rows cols)"
  using screen_new_wf [OF assms]
  by (simp add: emu_ok_def emu_new_def parser_bounded_def parser_new_def utf8_len_def)

lemma emu_advance_ok:
  assumes "emu_ok e" shows "emu_ok (emu_advance vadv wd b64 seg now bs e)"
proof -
  obtain p s where ps: "parser_advance vadv (screen_step wd b64) seg now bs (em_parser e, em_screen e) = (p, s)"
    by fastforce
  have "screen_wf (em_screen e)" "parser_bounded (fst (em_parser e, em_screen e))"
    using assms by (simp_all add: emu_ok_def)
  then have "screen_wf s" "parser_bounded p"
    using parser_advance_keeps [of screen_wf "(em_parser e, em_screen e)" "screen_step wd b64", OF _ wf_screen_step]
      parser_advance_bounded [of "(em_parser e, em_screen e)" vadv "screen_step wd b64" seg now bs] ps
    by (metis fst_conv snd_conv)+
  then show ?thesis by (simp add: emu_ok_def emu_advance_def ps)
qed

lemma drains_wf [simp]:
  "screen_wf (snd (take_replies s)) = screen_wf s"
  "screen_wf (snd (take_clipboard_writes s)) = screen_wf s"
  "screen_wf (snd (take_color_queries s)) = screen_wf s"
  "screen_wf (snd (take_bell s)) = screen_wf s"
  "screen_wf s \<Longrightarrow> screen_wf (snd (take_notifications s))"
  "screen_wf (set_pixel_area w h s) = screen_wf s"
  "screen_wf (set_term t s) = screen_wf s"
  "screen_wf (set_color_scheme sch s) = screen_wf s"
  by (simp_all add: screen_wf_def cur_ok_def take_replies_def take_clipboard_writes_def
      take_color_queries_def take_bell_def take_notifications_def set_pixel_area_def set_term_def
      set_color_scheme_def)

lemma emu_step_ok: "emu_step vadv wd b64 seg e e' \<Longrightarrow> emu_ok e \<Longrightarrow> emu_ok e'"
proof (induction rule: emu_step.induct)
  case (step_resize rows cols e)
  then show ?case by (simp add: emu_ok_def emu_resize_def screen_resize_wf)
qed (simp_all add: emu_advance_ok, simp_all add: emu_ok_def)

lemma emu_reachable_ok: "emu_reachable vadv wd b64 seg e0 e \<Longrightarrow> emu_ok e0 \<Longrightarrow> emu_ok e"
  by (induction rule: emu_reachable.induct) (auto intro: emu_step_ok)

end
