(* ===== verification/Screen_Alt.thy ===== *)
theory Screen_Alt
  imports Screen_Osc
begin

text \<open>
  Isolation of the alternate screen.  While it is on, the main grid is parked in \<open>alt\<close>; no event
  but a switch back, a full reset or an erase of the scrollback (\<open>ED 3\<close>) touches the parked grid,
  the scrollback or the image placements of the main screen.
\<close>

definition main_view :: "screen \<Rightarrow> grid option \<times> scrollback \<times> placement list" where
  "main_view s = (alt s, scrollback s, placements s)"

definition isolated :: "grid \<times> scrollback \<times> placement list \<Rightarrow> screen \<Rightarrow> bool" where
  "isolated v s \<longleftrightarrow> main_view s = (Some (fst v), snd v)"

lemma isolated_alt: "isolated v s \<Longrightarrow> alt s = Some (fst v)"
  by (simp add: isolated_def main_view_def)

lemma isolated_upd [simp]:
  "isolated v (upd_cur f s) = isolated v s" "isolated v (set_col c s) = isolated v s"
  "isolated v (set_row c s) = isolated v s" "isolated v (set_wrap b s) = isolated v s"
  "isolated v (s\<lparr>active := a\<rparr>) = isolated v s" "isolated v (s\<lparr>cursor := k\<rparr>) = isolated v s"
  "isolated v (s\<lparr>last_graphic := lg\<rparr>) = isolated v s" "isolated v (s\<lparr>tabs := t\<rparr>) = isolated v s"
  "isolated v (s\<lparr>saved_cursor := sc\<rparr>) = isolated v s" "isolated v (s\<lparr>modes := m\<rparr>) = isolated v s"
  "isolated v (s\<lparr>scroll_region := sr\<rparr>) = isolated v s" "isolated v (s\<lparr>kbd := kb\<rparr>) = isolated v s"
  "isolated v (s\<lparr>replies := rp\<rparr>) = isolated v s" "isolated v (s\<lparr>title := ti\<rparr>) = isolated v s"
  "isolated v (s\<lparr>icon_title := ti\<rparr>) = isolated v s" "isolated v (s\<lparr>cwd := wdir\<rparr>) = isolated v s"
  "isolated v (s\<lparr>hyperlinks := hl\<rparr>) = isolated v s" "isolated v (s\<lparr>bell_pending := bp\<rparr>) = isolated v s"
  "isolated v (s\<lparr>gl := gs\<rparr>) = isolated v s" "isolated v (s\<lparr>charset_g0 := cs\<rparr>) = isolated v s"
  "isolated v (s\<lparr>charset_g1 := cs\<rparr>) = isolated v s"
  "isolated v (s\<lparr>pending_notifications := pn\<rparr>) = isolated v s"
  "isolated v (s\<lparr>clipboard_writes := cw\<rparr>) = isolated v s"
  "isolated v (s\<lparr>color_queries := cq\<rparr>) = isolated v s"
  by (simp_all add: isolated_def main_view_def upd_cur_def set_col_def set_row_def set_wrap_def)

lemma isolated_if: "isolated v a \<Longrightarrow> isolated v b \<Longrightarrow> isolated v (if c then a else b)"
  by simp

section \<open>Printing and line feeds\<close>

lemma scroll_loop_None: "snd ((scroll_up_once c tp bt ^^ n) (rows, None)) = None"
  by (induction n) (auto simp: scroll_up_once_def split_beta)

lemma isolated_scroll [simp]:
  assumes "isolated v s" shows "isolated v (scroll_up_feed tp bt n s)"
proof -
  have "snd (scroll_up (active s) tp bt n None) = None"
    using scroll_loop_None by (simp add: scroll_up_def Let_def split: prod.splits) (metis snd_conv)
  then have "scroll_up_feed tp bt n s = s\<lparr>active := fst (scroll_up (active s) tp bt n None)\<rparr>"
    using isolated_alt [OF assms] by (cases "scroll_up (active s) tp bt n None") (simp add: scroll_up_feed_def)
  with assms show ?thesis by simp
qed

lemma isolated_advance [simp]: "isolated v s \<Longrightarrow> isolated v (advance_to_next_row soft s)"
  by (simp add: advance_to_next_row_def Let_def split: prod.splits)

lemma isolated_printing [simp]:
  "isolated v (put_cell_at_cursor x s) = isolated v s"
  "isolated v (clear_wide_straddle wd a b s) = isolated v s"
  "isolated v (append_grapheme r c g s) = isolated v s"
  by (simp_all add: put_cell_at_cursor_def clear_wide_straddle_def append_grapheme_def Let_def
      split: option.splits)

lemma isolated_clusters:
  assumes "isolated v s"
  shows "isolated v (resolve_wrap s)" "isolated v (make_room_wide wd w s)"
    "isolated v (write_cluster wd w g s)" "isolated v (step_right s)" "isolated v (attach_zero_width g s)"
  using assms
  by (simp_all add: resolve_wrap_def make_room_wide_def write_cluster_def step_right_def
      attach_zero_width_def Let_def split: option.split)

lemma isolated_put_grapheme [simp]: "isolated v s \<Longrightarrow> isolated v (put_grapheme wd g s)"
  unfolding put_grapheme_def Let_def
  by (intro isolated_if isolated_clusters) simp_all

lemma isolated_execute_c0: "isolated v s \<Longrightarrow> isolated v (execute_c0 b s)"
  by (simp add: execute_c0_def Let_def)

lemma isolated_escapes:
  assumes "isolated v s"
  shows "isolated v (decaln s)" "isolated v (designate slot b s)" "isolated v (reverse_index s)"
    "isolated v (case saved_cursor s of Some c \<Rightarrow> set_wrap False (s\<lparr>cursor := c\<rparr>) | None \<Rightarrow> s)"
  using assms
  by (simp_all add: decaln_def designate_def reverse_index_def Let_def split: option.split prod.split)

lemma isolated_if_esc:
  "b \<noteq> c \<Longrightarrow> isolated v y \<Longrightarrow> isolated v (if b = c then full_reset s else y)"
  by simp

lemma isolated_handle_esc:
  assumes "isolated v s" "ints \<noteq> [] \<or> b \<noteq> chr CHR ''c''"
  shows "isolated v (handle_esc ints b s)"
proof (cases "ints = []")
  case True
  have "isolated v (s\<lparr>last_graphic := None\<rparr>)" using assms(1) by simp
  then have "isolated v (handle_esc [] b s)"
    unfolding handle_esc_def Let_def using assms(2) True
    by (intro isolated_if_esc isolated_if isolated_escapes) simp_all
  then show ?thesis using True by simp
next
  case False
  then show ?thesis
    using assms(1) by (simp add: handle_esc_def isolated_escapes)
qed

section \<open>CSI\<close>

lemma isolated_csi_moves [simp]:
  assumes "isolated v s"
  shows "isolated v (csi_cuu ps s)" "isolated v (csi_cud ps s)" "isolated v (csi_cuf ps s)"
    "isolated v (csi_cub ps s)" "isolated v (csi_cnl ps s)" "isolated v (csi_cpl ps s)"
    "isolated v (csi_cha ps s)" "isolated v (csi_cup ps s)" "isolated v (csi_vpa ps s)"
    "isolated v (csi_cht ps s)" "isolated v (csi_cbt ps s)"
  using assms
  by (simp_all add: csi_cuu_def csi_cud_def csi_cuf_def csi_cub_def csi_cnl_def csi_cpl_def
      csi_cha_def csi_cup_def csi_vpa_def csi_cht_def csi_cbt_def)

lemma isolated_rep [simp]:
  assumes "isolated v s" shows "isolated v (csi_rep wd g ps s)"
proof -
  have "isolated v ((put_grapheme wd c ^^ n) s)" for c n
    using assms by (induction n) simp_all
  with assms show ?thesis by (simp add: csi_rep_def split: option.split)
qed

lemma isolated_erase [simp]: "isolated v (erase wd a b c d s) = isolated v s"
  by (simp add: erase_def)

lemma isolated_csi_edits [simp]:
  assumes "isolated v s"
  shows "param_or 0 ps 0 \<noteq> 3 \<Longrightarrow> isolated v (csi_ed wd ps s)"
    "isolated v (csi_el wd ps s)" "isolated v (csi_ech wd ps s)" "isolated v (csi_ich wd ps s)"
    "isolated v (csi_dch wd ps s)" "isolated v (csi_decstbm ps s)" "isolated v (csi_su ps s)"
    "isolated v (csi_sd ps s)" "isolated v (csi_il ps s)" "isolated v (csi_dl ps s)"
    "isolated v (csi_tbc ps s)"
  using assms
  by (simp_all add: csi_ed_def csi_el_def csi_ech_def csi_ich_def csi_dch_def csi_decstbm_def
      csi_su_def csi_sd_def csi_il_def csi_dl_def csi_tbc_def Let_def split: prod.splits)

lemma isolated_reports [simp]:
  assumes "isolated v s"
  shows "isolated v (csi_dsr ps ints s)" "isolated v (csi_da ints s)" "isolated v (csi_q ps ints s)"
    "isolated v (csi_window_op ps s)" "isolated v (csi_p ps ints s)"
    "isolated v (handle_kitty_kbd ps ints s)"
  using assms
  by (simp_all add: csi_dsr_def csi_da_def csi_q_def csi_window_op_def csi_p_def reply_def
      handle_decrqm_def handle_decstr_def handle_kitty_kbd_def Let_def split: prod.splits option.splits)

lemma isolated_m [simp]: "isolated v s \<Longrightarrow> isolated v (csi_m ps ints s)"
  by (simp add: csi_m_def handle_xtmodkeys_def xtqmodkeys_report_def handle_sgr_def reply_def
      split: prod.splits option.splits)

text \<open>Setting modes stays in the alternate screen; resetting them may leave it.\<close>

lemma isolated_set_mode [simp]:
  assumes "isolated v s" shows "isolated v (set_mode ps ints True s)"
  unfolding set_mode_def
proof (rule foldl_inv [where P = "isolated v"])
  fix t p assume "isolated v t"
  then show "isolated v (case p of [] \<Rightarrow> t
      | code # _ \<Rightarrow> if head_opt ints = Some CHR ''?'' then set_dec_private_mode code True t else t)"
    using isolated_alt [of v t]
    by (auto simp: set_dec_private_mode_def set_flag_def enter_alt_screen_def Let_def
        split: list.splits option.splits)
qed (rule assms)

definition returned :: "grid \<times> scrollback \<times> placement list \<Rightarrow> screen \<Rightarrow> bool" where
  "returned v s \<longleftrightarrow> alt s = None \<and> active s = fst v \<and> (scrollback s, placements s) = snd v"

lemma returned_upd [simp]:
  "returned v (upd_cur f s) = returned v s" "returned v (s\<lparr>modes := m\<rparr>) = returned v s"
  by (simp_all add: returned_def upd_cur_def)

lemma reset_private:
  assumes "isolated v s \<or> returned v s"
  shows "isolated v (set_dec_private_mode code False s) \<or> returned v (set_dec_private_mode code False s)"
proof -
  have "returned v (leave_alt_screen s)" if "isolated v s"
    using that by (auto simp: leave_alt_screen_def returned_def isolated_def main_view_def Let_def
        split: option.split)
  moreover have "leave_alt_screen s = s" if "returned v s"
    using that by (simp add: leave_alt_screen_def returned_def)
  ultimately show ?thesis
    using assms by (auto simp: set_dec_private_mode_def set_flag_def Let_def split: option.splits)
qed

lemma reset_modes:
  assumes "isolated v s"
  shows "isolated v (set_mode ps ints False s) \<or> returned v (set_mode ps ints False s)"
  unfolding set_mode_def
proof (rule foldl_inv [where P = "\<lambda>s. isolated v s \<or> returned v s"])
  fix t p assume "isolated v t \<or> returned v t"
  then show "isolated v (case p of [] \<Rightarrow> t
        | code # _ \<Rightarrow> if head_opt ints = Some CHR ''?'' then set_dec_private_mode code False t else t)
      \<or> returned v (case p of [] \<Rightarrow> t
        | code # _ \<Rightarrow> if head_opt ints = Some CHR ''?'' then set_dec_private_mode code False t else t)"
    using reset_private by (auto split: list.split)
qed (use assms in simp)

lemma isolated_if_l: "f \<noteq> CHR ''l'' \<Longrightarrow> isolated v b \<Longrightarrow> isolated v (if f = CHR ''l'' then a else b)"
  by simp

lemma isolated_if_J:
  "(f = CHR ''J'' \<Longrightarrow> isolated v a) \<Longrightarrow> isolated v b \<Longrightarrow> isolated v (if f = CHR ''J'' then a else b)"
  by simp

lemma isolated_handle_csi:
  assumes "isolated v s" "\<not> (f = CHR ''J'' \<and> param_or 0 ps 0 = 3)"
  shows "isolated v (handle_csi wd ps ints f s) \<or> returned v (handle_csi wd ps ints f s)"
proof (cases "f = CHR ''l''")
  case True
  then show ?thesis
    using reset_modes [of v "s\<lparr>last_graphic := None\<rparr>" ps ints] assms(1)
    by (simp add: handle_csi_def Let_def)
next
  case False
  have "isolated v (s\<lparr>last_graphic := None\<rparr>)" using assms(1) by simp
  then have "isolated v (handle_csi wd ps ints f s)"
    unfolding handle_csi_def Let_def using assms(2) False
    by (intro isolated_if_l isolated_if_J isolated_if isolated_csi_moves isolated_csi_edits isolated_rep
        isolated_m isolated_set_mode isolated_reports) blast+
  then show ?thesis ..
qed

section \<open>OSC, DCS, APC\<close>

lemma isolated_handle_osc: "isolated v s \<Longrightarrow> isolated v (handle_osc b64 now ps s)"
  by (frule isolated_alt)
    (simp add: handle_osc_def osc_notify_def push_notification_def osc_hyperlink_def
      handle_osc_color_query_def handle_osc_52_def handle_osc_133_def handle_iterm_def Let_def
      split: list.splits option.splits prod.splits)

lemma isolated_xtgettcap: "isolated v s \<Longrightarrow> isolated v (xtgettcap payload s)"
  by (auto simp: xtgettcap_def xtgettcap_one_def reply_def intro!: foldl_inv [where P = "isolated v"]
      split: option.splits)

lemma isolated_strings:
  "isolated v s \<Longrightarrow> isolated v (handle_dcs ints f ps payload s)"
  "isolated v s \<Longrightarrow> isolated v (handle_graphics b64 framed s)"
  by (auto dest: isolated_alt simp: handle_dcs_def handle_sixel_def handle_graphics_def isolated_xtgettcap)

section \<open>Every event\<close>

fun disturbs_main :: "event \<Rightarrow> bool" where
  "disturbs_main (Esc ints b) \<longleftrightarrow> ints = [] \<and> b = chr CHR ''c''"
| "disturbs_main (Csi ps ints f) \<longleftrightarrow> f = CHR ''J'' \<and> param_or 0 ps 0 = 3"
| "disturbs_main _ \<longleftrightarrow> False"

lemma alt_step:
  assumes "isolated v s" "\<not> disturbs_main e"
  shows "isolated v (screen_step wd b64 s e) \<or> returned v (screen_step wd b64 s e)"
proof (cases e)
  case (Esc ints b)
  with assms have "isolated v (handle_esc ints b s)" by (intro isolated_handle_esc) auto
  then show ?thesis by (simp add: screen_step_def Esc)
next
  case (Csi ps ints f)
  with assms isolated_handle_csi [of v s f ps wd ints] show ?thesis by (simp add: screen_step_def)
qed (use assms in \<open>simp_all add: screen_step_def isolated_execute_c0 isolated_handle_osc isolated_strings\<close>)

lemma alt_run:
  assumes "isolated v s" "list_all (\<lambda>e. \<not> disturbs_main e) es"
  shows "isolated v (run wd b64 s es) \<or> (\<exists>n \<le> length es. returned v (run wd b64 s (take n es)))"
  using assms
proof (induction es arbitrary: s)
  case (Cons e es)
  let ?t = "screen_step wd b64 s e"
  from Cons.prems have "isolated v ?t \<or> returned v ?t" by (intro alt_step) simp_all
  then show ?case
  proof
    assume "isolated v ?t"
    with Cons have "isolated v (run wd b64 ?t es) \<or> (\<exists>n \<le> length es. returned v (run wd b64 ?t (take n es)))"
      by simp
    then show ?thesis
      by (auto simp: run_def intro: exI [where x = "Suc _"])
  next
    assume "returned v ?t"
    then show ?thesis by (intro disjI2 exI [of _ 1]) (simp add: run_def)
  qed
qed (simp add: run_def)

end
