(* ===== verification/Screen_Pairs.thy ===== *)
theory Screen_Pairs
  imports Screen_Inv
begin

text \<open>
  Wide pairs on the screen.  A two-column cluster occupies a cell and the spacer to its right;
  every operation keeps each row paired (what \<open>prop_erase.rs\<close> and \<open>prop_put.rs\<close> test), as long
  as the printed clusters have a width and the grid has two columns.  Zero-width clusters append
  to an existing cell and are excluded here.
\<close>

section \<open>Overwriting cells in a paired row\<close>

definition straddle_cells :: "(rstr \<Rightarrow> nat) \<Rightarrow> nat \<Rightarrow> nat \<Rightarrow> cell list \<Rightarrow> cell list" where
  "straddle_cells wd a b cs =
     (let cs = (if 0 < a \<and> a < length cs \<and> is_wide_spacer (cs ! a) then cs[a - 1 := default_cell] else cs)
      in if b < length cs \<and> is_wide wd (cs ! b) then cs[b + 1 := default_cell] else cs)"

lemma straddle_cells_length [simp]: "length (straddle_cells wd a b cs) = length cs"
  by (simp add: straddle_cells_def Let_def)

lemma pairs_okI:
  assumes "\<And>i. i < length cs \<Longrightarrow> is_wide_spacer (cs ! i) \<Longrightarrow> 0 < i \<and> is_wide wd (cs ! (i - 1))"
    and "\<And>i. i < length cs \<Longrightarrow> is_wide wd (cs ! i) \<Longrightarrow> i + 1 < length cs \<and> is_wide_spacer (cs ! (i + 1))"
  shows "pairs_ok wd cs"
  using assms by (auto simp: pairs_ok_def pair_ok_at_def)

lemma pairs_okD:
  assumes "pairs_ok wd cs" "i < length cs"
  shows "is_wide_spacer (cs ! i) \<Longrightarrow> 0 < i \<and> is_wide wd (cs ! (i - 1))"
    "is_wide wd (cs ! i) \<Longrightarrow> i + 1 < length cs \<and> is_wide_spacer (cs ! (i + 1))"
  using assms by (auto simp: pairs_ok_def pair_ok_at_def)

text \<open>The cells the straddle clears, by their condition on the row as it was.\<close>

definition cleared :: "(rstr \<Rightarrow> nat) \<Rightarrow> nat \<Rightarrow> nat \<Rightarrow> cell list \<Rightarrow> nat \<Rightarrow> bool" where
  "cleared wd a b cs i \<longleftrightarrow>
     (0 < a \<and> is_wide_spacer (cs ! a) \<and> i + 1 = a) \<or> (is_wide wd (cs ! b) \<and> i = b + 1)"

lemma straddle_nth:
  assumes "a \<le> b" "b < length cs" "i < length cs"
  shows "straddle_cells wd a b cs ! i = (if cleared wd a b cs i then default_cell else cs ! i)"
proof -
  have "a - 1 \<noteq> b" if "0 < a" using assms that by simp
  then show ?thesis
    using assms by (auto simp: straddle_cells_def Let_def cleared_def nth_list_update)
qed

text \<open>
  After the straddle is cleared, the cells around the written span depend on nothing inside it: no
  spacer follows the span and no wide cell precedes it.
\<close>

lemma straddle_spacer:
  assumes w: "width_ok wd" and ok: "pairs_ok wd cs" and ab: "a \<le> b" "b < length cs"
    and i: "i < a \<or> b < i" "i < length cs" and sp: "is_wide_spacer (straddle_cells wd a b cs ! i)"
  shows "0 < i \<and> is_wide wd (straddle_cells wd a b cs ! (i - 1)) \<and> (i - 1 < a \<or> b < i - 1)"
proof -
  have nc: "\<not> cleared wd a b cs i" and s: "is_wide_spacer (cs ! i)"
    using sp i ab by (auto simp: straddle_nth split: if_splits)
  have W: "0 < i" "is_wide wd (cs ! (i - 1))" using pairs_okD(1) [OF ok i(2) s] by simp_all
  have out: "i - 1 < a \<or> b < i - 1"
  proof (rule ccontr)
    assume "\<not> ?thesis"
    then have "i = b + 1" using i W by auto
    then show False using W nc by (simp add: cleared_def)
  qed
  have "\<not> cleared wd a b cs (i - 1)"
  proof
    assume c: "cleared wd a b cs (i - 1)"
    then have "i - 1 = b + 1 \<and> is_wide wd (cs ! b)"
      using W(1) i ab by (auto simp: cleared_def)
    then have "is_wide_spacer (cs ! (i - 1))"
      using pairs_okD(2) [OF ok ab(2)] by auto
    then show False using W(2) is_wide_not_spacer [OF w] by blast
  qed
  then show ?thesis using W out i ab by (simp add: straddle_nth)
qed

lemma straddle_wide:
  assumes w: "width_ok wd" and ok: "pairs_ok wd cs" and ab: "a \<le> b" "b < length cs"
    and i: "i < a \<or> b < i" "i < length cs" and wi: "is_wide wd (straddle_cells wd a b cs ! i)"
  shows "i + 1 < length cs \<and> is_wide_spacer (straddle_cells wd a b cs ! (i + 1)) \<and> (i + 1 < a \<or> b < i + 1)"
proof -
  have nc: "\<not> cleared wd a b cs i" and s: "is_wide wd (cs ! i)"
    using wi i ab w by (auto simp: straddle_nth split: if_splits)
  have S: "i + 1 < length cs" "is_wide_spacer (cs ! (i + 1))" using pairs_okD(2) [OF ok i(2) s] by simp_all
  have out: "i + 1 < a \<or> b < i + 1"
  proof (rule ccontr)
    assume "\<not> ?thesis"
    then have "i + 1 = a" using i by auto
    then show False using S nc by (simp add: cleared_def)
  qed
  have "\<not> cleared wd a b cs (i + 1)"
  proof
    assume c: "cleared wd a b cs (i + 1)"
    then have "0 < a" "i + 2 = a" "is_wide_spacer (cs ! a)"
      using i ab by (auto simp: cleared_def)
    then have "is_wide wd (cs ! (i + 1))"
      using pairs_okD(1) [OF ok, of a] ab by (auto simp flip: \<open>i + 2 = a\<close>)
    then show False using S(2) is_wide_not_spacer [OF w] by blast
  qed
  then show ?thesis using S out i ab by (simp add: straddle_nth)
qed

lemma write_narrow_pairs:
  assumes "width_ok wd" "pairs_ok wd cs" "c < length cs" "\<not> is_wide wd x" "\<not> is_wide_spacer x"
  shows "pairs_ok wd ((straddle_cells wd c c cs)[c := x])"
proof (rule pairs_okI)
  fix i assume i: "i < length ((straddle_cells wd c c cs)[c := x])"
  note sp = straddle_spacer [OF assms(1,2) order_refl assms(3), of i, folded nat_neq_iff]
  note wi = straddle_wide [OF assms(1,2) order_refl assms(3), of i, folded nat_neq_iff]
  show "0 < i \<and> is_wide wd ((straddle_cells wd c c cs)[c := x] ! (i - 1))"
    if "is_wide_spacer ((straddle_cells wd c c cs)[c := x] ! i)"
    using that i sp assms by (cases "i = c") (auto simp: nth_list_update)
  show "i + 1 < length ((straddle_cells wd c c cs)[c := x])
      \<and> is_wide_spacer ((straddle_cells wd c c cs)[c := x] ! (i + 1))"
    if "is_wide wd ((straddle_cells wd c c cs)[c := x] ! i)"
    using that i wi assms by (cases "i = c") (auto simp: nth_list_update)
qed

lemma write_wide_pairs:
  assumes "width_ok wd" "pairs_ok wd cs" "c + 1 < length cs" "is_wide wd x" "\<not> is_wide_spacer x"
  shows "pairs_ok wd ((straddle_cells wd c (c + 1) cs)[c := x, c + 1 := wide_spacer])"
proof (rule pairs_okI)
  let ?ds = "straddle_cells wd c (c + 1) cs"
  fix i assume i: "i < length (?ds[c := x, c + 1 := wide_spacer])"
  have le: "c \<le> c + 1" by simp
  note sp = straddle_spacer [OF assms(1,2) le assms(3), of i]
  note wi = straddle_wide [OF assms(1,2) le assms(3), of i]
  have cases: "i = c \<or> i = c + 1 \<or> i < c \<or> c + 1 < i" by linarith
  from cases show "0 < i \<and> is_wide wd (?ds[c := x, c + 1 := wide_spacer] ! (i - 1))"
    if "is_wide_spacer (?ds[c := x, c + 1 := wide_spacer] ! i)"
    using that i sp assms by (auto simp: nth_list_update)
  from cases show "i + 1 < length (?ds[c := x, c + 1 := wide_spacer])
      \<and> is_wide_spacer (?ds[c := x, c + 1 := wide_spacer] ! (i + 1))"
    if "is_wide wd (?ds[c := x, c + 1 := wide_spacer] ! i)"
    using that i wi assms by (auto simp: nth_list_update)
qed

section \<open>The hypotheses about widths\<close>

definition good_cluster :: "(rstr \<Rightarrow> nat) \<Rightarrow> rstr \<Rightarrow> bool" where
  "good_cluster wd g \<longleftrightarrow> 0 < wd g \<and> wd g \<le> u16_max"

text \<open>What is used of \<open>unicode-width\<close>: ASCII and the line-drawing glyphs have a width.\<close>

definition glyphs_ok :: "(rstr \<Rightarrow> nat) \<Rightarrow> bool" where
  "glyphs_ok wd \<longleftrightarrow> width_ok wd \<and> (\<forall>b < 127. \<forall>g. dec_special_graphic b = Some g \<longrightarrow> good_cluster wd g)"

fun event_ok :: "(rstr \<Rightarrow> nat) \<Rightarrow> event \<Rightarrow> bool" where
  "event_ok wd (Print g) \<longleftrightarrow> good_cluster wd g"
| "event_ok wd _ \<longleftrightarrow> True"

definition screen_pairs :: "(rstr \<Rightarrow> nat) \<Rightarrow> screen \<Rightarrow> bool" where
  "screen_pairs wd s \<longleftrightarrow> 2 \<le> g_cols (active s) \<and> grid_pairs wd (active s)
     \<and> (\<forall>g. alt s = Some g \<longrightarrow> grid_pairs wd g)
     \<and> (\<forall>g. last_graphic s = Some g \<longrightarrow> good_cluster wd g)"

lemma good_nonempty: "width_ok wd \<Longrightarrow> good_cluster wd g \<Longrightarrow> g \<noteq> []"
  by (auto simp: good_cluster_def width_ok_simps)

lemma good_mapped:
  assumes "glyphs_ok wd" "good_cluster wd g" shows "good_cluster wd (mapped_cluster s g)"
proof -
  have "b < 127" if "dec_special_graphic b = Some x" for b x
    using that by (auto simp: dec_special_graphic_def split: if_splits)
  then show ?thesis
    using assms
    by (auto simp: mapped_cluster_def glyphs_ok_def split: charset.splits list.splits option.splits)
qed

lemma good_as_u16: "good_cluster wd g \<Longrightarrow> as_u16 (wd g) = wd g"
  by (simp add: good_cluster_def as_u16_id)

lemma good_wide: "good_cluster wd g \<Longrightarrow> is_wide wd (cursor_cell g k) \<longleftrightarrow> 2 \<le> wd g"
  by (simp add: is_wide_def cursor_cell_def)

section \<open>Writing at the cursor\<close>

definition at_row :: "nat \<Rightarrow> (cell list \<Rightarrow> cell list) \<Rightarrow> grid \<Rightarrow> grid" where
  "at_row r f g = map_row r (\<lambda>x. x\<lparr>cells := f (cells x)\<rparr>) g"

lemma put_cell_at_row: "put_cell g r c x = at_row r (\<lambda>cs. cs[c := x]) g"
  by (simp add: put_cell_def at_row_def)

lemma at_row_at_row: "at_row r f (at_row r h g) = at_row r (f \<circ> h) g"
  by (simp add: at_row_def map_row_def)

lemma at_row_cong:
  "(r < length (g_rows g) \<Longrightarrow> f (cells (g_rows g ! r)) = h (cells (g_rows g ! r))) \<Longrightarrow>
     at_row r f g = at_row r h g"
  by (simp add: at_row_def map_row_def)

lemma at_row_id: "at_row r (\<lambda>cs. cs) g = g"
  by (simp add: at_row_def map_row_def)

lemma get_cell_at:
  "r < length (g_rows g) \<Longrightarrow> get_cell g r c = nth_opt (cells (g_rows g ! r)) c"
  by (simp add: get_cell_def nth_opt_def)

lemma straddle_at_row:
  assumes "r < length (g_rows g)" "r = row (cursor s)" "g = active s" "b < u16_max"
  shows "active (clear_wide_straddle wd a b s) = at_row r (straddle_cells wd a b) g"
proof -
  have adv: "advance b (Suc 0) = Suc b" using assms(4) by (simp add: advance_exact)
  show ?thesis
    using assms(1)
    by (auto simp: clear_wide_straddle_def Let_def assms(2,3) [symmetric] straddle_cells_def
        put_cell_at_row get_cell_at nth_opt_def retreat_def adv at_row_at_row o_def is_wide_def
        at_row_def map_row_def nth_list_update)
qed

lemma at_row_pairs:
  assumes "grid_pairs wd g" "r < length (g_rows g)"
    "pairs_ok wd (cells (g_rows g ! r)) \<Longrightarrow> pairs_ok wd (f (cells (g_rows g ! r)))"
  shows "grid_pairs wd (at_row r f g)"
proof -
  have "pairs_ok wd (cells (g_rows g ! r))" using assms(1,2) by (simp add: grid_pairs_def)
  then have "pairs_ok wd (f (cells (g_rows g ! r)))" by (rule assms(3))
  then show ?thesis
    using assms(1) by (auto simp: at_row_def map_row_def grid_pairs_def
        dest!: set_update_subset_insert [THEN subsetD])
qed

lemma wf_row_length:
  "grid_wf g \<Longrightarrow> r < length (g_rows g) \<Longrightarrow> length (cells (g_rows g ! r)) = g_cols g"
  by (simp add: grid_wf_def)

lemma write_narrow:
  assumes wf: "screen_wf s" and w: "width_ok wd" and p: "grid_pairs wd (active s)"
    and c: "col (cursor s) < g_cols (active s)" "\<not> is_wide wd x" "\<not> is_wide_spacer x"
  shows "grid_pairs wd (active (put_cell_at_cursor x
           (clear_wide_straddle wd (col (cursor s)) (col (cursor s)) s)))"
proof -
  have r: "row (cursor s) < length (g_rows (active s))" using wf by (rule wf_cursor)
  have len: "length (cells (g_rows (active s) ! row (cursor s))) = g_cols (active s)"
    using wf_grid [OF wf] r by (rule wf_row_length)
  have b: "col (cursor s) < u16_max" using c(1) wf_pos(4) [OF wf] by simp
  show ?thesis
    unfolding put_cell_at_cursor_def
    using write_narrow_pairs [OF w _ _ c(2,3)] c(1) len r b
    by (auto simp: straddle_at_row put_cell_at_row at_row_at_row o_def intro!: at_row_pairs p)
qed

lemma write_wide:
  assumes wf: "screen_wf s" and w: "width_ok wd" and p: "grid_pairs wd (active s)"
    and c: "col (cursor s) + 1 < g_cols (active s)" "is_wide wd x" "\<not> is_wide_spacer x"
  shows "grid_pairs wd (active (put_cell_at_cursor wide_spacer (set_col (col (cursor s) + 1)
           (put_cell_at_cursor x
             (clear_wide_straddle wd (col (cursor s)) (col (cursor s) + 1) s)))))"
proof -
  have r: "row (cursor s) < length (g_rows (active s))" using wf by (rule wf_cursor)
  have len: "length (cells (g_rows (active s) ! row (cursor s))) = g_cols (active s)"
    using wf_grid [OF wf] r by (rule wf_row_length)
  have b: "col (cursor s) + 1 < u16_max" using c(1) wf_pos(4) [OF wf] by simp
  show ?thesis
    unfolding put_cell_at_cursor_def
    using write_wide_pairs [OF w _ _ c(2,3)] c(1) len r b
    by (auto simp: straddle_at_row put_cell_at_row at_row_at_row o_def intro!: at_row_pairs p)
qed

section \<open>Printing keeps the pairs\<close>

lemma pairs_other_fields [simp]:
  "screen_pairs wd (s\<lparr>title := x1\<rparr>) = screen_pairs wd s"
  "screen_pairs wd (s\<lparr>icon_title := x1\<rparr>) = screen_pairs wd s"
  "screen_pairs wd (s\<lparr>cwd := x2\<rparr>) = screen_pairs wd s"
  "screen_pairs wd (s\<lparr>replies := x3\<rparr>) = screen_pairs wd s"
  "screen_pairs wd (s\<lparr>clipboard_writes := x3\<rparr>) = screen_pairs wd s"
  "screen_pairs wd (s\<lparr>color_queries := x4\<rparr>) = screen_pairs wd s"
  "screen_pairs wd (s\<lparr>bell_pending := x5\<rparr>) = screen_pairs wd s"
  "screen_pairs wd (s\<lparr>blocks_completed := x8\<rparr>) = screen_pairs wd s"
  "screen_pairs wd (s\<lparr>last_block_exit := x9\<rparr>) = screen_pairs wd s"
  "screen_pairs wd (s\<lparr>last_block_duration := x10\<rparr>) = screen_pairs wd s"
  "screen_pairs wd (s\<lparr>pending_command_start := x10\<rparr>) = screen_pairs wd s"
  "screen_pairs wd (s\<lparr>pending_tx := x11\<rparr>) = screen_pairs wd s"
  "screen_pairs wd (s\<lparr>pending_frame := x12\<rparr>) = screen_pairs wd s"
  "screen_pairs wd (s\<lparr>graphics_seq := x8\<rparr>) = screen_pairs wd s"
  "screen_pairs wd (s\<lparr>placement_id_seq := x8\<rparr>) = screen_pairs wd s"
  "screen_pairs wd (s\<lparr>image_id_seq := x8\<rparr>) = screen_pairs wd s"
  "screen_pairs wd (s\<lparr>image_gen := x8\<rparr>) = screen_pairs wd s"
  "screen_pairs wd (s\<lparr>charset_g0 := x13\<rparr>) = screen_pairs wd s"
  "screen_pairs wd (s\<lparr>charset_g1 := x13\<rparr>) = screen_pairs wd s"
  "screen_pairs wd (s\<lparr>gl := x14\<rparr>) = screen_pairs wd s"
  "screen_pairs wd (s\<lparr>cursor := x15\<rparr>) = screen_pairs wd s"
  "screen_pairs wd (s\<lparr>saved_cursor := x16\<rparr>) = screen_pairs wd s"
  "screen_pairs wd (s\<lparr>modes := x17\<rparr>) = screen_pairs wd s"
  "screen_pairs wd (s\<lparr>tabs := x18\<rparr>) = screen_pairs wd s"
  "screen_pairs wd (s\<lparr>hyperlinks := x19\<rparr>) = screen_pairs wd s"
  "screen_pairs wd (s\<lparr>scroll_region := x20\<rparr>) = screen_pairs wd s"
  "screen_pairs wd (s\<lparr>kbd := x21\<rparr>) = screen_pairs wd s"
  "screen_pairs wd (s\<lparr>images := x22\<rparr>) = screen_pairs wd s"
  "screen_pairs wd (s\<lparr>placements := x23\<rparr>) = screen_pairs wd s"
  "screen_pairs wd (s\<lparr>virtual_placements := x24\<rparr>) = screen_pairs wd s"
  "screen_pairs wd (s\<lparr>pending_notifications := x25\<rparr>) = screen_pairs wd s"
  "screen_pairs wd (s\<lparr>scrollback := x26\<rparr>) = screen_pairs wd s"
  "screen_pairs wd (upd_cur f s) = screen_pairs wd s"
  "screen_pairs wd (set_col c s) = screen_pairs wd s"
  "screen_pairs wd (set_row c s) = screen_pairs wd s"
  "screen_pairs wd (set_wrap b s) = screen_pairs wd s"
  "screen_pairs wd (reply r s) = screen_pairs wd s"
  by (simp_all add: screen_pairs_def upd_cur_def set_col_def set_row_def set_wrap_def reply_def)

lemma pairs_active:
  "screen_pairs wd s \<Longrightarrow> grid_pairs wd g \<Longrightarrow> g_cols g = g_cols (active s) \<Longrightarrow>
     screen_pairs wd (s\<lparr>active := g\<rparr>)"
  by (simp add: screen_pairs_def)

lemma pairs_grid: "screen_pairs wd s \<Longrightarrow> grid_pairs wd (active s)"
  by (simp add: screen_pairs_def)

lemma pairs_no_graphic [simp]: "screen_pairs wd s \<Longrightarrow> screen_pairs wd (s\<lparr>last_graphic := None\<rparr>)"
  by (simp add: screen_pairs_def)

lemma pairs_push_scrollback [simp]: "screen_pairs wd (push_scrollback r s) = screen_pairs wd s"
  by (simp add: push_scrollback_def Let_def split: prod.splits)

lemma pairs_foldl_push [simp]:
  "screen_pairs wd (foldl (\<lambda>s r. push_scrollback r s) s rs) = screen_pairs wd s"
  by (induction rs arbitrary: s) simp_all

lemma pairs_scroll_up_feed:
  assumes "screen_wf s" "width_ok wd" "screen_pairs wd s"
  shows "screen_pairs wd (scroll_up_feed tp bt n s)"
proof -
  let ?t = "if alt s = None \<and> tp = 0 then Some [] else None"
  have "screen_pairs wd (s\<lparr>active := fst (scroll_up (active s) tp bt n ?t)\<rparr>)"
    using assms by (intro pairs_active scroll_up_pairs pairs_grid wf_grid) (simp_all add: dims_simps)
  then show ?thesis
    by (auto simp: scroll_up_feed_def Let_def split: prod.splits option.splits)
qed

lemma pairs_map_row:
  "screen_pairs wd s \<Longrightarrow> (\<And>r. cells (f r) = cells r) \<Longrightarrow> screen_pairs wd (s\<lparr>active := map_row i f (active s)\<rparr>)"
  by (intro pairs_active map_row_pairs pairs_grid) (simp_all add: dims_simps)

lemma pairs_advance:
  assumes wf: "screen_wf s" and w: "width_ok wd" and p: "screen_pairs wd s"
  shows "screen_pairs wd (advance_to_next_row soft s)"
proof -
  obtain tp bt where reg: "scroll_region s = (tp, bt)" by fastforce
  define t where "t = (if row (cursor s) = bt then set_row bt (scroll_up_feed tp bt 1 s)
    else if row (cursor s) > bt then set_row (min (advance (row (cursor s)) 1) (s_rows s - 1)) s
    else set_row (advance (row (cursor s)) 1) s)"
  have t: "screen_pairs wd t"
    using p pairs_scroll_up_feed [OF wf w p] by (simp add: t_def)
  have "advance_to_next_row soft s =
      (if soft then t\<lparr>active := map_row (row (cursor t))
         (\<lambda>g. g\<lparr>wrap_origin := SoftFrom (row (cursor t))\<rparr>) (active t)\<rparr> else t)"
    unfolding advance_to_next_row_def reg Let_def t_def prod.case ..
  with t show ?thesis by (simp add: pairs_map_row)
qed

lemma pairs_resolve_wrap:
  "screen_wf s \<Longrightarrow> width_ok wd \<Longrightarrow> screen_pairs wd s \<Longrightarrow> screen_pairs wd (resolve_wrap s)"
  by (simp add: resolve_wrap_def pairs_advance)

lemma wf_col_lt: "screen_wf s \<Longrightarrow> screen_pairs wd s \<Longrightarrow> col (cursor s) < g_cols (active s)"
  using wf_cursor(2) [of s] by (simp add: screen_pairs_def)

lemma pairs_by_active:
  "screen_pairs wd s \<Longrightarrow> grid_pairs wd (active t) \<Longrightarrow> g_cols (active t) = g_cols (active s) \<Longrightarrow>
     alt t = alt s \<Longrightarrow> last_graphic t = last_graphic s \<Longrightarrow> screen_pairs wd t"
  by (simp add: screen_pairs_def)

lemma cell_write_fields [simp]:
  "alt (put_cell_at_cursor x s) = alt s" "last_graphic (put_cell_at_cursor x s) = last_graphic s"
  "alt (clear_wide_straddle wd a b s) = alt s"
  "last_graphic (clear_wide_straddle wd a b s) = last_graphic s"
  "last_graphic (set_col c s) = last_graphic s"
  by (simp_all add: put_cell_at_cursor_def clear_wide_straddle_def Let_def set_col_def upd_cur_def)

lemma pairs_make_room:
  assumes wf: "screen_wf s" and w: "width_ok wd" and p: "screen_pairs wd s"
  shows "screen_pairs wd (make_room_wide wd n s)"
proof -
  let ?t = "put_cell_at_cursor default_cell (clear_wide_straddle wd (col (cursor s)) (col (cursor s)) s)"
  have "grid_pairs wd (active ?t)"
    using w wf_col_lt [OF wf p] by (intro write_narrow wf pairs_grid p) simp_all
  then have "screen_pairs wd ?t"
    by (rule pairs_by_active [OF p]) simp_all
  moreover have "screen_wf ?t" using wf by (simp add: inv_intros)
  ultimately show ?thesis
    using p pairs_advance w wf by (simp add: make_room_wide_def Let_def)
qed

lemma make_room_wide_fits:
  assumes "screen_wf s" "screen_pairs wd s" "2 \<le> w"
  shows "col (cursor (make_room_wide wd w s)) + 1 < g_cols (active (make_room_wide wd w s))"
  using make_room_col [OF assms(1,3), of wd] make_room_cols [OF assms(1)] assms(2)
  by (simp add: screen_pairs_def)

lemma pairs_write_cluster:
  assumes wf: "screen_wf s" and w: "width_ok wd" and p: "screen_pairs wd s"
    and g: "good_cluster wd g" and fits: "2 \<le> wd g \<Longrightarrow> col (cursor s) + 1 < g_cols (active s)"
  shows "screen_pairs wd (write_cluster wd (wd g) g s)"
proof -
  have ns: "\<not> is_wide_spacer (cursor_cell g k)" for k
    using good_nonempty [OF w g] by (simp add: is_wide_spacer_def cursor_cell_def)
  show ?thesis
  proof (cases "2 \<le> wd g")
    case False
    have adv: "advance (col (cursor s)) 0 = col (cursor s)"
      using wf_col_lt [OF wf p] wf_pos(4) [OF wf] by (simp add: advance_exact)
    have "grid_pairs wd (active (write_cluster wd (wd g) g s))"
      using False ns wf_col_lt [OF wf p]
      by (simp add: write_cluster_def Let_def adv write_narrow wf w pairs_grid [OF p] good_wide [OF g])
    then show ?thesis
      by (rule pairs_by_active [OF p]) (simp_all add: write_cluster_def Let_def False)
  next
    case True
    have adv: "advance (col (cursor s)) (Suc 0) = Suc (col (cursor s))"
      using fits [OF True] wf_pos(4) [OF wf] by (simp add: advance_exact)
    have "grid_pairs wd (active (write_cluster wd (wd g) g s))"
      using write_wide [OF wf w pairs_grid [OF p] fits [OF True], of "cursor_cell g (cursor s)"] True ns
      by (simp add: write_cluster_def Let_def adv good_wide [OF g])
    then show ?thesis
      by (rule pairs_by_active [OF p]) (simp_all add: write_cluster_def Let_def True)
  qed
qed

lemma pairs_step_right [simp]: "screen_pairs wd (step_right s) = screen_pairs wd s"
  by (simp add: step_right_def)

lemma pairs_put_grapheme:
  assumes wf: "screen_wf s" and w: "glyphs_ok wd" and p: "screen_pairs wd s" and g: "good_cluster wd g"
  shows "screen_pairs wd (put_grapheme wd g s)"
proof -
  let ?g = "mapped_cluster s g"
  have w': "width_ok wd" using w by (simp add: glyphs_ok_def)
  have good: "good_cluster wd ?g" using w g by (rule good_mapped)
  then have "wd ?g \<noteq> 0" by (simp add: good_cluster_def)
  define t where "t = resolve_wrap (s\<lparr>last_graphic := Some ?g\<rparr>)"
  have "screen_pairs wd (s\<lparr>last_graphic := Some ?g\<rparr>)"
    using p good by (simp add: screen_pairs_def)
  then have pt: "screen_pairs wd t" and wt: "screen_wf t"
    using wf w' by (simp_all add: t_def pairs_resolve_wrap wf_resolve_wrap)
  have "screen_pairs wd (write_cluster wd (wd ?g) ?g (make_room_wide wd (wd ?g) t))"
    using wf_make_room [OF wt] w' pairs_make_room [OF wt w' pt] good make_room_wide_fits [OF wt pt]
    by (intro pairs_write_cluster) simp_all
  then show ?thesis
    using \<open>wd ?g \<noteq> 0\<close> by (simp add: put_grapheme_def Let_def good_as_u16 [OF good] t_def)
qed

section \<open>Controls and sequences keep the pairs\<close>

lemma pairs_execute_c0:
  "screen_wf s \<Longrightarrow> width_ok wd \<Longrightarrow> screen_pairs wd s \<Longrightarrow> screen_pairs wd (execute_c0 b s)"
  by (simp add: execute_c0_def Let_def pairs_advance)

lemma fill_row_cells:
  "r < length (g_rows g) \<Longrightarrow>
     foldl (\<lambda>g c. put_cell g r c x) g cs = at_row r (\<lambda>l. foldl (\<lambda>l c. l[c := x]) l cs) g"
proof (induction cs rule: rev_induct)
  case Nil
  then show ?case by (simp add: at_row_id)
next
  case (snoc c cs)
  then show ?case by (simp add: put_cell_at_row at_row_at_row o_def)
qed

lemma foldl_fill: "n \<le> length l \<Longrightarrow> foldl (\<lambda>l c. l[c := x]) l [0..<n] = replicate n x @ drop n l"
proof (induction n)
  case (Suc n)
  then have "drop n l = l ! n # drop (Suc n) l" by (intro Cons_nth_drop_Suc [symmetric]) simp
  with Suc show ?case
    by (simp add: list_update_append replicate_append_same del: replicate_Suc flip: replicate_Suc)
qed simp

lemma fill_row_other:
  "r < length (g_rows g) \<Longrightarrow> k \<noteq> r \<Longrightarrow> g_rows (at_row r f g) ! k = g_rows g ! k"
  by (simp add: at_row_def map_row_def)

lemma fill_rows:
  assumes "grid_wf g" "n \<le> length (g_rows g)" "k < n" "m = g_cols g"
  shows "cells (g_rows (foldl (\<lambda>g r. foldl (\<lambda>g c. put_cell g r c x) g [0..<m]) g [0..<n]) ! k)
     = replicate m x"
  using assms(2,3)
proof (induction n)
  case (Suc n)
  define G where "G = foldl (\<lambda>g r. foldl (\<lambda>g c. put_cell g r c x) g [0..<m]) g [0..<n]"
  have G: "grid_wf G" "length (g_rows G) = length (g_rows g)" "g_cols G = m"
    using assms(1,4) by (simp_all add: G_def fill_dims)
  have n: "n < length (g_rows G)" using Suc.prems G by simp
  have step: "foldl (\<lambda>g c. put_cell g n c x) G [0..<m] = at_row n (\<lambda>l. foldl (\<lambda>l c. l[c := x]) l [0..<m]) G"
    using n by (rule fill_row_cells)
  have len: "length (cells (g_rows G ! n)) = m" using wf_row_length [OF G(1) n] G(3) by simp
  have "cells (g_rows (foldl (\<lambda>g c. put_cell g n c x) G [0..<m]) ! k) = replicate m x"
  proof (cases "k = n")
    case True
    then show ?thesis
      unfolding step using n len by (simp add: at_row_def map_row_def foldl_fill)
  next
    case False
    then have "g_rows (foldl (\<lambda>g c. put_cell g n c x) G [0..<m]) ! k = g_rows G ! k"
      unfolding step using n by (simp add: fill_row_other)
    with False Suc show ?thesis by (simp add: G_def)
  qed
  then show ?case by (simp add: G_def)
qed simp

lemma pairs_decaln:
  assumes wf: "screen_wf s" and w: "width_ok wd" and p: "screen_pairs wd s"
  shows "screen_pairs wd (decaln s)"
proof -
  let ?x = "default_cell\<lparr>grapheme := lit ''E''\<rparr>"
  let ?G = "foldl (\<lambda>g r. foldl (\<lambda>g c. put_cell g r c ?x) g [0..<s_cols s]) (active s) [0..<s_rows s]"
  have len: "length (g_rows ?G) = length (g_rows (active s))" by (simp add: fill_dims)
  have x: "\<not> is_wide_spacer ?x" "\<not> is_wide wd ?x"
    using w by (simp_all add: is_wide_spacer_def is_wide_def width_ok_def)
  have "pairs_ok wd (cells r)" if r: "r \<in> set (g_rows ?G)" for r
  proof -
    obtain k where k: "k < length (g_rows (active s))" "r = g_rows ?G ! k"
      using r len by (metis in_set_conv_nth)
    have "cells r = replicate (g_cols (active s)) ?x"
      using fill_rows [OF wf_grid [OF wf] order_refl k(1) refl, of ?x] k(2)
      by (simp add: wf_rows [OF wf])
    then show ?thesis using x by (simp add: pairs_ok_def pair_ok_at_def)
  qed
  then have "grid_pairs wd ?G" by (simp add: grid_pairs_def)
  then have "screen_pairs wd (s\<lparr>active := ?G\<rparr>)"
    using p by (intro pairs_active) (simp_all add: fill_dims)
  then show ?thesis
    unfolding decaln_def Let_def by simp
qed

lemma pairs_new:
  assumes "width_ok wd" "2 \<le> cols"
  shows "screen_pairs wd (screen_new rows cols)"
  using assms by (simp add: screen_pairs_def screen_new_def grid_new_pairs dims_simps)

lemma pairs_term [simp]: "screen_pairs wd (s\<lparr>term_name := a, color_scheme := b\<rparr>) = screen_pairs wd s"
  by (simp add: screen_pairs_def)

lemma pairs_scroll_down:
  "screen_wf s \<Longrightarrow> width_ok wd \<Longrightarrow> screen_pairs wd s \<Longrightarrow>
     screen_pairs wd (s\<lparr>active := scroll_down (active s) a b n\<rparr>)"
  by (intro pairs_active scroll_down_pairs pairs_grid wf_grid) (simp_all add: dims_simps)

lemma pairs_handle_esc:
  assumes wf: "screen_wf s" and w: "width_ok wd" and p: "screen_pairs wd s"
  shows "screen_pairs wd (handle_esc ints b s)"
proof -
  have "screen_pairs wd (full_reset t)" if "screen_pairs wd t" for t
  proof -
    have "2 \<le> g_cols (active t)" using that by (simp add: screen_pairs_def)
    then show ?thesis using w by (simp add: full_reset_def pairs_new)
  qed
  moreover have "screen_pairs wd (reverse_index (s\<lparr>last_graphic := None\<rparr>))"
    using pairs_scroll_down [of "s\<lparr>last_graphic := None\<rparr>"] wf w p
    by (simp add: reverse_index_def split: prod.splits)
  moreover have "screen_pairs wd (designate slot b s)" for slot
    using p by (simp add: designate_def Let_def split: option.splits)
  ultimately show ?thesis
    using pairs_advance [of _ wd] pairs_decaln wf w p
    by (simp add: handle_esc_def Let_def wf_set_col_0 split: option.splits)
qed

lemma pairs_funpow_put:
  "glyphs_ok wd \<Longrightarrow> good_cluster wd g \<Longrightarrow> screen_wf s \<Longrightarrow> screen_pairs wd s \<Longrightarrow>
     screen_pairs wd ((put_grapheme wd g ^^ n) s)"
  using funpow_inv [where P = "\<lambda>t. screen_wf t \<and> screen_pairs wd t" and s = s and f = "put_grapheme wd g"]
  by (simp add: pairs_put_grapheme wf_put_grapheme)

lemma pairs_erase: "width_ok wd \<Longrightarrow> screen_pairs wd s \<Longrightarrow> screen_pairs wd (erase wd a b c d s)"
  unfolding erase_def by (intro pairs_active clear_rect_pairs pairs_grid) (simp_all add: dims_simps)

lemma pairs_clear: "width_ok wd \<Longrightarrow> screen_pairs wd s \<Longrightarrow> screen_pairs wd (s\<lparr>active := grid_clear (active s)\<rparr>)"
  by (intro pairs_active grid_clear_pairs) (simp_all add: dims_simps)

lemma pairs_set_private:
  assumes wf: "screen_wf s" and w: "width_ok wd" and p: "screen_pairs wd s"
  shows "screen_pairs wd (set_dec_private_mode code on s)"
proof -
  have flag: "screen_pairs wd (set_flag f on s)" for f on
    using p by (simp add: set_flag_def)
  have "screen_pairs wd (enter_alt_screen s)"
    using p w by (simp add: enter_alt_screen_def screen_pairs_def grid_new_pairs dims_simps)
  moreover have "screen_pairs wd (leave_alt_screen s)"
    using p wf by (auto simp: leave_alt_screen_def Let_def screen_pairs_def screen_wf_def same_dims_def
        split: option.splits)
  ultimately show ?thesis
    using p flag by (simp add: set_dec_private_mode_def Let_def split: option.splits)
qed

lemma pairs_set_mode:
  assumes "screen_wf s" "width_ok wd" "screen_pairs wd s"
  shows "screen_pairs wd (set_mode ps ints on s)"
proof -
  have "screen_wf (set_mode ps ints on s) \<and> screen_pairs wd (set_mode ps ints on s)"
    unfolding set_mode_def
    by (rule foldl_inv [where P = "\<lambda>t. screen_wf t \<and> screen_pairs wd t"])
      (use assms in \<open>auto intro: wf_set_private pairs_set_private split: list.splits\<close>)
  then show ?thesis ..
qed

lemma pairs_csi_m: "screen_pairs wd s \<Longrightarrow> screen_pairs wd (csi_m ps ints s)"
  by (simp add: csi_m_def handle_xtmodkeys_def xtqmodkeys_report_def handle_sgr_def
      split: option.splits prod.splits)

lemma pairs_if: "screen_pairs wd a \<Longrightarrow> screen_pairs wd b \<Longrightarrow> screen_pairs wd (if c then a else b)"
  by simp

lemma pairs_erase_scrollback:
  assumes "width_ok wd" "screen_pairs wd s" shows "screen_pairs wd (erase_scrollback s)"
  using pairs_clear [OF assms] by (simp add: erase_scrollback_def Let_def)

lemma pairs_handle_csi:
  assumes wf: "screen_wf s" and w: "glyphs_ok wd" and p: "screen_pairs wd s"
  shows "screen_pairs wd (handle_csi wd ps ints f s)"
proof -
  have w': "width_ok wd" using w by (simp add: glyphs_ok_def)
  let ?t = "s\<lparr>last_graphic := None\<rparr>"
  have wt: "screen_wf ?t" and pt: "screen_pairs wd ?t" using wf p by simp_all
  have good: "good_cluster wd g" if "last_graphic s = Some g" for g
    using p that by (simp add: screen_pairs_def)
  have motions: "screen_pairs wd (csi_cuu ps ?t)" "screen_pairs wd (csi_cud ps ?t)"
    "screen_pairs wd (csi_cuf ps ?t)" "screen_pairs wd (csi_cub ps ?t)" "screen_pairs wd (csi_cnl ps ?t)"
    "screen_pairs wd (csi_cpl ps ?t)" "screen_pairs wd (csi_cha ps ?t)" "screen_pairs wd (csi_cup ps ?t)"
    "screen_pairs wd (csi_vpa ps ?t)" "screen_pairs wd (csi_cht ps ?t)" "screen_pairs wd (csi_cbt ps ?t)"
    "screen_pairs wd (csi_decstbm ps ?t)" "screen_pairs wd (csi_tbc ps ?t)"
    using pt
    by (simp_all add: csi_cuu_def csi_cud_def csi_cuf_def csi_cub_def csi_cnl_def csi_cpl_def
        csi_cha_def csi_cup_def csi_vpa_def csi_cht_def csi_cbt_def csi_decstbm_def csi_tbc_def Let_def)
  have rep: "screen_pairs wd (csi_rep wd (last_graphic s) ps ?t)"
    using w pt wt good by (simp add: csi_rep_def pairs_funpow_put split: option.splits)
  have erasures: "screen_pairs wd (csi_ed wd ps ?t)" "screen_pairs wd (csi_el wd ps ?t)"
    "screen_pairs wd (csi_ech wd ps ?t)"
    using w' pt pairs_clear [OF w' pt]
    by (simp_all add: csi_ed_def csi_el_def csi_ech_def Let_def pairs_erase pairs_clear pairs_erase_scrollback)
  have shifts: "screen_pairs wd (csi_ich wd ps ?t)" "screen_pairs wd (csi_dch wd ps ?t)"
    using w' pt p unfolding csi_ich_def csi_dch_def pairs_other_fields
    by (auto intro!: pairs_active insert_cells_pairs delete_cells_pairs pairs_grid simp: dims_simps)
  have "screen_pairs wd (?t\<lparr>active := fst (scroll_up (active s) a b n None)\<rparr>)" for a b n
    using wt w' pt by (intro pairs_active scroll_up_pairs) (simp_all add: dims_simps wf_grid wf pairs_grid p)
  then have scrolls: "screen_pairs wd (csi_su ps ?t)" "screen_pairs wd (csi_sd ps ?t)"
    "screen_pairs wd (csi_il ps ?t)" "screen_pairs wd (csi_dl ps ?t)"
    using wt w' pt pairs_scroll_down [OF wt w' pt]
    by (auto simp: csi_su_def csi_sd_def csi_il_def csi_dl_def pairs_scroll_up_feed split: prod.splits)
  have reports: "screen_pairs wd (csi_dsr ps ints ?t)" "screen_pairs wd (csi_da ints ?t)"
    "screen_pairs wd (csi_q ps ints ?t)" "screen_pairs wd (csi_window_op ps ?t)"
    "screen_pairs wd (csi_p ps ints ?t)" "screen_pairs wd (handle_kitty_kbd ps ints ?t)"
    using pt
    by (simp_all add: csi_dsr_def csi_da_def csi_q_def csi_window_op_def csi_p_def handle_kitty_kbd_def
        handle_decrqm_def handle_decstr_def Let_def split: option.splits prod.splits)
  show ?thesis
    unfolding handle_csi_def Let_def
    by (intro pairs_if motions rep erasures shifts scrolls reports pt pairs_csi_m pairs_set_mode wt w')
qed

section \<open>Strings keep the pairs\<close>

lemma pairs_drop_evicted [simp]: "screen_pairs wd (drop_evicted ev s) = screen_pairs wd s"
  by (simp add: drop_evicted_def)

lemma pairs_insert_image [simp]: "screen_pairs wd (insert_image im s) = screen_pairs wd s"
  by (simp add: insert_image_def split: prod.splits)

lemma pairs_add_virtual [simp]: "screen_pairs wd (add_virtual_placement i p r c s) = screen_pairs wd s"
  by (simp add: add_virtual_placement_def Let_def)

text \<open>The graphics handlers change the grid only by line feeds.\<close>

definition wp :: "(rstr \<Rightarrow> nat) \<Rightarrow> screen \<Rightarrow> bool" where
  "wp wd s \<longleftrightarrow> screen_wf s \<and> screen_pairs wd s"

lemma wp_add_placement:
  assumes w: "width_ok wd" and s: "wp wd s"
  shows "screen_pairs wd (add_placement i pr pw ph r c z s)"
proof -
  have "wp wd (s\<lparr>placement_id_seq := a, graphics_seq := b, placements :=
      push_capped max_placements p (placements s)\<rparr>)" for a b p
    using s wf_lengths(1) [of s]
    by (auto simp: wp_def max_placements_def intro!: wf_placements push_capped_length)
  moreover have "wp wd t \<Longrightarrow> wp wd (advance_to_next_row False t)" for t
    using w by (simp add: wp_def wf_advance pairs_advance)
  ultimately have "wp wd ((advance_to_next_row False ^^ n) (s\<lparr>placement_id_seq := a, graphics_seq := b,
      placements := push_capped max_placements p (placements s)\<rparr>))" for a b p n
    by (intro funpow_inv [where P = "wp wd"])
  then show ?thesis
    by (simp add: add_placement_def Let_def wp_def split: prod.splits)
qed

lemma wp_insert: "wp wd s \<Longrightarrow> wp wd (insert_image im s)"
  by (simp add: wp_def wf_insert_image)

lemma wp_fields: "wp wd s \<Longrightarrow> wp wd (s\<lparr>image_id_seq := a\<rparr>)"
  "wp wd s \<Longrightarrow> wp wd (s\<lparr>image_gen := b\<rparr>)" "wp wd s \<Longrightarrow> wp wd (s\<lparr>pending_tx := t\<rparr>)"
  by (simp_all add: wp_def)

lemma wp_pairs: "wp wd s \<Longrightarrow> screen_pairs wd s"
  by (simp add: wp_def)

lemma wp_display:
  "width_ok wd \<Longrightarrow> wp wd s \<Longrightarrow> screen_pairs wd (display_image i tx w h s)"
  by (simp add: display_image_def wp_add_placement wp_pairs)

lemma wp_finalize:
  "width_ok wd \<Longrightarrow> wp wd s \<Longrightarrow> screen_pairs wd (finalize_transmission b64 s)"
  by (auto simp: finalize_transmission_def Let_def intro!: wp_display wp_insert wp_fields intro: wp_pairs
      split: option.splits prod.splits)

lemma wp_start: "wp wd s \<Longrightarrow> wp wd (start_transmission cmd s)"
  by (simp add: wp_def wf_start_transmission start_transmission_def split: option.splits prod.splits)

lemma wp_accumulate:
  "width_ok wd \<Longrightarrow> wp wd s \<Longrightarrow> screen_pairs wd (accumulate_transmission b64 cmd s)"
  by (auto simp: accumulate_transmission_def Let_def intro!: wp_finalize wp_start wp_fields
      intro: wp_pairs split: option.splits)

lemma pairs_frame: "screen_pairs wd s \<Longrightarrow> screen_pairs wd (accumulate_frame cmd s)"
  by (simp add: accumulate_frame_def finalize_frame_def Let_def split: option.splits prod.splits)

lemma pairs_dispatch:
  "width_ok wd \<Longrightarrow> wp wd s \<Longrightarrow> screen_pairs wd (dispatch_action b64 cmd s)"
  by (simp add: dispatch_action_def delete_placements_def place_image_def control_animation_def Let_def
      wp_accumulate pairs_frame wp_add_placement wp_pairs split: option.splits)

lemma pairs_handle_graphics:
  "width_ok wd \<Longrightarrow> wp wd s \<Longrightarrow> screen_pairs wd (handle_graphics b64 framed s)"
  by (simp add: handle_graphics_def wp_accumulate pairs_frame pairs_dispatch wp_pairs split: option.splits)

lemma pairs_handle_sixel: "width_ok wd \<Longrightarrow> wp wd s \<Longrightarrow> screen_pairs wd (handle_sixel ps pl s)"
  by (auto simp: handle_sixel_def Let_def intro!: wp_add_placement wp_insert wp_fields intro: wp_pairs
      split: prod.splits)

lemma pairs_handle_iterm: "width_ok wd \<Longrightarrow> wp wd s \<Longrightarrow> screen_pairs wd (handle_iterm b64 ps s)"
  by (auto simp: handle_iterm_def Let_def intro!: wp_add_placement wp_insert wp_fields intro: wp_pairs
      split: prod.splits option.splits)

lemma pairs_mark [simp]: "screen_pairs wd s \<Longrightarrow> screen_pairs wd (mark_cursor_row f s)"
  unfolding mark_cursor_row_def by (rule pairs_map_row) simp_all

lemma pairs_osc_133: "screen_pairs wd s \<Longrightarrow> screen_pairs wd (handle_osc_133 now ps s)"
  by (simp add: handle_osc_133_def Let_def split: option.splits list.splits)

lemma pairs_handle_osc:
  assumes w: "width_ok wd" and s: "wp wd s"
  shows "screen_pairs wd (handle_osc b64 now ps s)"
proof -
  note p = wp_pairs [OF s]
  have "screen_pairs wd (osc_hyperlink ps s)"
    using p by (simp add: osc_hyperlink_def Let_def split: prod.splits)
  moreover have "screen_pairs wd (handle_osc_52 b64 ps s)"
    using p by (simp add: handle_osc_52_def Let_def split: option.splits)
  moreover have "screen_pairs wd (handle_osc_color_query ps q s)" for q
    using p by (simp add: handle_osc_color_query_def split: option.splits)
  moreover have "screen_pairs wd (osc_notify ps s)" "screen_pairs wd (push_notification n s)" for n
    using p by (simp_all add: osc_notify_def push_notification_def split: option.splits)
  ultimately show ?thesis
    using p pairs_osc_133 [OF p, of now ps] pairs_handle_iterm [OF w s, of b64 ps]
    by (cases ps) (auto simp: handle_osc_def Let_def split: option.splits)
qed

lemma pairs_xtgettcap: "screen_pairs wd s \<Longrightarrow> screen_pairs wd (xtgettcap payload s)"
  by (auto simp: xtgettcap_def xtgettcap_one_def intro!: foldl_inv [where P = "screen_pairs wd"]
      split: option.splits)

lemma pairs_step:
  assumes w: "glyphs_ok wd" and s: "wp wd s" and e: "event_ok wd e"
  shows "wp wd (screen_step wd b64 s e)"
proof -
  have w': "width_ok wd" using w by (simp add: glyphs_ok_def)
  have wf: "screen_wf s" and p: "screen_pairs wd s" using s by (simp_all add: wp_def)
  have "screen_pairs wd (screen_step wd b64 s e)"
    using e
    by (cases e) (simp_all add: screen_step_def pairs_put_grapheme pairs_execute_c0 pairs_handle_csi
        pairs_handle_osc pairs_handle_esc handle_dcs_def pairs_xtgettcap pairs_handle_sixel
        pairs_handle_graphics wf p s w w')
  then show ?thesis using wf by (simp add: wp_def wf_screen_step)
qed

lemma run_pairs:
  assumes "glyphs_ok wd" "wp wd s" "list_all (event_ok wd) es"
  shows "wp wd (run wd b64 s es)"
  using assms(2,3) unfolding run_def
  by (induction es arbitrary: s) (simp_all add: pairs_step [OF assms(1)])

end
