(* ===== verification/Terminal_Props.thy ===== *)
theory Terminal_Props
  imports Emulator Screen_Alt Screen_Pairs
begin

text \<open>
  The properties of the terminal emulator as a whole: what every reachable terminal satisfies,
  the two screens, resizing, and what the screen does with the sequences a shell or a full-screen
  program sends.  \<open>ascii_width\<close>, \<open>byte_vte\<close> and \<open>char_seg\<close> are concrete instances of the
  parameters, on which the properties are exercised.
\<close>

definition ascii_width :: "rstr \<Rightarrow> nat" where
  "ascii_width g = (case g of [] \<Rightarrow> 0 | c # _ \<Rightarrow> if c < 0x1100 then 1 else 2)"







section \<open>Reachable terminals\<close>




section \<open>The two screens\<close>

text \<open>
  C12: While the alternate screen is on, no sequence of events but a full reset (\<open>ESC c\<close>) or an erase
  of the scrollback (\<open>CSI 3 J\<close>) changes the parked main grid, the scrollback or the image placements:
  either the run stays in the alternate screen with all three intact, or at the first switch back the
  main grid on screen is the parked one, with the same scrollback and placements.
\<close>

theorem alternate_screen_isolated:
  assumes "alt s = Some g" "list_all (\<lambda>e. \<not> disturbs_main e) es"
  shows "main_view (run wd b64 s es) = main_view s
    \<or> (\<exists>n \<le> length es. let t = run wd b64 s (take n es)
         in alt t = None \<and> active t = g \<and> scrollback t = scrollback s \<and> placements t = placements s)"
  using assms(1) alt_run [of "(g, scrollback s, placements s)" s es wd b64] assms(2)
  by (auto simp: isolated_def returned_def main_view_def Let_def)

theorem alternate_screen_isolated_witness:
  "let s = enter_alt_screen (screen_new 2 4)
   in main_view (run ascii_width (\<lambda>_. None) s [Print (lit ''a''), Execute 10, Csi [[2]] [] CHR ''J''])
        = main_view s
      \<or> (\<exists>n \<le> 3. let t = run ascii_width (\<lambda>_. None) s
               (take n [Print (lit ''a''), Execute 10, Csi [[2]] [] CHR ''J''])
           in alt t = None \<and> active t = grid_new 2 4 \<and> scrollback t = scrollback s
              \<and> placements t = placements s)"
proof -
  have "alt (enter_alt_screen (screen_new 2 4)) = Some (grid_new 2 4)"
    by (simp add: enter_alt_screen_def screen_new_def)
  from alternate_screen_isolated [OF this, of "[Print (lit ''a''), Execute 10, Csi [[2]] [] CHR ''J'']"
      ascii_width "\<lambda>_. None"]
  show ?thesis by (simp add: Let_def param_or_def param_def nth_opt_def head_opt_def numeral_3_eq_3)
qed

text \<open>
  C35: Entering the alternate screen from the main one and leaving it at once restores the whole state,
  except that the cursor slot it used is left empty.
\<close>

theorem alternate_screen_round_trip:
  assumes "screen_wf s" "alt s = None"
  shows "leave_alt_screen (enter_alt_screen s) = s\<lparr>saved_cursor := None\<rparr>"
proof -
  have "\<not> m_contains (modes s) M_ALT_SCREEN" using assms by (simp add: screen_wf_def)
  then have "m_remove M_ALT_SCREEN (m_insert M_ALT_SCREEN (modes s)) = modes s"
    by (rule m_remove_insert) (use M_ALT_SCREEN_def in blast)
  with assms(2) show ?thesis
    by (cases s) (simp add: enter_alt_screen_def leave_alt_screen_def)
qed

theorem alternate_screen_round_trip_witness:
  "leave_alt_screen (enter_alt_screen (screen_new 2 4)) = (screen_new 2 4)\<lparr>saved_cursor := None\<rparr>"
  by (rule alternate_screen_round_trip) (simp add: screen_new_wf u16_max_def, simp add: screen_new_def)

section \<open>Wide characters\<close>



section \<open>Resizing\<close>



text \<open>
  After a resize the grid has exactly the requested size, a zero counting as one, every row has
  its width, and the cursor is inside with no pending wrap.
\<close>

theorem reflow_size_and_cursor:
  assumes "rows \<le> u16_max" "cols + 2 \<le> u16_max" "reflow wd g sb k rows cols = (g', sb', k')"
  shows "grid_wf g' \<and> length (g_rows g') = max rows 1 \<and> g_cols g' = max cols 1
     \<and> row k' < max rows 1 \<and> col k' < max cols 1 \<and> \<not> pending_wrap k'"
  using reflow_grid [OF assms] reflow_cursor [OF assms(3)] by blast

theorem reflow_size_and_cursor_witness:
  "\<exists>g' sb' k'. reflow ascii_width (grid_new 2 4) sb_default cursor_default 0 3 = (g', sb', k')
     \<and> length (g_rows g') = 1 \<and> g_cols g' = 3 \<and> row k' = 0"
proof -
  obtain g' sb' k' where r: "reflow ascii_width (grid_new 2 4) sb_default cursor_default 0 3 = (g', sb', k')"
    using prod_cases3 by blast
  from reflow_size_and_cursor [OF _ _ r] r show ?thesis by (auto simp: u16_max_def)
qed

text \<open>
  On the main screen a resize does not re-wrap the cursor saved by \<open>ESC 7\<close>: \<open>ESC 8\<close> restores
  it as it was saved, even where the new grid has no such row, and the cursor is then off the grid.
\<close>

theorem stale_saved_cursor:
  assumes "alt s = None" "saved_cursor s = Some k" "size_ok rows cols"
  shows "cursor (screen_step wd b64 (screen_resize wd rows cols s) (Esc [] 56)) = k\<lparr>pending_wrap := False\<rparr>
    \<and> length (g_rows (active (screen_step wd b64 (screen_resize wd rows cols s) (Esc [] 56)))) = max rows 1"
proof -
  obtain act sb k' where r: "reflow wd (active s) (scrollback s) (cursor s) (max rows 1) (max cols 1) = (act, sb, k')"
    using prod_cases3 by blast
  have "length (g_rows act) = max rows 1" using reflow_wf [OF assms(3) r] by blast
  with assms(1,2) r show ?thesis
    by (simp add: screen_step_def handle_esc_def screen_resize_def reflow_main_def Let_def set_wrap_def
        upd_cur_def chr_def)
qed

theorem stale_saved_cursor_witness:
  "row (cursor (screen_step ascii_width (\<lambda>_. None) (screen_resize ascii_width 1 4
      ((screen_new 3 4)\<lparr>saved_cursor := Some (cursor_default\<lparr>row := 2\<rparr>)\<rparr>)) (Esc [] 56))) = 2"
  using stale_saved_cursor [of "(screen_new 3 4)\<lparr>saved_cursor := Some (cursor_default\<lparr>row := 2\<rparr>)\<rparr>"
      "cursor_default\<lparr>row := 2\<rparr>" 1 4 ascii_width "\<lambda>_. None"]
  by (simp add: screen_new_def size_ok_def u16_max_def)

end
