(* ===== verification/Table_Props.thy ===== *)
theory Table_Props
  imports Emulator Screen_Tables Keyboard Graphics_Parse Terminfo
begin

text \<open>
  The properties of the bounded tables and codecs the terminal is built from: image store,
  keyboard-flag stacks, scrollback, hyperlinks, tab stops, row marks, notification queue, pre-scan
  and text codecs.
\<close>

section \<open>Image store\<close>









text \<open>
  Eviction removes whole images, oldest first, and no more of them than the budget asks for; an
  image just inserted is never the one evicted.
\<close>

theorem eviction_is_minimal:
  assumes "store_ok st" "store_insert im st = (ev, st')"
  shows "store_get (im_id im) st' = Some im
    \<and> filter (\<lambda>j. j \<noteq> im_id im) (st_order st) @ [im_id im] = ev @ st_order st'
    \<and> (ev \<noteq> [] \<longrightarrow> cap_bytes < order_bytes ((st_map st)(im_id im \<mapsto> im)) (last ev # st_order st'))"
proof -
  have r: "evict_over_budget (insert_raw im st) = (ev, st')"
    using assms(2) by (simp add: store_insert_raw)
  show ?thesis
    using evict_over_budget_spec [OF insert_raw_ok [OF assms(1)] r] store_insert_get [OF assms(1), of im] assms(2)
    by (simp add: insert_raw_order [OF assms(1)] insert_raw_map)
qed

theorem eviction_is_minimal_witness:
  "store_get 7 (snd (store_insert \<lparr>im_id = 7, im_protocol = Sixel, im_format = RgbaFmt, im_w = 1, im_h = 1,
     im_data = ''q'', im_iterm_args = None, im_generation = 1, im_frames = [], im_anim = None\<rparr> store_default))
   \<noteq> None"
  using eviction_is_minimal [OF store_default_ok, of "\<lparr>im_id = 7, im_protocol = Sixel, im_format = RgbaFmt,
     im_w = 1, im_h = 1, im_data = ''q'', im_iterm_args = None, im_generation = 1, im_frames = [],
     im_anim = None\<rparr>" "fst (store_insert \<lparr>im_id = 7, im_protocol = Sixel, im_format = RgbaFmt, im_w = 1,
     im_h = 1, im_data = ''q'', im_iterm_args = None, im_generation = 1, im_frames = [], im_anim = None\<rparr>
     store_default)"]
  by simp

section \<open>Keyboard flags\<close>

text \<open>
  Pushing keyboard flags keeps the newest history: after any pushes the stack followed by the
  current flags is the last 33 entries of everything pushed, oldest dropped first.
\<close>

theorem kitty_pushes_keep_newest:
  assumes "ks_ok k"
  shows "ks_history (foldl (\<lambda>k f. ks_push f k) k fs)
    = drop (length (ks_history k) + length fs - Suc kitty_stack_cap) (ks_history k @ fs)"
  using ks.run_items [of k fs] assms
  by (simp add: ks_ok_def ks_history_def ks_history_cap_def)

theorem kitty_pushes_keep_newest_witness:
  "ks_history (foldl (\<lambda>k f. ks_push f k) ks_default [1, 5]) = [0, 1, 5]"
  using kitty_pushes_keep_newest [of ks_default "[1, 5]"]
  by (simp add: ks_ok_def ks_default_def ks_history_def kitty_stack_cap_def)

text \<open>
  Popping undoes pushing while the stack is below its cap, popping more than was pushed leaves the
  default flags, and the other screen's stack is not touched.
\<close>

theorem kitty_pop_push:
  assumes "fs \<noteq> []" "length (ks_stack (kbd_active b k)) + length fs \<le> kitty_stack_cap"
  shows "kbd_active b (kitty_pop b (length fs) (foldl (\<lambda>k f. kitty_push b f k) k fs)) = kbd_active b k
    \<and> (length (ks_stack (kbd_active b k)) < n \<longrightarrow> kbd_active b (kitty_pop b n k) = ks_default)
    \<and> (b \<noteq> c \<longrightarrow> kbd_active c (kitty_pop b n (kitty_push b f k)) = kbd_active c k)"
  using kitty_pop_pushes [OF assms] kitty_other_screen [of b c]
  by (simp add: kitty_pop_active ks_pop_all)

theorem kitty_pop_push_witness:
  "kbd_active Alt (kitty_pop Alt 2 (kitty_push Alt 5 (kitty_push Alt 1 kbd_default))) = ks_default"
proof -
  have d: "kbd_active Alt kbd_default = ks_default" by (simp add: kbd_default_def kbd_active_def)
  then have "length (ks_stack (kbd_active Alt kbd_default)) + length [1 :: 8 word, 5] \<le> kitty_stack_cap"
    by (simp add: ks_default_def kitty_stack_cap_def)
  from conjunct1 [OF kitty_pop_push [OF _ this]] show ?thesis by (simp add: d numeral_2_eq_2)
qed

section \<open>Scrollback, notifications, hyperlinks\<close>

text \<open>
  The scrollback holds the newest rows: the last \<open>sb_cap\<close> of everything ever pushed, in order.\<close>

theorem scrollback_keeps_newest:
  assumes "sb_ok sb"
  shows "sb_rows (foldl (\<lambda>sb r. snd (sb_push r sb)) sb rs)
    = drop (length (sb_rows sb) + length rs - sb_cap sb) (sb_rows sb @ rs)"
  using sb.run_items [of sb rs] assms by (simp add: sb_ok_def)

theorem scrollback_keeps_newest_witness:
  "sb_rows (foldl (\<lambda>sb r. snd (sb_push r sb)) (with_cap 1) [blank_row 1, blank_row 2]) = [blank_row 2]"
  using scrollback_keeps_newest [of "with_cap 1" "[blank_row 1, blank_row 2]"]
  by (simp add: with_cap_def sb_ok_def)

text \<open>
  A URL interned in a well-formed table is found under the id it got, keeps that id when interned
  again, and no earlier id changes its meaning; interning fails only when the table is full.
\<close>

theorem hyperlink_interning:
  assumes "links_ok t" "intern url t = (r, t')"
  shows "(case r of Some i \<Rightarrow> link_get i t' = Some url \<and> intern url t' = (Some i, t')
          | None \<Rightarrow> url \<notin> set (urls t) \<and> u16_max \<le> length (urls t))
    \<and> (\<forall>j u. link_get j t = Some u \<longrightarrow> link_get j t' = Some u) \<and> links_ok t'"
proof -
  have p: "fst (intern url t) = r" "snd (intern url t) = t'" using assms(2) by simp_all
  show ?thesis
    using intern_get [OF assms(1)] intern_idem [OF assms(1)] intern_full [of url t]
      intern_stable [of _ t _ url] intern_ok [OF assms(1), of url] p
    by (cases r) auto
qed

theorem hyperlink_interning_witness:
  "link_get 0 (snd (intern (lit ''a'') link_table_default)) = Some (lit ''a'')"
  using hyperlink_interning [OF links_default_ok, of "lit ''a''" "Some 0"
      "link_table_default\<lparr>urls := [lit ''a'']\<rparr>"]
  by (simp add: intern_def link_table_default_def as_u16_def u16_max_def)

section \<open>Tab stops\<close>

text \<open>
  A tab goes to the nearest stop to the right and a back-tab to the nearest stop to the left, and
  reports none exactly when there is none.
\<close>

theorem tab_stops_nearest:
  assumes "length t \<le> u16_max"
  shows "(tabs_next t c = Some n \<longleftrightarrow> c < n \<and> n < length t \<and> t ! n \<and> (\<forall>j. c < j \<and> j < n \<longrightarrow> \<not> t ! j))
    \<and> (tabs_prev t c = Some n \<longleftrightarrow>
         n < c \<and> n < length t \<and> t ! n \<and> (\<forall>j. n < j \<and> j < c \<and> j < length t \<longrightarrow> \<not> t ! j))
    \<and> (tabs_next t c = None \<longleftrightarrow> (\<forall>j. c < j \<and> j < length t \<longrightarrow> \<not> t ! j))"
  by (intro conjI tabs_next_Some tabs_prev_Some tabs_next_None assms)

theorem tab_stops_nearest_witness:
  "tabs_next [False, True] 0 = Some 1 \<and> tabs_prev [True, False] 1 = Some 0"
  using tab_stops_nearest [of "[False, True]" 0 1] tab_stops_nearest [of "[True, False]" 1 0]
  by (auto simp: u16_max_def)

text \<open>
  Resizing the tab stops keeps every stop that is still on the line, seeds the default stops on
  new columns, and from default stops gives the default stops of the new width.
\<close>

theorem tab_stops_resize:
  "length (tabs_resize t cols) = cols
   \<and> tabs_resize t cols = map (\<lambda>i. if i < length t then t ! i else i mod default_interval = 0) [0..<cols]
   \<and> tabs_resize (tabs_new a) b = tabs_new b"
  by (auto intro!: nth_equalityI simp: tabs_resize_length tabs_resize_nth tabs_resize_new)

section \<open>Row marks\<close>

text \<open>
  The exit code and the duration of a row mark are set and read back independently, and merging a
  second mark into a first takes what the second carries and keeps the first's otherwise.
\<close>

theorem row_mark_fields:
  "mark_exit (set_duration d (set_exit ex m)) = ex \<and> duration_ms (set_exit ex (set_duration d m)) = d
   \<and> mark_exit (mark_merge m other) = (case mark_exit other of Some c \<Rightarrow> Some c | None \<Rightarrow> mark_exit m)
   \<and> duration_ms (mark_merge m other)
       = (case duration_ms other of Some c \<Rightarrow> Some c | None \<Rightarrow> duration_ms m)
   \<and> prompt_end_col (mark_merge m other)
       = (case prompt_end_col other of Some c \<Rightarrow> Some c | None \<Rightarrow> prompt_end_col m)"
  by (simp add: exit_set_duration exit_set_exit duration_set_exit duration_set_duration exit_merge
      duration_merge prompt_end_merge)

section \<open>Codecs\<close>

text \<open>
  Hex decoding inverts hex encoding, as XTGETTCAP's requests and replies need.\<close>

theorem hex_round_trip: "hex_decode (hex_encode bs) = Some bs"
  by (rule hex_decode_encode)

text \<open>
  The standard library's UTF-8 decoder, as the code uses it, accepts the encoding of every string of
  Unicode scalar values and gives the string back; the lossy decoder agrees.
\<close>

theorem utf8_round_trip:
  assumes "list_all is_scalar s"
  shows "from_utf8 (utf8_encode s) = Some s \<and> from_utf8_lossy (utf8_encode s) = s"
  using from_utf8_encode [OF assms] from_utf8_lossy_valid by blast

theorem utf8_round_trip_witness:
  "from_utf8 (utf8_encode [0x41, 0xE9, 0x20AC, 0x1F600]) = Some [0x41, 0xE9, 0x20AC, 0x1F600]"
  using utf8_round_trip [of "[0x41, 0xE9, 0x20AC, 0x1F600]"] by (simp add: is_scalar_def)

section \<open>Pre-scan\<close>

text \<open>
  C19: Where the pre-scan of the byte stream is cut into reads does not matter: scanning two reads one
  after the other forwards the same bytes and the same graphics commands, in the same order, as
  scanning them as one.
\<close>

theorem prescan_split_invariant:
  "prescan_items (as @ bs) p = prescan_items as p @ prescan_items bs (snd (prescan as p))"
  by (rule prescan_split_items)

text \<open>
  The pre-scan takes the byte 9D for an OSC introducer also inside UTF-8 text: after a closing
  quotation mark (U+201D is E2 80 9D) it counts plain text as an OSC body, and forwards no more than the
  OSC cap of it until an ESC, BEL, CAN or SUB comes.
\<close>

theorem utf8_text_capped_as_osc:
  assumes "ps_scan p = ScGround" "list_all osc_body bs"
  shows "prescan_items (utf8_encode [0x201D] @ bs) p
    = map Inl (utf8_encode [0x201D] @ take osc_cap bs)"
proof -
  have enc: "utf8_encode [0x201D] = [CHR 0xE2, CHR 0x80, CHR 0x9D]"
    by (simp add: utf8_encode_def utf8_char_def char_of_def bit_Suc_0_iff)
  define s0 where "s0 = \<lparr>sc_state = ps_scan p, sc_apc = ps_apc p, sc_osc_len = ps_osc_len p,
     sc_segs = [], sc_run = []\<rparr>"
  have s: "foldl scan_byte s0 (utf8_encode [0x201D])
      = s0\<lparr>sc_state := ScOsc, sc_osc_len := 0, sc_run := utf8_encode [0x201D]\<rparr>"
    using assms(1) by (simp add: enc s0_def scan_byte_def forward_def ESC_def)
  show ?thesis
    unfolding prescan_items_stream foldl_append s0_def [symmetric] s
    by (subst scan_osc_body) (use assms(2) in \<open>simp_all add: stream_def s0_def\<close>)
qed

theorem utf8_text_capped_as_osc_witness:
  "length (prescan_items (utf8_encode [0x201D] @ replicate (osc_cap + 5) CHR ''a'') (parser_new ()))
     = osc_cap + 3"
proof -
  have "list_all osc_body (replicate (osc_cap + 5) CHR ''a'')" by (simp add: list_all_iff osc_body_def ESC_def)
  from utf8_text_capped_as_osc [OF _ this, of "parser_new ()"] show ?thesis
    by (simp add: parser_new_def utf8_encode_def utf8_char_def)
qed

text \<open>
  The parser's memory is bounded whatever the child sends: the APC buffer, the OSC count, the DCS
  payload and the pending text stay within their caps through any number of reads.
\<close>

theorem parser_memory_bounded:
  "parser_bounded (fst (foldl (\<lambda>ps bs. parser_advance vadv step seg now bs ps) (parser_new v, s) reads))"
proof (rule foldl_inv [where P = "\<lambda>ps. parser_bounded (fst ps)"])
  show "parser_bounded (fst (parser_new v, s))"
    by (simp add: parser_bounded_def parser_new_def utf8_len_def)
qed (rule parser_advance_bounded)

text \<open>
  A sixel image that has dimensions at all has positive ones.\<close>

theorem sixel_dimensions_positive:
  assumes "sixel_dimensions payload = Some (w, h)"
  shows "0 < w \<and> 0 < h"
  using assms by (rule sixel_dimensions_pos)

theorem sixel_dimensions_positive_witness:
  "\<exists>w h. sixel_dimensions ''~~'' = Some (w, h) \<and> 0 < w \<and> 0 < h"
proof -
  have "sixel_dimensions ''~~'' = Some (2, 6)"
    by (simp add: sixel_dimensions_def sixel_raster_def smul32_def u32_max_def sixel_data_def sadd32_def)
  from sixel_dimensions_positive [OF this] this show ?thesis by blast
qed

end
