(* ===== verification/Screen_Props.thy ===== *)
theory Screen_Props
  imports Screen_Pairs
begin

text \<open>
  What single operations of the screen do, in closed form: scrolling, inserting and deleting cells,
  printing, SGR, mode reports, shell-integration marks and notifications.
\<close>

definition unit_width :: "rstr \<Rightarrow> nat" where
  "unit_width g = (if g = [] then 0 else 1)"

lemma nth_opt_map_row:
  "nth_opt (g_rows (map_row r f g)) i
     = (if i = r then map_option f (nth_opt (g_rows g) i) else nth_opt (g_rows g) i)"
  by (auto simp: map_row_def nth_opt_def)

lemma get_put_cell:
  assumes "grid_wf g" "r < length (g_rows g)" "c < g_cols g"
  shows "get_cell (put_cell g r c x) r c = Some x"
  using assms by (simp add: get_cell_def put_cell_def map_row_def grid_wf_def nth_opt_def)

section \<open>Scrolling\<close>

text \<open>
  Scrolling a region up by \<open>n\<close> moves its rows up, hands the first \<open>n\<close> of them out in order when
  asked to, fills with blank rows from below and leaves every row outside the region in place; scrolling
  down is the mirror image.
\<close>

theorem scroll_closed_form:
  assumes "grid_wf g" "tp \<le> bt" "bt < length (g_rows g)" "n \<le> Suc bt - tp"
  shows "scroll_up g tp bt n (Some ps) =
      (g\<lparr>g_rows := take tp (g_rows g) @ take (Suc bt - tp - n) (drop (tp + n) (g_rows g))
          @ replicate n (blank_row (g_cols g)) @ drop (Suc bt) (g_rows g)\<rparr>,
       Some (ps @ take n (drop tp (g_rows g))))
    \<and> scroll_down g tp bt n =
      g\<lparr>g_rows := take tp (g_rows g) @ replicate n (blank_row (g_cols g))
          @ take (Suc bt - tp - n) (drop tp (g_rows g)) @ drop (Suc bt) (g_rows g)\<rparr>"
proof -
  have "min bt (length (g_rows g) - 1) = bt" "min n (Suc bt - tp) = n" using assms by auto
  with assms show ?thesis by (simp add: scroll_up_eq scroll_down_rows Let_def)
qed

theorem scroll_closed_form_witness:
  "snd (scroll_up (grid_new 3 1) 0 2 1 (Some [])) = Some [blank_row 1]"
  using scroll_closed_form [of "grid_new 3 1" 0 2 1 "[]"]
  by (simp add: grid_new_def grid_wf_def u16_max_def)

section \<open>Inserting and deleting cells\<close>

text \<open>
  ICH opens \<open>n\<close> blank cells at the cursor and drops the cells pushed off the right edge, DCH closes
  \<open>n\<close> cells and fills from the right; on a row without wide characters that is all they do.
\<close>

theorem insert_delete_cells_closed_form:
  assumes "c < length cs" "n \<le> length cs - c" "g_cols g = length cs" "nth_opt (g_rows g) r = Some rw"
    and "cells rw = cs" "\<forall>x \<in> set (default_cell # cs). \<not> is_wide wd x \<and> \<not> is_wide_spacer x"
  shows "map_option cells (nth_opt (g_rows (insert_cells wd g r c n)) r)
      = Some (take c cs @ replicate n default_cell @ take (length cs - c - n) (drop c cs))
    \<and> map_option cells (nth_opt (g_rows (delete_cells wd g r c n)) r)
      = Some (take c cs @ drop (c + n) cs @ replicate n default_cell)"
proof -
  let ?i = "take c cs @ replicate n default_cell @ take (length cs - c - n) (drop c cs)"
  let ?d = "take c cs @ drop (c + n) cs @ replicate n default_cell"
  have id: "normalize_wide_pairs wd ds = ds" if "\<forall>x \<in> set ds. \<not> is_wide wd x \<and> \<not> is_wide_spacer x" for ds
    using that by (intro normalize_id) (auto simp: pairs_ok_def pair_ok_at_def)
  have "normalize_wide_pairs wd ?i = ?i" "normalize_wide_pairs wd ?d = ?d"
    using assms(6) by (intro id; auto dest: in_set_takeD in_set_dropD)+
  moreover have "min n (g_cols g - c) = n" using assms(2,3) by simp
  ultimately show ?thesis
    using assms insert_loop [of c cs n default_cell] delete_loop [of c cs n default_cell]
    by (simp add: insert_cells_def delete_cells_def Let_def nth_opt_map_row)
qed

theorem insert_delete_cells_closed_form_witness:
  "map_option cells (nth_opt (g_rows (insert_cells unit_width (grid_new 1 3) 0 1 1)) 0)
     = Some (replicate 3 default_cell)"
proof -
  have "\<not> is_wide unit_width default_cell \<and> \<not> is_wide_spacer default_cell"
    by (simp add: is_wide_def default_cell_def is_wide_spacer_def display_width_def unit_width_def u16_max_def)
  then show ?thesis
    using insert_delete_cells_closed_form [of 1 "replicate 3 default_cell" 1 "grid_new 1 3" 0 "blank_row 3"
        unit_width]
    by (simp add: grid_new_def blank_row_def nth_opt_def numeral_3_eq_3)
qed

section \<open>Printing\<close>

lemma write_narrow_effect:
  assumes "screen_wf s" "col (cursor s) < g_cols (active s)" "w < 2"
  shows "get_cell (active (write_cluster wd w g s)) (row (cursor s)) (col (cursor s))
      = Some (cursor_cell g (cursor s))"
    "i \<noteq> row (cursor s) \<Longrightarrow>
       nth_opt (g_rows (active (write_cluster wd w g s))) i = nth_opt (g_rows (active s)) i"
    "cursor (write_cluster wd w g s) = cursor s"
    "g_cols (active (write_cluster wd w g s)) = g_cols (active s)"
proof -
  define t where "t = clear_wide_straddle wd (col (cursor s)) (advance (col (cursor s)) 0) s"
  have t: "screen_wf t" "cursor t = cursor s" "g_cols (active t) = g_cols (active s)"
    using assms(1) by (simp_all add: t_def wf_straddle)
  have w: "write_cluster wd w g s = put_cell_at_cursor (cursor_cell g (cursor s)) t"
    using assms(3) t(2) by (simp add: write_cluster_def Let_def flip: t_def)
  show "get_cell (active (write_cluster wd w g s)) (row (cursor s)) (col (cursor s))
      = Some (cursor_cell g (cursor s))"
    using get_put_cell [OF wf_grid [OF t(1)]] wf_cursor(1) [OF t(1)] assms(2) t(2,3)
    by (simp add: w put_cell_at_cursor_def)
  show "i \<noteq> row (cursor s) \<Longrightarrow>
      nth_opt (g_rows (active (write_cluster wd w g s))) i = nth_opt (g_rows (active s)) i"
    using t(2) by (simp add: w put_cell_at_cursor_def put_cell_def nth_opt_map_row)
      (simp add: t_def clear_wide_straddle_def Let_def put_cell_def nth_opt_map_row)
  show "cursor (write_cluster wd w g s) = cursor s"
    "g_cols (active (write_cluster wd w g s)) = g_cols (active s)"
    using t by (simp_all add: w)
qed

lemma put_narrow_steps:
  assumes "wd g = 1" "active_charset s = Ascii" "\<not> pending_wrap (cursor s)"
  shows "put_grapheme wd g s = step_right (write_cluster wd 1 g (s\<lparr>last_graphic := Some g\<rparr>))"
  using assms
  by (simp add: put_grapheme_def mapped_cluster_def as_u16_def u16_max_def resolve_wrap_def make_room_wide_def)

text \<open>
  Printing a one-column character with no wrap pending writes it, with the current pen, into the cell
  under the cursor, touches no other row, and moves the cursor one column right -- or, in the last
  column, leaves it there with a wrap pending.
\<close>

theorem print_narrow:
  assumes "screen_wf s" "wd g = 1" "active_charset s = Ascii" "\<not> pending_wrap (cursor s)"
    and "col (cursor s) < g_cols (active s)"
  shows "let t = put_grapheme wd g s; r = row (cursor s); c = col (cursor s)
    in get_cell (active t) r c = Some (cursor_cell g (cursor s))
       \<and> (\<forall>i. i \<noteq> r \<longrightarrow> nth_opt (g_rows (active t)) i = nth_opt (g_rows (active s)) i)
       \<and> row (cursor t) = r
       \<and> (if c + 1 < g_cols (active s) then col (cursor t) = c + 1 \<and> \<not> pending_wrap (cursor t)
          else col (cursor t) = c \<and> pending_wrap (cursor t))"
proof -
  define u where "u = s\<lparr>last_graphic := Some g\<rparr>"
  have u: "screen_wf u" "cursor u = cursor s" "active u = active s"
    using assms(1) by (simp_all add: u_def)
  have le: "c + 1 < g_cols (active s) \<Longrightarrow> advance c 1 = c + 1" for c
    using wf_pos(4) [OF assms(1)] by (simp add: advance_def sadd16_def)
  have "col (cursor u) < g_cols (active u)" using assms(5) u by simp
  note e = write_narrow_effect [where w = 1 and wd = wd and g = g, OF u(1) this]
  have "put_grapheme wd g s = step_right (write_cluster wd 1 g u)"
    unfolding u_def using assms(2-4) by (rule put_narrow_steps)
  then show ?thesis
    using e u le [of "col (cursor s)"] assms(4) by (simp add: step_right_def Let_def)
qed

theorem print_narrow_witness:
  "get_cell (active (put_grapheme unit_width (lit ''x'') (screen_new 2 3))) 0 0
     = Some (cursor_cell (lit ''x'') cursor_default)"
proof -
  have "screen_wf (screen_new 2 3)" by (simp add: screen_new_wf u16_max_def)
  moreover have "active_charset (screen_new 2 3) = Ascii" "cursor (screen_new 2 3) = cursor_default"
    "g_cols (active (screen_new 2 3)) = 3"
    by (simp_all add: screen_new_def active_charset_def grid_new_def)
  ultimately show ?thesis
    using print_narrow [of "screen_new 2 3" unit_width "lit ''x''"]
    by (simp add: unit_width_def cursor_default_def lit_def Let_def)
qed

text \<open>
  A two-column character printed on a one-column grid leaves the cursor in column 1, one past the
  only column.
\<close>

theorem wide_on_one_column:
  assumes "screen_wf s" "g_cols (active s) = 1" "wd (mapped_cluster s g) = 2"
  shows "col (cursor (put_grapheme wd g s)) = 1"
proof -
  define t where "t = make_room_wide wd 2 (resolve_wrap (s\<lparr>last_graphic := Some (mapped_cluster s g)\<rparr>))"
  have "screen_wf (resolve_wrap (s\<lparr>last_graphic := Some (mapped_cluster s g)\<rparr>))"
    using assms(1) by (intro wf_resolve_wrap) simp
  moreover have "g_cols (active (resolve_wrap (s\<lparr>last_graphic := Some (mapped_cluster s g)\<rparr>))) = 1"
    using assms(1,2) by (simp add: resolve_wrap_cols)
  ultimately have t: "g_cols (active t) = 1" "col (cursor t) = 0"
    unfolding t_def using make_room_cols make_room_col [of _ 2 wd] by fastforce+
  have "col (cursor (write_cluster wd 2 (mapped_cluster s g) t)) = 1"
    "g_cols (active (write_cluster wd 2 (mapped_cluster s g) t)) = 1"
    using t by (simp_all add: write_cluster_def Let_def advance_def sadd16_def u16_max_def)
  then show ?thesis
    using assms(3) by (simp add: put_grapheme_def Let_def as_u16_def u16_max_def step_right_def flip: t_def)
qed

theorem wide_on_one_column_witness:
  "col (cursor (put_grapheme (\<lambda>_. 2) (lit ''x'') (screen_new 2 1))) = 1"
  by (rule wide_on_one_column) (simp_all add: screen_new_wf u16_max_def, simp add: screen_new_def grid_new_def)

section \<open>SGR\<close>

text \<open>
  Whatever its parameters, an SGR sequence changes nothing but the pen: the rest of the screen and
  the cursor's position, wrap flag, hyperlink, visibility and shape stay.\<close>

theorem sgr_changes_pen_only:
  "handle_sgr ps s = s\<lparr>cursor := cursor (handle_sgr ps s)\<rparr> \<and> same_pos (cursor (handle_sgr ps s)) (cursor s)"
  using sgr_only_cursor sgr_cursor by blast

text \<open>
  A styled underline that follows a reset in one sequence is lost: \<open>CSI 0;4:3 m\<close> leaves the pen
  without any attribute and without underline, because \<open>4:3\<close> acts on the pen before the \<open>0\<close> that was
  sent first.
\<close>

theorem styled_underline_after_reset_lost:
  "attrs (cursor (handle_sgr [[0], [4, Suc style]] s)) = 0
   \<and> underline_style (cursor (handle_sgr [[0], [4, Suc style]] s)) = UlNone"
  by (simp add: handle_sgr_def sgr_group_def sgr_code_def sgr_reset_def is_color_sel_def)

section \<open>Modes\<close>

text \<open>
  DECRQM tells the truth: after a private mode that the terminal knows is set or reset, its report
  for that mode is 1 or 2.
\<close>

theorem decrqm_after_set_mode:
  assumes "private_mode_flag n = Some flag"
  shows "decrqm_state (modes (set_mode [[n]] ''?'' on s)) n = (if on then 1 else 2)"
proof -
  have "decrqm_flag n = Some flag" "flag \<noteq> 0" "n \<noteq> 6" "n \<noteq> 1049"
    using assms by (auto simp: private_mode_flag_def decrqm_flag_def mode_bits split: if_splits)
  then show ?thesis
    using assms by (simp add: set_mode_def set_dec_private_mode_def set_flag_def decrqm_state_def head_opt_def)
qed

theorem decrqm_after_set_mode_witness:
  "decrqm_state (modes (set_mode [[2004]] ''?'' True (screen_new 2 2))) 2004 = 1"
  using decrqm_after_set_mode [of 2004 M_BRACKETED_PASTE True "screen_new 2 2"]
  by (simp add: private_mode_flag_def)

section \<open>Shell integration\<close>

text \<open>
  A command's end (\<open>OSC 133;D\<close>) on the main screen marks the cursor's row with the exit code it
  carries and the time since \<open>OSC 133;C\<close>, counts one more completed block, and forgets the start time,
  so that a second end has no duration.
\<close>

theorem command_end_recorded:
  assumes "alt s = None" "row (cursor s) < length (g_rows (active s))"
  shows "let t = handle_osc_133 now [''133'', ''D'', code] s;
             m = mark (g_rows (active t) ! row (cursor s));
             ex = osc_133_exit [''133'', ''D'', code];
             dur = map_option (\<lambda>start. min (now - start) u32_max) (pending_command_start s)
    in mark_exit m = ex \<and> duration_ms m = dur \<and> last_block_exit t = ex \<and> last_block_duration t = dur
       \<and> blocks_completed t = wadd64 (blocks_completed s) 1 \<and> pending_command_start t = None"
  using assms
  by (simp add: handle_osc_133_def nth_opt_def Let_def mark_cursor_row_def map_row_def exit_set_duration
      exit_set_exit duration_set_duration)

theorem command_end_recorded_witness:
  "last_block_duration (handle_osc_133 1500 [''133'', ''D'', ''0'']
      ((screen_new 2 2)\<lparr>pending_command_start := Some 300\<rparr>)) = Some 1200"
  using command_end_recorded [of "(screen_new 2 2)\<lparr>pending_command_start := Some 300\<rparr>" 1500 "''0''"]
  by (simp add: screen_new_def Let_def grid_new_def cursor_default_def u32_max_def)

section \<open>Notifications\<close>

text \<open>
  However many notifications a program sends between two drains, the queue holds the newest 64, in
  the order they came.
\<close>

theorem notifications_keep_newest:
  assumes "length (pending_notifications s) \<le> max_notifications"
  shows "pending_notifications (foldl (\<lambda>s n. push_notification n s) s ns)
    = drop (length (pending_notifications s) + length ns - max_notifications) (pending_notifications s @ ns)"
proof -
  have "pending_notifications (foldl (\<lambda>s n. push_notification n s) s ns)
      = foldl (\<lambda>xs x. push_capped (Suc 63) x xs) (pending_notifications s) ns"
    by (induction ns arbitrary: s) (simp_all add: push_notification_def max_notifications_def)
  then show ?thesis
    using capped.run_items [of "pending_notifications s" 63 ns] assms by (simp add: max_notifications_def)
qed

theorem notifications_keep_newest_witness:
  "pending_notifications (foldl (\<lambda>s n. push_notification n s) (screen_new 2 2)
     [\<lparr>nt_title = [], nt_body = lit ''a''\<rparr>, \<lparr>nt_title = [], nt_body = lit ''b''\<rparr>])
   = [\<lparr>nt_title = [], nt_body = lit ''a''\<rparr>, \<lparr>nt_title = [], nt_body = lit ''b''\<rparr>]"
  by (subst notifications_keep_newest) (simp_all add: screen_new_def max_notifications_def)

end
