(* ===== verification/Float32.thy ===== *)
theory Float32
  imports Complex_Main Prelude
begin

text \<open>
  The part of IEEE 754 single precision the code computes with: the split ratios of
  \<open>layout.rs\<close>, \<open>rect.rs\<close> and \<open>preset.rs\<close> are \<open>f32\<close>.  A finite value is the rational it denotes
  (the two zeros are one value: nothing in the code tells them apart), and every operation rounds
  its exact result to the nearest representable number, ties to even.  \<open>f32_expo\<close> is the binary
  exponent of a positive rational, found by halving or doubling.
\<close>

datatype f32 = F32 rat | F32_inf bool | F32_nan

section \<open>Binary exponent\<close>

function f32_expo :: "rat \<Rightarrow> int" where
  "f32_expo x =
     (if x \<le> 0 then 0
      else if x \<ge> 2 then f32_expo (x / 2) + 1
      else if x < 1 then f32_expo (2 * x) - 1
      else 0)"
  by pat_completeness auto
termination
proof (relation "measure (\<lambda>x. nat \<lceil>if x \<ge> 2 then x else if x < 1 then 1 / x else 0\<rceil>)", goal_cases)
  case 1
  then show ?case by simp
next
  case (2 x)
  have "\<lceil>x / 2\<rceil> \<le> \<lceil>x - 1\<rceil>"
    using 2 by (intro ceiling_mono) simp
  then show ?case
    using 2 by (auto simp: ceiling_diff_one)
next
  case (3 x)
  show ?case
  proof (cases "2 * x < 1")
    case True
    have "1 / (2 * x) \<le> 1 / x - 1"
      using 3 True by (simp add: field_simps)
    then have "\<lceil>1 / (2 * x)\<rceil> \<le> \<lceil>1 / x - 1\<rceil>"
      by (rule ceiling_mono)
    moreover have "\<lceil>1 / (2 * x)\<rceil> > 0"
      using 3 by simp
    ultimately show ?thesis
      using 3 True by (simp add: ceiling_diff_one)
  next
    case False
    then show ?thesis using 3 by simp
  qed
qed

declare f32_expo.simps [simp del]

text \<open>A positive number lies between the power of two of its exponent and the next.\<close>

lemma f32_expo_bounds: "0 < x \<Longrightarrow> 2 powi f32_expo x \<le> x \<and> x < 2 powi (f32_expo x + 1)"
proof (induction x rule: f32_expo.induct)
  case (1 x)
  consider "x \<ge> 2" | "x < 1" | "1 \<le> x" "x < 2"
    by linarith
  then show ?case
  proof cases
    case 1
    then have "2 powi f32_expo (x / 2) \<le> x / 2 \<and> x / 2 < 2 powi (f32_expo (x / 2) + 1)"
      using "1.IH"(1) by simp
    then show ?thesis
      using 1 by (subst (1 2) f32_expo.simps) (simp add: power_int_add field_simps)
  next
    case 2
    then have "2 powi f32_expo (2 * x) \<le> 2 * x \<and> 2 * x < 2 powi (f32_expo (2 * x) + 1)"
      using "1.IH"(2) "1.prems" by simp
    then show ?thesis
      using 2 "1.prems" by (subst (1 2) f32_expo.simps) (simp add: power_int_add power_int_diff field_simps)
  next
    case 3
    then show ?thesis
      by (subst (1 2) f32_expo.simps) simp
  qed
qed

section \<open>Rounding\<close>

definition round_half_even :: "rat \<Rightarrow> int" where
  "round_half_even q =
     (let f = \<lfloor>q\<rfloor>; r = q - of_int f
      in if r < 1 / 2 \<or> (r = 1 / 2 \<and> even f) then f else f + 1)"

definition f32_tiny :: rat where
  "f32_tiny = 2 powi (- 126)"

definition f32_rat :: "rat \<Rightarrow> rat" where
  "f32_rat x =
     (if x = 0 then 0
      else let u = 2 powi (max (f32_expo \<bar>x\<bar>) (- 126) - 23)
           in of_int (round_half_even (x / u)) * u)"

definition f32_round :: "rat \<Rightarrow> f32" where
  "f32_round x = (let y = f32_rat x in if \<bar>y\<bar> < 2 ^ 128 then F32 y else F32_inf (x > 0))"

lemma f32_tiny_pos: "0 < f32_tiny"
  unfolding f32_tiny_def by (rule zero_less_power_int) simp

lemma round_half_even_error: "\<bar>of_int (round_half_even q) - q\<bar> \<le> 1 / 2"
proof -
  define f where "f = \<lfloor>q\<rfloor>"
  have "of_int f \<le> q" "q < of_int f + 1"
    using floor_correct [of q] by (simp_all add: f_def)
  then show ?thesis
    unfolding round_half_even_def Let_def f_def [symmetric] by (auto simp: abs_if)
qed

text \<open>Rounding moves a number of the normal range by at most \<open>2\<^sup>-\<^sup>2\<^sup>4\<close> of itself.\<close>

lemma f32_rat_error:
  assumes "f32_tiny \<le> x"
  shows "\<bar>f32_rat x - x\<bar> \<le> x / 2 ^ 24"
proof -
  have pos: "0 < x"
    using f32_tiny_pos assms by (rule less_le_trans)
  define e where "e = max (f32_expo \<bar>x\<bar>) (- 126)"
  define u :: rat where "u = 2 powi (e - 23)"
  have "2 powi (f32_expo x) \<le> x" "2 powi (- 126) \<le> x"
    using f32_expo_bounds [OF pos] assms unfolding f32_tiny_def by blast+
  then have "2 powi e \<le> x"
    unfolding e_def max_def abs_of_pos [OF pos] by (cases "f32_expo x \<le> - 126") (simp_all only: if_True if_False)
  moreover have u: "u = 2 powi e / 2 ^ 23" "0 < u"
    by (simp_all add: u_def power_int_diff)
  ultimately have ux: "u \<le> x / 2 ^ 23"
    by (simp add: field_simps)
  have "f32_rat x = of_int (round_half_even (x / u)) * u"
    using pos by (simp add: f32_rat_def Let_def e_def u_def)
  then have "f32_rat x - x = (of_int (round_half_even (x / u)) - x / u) * u"
    using u(2) by (simp add: left_diff_distrib)
  then have "\<bar>f32_rat x - x\<bar> = \<bar>of_int (round_half_even (x / u)) - x / u\<bar> * u"
    using u(2) by (simp only: abs_mult abs_of_pos)
  also have "\<dots> \<le> 1 / 2 * u"
    using round_half_even_error u by (intro mult_right_mono) auto
  also have "\<dots> \<le> x / 2 ^ 24"
    using ux by simp
  finally show ?thesis .
qed

section \<open>Operations\<close>

fun f32_finite :: "f32 \<Rightarrow> bool" where
  "f32_finite (F32 _) = True"
| "f32_finite _ = False"

fun f32_neg :: "f32 \<Rightarrow> f32" where
  "f32_neg (F32 x) = F32 (- x)"
| "f32_neg (F32_inf s) = F32_inf (\<not> s)"
| "f32_neg F32_nan = F32_nan"

fun f32_add :: "f32 \<Rightarrow> f32 \<Rightarrow> f32" where
  "f32_add (F32 x) (F32 y) = f32_round (x + y)"
| "f32_add (F32_inf s) (F32 y) = F32_inf s"
| "f32_add (F32 x) (F32_inf s) = F32_inf s"
| "f32_add (F32_inf s) (F32_inf t) = (if s = t then F32_inf s else F32_nan)"
| "f32_add _ _ = F32_nan"

fun f32_mul :: "f32 \<Rightarrow> f32 \<Rightarrow> f32" where
  "f32_mul (F32 x) (F32 y) = f32_round (x * y)"
| "f32_mul (F32_inf s) (F32 y) = (if y = 0 then F32_nan else F32_inf (s = (y > 0)))"
| "f32_mul (F32 x) (F32_inf s) = (if x = 0 then F32_nan else F32_inf (s = (x > 0)))"
| "f32_mul (F32_inf s) (F32_inf t) = F32_inf (s = t)"
| "f32_mul _ _ = F32_nan"

text \<open>Division; the divisors of the code are finite and positive.\<close>

fun f32_div :: "f32 \<Rightarrow> f32 \<Rightarrow> f32" where
  "f32_div (F32 x) (F32 y) =
     (if y = 0 then (if x = 0 then F32_nan else F32_inf (x > 0)) else f32_round (x / y))"
| "f32_div (F32_inf s) (F32 y) = F32_inf (s = (y \<ge> 0))"
| "f32_div (F32 x) (F32_inf s) = F32 0"
| "f32_div _ _ = F32_nan"

text \<open>\<open>n as f32\<close> for an integer; exact for a \<open>u16\<close>.\<close>

definition f32_of_int :: "int \<Rightarrow> f32" where
  "f32_of_int n = f32_round (of_int n)"

text \<open>\<open>f32::round\<close>: to the nearest integer, halves away from zero.\<close>

definition rat_round :: "rat \<Rightarrow> int" where
  "rat_round x = (if x \<ge> 0 then \<lfloor>x + 1 / 2\<rfloor> else - \<lfloor>1 / 2 - x\<rfloor>)"

text \<open>\<open>x.round() as u16\<close>: the cast saturates, and gives 0 for a NaN.\<close>

fun f32_round_u16 :: "f32 \<Rightarrow> nat" where
  "f32_round_u16 (F32 x) = min (nat (rat_round x)) u16_max"
| "f32_round_u16 (F32_inf s) = (if s then u16_max else 0)"
| "f32_round_u16 F32_nan = 0"

section \<open>Rounding of products and quotients of screen sizes\<close>

lemma rat_round_near: "\<bar>x - of_int n\<bar> < 1 / 2 \<Longrightarrow> 0 \<le> n \<Longrightarrow> rat_round x = n"
proof -
  assume a: "\<bar>x - of_int n\<bar> < 1 / 2" "0 \<le> n"
  have "\<lfloor>x + 1 / 2\<rfloor> = n" "x < 0 \<Longrightarrow> \<lfloor>1 / 2 - x\<rfloor> = - n"
    using a by (auto simp: floor_eq_iff abs_if split: if_splits)
  then show ?thesis
    by (simp add: rat_round_def)
qed

lemma f32_round_finite:
  assumes "f32_tiny \<le> x" "x \<le> 2 ^ 100"
  shows "f32_round x = F32 (f32_rat x)"
proof -
  have "0 < x"
    using f32_tiny_pos assms(1) by (rule less_le_trans)
  moreover have "x / 2 ^ 24 \<le> x"
    using \<open>0 < x\<close> by (simp add: field_simps)
  ultimately have "\<bar>f32_rat x\<bar> \<le> 2 * x"
    using f32_rat_error [OF assms(1)] by linarith
  then show ?thesis
    using assms(2) by (simp add: f32_round_def Let_def)
qed

lemma f32_normal: "1 / 2 ^ 17 \<le> x \<Longrightarrow> f32_tiny \<le> x"
proof -
  assume "1 / 2 ^ 17 \<le> x"
  moreover have "f32_tiny \<le> 2 powi (- 17)"
    unfolding f32_tiny_def by (rule power_int_increasing) simp_all
  moreover have "(2 :: rat) powi (- 17) = 1 / 2 ^ 17"
    unfolding power_int_def by (simp add: power_one_over)
  ultimately show ?thesis
    by linarith
qed

text \<open>
  The fraction \<open>n/t\<close> of a screen of \<open>t\<close> cells, computed and multiplied back in single precision,
  rounds to the \<open>n\<close> it came from.
\<close>

lemma f32_fraction:
  assumes "1 \<le> n" "n \<le> t" "t \<le> 65535"
  defines "q \<equiv> of_nat n / of_nat t :: rat"
  shows "f32_round q = F32 (f32_rat q)"
    and "\<bar>of_nat t * f32_rat q - of_nat n\<bar> \<le> of_nat n / 2 ^ 24"
proof -
  have t: "(1 :: rat) \<le> of_nat n" "(of_nat n :: rat) \<le> of_nat t" "(of_nat t :: rat) \<le> 65535"
    using assms(1-3) of_nat_mono [OF assms(3), where ?'a = rat] by simp_all
  have q: "1 / 2 ^ 17 \<le> q" "q \<le> 1" "of_nat t * q = of_nat n"
    using t by (simp_all add: q_def field_simps)
  have qn: "f32_tiny \<le> q"
    using q(1) by (rule f32_normal)
  show "f32_round q = F32 (f32_rat q)"
    using qn q(2) by (intro f32_round_finite) auto
  have "\<bar>of_nat t * f32_rat q - of_nat n\<bar> = of_nat t * \<bar>f32_rat q - q\<bar>"
    by (simp add: abs_mult right_diff_distrib flip: q(3)) (metis abs_mult abs_of_nat right_diff_distrib)
  also have "\<dots> \<le> of_nat t * (q / 2 ^ 24)"
    using f32_rat_error [OF qn] by (rule mult_left_mono) simp
  finally show "\<bar>of_nat t * f32_rat q - of_nat n\<bar> \<le> of_nat n / 2 ^ 24"
    using q(3) by simp
qed

lemma f32_product_back:
  assumes "\<bar>y - of_nat n\<bar> \<le> of_nat n / 2 ^ 24" "1 \<le> n" "n \<le> 65535"
  shows "f32_round_u16 (f32_round y) = n"
proof -
  have n: "(1 :: rat) \<le> of_nat n" "(of_nat n :: rat) \<le> 65535"
    using assms(2) of_nat_mono [OF assms(3), where ?'a = rat] by simp_all
  have y: "1 / 2 \<le> y" "y \<le> 65536" "\<bar>y - of_nat n\<bar> \<le> 1 / 4"
  proof -
    have "\<bar>y - of_nat n\<bar> \<le> 1 / 4"
      using assms(1) n(2) by simp
    then show "1 / 2 \<le> y" "y \<le> 65536" "\<bar>y - of_nat n\<bar> \<le> 1 / 4"
      using n unfolding abs_le_iff by linarith+
  qed
  have yn: "f32_tiny \<le> y"
    using y(1) by (intro f32_normal) simp
  have "\<bar>f32_rat y - y\<bar> \<le> 1 / 256"
    using f32_rat_error [OF yn] y(2) by simp
  then have "\<bar>f32_rat y - of_int (int n)\<bar> < 1 / 2"
    using y(3) unfolding abs_le_iff abs_less_iff of_int_of_nat_eq by linarith
  then have "rat_round (f32_rat y) = int n"
    by (rule rat_round_near) simp
  moreover have "f32_round y = F32 (f32_rat y)"
    using yn y(2) by (intro f32_round_finite) auto
  ultimately show ?thesis
    using assms(3) by (simp add: u16_max_def)
qed

lemma f32_fraction_back:
  assumes "1 \<le> n" "n \<le> t" "t \<le> 65535"
  shows "f32_round_u16 (f32_mul (F32 (of_nat t)) (f32_round (of_nat n / of_nat t))) = n"
  using f32_product_back [OF f32_fraction(2) [OF assms]] f32_fraction(1) [OF assms] assms by simp

end
