(* ===== verification/Geometry.thy ===== *)
theory Geometry
  imports Float32
begin

text \<open>
  The multiplexer's geometry, after \<open>crates/mux/src/direction.rs\<close>, \<open>rect.rs\<close>, \<open>pane_id.rs\<close> and
  the \<open>Ratio\<close> type of \<open>layout.rs\<close>: directions, points, sizes and rectangles of \<open>u16\<close> cells, split
  ratios, and the subdivision of a rectangle with one separator line between the halves.
\<close>

section \<open>Directions and identifiers\<close>

datatype direction = DirUp | DirDown | DirLeft | DirRight

datatype split_dir = SplitHorizontal | SplitVertical

fun axis :: "direction \<Rightarrow> split_dir" where
  "axis DirUp = SplitHorizontal"
| "axis DirDown = SplitHorizontal"
| "axis DirLeft = SplitVertical"
| "axis DirRight = SplitVertical"

type_synonym pane_id = nat
type_synonym window_id = nat

section \<open>Rectangles\<close>

record point =
  pt_row :: nat
  pt_col :: nat

definition mk_point :: "nat \<Rightarrow> nat \<Rightarrow> point" where
  "mk_point r c = \<lparr>pt_row = r, pt_col = c\<rparr>"

record size =
  sz_rows :: nat
  sz_cols :: nat

definition mk_size :: "nat \<Rightarrow> nat \<Rightarrow> size" where
  "mk_size r c = \<lparr>sz_rows = r, sz_cols = c\<rparr>"

record rect =
  rc_row :: nat
  rc_col :: nat
  rc_rows :: nat
  rc_cols :: nat

definition mk_rect :: "point \<Rightarrow> size \<Rightarrow> rect" where
  "mk_rect p s =
     \<lparr>rc_row = pt_row p, rc_col = pt_col p, rc_rows = sz_rows s, rc_cols = sz_cols s\<rparr>"

definition contains :: "rect \<Rightarrow> point \<Rightarrow> bool" where
  "contains R p \<longleftrightarrow>
     pt_row p \<ge> rc_row R \<and> pt_row p < sadd16 (rc_row R) (rc_rows R) \<and>
     pt_col p \<ge> rc_col R \<and> pt_col p < sadd16 (rc_col R) (rc_cols R)"

definition bottom_edge_row :: "rect \<Rightarrow> nat" where
  "bottom_edge_row R = sadd16 (rc_row R) (rc_rows R) - 1"

definition right_edge_col :: "rect \<Rightarrow> nat" where
  "right_edge_col R = sadd16 (rc_col R) (rc_cols R) - 1"

section \<open>Split ratios\<close>

text \<open>The two bounds are the \<open>f32\<close> values of the literals \<open>0.1\<close> and \<open>0.9\<close>.\<close>

definition ratio_min :: rat where "ratio_min = 13421773 / 134217728"
definition ratio_max :: rat where "ratio_max = 15099494 / 16777216"

fun ratio_new :: "f32 \<Rightarrow> f32" where
  "ratio_new (F32 x) = F32 (if x < ratio_min then ratio_min else if x > ratio_max then ratio_max else x)"
| "ratio_new _ = F32 (1 / 2)"

definition ratio_adjust :: "f32 \<Rightarrow> f32 \<Rightarrow> f32" where
  "ratio_adjust r d = ratio_new (f32_add r d)"

fun ratio_ok :: "f32 \<Rightarrow> bool" where
  "ratio_ok (F32 x) = (ratio_min \<le> x \<and> x \<le> ratio_max)"
| "ratio_ok _ = False"

lemma ratio_min_less [simp]: "ratio_min \<le> ratio_max" "ratio_min * 2 \<le> 1" "1 \<le> ratio_max * 2"
  by (simp_all add: ratio_min_def ratio_max_def)

lemma ratio_new_ok [simp]: "ratio_ok (ratio_new f)"
  by (cases f) simp_all

lemma ratio_adjust_ok [simp]: "ratio_ok (ratio_adjust r d)"
  by (simp add: ratio_adjust_def)

lemma ratio_new_id: "ratio_ok r \<Longrightarrow> ratio_new r = r"
  by (cases r) auto

section \<open>Subdivision\<close>

text \<open>
  The number of cells the first child gets of \<open>usable\<close> cells: the ratio's share, rounded, but at
  least one and, where there are two, leaving one for the second child.
\<close>

definition first_share :: "nat \<Rightarrow> f32 \<Rightarrow> nat" where
  "first_share usable r =
     clamp 1 (max (usable - 1) 1) (f32_round_u16 (f32_mul (F32 (of_nat usable)) r))"

definition subdivide :: "rect \<Rightarrow> split_dir \<Rightarrow> f32 \<Rightarrow> rect \<times> rect" where
  "subdivide R d r =
     (case d of
        SplitHorizontal \<Rightarrow>
          if rc_rows R \<le> 1 then
            (mk_rect (mk_point (rc_row R) (rc_col R)) (mk_size (rc_rows R) (rc_cols R)),
             mk_rect (mk_point (sadd16 (rc_row R) (rc_rows R)) (rc_col R)) (mk_size 0 (rc_cols R)))
          else
            (let usable = rc_rows R - 1;
                 first_rows = first_share usable r;
                 second_rows = usable - first_rows
             in (mk_rect (mk_point (rc_row R) (rc_col R)) (mk_size first_rows (rc_cols R)),
                 mk_rect (mk_point (sadd16 (sadd16 (rc_row R) first_rows) 1) (rc_col R))
                   (mk_size second_rows (rc_cols R))))
      | SplitVertical \<Rightarrow>
          if rc_cols R \<le> 1 then
            (mk_rect (mk_point (rc_row R) (rc_col R)) (mk_size (rc_rows R) (rc_cols R)),
             mk_rect (mk_point (rc_row R) (sadd16 (rc_col R) (rc_cols R))) (mk_size (rc_rows R) 0))
          else
            (let usable = rc_cols R - 1;
                 first_cols = first_share usable r;
                 second_cols = usable - first_cols
             in (mk_rect (mk_point (rc_row R) (rc_col R)) (mk_size (rc_rows R) first_cols),
                 mk_rect (mk_point (rc_row R) (sadd16 (sadd16 (rc_col R) first_cols) 1))
                   (mk_size (rc_rows R) second_cols))))"

lemma mk_point_simps [simp]: "pt_row (mk_point r c) = r" "pt_col (mk_point r c) = c"
  by (simp_all add: mk_point_def)

lemma mk_rect_simps [simp]:
  "rc_row (mk_rect (mk_point r c) (mk_size h w)) = r"
  "rc_col (mk_rect (mk_point r c) (mk_size h w)) = c"
  "rc_rows (mk_rect (mk_point r c) (mk_size h w)) = h"
  "rc_cols (mk_rect (mk_point r c) (mk_size h w)) = w"
  by (simp_all add: mk_rect_def mk_size_def mk_point_def)

lemma first_share_bounds:
  "1 \<le> first_share usable r" "first_share usable r \<le> max (usable - 1) 1"
  using clamp_bounds [of 1 "max (usable - 1) 1"] by (simp_all add: first_share_def)

text \<open>A rectangle of the screen: its edges are \<open>u16\<close> values, so no addition saturates.\<close>

definition rect_fits :: "rect \<Rightarrow> bool" where
  "rect_fits R \<longleftrightarrow> rc_row R + rc_rows R \<le> u16_max \<and> rc_col R + rc_cols R \<le> u16_max"

lemma contains_fits:
  "rect_fits R \<Longrightarrow> contains R p \<longleftrightarrow>
     rc_row R \<le> pt_row p \<and> pt_row p < rc_row R + rc_rows R \<and>
     rc_col R \<le> pt_col p \<and> pt_col p < rc_col R + rc_cols R"
  by (auto simp: contains_def rect_fits_def sadd16_exact)

text \<open>
  The halves as plain arithmetic: of a rectangle that can hold a separator, the first half takes
  \<open>k\<close> lines, one line separates, the second half has the rest.
\<close>

lemma subdivide_horizontal:
  assumes "rect_fits R" "subdivide R SplitHorizontal r = (A, B)"
  shows "rc_row A = rc_row R \<and> rc_col A = rc_col R \<and> rc_cols A = rc_cols R \<and>
         rc_col B = rc_col R \<and> rc_cols B = rc_cols R \<and>
         (if rc_rows R \<le> 1 then rc_rows A = rc_rows R \<and> rc_rows B = 0 \<and> rc_row B = rc_row R + rc_rows R
          else 1 \<le> rc_rows A \<and> rc_rows A + 1 + rc_rows B = rc_rows R \<and> rc_row B = rc_row R + rc_rows A + 1)"
  using assms first_share_bounds [of "rc_rows R - 1" r]
  by (auto simp: subdivide_def Let_def sadd16_def rect_fits_def split: if_splits)

lemma subdivide_vertical:
  assumes "rect_fits R" "subdivide R SplitVertical r = (A, B)"
  shows "rc_col A = rc_col R \<and> rc_row A = rc_row R \<and> rc_rows A = rc_rows R \<and>
         rc_row B = rc_row R \<and> rc_rows B = rc_rows R \<and>
         (if rc_cols R \<le> 1 then rc_cols A = rc_cols R \<and> rc_cols B = 0 \<and> rc_col B = rc_col R + rc_cols R
          else 1 \<le> rc_cols A \<and> rc_cols A + 1 + rc_cols B = rc_cols R \<and> rc_col B = rc_col R + rc_cols A + 1)"
  using assms first_share_bounds [of "rc_cols R - 1" r]
  by (auto simp: subdivide_def Let_def sadd16_def rect_fits_def split: if_splits)

lemma subdivide_fits:
  assumes "rect_fits R" "subdivide R d r = (A, B)"
  shows "rect_fits A" "rect_fits B"
  using assms subdivide_horizontal [of R r A B] subdivide_vertical [of R r A B]
  by (cases d; auto simp: rect_fits_def split: if_splits)+

lemma subdivide_inside:
  assumes "rect_fits R" "subdivide R d r = (A, B)"
  shows "contains A p \<Longrightarrow> contains R p" "contains B p \<Longrightarrow> contains R p"
  using assms subdivide_horizontal [of R r A B] subdivide_vertical [of R r A B]
    subdivide_fits [OF assms]
  by (cases d; auto simp: contains_fits split: if_splits)+

lemma subdivide_disjoint:
  assumes "rect_fits R" "subdivide R d r = (A, B)"
  shows "\<not> (contains A p \<and> contains B p)"
  using assms subdivide_horizontal [of R r A B] subdivide_vertical [of R r A B]
    subdivide_fits [OF assms]
  by (cases d) (auto simp: contains_fits split: if_splits)

end
