(* ===== verification/Layout.thy ===== *)
theory Layout
  imports Geometry
begin

text \<open>
  The pane layout of a window, after \<open>crates/mux/src/layout.rs\<close>: a binary tree of splits with a
  pane at every leaf, and the operations on it - split, close, swap, replace, hit test, the
  rectangle of a pane, the neighbour of a pane in a direction, and the moves of a border.
\<close>

datatype layout_node =
    LLeaf pane_id
  | LSplit split_dir f32 layout_node layout_node

record layout_tree =
  lt_root :: "layout_node option"

datatype split_position = PosBefore | PosAfter

datatype border_side = SideRight | SideBottom

record border_hit =
  bh_pane :: pane_id
  bh_side :: border_side

datatype close_outcome = SiblingPromoted | TreeEmpty | CloseNotPresent

datatype layout_error = PaneNotFound pane_id

section \<open>Construction and enumeration\<close>

definition lt_single :: "pane_id \<Rightarrow> layout_tree" where
  "lt_single p = \<lparr>lt_root = Some (LLeaf p)\<rparr>"

definition lt_is_empty :: "layout_tree \<Rightarrow> bool" where
  "lt_is_empty t \<longleftrightarrow> lt_root t = None"

text \<open>The collectors push the leaves onto a vector, in depth-first order.\<close>

fun collect_panes :: "layout_node \<Rightarrow> pane_id list \<Rightarrow> pane_id list" where
  "collect_panes (LLeaf p) out = out @ [p]"
| "collect_panes (LSplit d r a b) out = collect_panes b (collect_panes a out)"

definition lt_panes :: "layout_tree \<Rightarrow> pane_id list" where
  "lt_panes t = (case lt_root t of Some n \<Rightarrow> collect_panes n [] | None \<Rightarrow> [])"

fun dfs_collect :: "layout_node \<Rightarrow> pane_id list \<Rightarrow> pane_id list" where
  "dfs_collect (LLeaf p) out = out @ [p]"
| "dfs_collect (LSplit d r a b) out = dfs_collect b (dfs_collect a out)"

definition dfs_leaves :: "layout_tree \<Rightarrow> pane_id list" where
  "dfs_leaves t = (case lt_root t of Some n \<Rightarrow> dfs_collect n [] | None \<Rightarrow> [])"

fun map_node :: "(pane_id \<Rightarrow> nat \<Rightarrow> 'r) \<Rightarrow> (split_dir \<Rightarrow> f32 \<Rightarrow> 'r \<Rightarrow> 'r \<Rightarrow> 'r) \<Rightarrow> layout_node \<Rightarrow> nat \<Rightarrow> 'r \<times> nat" where
  "map_node lf sp (LLeaf p) i = (lf p i, i + 1)"
| "map_node lf sp (LSplit d r a b) i =
     (let (f, i) = map_node lf sp a i;
          (s, i) = map_node lf sp b i
      in (sp d r f s, i))"

definition map_layout :: "(pane_id \<Rightarrow> nat \<Rightarrow> 'r) \<Rightarrow> (split_dir \<Rightarrow> f32 \<Rightarrow> 'r \<Rightarrow> 'r \<Rightarrow> 'r) \<Rightarrow> layout_tree \<Rightarrow> 'r option" where
  "map_layout lf sp t = map_option (\<lambda>n. fst (map_node lf sp n 0)) (lt_root t)"

section \<open>Splitting and closing\<close>

fun split_in :: "layout_node \<Rightarrow> pane_id \<Rightarrow> split_dir \<Rightarrow> pane_id \<Rightarrow> split_position \<Rightarrow> layout_node \<times> bool" where
  "split_in (LLeaf p) target d new pos =
     (if p = target then
        (let (a, b) = (case pos of PosBefore \<Rightarrow> (LLeaf new, LLeaf p) | PosAfter \<Rightarrow> (LLeaf p, LLeaf new))
         in (LSplit d (ratio_new (F32 (1 / 2))) a b, True))
      else (LLeaf p, False))"
| "split_in (LSplit sd r a b) target d new pos =
     (let (a', found_first) = split_in a target d new pos
      in if found_first then (LSplit sd r a' b, True)
         else (let (b', found_second) = split_in b target d new pos
               in (LSplit sd r a' b', found_second)))"

definition lt_split :: "layout_tree \<Rightarrow> pane_id \<Rightarrow> split_dir \<Rightarrow> pane_id \<Rightarrow> split_position \<Rightarrow> layout_tree \<times> (layout_error + unit)" where
  "lt_split t target d new pos =
     (case lt_root t of
        None \<Rightarrow> (t, Inl (PaneNotFound target))
      | Some n \<Rightarrow>
          (let (n', found) = split_in n target d new pos
           in (t\<lparr>lt_root := Some n'\<rparr>, if found then Inr () else Inl (PaneNotFound target))))"

datatype close_result = SamePane | Replaced layout_node | NotPresent layout_node

fun close_in :: "layout_node \<Rightarrow> pane_id \<Rightarrow> close_result" where
  "close_in (LLeaf p) target = (if p = target then SamePane else NotPresent (LLeaf p))"
| "close_in (LSplit d r a b) target =
     (case close_in a target of
        SamePane \<Rightarrow> Replaced b
      | Replaced n \<Rightarrow> Replaced (LSplit d r n b)
      | NotPresent a' \<Rightarrow>
          (case close_in b target of
             SamePane \<Rightarrow> Replaced a'
           | Replaced n \<Rightarrow> Replaced (LSplit d r a' n)
           | NotPresent b' \<Rightarrow> NotPresent (LSplit d r a' b')))"

definition lt_close :: "layout_tree \<Rightarrow> pane_id \<Rightarrow> layout_tree \<times> close_outcome" where
  "lt_close t target =
     (case lt_root t of
        None \<Rightarrow> (t, CloseNotPresent)
      | Some n \<Rightarrow>
          (case close_in n target of
             SamePane \<Rightarrow> (t\<lparr>lt_root := None\<rparr>, TreeEmpty)
           | Replaced n' \<Rightarrow> (t\<lparr>lt_root := Some n'\<rparr>, SiblingPromoted)
           | NotPresent n' \<Rightarrow> (t\<lparr>lt_root := Some n'\<rparr>, CloseNotPresent)))"

section \<open>Rectangles and hit tests\<close>

fun rect_of_in :: "layout_node \<Rightarrow> pane_id \<Rightarrow> rect \<Rightarrow> rect option" where
  "rect_of_in (LLeaf p) target vp = (if p = target then Some vp else None)"
| "rect_of_in (LSplit d r a b) target vp =
     (let (ra, rb) = subdivide vp d r
      in case rect_of_in a target ra of
           Some R \<Rightarrow> Some R
         | None \<Rightarrow> rect_of_in b target rb)"

definition rect_of :: "layout_tree \<Rightarrow> pane_id \<Rightarrow> rect \<Rightarrow> rect option" where
  "rect_of t p vp = (case lt_root t of None \<Rightarrow> None | Some n \<Rightarrow> rect_of_in n p vp)"

fun pane_at_in :: "layout_node \<Rightarrow> rect \<Rightarrow> nat \<Rightarrow> nat \<Rightarrow> pane_id option" where
  "pane_at_in (LLeaf p) vp r c = (if contains vp (mk_point r c) then Some p else None)"
| "pane_at_in (LSplit d q a b) vp r c =
     (let (ra, rb) = subdivide vp d q
      in if contains ra (mk_point r c) then pane_at_in a ra r c
         else if contains rb (mk_point r c) then pane_at_in b rb r c
         else None)"

definition pane_at_coord :: "layout_tree \<Rightarrow> rect \<Rightarrow> nat \<Rightarrow> nat \<Rightarrow> pane_id option" where
  "pane_at_coord t vp r c = (case lt_root t of None \<Rightarrow> None | Some n \<Rightarrow> pane_at_in n vp r c)"

fun rightmost_leaf :: "layout_node \<Rightarrow> pane_id" where
  "rightmost_leaf (LLeaf p) = p"
| "rightmost_leaf (LSplit d r a b) =
     (case d of SplitVertical \<Rightarrow> rightmost_leaf b | SplitHorizontal \<Rightarrow> rightmost_leaf a)"

fun bottommost_leaf :: "layout_node \<Rightarrow> pane_id" where
  "bottommost_leaf (LLeaf p) = p"
| "bottommost_leaf (LSplit d r a b) =
     (case d of SplitHorizontal \<Rightarrow> bottommost_leaf b | SplitVertical \<Rightarrow> bottommost_leaf a)"

fun border_at_recurse :: "layout_node \<Rightarrow> rect \<Rightarrow> nat \<Rightarrow> nat \<Rightarrow> border_hit option" where
  "border_at_recurse (LLeaf p) vp r c = None"
| "border_at_recurse (LSplit d q a b) vp r c =
     (let (ra, rb) = subdivide vp d q;
          here = (case d of
             SplitVertical \<Rightarrow>
               c = sadd16 (rc_col ra) (rc_cols ra) \<and> r \<ge> rc_row ra \<and> r < sadd16 (rc_row ra) (rc_rows ra)
           | SplitHorizontal \<Rightarrow>
               r = sadd16 (rc_row ra) (rc_rows ra) \<and> c \<ge> rc_col ra \<and> c < sadd16 (rc_col ra) (rc_cols ra))
      in if here then
           Some (case d of
                   SplitVertical \<Rightarrow> \<lparr>bh_pane = rightmost_leaf a, bh_side = SideRight\<rparr>
                 | SplitHorizontal \<Rightarrow> \<lparr>bh_pane = bottommost_leaf a, bh_side = SideBottom\<rparr>)
         else (case border_at_recurse a ra r c of
                 Some h \<Rightarrow> Some h
               | None \<Rightarrow> border_at_recurse b rb r c))"

definition border_at :: "layout_tree \<Rightarrow> rect \<Rightarrow> nat \<Rightarrow> nat \<Rightarrow> border_hit option" where
  "border_at t vp r c = (case lt_root t of None \<Rightarrow> None | Some n \<Rightarrow> border_at_recurse n vp r c)"

section \<open>Neighbours\<close>

definition overlap_len :: "nat \<Rightarrow> nat \<Rightarrow> nat \<Rightarrow> nat \<Rightarrow> nat" where
  "overlap_len a_lo a_hi b_lo b_hi =
     (let lo = max a_lo b_lo; hi = min a_hi b_hi in if hi \<ge> lo then hi - lo + 1 else 0)"

text \<open>\<open>lo + (hi - lo) / 2\<close> in \<open>i32\<close>, whose division rounds towards zero.\<close>

definition span_center :: "nat \<Rightarrow> nat \<Rightarrow> int" where
  "span_center lo hi =
     int lo + (if lo \<le> hi then (int hi - int lo) div 2 else - ((int lo - int hi) div 2))"

text \<open>\<open>max_by_key\<close> keeps the last of the elements with the largest key.\<close>

definition key_le :: "nat \<times> nat \<Rightarrow> nat \<times> nat \<Rightarrow> bool" where
  "key_le x y \<longleftrightarrow> fst x < fst y \<or> (fst x = fst y \<and> snd x \<le> snd y)"

fun max_by_key :: "('a \<Rightarrow> nat \<times> nat) \<Rightarrow> 'a list \<Rightarrow> 'a option" where
  "max_by_key k [] = None"
| "max_by_key k (x # xs) =
     (case max_by_key k xs of
        None \<Rightarrow> Some x
      | Some y \<Rightarrow> if key_le (k x) (k y) then Some y else Some x)"

definition pick_neighbor :: "(pane_id \<times> rect) list \<Rightarrow> (rect \<Rightarrow> bool) \<Rightarrow> rect \<Rightarrow> bool \<Rightarrow> pane_id option" where
  "pick_neighbor panes edge_pred src horizontal =
     (let span = (\<lambda>R. if horizontal then (rc_row R, bottom_edge_row R) else (rc_col R, right_edge_col R));
          (src_lo, src_hi) = span src;
          src_center = span_center src_lo src_hi;
          cands = List.map_filter (\<lambda>(p, R).
            (if edge_pred R then
               (let (lo, hi) = span R; ov = overlap_len lo hi src_lo src_hi
                in if ov = 0 then None
                   else Some (p, ov, nat \<bar>span_center lo hi - src_center\<bar>))
             else None)) panes
      in map_option fst (max_by_key (\<lambda>(_, ov, dist). (ov, u32_max - dist)) cands))"

definition checked_add16 :: "nat \<Rightarrow> nat \<Rightarrow> nat option" where
  "checked_add16 a b = (if a + b \<le> u16_max then Some (a + b) else None)"

definition next_in_direction :: "layout_tree \<Rightarrow> pane_id \<Rightarrow> rect \<Rightarrow> direction \<Rightarrow> pane_id option" where
  "next_in_direction t p vp d =
     (case rect_of t p vp of
        None \<Rightarrow> None
      | Some src \<Rightarrow>
          (let panes = List.map_filter (\<lambda>q. map_option (\<lambda>R. (q, R)) (rect_of t q vp))
                         (filter (\<lambda>q. q \<noteq> p) (lt_panes t))
           in case d of
                DirRight \<Rightarrow>
                  (case checked_add16 (right_edge_col src) 2 of None \<Rightarrow> None
                   | Some target_col \<Rightarrow> pick_neighbor panes (\<lambda>R. rc_col R = target_col) src True)
              | DirLeft \<Rightarrow>
                  (case checked_sub (rc_col src) 2 of None \<Rightarrow> None
                   | Some target_right \<Rightarrow> pick_neighbor panes (\<lambda>R. right_edge_col R = target_right) src True)
              | DirDown \<Rightarrow>
                  (case checked_add16 (bottom_edge_row src) 2 of None \<Rightarrow> None
                   | Some target_row \<Rightarrow> pick_neighbor panes (\<lambda>R. rc_row R = target_row) src False)
              | DirUp \<Rightarrow>
                  (case checked_sub (rc_row src) 2 of None \<Rightarrow> None
                   | Some target_bottom \<Rightarrow> pick_neighbor panes (\<lambda>R. bottom_edge_row R = target_bottom) src False)))"

section \<open>Moving borders\<close>

fun resize_in :: "layout_node \<Rightarrow> pane_id \<Rightarrow> split_dir \<Rightarrow> int \<Rightarrow> rect \<Rightarrow> layout_node \<times> bool \<times> bool" where
  "resize_in (LLeaf p) target ax delta vp = (LLeaf p, p = target, False)"
| "resize_in (LSplit d r a b) target ax delta vp =
     (let (a_rect, b_rect) = subdivide vp d r;
          (a', in_first, handled_first) = resize_in a target ax delta a_rect;
          (b', in_second, handled_second) = resize_in b target ax delta b_rect;
          descendant_handled = (handled_first \<or> handled_second);
          adjust_here = (d = ax \<and> (in_first \<or> in_second) \<and> \<not> descendant_handled);
          sz = (case ax of SplitHorizontal \<Rightarrow> max (rc_rows vp - 1) 1 | SplitVertical \<Rightarrow> max (rc_cols vp - 1) 1);
          dr = f32_div (f32_of_int delta) (f32_of_int (int sz));
          r' = (if adjust_here then (if in_first then ratio_adjust r dr else ratio_adjust r (f32_neg dr)) else r)
      in (LSplit d r' a' b', in_first \<or> in_second, descendant_handled \<or> adjust_here))"

definition resize_split :: "layout_tree \<Rightarrow> pane_id \<Rightarrow> split_dir \<Rightarrow> int \<Rightarrow> rect \<Rightarrow> layout_tree" where
  "resize_split t toward ax delta vp =
     (case lt_root t of
        None \<Rightarrow> t
      | Some n \<Rightarrow> t\<lparr>lt_root := Some (fst (resize_in n toward ax delta vp))\<rparr>)"

definition MIN_PANE_CELLS :: nat where "MIN_PANE_CELLS = 4"

text \<open>\<open>as i16\<close> of an \<open>i32\<close>: the low sixteen bits.\<close>

definition as_i16 :: "int \<Rightarrow> int" where
  "as_i16 x = (x + 32768) mod 65536 - 32768"

fun adjust_split_recurse :: "layout_node \<Rightarrow> rect \<Rightarrow> pane_id \<Rightarrow> border_side \<Rightarrow> int \<Rightarrow> layout_node \<times> int" where
  "adjust_split_recurse (LLeaf p) vp adj side delta = (LLeaf p, 0)"
| "adjust_split_recurse (LSplit d r a b) vp adj side delta =
     (let (ra, rb) = subdivide vp d r;
          split_matches =
            (((d = SplitVertical \<and> side = SideRight) \<or> (d = SplitHorizontal \<and> side = SideBottom)) \<and>
             (case side of SideRight \<Rightarrow> rightmost_leaf a = adj | SideBottom \<Rightarrow> bottommost_leaf a = adj))
      in if split_matches then
           (let total_usable = (case d of SplitVertical \<Rightarrow> rc_cols vp - 1 | SplitHorizontal \<Rightarrow> rc_rows vp - 1)
            in if total_usable < 2 * MIN_PANE_CELLS then (LSplit d r a b, 0)
               else (let first_cells = (case d of SplitVertical \<Rightarrow> rc_cols ra | SplitHorizontal \<Rightarrow> rc_rows ra);
                         new_first = nat (min (max (int first_cells + delta) (int MIN_PANE_CELLS))
                                           (int (total_usable - MIN_PANE_CELLS)));
                         clamped = ratio_new (f32_div (F32 (of_nat new_first)) (F32 (of_nat total_usable)));
                         actual_first = first_share total_usable clamped
                     in (LSplit d clamped a b, as_i16 (int actual_first - int first_cells))))
         else
           (let (a', from_first) = adjust_split_recurse a ra adj side delta
            in if from_first \<noteq> 0 then (LSplit d r a' b, from_first)
               else (let (b', applied) = adjust_split_recurse b rb adj side delta
                     in (LSplit d r a' b', applied))))"

definition adjust_split :: "layout_tree \<Rightarrow> pane_id \<Rightarrow> border_side \<Rightarrow> int \<Rightarrow> rect \<Rightarrow> layout_tree \<times> int" where
  "adjust_split t adj side delta vp =
     (case lt_root t of
        None \<Rightarrow> (t, 0)
      | Some n \<Rightarrow>
          (let (n', applied) = adjust_split_recurse n vp adj side delta
           in (t\<lparr>lt_root := Some n'\<rparr>, applied)))"

text \<open>
  Restoring saved ratios: in preorder, one ratio per split; the walk of a subtree stops when the
  list is used up.
\<close>

fun set_ratios_walk :: "layout_node \<Rightarrow> f32 list \<Rightarrow> nat \<Rightarrow> layout_node \<times> nat" where
  "set_ratios_walk (LLeaf p) ratios i = (LLeaf p, i)"
| "set_ratios_walk (LSplit d r a b) ratios i =
     (case nth_opt ratios i of
        None \<Rightarrow> (LSplit d r a b, i)
      | Some q \<Rightarrow>
          (let (a', i1) = set_ratios_walk a ratios (i + 1);
               (b', i2) = set_ratios_walk b ratios i1
           in (LSplit d (ratio_new q) a' b', i2)))"

definition set_ratios_preorder :: "layout_tree \<Rightarrow> f32 list \<Rightarrow> layout_tree \<times> nat" where
  "set_ratios_preorder t ratios =
     (case lt_root t of
        None \<Rightarrow> (t, 0)
      | Some n \<Rightarrow>
          (let (n', i) = set_ratios_walk n ratios 0 in (t\<lparr>lt_root := Some n'\<rparr>, i)))"

section \<open>Exchanging panes\<close>

fun swap_in :: "layout_node \<Rightarrow> pane_id \<Rightarrow> pane_id \<Rightarrow> bool \<Rightarrow> bool \<Rightarrow> layout_node \<times> bool \<times> bool" where
  "swap_in (LLeaf p) a b fa fb =
     (if p = a then (LLeaf b, True, fb)
      else if p = b then (LLeaf a, fa, True)
      else (LLeaf p, fa, fb))"
| "swap_in (LSplit d r x y) a b fa fb =
     (let (x', fa, fb) = swap_in x a b fa fb;
          (y', fa, fb) = swap_in y a b fa fb
      in (LSplit d r x' y', fa, fb))"

definition swap_panes :: "layout_tree \<Rightarrow> pane_id \<Rightarrow> pane_id \<Rightarrow> layout_tree \<times> bool" where
  "swap_panes t a b =
     (let panes = lt_panes t
      in if a = b \<or> a \<notin> set panes \<or> b \<notin> set panes then (t, False)
         else (case lt_root t of
                 None \<Rightarrow> (t, False)
               | Some n \<Rightarrow>
                   (let (n', fa, fb) = swap_in n a b False False
                    in (t\<lparr>lt_root := Some n'\<rparr>, fa \<and> fb))))"

fun replace_leaf_walk :: "layout_node \<Rightarrow> pane_id \<Rightarrow> pane_id \<Rightarrow> layout_node \<times> bool" where
  "replace_leaf_walk (LLeaf p) old new = (if p = old then (LLeaf new, True) else (LLeaf p, False))"
| "replace_leaf_walk (LSplit d r a b) old new =
     (let (a', found) = replace_leaf_walk a old new
      in if found then (LSplit d r a' b, True)
         else (let (b', found) = replace_leaf_walk b old new in (LSplit d r a' b', found)))"

definition replace_leaf :: "layout_tree \<Rightarrow> pane_id \<Rightarrow> pane_id \<Rightarrow> layout_tree \<times> bool" where
  "replace_leaf t old new =
     (case lt_root t of
        None \<Rightarrow> (t, False)
      | Some n \<Rightarrow>
          (let (n', found) = replace_leaf_walk n old new in (t\<lparr>lt_root := Some n'\<rparr>, found)))"

end
