(* ===== verification/Preset.thy ===== *)
theory Preset
  imports Layout
begin

text \<open>
  The preset layouts, after \<open>crates/mux/src/preset.rs\<close> and \<open>LayoutTree::apply_preset\<close>: a tree built
  over an ordered list of panes.
\<close>

datatype layout_preset = EvenHorizontal | EvenVertical | MainHorizontal | MainVertical | Tiled

text \<open>The \<open>f32\<close> value of the literal \<open>0.6\<close>.\<close>

definition MAIN_RATIO :: f32 where
  "MAIN_RATIO = F32 (10066330 / 16777216)"

definition preset_all :: "layout_preset list" where
  "preset_all = [EvenHorizontal, EvenVertical, MainHorizontal, MainVertical, Tiled]"

fun preset_name :: "layout_preset \<Rightarrow> rstr" where
  "preset_name EvenHorizontal = lit ''even-horizontal''"
| "preset_name EvenVertical = lit ''even-vertical''"
| "preset_name MainHorizontal = lit ''main-horizontal''"
| "preset_name MainVertical = lit ''main-vertical''"
| "preset_name Tiled = lit ''tiled''"

definition preset_parse :: "rstr \<Rightarrow> layout_preset option" where
  "preset_parse s = List.find (\<lambda>p. preset_name p = s) preset_all"

definition preset_next :: "layout_preset \<Rightarrow> layout_preset" where
  "preset_next p =
     (case position (\<lambda>q. q = p) preset_all of
        Some idx \<Rightarrow> preset_all ! ((idx + 1) mod length preset_all)
      | None \<Rightarrow> p)"

section \<open>Balanced chains\<close>

function even_leaf_chain :: "pane_id list \<Rightarrow> split_dir \<Rightarrow> layout_node" where
  "even_leaf_chain panes d =
     (if length panes \<le> 1 then LLeaf (hd panes)
      else (let k1 = div_ceil (length panes) 2
            in LSplit d (ratio_new (f32_div (f32_of_int (int k1)) (f32_of_int (int (length panes)))))
                 (even_leaf_chain (take k1 panes) d) (even_leaf_chain (drop k1 panes) d)))"
  by pat_completeness auto
termination
  by (relation "measure (\<lambda>(ps, d). length ps)") (auto simp: div_ceil_def)

function even_node_chain :: "layout_node list \<Rightarrow> split_dir \<Rightarrow> layout_node" where
  "even_node_chain nodes d =
     (if length nodes \<le> 1 then hd nodes
      else (let k = length nodes; k1 = div_ceil k 2
            in LSplit d (ratio_new (f32_div (f32_of_int (int k1)) (f32_of_int (int k))))
                 (even_node_chain (take k1 nodes) d) (even_node_chain (drop k1 nodes) d)))"
  by pat_completeness auto
termination
  by (relation "measure (\<lambda>(ps, d). length ps)") (auto simp: div_ceil_def)

declare even_leaf_chain.simps [simp del] even_node_chain.simps [simp del]

text \<open>
  \<open>sqrt(n).round()\<close> for a count \<open>n\<close>: the \<open>k\<close> with \<open>k\<^sup>2 - k < n \<le> k\<^sup>2 + k\<close>, searched upwards.  The double
  precision root of a count below \<open>2\<^sup>5\<^sup>0\<close> never lies on the other side of a half, since no square of
  a half-integer is an integer.
\<close>

function sqrt_round_from :: "nat \<Rightarrow> nat \<Rightarrow> nat" where
  "sqrt_round_from n k = (if n \<le> k * k + k then k else sqrt_round_from n (k + 1))"
  by pat_completeness auto
termination
proof (relation "measure (\<lambda>(n, k). n - k)", goal_cases)
  case (2 n k)
  then have "k < n"
    by (metis add.commute le_add1 le_trans not_le)
  then show ?case by simp
qed simp

declare sqrt_round_from.simps [simp del]

definition sqrt_round :: "nat \<Rightarrow> nat" where
  "sqrt_round n = sqrt_round_from n 0"

section \<open>Building\<close>

text \<open>The loop over the rows of the grid: rows \<open>i .. rows - 1\<close> of the panes from \<open>start\<close> on.\<close>

fun tiled_rows :: "pane_id list \<Rightarrow> nat \<Rightarrow> nat \<Rightarrow> nat \<Rightarrow> nat list \<Rightarrow> layout_node list" where
  "tiled_rows panes base rm start [] = []"
| "tiled_rows panes base rm start (i # is) =
     (let len = base + (if i < rm then 1 else 0)
      in even_leaf_chain (take len (drop start panes)) SplitVertical
           # tiled_rows panes base rm (start + len) is)"

definition preset_build :: "layout_preset \<Rightarrow> pane_id list \<Rightarrow> layout_node" where
  "preset_build preset panes =
     (if length panes = 1 then LLeaf (panes ! 0)
      else case preset of
        EvenHorizontal \<Rightarrow> even_leaf_chain panes SplitVertical
      | EvenVertical \<Rightarrow> even_leaf_chain panes SplitHorizontal
      | MainVertical \<Rightarrow>
          LSplit SplitVertical (ratio_new MAIN_RATIO) (LLeaf (panes ! 0))
            (even_leaf_chain (drop 1 panes) SplitHorizontal)
      | MainHorizontal \<Rightarrow>
          LSplit SplitHorizontal (ratio_new MAIN_RATIO) (LLeaf (panes ! 0))
            (even_leaf_chain (drop 1 panes) SplitVertical)
      | Tiled \<Rightarrow>
          (let n = length panes;
               rows = max (sqrt_round n) 1;
               base = n div rows;
               rm = n mod rows
           in even_node_chain (tiled_rows panes base rm 0 [0..<rows]) SplitHorizontal))"

definition apply_preset :: "layout_tree \<Rightarrow> layout_preset \<Rightarrow> pane_id list \<Rightarrow> layout_tree" where
  "apply_preset t preset panes =
     (if panes = [] then t else t\<lparr>lt_root := Some (preset_build preset panes)\<rparr>)"

end
