(* ===== verification/Layout_Facts.thy ===== *)
theory Layout_Facts
  imports Preset Prelude
begin

text \<open>
  Lemmas about the layout tree: its leaves under every operation (the tree refines a sequence of
  panes), the range of its ratios, its rectangles and hit tests, and its borders.
\<close>

section \<open>Leaves\<close>

fun leaves :: "layout_node \<Rightarrow> pane_id list" where
  "leaves (LLeaf p) = [p]"
| "leaves (LSplit d r a b) = leaves a @ leaves b"

lemma collect_panes_leaves: "collect_panes n out = out @ leaves n"
  by (induction n arbitrary: out) auto

lemma dfs_collect_leaves: "dfs_collect n out = out @ leaves n"
  by (induction n arbitrary: out) auto

lemma leaves_nonempty [simp]: "leaves n \<noteq> []"
  by (induction n) auto

lemma lt_panes_Some [simp]: "lt_panes \<lparr>lt_root = Some n\<rparr> = leaves n"
  by (simp add: lt_panes_def collect_panes_leaves)

lemma lt_panes_None [simp]: "lt_panes \<lparr>lt_root = None\<rparr> = []"
  by (simp add: lt_panes_def)

lemma lt_panes_root: "lt_panes t = (case lt_root t of None \<Rightarrow> [] | Some n \<Rightarrow> leaves n)"
  by (simp add: lt_panes_def collect_panes_leaves split: option.split)

lemma dfs_leaves_eq: "dfs_leaves t = lt_panes t"
  by (simp add: dfs_leaves_def lt_panes_root dfs_collect_leaves split: option.split)

section \<open>The sequence of panes as specification\<close>

text \<open>What each operation does to the sequence of panes.\<close>

fun seq_split :: "pane_id \<Rightarrow> pane_id \<Rightarrow> split_position \<Rightarrow> pane_id list \<Rightarrow> pane_id list" where
  "seq_split target new pos [] = []"
| "seq_split target new pos (p # ps) =
     (if p = target then (case pos of PosBefore \<Rightarrow> new # p # ps | PosAfter \<Rightarrow> p # new # ps)
      else p # seq_split target new pos ps)"

fun seq_replace :: "pane_id \<Rightarrow> pane_id \<Rightarrow> pane_id list \<Rightarrow> pane_id list" where
  "seq_replace old new [] = []"
| "seq_replace old new (p # ps) = (if p = old then new # ps else p # seq_replace old new ps)"

definition seq_swap :: "pane_id \<Rightarrow> pane_id \<Rightarrow> pane_id list \<Rightarrow> pane_id list" where
  "seq_swap a b ps =
     (if a \<in> set ps \<and> b \<in> set ps then map (\<lambda>p. if p = a then b else if p = b then a else p) ps else ps)"

lemma seq_split_append:
  "seq_split t n pos (xs @ ys) = (if t \<in> set xs then seq_split t n pos xs @ ys else xs @ seq_split t n pos ys)"
  by (induction xs) (auto split: split_position.split)

lemma seq_split_absent: "t \<notin> set xs \<Longrightarrow> seq_split t n pos xs = xs"
  by (induction xs) auto

lemma seq_replace_append:
  "seq_replace t n (xs @ ys) = (if t \<in> set xs then seq_replace t n xs @ ys else xs @ seq_replace t n ys)"
  by (induction xs) auto

lemma seq_replace_absent: "t \<notin> set xs \<Longrightarrow> seq_replace t n xs = xs"
  by (induction xs) auto

lemma split_in_spec:
  "snd (split_in n target d new pos) = (target \<in> set (leaves n)) \<and>
   leaves (fst (split_in n target d new pos)) = seq_split target new pos (leaves n) \<and>
   (target \<notin> set (leaves n) \<longrightarrow> fst (split_in n target d new pos) = n)"
  by (induction n)
    (auto simp: Let_def seq_split_append seq_split_absent split: prod.splits split_position.splits if_splits)

lemma close_in_spec:
  "(case close_in n target of
      SamePane \<Rightarrow> n = LLeaf target
    | Replaced n' \<Rightarrow> target \<in> set (leaves n) \<and> leaves n' = remove1 target (leaves n)
    | NotPresent n' \<Rightarrow> target \<notin> set (leaves n) \<and> n' = n)"
  by (induction n) (auto simp: remove1_append split: close_result.splits)

lemma replace_leaf_walk_spec:
  "snd (replace_leaf_walk n old new) = (old \<in> set (leaves n)) \<and>
   leaves (fst (replace_leaf_walk n old new)) = seq_replace old new (leaves n)"
  by (induction n)
    (auto simp: Let_def seq_replace_append seq_replace_absent split: prod.splits if_splits)

fun map_leaves :: "(pane_id \<Rightarrow> pane_id) \<Rightarrow> layout_node \<Rightarrow> layout_node" where
  "map_leaves f (LLeaf p) = LLeaf (f p)"
| "map_leaves f (LSplit d r a b) = LSplit d r (map_leaves f a) (map_leaves f b)"

lemma leaves_map_leaves [simp]: "leaves (map_leaves f n) = map f (leaves n)"
  by (induction n) auto

lemma swap_in_spec:
  "swap_in n a b fa fb =
     (map_leaves (\<lambda>p. if p = a then b else if p = b then a else p) n,
      fa \<or> a \<in> set (leaves n), fb \<or> (b \<noteq> a \<and> b \<in> set (leaves n)))"
  by (induction n arbitrary: fa fb) auto

lemma resize_in_leaves [simp]: "leaves (fst (resize_in n target ax delta vp)) = leaves n"
  by (induction n arbitrary: vp) (simp_all add: Let_def case_prod_beta)

lemma adjust_leaves [simp]: "leaves (fst (adjust_split_recurse n vp adj side delta)) = leaves n"
  by (induction n arbitrary: vp) (simp_all add: Let_def case_prod_beta)

lemma set_ratios_leaves [simp]: "leaves (fst (set_ratios_walk n ratios i)) = leaves n"
  by (induction n arbitrary: i) (simp_all add: Let_def case_prod_beta split: option.split)

section \<open>Presets keep the panes\<close>

lemma even_leaf_chain_leaves: "ps \<noteq> [] \<Longrightarrow> leaves (even_leaf_chain ps d) = ps"
proof (induction ps d rule: even_leaf_chain.induct)
  case (1 ps d)
  show ?case
  proof (cases "length ps \<le> 1")
    case True
    with 1 show ?thesis
      by (cases ps) (auto simp: even_leaf_chain.simps)
  next
    case False
    define k where "k = div_ceil (length ps) 2"
    have "0 < k" "k < length ps"
      using False by (auto simp: k_def div_ceil_def)
    then have "leaves (even_leaf_chain (take k ps) d) = take k ps"
      "leaves (even_leaf_chain (drop k ps) d) = drop k ps"
      using 1 False by (auto simp: k_def)
    then show ?thesis
      using False by (subst even_leaf_chain.simps) (simp add: k_def [symmetric] Let_def)
  qed
qed

lemma even_node_chain_leaves: "ns \<noteq> [] \<Longrightarrow> leaves (even_node_chain ns d) = concat (map leaves ns)"
proof (induction ns d rule: even_node_chain.induct)
  case (1 ns d)
  show ?case
  proof (cases "length ns \<le> 1")
    case True
    with 1 show ?thesis
      by (cases ns) (auto simp: even_node_chain.simps)
  next
    case False
    define k where "k = div_ceil (length ns) 2"
    have "0 < k" "k < length ns"
      using False by (auto simp: k_def div_ceil_def)
    then have "leaves (even_node_chain (take k ns) d) = concat (map leaves (take k ns))"
      "leaves (even_node_chain (drop k ns) d) = concat (map leaves (drop k ns))"
      using 1 False by (auto simp: k_def)
    then show ?thesis
      using False
      by (subst even_node_chain.simps)
        (simp add: k_def [symmetric] Let_def flip: concat_append map_append)
  qed
qed

lemma sqrt_round_from_bound: "k * k < n + k \<Longrightarrow> sqrt_round_from n k \<le> n \<or> n = 0"
proof (induction n k rule: sqrt_round_from.induct)
  case (1 n k)
  show ?case
  proof (cases "n \<le> k * k + k")
    case True
    then show ?thesis
      using 1(2) by (cases k) (auto simp: sqrt_round_from.simps)
  next
    case False
    then show ?thesis
      using 1 by (subst sqrt_round_from.simps) (simp add: algebra_simps)
  qed
qed

lemma sqrt_round_le: "sqrt_round n \<le> n"
  using sqrt_round_from_bound [of 0 n]
  by (cases "n = 0") (auto simp: sqrt_round_def sqrt_round_from.simps)

text \<open>The search is correct: the result is the integer nearest to the square root.\<close>

lemma sqrt_round_from_spec:
  "k * k < n + k \<or> k = 0 \<Longrightarrow> n \<le> sqrt_round_from n k * sqrt_round_from n k + sqrt_round_from n k \<and>
     (sqrt_round_from n k * sqrt_round_from n k < n + sqrt_round_from n k \<or> sqrt_round_from n k = 0)"
proof (induction n k rule: sqrt_round_from.induct)
  case (1 n k)
  then show ?case
    by (subst (1 2 3 4 5 6 7) sqrt_round_from.simps) (auto simp: algebra_simps)
qed

text \<open>The rows of the grid cut the list of panes into consecutive pieces that use it up.\<close>

definition row_len :: "nat \<Rightarrow> nat \<Rightarrow> nat \<Rightarrow> nat" where
  "row_len base rm i = base + (if i < rm then 1 else 0)"

lemma tiled_rows_Cons:
  "tiled_rows ps base rm start (i # is) =
     even_leaf_chain (take (row_len base rm i) (drop start ps)) SplitVertical
       # tiled_rows ps base rm (start + row_len base rm i) is"
  by (simp add: row_len_def Let_def)

lemma tiled_rows_length [simp]: "length (tiled_rows ps base rm start is) = length is"
  by (induction "is" arbitrary: start) (simp_all add: Let_def)

lemma tiled_rows_leaves:
  assumes "base > 0" "start + sum_list (map (row_len base rm) is) \<le> length ps"
  shows "concat (map leaves (tiled_rows ps base rm start is)) =
         take (sum_list (map (row_len base rm) is)) (drop start ps)"
  using assms(2)
proof (induction "is" arbitrary: start)
  case (Cons i "is")
  have "take (row_len base rm i) (drop start ps) \<noteq> []"
    using Cons.prems assms(1) by (auto simp: row_len_def)
  then have "leaves (even_leaf_chain (take (row_len base rm i) (drop start ps)) SplitVertical) =
      take (row_len base rm i) (drop start ps)"
    by (rule even_leaf_chain_leaves)
  moreover have "concat (map leaves (tiled_rows ps base rm (start + row_len base rm i) is)) =
      take (sum_list (map (row_len base rm) is)) (drop (start + row_len base rm i) ps)"
    using Cons.prems by (intro Cons.IH) simp
  ultimately show ?case
    by (simp add: tiled_rows_Cons take_add add.commute del: tiled_rows.simps)
qed simp

lemma row_len_total: "sum_list (map (row_len base k) [0..<m]) = m * base + min k m"
  by (induction m) (auto simp: row_len_def)

lemma tiled_leaves:
  assumes "ps \<noteq> []"
  defines "rows \<equiv> max (sqrt_round (length ps)) 1"
  shows "leaves (even_node_chain
           (tiled_rows ps (length ps div rows) (length ps mod rows) 0 [0..<rows]) SplitHorizontal) = ps"
proof -
  have rows: "0 < rows" "rows \<le> length ps"
    using assms sqrt_round_le [of "length ps"] by (auto simp: Suc_le_eq)
  have total: "sum_list (map (row_len (length ps div rows) (length ps mod rows)) [0..<rows]) = length ps"
    using rows by (simp add: row_len_total min_absorb1 less_imp_le)
  moreover have "0 < length ps div rows"
    using rows by (simp add: div_greater_zero_iff)
  ultimately have "concat (map leaves (tiled_rows ps (length ps div rows) (length ps mod rows) 0 [0..<rows])) = ps"
    by (subst tiled_rows_leaves) (simp_all only: total add_0 order_refl drop_0 take_all)
  moreover have "tiled_rows ps (length ps div rows) (length ps mod rows) 0 [0..<rows] \<noteq> []"
    using rows by (simp flip: length_0_conv)
  ultimately show ?thesis
    by (simp add: even_node_chain_leaves)
qed

lemma preset_build_leaves: "ps \<noteq> [] \<Longrightarrow> leaves (preset_build preset ps) = ps"
proof -
  assume ps: "ps \<noteq> []"
  show ?thesis
  proof (cases "length ps = 1")
    case True
    then show ?thesis
      by (cases ps) (auto simp: preset_build_def)
  next
    case False
    with ps have "drop 1 ps \<noteq> []" "ps ! 0 # drop 1 ps = ps"
      by (cases ps; auto)+
    with ps False show ?thesis
      by (cases preset)
        (simp_all add: preset_build_def Let_def even_leaf_chain_leaves tiled_leaves del: One_nat_def)
  qed
qed

section \<open>Runs of operations\<close>

text \<open>The operations a window applies to its layout, with the viewport where they need one.\<close>

datatype layout_op =
    OpSplit pane_id split_dir pane_id split_position
  | OpClose pane_id
  | OpResize pane_id split_dir int rect
  | OpAdjust pane_id border_side int rect
  | OpSwap pane_id pane_id
  | OpReplace pane_id pane_id
  | OpRatios "f32 list"
  | OpPreset layout_preset "pane_id list"

fun layout_step :: "layout_tree \<Rightarrow> layout_op \<Rightarrow> layout_tree" where
  "layout_step t (OpSplit target d new pos) = fst (lt_split t target d new pos)"
| "layout_step t (OpClose p) = fst (lt_close t p)"
| "layout_step t (OpResize p ax delta vp) = resize_split t p ax delta vp"
| "layout_step t (OpAdjust p side delta vp) = fst (adjust_split t p side delta vp)"
| "layout_step t (OpSwap a b) = fst (swap_panes t a b)"
| "layout_step t (OpReplace old new) = fst (replace_leaf t old new)"
| "layout_step t (OpRatios rs) = fst (set_ratios_preorder t rs)"
| "layout_step t (OpPreset preset ps) = apply_preset t preset ps"

text \<open>The specification: the window is its sequence of panes, and most operations do not touch it.\<close>

fun seq_step :: "pane_id list \<Rightarrow> layout_op \<Rightarrow> pane_id list" where
  "seq_step ps (OpSplit target d new pos) = seq_split target new pos ps"
| "seq_step ps (OpClose p) = remove1 p ps"
| "seq_step ps (OpSwap a b) = seq_swap a b ps"
| "seq_step ps (OpReplace old new) = seq_replace old new ps"
| "seq_step ps (OpPreset preset qs) = (if qs = [] then ps else qs)"
| "seq_step ps _ = ps"

lemma swap_same: "map_leaves (\<lambda>p. if p = a then a else if p = a then a else p) n = n"
  by (induction n) auto

lemma lt_close_panes: "lt_panes (fst (lt_close t p)) = remove1 p (lt_panes t)"
proof (cases "lt_root t")
  case None
  then show ?thesis by (simp add: lt_close_def lt_panes_root)
next
  case (Some n)
  then show ?thesis
    using close_in_spec [of n p]
    by (auto simp: lt_close_def lt_panes_root remove1_idem split: close_result.splits)
qed

lemma swap_panes_panes: "lt_panes (fst (swap_panes t a b)) = seq_swap a b (lt_panes t)"
proof (cases "lt_root t")
  case None
  then show ?thesis by (simp add: swap_panes_def lt_panes_root seq_swap_def)
next
  case (Some n)
  then show ?thesis
    by (auto simp: swap_panes_def lt_panes_root seq_swap_def Let_def swap_in_spec map_idI)
qed

lemma layout_step_panes: "lt_panes (layout_step t op) = seq_step (lt_panes t) op"
proof (cases op)
  case (OpSplit target d new pos)
  then show ?thesis
    using split_in_spec [of "the (lt_root t)" target d new pos]
    by (auto simp: lt_split_def lt_panes_root split: option.splits prod.splits)
next
  case (OpReplace old new)
  then show ?thesis
    using replace_leaf_walk_spec [of "the (lt_root t)" old new]
    by (auto simp: replace_leaf_def lt_panes_root split: option.splits prod.splits)
next
  case (OpResize p ax delta vp)
  then show ?thesis
    by (auto simp: resize_split_def lt_panes_root split: option.splits)
next
  case (OpAdjust p side delta vp)
  then show ?thesis
    by (auto simp: adjust_split_def lt_panes_root case_prod_beta Let_def split: option.splits)
next
  case (OpRatios rs)
  then show ?thesis
    by (auto simp: set_ratios_preorder_def lt_panes_root case_prod_beta Let_def split: option.splits)
next
  case (OpPreset preset ps)
  then show ?thesis
    by (auto simp: apply_preset_def lt_panes_root preset_build_leaves)
qed (simp_all add: lt_close_panes swap_panes_panes)

interpretation lay: simulation "\<lambda>_. True" lt_panes layout_step seq_step
  by unfold_locales (simp_all add: layout_step_panes)

section \<open>Ratios\<close>

text \<open>Every ratio stored in the tree is a finite number between the two bounds.\<close>

fun node_ratios_ok :: "layout_node \<Rightarrow> bool" where
  "node_ratios_ok (LLeaf p) = True"
| "node_ratios_ok (LSplit d r a b) = (ratio_ok r \<and> node_ratios_ok a \<and> node_ratios_ok b)"

definition ratios_ok :: "layout_tree \<Rightarrow> bool" where
  "ratios_ok t = (case lt_root t of None \<Rightarrow> True | Some n \<Rightarrow> node_ratios_ok n)"

lemma split_in_ratios: "node_ratios_ok n \<Longrightarrow> node_ratios_ok (fst (split_in n target d new pos))"
  by (induction n)
    (simp_all add: Let_def case_prod_beta del: ratio_new.simps split: split_position.split)

lemma close_in_ratios: "node_ratios_ok n \<Longrightarrow>
  (case close_in n target of SamePane \<Rightarrow> True | Replaced n' \<Rightarrow> node_ratios_ok n' | NotPresent n' \<Rightarrow> node_ratios_ok n')"
  by (induction n) (auto split: close_result.splits)

lemma resize_in_ratios: "node_ratios_ok n \<Longrightarrow> node_ratios_ok (fst (resize_in n target ax delta vp))"
  by (induction n arbitrary: vp) (simp_all add: Let_def case_prod_beta)

lemma adjust_ratios: "node_ratios_ok n \<Longrightarrow> node_ratios_ok (fst (adjust_split_recurse n vp adj side delta))"
  by (induction n arbitrary: vp) (simp_all add: Let_def case_prod_beta del: f32_div.simps ratio_new.simps)

lemma set_ratios_ratios: "node_ratios_ok n \<Longrightarrow> node_ratios_ok (fst (set_ratios_walk n rs i))"
  by (induction n arbitrary: i) (simp_all add: Let_def case_prod_beta split: option.split)

lemma map_leaves_ratios: "node_ratios_ok (map_leaves f n) = node_ratios_ok n"
  by (induction n) auto

lemma replace_ratios: "node_ratios_ok n \<Longrightarrow> node_ratios_ok (fst (replace_leaf_walk n old new))"
  by (induction n) (simp_all add: Let_def case_prod_beta)

lemma even_leaf_chain_ratios: "node_ratios_ok (even_leaf_chain ps d)"
  by (induction ps d rule: even_leaf_chain.induct) (subst even_leaf_chain.simps, simp add: Let_def)

lemma even_node_chain_ratios:
  "ns \<noteq> [] \<Longrightarrow> list_all node_ratios_ok ns \<Longrightarrow> node_ratios_ok (even_node_chain ns d)"
proof (induction ns d rule: even_node_chain.induct)
  case (1 ns d)
  show ?case
  proof (cases "length ns \<le> 1")
    case True
    with 1 show ?thesis
      by (cases ns) (auto simp: even_node_chain.simps)
  next
    case False
    then have "0 < div_ceil (length ns) 2" "div_ceil (length ns) 2 < length ns"
      by (auto simp: div_ceil_def)
    moreover have "list_all node_ratios_ok (take (div_ceil (length ns) 2) ns)"
      "list_all node_ratios_ok (drop (div_ceil (length ns) 2) ns)"
      using 1(4) by (metis append_take_drop_id list_all_append)+
    ultimately have "node_ratios_ok (even_node_chain (take (div_ceil (length ns) 2) ns) d)"
      "node_ratios_ok (even_node_chain (drop (div_ceil (length ns) 2) ns) d)"
      using False 1(3,4)
      by (auto intro!: 1(1,2) [OF False refl refl])
    then show ?thesis
      using False by (subst even_node_chain.simps) (simp add: Let_def)
  qed
qed

lemma tiled_rows_ratios: "list_all node_ratios_ok (tiled_rows ps base rm start is)"
  by (induction "is" arbitrary: start) (simp_all add: even_leaf_chain_ratios Let_def)

lemma preset_build_ratios: "node_ratios_ok (preset_build preset ps)"
proof -
  define rows where "rows = max (sqrt_round (length ps)) 1"
  have "tiled_rows ps base rm 0 [0..<rows] \<noteq> []" for base rm
    by (simp add: rows_def flip: length_0_conv)
  then show ?thesis
    by (cases preset)
      (simp_all add: preset_build_def Let_def even_leaf_chain_ratios even_node_chain_ratios
        tiled_rows_ratios MAIN_RATIO_def rows_def [symmetric] del: ratio_new.simps One_nat_def)
qed

lemma layout_step_ratios: "ratios_ok t \<Longrightarrow> ratios_ok (layout_step t op)"
proof (cases op)
  case (OpClose p)
  assume "ratios_ok t"
  then show ?thesis
    using OpClose close_in_ratios [of "the (lt_root t)" p]
    by (auto simp: lt_close_def ratios_ok_def split: option.splits close_result.splits)
qed (auto simp: ratios_ok_def lt_split_def resize_split_def adjust_split_def swap_panes_def
    replace_leaf_def set_ratios_preorder_def apply_preset_def Let_def case_prod_beta swap_in_spec
    split_in_ratios resize_in_ratios adjust_ratios set_ratios_ratios map_leaves_ratios replace_ratios
    preset_build_ratios split: option.splits)

interpretation lrat: invariant_machine ratios_ok layout_step
  by unfold_locales (rule layout_step_ratios)

end
