(* ===== verification/Layout_Geometry.thy ===== *)
theory Layout_Geometry
  imports Layout_Facts
begin

text \<open>
  Lemmas relating the three readings of a layout: the rectangle of a pane, the pane under a cell,
  and the border under a cell; and the exact move of a dragged border.
\<close>

section \<open>Rectangles and the pane under a cell\<close>

lemma rect_of_in_split:
  "subdivide vp d r = (A, B) \<Longrightarrow> rect_of_in (LSplit d r a b) p vp =
     (case rect_of_in a p A of Some R \<Rightarrow> Some R | None \<Rightarrow> rect_of_in b p B)"
  by simp

lemma rect_of_in_None: "rect_of_in n p vp = None \<longleftrightarrow> p \<notin> set (leaves n)"
proof (induction n arbitrary: vp)
  case (LSplit d r a b)
  obtain A B where AB: "subdivide vp d r = (A, B)" by fastforce
  show ?case
    using LSplit.IH(1) [of A] LSplit.IH(2) [of B]
    by (cases "rect_of_in a p A") (simp_all add: rect_of_in_split [OF AB] del: rect_of_in.simps)
qed simp

lemma rect_of_in_fits: "rect_fits vp \<Longrightarrow> rect_of_in n p vp = Some R \<Longrightarrow> rect_fits R"
proof (induction n arbitrary: vp)
  case (LSplit d r a b)
  obtain A B where AB: "subdivide vp d r = (A, B)" by fastforce
  note fits = subdivide_fits [OF LSplit.prems(1) AB]
  show ?case
    using LSplit.prems(2) LSplit.IH(1) [OF fits(1)] LSplit.IH(2) [OF fits(2)]
    by (simp add: rect_of_in_split [OF AB] del: rect_of_in.simps split: option.splits)
qed (auto split: if_splits)

lemma rect_of_in_inside:
  "rect_fits vp \<Longrightarrow> rect_of_in n p vp = Some R \<Longrightarrow> contains R q \<Longrightarrow> contains vp q"
proof (induction n arbitrary: vp)
  case (LSplit d r a b)
  obtain A B where AB: "subdivide vp d r = (A, B)" by fastforce
  note sub = subdivide_fits [OF LSplit.prems(1) AB] subdivide_inside [OF LSplit.prems(1) AB]
  show ?case
    using LSplit.prems(2,3) LSplit.IH(1) [OF sub(1)] LSplit.IH(2) [OF sub(2)] sub(3,4) AB
    by (auto split: option.splits)
qed (auto split: if_splits)

lemma pane_at_in_leaf: "pane_at_in n vp r c = Some p \<Longrightarrow> p \<in> set (leaves n)"
  by (induction n arbitrary: vp) (auto simp: Let_def split: prod.splits if_splits)

lemma pane_at_in_inside:
  "rect_fits vp \<Longrightarrow> pane_at_in n vp r c = Some p \<Longrightarrow> contains vp (mk_point r c)"
proof (induction n arbitrary: vp)
  case (LSplit d q a b)
  obtain A B where AB: "subdivide vp d q = (A, B)" by fastforce
  show ?case
    using LSplit.prems subdivide_inside [OF LSplit.prems(1) AB] AB by (auto split: if_splits)
qed (auto split: if_splits)

lemma pane_at_in_iff:
  "rect_fits vp \<Longrightarrow> distinct (leaves n) \<Longrightarrow>
   pane_at_in n vp r c = Some p \<longleftrightarrow> (\<exists>R. rect_of_in n p vp = Some R \<and> contains R (mk_point r c))"
proof (induction n arbitrary: vp)
  case (LSplit d q a b)
  obtain A B where AB: "subdivide vp d q = (A, B)" by fastforce
  note fits = subdivide_fits [OF LSplit.prems(1) AB]
  have A: "pane_at_in a A r c = Some p \<longleftrightarrow> (\<exists>R. rect_of_in a p A = Some R \<and> contains R (mk_point r c))"
    and B: "pane_at_in b B r c = Some p \<longleftrightarrow> (\<exists>R. rect_of_in b p B = Some R \<and> contains R (mk_point r c))"
    using LSplit.IH fits LSplit.prems(2) by auto
  have disj: "rect_of_in a p A = None \<or> rect_of_in b p B = None"
    using LSplit.prems(2) by (auto simp: rect_of_in_None)
  note inA = rect_of_in_inside [OF fits(1)] pane_at_in_inside [OF fits(1)]
  note inB = rect_of_in_inside [OF fits(2)] pane_at_in_inside [OF fits(2)]
  have AB': "\<not> (contains A (mk_point r c) \<and> contains B (mk_point r c))"
    by (rule subdivide_disjoint [OF LSplit.prems(1) AB])
  show ?case
    using A B disj AB' AB inA inB by (auto split: option.splits)
qed auto

lemma rects_disjoint:
  assumes "rect_fits vp" "distinct (leaves n)" "p \<noteq> q"
    "rect_of_in n p vp = Some P" "rect_of_in n q vp = Some Q"
  shows "\<not> (contains P x \<and> contains Q x)"
proof
  assume "contains P x \<and> contains Q x"
  moreover have "x = mk_point (pt_row x) (pt_col x)"
    by (simp add: mk_point_def)
  ultimately show False
    using pane_at_in_iff [OF assms(1,2), of "pt_row x" "pt_col x"] assms(3-5)
    by (metis option.inject)
qed

section \<open>Borders\<close>

text \<open>
  The rectangles a border can be in: a hit lies in the viewport or on the line just beyond its
  bottom or right edge (the phantom separator of a split too small to have one).
\<close>

definition near :: "rect \<Rightarrow> nat \<Rightarrow> nat \<Rightarrow> bool" where
  "near R r c \<longleftrightarrow> rc_row R \<le> r \<and> r \<le> rc_row R + rc_rows R \<and> rc_col R \<le> c \<and> c \<le> rc_col R + rc_cols R"

text \<open>The cell is on the separator of the split of \<open>vp\<close> into \<open>A\<close> and the rest.\<close>

definition on_gutter :: "split_dir \<Rightarrow> rect \<Rightarrow> nat \<Rightarrow> nat \<Rightarrow> bool" where
  "on_gutter d A r c =
     (case d of
        SplitVertical \<Rightarrow> c = rc_col A + rc_cols A \<and> r \<ge> rc_row A \<and> r < rc_row A + rc_rows A
      | SplitHorizontal \<Rightarrow> r = rc_row A + rc_rows A \<and> c \<ge> rc_col A \<and> c < rc_col A + rc_cols A)"

definition split_hit :: "split_dir \<Rightarrow> layout_node \<Rightarrow> border_hit" where
  "split_hit d a =
     (case d of
        SplitVertical \<Rightarrow> \<lparr>bh_pane = rightmost_leaf a, bh_side = SideRight\<rparr>
      | SplitHorizontal \<Rightarrow> \<lparr>bh_pane = bottommost_leaf a, bh_side = SideBottom\<rparr>)"

lemma border_at_split:
  assumes "rect_fits vp" "subdivide vp d q = (A, B)"
  shows "border_at_recurse (LSplit d q a b) vp r c =
     (if on_gutter d A r c then Some (split_hit d a)
      else (case border_at_recurse a A r c of Some h \<Rightarrow> Some h | None \<Rightarrow> border_at_recurse b B r c))"
proof -
  have "rect_fits A" using subdivide_fits assms by blast
  then show ?thesis
    using assms(2) by (cases d) (simp_all add: on_gutter_def split_hit_def rect_fits_def sadd16_exact)
qed

lemma subdivide_near:
  assumes "rect_fits vp" "subdivide vp d q = (A, B)"
  shows "near A r c \<Longrightarrow> near vp r c" "near B r c \<Longrightarrow> near vp r c" "on_gutter d A r c \<Longrightarrow> near vp r c"
    "near A r c \<Longrightarrow> \<not> contains B (mk_point r c)" "near B r c \<Longrightarrow> \<not> contains A (mk_point r c)"
  using assms subdivide_horizontal [of vp q A B] subdivide_vertical [of vp q A B]
    subdivide_fits [OF assms]
  by (cases d; auto simp: near_def on_gutter_def contains_fits split: if_splits)+

lemma border_near: "rect_fits vp \<Longrightarrow> border_at_recurse n vp r c = Some h \<Longrightarrow> near vp r c"
proof (induction n arbitrary: vp)
  case (LSplit d q a b)
  obtain A B where AB: "subdivide vp d q = (A, B)" by fastforce
  note fits = subdivide_fits [OF LSplit.prems(1) AB]
  note nr = subdivide_near [OF LSplit.prems(1) AB]
  show ?case
    using LSplit.prems(2) LSplit.IH(1) [OF fits(1)] LSplit.IH(2) [OF fits(2)] nr(1-3)
    by (auto simp: border_at_split [OF LSplit.prems(1) AB] simp del: border_at_recurse.simps
        split: if_splits option.splits)
qed simp

lemma gutter_outside:
  assumes "rect_fits vp" "subdivide vp d q = (A, B)" "on_gutter d A r c"
  shows "\<not> contains A (mk_point r c)" "\<not> contains B (mk_point r c)"
  using assms subdivide_horizontal [of vp q A B] subdivide_vertical [of vp q A B]
    subdivide_fits [OF assms(1,2)]
  by (cases d; auto simp: on_gutter_def contains_fits split: if_splits)+

text \<open>A cell of a split is on its separator or in one of its halves.\<close>

lemma split_covers:
  assumes "rect_fits vp" "subdivide vp d q = (A, B)" "contains vp (mk_point r c)"
  shows "on_gutter d A r c \<or> contains A (mk_point r c) \<or> contains B (mk_point r c)"
  using assms subdivide_horizontal [of vp q A B] subdivide_vertical [of vp q A B]
    subdivide_fits [OF assms(1,2)]
  by (cases d) (auto simp: on_gutter_def contains_fits split: if_splits)

text \<open>Inside a half, the border under a cell is the half's own.\<close>

lemma border_in_half:
  assumes "rect_fits vp" "subdivide vp d q = (A, B)"
  shows "contains A (mk_point r c) \<Longrightarrow>
      border_at_recurse (LSplit d q a b) vp r c = border_at_recurse a A r c"
    and "contains B (mk_point r c) \<Longrightarrow>
      border_at_recurse (LSplit d q a b) vp r c = border_at_recurse b B r c"
proof -
  note fits = subdivide_fits [OF assms]
  have "contains A (mk_point r c) \<or> contains B (mk_point r c) \<Longrightarrow> \<not> on_gutter d A r c"
    using gutter_outside [OF assms] by blast
  moreover have "border_at_recurse b B r c = None" if "contains A (mk_point r c)"
    using border_near [OF fits(2)] subdivide_near(5) [OF assms] that by fastforce
  moreover have "border_at_recurse a A r c = None" if "contains B (mk_point r c)"
    using border_near [OF fits(1)] subdivide_near(4) [OF assms] that by fastforce
  ultimately show "contains A (mk_point r c) \<Longrightarrow>
      border_at_recurse (LSplit d q a b) vp r c = border_at_recurse a A r c"
    "contains B (mk_point r c) \<Longrightarrow>
      border_at_recurse (LSplit d q a b) vp r c = border_at_recurse b B r c"
    by (simp_all add: border_at_split [OF assms] del: border_at_recurse.simps split: option.split)
qed

text \<open>A cell of the viewport belongs to a pane exactly when it is not on a border.\<close>

lemma cell_pane_or_border:
  "rect_fits vp \<Longrightarrow> contains vp (mk_point r c) \<Longrightarrow>
   (border_at_recurse n vp r c = None) = (pane_at_in n vp r c \<noteq> None)"
proof (induction n arbitrary: vp)
  case (LSplit d q a b)
  obtain A B where AB: "subdivide vp d q = (A, B)" by fastforce
  note fits = subdivide_fits [OF LSplit.prems(1) AB]
  note half = border_in_half [OF LSplit.prems(1) AB, where a = a and b = b]
  note out = gutter_outside [OF LSplit.prems(1) AB]
  consider "on_gutter d A r c" | "contains A (mk_point r c)"
    | "contains B (mk_point r c)" "\<not> contains A (mk_point r c)"
    using split_covers [OF LSplit.prems(1) AB LSplit.prems(2)] by blast
  then show ?case
  proof cases
    case 1
    then show ?thesis
      using out AB by (simp add: border_at_split [OF LSplit.prems(1) AB] del: border_at_recurse.simps)
  next
    case 2
    then show ?thesis
      using half(1) LSplit.IH(1) [OF fits(1)] AB by (simp del: border_at_recurse.simps)
  next
    case 3
    then show ?thesis
      using half(2) LSplit.IH(2) [OF fits(2)] AB by (simp del: border_at_recurse.simps)
  qed
qed auto

section \<open>Dragging a border\<close>

lemma edge_leaf_in [simp]: "rightmost_leaf n \<in> set (leaves n)" "bottommost_leaf n \<in> set (leaves n)"
  by (induction n) (auto split: split_dir.split)

definition edge_leaf :: "border_side \<Rightarrow> layout_node \<Rightarrow> pane_id" where
  "edge_leaf side n = (case side of SideRight \<Rightarrow> rightmost_leaf n | SideBottom \<Rightarrow> bottommost_leaf n)"

lemma edge_leaf_in' [simp]: "edge_leaf side n \<in> set (leaves n)"
  by (cases side) (simp_all add: edge_leaf_def)

text \<open>The direction of the splits whose border has the given side.\<close>

fun side_dir :: "border_side \<Rightarrow> split_dir" where
  "side_dir SideRight = SplitVertical"
| "side_dir SideBottom = SplitHorizontal"

lemma split_hit_side: "side_dir (bh_side (split_hit d a)) = d"
  by (cases d) (simp_all add: split_hit_def)

lemma split_hit_pane: "bh_pane (split_hit d a) = edge_leaf (bh_side (split_hit d a)) a"
  by (cases d) (simp_all add: split_hit_def edge_leaf_def)

lemma edge_leaf_split:
  "edge_leaf side (LSplit d q a b) = edge_leaf side (if d = side_dir side then b else a)"
  by (cases side; cases d) (simp_all add: edge_leaf_def)

lemma border_hit_leaf:
  "rect_fits vp \<Longrightarrow> border_at_recurse n vp r c = Some h \<Longrightarrow> bh_pane h \<in> set (leaves n)"
proof (induction n arbitrary: vp)
  case (LSplit d q a b)
  obtain A B where AB: "subdivide vp d q = (A, B)" by fastforce
  note fits = subdivide_fits [OF LSplit.prems(1) AB]
  show ?case
    using LSplit.prems(2) LSplit.IH(1) [OF fits(1)] LSplit.IH(2) [OF fits(2)]
    by (auto simp: border_at_split [OF LSplit.prems(1) AB] split_hit_pane simp del: border_at_recurse.simps
        split: if_splits option.splits)
qed simp

text \<open>
  The pane that names a border inside a subtree is never the edge pane of that subtree: the border
  of an enclosing split is named by another pane.
\<close>

lemma border_hit_not_edge:
  "rect_fits vp \<Longrightarrow> distinct (leaves n) \<Longrightarrow> border_at_recurse n vp r c = Some h \<Longrightarrow>
   bh_pane h \<noteq> edge_leaf (bh_side h) n"
proof (induction n arbitrary: vp)
  case (LSplit d q a b)
  obtain A B where AB: "subdivide vp d q = (A, B)" by fastforce
  note fits = subdivide_fits [OF LSplit.prems(1) AB]
  have ab: "distinct (leaves a)" "distinct (leaves b)" "set (leaves a) \<inter> set (leaves b) = {}"
    using LSplit.prems(2) by auto
  have "h = split_hit d a \<or> border_at_recurse a A r c = Some h \<or> border_at_recurse b B r c = Some h"
    using LSplit.prems(3) unfolding border_at_split [OF LSplit.prems(1) AB]
    by (simp split: if_splits option.splits)
  then consider (here) "h = split_hit d a" | (first) "border_at_recurse a A r c = Some h"
    | (second) "border_at_recurse b B r c = Some h"
    by blast
  then show ?case
  proof cases
    case here
    have "edge_leaf (bh_side h) b \<noteq> edge_leaf (bh_side h) a"
      using ab(3) edge_leaf_in' by (metis disjoint_iff)
    then show ?thesis
      using split_hit_side [of d a] split_hit_pane [of d a] here
      by (simp add: edge_leaf_split)
  next
    case first
    then have "bh_pane h \<in> set (leaves a)" "bh_pane h \<noteq> edge_leaf (bh_side h) a"
      using border_hit_leaf [OF fits(1)] LSplit.IH(1) [OF fits(1) ab(1)] by auto
    moreover have "edge_leaf (bh_side h) b \<noteq> bh_pane h"
      using ab(3) edge_leaf_in' calculation(1) by (metis disjoint_iff)
    ultimately show ?thesis
      by (simp add: edge_leaf_split)
  next
    case second
    then have "bh_pane h \<in> set (leaves b)" "bh_pane h \<noteq> edge_leaf (bh_side h) b"
      using border_hit_leaf [OF fits(2)] LSplit.IH(2) [OF fits(2) ab(2)] by auto
    moreover have "edge_leaf (bh_side h) a \<noteq> bh_pane h"
      using ab(3) edge_leaf_in' calculation(1) by (metis disjoint_iff)
    ultimately show ?thesis
      by (simp add: edge_leaf_split)
  qed
qed simp

text \<open>The lines a rectangle has in the direction of a split.\<close>

definition extent :: "split_dir \<Rightarrow> rect \<Rightarrow> nat" where
  "extent d R = (case d of SplitVertical \<Rightarrow> rc_cols R | SplitHorizontal \<Rightarrow> rc_rows R)"

definition dragged_ratio :: "nat \<Rightarrow> nat \<Rightarrow> int \<Rightarrow> f32" where
  "dragged_ratio usable len1 delta =
     ratio_new (f32_div (F32 (of_nat (nat (min (max (int len1 + delta) (int MIN_PANE_CELLS))
       (int (usable - MIN_PANE_CELLS)))))) (F32 (of_nat usable)))"

lemma adjust_split_eq:
  assumes "subdivide vp d q = (A, B)"
  shows "adjust_split_recurse (LSplit d q a b) vp adj side delta =
     (if d = side_dir side \<and> edge_leaf side a = adj then
        (if extent d vp - 1 < 2 * MIN_PANE_CELLS then (LSplit d q a b, 0)
         else (let q' = dragged_ratio (extent d vp - 1) (extent d A) delta
               in (LSplit d q' a b, as_i16 (int (first_share (extent d vp - 1) q') - int (extent d A)))))
      else
        (let (a', from_first) = adjust_split_recurse a A adj side delta
         in if from_first \<noteq> 0 then (LSplit d q a' b, from_first)
            else (let (b', applied) = adjust_split_recurse b B adj side delta
                  in (LSplit d q a' b', applied))))"
  using assms
  by (cases d; cases side; hypsubst)
    (simp_all only: adjust_split_recurse.simps Let_def prod.case split_dir.case border_side.case
      side_dir.simps split_dir.distinct border_side.distinct edge_leaf_def extent_def
      dragged_ratio_def simp_thms if_True if_False)

lemma adjust_absent:
  "adj \<notin> set (leaves n) \<Longrightarrow> adjust_split_recurse n vp adj side delta = (n, 0)"
proof (induction n arbitrary: vp)
  case (LSplit d q a b)
  obtain A B where AB: "subdivide vp d q = (A, B)" by fastforce
  have "edge_leaf side a \<noteq> adj"
    using LSplit.prems edge_leaf_in' [of side a] by auto
  then show ?case
    using LSplit by (simp add: adjust_split_eq [OF AB] del: adjust_split_recurse.simps)
qed simp

lemma as_i16_id: "- 32768 \<le> x \<Longrightarrow> x \<le> 32767 \<Longrightarrow> as_i16 x = x"
  by (simp add: as_i16_def)

text \<open>A drag by \<open>k\<close> cells moves the cell of a border along the axis of its side.\<close>

definition drag_row :: "border_side \<Rightarrow> nat \<Rightarrow> int \<Rightarrow> nat" where
  "drag_row side r k = (case side of SideRight \<Rightarrow> r | SideBottom \<Rightarrow> nat (int r + k))"

definition drag_col :: "border_side \<Rightarrow> nat \<Rightarrow> int \<Rightarrow> nat" where
  "drag_col side c k = (case side of SideRight \<Rightarrow> nat (int c + k) | SideBottom \<Rightarrow> c)"

lemma drag_0 [simp]: "drag_row side r 0 = r" "drag_col side c 0 = c"
  by (cases side; simp add: drag_row_def drag_col_def)+

definition small_screen :: "rect \<Rightarrow> bool" where
  "small_screen R \<longleftrightarrow> rc_rows R \<le> 32767 \<and> rc_cols R \<le> 32767"

lemma subdivide_extent:
  assumes "rect_fits vp" "subdivide vp d q = (A, B)" "2 \<le> extent d vp"
  shows "extent d A = first_share (extent d vp - 1) q"
  using assms by (cases d) (auto simp: extent_def subdivide_def Let_def split: if_splits)

lemma subdivide_small:
  assumes "rect_fits vp" "subdivide vp d q = (A, B)" "small_screen vp"
  shows "small_screen A" "small_screen B"
  using assms subdivide_horizontal [of vp q A B] subdivide_vertical [of vp q A B]
  by (cases d; auto simp: small_screen_def split: if_splits)+

lemma gutter_drag:
  assumes "rect_fits vp" "small_screen vp" "subdivide vp d q = (A, B)" "subdivide vp d q' = (A', B')"
    "on_gutter d A r c" "d = side_dir side" "3 \<le> extent d vp"
  defines "k \<equiv> as_i16 (int (first_share (extent d vp - 1) q') - int (extent d A))"
  shows "on_gutter d A' (drag_row side r k) (drag_col side c k)"
    and "contains vp (mk_point (drag_row side r k) (drag_col side c k))"
proof -
  have A: "extent d A = first_share (extent d vp - 1) q" and A': "extent d A' = first_share (extent d vp - 1) q'"
    using assms subdivide_extent by auto
  have "first_share (extent d vp - 1) q' \<le> extent d vp - 2" "extent d A \<le> extent d vp - 2"
    using first_share_bounds(2) [of "extent d vp - 1" q'] first_share_bounds(2) [of "extent d vp - 1" q]
      assms(7) A by auto
  moreover have "extent d vp \<le> 32767"
    using assms(2) by (cases d) (auto simp: small_screen_def extent_def)
  ultimately have k: "k = int (extent d A') - int (extent d A)" "extent d A' < extent d vp"
    using assms(7) A' by (auto simp: k_def as_i16_id)
  show "on_gutter d A' (drag_row side r k) (drag_col side c k)"
    "contains vp (mk_point (drag_row side r k) (drag_col side c k))"
    using assms(5,6) k subdivide_horizontal [OF assms(1), of q A B] subdivide_vertical [OF assms(1), of q A B]
      subdivide_horizontal [OF assms(1), of q' A' B'] subdivide_vertical [OF assms(1), of q' A' B'] assms(3,4)
    by (cases side; auto simp: on_gutter_def drag_row_def drag_col_def extent_def
        contains_fits [OF assms(1)] split: if_splits)+
qed

lemma border_drag:
  assumes "rect_fits vp" "small_screen vp" "distinct (leaves n)" "contains vp (mk_point r c)"
    "border_at_recurse n vp r c = Some h"
    "adjust_split_recurse n vp (bh_pane h) (bh_side h) delta = (n', k)"
  shows "border_at_recurse n' vp (drag_row (bh_side h) r k) (drag_col (bh_side h) c k) = Some h \<and>
         contains vp (mk_point (drag_row (bh_side h) r k) (drag_col (bh_side h) c k))"
  using assms
proof (induction n arbitrary: vp n' k)
  case (LSplit d q a b)
  obtain A B where AB: "subdivide vp d q = (A, B)" by fastforce
  note fits = subdivide_fits [OF LSplit.prems(1) AB]
  note smalls = subdivide_small [OF LSplit.prems(1) AB LSplit.prems(2)]
  note half = border_in_half [OF LSplit.prems(1) AB]
  have ab: "distinct (leaves a)" "distinct (leaves b)" "set (leaves a) \<inter> set (leaves b) = {}"
    using LSplit.prems(3) by auto
  note adj = LSplit.prems(6) [unfolded adjust_split_eq [OF AB]]
  consider (here) "on_gutter d A r c" | (first) "contains A (mk_point r c)" | (second) "contains B (mk_point r c)"
    using split_covers [OF LSplit.prems(1) AB LSplit.prems(4)] by blast
  then show ?case
  proof cases
    case here
    then have h: "h = split_hit d a"
      using LSplit.prems(5) by (simp add: border_at_split [OF LSplit.prems(1) AB] del: border_at_recurse.simps)
    then have match: "d = side_dir (bh_side h)" "edge_leaf (bh_side h) a = bh_pane h"
      using split_hit_side [of d a] split_hit_pane [of d a] by simp_all
    show ?thesis
    proof (cases "extent d vp - 1 < 2 * MIN_PANE_CELLS")
      case True
      then have "n' = LSplit d q a b" "k = 0"
        using adj match by simp_all
      then show ?thesis
        using LSplit.prems(4,5) by simp
    next
      case False
      define q' where "q' = dragged_ratio (extent d vp - 1) (extent d A) delta"
      obtain A' B' where AB': "subdivide vp d q' = (A', B')" by fastforce
      have n': "n' = LSplit d q' a b" "k = as_i16 (int (first_share (extent d vp - 1) q') - int (extent d A))"
        using adj match False by (simp_all add: q'_def Let_def)
      have "3 \<le> extent d vp"
        using False by (simp add: MIN_PANE_CELLS_def)
      note drag = gutter_drag [OF LSplit.prems(1,2) AB AB' here match(1) this, folded n'(2)]
      then show ?thesis
        by (simp add: n'(1) border_at_split [OF LSplit.prems(1) AB'] h del: border_at_recurse.simps)
    qed
  next
    case first
    then have hit: "border_at_recurse a A r c = Some h"
      using LSplit.prems(5) half(1) by simp
    obtain a' ka where a': "adjust_split_recurse a A (bh_pane h) (bh_side h) delta = (a', ka)" by fastforce
    note ih = LSplit.IH(1) [OF fits(1) smalls(1) ab(1) first hit a']
    have "edge_leaf (bh_side h) a \<noteq> bh_pane h" "bh_pane h \<notin> set (leaves b)"
      using border_hit_not_edge [OF fits(1) ab(1) hit] border_hit_leaf [OF fits(1) hit] ab(3) by auto
    then have "n' = LSplit d q a' b" "k = ka"
      using adj a' by (auto simp: adjust_absent split: if_splits)
    then show ?thesis
      using ih half(1) subdivide_inside(1) [OF LSplit.prems(1) AB] by simp
  next
    case second
    then have hit: "border_at_recurse b B r c = Some h"
      using LSplit.prems(5) half(2) by simp
    obtain b' kb where b': "adjust_split_recurse b B (bh_pane h) (bh_side h) delta = (b', kb)" by fastforce
    note ih = LSplit.IH(2) [OF fits(2) smalls(2) ab(2) second hit b']
    have absent: "bh_pane h \<notin> set (leaves a)"
      using border_hit_leaf [OF fits(2) hit] ab(3) by auto
    moreover have "edge_leaf (bh_side h) a \<noteq> bh_pane h"
      using absent edge_leaf_in' by metis
    ultimately have "n' = LSplit d q a b'" "k = kb"
      using adj b' by (auto simp: adjust_absent split: if_splits)
    then show ?thesis
      using ih half(2) subdivide_inside(2) [OF LSplit.prems(1) AB] by simp
  qed
qed simp

section \<open>A drag lands on the cell it asks for\<close>

lemma f32_rat_tenths: "f32_rat (1 / 10) = ratio_min" "f32_rat (9 / 10) = ratio_max"
proof -
  have "f32_expo (1 / 10) = - 4" "f32_expo (9 / 10) = - 1"
    by (simp_all add: f32_expo.simps)
  moreover have "\<lfloor>67108864 / 5 :: rat\<rfloor> = 13421772" "\<lfloor>75497472 / 5 :: rat\<rfloor> = 15099494"
    by (simp_all add: floor_eq_iff)
  ultimately show "f32_rat (1 / 10) = ratio_min" "f32_rat (9 / 10) = ratio_max"
    by (simp_all add: f32_rat_def ratio_min_def ratio_max_def round_half_even_def Let_def power_int_def
        power_one_over)
qed

text \<open>A share between a tenth and nine tenths of the cells is not clamped.\<close>

lemma fraction_ratio_ok:
  assumes "1 \<le> n" "usable \<le> 65535" "usable \<le> 10 * n" "10 * n \<le> 9 * usable"
  shows "ratio_ok (f32_round (of_nat n / of_nat usable))"
proof -
  have le: "n \<le> usable" "0 < usable"
    using assms by auto
  define q :: rat where "q = of_nat n / of_nat usable"
  note fr = f32_fraction [OF assms(1) le(1) assms(2), folded q_def]
  consider "usable = 10 * n" | "10 * n = 9 * usable" | "usable + 1 \<le> 10 * n" "10 * n + 1 \<le> 9 * usable"
    using assms(3,4) by linarith
  then have "ratio_min \<le> f32_rat q \<and> f32_rat q \<le> ratio_max"
  proof cases
    case 1
    then have "q = 1 / 10"
      using assms(1) by (simp add: q_def field_simps)
    then show ?thesis
      by (simp only: f32_rat_tenths ratio_min_less order_refl simp_thms)
  next
    case 2
    then have "10 * of_nat n = 9 * (of_nat usable :: rat)"
      by (metis of_nat_mult of_nat_numeral)
    then have "q = 9 / 10"
      using le by (simp add: q_def field_simps)
    then show ?thesis
      by (simp only: f32_rat_tenths ratio_min_less order_refl simp_thms)
  next
    case 3
    have n: "(of_nat usable :: rat) + 1 \<le> 10 * of_nat n" "10 * of_nat n + 1 \<le> 9 * (of_nat usable :: rat)"
      "(of_nat n :: rat) \<le> of_nat usable" "(of_nat usable :: rat) \<le> 65535" "(0 :: rat) < of_nat usable"
      using 3 le assms(2) of_nat_mono [OF 3(1), where ?'a = rat] of_nat_mono [OF 3(2), where ?'a = rat]
        of_nat_mono [OF assms(2), where ?'a = rat] by simp_all
    have "\<bar>of_nat usable * f32_rat q - of_nat n\<bar> \<le> 1 / 200"
      using fr(2) n by simp
    then have "of_nat n - 1 / 200 \<le> of_nat usable * f32_rat q" "of_nat usable * f32_rat q \<le> of_nat n + 1 / 200"
      unfolding abs_le_iff by linarith+
    then have "of_nat usable * ratio_min \<le> of_nat usable * f32_rat q"
      "of_nat usable * f32_rat q \<le> of_nat usable * ratio_max"
      using n unfolding ratio_min_def ratio_max_def by linarith+
    then show ?thesis
      using n(5) by simp
  qed
  then show ?thesis
    using fr(1) by (simp add: q_def)
qed

lemma dragged_share:
  assumes "2 * MIN_PANE_CELLS \<le> usable" "usable \<le> 65535"
    "int n = int len1 + delta" "MIN_PANE_CELLS \<le> n" "n + MIN_PANE_CELLS \<le> usable"
    "usable \<le> 10 * n" "10 * n \<le> 9 * usable"
  shows "first_share usable (dragged_ratio usable len1 delta) = n"
proof -
  have n: "1 \<le> n" "n \<le> usable"
    using assms(4,5) by (auto simp: MIN_PANE_CELLS_def)
  have "nat (min (max (int len1 + delta) (int MIN_PANE_CELLS)) (int (usable - MIN_PANE_CELLS))) = n"
    using assms(3-5) by (simp flip: assms(3))
  then have "dragged_ratio usable len1 delta = f32_round (of_nat n / of_nat usable)"
    using n ratio_new_id [OF fraction_ratio_ok [OF n(1) assms(2,6,7)]]
    using n unfolding dragged_ratio_def by (simp only: f32_div.simps) simp
  then show ?thesis
    using f32_fraction_back [OF n assms(2)] n assms(5) by (simp add: first_share_def clamp_def MIN_PANE_CELLS_def)
qed

section \<open>Neighbours\<close>

lemma max_by_key_None [simp]: "max_by_key k xs = None \<longleftrightarrow> xs = []"
  by (cases xs) (auto split: option.splits)

lemma max_by_key_Some:
  "max_by_key k xs = Some m \<Longrightarrow> m \<in> set xs \<and> (\<forall>x \<in> set xs. fst (k x) \<le> fst (k m))"
  by (induction xs arbitrary: m) (fastforce simp: key_le_def split: option.splits if_splits)+

text \<open>
  \<open>Q\<close> lies beside \<open>P\<close> in a direction: one separator away, and the two share \<open>ov\<close> lines across.
\<close>

definition line_span :: "direction \<Rightarrow> rect \<Rightarrow> nat \<times> nat" where
  "line_span d R =
     (if axis d = SplitVertical then (rc_row R, bottom_edge_row R) else (rc_col R, right_edge_col R))"

definition facing :: "direction \<Rightarrow> rect \<Rightarrow> rect \<Rightarrow> nat" where
  "facing d P Q =
     overlap_len (fst (line_span d Q)) (snd (line_span d Q)) (fst (line_span d P)) (snd (line_span d P))"

fun one_apart :: "direction \<Rightarrow> rect \<Rightarrow> rect \<Rightarrow> bool" where
  "one_apart DirRight P Q = (rc_col Q = right_edge_col P + 2)"
| "one_apart DirLeft P Q = (right_edge_col Q + 2 = rc_col P)"
| "one_apart DirDown P Q = (rc_row Q = bottom_edge_row P + 2)"
| "one_apart DirUp P Q = (bottom_edge_row Q + 2 = rc_row P)"

definition beside :: "direction \<Rightarrow> rect \<Rightarrow> rect \<Rightarrow> bool" where
  "beside d P Q \<longleftrightarrow> one_apart d P Q \<and> 0 < facing d P Q"

lemma in_map_filter: "y \<in> set (List.map_filter f xs) \<longleftrightarrow> (\<exists>x \<in> set xs. f x = Some y)"
  by (force simp: List.map_filter_def)

definition candidate :: "direction \<Rightarrow> (rect \<Rightarrow> bool) \<Rightarrow> rect \<Rightarrow> pane_id \<times> rect \<Rightarrow> (pane_id \<times> nat \<times> nat) option" where
  "candidate d ok P = (\<lambda>(q, Q).
     (if ok Q \<and> 0 < facing d P Q then
        Some (q, facing d P Q,
          nat \<bar>span_center (fst (line_span d Q)) (snd (line_span d Q))
               - span_center (fst (line_span d P)) (snd (line_span d P))\<bar>)
      else None))"

lemma pick_neighbor_eq:
  "pick_neighbor ps ok P (axis d = SplitVertical) =
     map_option fst (max_by_key (\<lambda>(_, ov, dist). (ov, u32_max - dist)) (List.map_filter (candidate d ok P) ps))"
proof -
  have "(\<lambda>(p, R). if ok R then
            (let (lo, hi) = line_span d R;
                 ov = overlap_len lo hi (fst (line_span d P)) (snd (line_span d P))
             in if ov = 0 then None
                else Some (p, ov, nat \<bar>span_center lo hi - span_center (fst (line_span d P)) (snd (line_span d P))\<bar>))
          else None) = candidate d ok P"
    by (auto simp: candidate_def facing_def Let_def fun_eq_iff split: prod.split)
  then show ?thesis
    by (simp add: pick_neighbor_def line_span_def Let_def case_prod_beta cong: if_cong)
qed

lemma pick_neighbor_spec:
  "case pick_neighbor ps ok P (axis d = SplitVertical) of
     None \<Rightarrow> \<forall>(q, Q) \<in> set ps. ok Q \<longrightarrow> facing d P Q = 0
   | Some q \<Rightarrow> \<exists>Q. (q, Q) \<in> set ps \<and> ok Q \<and> 0 < facing d P Q \<and>
       (\<forall>(q', Q') \<in> set ps. ok Q' \<longrightarrow> facing d P Q' \<le> facing d P Q)"
proof -
  let ?k = "\<lambda>(_, ov, dist). (ov, u32_max - dist)"
  let ?cs = "List.map_filter (candidate d ok P) ps"
  have cand: "candidate d ok P (q, Q) = Some c \<Longrightarrow> fst (?k c) = facing d P Q \<and> fst c = q \<and> ok Q \<and> 0 < facing d P Q"
    for q Q and c :: "pane_id \<times> nat \<times> nat"
    by (auto simp: candidate_def split: if_splits)
  have some: "ok Q \<Longrightarrow> 0 < facing d P Q \<Longrightarrow> \<exists>c. candidate d ok P (q, Q) = Some c" for q Q
    by (simp add: candidate_def)
  show ?thesis
  proof (cases "max_by_key ?k ?cs")
    case None
    then have "\<And>c. c \<notin> set ?cs"
      by simp
    then have "\<And>x c. x \<in> set ps \<Longrightarrow> candidate d ok P x \<noteq> Some c"
      by (auto simp: in_map_filter)
    then show ?thesis
      using some None by (fastforce simp: pick_neighbor_eq)
  next
    case (Some m)
    then obtain q Q where Q: "(q, Q) \<in> set ps" "candidate d ok P (q, Q) = Some m"
      and mx: "\<And>c. c \<in> set ?cs \<Longrightarrow> fst (?k c) \<le> fst (?k m)"
      using max_by_key_Some [OF Some] by (auto simp: in_map_filter)
    have "facing d P Q' \<le> facing d P Q" if "(q', Q') \<in> set ps" "ok Q'" for q' Q'
    proof (cases "facing d P Q' = 0")
      case False
      then have "0 < facing d P Q'"
        by simp
      from some [OF that(2) this] obtain c where c: "candidate d ok P (q', Q') = Some c" ..
      then have "c \<in> set ?cs"
        using that by (auto simp: in_map_filter)
      then show ?thesis
        using mx [of c] cand [OF c] cand [OF Q(2)] by simp
    qed simp
    then show ?thesis
      using cand [OF Q(2)] Q(1) Some by (auto simp: pick_neighbor_eq)
  qed
qed

lemma pick_neighbor_none: "(\<And>q Q. (q, Q) \<in> set ps \<Longrightarrow> \<not> ok Q) \<Longrightarrow> pick_neighbor ps ok P (axis d = SplitVertical) = None"
  using pick_neighbor_spec [where ps = ps and ok = ok and P = P and d = d] by (auto split: option.splits)

definition other_rects :: "layout_tree \<Rightarrow> pane_id \<Rightarrow> rect \<Rightarrow> (pane_id \<times> rect) list" where
  "other_rects t p vp =
     List.map_filter (\<lambda>q. map_option (\<lambda>R. (q, R)) (rect_of t q vp)) (filter (\<lambda>q. q \<noteq> p) (lt_panes t))"

lemma in_other_rects:
  "(q, Q) \<in> set (other_rects t p vp) \<longleftrightarrow> q \<in> set (lt_panes t) \<and> q \<noteq> p \<and> rect_of t q vp = Some Q"
  by (auto simp: other_rects_def in_map_filter)

lemma other_rects_fit: "rect_fits vp \<Longrightarrow> (q, Q) \<in> set (other_rects t p vp) \<Longrightarrow> rect_fits Q"
  by (auto simp: in_other_rects rect_of_def rect_of_in_fits split: option.splits)

text \<open>The test of each direction, with its checked arithmetic, says that the pane is one apart.\<close>

lemma next_in_direction_eq:
  assumes "rect_of t p vp = Some P" "rect_fits vp"
  shows "next_in_direction t p vp d =
     pick_neighbor (other_rects t p vp) (one_apart d P) P (axis d = SplitVertical)"
proof (cases d)
  case DirRight
  show ?thesis
  proof (cases "right_edge_col P + 2 \<le> u16_max")
    case True
    then show ?thesis
      using assms(1) DirRight by (simp add: next_in_direction_def checked_add16_def other_rects_def [symmetric]
          one_apart.simps [abs_def])
  next
    case False
    then have "\<not> one_apart d P Q" if "(q, Q) \<in> set (other_rects t p vp)" for q Q
      using other_rects_fit [OF assms(2) that] DirRight by (auto simp: rect_fits_def)
    with False show ?thesis
      using assms(1) pick_neighbor_none [where ps = "other_rects t p vp" and ok = "one_apart d P" and P = P and d = d] DirRight
      by (simp add: next_in_direction_def checked_add16_def)
  qed
next
  case DirDown
  show ?thesis
  proof (cases "bottom_edge_row P + 2 \<le> u16_max")
    case True
    then show ?thesis
      using assms(1) DirDown by (simp add: next_in_direction_def checked_add16_def other_rects_def [symmetric]
          one_apart.simps [abs_def])
  next
    case False
    then have "\<not> one_apart d P Q" if "(q, Q) \<in> set (other_rects t p vp)" for q Q
      using other_rects_fit [OF assms(2) that] DirDown by (auto simp: rect_fits_def)
    with False show ?thesis
      using assms(1) pick_neighbor_none [where ps = "other_rects t p vp" and ok = "one_apart d P" and P = P and d = d] DirDown
      by (simp add: next_in_direction_def checked_add16_def)
  qed
next
  case DirLeft
  show ?thesis
  proof (cases "2 \<le> rc_col P")
    case True
    then have "(\<lambda>R. right_edge_col R = rc_col P - 2) = one_apart d P"
      using DirLeft by auto
    with True show ?thesis
      using assms(1) DirLeft by (simp add: next_in_direction_def checked_sub_def other_rects_def [symmetric])
  next
    case False
    then show ?thesis
      using assms(1) pick_neighbor_none [where ps = "other_rects t p vp" and ok = "one_apart d P" and P = P and d = d] DirLeft
      by (auto simp: next_in_direction_def checked_sub_def)
  qed
next
  case DirUp
  show ?thesis
  proof (cases "2 \<le> rc_row P")
    case True
    then have "(\<lambda>R. bottom_edge_row R = rc_row P - 2) = one_apart d P"
      using DirUp by auto
    with True show ?thesis
      using assms(1) DirUp by (simp add: next_in_direction_def checked_sub_def other_rects_def [symmetric])
  next
    case False
    then show ?thesis
      using assms(1) pick_neighbor_none [where ps = "other_rects t p vp" and ok = "one_apart d P" and P = P and d = d] DirUp
      by (auto simp: next_in_direction_def checked_sub_def)
  qed
qed

lemma next_in_direction_spec:
  assumes "rect_of t p vp = Some P" "rect_fits vp"
  shows "case next_in_direction t p vp d of
     None \<Rightarrow> \<forall>(q, Q) \<in> set (other_rects t p vp). \<not> beside d P Q
   | Some q \<Rightarrow> \<exists>Q. (q, Q) \<in> set (other_rects t p vp) \<and> beside d P Q \<and>
       (\<forall>(q', Q') \<in> set (other_rects t p vp). beside d P Q' \<longrightarrow> facing d P Q' \<le> facing d P Q)"
  using pick_neighbor_spec [where ps = "other_rects t p vp" and ok = "one_apart d P" and P = P and d = d]
  unfolding next_in_direction_eq [OF assms] beside_def
  by (auto split: option.splits)

section \<open>Swapping keeps the rectangles\<close>

lemma rect_of_in_map_leaves:
  "inj f \<Longrightarrow> rect_of_in (map_leaves f n) (f p) vp = rect_of_in n p vp"
  by (induction n arbitrary: vp) (auto simp: inj_eq Let_def split: prod.split option.split)

lemma swap_inj: "inj (\<lambda>p. if p = a then b else if p = b then a else (p :: pane_id))"
  by (auto simp: inj_def)

section \<open>Closing undoes splitting\<close>

lemma close_split_in:
  assumes "target \<in> set (leaves n)" "new \<notin> set (leaves n)"
  shows "close_in (fst (split_in n target d new pos)) new = Replaced n"
  using assms
proof (induction n)
  case (LLeaf p)
  then show ?case by (cases pos) (auto simp: Let_def)
next
  case (LSplit sd r a b)
  have split_a: "snd (split_in a target d new pos) = (target \<in> set (leaves a))"
    using split_in_spec [of a] by simp
  have close_a: "close_in a new = NotPresent a"
    using close_in_spec [of a new] LSplit.prems(2)
    by (cases "close_in a new") auto
  show ?case
  proof (cases "target \<in> set (leaves a)")
    case True
    then show ?thesis
      using LSplit split_a by (simp add: Let_def case_prod_beta)
  next
    case False
    then have "fst (split_in a target d new pos) = a"
      using split_in_spec [of a] by simp
    then show ?thesis
      using LSplit split_a False close_a by (simp add: Let_def case_prod_beta)
  qed
qed

end
