(* ===== verification/Layout_Props.thy ===== *)
theory Layout_Props
  imports Layout_Geometry
begin

text \<open>
  Properties of the pane layout: hit tests and rectangles agree and tile the viewport, borders
  follow the drag, the tree refines a sequence of panes, ratios stay in range.
\<close>

text \<open>A vertical split of panes 1 and 2, the second of them split again: used by the witnesses.\<close>

definition sample_layout :: layout_tree where
  "sample_layout = \<lparr>lt_root = Some (LSplit SplitVertical (F32 (1 / 2)) (LLeaf 1)
     (LSplit SplitHorizontal (F32 (1 / 2)) (LLeaf 2) (LLeaf 3)))\<rparr>"

definition sample_screen :: rect where
  "sample_screen = \<lparr>rc_row = 0, rc_col = 0, rc_rows = 9, rc_cols = 21\<rparr>"

lemma sample_shares: "first_share 20 (F32 (1 / 2)) = 10" "first_share 8 (F32 (1 / 2)) = 4"
proof -
  have "f32_round_u16 (f32_round 10) = 10" "f32_round_u16 (f32_round 4) = 4"
    using f32_product_back [of 10 10] f32_product_back [of 4 4] by simp_all
  then show "first_share 20 (F32 (1 / 2)) = 10" "first_share 8 (F32 (1 / 2)) = 4"
    by (simp_all add: first_share_def clamp_def)
qed

lemma sample_subdivide:
  "subdivide sample_screen SplitVertical (F32 (1 / 2)) =
     (\<lparr>rc_row = 0, rc_col = 0, rc_rows = 9, rc_cols = 10\<rparr>, \<lparr>rc_row = 0, rc_col = 11, rc_rows = 9, rc_cols = 10\<rparr>)"
  "subdivide \<lparr>rc_row = 0, rc_col = 11, rc_rows = 9, rc_cols = 10\<rparr> SplitHorizontal (F32 (1 / 2)) =
     (\<lparr>rc_row = 0, rc_col = 11, rc_rows = 4, rc_cols = 10\<rparr>, \<lparr>rc_row = 5, rc_col = 11, rc_rows = 4, rc_cols = 10\<rparr>)"
  by (simp_all add: subdivide_def sample_screen_def sample_shares Let_def mk_rect_def mk_point_def mk_size_def
      sadd16_def u16_max_def)

lemma sample_facts:
  "rect_fits sample_screen" "small_screen sample_screen" "distinct (lt_panes sample_layout)"
  "lt_panes sample_layout = [1, 2, 3]"
  by (simp_all add: rect_fits_def small_screen_def sample_screen_def sample_layout_def u16_max_def)

text \<open>
  C29: the pane under a cell is the pane whose rectangle contains the cell.  The hit test walks down
  one branch of the tree, the rectangle search tries both; as every split leaves its halves disjoint
  and inside it, the two agree on every cell and every pane.
\<close>

theorem hit_test_agrees_with_rects:
  assumes "rect_fits vp" "distinct (lt_panes t)"
  shows "pane_at_coord t vp r c = Some p \<longleftrightarrow>
         (\<exists>R. rect_of t p vp = Some R \<and> contains R (mk_point r c))"
  using assms pane_at_in_iff
  by (cases "lt_root t") (auto simp: pane_at_coord_def rect_of_def lt_panes_root)

theorem hit_test_agrees_with_rects_witness:
  "pane_at_coord sample_layout sample_screen 6 12 = Some 3 \<longleftrightarrow>
   (\<exists>R. rect_of sample_layout 3 sample_screen = Some R \<and> contains R (mk_point 6 12))"
  by (rule hit_test_agrees_with_rects [OF sample_facts(1,3)])

text \<open>
  C7: the panes and the borders tile the viewport.  A cell of the viewport either is on a border,
  and then lies in no pane, or lies in the rectangle of exactly one pane.
\<close>

theorem panes_and_borders_tile:
  assumes "rect_fits vp" "distinct (lt_panes t)" "lt_root t \<noteq> None" "contains vp (mk_point r c)"
  shows "if border_at t vp r c = None
         then (\<exists>!p. \<exists>R. rect_of t p vp = Some R \<and> contains R (mk_point r c))
         else \<not> (\<exists>p R. rect_of t p vp = Some R \<and> contains R (mk_point r c))"
proof -
  from assms(3) obtain n where n: "lt_root t = Some n" by auto
  have d: "distinct (leaves n)"
    using assms(2) n by (simp add: lt_panes_root)
  show ?thesis
    using cell_pane_or_border [OF assms(1,4), of n] pane_at_in_iff [OF assms(1) d, of r c] n
    by (auto simp: border_at_def rect_of_def) (metis option.inject)
qed

theorem panes_and_borders_tile_witness:
  "if border_at sample_layout sample_screen 4 15 = None
   then (\<exists>!p. \<exists>R. rect_of sample_layout p sample_screen = Some R \<and> contains R (mk_point 4 15))
   else \<not> (\<exists>p R. rect_of sample_layout p sample_screen = Some R \<and> contains R (mk_point 4 15))"
  by (rule panes_and_borders_tile [OF sample_facts(1,3)])
    (simp_all add: sample_layout_def sample_screen_def contains_def sadd16_def u16_max_def)



text \<open>
  within the bounds a drag is exact.  When the requested size leaves both halves of the split
  \<open>MIN_PANE_CELLS\<close> cells and between a tenth and nine tenths of the usable ones, dragging by \<open>delta\<close>
  applies exactly \<open>delta\<close>: the quotient stored as an \<open>f32\<close> ratio and multiplied back rounds to the
  requested size.
\<close>

theorem drag_is_exact:
  assumes "lt_root t = Some (LSplit d q a b)" "d = side_dir side" "rect_fits vp" "small_screen vp"
    "2 * MIN_PANE_CELLS < extent d vp"
    "int n = int (extent d (fst (subdivide vp d q))) + delta"
    "MIN_PANE_CELLS \<le> n" "n + MIN_PANE_CELLS < extent d vp"
    "extent d vp \<le> 10 * n" "10 * n \<le> 9 * (extent d vp - 1)"
  shows "\<exists>q'. adjust_split t (edge_leaf side a) side delta vp = (t\<lparr>lt_root := Some (LSplit d q' a b)\<rparr>, delta) \<and>
     extent d (fst (subdivide vp d q')) = n \<and> extent d (snd (subdivide vp d q')) = extent d vp - 1 - n"
proof -
  obtain A B where AB: "subdivide vp d q = (A, B)" by fastforce
  have small: "extent d vp \<le> 32767"
    using assms(4) by (cases d) (auto simp: small_screen_def extent_def)
  define q' where "q' = dragged_ratio (extent d vp - 1) (extent d A) delta"
  obtain A' B' where AB': "subdivide vp d q' = (A', B')" by fastforce
  have share: "first_share (extent d vp - 1) q' = n"
    unfolding q'_def using assms(5-10) small AB by (intro dragged_share) auto
  have A: "extent d A < extent d vp"
    using subdivide_extent [OF assms(3) AB] first_share_bounds(2) [of "extent d vp - 1" q] assms(5)
    by (auto simp: MIN_PANE_CELLS_def)
  have A': "extent d A' = n" "extent d B' = extent d vp - 1 - n"
    using subdivide_extent [OF assms(3) AB'] share assms(5) AB'
      subdivide_horizontal [OF assms(3), of q' A' B'] subdivide_vertical [OF assms(3), of q' A' B']
    by (cases d; auto simp: MIN_PANE_CELLS_def extent_def split: if_splits)+
  have "as_i16 (int n - int (extent d A)) = delta"
    using assms(6,8) A small AB by (subst as_i16_id) auto
  moreover have "\<not> extent d vp - 1 < 2 * MIN_PANE_CELLS"
    using assms(5) by linarith
  ultimately have "adjust_split_recurse (LSplit d q a b) vp (edge_leaf side a) side delta = (LSplit d q' a b, delta)"
    unfolding adjust_split_eq [OF AB] q'_def [symmetric] Let_def share using assms(2) by simp
  then have "adjust_split t (edge_leaf side a) side delta vp = (t\<lparr>lt_root := Some (LSplit d q' a b)\<rparr>, delta)"
    using assms(1) by (simp add: adjust_split_def del: adjust_split_recurse.simps)
  with A' AB' show ?thesis
    by auto
qed

theorem drag_is_exact_witness:
  "\<exists>q'. adjust_split sample_layout 1 SideRight 3 sample_screen =
      (sample_layout\<lparr>lt_root := Some (LSplit SplitVertical q' (LLeaf 1)
         (LSplit SplitHorizontal (F32 (1 / 2)) (LLeaf 2) (LLeaf 3)))\<rparr>, 3) \<and>
     extent SplitVertical (fst (subdivide sample_screen SplitVertical q')) = 13 \<and>
     extent SplitVertical (snd (subdivide sample_screen SplitVertical q')) = 7"
proof -
  have ext: "extent SplitVertical sample_screen = 21"
    by (simp add: extent_def sample_screen_def)
  show ?thesis
    using drag_is_exact [of sample_layout SplitVertical "F32 (1 / 2)" "LLeaf 1"
        "LSplit SplitHorizontal (F32 (1 / 2)) (LLeaf 2) (LLeaf 3)" SideRight sample_screen 13 3]
      sample_facts(1,2)
    by (simp add: ext sample_layout_def sample_subdivide MIN_PANE_CELLS_def edge_leaf_def)
      (simp add: extent_def)
qed

text \<open>
  C3: the layout tree refines a sequence of panes.  Over any run of operations - splits, closes,
  swaps, replacements, border moves, restored ratios and presets - the panes of the tree in
  depth-first order are the sequence that the same run gives on plain lists, where a split inserts
  the new pane beside its target, a close removes the pane, a swap exchanges two, and moving a
  border changes nothing.
\<close>

theorem layout_refines_sequence:
  "lt_panes (foldl layout_step t ops) = foldl seq_step (lt_panes t) ops"
  by (rule lay.run_refines) simp

text \<open>
  every ratio stored in a window's layout is a finite \<open>f32\<close> between the bounds of \<open>Ratio\<close>, after
  any run of operations on a new window, whatever ratios are restored (NaN and infinities included).
\<close>

theorem ratios_stay_in_range:
  "ratios_ok (foldl layout_step (lt_single p) ops)"
  by (rule lrat.run_inv) (simp add: ratios_ok_def lt_single_def)

text \<open>
  closing the pane a split has just made gives back the tree before the split, ratios and all,
  and both operations report success.
\<close>

theorem close_undoes_split:
  assumes "target \<in> set (lt_panes t)" "new \<notin> set (lt_panes t)"
  shows "snd (lt_split t target d new pos) = Inr () \<and>
         lt_close (fst (lt_split t target d new pos)) new = (t, SiblingPromoted)"
proof -
  obtain n where n: "lt_root t = Some n" "target \<in> set (leaves n)" "new \<notin> set (leaves n)"
    using assms by (cases "lt_root t") (auto simp: lt_panes_root)
  show ?thesis
    using close_split_in [OF n(2,3), of d pos] split_in_spec [of n target d new pos] n
    by (simp add: lt_split_def lt_close_def case_prod_beta Let_def)
qed

theorem close_undoes_split_witness:
  "snd (lt_split sample_layout 2 SplitVertical 4 PosBefore) = Inr () \<and>
   lt_close (fst (lt_split sample_layout 2 SplitVertical 4 PosBefore)) 4 = (sample_layout, SiblingPromoted)"
  by (rule close_undoes_split) (simp_all add: sample_facts)

text \<open>
  C36: moving the focus in a direction.  The pane chosen is another pane of the window, one separator
  away in that direction and facing the source, and no such pane faces it along more lines; no pane
  is chosen exactly when none lies there.
\<close>

theorem focus_moves_to_best_neighbour:
  assumes "rect_of t p vp = Some P" "rect_fits vp"
  shows "case next_in_direction t p vp d of
     None \<Rightarrow> \<forall>(q, Q) \<in> set (other_rects t p vp). \<not> beside d P Q
   | Some q \<Rightarrow> \<exists>Q. (q, Q) \<in> set (other_rects t p vp) \<and> beside d P Q \<and>
       (\<forall>(q', Q') \<in> set (other_rects t p vp). beside d P Q' \<longrightarrow> facing d P Q' \<le> facing d P Q)"
  by (rule next_in_direction_spec [OF assms])

theorem focus_moves_to_best_neighbour_witness:
  "case next_in_direction sample_layout 1 sample_screen DirRight of
     None \<Rightarrow> \<forall>(q, Q) \<in> set (other_rects sample_layout 1 sample_screen).
       \<not> beside DirRight \<lparr>rc_row = 0, rc_col = 0, rc_rows = 9, rc_cols = 10\<rparr> Q
   | Some q \<Rightarrow> \<exists>Q. (q, Q) \<in> set (other_rects sample_layout 1 sample_screen) \<and>
       beside DirRight \<lparr>rc_row = 0, rc_col = 0, rc_rows = 9, rc_cols = 10\<rparr> Q \<and>
       (\<forall>(q', Q') \<in> set (other_rects sample_layout 1 sample_screen).
          beside DirRight \<lparr>rc_row = 0, rc_col = 0, rc_rows = 9, rc_cols = 10\<rparr> Q' \<longrightarrow>
          facing DirRight \<lparr>rc_row = 0, rc_col = 0, rc_rows = 9, rc_cols = 10\<rparr> Q'
            \<le> facing DirRight \<lparr>rc_row = 0, rc_col = 0, rc_rows = 9, rc_cols = 10\<rparr> Q)"
  by (rule focus_moves_to_best_neighbour [OF _ sample_facts(1)])
    (simp add: rect_of_def sample_layout_def sample_subdivide)

text \<open>
  a preset rearranges the panes and never loses or doubles one: the panes of the tree it builds
  are, in order, the list it was given.
\<close>

theorem preset_keeps_every_pane:
  assumes "panes \<noteq> []"
  shows "lt_panes (apply_preset t preset panes) = panes"
  using preset_build_leaves [OF assms] assms by (simp add: apply_preset_def lt_panes_root)

theorem preset_keeps_every_pane_witness:
  "lt_panes (apply_preset sample_layout Tiled [5, 6, 7, 8, 9, 10, 11]) = [5, 6, 7, 8, 9, 10, 11]"
  by (rule preset_keeps_every_pane) simp

section \<open>A separator outside the viewport\<close>

text \<open>
  A split too small for a separator reports one on the line just past its edge: in a viewport of one
  row, the row below it, which belongs to no pane and no gutter.
\<close>

lemma phantom_border:
  "border_at \<lparr>lt_root = Some (LSplit SplitHorizontal q (LLeaf 1) (LLeaf 2))\<rparr>
     \<lparr>rc_row = 0, rc_col = 0, rc_rows = 1, rc_cols = 80\<rparr> 1 5 = Some \<lparr>bh_pane = 1, bh_side = SideBottom\<rparr>"
  by (simp add: border_at_def subdivide_def Let_def sadd16_def u16_max_def)

text \<open>The names of the presets parse back.\<close>

lemma lit_inject: "lit s = lit s' \<longleftrightarrow> s = s'"
  by (simp add: lit_def inj_map_eq_map inj_on_def)

lemma preset_name_parses: "preset_parse (preset_name p) = Some p"
  by (cases p) (simp_all add: preset_parse_def preset_all_def lit_inject del: lit_Cons lit_Nil)

lemma preset_next_simps:
  "preset_next EvenHorizontal = EvenVertical" "preset_next EvenVertical = MainHorizontal"
  "preset_next MainHorizontal = MainVertical" "preset_next MainVertical = Tiled"
  "preset_next Tiled = EvenHorizontal"
  by (simp_all add: preset_next_def preset_all_def)

end
