(* ===== verification/Keys.thy ===== *)
theory Keys
  imports Geometry Utf8
begin

text \<open>
  Keyboard events, after \<open>crates/mux/src/key.rs\<close>.  A character is its code point; the modifier set
  is the \<open>u8\<close> of the bit flags, in which every bit has a name.
\<close>

definition MOD_SHIFT :: "8 word" where "MOD_SHIFT = 1"
definition MOD_ALT :: "8 word" where "MOD_ALT = 2"
definition MOD_CTRL :: "8 word" where "MOD_CTRL = 4"
definition MOD_SUPER :: "8 word" where "MOD_SUPER = 8"
definition MOD_HYPER :: "8 word" where "MOD_HYPER = 16"
definition MOD_META :: "8 word" where "MOD_META = 32"
definition MOD_CAPS_LOCK :: "8 word" where "MOD_CAPS_LOCK = 64"
definition MOD_NUM_LOCK :: "8 word" where "MOD_NUM_LOCK = 128"

unbundle bit_operations_syntax

definition mods_contains :: "8 word \<Rightarrow> 8 word \<Rightarrow> bool" where
  "mods_contains m f \<longleftrightarrow> m AND f = f"

definition mods_difference :: "8 word \<Rightarrow> 8 word \<Rightarrow> 8 word" where
  "mods_difference m f = m AND NOT f"

text \<open>Which modifier a word of a chord names.\<close>

definition alias_meta_as_alt :: "rstr \<Rightarrow> 8 word option" where
  "alias_meta_as_alt s =
     (if s \<in> {lit ''Shift'', lit ''shift'', lit ''SHIFT''} then Some MOD_SHIFT
      else if s \<in> {lit ''Ctrl'', lit ''ctrl'', lit ''CTRL'', lit ''Control'', lit ''control''} then Some MOD_CTRL
      else if s \<in> {lit ''Alt'', lit ''alt'', lit ''ALT'', lit ''Meta'', lit ''meta'', lit ''META''} then Some MOD_ALT
      else if s \<in> {lit ''Super'', lit ''super'', lit ''SUPER'', lit ''Cmd'', lit ''cmd'', lit ''CMD''} then Some MOD_SUPER
      else if s \<in> {lit ''Hyper'', lit ''hyper'', lit ''HYPER''} then Some MOD_HYPER
      else None)"

datatype key =
    KChar nat
  | KArrow direction
  | KFunction nat
  | KHome
  | KEnd
  | KPageUp
  | KPageDown
  | KInsert
  | KDelete
  | KTab
  | KEnter
  | KBackspace
  | KEscape
  | KKeypadEnter

datatype key_event_kind = KPress | KRepeat | KRelease

record key_event =
  ke_key :: key
  ke_mods :: "8 word"
  ke_kind :: key_event_kind
  ke_text :: "rstr option"
  ke_shifted :: "nat option"
  ke_base_layout :: "nat option"

definition key_event_new :: "key \<Rightarrow> 8 word \<Rightarrow> key_event" where
  "key_event_new k m =
     \<lparr>ke_key = k, ke_mods = m, ke_kind = KPress, ke_text = None, ke_shifted = None, ke_base_layout = None\<rparr>"

definition key_event_plain :: "key \<Rightarrow> key_event" where
  "key_event_plain k = key_event_new k 0"

text \<open>\<open>char::from_u32\<close>.\<close>

definition char_from_u32 :: "nat \<Rightarrow> nat option" where
  "char_from_u32 n = (if is_scalar n then Some n else None)"

end
