(* ===== verification/Key_Parser.thy ===== *)
theory Key_Parser
  imports Keys
begin

text \<open>
  The key parser, after \<open>crates/keys/src/parser.rs\<close>: bytes of the outer terminal to key events.
  Every output carries the bytes it was made of, so that what is not a binding can be passed on.
\<close>

datatype key_parse_output =
    KPPending
  | KPEvent key_event bytes
  | KPBytes bytes

datatype keyboard_protocol = ProtoLegacy | ProtoModifyOtherKeys | ProtoKitty | ProtoPermissive

datatype kp_state = KIdle | KSawEsc | KSawCsi | KAccumCsi | KSawSs3

record key_param =
  kpa_sub :: "nat option list"

definition param_default :: key_param where
  "param_default = \<lparr>kpa_sub = []\<rparr>"

definition param_sub_at :: "key_param \<Rightarrow> nat \<Rightarrow> nat option" where
  "param_sub_at p i = (case nth_opt (kpa_sub p) i of Some v \<Rightarrow> v | None \<Rightarrow> None)"

definition param_primary :: "key_param \<Rightarrow> nat" where
  "param_primary p = (case param_sub_at p 0 of Some v \<Rightarrow> v | None \<Rightarrow> 0)"

record key_parser =
  kp_state :: kp_state
  kp_buf :: bytes
  kp_params :: "key_param list"
  kp_cur_sub :: "nat option"
  kp_cur_sub_seen :: bool
  kp_cur_param_started :: bool
  kp_last_param_flushed :: bool
  kp_protocol :: keyboard_protocol

definition kp_new :: key_parser where
  "kp_new = \<lparr>kp_state = KIdle, kp_buf = [], kp_params = [], kp_cur_sub = None, kp_cur_sub_seen = False,
     kp_cur_param_started = False, kp_last_param_flushed = False, kp_protocol = ProtoPermissive\<rparr>"

definition kp_with_protocol :: "keyboard_protocol \<Rightarrow> key_parser \<Rightarrow> key_parser" where
  "kp_with_protocol pr s = s\<lparr>kp_protocol := pr\<rparr>"

definition kp_is_mid_sequence :: "key_parser \<Rightarrow> bool" where
  "kp_is_mid_sequence s \<longleftrightarrow> kp_state s \<noteq> KIdle"

definition kp_reset_state :: "key_parser \<Rightarrow> key_parser" where
  "kp_reset_state s = s\<lparr>kp_state := KIdle, kp_params := [], kp_cur_sub := None, kp_cur_sub_seen := False,
     kp_cur_param_started := False, kp_last_param_flushed := False\<rparr>"

text \<open>\<open>mem::take(&mut self.buf)\<close> followed by \<open>reset_state\<close>.\<close>

definition kp_take :: "key_parser \<Rightarrow> key_parser \<times> bytes" where
  "kp_take s = (kp_reset_state (s\<lparr>kp_buf := []\<rparr>), kp_buf s)"

definition kp_bail :: "key_parser \<Rightarrow> key_parser \<times> key_parse_output" where
  "kp_bail s = (let (s', b) = kp_take s in (s', KPBytes b))"

definition kp_emit :: "key_event \<Rightarrow> key_parser \<Rightarrow> key_parser \<times> key_parse_output" where
  "kp_emit ev s = (let (s', b) = kp_take s in (s', KPEvent ev b))"

definition kp_emit_simple :: "key \<Rightarrow> 8 word \<Rightarrow> key_parser \<Rightarrow> key_parser \<times> key_parse_output" where
  "kp_emit_simple k m s = kp_emit (key_event_new k m) s"

definition kp_flush :: "key_parser \<Rightarrow> key_parser \<times> key_parse_output option" where
  "kp_flush s =
     (if kp_state s = KSawEsc then
        (let (s', out) = kp_emit (key_event_plain KEscape) s in (s', Some out))
      else (s, None))"

section \<open>Decoding\<close>

text \<open>\<open>(raw.saturating_sub(1) & 0xFF) as u8\<close>.\<close>

definition decode_xterm_mods :: "nat \<Rightarrow> 8 word" where
  "decode_xterm_mods raw = word_of_nat ((raw - 1) mod 256)"

definition kitty_key :: "nat \<Rightarrow> 8 word \<Rightarrow> key_event option" where
  "kitty_key code m =
     (if code = 9 then Some (key_event_new KTab m)
      else if code = 13 then Some (key_event_new KEnter m)
      else if code = 27 then Some (key_event_new KEscape m)
      else if code = 127 then Some (key_event_new KBackspace m)
      else map_option (\<lambda>c. key_event_new (KChar c) m) (char_from_u32 code))"

definition key_from_tilde :: "nat \<Rightarrow> key option" where
  "key_from_tilde n =
     (if n = 2 then Some KInsert else if n = 3 then Some KDelete
      else if n = 5 then Some KPageUp else if n = 6 then Some KPageDown
      else if n = 7 then Some KHome else if n = 8 then Some KEnd
      else if n = 11 then Some (KFunction 1) else if n = 12 then Some (KFunction 2)
      else if n = 13 then Some (KFunction 3) else if n = 14 then Some (KFunction 4)
      else if n = 15 then Some (KFunction 5) else if n = 17 then Some (KFunction 6)
      else if n = 18 then Some (KFunction 7) else if n = 19 then Some (KFunction 8)
      else if n = 20 then Some (KFunction 9) else if n = 21 then Some (KFunction 10)
      else if n = 23 then Some (KFunction 11) else if n = 24 then Some (KFunction 12)
      else None)"

definition decode_kitty_u :: "keyboard_protocol \<Rightarrow> key_param list \<Rightarrow> key_event option" where
  "decode_kitty_u pr params =
     (if pr = ProtoModifyOtherKeys \<or> pr = ProtoLegacy then None
      else case params of
        [] \<Rightarrow> None
      | key_param # _ \<Rightarrow>
          (let code = param_primary key_param;
               shifted = Option.bind (param_sub_at key_param 1) char_from_u32;
               base = Option.bind (param_sub_at key_param 2) char_from_u32;
               m = (case nth_opt params 1 of None \<Rightarrow> 0 | Some p \<Rightarrow> decode_xterm_mods (max (param_primary p) 1));
               ev_code = (case Option.bind (nth_opt params 1) (\<lambda>p. param_sub_at p 1) of None \<Rightarrow> 1 | Some v \<Rightarrow> v);
               kind = (if ev_code = 2 then KRepeat else if ev_code = 3 then KRelease else KPress);
               txt = Option.bind (nth_opt params 2) (\<lambda>p.
                 (let s = List.map_filter (\<lambda>v. Option.bind v char_from_u32) (kpa_sub p)
                  in if s = [] then None else Some s))
           in map_option (\<lambda>ev. ev\<lparr>ke_kind := kind, ke_text := txt, ke_shifted := shifted, ke_base_layout := base\<rparr>)
                (kitty_key code m)))"

definition decode_modify_other_keys :: "key_param list \<Rightarrow> key_event option" where
  "decode_modify_other_keys params =
     Option.bind (nth_opt params 1) (\<lambda>p1.
       (let m = decode_xterm_mods (max (param_primary p1) 1)
        in Option.bind (nth_opt params 2) (\<lambda>p2. kitty_key (param_primary p2) m)))"

definition csi_final_key :: "char \<Rightarrow> key option" where
  "csi_final_key b =
     (if b = CHR ''A'' then Some (KArrow DirUp) else if b = CHR ''B'' then Some (KArrow DirDown)
      else if b = CHR ''C'' then Some (KArrow DirRight) else if b = CHR ''D'' then Some (KArrow DirLeft)
      else if b = CHR ''H'' then Some KHome else if b = CHR ''F'' then Some KEnd
      else None)"

definition csi_function_key :: "char \<Rightarrow> key option" where
  "csi_function_key b =
     (if b = CHR ''P'' then Some (KFunction 1) else if b = CHR ''Q'' then Some (KFunction 2)
      else if b = CHR ''R'' then Some (KFunction 3) else if b = CHR ''S'' then Some (KFunction 4)
      else None)"

text \<open>
  The match on (final byte, first parameter, second parameter): the key letters stand alone or
  after \<open>1;mods\<close>, the function letters only after \<open>1;mods\<close>, \<open>Z\<close> only alone.
\<close>

definition decode_csi :: "keyboard_protocol \<Rightarrow> char \<Rightarrow> key_param list \<Rightarrow> key_event option" where
  "decode_csi pr b params =
     (let p0 = map_option param_primary (nth_opt params 0);
          p1 = map_option param_primary (nth_opt params 1)
      in if b = CHR ''~'' \<and> p0 = Some 27 then decode_modify_other_keys params
         else case (p0, p1) of
           (None, None) \<Rightarrow>
             (if b = CHR ''Z'' then Some (key_event_new KTab MOD_SHIFT)
              else map_option key_event_plain (csi_final_key b))
         | (Some n, None) \<Rightarrow>
             (if b = CHR ''~'' then map_option key_event_plain (key_from_tilde n)
              else if b = CHR ''u'' then decode_kitty_u pr params
              else None)
         | (Some n, Some m) \<Rightarrow>
             (if b = CHR ''~'' then map_option (\<lambda>k. key_event_new k (decode_xterm_mods m)) (key_from_tilde n)
              else if b = CHR ''u'' then decode_kitty_u pr params
              else if n = 1 then
                (case csi_final_key b of
                   Some k \<Rightarrow> Some (key_event_new k (decode_xterm_mods m))
                 | None \<Rightarrow> map_option (\<lambda>k. key_event_new k (decode_xterm_mods m)) (csi_function_key b))
              else None)
         | (None, Some m) \<Rightarrow> None)"

section \<open>Steps\<close>

definition kp_push_sub :: "key_parser \<Rightarrow> key_parser" where
  "kp_push_sub s =
     (let s = s\<lparr>kp_cur_param_started := True\<rparr>;
          s = (if kp_params s = [] \<or> kp_last_param_flushed s
               then s\<lparr>kp_params := kp_params s @ [param_default], kp_last_param_flushed := False\<rparr> else s);
          p = last (kp_params s);
          p' = p\<lparr>kpa_sub := kpa_sub p @ [if kp_cur_sub_seen s then kp_cur_sub s else None]\<rparr>
      in s\<lparr>kp_params := butlast (kp_params s) @ [p'], kp_cur_sub := None, kp_cur_sub_seen := False\<rparr>)"

definition kp_flush_param :: "key_parser \<Rightarrow> key_parser" where
  "kp_flush_param s = (kp_push_sub s)\<lparr>kp_last_param_flushed := True\<rparr>"

definition dispatch_csi :: "char \<Rightarrow> key_parser \<Rightarrow> key_parser \<times> key_parse_output" where
  "dispatch_csi b s =
     (let params = kp_params s; s = s\<lparr>kp_params := []\<rparr>
      in case decode_csi (kp_protocol s) b params of
           Some ev \<Rightarrow> kp_emit ev s
         | None \<Rightarrow> kp_bail s)"

definition step_idle :: "char \<Rightarrow> key_parser \<Rightarrow> key_parser \<times> key_parse_output" where
  "step_idle b s =
     (let n = (of_char b :: nat)
      in if n = 27 then (s\<lparr>kp_state := KSawEsc\<rparr>, KPPending)
         else if n = 9 then kp_emit_simple KTab 0 s
         else if n = 13 then kp_emit_simple KEnter 0 s
         else if n = 127 then kp_emit_simple KBackspace 0 s
         else if n = 0 then kp_emit_simple (KChar 32) MOD_CTRL s
         else if 1 \<le> n \<and> n \<le> 26 then kp_emit_simple (KChar (n + 96)) MOD_CTRL s
         else if 32 \<le> n \<and> n \<le> 126 then kp_emit_simple (KChar n) 0 s
         else kp_bail s)"

definition step_saw_esc :: "char \<Rightarrow> key_parser \<Rightarrow> key_parser \<times> key_parse_output" where
  "step_saw_esc b s =
     (let n = (of_char b :: nat)
      in if b = CHR ''['' then (s\<lparr>kp_state := KSawCsi\<rparr>, KPPending)
         else if b = CHR ''O'' then (s\<lparr>kp_state := KSawSs3\<rparr>, KPPending)
         else if 32 \<le> n \<and> n \<le> 126 then kp_emit (key_event_new (KChar n) MOD_ALT) s
         else kp_bail s)"

definition step_csi :: "char \<Rightarrow> key_parser \<Rightarrow> key_parser \<times> key_parse_output" where
  "step_csi b s =
     (if is_digit b then
        (let acc = sadd32 (smul32 (case kp_cur_sub s of None \<Rightarrow> 0 | Some v \<Rightarrow> v) 10) (digit_val b)
         in (s\<lparr>kp_state := KAccumCsi, kp_cur_param_started := True, kp_cur_sub_seen := True, kp_cur_sub := Some acc\<rparr>,
             KPPending))
      else if b = CHR '':'' then
        (kp_push_sub (s\<lparr>kp_state := KAccumCsi, kp_cur_param_started := True\<rparr>), KPPending)
      else if b = CHR '';'' then
        (kp_flush_param (s\<lparr>kp_state := KAccumCsi\<rparr>), KPPending)
      else dispatch_csi b (if kp_cur_param_started s then kp_flush_param s else s))"

definition step_ss3 :: "char \<Rightarrow> key_parser \<Rightarrow> key_parser \<times> key_parse_output" where
  "step_ss3 b s =
     (case (if b = CHR ''M'' then Some KKeypadEnter
            else case csi_function_key b of Some k \<Rightarrow> Some k | None \<Rightarrow> csi_final_key b) of
        Some k \<Rightarrow> kp_emit (key_event_plain k) s
      | None \<Rightarrow> kp_bail s)"

definition kp_consume :: "key_parser \<Rightarrow> char \<Rightarrow> key_parser \<times> key_parse_output" where
  "kp_consume s b =
     (let s = s\<lparr>kp_buf := kp_buf s @ [b]\<rparr>
      in case kp_state s of
           KIdle \<Rightarrow> step_idle b s
         | KSawEsc \<Rightarrow> step_saw_esc b s
         | KSawCsi \<Rightarrow> step_csi b s
         | KAccumCsi \<Rightarrow> step_csi b s
         | KSawSs3 \<Rightarrow> step_ss3 b s)"

text \<open>Feeding a whole buffer; the caller drops the \<open>Pending\<close> outputs.\<close>

fun kp_feed :: "key_parser \<Rightarrow> bytes \<Rightarrow> key_parser \<times> key_parse_output list" where
  "kp_feed s [] = (s, [])"
| "kp_feed s (b # bs) =
     (let (s', out) = kp_consume s b;
          (s'', outs) = kp_feed s' bs
      in (s'', if out = KPPending then outs else out # outs))"

end
