(* ===== verification/Key_Encode.thy ===== *)
theory Key_Encode
  imports Key_Parser
begin

text \<open>
  Re-encoding a key event for the pane, after \<open>crates/keys/src/encode.rs\<close>: the legacy forms, the
  modifyOtherKeys 27-form and the Kitty CSI-u form.  \<open>upc\<close> is the upper-case mapping of the Unicode
  character database (\<open>char::to_uppercase\<close>), a parameter of the model.
\<close>

datatype mok_level = MokOff | MokLevel1 | MokLevel2

definition mok_from_level :: "nat \<Rightarrow> mok_level" where
  "mok_from_level l = (if l = 0 then MokOff else if l = 1 then MokLevel1 else MokLevel2)"

definition KF_DISAMBIGUATE_ESCAPE_CODES :: "8 word" where "KF_DISAMBIGUATE_ESCAPE_CODES = 1"
definition KF_REPORT_EVENT_TYPES :: "8 word" where "KF_REPORT_EVENT_TYPES = 2"
definition KF_REPORT_ALTERNATE_KEYS :: "8 word" where "KF_REPORT_ALTERNATE_KEYS = 4"
definition KF_REPORT_ALL_KEYS :: "8 word" where "KF_REPORT_ALL_KEYS = 8"
definition KF_REPORT_ASSOCIATED_TEXT :: "8 word" where "KF_REPORT_ASSOCIATED_TEXT = 16"

datatype keyboard_target = TargetLegacy | TargetMok mok_level | TargetKitty "8 word"

definition mods_param :: "8 word \<Rightarrow> nat" where
  "mods_param m = 1 + unat m"

definition is_ascii_alphabetic :: "nat \<Rightarrow> bool" where
  "is_ascii_alphabetic c \<longleftrightarrow> (65 \<le> c \<and> c \<le> 90) \<or> (97 \<le> c \<and> c \<le> 122)"

definition to_ascii_lowercase :: "nat \<Rightarrow> nat" where
  "to_ascii_lowercase c = (if 65 \<le> c \<and> c \<le> 90 then c + 32 else c)"

definition ESC_BRACKET :: bytes where
  "ESC_BRACKET = [CHR 0x1B, CHR ''['']"

section \<open>Legacy forms\<close>

definition text_producing :: "(nat \<Rightarrow> rstr) \<Rightarrow> key_event \<Rightarrow> rstr option" where
  "text_producing upc ev =
     (case ke_key ev of
        KChar c \<Rightarrow>
          if mods_difference (ke_mods ev) (MOD_SHIFT OR MOD_CAPS_LOCK OR MOD_NUM_LOCK) \<noteq> 0 then None
          else (case ke_text ev of
                  Some (x # xs) \<Rightarrow> Some (x # xs)
                | _ \<Rightarrow>
                    if mods_contains (ke_mods ev) MOD_SHIFT then
                      (case ke_shifted ev of Some sh \<Rightarrow> Some [sh] | None \<Rightarrow> Some (upc c))
                    else Some [c])
      | _ \<Rightarrow> None)"

definition base_with_alt_prefix :: "8 word \<Rightarrow> char \<Rightarrow> bytes" where
  "base_with_alt_prefix m b = (if mods_contains m MOD_ALT then [CHR 0x1B, b] else [b])"

definition with_mods :: "char \<Rightarrow> char \<Rightarrow> 8 word \<Rightarrow> bytes" where
  "with_mods ss3_byte csi_byte m =
     (if m = 0 then ESC_BRACKET @ [csi_byte]
      else ESC_BRACKET @ ''1;'' @ dec (mods_param m) @ [csi_byte])"

definition dir_final :: "direction \<Rightarrow> char" where
  "dir_final d = (case d of DirUp \<Rightarrow> CHR ''A'' | DirDown \<Rightarrow> CHR ''B'' | DirRight \<Rightarrow> CHR ''C'' | DirLeft \<Rightarrow> CHR ''D'')"

definition arrow_bytes :: "direction \<Rightarrow> 8 word \<Rightarrow> bytes" where
  "arrow_bytes d m = with_mods (dir_final d) (dir_final d) m"

definition tilde :: "nat \<Rightarrow> 8 word \<Rightarrow> bytes" where
  "tilde n m =
     (if m = 0 then ESC_BRACKET @ dec n @ ''~''
      else ESC_BRACKET @ dec n @ '';'' @ dec (mods_param m) @ ''~'')"

definition f1_to_f4 :: "nat \<Rightarrow> 8 word \<Rightarrow> bytes" where
  "f1_to_f4 n m =
     (case (if n = 1 then Some (CHR ''P'') else if n = 2 then Some (CHR ''Q'')
            else if n = 3 then Some (CHR ''R'') else if n = 4 then Some (CHR ''S'') else None) of
        None \<Rightarrow> []
      | Some f \<Rightarrow>
          if m = 0 then [CHR 0x1B, CHR ''O'', f]
          else ESC_BRACKET @ ''1;'' @ dec (mods_param m) @ [f])"

text \<open>
  The keys other than characters; and a character that produces no text: a control code, or - with
  Alt held - the escape prefix before the same key without Alt.  The recursion of the source ends
  after one step, since the inner event no longer has Alt; it is unfolded here.
\<close>

definition legacy_char_no_alt :: "nat \<Rightarrow> 8 word \<Rightarrow> bytes" where
  "legacy_char_no_alt c m =
     (if m = MOD_CTRL \<and> is_ascii_alphabetic c then [char_of (to_ascii_lowercase c - 96)]
      else if c = 32 \<and> m = MOD_CTRL then [CHR 0x00]
      else [])"

definition legacy_key :: "key \<Rightarrow> 8 word \<Rightarrow> bytes" where
  "legacy_key k m =
     (case k of
        KChar c \<Rightarrow> legacy_char_no_alt c m
      | KTab \<Rightarrow>
          if m = 0 then [CHR 0x09] else if m = MOD_SHIFT then ESC_BRACKET @ ''Z''
          else base_with_alt_prefix m (CHR 0x09)
      | KEnter \<Rightarrow> if m = 0 then [CHR 0x0D] else base_with_alt_prefix m (CHR 0x0D)
      | KBackspace \<Rightarrow> if m = 0 then [CHR 0x7F] else base_with_alt_prefix m (CHR 0x7F)
      | KEscape \<Rightarrow> if m = 0 then [CHR 0x1B] else base_with_alt_prefix m (CHR 0x1B)
      | KArrow d \<Rightarrow> arrow_bytes d m
      | KHome \<Rightarrow> with_mods (CHR ''H'') (CHR ''H'') m
      | KEnd \<Rightarrow> with_mods (CHR ''F'') (CHR ''F'') m
      | KInsert \<Rightarrow> tilde 2 m
      | KDelete \<Rightarrow> tilde 3 m
      | KPageUp \<Rightarrow> tilde 5 m
      | KPageDown \<Rightarrow> tilde 6 m
      | KFunction n \<Rightarrow>
          if 1 \<le> n \<and> n \<le> 4 then f1_to_f4 n m
          else if n = 5 then tilde 15 m else if n = 6 then tilde 17 m
          else if n = 7 then tilde 18 m else if n = 8 then tilde 19 m
          else if n = 9 then tilde 20 m else if n = 10 then tilde 21 m
          else if n = 11 then tilde 23 m else if n = 12 then tilde 24 m
          else []
      | KKeypadEnter \<Rightarrow> [])"

definition legacy_simple :: "(nat \<Rightarrow> rstr) \<Rightarrow> key_event \<Rightarrow> bytes" where
  "legacy_simple upc ev =
     (case text_producing upc ev of
        Some txt \<Rightarrow> utf8_encode txt
      | None \<Rightarrow> legacy_key (ke_key ev) (ke_mods ev))"

definition legacy_bytes :: "(nat \<Rightarrow> rstr) \<Rightarrow> key_event \<Rightarrow> bytes" where
  "legacy_bytes upc ev =
     (case text_producing upc ev of
        Some txt \<Rightarrow> utf8_encode txt
      | None \<Rightarrow>
          (case ke_key ev of
             KChar c \<Rightarrow>
               if legacy_char_no_alt c (ke_mods ev) \<noteq> [] then legacy_char_no_alt c (ke_mods ev)
               else if mods_contains (ke_mods ev) MOD_ALT then
                 CHR 0x1B # legacy_simple upc (ev\<lparr>ke_mods := mods_difference (ke_mods ev) MOD_ALT\<rparr>)
               else []
           | k \<Rightarrow> legacy_key k (ke_mods ev)))"

definition legacy_with_cursor :: "(nat \<Rightarrow> rstr) \<Rightarrow> key_event \<Rightarrow> bool \<Rightarrow> bytes" where
  "legacy_with_cursor upc ev app_cursor =
     (case ke_key ev of
        KArrow d \<Rightarrow>
          if ke_mods ev = 0 \<and> app_cursor then [CHR 0x1B, CHR ''O'', dir_final d]
          else legacy_bytes upc ev
      | _ \<Rightarrow> legacy_bytes upc ev)"

section \<open>Extended forms\<close>

definition key_codepoint :: "key \<Rightarrow> nat option" where
  "key_codepoint k =
     (case k of
        KChar c \<Rightarrow> Some (to_ascii_lowercase c)
      | KEnter \<Rightarrow> Some 13
      | KTab \<Rightarrow> Some 9
      | KBackspace \<Rightarrow> Some 127
      | KEscape \<Rightarrow> Some 27
      | _ \<Rightarrow> None)"

definition legacy_exact_form :: "key_event \<Rightarrow> bool" where
  "legacy_exact_form ev =
     (if ke_key ev \<in> {KEnter, KBackspace, KEscape} then ke_mods ev = 0
      else if ke_key ev = KTab then ke_mods ev = 0 \<or> ke_mods ev = MOD_SHIFT
      else False)"

definition is_well_known_legacy :: "key_event \<Rightarrow> bool" where
  "is_well_known_legacy ev =
     (case ke_key ev of
        KChar c \<Rightarrow> (c = 32 \<and> ke_mods ev = MOD_CTRL) \<or> (ke_mods ev = MOD_CTRL \<and> is_ascii_alphabetic c)
      | k \<Rightarrow> k \<in> {KTab, KBackspace, KEnter, KEscape} \<and> legacy_exact_form ev)"

definition modify_other_keys_bytes :: "(nat \<Rightarrow> rstr) \<Rightarrow> key_event \<Rightarrow> mok_level \<Rightarrow> bool \<Rightarrow> bytes" where
  "modify_other_keys_bytes upc ev level app_cursor =
     (if level = MokOff \<or> ke_mods ev = 0 then legacy_with_cursor upc ev app_cursor
      else case key_codepoint (ke_key ev) of
        None \<Rightarrow> legacy_with_cursor upc ev app_cursor
      | Some code \<Rightarrow>
          if level = MokLevel1 \<and> is_well_known_legacy ev then legacy_with_cursor upc ev app_cursor
          else ESC_BRACKET @ ''27;'' @ dec (mods_param (ke_mods ev)) @ '';'' @ dec code @ ''~'')"

definition event_code :: "key_event_kind \<Rightarrow> nat" where
  "event_code k = (case k of KPress \<Rightarrow> 1 | KRepeat \<Rightarrow> 2 | KRelease \<Rightarrow> 3)"

text \<open>The first CSI-u parameter: the code, with the alternates where the pane wants them.\<close>

definition kitty_key_field :: "nat \<Rightarrow> bool \<Rightarrow> key_event \<Rightarrow> bytes" where
  "kitty_key_field code report_alts ev =
     (if report_alts \<and> (ke_shifted ev \<noteq> None \<or> ke_base_layout ev \<noteq> None) then
        (case (ke_shifted ev, ke_base_layout ev) of
           (Some s, Some b) \<Rightarrow> dec code @ '':'' @ dec s @ '':'' @ dec b
         | (Some s, None) \<Rightarrow> dec code @ '':'' @ dec s
         | (None, Some b) \<Rightarrow> dec code @ ''::'' @ dec b
         | (None, None) \<Rightarrow> dec code)
      else dec code)"

definition kitty_csi_u :: "nat \<Rightarrow> key_event \<Rightarrow> 8 word \<Rightarrow> bytes" where
  "kitty_csi_u code ev flags =
     (let report_events = mods_contains flags KF_REPORT_EVENT_TYPES;
          report_alts = mods_contains flags KF_REPORT_ALTERNATE_KEYS;
          report_text = mods_contains flags KF_REPORT_ASSOCIATED_TEXT;
          key_field = kitty_key_field code report_alts ev;
          m = mods_param (ke_mods ev);
          include_event = (report_events \<and> ke_kind ev \<noteq> KPress);
          event_field = (if include_event then '':'' @ dec (event_code (ke_kind ev)) else []);
          t = (case ke_text ev of None \<Rightarrow> [] | Some t \<Rightarrow> t)
      in if report_text \<and> t \<noteq> [] then
           ESC_BRACKET @ key_field @ '';'' @ dec m @ event_field @ '';'' @ join_with (CHR '':'') (map dec t) @ ''u''
         else
           (let mods_field = (if m \<noteq> 1 \<or> include_event then '';'' @ dec m @ event_field else [])
            in ESC_BRACKET @ key_field @ mods_field @ ''u''))"

definition kitty_bytes :: "(nat \<Rightarrow> rstr) \<Rightarrow> key_event \<Rightarrow> 8 word \<Rightarrow> bool \<Rightarrow> bytes" where
  "kitty_bytes upc ev flags app_cursor =
     (case key_codepoint (ke_key ev) of
        None \<Rightarrow> legacy_with_cursor upc ev app_cursor
      | Some code \<Rightarrow>
          (let all_keys = mods_contains flags KF_REPORT_ALL_KEYS
           in if \<not> all_keys \<and> ke_key ev \<in> {KEnter, KTab, KBackspace} \<and>
                 mods_difference (ke_mods ev) (MOD_CAPS_LOCK OR MOD_NUM_LOCK) = 0 then
                legacy_with_cursor upc ev app_cursor
              else if \<not> all_keys \<and> text_producing upc ev \<noteq> None then
                (case ke_kind ev of
                   KRelease \<Rightarrow> []
                 | _ \<Rightarrow> utf8_encode (the (text_producing upc ev)))
              else kitty_csi_u code ev flags))"

definition encode_key :: "(nat \<Rightarrow> rstr) \<Rightarrow> key_event \<Rightarrow> keyboard_target \<Rightarrow> bool \<Rightarrow> bytes" where
  "encode_key upc ev target app_cursor =
     (let target_reports_events =
        (case target of TargetKitty f \<Rightarrow> mods_contains f KF_REPORT_EVENT_TYPES | _ \<Rightarrow> False)
      in if ke_kind ev \<noteq> KPress \<and> \<not> target_reports_events then []
         else case target of
           TargetLegacy \<Rightarrow> legacy_with_cursor upc ev app_cursor
         | TargetMok level \<Rightarrow> modify_other_keys_bytes upc ev level app_cursor
         | TargetKitty flags \<Rightarrow> kitty_bytes upc ev flags app_cursor)"

end
