(* ===== verification/Key_Facts.thy ===== *)
theory Key_Facts
  imports Key_Encode
begin

text \<open>
  Lemmas about the key codec: the parser loses no byte, and reads back every CSI sequence whose
  parameters are written in decimal; the encoder only writes such sequences.
\<close>

section \<open>The parser keeps every byte\<close>

definition output_bytes :: "key_parse_output \<Rightarrow> bytes" where
  "output_bytes out = (case out of KPPending \<Rightarrow> [] | KPEvent ev b \<Rightarrow> b | KPBytes b \<Rightarrow> b)"

lemma kp_reset_buf [simp]: "kp_buf (kp_reset_state s) = kp_buf s"
  by (simp add: kp_reset_state_def)

lemma kp_push_sub_buf [simp]: "kp_buf (kp_push_sub s) = kp_buf s"
  by (simp add: kp_push_sub_def Let_def)

lemma kp_flush_param_buf [simp]: "kp_buf (kp_flush_param s) = kp_buf s"
  by (simp add: kp_flush_param_def)

lemma kp_param_state [simp]: "kp_state (kp_push_sub s) = kp_state s" "kp_state (kp_flush_param s) = kp_state s"
  by (simp_all add: kp_flush_param_def kp_push_sub_def Let_def)

lemmas kp_out_defs = kp_emit_simple_def kp_emit_def kp_bail_def kp_take_def

text \<open>A step either waits, or hands out everything it had and starts afresh.\<close>

definition keeps_bytes :: "bytes \<Rightarrow> key_parser \<times> key_parse_output \<Rightarrow> bool" where
  "keeps_bytes buf r \<longleftrightarrow>
     (snd r = KPPending \<and> kp_buf (fst r) = buf \<and> kp_state (fst r) \<noteq> KIdle) \<or>
     (snd r \<noteq> KPPending \<and> output_bytes (snd r) = buf \<and> kp_buf (fst r) = [] \<and> kp_state (fst r) = KIdle)"

lemma keeps_take [simp]:
  "keeps_bytes (kp_buf s) (kp_emit ev s)" "keeps_bytes (kp_buf s) (kp_bail s)"
  by (simp_all add: keeps_bytes_def kp_out_defs output_bytes_def kp_reset_state_def)

lemma keeps_pending [simp]: "keeps_bytes buf (s, KPPending) \<longleftrightarrow> kp_buf s = buf \<and> kp_state s \<noteq> KIdle"
  by (auto simp: keeps_bytes_def)

lemma kp_consume_keeps: "keeps_bytes (kp_buf s @ [b]) (kp_consume s b)"
proof -
  define t where "t = s\<lparr>kp_buf := kp_buf s @ [b]\<rparr>"
  have t: "kp_buf t = kp_buf s @ [b]" "kp_state t = kp_state s"
    by (simp_all add: t_def)
  have disp: "keeps_bytes (kp_buf u) (dispatch_csi b u)" for u
    using keeps_take [of "u\<lparr>kp_params := []\<rparr>"] by (simp add: dispatch_csi_def Let_def split: option.split)
  have "keeps_bytes (kp_buf t) (step_idle b t)" "keeps_bytes (kp_buf t) (step_saw_esc b t)"
    "keeps_bytes (kp_buf t) (step_csi b t)" "keeps_bytes (kp_buf t) (step_ss3 b t)"
    using keeps_take(1,2) [of t] disp [of t] disp [of "kp_flush_param t"]
    by (simp_all add: step_idle_def step_saw_esc_def step_csi_def step_ss3_def Let_def kp_emit_simple_def
        split: option.split)
  then show ?thesis
    unfolding t(1) by (simp add: kp_consume_def t_def [symmetric] t(2) Let_def split: kp_state.split)
qed

lemma kp_feed_keeps:
  "concat (map output_bytes (snd (kp_feed s bs))) @ kp_buf (fst (kp_feed s bs)) = kp_buf s @ bs"
proof (induction bs arbitrary: s)
  case (Cons b bs)
  obtain s' out where c: "kp_consume s b = (s', out)" by fastforce
  then show ?case
    using kp_consume_keeps [of s b] Cons [of s']
    by (auto simp: case_prod_beta Let_def keeps_bytes_def output_bytes_def)
qed simp

lemma kp_feed_append:
  "kp_feed s (xs @ ys) =
     (let (s', o1) = kp_feed s xs; (s'', o2) = kp_feed s' ys in (s'', o1 @ o2))"
  by (induction xs arbitrary: s) (auto simp: Let_def split: prod.splits)

section \<open>Reading a control sequence\<close>

text \<open>The parser inside a control sequence.\<close>

definition in_csi :: "keyboard_protocol \<Rightarrow> bytes \<Rightarrow> key_param list \<Rightarrow> nat option \<Rightarrow> bool \<Rightarrow> key_parser" where
  "in_csi pr buf ps cur fl =
     \<lparr>kp_state = KAccumCsi, kp_buf = buf, kp_params = ps, kp_cur_sub = cur, kp_cur_sub_seen = (cur \<noteq> None),
      kp_cur_param_started = True, kp_last_param_flushed = fl, kp_protocol = pr\<rparr>"

definition fresh_parser :: "keyboard_protocol \<Rightarrow> key_parser" where
  "fresh_parser pr = kp_with_protocol pr kp_new"

definition add_sub :: "key_param list \<Rightarrow> nat option \<Rightarrow> bool \<Rightarrow> key_param list" where
  "add_sub ps cur fl =
     (if ps = [] \<or> fl then ps @ [\<lparr>kpa_sub = [cur]\<rparr>]
      else butlast ps @ [\<lparr>kpa_sub = kpa_sub (last ps) @ [cur]\<rparr>])"

lemma kp_push_sub_in_csi: "kp_push_sub (in_csi pr buf ps cur fl) = in_csi pr buf (add_sub ps cur fl) None False"
  by (auto simp: kp_push_sub_def in_csi_def add_sub_def param_default_def Let_def)

lemma consume_digit:
  "is_digit b \<Longrightarrow> kp_consume (in_csi pr buf ps cur fl) b =
     (in_csi pr (buf @ [b]) ps
        (Some (sadd32 (smul32 (case cur of None \<Rightarrow> 0 | Some v \<Rightarrow> v) 10) (digit_val b))) fl, KPPending)"
  by (simp add: kp_consume_def step_csi_def Let_def in_csi_def)

lemma in_csi_buf [simp]:
  "kp_state (in_csi pr buf ps cur fl) = KAccumCsi"
  "(in_csi pr buf ps cur fl)\<lparr>kp_buf := buf'\<rparr> = in_csi pr buf' ps cur fl"
  "kp_buf (in_csi pr buf ps cur fl) = buf"
  "(in_csi pr buf ps cur fl)\<lparr>kp_state := KAccumCsi\<rparr> = in_csi pr buf ps cur fl"
  "(in_csi pr buf ps cur fl)\<lparr>kp_state := KAccumCsi, kp_cur_param_started := True\<rparr> = in_csi pr buf ps cur fl"
  "(in_csi pr buf ps cur fl)\<lparr>kp_cur_param_started := True\<rparr> = in_csi pr buf ps cur fl"
  "kp_cur_param_started (in_csi pr buf ps cur fl)"
  by (simp_all add: in_csi_def)

lemma not_digit_colon [simp]: "\<not> is_digit (CHR '':'')" "\<not> is_digit (CHR '';'')"
  by (simp_all add: is_digit_def)

lemma consume_colon:
  "kp_consume (in_csi pr buf ps cur fl) (CHR '':'') = (in_csi pr (buf @ '':'') (add_sub ps cur fl) None False, KPPending)"
  by (simp add: kp_consume_def step_csi_def Let_def kp_push_sub_in_csi)

lemma in_csi_flush: "kp_flush_param (in_csi pr buf ps cur fl) = in_csi pr buf (add_sub ps cur fl) None True"
  by (simp add: kp_flush_param_def kp_push_sub_in_csi) (simp add: in_csi_def)

lemma consume_semicolon:
  "kp_consume (in_csi pr buf ps cur fl) (CHR '';'') = (in_csi pr (buf @ '';'') (add_sub ps cur fl) None True, KPPending)"
  by (simp add: kp_consume_def step_csi_def Let_def in_csi_flush)

lemma consume_final:
  assumes "\<not> is_digit b" "b \<noteq> CHR '':''" "b \<noteq> CHR '';''" "decode_csi pr b (add_sub ps cur fl) = Some ev"
  shows "kp_consume (in_csi pr buf ps cur fl) b = (fresh_parser pr, KPEvent ev (buf @ [b]))"
proof -
  have "kp_consume (in_csi pr buf ps cur fl) b = dispatch_csi b (in_csi pr (buf @ [b]) (add_sub ps cur fl) None True)"
    using assms(1-3) by (simp add: kp_consume_def step_csi_def Let_def in_csi_flush)
  also have "\<dots> = (fresh_parser pr, KPEvent ev (buf @ [b]))"
    using assms(4) by (simp add: dispatch_csi_def Let_def in_csi_def kp_emit_def kp_take_def kp_reset_state_def
        fresh_parser_def kp_with_protocol_def kp_new_def)
  finally show ?thesis .
qed

text \<open>Decimal digits accumulate to the number they write.\<close>

lemma feed_digits:
  assumes "list_all is_digit ds" "ds \<noteq> []"
    "foldl (\<lambda>acc d. 10 * acc + digit_val d) (case cur of None \<Rightarrow> 0 | Some v \<Rightarrow> v) ds \<le> u32_max"
  shows "kp_feed (in_csi pr buf ps cur fl) ds =
    (in_csi pr (buf @ ds) ps (Some (foldl (\<lambda>acc d. 10 * acc + digit_val d) (case cur of None \<Rightarrow> 0 | Some v \<Rightarrow> v) ds)) fl, [])"
  using assms
proof (induction ds arbitrary: buf cur)
  case (Cons d ds)
  define acc where "acc = (case cur of None \<Rightarrow> 0 | Some v \<Rightarrow> v)"
  have mono: "a \<le> foldl (\<lambda>acc d. 10 * acc + digit_val d) a xs" for a xs
  proof (induction xs arbitrary: a)
    case (Cons x xs)
    have "a \<le> 10 * a + digit_val x"
      by simp
    also have "\<dots> \<le> foldl (\<lambda>acc d. 10 * acc + digit_val d) a (x # xs)"
      using Cons [of "10 * a + digit_val x"] by simp
    finally show ?case .
  qed simp
  have le: "10 * acc + digit_val d \<le> u32_max"
    using mono [of "10 * acc + digit_val d" ds] Cons.prems(3) by (simp add: acc_def)
  then have step: "kp_consume (in_csi pr buf ps cur fl) d =
      (in_csi pr (buf @ [d]) ps (Some (10 * acc + digit_val d)) fl, KPPending)"
    using Cons.prems(1) by (simp add: consume_digit acc_def [symmetric] sadd32_def smul32_def min_def mult.commute)
  show ?case
  proof (cases "ds = []")
    case False
    then show ?thesis
      using Cons.IH [of "Some (10 * acc + digit_val d)" "buf @ [d]"] Cons.prems step
      by (simp add: acc_def)
  qed (use step in \<open>simp add: acc_def\<close>)
qed simp

lemma feed_dec:
  "n \<le> u32_max \<Longrightarrow> kp_feed (in_csi pr buf ps None fl) (dec n) = (in_csi pr (buf @ dec n) ps (Some n) fl, [])"
  using feed_digits [of "dec n" None pr buf ps fl] digits_val_dec [of n] dec_digits [of n]
  by (simp add: digits_val_def)

text \<open>A parameter with its colon fields, and a sequence of parameters, as text.\<close>

definition field_bytes :: "nat option \<Rightarrow> bytes" where
  "field_bytes v = (case v of None \<Rightarrow> [] | Some n \<Rightarrow> dec n)"

definition param_bytes :: "key_param \<Rightarrow> bytes" where
  "param_bytes p = join_with (CHR '':'') (map field_bytes (kpa_sub p))"

definition csi_bytes :: "key_param list \<Rightarrow> char \<Rightarrow> bytes" where
  "csi_bytes ps b = ESC_BRACKET @ join_with (CHR '';'') (map param_bytes ps) @ [b]"

definition field_fits :: "nat option \<Rightarrow> bool" where
  "field_fits v = (case v of None \<Rightarrow> True | Some n \<Rightarrow> n \<le> u32_max)"

definition param_fits :: "key_param \<Rightarrow> bool" where
  "param_fits p \<longleftrightarrow> kpa_sub p \<noteq> [] \<and> list_all field_fits (kpa_sub p)"

lemma feed_field:
  "field_fits v \<Longrightarrow> kp_feed (in_csi pr buf ps None fl) (field_bytes v) = (in_csi pr (buf @ field_bytes v) ps v fl, [])"
  by (cases v) (simp_all add: field_bytes_def field_fits_def feed_dec)

lemma feed_fields:
  assumes "vs \<noteq> []" "list_all field_fits vs"
  shows "\<exists>ps' cur fl'. kp_feed (in_csi pr buf ps None fl) (join_with (CHR '':'') (map field_bytes vs)) =
      (in_csi pr (buf @ join_with (CHR '':'') (map field_bytes vs)) ps' cur fl', []) \<and>
      add_sub ps' cur fl' = foldl (\<lambda>qs (v, f). add_sub qs v f) ps
        (zip vs (fl # replicate (length vs - 1) False))"
  using assms
proof (induction vs arbitrary: buf ps fl)
  case (Cons v vs)
  show ?case
  proof (cases vs)
    case Nil
    then show ?thesis
      using feed_field [of v pr buf ps fl] Cons.prems by auto
  next
    case (Cons w ws)
    have "kp_feed (in_csi pr buf ps None fl) (field_bytes v @ '':'') =
        (in_csi pr (buf @ field_bytes v @ '':'') (add_sub ps v fl) None False, [])"
      using Cons.prems by (simp add: kp_feed_append feed_field consume_colon Let_def)
    moreover obtain ps' cur fl' where
      "kp_feed (in_csi pr (buf @ field_bytes v @ '':'') (add_sub ps v fl) None False)
         (join_with (CHR '':'') (map field_bytes vs)) =
       (in_csi pr ((buf @ field_bytes v @ '':'') @ join_with (CHR '':'') (map field_bytes vs)) ps' cur fl', [])"
      "add_sub ps' cur fl' = foldl (\<lambda>qs (v, f). add_sub qs v f) (add_sub ps v fl)
         (zip vs (False # replicate (length vs - 1) False))"
      using Cons.IH [of "buf @ field_bytes v @ '':''" "add_sub ps v fl" False] Cons.prems Cons by auto
    ultimately show ?thesis
      using Cons kp_feed_append [of "in_csi pr buf ps None fl" "field_bytes v @ '':''" "join_with (CHR '':'') (map field_bytes vs)"]
      by (auto simp: Let_def intro!: exI [of _ ps'] exI [of _ cur] exI [of _ fl'])
  qed
qed simp

lemma add_sub_fields:
  "foldl (\<lambda>qs (v, f). add_sub qs v f) (ps @ [\<lparr>kpa_sub = us\<rparr>]) (zip vs (replicate (length vs) False)) =
   ps @ [\<lparr>kpa_sub = us @ vs\<rparr>]"
  by (induction vs arbitrary: us) (simp_all add: add_sub_def)

lemma feed_param:
  assumes "param_fits p" "ps = [] \<or> fl"
  shows "\<exists>ps' cur fl'. kp_feed (in_csi pr buf ps None fl) (param_bytes p) =
      (in_csi pr (buf @ param_bytes p) ps' cur fl', []) \<and> add_sub ps' cur fl' = ps @ [p]"
proof -
  obtain v vs where vs: "kpa_sub p = v # vs"
    using assms(1) by (cases "kpa_sub p") (auto simp: param_fits_def)
  have "add_sub ps v fl = ps @ [\<lparr>kpa_sub = [v]\<rparr>]"
    using assms(2) by (auto simp: add_sub_def)
  then have "foldl (\<lambda>qs (v, f). add_sub qs v f) ps (zip (v # vs) (fl # replicate (length (v # vs) - 1) False)) = ps @ [p]"
    using add_sub_fields [of ps "[v]" vs] vs by (cases p) simp
  then show ?thesis
    using feed_fields [of "v # vs" pr buf ps fl] assms(1) vs by (simp add: param_bytes_def param_fits_def)
qed

lemma feed_params:
  assumes "qs \<noteq> []" "list_all param_fits qs" "ps = [] \<or> fl"
  shows "\<exists>ps' cur fl'. kp_feed (in_csi pr buf ps None fl) (join_with (CHR '';'') (map param_bytes qs)) =
      (in_csi pr (buf @ join_with (CHR '';'') (map param_bytes qs)) ps' cur fl', []) \<and>
      add_sub ps' cur fl' = ps @ qs"
  using assms
proof (induction qs arbitrary: buf ps fl)
  case (Cons q qs)
  obtain ps1 cur1 fl1 where q: "kp_feed (in_csi pr buf ps None fl) (param_bytes q) =
      (in_csi pr (buf @ param_bytes q) ps1 cur1 fl1, [])" "add_sub ps1 cur1 fl1 = ps @ [q]"
    using feed_param [of q ps fl pr buf] Cons.prems by auto
  show ?case
  proof (cases qs)
    case Nil
    then show ?thesis
      using q by auto
  next
    case (Cons w ws)
    have "kp_feed (in_csi pr buf ps None fl) (param_bytes q @ '';'') =
        (in_csi pr (buf @ param_bytes q @ '';'') (ps @ [q]) None True, [])"
      using q by (simp add: kp_feed_append consume_semicolon Let_def)
    moreover obtain ps' cur fl' where
      "kp_feed (in_csi pr (buf @ param_bytes q @ '';'') (ps @ [q]) None True)
         (join_with (CHR '';'') (map param_bytes qs)) =
       (in_csi pr ((buf @ param_bytes q @ '';'') @ join_with (CHR '';'') (map param_bytes qs)) ps' cur fl', [])"
      "add_sub ps' cur fl' = (ps @ [q]) @ qs"
      using Cons.IH [of "ps @ [q]" True "buf @ param_bytes q @ '';''"] Cons.prems Cons by auto
    ultimately show ?thesis
      using Cons kp_feed_append [of "in_csi pr buf ps None fl" "param_bytes q @ '';''" "join_with (CHR '';'') (map param_bytes qs)"]
      by (auto simp: Let_def intro!: exI [of _ ps'] exI [of _ cur] exI [of _ fl'])
  qed
qed simp

text \<open>
  A whole sequence.  Its first byte after the introducer is a digit, as the first field of the first
  parameter is a number.
\<close>

lemma feed_intro:
  assumes "is_digit d"
  shows "kp_feed (fresh_parser pr) (ESC_BRACKET @ d # ds) = kp_feed (in_csi pr ESC_BRACKET [] None False) (d # ds)"
  using assms by (simp add: ESC_BRACKET_def fresh_parser_def kp_with_protocol_def kp_new_def kp_consume_def
      step_idle_def step_saw_esc_def step_csi_def Let_def in_csi_def)

lemma feed_csi:
  assumes "qs \<noteq> []" "list_all param_fits qs" "hd (kpa_sub (hd qs)) \<noteq> None"
    "\<not> is_digit b" "b \<noteq> CHR '':''" "b \<noteq> CHR '';''" "decode_csi pr b qs = Some ev"
  shows "kp_feed (fresh_parser pr) (csi_bytes qs b) = (fresh_parser pr, [KPEvent ev (csi_bytes qs b)])"
proof -
  let ?j = "join_with (CHR '';'') (map param_bytes qs)"
  obtain q qs' v vs where q: "qs = q # qs'" "kpa_sub q = Some v # vs"
    using assms(1-3) by (cases qs; cases "kpa_sub (hd qs)") (auto simp: param_fits_def)
  have "\<exists>d ds. dec v = d # ds \<and> is_digit d"
    using dec_digits [of v] dec_nonempty [of v] by (cases "dec v") auto
  then obtain d ds where d: "?j @ [b] = d # ds" "is_digit d"
    using q by (cases qs'; cases vs) (auto simp: param_bytes_def field_bytes_def)
  obtain ps' cur fl' where f: "kp_feed (in_csi pr ESC_BRACKET [] None False) ?j = (in_csi pr (ESC_BRACKET @ ?j) ps' cur fl', [])"
    "add_sub ps' cur fl' = qs"
    using feed_params [of qs "[]" False pr ESC_BRACKET] assms(1,2) by auto
  have "kp_feed (fresh_parser pr) (csi_bytes qs b) = kp_feed (in_csi pr ESC_BRACKET [] None False) (?j @ [b])"
    using feed_intro [OF d(2), of pr ds] d(1) by (simp add: csi_bytes_def)
  also have "\<dots> = (fresh_parser pr, [KPEvent ev (csi_bytes qs b)])"
    using f consume_final [OF assms(4-6), of pr ps' cur fl' ev "ESC_BRACKET @ ?j"] assms(7)
    by (simp add: kp_feed_append csi_bytes_def Let_def)
  finally show ?thesis .
qed

end
