(* ===== verification/Keys_Props.thy ===== *)
theory Keys_Props
  imports Key_Facts
begin

text \<open>
  Properties of the keyboard codec: nothing is lost, the parser cannot get stuck, and what the
  encoder writes the parser reads back.
\<close>

text \<open>
  C8: the key parser loses, invents and reorders no byte.  Whatever is fed, in any state, the bytes
  attached to the events and the raw bytes handed out, followed by the bytes still held, are the
  bytes held before followed by the input.
\<close>

theorem key_parser_keeps_bytes:
  "concat (map output_bytes (snd (kp_feed s bs))) @ kp_buf (fst (kp_feed s bs)) = kp_buf s @ bs"
  by (rule kp_feed_keeps)

text \<open>
  C25: the parser cannot get stuck.  In every state, one byte that is neither a parameter byte (digit,
  colon, semicolon) nor one of the introducers (escape, \<open>[\<close>, \<open>O\<close>) makes it hand out everything it
  holds and return to its idle state.
\<close>

theorem key_parser_releases:
  assumes "\<not> is_digit b" "b \<notin> {CHR '':'', CHR '';'', CHR 0x1B, CHR ''['', CHR ''O''}"
  shows "output_bytes (snd (kp_consume s b)) = kp_buf s @ [b] \<and>
         kp_state (fst (kp_consume s b)) = KIdle \<and> kp_buf (fst (kp_consume s b)) = []"
proof -
  have "snd (kp_consume s b) \<noteq> KPPending"
  proof -
    define t where "t = s\<lparr>kp_buf := kp_buf s @ [b]\<rparr>"
    have "(of_char b :: nat) \<noteq> of_char (CHR 0x1B)"
      using assms(2) by (simp only: of_char_eq_iff) simp
    then have "(of_char b :: nat) \<noteq> 27"
      by simp
    then have "snd (step_idle b t) \<noteq> KPPending" "snd (step_saw_esc b t) \<noteq> KPPending"
      "snd (step_csi b t) \<noteq> KPPending" "snd (step_ss3 b t) \<noteq> KPPending"
      using assms by (simp_all add: step_idle_def step_saw_esc_def step_csi_def step_ss3_def dispatch_csi_def
          kp_out_defs Let_def split: option.split)
    then show ?thesis
      by (simp add: kp_consume_def t_def [symmetric] Let_def split: kp_state.split)
  qed
  then show ?thesis
    using kp_consume_keeps [of s b] by (auto simp: keeps_bytes_def)
qed

theorem key_parser_releases_witness:
  "output_bytes (snd (kp_consume (fst (kp_feed kp_new [CHR 0x1B, CHR ''['', CHR ''1'', CHR '';''])) (CHR ''x''))) =
     kp_buf (fst (kp_feed kp_new [CHR 0x1B, CHR ''['', CHR ''1'', CHR '';''])) @ ''x'' \<and>
   kp_state (fst (kp_consume (fst (kp_feed kp_new [CHR 0x1B, CHR ''['', CHR ''1'', CHR '';''])) (CHR ''x''))) = KIdle \<and>
   kp_buf (fst (kp_consume (fst (kp_feed kp_new [CHR 0x1B, CHR ''['', CHR ''1'', CHR '';''])) (CHR ''x''))) = []"
  by (rule key_parser_releases) (simp_all add: is_digit_def)

section \<open>Round trips\<close>

lemma unat8: "unat (m :: 8 word) < 256"
proof -
  have "unat m < 2 ^ LENGTH(8)"
    by (rule unsigned_less)
  then show ?thesis by simp
qed

lemma decode_mods_param [simp]: "decode_xterm_mods (mods_param m) = m"
  using unat8 [of m] by (simp add: decode_xterm_mods_def mods_param_def)

lemma mods_param_max [simp]: "max (mods_param m) 1 = mods_param m" "max (mods_param m) (Suc 0) = mods_param m"
  by (simp_all add: mods_param_def)

lemma mods_param_fits: "mods_param m \<le> u32_max"
  using unat8 [of m] by (simp add: mods_param_def u32_max_def)


lemma scalar_fits: "is_scalar c \<Longrightarrow> c \<le> u32_max"
  by (auto simp: is_scalar_def u32_max_def)

text \<open>The keys that have a code, and the code determines them.\<close>

definition coded_key :: "key \<Rightarrow> bool" where
  "coded_key k \<longleftrightarrow>
     (case k of
        KChar c \<Rightarrow> is_scalar c \<and> to_ascii_lowercase c = c \<and> c \<notin> {9, 13, 27, 127}
      | _ \<Rightarrow> k \<in> {KEnter, KTab, KBackspace, KEscape})"

lemma coded_key_code:
  "coded_key k \<Longrightarrow> \<exists>code. key_codepoint k = Some code \<and> code \<le> u32_max \<and>
     (\<forall>m. kitty_key code m = Some (key_event_new k m))"
  by (cases k) (auto simp: coded_key_def key_codepoint_def kitty_key_def char_from_u32_def scalar_fits
      scalar_fits [unfolded u32_max_def] u32_max_def)

definition one :: "nat \<Rightarrow> key_param" where
  "one n = \<lparr>kpa_sub = [Some n]\<rparr>"

lemma param_bytes_one: "param_bytes (one n) = dec n"
  by (simp add: one_def param_bytes_def field_bytes_def)

lemma param_fits_one: "param_fits (one n) \<longleftrightarrow> n \<le> u32_max"
  by (simp add: one_def param_fits_def field_fits_def)

lemma nth_opt_simps:
  "nth_opt [] i = None" "nth_opt (x # xs) 0 = Some x" "nth_opt (x # xs) (Suc i) = nth_opt xs i"
  "nth_opt (x # xs) 1 = nth_opt xs 0" "nth_opt (x # xs) 2 = nth_opt xs 1"
  by (simp_all add: nth_opt_def numeral_2_eq_2)

lemma param_primary_one [simp]: "param_primary (one n) = n"
  by (simp add: one_def param_primary_def param_sub_at_def nth_opt_simps)

lemma one_sub: "kpa_sub (one n) = [Some n]"
  by (simp add: one_def)

lemma dec_1: "dec 1 = ''1''"
proof -
  have "(char_of (of_char (CHR ''1'') :: nat) :: char) = CHR ''1''"
    by (rule char_of_char)
  then show ?thesis
    by (simp add: dec.simps)
qed

text \<open>The decoder by the number of its parameters.\<close>

lemma decode_csi_0: "decode_csi pr b [] =
    (if b = CHR ''Z'' then Some (key_event_new KTab MOD_SHIFT) else map_option key_event_plain (csi_final_key b))"
  by (simp add: decode_csi_def nth_opt_simps)

lemma decode_csi_1: "param_primary p \<noteq> 27 \<Longrightarrow> decode_csi pr b [p] =
    (if b = CHR ''~'' then map_option key_event_plain (key_from_tilde (param_primary p))
     else if b = CHR ''u'' then decode_kitty_u pr [p] else None)"
  by (simp add: decode_csi_def nth_opt_simps)

lemma decode_csi_2: "param_primary p \<noteq> 27 \<Longrightarrow> decode_csi pr b (p # q # ps) =
    (if b = CHR ''~'' then map_option (\<lambda>k. key_event_new k (decode_xterm_mods (param_primary q))) (key_from_tilde (param_primary p))
     else if b = CHR ''u'' then decode_kitty_u pr (p # q # ps)
     else if param_primary p = 1 then
       (case csi_final_key b of
          Some k \<Rightarrow> Some (key_event_new k (decode_xterm_mods (param_primary q)))
        | None \<Rightarrow> map_option (\<lambda>k. key_event_new k (decode_xterm_mods (param_primary q))) (csi_function_key b))
     else None)"
  by (simp add: decode_csi_def nth_opt_simps)


lemmas decode_csi_simps = decode_csi_0 decode_csi_1 decode_csi_2
subsection \<open>Keys without a code\<close>

definition functional_key :: "key \<Rightarrow> bool" where
  "functional_key k \<longleftrightarrow>
     (case k of
        KFunction n \<Rightarrow> 1 \<le> n \<and> n \<le> 12
      | _ \<Rightarrow> k \<notin> {KTab, KEnter, KBackspace, KEscape, KKeypadEnter} \<and> (\<forall>c. k \<noteq> KChar c))"

lemma feed_plain_csi:
  assumes "\<not> is_digit b" "b \<noteq> CHR '':''" "b \<noteq> CHR '';''" "decode_csi pr b [] = Some ev"
  shows "kp_feed (fresh_parser pr) (ESC_BRACKET @ [b]) = (fresh_parser pr, [KPEvent ev (ESC_BRACKET @ [b])])"
  using assms
  by (simp add: ESC_BRACKET_def fresh_parser_def kp_with_protocol_def kp_new_def kp_consume_def step_idle_def
      step_saw_esc_def step_csi_def Let_def dispatch_csi_def kp_out_defs kp_reset_state_def)

lemma feed_ss3:
  assumes "csi_function_key b = Some k \<or> (csi_function_key b = None \<and> csi_final_key b = Some k)"
  shows "kp_feed (fresh_parser pr) [CHR 0x1B, CHR ''O'', b] =
         (fresh_parser pr, [KPEvent (key_event_plain k) [CHR 0x1B, CHR ''O'', b]])"
proof -
  have "b \<noteq> CHR ''M''"
    using assms by (auto simp: csi_function_key_def csi_final_key_def)
  with assms show ?thesis
    by (auto simp: fresh_parser_def kp_with_protocol_def kp_new_def kp_consume_def step_idle_def
        step_saw_esc_def step_ss3_def Let_def kp_out_defs kp_reset_state_def)
qed

lemma feed_with_mods:
  assumes "csi_final_key b = Some k"
  shows "kp_feed (fresh_parser pr) (with_mods b b m) = (fresh_parser pr, [KPEvent (key_event_new k m) (with_mods b b m)])"
proof -
  have b: "\<not> is_digit b" "b \<noteq> CHR '':''" "b \<noteq> CHR '';''" "b \<noteq> CHR ''~''" "b \<noteq> CHR ''u''" "b \<noteq> CHR ''Z''"
    using assms by (auto simp: csi_final_key_def is_digit_def split: if_splits)
  show ?thesis
  proof (cases "m = 0")
    case True
    then show ?thesis
      using feed_plain_csi [OF b(1-3), of pr "key_event_plain k"] assms b
      by (simp add: with_mods_def decode_csi_simps key_event_plain_def)
  next
    case False
    have "with_mods b b m = csi_bytes [one 1, one (mods_param m)] b"
      using False by (simp add: with_mods_def csi_bytes_def param_bytes_one dec_1 [simplified])
    moreover have "kp_feed (fresh_parser pr) (csi_bytes [one 1, one (mods_param m)] b) =
        (fresh_parser pr, [KPEvent (key_event_new k m) (csi_bytes [one 1, one (mods_param m)] b)])"
      using b assms mods_param_fits [of m]
      by (intro feed_csi) (simp_all add: param_fits_one decode_csi_simps u32_max_def one_sub)
    ultimately show ?thesis
      by simp
  qed
qed

lemma feed_function_mods:
  assumes "csi_function_key b = Some k" "m \<noteq> 0"
  shows "kp_feed (fresh_parser pr) (ESC_BRACKET @ ''1;'' @ dec (mods_param m) @ [b]) =
    (fresh_parser pr, [KPEvent (key_event_new k m) (ESC_BRACKET @ ''1;'' @ dec (mods_param m) @ [b])])"
proof -
  have b: "\<not> is_digit b" "b \<noteq> CHR '':''" "b \<noteq> CHR '';''" "b \<noteq> CHR ''~''" "b \<noteq> CHR ''u''" "csi_final_key b = None"
    using assms by (auto simp: csi_function_key_def csi_final_key_def is_digit_def split: if_splits)
  have "ESC_BRACKET @ ''1;'' @ dec (mods_param m) @ [b] = csi_bytes [one 1, one (mods_param m)] b"
    by (simp add: csi_bytes_def param_bytes_one dec_1 [simplified])
  moreover have "kp_feed (fresh_parser pr) (csi_bytes [one 1, one (mods_param m)] b) =
      (fresh_parser pr, [KPEvent (key_event_new k m) (csi_bytes [one 1, one (mods_param m)] b)])"
    using b assms mods_param_fits [of m]
    by (intro feed_csi) (simp_all add: param_fits_one decode_csi_simps u32_max_def one_sub)
  ultimately show ?thesis
    by simp
qed

lemma feed_tilde:
  assumes "key_from_tilde n = Some k"
  shows "kp_feed (fresh_parser pr) (tilde n m) = (fresh_parser pr, [KPEvent (key_event_new k m) (tilde n m)])"
proof -
  have n: "n \<le> u32_max" "n \<noteq> 27"
    using assms by (auto simp: key_from_tilde_def u32_max_def split: if_splits)
  define ps where "ps = (if m = 0 then [one n] else [one n, one (mods_param m)])"
  have "tilde n m = csi_bytes ps (CHR ''~'')"
    by (simp add: tilde_def csi_bytes_def ps_def param_bytes_one)
  moreover have "kp_feed (fresh_parser pr) (csi_bytes ps (CHR ''~'')) =
      (fresh_parser pr, [KPEvent (key_event_new k m) (csi_bytes ps (CHR ''~''))])"
    using assms n mods_param_fits [of m]
    by (intro feed_csi)
      (auto simp: ps_def param_fits_one decode_csi_simps is_digit_def key_event_plain_def one_sub)
  ultimately show ?thesis
    by simp
qed

lemma functional_legacy:
  assumes "functional_key k"
  shows "text_producing upc (key_event_new k m) = None" "key_codepoint k = None"
    "legacy_bytes upc (key_event_new k m) = legacy_key k m"
  using assms by (cases k; simp add: functional_key_def text_producing_def key_event_new_def key_codepoint_def
      legacy_bytes_def split: option.split)+

lemma feed_legacy_key:
  assumes "functional_key k"
  shows "kp_feed (fresh_parser pr) (legacy_key k m) = (fresh_parser pr, [KPEvent (key_event_new k m) (legacy_key k m)])"
proof (cases k)
  case (KArrow d)
  then show ?thesis
    by (cases d) (simp_all add: legacy_key_def arrow_bytes_def dir_final_def feed_with_mods csi_final_key_def)
next
  case (KFunction n)
  have "1 \<le> n" "n \<le> 12"
    using assms KFunction by (simp_all add: functional_key_def)
  then have n: "n \<in> {1, 2, 3, 4, 5, 6, 7, 8, 9, 10, 11, 12}"
    unfolding insert_iff empty_iff by presburger
  show ?thesis
  proof (cases "n \<le> 4")
    case True
    define b where "b = (if n = 1 then CHR ''P'' else if n = 2 then CHR ''Q'' else if n = 3 then CHR ''R'' else CHR ''S'')"
    have b: "csi_function_key b = Some k"
      using n True KFunction by (auto simp: b_def csi_function_key_def)
    have "legacy_key k m = (if m = 0 then [CHR 0x1B, CHR ''O'', b] else ESC_BRACKET @ ''1;'' @ dec (mods_param m) @ [b])"
      using n True KFunction by (auto simp: legacy_key_def f1_to_f4_def b_def)
    then show ?thesis
      using feed_ss3 [of b k pr] feed_function_mods [OF b, of m pr] b by (auto simp: key_event_plain_def)
  next
    case False
    define i where "i = (if n = 5 then 15 else if n \<le> 10 then n + 11 else n + 12)"
    have "legacy_key k m = tilde i m" "key_from_tilde i = Some k"
      using n False KFunction by (auto simp: i_def legacy_key_def key_from_tilde_def)
    then show ?thesis
      using feed_tilde by simp
  qed
qed (use assms in \<open>simp_all add: functional_key_def legacy_key_def feed_with_mods csi_final_key_def feed_tilde
       key_from_tilde_def\<close>)

text \<open>
  the keys without a character code survive every target.  An arrow, navigation or function key
  with any modifiers, encoded for a legacy, modifyOtherKeys or Kitty pane, with or without
  application cursor keys, is read back as the same event by a parser of any protocol.
\<close>

theorem functional_keys_round_trip:
  assumes "functional_key k"
  shows "kp_feed (fresh_parser pr) (encode_key upc (key_event_new k m) target app) =
         (fresh_parser pr, [KPEvent (key_event_new k m) (encode_key upc (key_event_new k m) target app)])"
proof -
  have kind: "ke_kind (key_event_new k m) = KPress" "ke_key (key_event_new k m) = k" "ke_mods (key_event_new k m) = m"
    by (simp_all add: key_event_new_def)
  have enc: "encode_key upc (key_event_new k m) target app = legacy_with_cursor upc (key_event_new k m) app"
    using functional_legacy(2) [OF assms] kind
    by (auto simp: encode_key_def modify_other_keys_bytes_def kitty_bytes_def split: keyboard_target.split)
  consider (app) d where "k = KArrow d" "m = 0" "app" | (plain) "legacy_with_cursor upc (key_event_new k m) app = legacy_key k m"
    using functional_legacy(3) [OF assms, of upc m] kind
    by (cases k; cases "m = 0 \<and> app") (auto simp: legacy_with_cursor_def)
  then show ?thesis
  proof cases
    case app
    then have bytes: "encode_key upc (key_event_new k m) target app = [CHR 0x1B, CHR ''O'', dir_final d]"
      using kind unfolding enc by (simp add: legacy_with_cursor_def)
    have "csi_function_key (dir_final d) = None \<and> csi_final_key (dir_final d) = Some (KArrow d)"
      by (cases d) (simp_all add: dir_final_def csi_function_key_def csi_final_key_def)
    then show ?thesis
      unfolding bytes using feed_ss3 [of "dir_final d" "KArrow d" pr] app by (simp add: key_event_plain_def del: kp_feed.simps)
  next
    case plain
    then show ?thesis
      unfolding enc using feed_legacy_key [OF assms] by simp
  qed
qed

theorem functional_keys_round_trip_witness:
  "kp_feed (fresh_parser ProtoLegacy) (encode_key (\<lambda>c. [c]) (key_event_new (KFunction 7) 5) TargetLegacy True) =
   (fresh_parser ProtoLegacy, [KPEvent (key_event_new (KFunction 7) 5)
      (encode_key (\<lambda>c. [c]) (key_event_new (KFunction 7) 5) TargetLegacy True)])"
  by (rule functional_keys_round_trip) (simp add: functional_key_def)

subsection \<open>Keys with a code\<close>


















text \<open>
  the modifyOtherKeys form survives the trip.  A modified key with a code, encoded at level 2, is
  read back with its modifiers by a parser of any protocol.
\<close>

theorem modify_other_keys_round_trip:
  assumes "coded_key k" "m \<noteq> 0"
  shows "kp_feed (fresh_parser pr) (encode_key upc (key_event_new k m) (TargetMok MokLevel2) app) =
         (fresh_parser pr, [KPEvent (key_event_new k m) (encode_key upc (key_event_new k m) (TargetMok MokLevel2) app)])"
proof -
  obtain code where code: "key_codepoint k = Some code" "code \<le> u32_max" "\<forall>m. kitty_key code m = Some (key_event_new k m)"
    using coded_key_code [OF assms(1)] by auto
  have "dec 27 = ''27''"
  proof -
    have "(char_of (of_char (CHR ''2'') :: nat) :: char) = CHR ''2''" "(char_of (of_char (CHR ''7'') :: nat) :: char) = CHR ''7''"
      by (rule char_of_char)+
    then show ?thesis
      by (simp add: dec.simps)
  qed
  then have enc: "encode_key upc (key_event_new k m) (TargetMok MokLevel2) app =
      csi_bytes [one 27, one (mods_param m), one code] (CHR ''~'')"
    using assms(2) code(1)
    by (simp add: encode_key_def modify_other_keys_bytes_def key_event_new_def csi_bytes_def param_bytes_one)
  have "decode_csi pr (CHR ''~'') [one 27, one (mods_param m), one code] = Some (key_event_new k m)"
    using code(3) by (simp add: decode_csi_def nth_opt_simps decode_modify_other_keys_def)
  then show ?thesis
    unfolding enc using code(2) mods_param_fits [of m]
    by (intro feed_csi) (simp_all add: param_fits_one is_digit_def u32_max_def one_sub)
qed

theorem modify_other_keys_round_trip_witness:
  "kp_feed (fresh_parser ProtoModifyOtherKeys) (encode_key (\<lambda>c. [c]) (key_event_new (KChar 59) 4) (TargetMok MokLevel2) False) =
   (fresh_parser ProtoModifyOtherKeys, [KPEvent (key_event_new (KChar 59) 4)
      (encode_key (\<lambda>c. [c]) (key_event_new (KChar 59) 4) (TargetMok MokLevel2) False)])"
  by (rule modify_other_keys_round_trip) (simp_all add: coded_key_def is_scalar_def to_ascii_lowercase_def)

end
