(* ===== verification/Keymap.thy ===== *)
theory Keymap
  imports Keys Preset "HOL-Library.AList"
begin

text \<open>
  The keymap, after \<open>crates/mux/src/keymap.rs\<close>: a trie over chords that turns key events into
  commands.  A node's children are an association list (a \<open>HashMap\<close> in the code, of which only
  lookup, insertion and emptiness are used).
\<close>

datatype swap_target = SwapPrev | SwapNext

datatype command =
    CmdNewWindow | CmdNextWindow | CmdPrevWindow | CmdKillWindow
  | CmdSelectWindow nat
  | CmdSplitV | CmdSplitH | CmdKillPane | CmdZoomToggle
  | CmdSelectPane direction
  | CmdSelectNextPane | CmdSelectPrevPane
  | CmdResizePane direction
  | CmdSelectLastWindow | CmdSelectLastPane | CmdMarkPane | CmdBreakPane
  | CmdSwapPane swap_target
  | CmdJoinPane split_dir
  | CmdSwapMarkedPane | CmdToggleMonitorActivity | CmdToggleMonitorBell | CmdToggleMonitorCommand
  | CmdSetMonitorSilence "nat option"
  | CmdRenameWindow | CmdRenamePane | CmdShowHelp | CmdCommandPrompt | CmdCommandPalette
  | CmdChooseSession | CmdChooseTree | CmdHistory | CmdHints | CmdPasteBuffer | CmdChooseBuffer
  | CmdDetach | CmdCancel | CmdEnterCopyMode | CmdEnterBlockMode | CmdToggleSyncPanes | CmdReloadConfig
  | CmdOpenPopup "rstr option"
  | CmdClosePopup
  | CmdSelectLayout layout_preset
  | CmdNextLayout | CmdPrevPrompt | CmdNextPrompt | CmdCopyOutput

type_synonym chord = "8 word \<times> key"

datatype trie_node = TrieNode (tn_children: "(chord \<times> trie_node) list") (tn_terminal: "command option")

definition trie_empty :: trie_node where
  "trie_empty = TrieNode [] None"

record keymap =
  km_root :: trie_node
  km_pending :: "chord list"

datatype keymap_action =
    KMPassThrough key_event bytes
  | KMCommand command
  | KMPending
  | KMCancel

definition keymap_new :: keymap where
  "keymap_new = \<lparr>km_root = trie_empty, km_pending = []\<rparr>"

fun trie_bind :: "chord list \<Rightarrow> command \<Rightarrow> trie_node \<Rightarrow> trie_node" where
  "trie_bind [] c (TrieNode ch t) = TrieNode ch (Some c)"
| "trie_bind (k # ks) c (TrieNode ch t) =
     TrieNode (AList.update k (trie_bind ks c (case map_of ch k of Some n \<Rightarrow> n | None \<Rightarrow> trie_empty)) ch) t"

definition keymap_bind :: "chord list \<Rightarrow> command \<Rightarrow> keymap \<Rightarrow> keymap" where
  "keymap_bind chords c m = m\<lparr>km_root := trie_bind chords c (km_root m)\<rparr>"

definition prefix_active :: "keymap \<Rightarrow> bool" where
  "prefix_active m \<longleftrightarrow> km_pending m \<noteq> []"

text \<open>Walking down the pending chords; the root when a chord is not there.\<close>

fun trie_at :: "chord list \<Rightarrow> trie_node \<Rightarrow> trie_node option" where
  "trie_at [] n = Some n"
| "trie_at (k # ks) n = (case map_of (tn_children n) k of Some child \<Rightarrow> trie_at ks child | None \<Rightarrow> None)"

definition keymap_descend :: "keymap \<Rightarrow> trie_node" where
  "keymap_descend m = (case trie_at (km_pending m) (km_root m) of Some n \<Rightarrow> n | None \<Rightarrow> km_root m)"

definition keymap_cancel :: "keymap \<Rightarrow> keymap" where
  "keymap_cancel m = m\<lparr>km_pending := []\<rparr>"

definition keymap_consume :: "keymap \<Rightarrow> key_event \<Rightarrow> bytes \<Rightarrow> keymap \<times> keymap_action" where
  "keymap_consume m ev b =
     (if ke_kind ev \<noteq> KPress then
        (if km_pending m = [] then (m, KMPassThrough ev b) else (keymap_cancel m, KMCancel))
      else
        (let lookup_mods = mods_difference (ke_mods ev) (MOD_CAPS_LOCK OR MOD_NUM_LOCK);
             chord = (lookup_mods, ke_key ev)
         in case map_of (tn_children (keymap_descend m)) chord of
              Some child \<Rightarrow>
                if tn_children child \<noteq> [] then (m\<lparr>km_pending := km_pending m @ [chord]\<rparr>, KMPending)
                else (case tn_terminal child of
                        Some cmd \<Rightarrow> (keymap_cancel m, KMCommand cmd)
                      | None \<Rightarrow> (keymap_cancel m, KMCancel))
            | None \<Rightarrow>
                if km_pending m = [] then (m, KMPassThrough ev b) else (keymap_cancel m, KMCancel)))"

end
