(* ===== verification/Key_Spec.thy ===== *)
theory Key_Spec
  imports Keymap
begin

text \<open>
  The key and command strings of the configuration, after \<open>crates/keys/src/spec.rs\<close>, the keymap
  they compile to, after \<open>crates/keys/src/build.rs\<close>, and the built-in bindings of
  \<open>crates/config/src/default.rs\<close>.  \<open>lower\<close> is \<open>str::to_lowercase\<close>, a parameter (the Unicode case
  tables).
\<close>

datatype key_spec_error =
    SpecEmpty
  | UnknownToken rstr
  | UnknownCommand rstr
  | BadArg rstr rstr
  | MissingArg rstr

section \<open>Text\<close>

definition trim :: "rstr \<Rightarrow> rstr" where
  "trim s = rev (dropWhile is_whitespace (rev (dropWhile is_whitespace s)))"

text \<open>\<open>split_whitespace\<close>: the maximal runs of other characters.\<close>

fun split_ws :: "rstr \<Rightarrow> rstr \<Rightarrow> rstr list" where
  "split_ws cur [] = (if cur = [] then [] else [rev cur])"
| "split_ws cur (c # cs) =
     (if is_whitespace c then (if cur = [] then split_ws [] cs else rev cur # split_ws [] cs)
      else split_ws (c # cur) cs)"

definition split_whitespace :: "rstr \<Rightarrow> rstr list" where
  "split_whitespace s = split_ws [] s"

definition ascii_lower :: "rstr \<Rightarrow> rstr" where
  "ascii_lower s = map (\<lambda>c. if 65 \<le> c \<and> c \<le> 90 then c + 32 else c) s"

section \<open>Keys and chords\<close>

definition named_keys :: "(rstr \<times> key) list" where
  "named_keys =
     [(lit ''right'', KArrow DirRight), (lit ''left'', KArrow DirLeft), (lit ''up'', KArrow DirUp),
      (lit ''down'', KArrow DirDown), (lit ''home'', KHome), (lit ''end'', KEnd),
      (lit ''pageup'', KPageUp), (lit ''pgup'', KPageUp),
      (lit ''pagedown'', KPageDown), (lit ''pgdn'', KPageDown), (lit ''pgdown'', KPageDown),
      (lit ''insert'', KInsert), (lit ''ins'', KInsert), (lit ''delete'', KDelete), (lit ''del'', KDelete),
      (lit ''tab'', KTab), (lit ''enter'', KEnter), (lit ''return'', KEnter),
      (lit ''backspace'', KBackspace), (lit ''bs'', KBackspace),
      (lit ''escape'', KEscape), (lit ''esc'', KEscape), (lit ''space'', KChar 32)]"

definition parse_named_key :: "(rstr \<Rightarrow> rstr) \<Rightarrow> rstr \<Rightarrow> key_spec_error + key" where
  "parse_named_key lower s =
     (case (case s of c # rest \<Rightarrow> if c = 70 \<or> c = 102 then parse_unsigned 255 (utf8_encode rest) else None
            | [] \<Rightarrow> None) of
        Some n \<Rightarrow> if 1 \<le> n \<and> n \<le> 12 then Inr (KFunction n) else Inl (UnknownToken s)
      | None \<Rightarrow>
          (case map_of named_keys (lower s) of
             Some k \<Rightarrow> Inr k
           | None \<Rightarrow> (case s of [c] \<Rightarrow> Inr (KChar c) | _ \<Rightarrow> Inl (UnknownToken s))))"

text \<open>The modifier words of a chord, in order; the first unknown one is the error.\<close>

fun parse_mods :: "rstr list \<Rightarrow> 8 word \<Rightarrow> key_spec_error + 8 word" where
  "parse_mods [] m = Inr m"
| "parse_mods (w # ws) m =
     (case alias_meta_as_alt (trim w) of
        Some flag \<Rightarrow> parse_mods ws (m OR flag)
      | None \<Rightarrow> Inl (UnknownToken w))"

definition parse_chord :: "(rstr \<Rightarrow> rstr) \<Rightarrow> rstr \<Rightarrow> key_spec_error + chord" where
  "parse_chord lower s =
     (let s = trim s
      in if s = [] then Inl SpecEmpty
         else if s = lit ''+'' then
           (case parse_named_key lower (lit ''+'') of Inl e \<Rightarrow> Inl e | Inr k \<Rightarrow> Inr (0, k))
         else case strip_suffix (lit ''++'') s of
           Some pre \<Rightarrow>
             (case parse_mods (split_on 43 pre) 0 of
                Inl e \<Rightarrow> Inl e
              | Inr m \<Rightarrow> (case parse_named_key lower (lit ''+'') of Inl e \<Rightarrow> Inl e | Inr k \<Rightarrow> Inr (m, k)))
         | None \<Rightarrow>
             (let parts = split_on 43 s
              in case parse_mods (butlast parts) 0 of
                   Inl e \<Rightarrow> Inl e
                 | Inr m \<Rightarrow>
                     (case parse_named_key lower (trim (last parts)) of Inl e \<Rightarrow> Inl e | Inr k \<Rightarrow> Inr (m, k))))"

text \<open>Collecting results stops at the first error.\<close>

fun collect_results :: "('e + 'a) list \<Rightarrow> 'e + 'a list" where
  "collect_results [] = Inr []"
| "collect_results (r # rs) =
     (case r of Inl e \<Rightarrow> Inl e
      | Inr x \<Rightarrow> (case collect_results rs of Inl e \<Rightarrow> Inl e | Inr xs \<Rightarrow> Inr (x # xs)))"

definition parse_chord_seq_impl :: "(rstr \<Rightarrow> rstr) \<Rightarrow> rstr \<Rightarrow> chord option \<Rightarrow> key_spec_error + chord list" where
  "parse_chord_seq_impl lower s prefix =
     (let s = trim s
      in if s = [] then Inl SpecEmpty
         else collect_results (map (\<lambda>tok.
           (case prefix of
              Some p \<Rightarrow> if ascii_lower tok = lit ''prefix'' then Inr p else parse_chord lower tok
            | None \<Rightarrow> parse_chord lower tok)) (split_whitespace s)))"

definition parse_chord_seq :: "(rstr \<Rightarrow> rstr) \<Rightarrow> rstr \<Rightarrow> key_spec_error + chord list" where
  "parse_chord_seq lower s = parse_chord_seq_impl lower s None"

definition parse_chord_seq_with_prefix :: "(rstr \<Rightarrow> rstr) \<Rightarrow> rstr \<Rightarrow> chord \<Rightarrow> key_spec_error + chord list" where
  "parse_chord_seq_with_prefix lower s prefix = parse_chord_seq_impl lower s (Some prefix)"

section \<open>Commands\<close>

text \<open>The commands without an argument (an argument given to one of them is ignored).\<close>

definition plain_commands :: "(rstr \<times> command) list" where
  "plain_commands =
    [(lit ''new_window'', CmdNewWindow),
     (lit ''split_v'', CmdSplitV),
     (lit ''split_h'', CmdSplitH),
     (lit ''kill_pane'', CmdKillPane),
     (lit ''kill_window'', CmdKillWindow),
     (lit ''zoom_toggle'', CmdZoomToggle),
     (lit ''next_window'', CmdNextWindow),
     (lit ''prev_window'', CmdPrevWindow),
     (lit ''detach'', CmdDetach),
     (lit ''cancel'', CmdCancel),
     (lit ''enter_copy_mode'', CmdEnterCopyMode),
     (lit ''enter_block_mode'', CmdEnterBlockMode),
     (lit ''toggle_sync_panes'', CmdToggleSyncPanes),
     (lit ''reload_config'', CmdReloadConfig),
     (lit ''select_next_pane'', CmdSelectNextPane),
     (lit ''select_prev_pane'', CmdSelectPrevPane),
     (lit ''select_pane_left'', CmdSelectPane DirLeft),
     (lit ''select_pane_right'', CmdSelectPane DirRight),
     (lit ''select_pane_up'', CmdSelectPane DirUp),
     (lit ''select_pane_down'', CmdSelectPane DirDown),
     (lit ''resize_pane_left'', CmdResizePane DirLeft),
     (lit ''resize_pane_right'', CmdResizePane DirRight),
     (lit ''resize_pane_up'', CmdResizePane DirUp),
     (lit ''resize_pane_down'', CmdResizePane DirDown),
     (lit ''select_last_window'', CmdSelectLastWindow),
     (lit ''select_last_pane'', CmdSelectLastPane),
     (lit ''rename_window'', CmdRenameWindow),
     (lit ''rename_pane'', CmdRenamePane),
     (lit ''show_help'', CmdShowHelp),
     (lit ''command_prompt'', CmdCommandPrompt),
     (lit ''command_palette'', CmdCommandPalette),
     (lit ''choose_session'', CmdChooseSession),
     (lit ''choose_tree'', CmdChooseTree),
     (lit ''history'', CmdHistory),
     (lit ''hints'', CmdHints),
     (lit ''mark_pane'', CmdMarkPane),
     (lit ''break_pane'', CmdBreakPane),
     (lit ''swap_pane_next'', CmdSwapPane SwapNext),
     (lit ''swap_pane_prev'', CmdSwapPane SwapPrev),
     (lit ''join_pane'', CmdJoinPane SplitVertical),
     (lit ''swap_marked_pane'', CmdSwapMarkedPane),
     (lit ''paste_buffer'', CmdPasteBuffer),
     (lit ''choose_buffer'', CmdChooseBuffer),
     (lit ''toggle_monitor_activity'', CmdToggleMonitorActivity),
     (lit ''toggle_monitor_bell'', CmdToggleMonitorBell),
     (lit ''toggle_monitor_command'', CmdToggleMonitorCommand),
     (lit ''close_popup'', CmdClosePopup),
     (lit ''next_layout'', CmdNextLayout),
     (lit ''prev_prompt'', CmdPrevPrompt),
     (lit ''next_prompt'', CmdNextPrompt),
     (lit ''copy_output'', CmdCopyOutput)]"

text \<open>An argument that is present and not empty.\<close>

definition given :: "rstr option \<Rightarrow> rstr option" where
  "given arg = (case arg of Some [] \<Rightarrow> None | a \<Rightarrow> a)"

definition parse_bound_command :: "rstr \<Rightarrow> key_spec_error + command" where
  "parse_bound_command s =
     (let s = trim s;
          (name, arg) = (case split_once 58 s of Some (a, b) \<Rightarrow> (trim a, Some (trim b)) | None \<Rightarrow> (trim s, None))
      in case map_of plain_commands name of
           Some c \<Rightarrow> Inr c
         | None \<Rightarrow>
             if name = lit ''set_monitor_silence'' then
               (case given arg of
                  Some a \<Rightarrow>
                    (case parse_unsigned u64_max (utf8_encode a) of
                       None \<Rightarrow> Inl (BadArg name a)
                     | Some n \<Rightarrow> Inr (CmdSetMonitorSilence (if n > 0 then Some n else None)))
                | None \<Rightarrow> Inr (CmdSetMonitorSilence None))
             else if name = lit ''popup'' then Inr (CmdOpenPopup (given arg))
             else if name = lit ''layout'' then
               (case given arg of
                  None \<Rightarrow> Inl (MissingArg name)
                | Some a \<Rightarrow>
                    (case preset_parse a of None \<Rightarrow> Inl (BadArg name a) | Some p \<Rightarrow> Inr (CmdSelectLayout p)))
             else if name = lit ''select_window'' then
               (case arg of
                  None \<Rightarrow> Inl (MissingArg name)
                | Some a \<Rightarrow>
                    (case parse_unsigned 255 (utf8_encode a) of
                       None \<Rightarrow> Inl (BadArg name a)
                     | Some n \<Rightarrow> Inr (CmdSelectWindow n)))
             else Inl (UnknownCommand name))"

section \<open>Building the keymap\<close>

record keymap_binding =
  kb_keys :: rstr
  kb_command :: rstr

record keymap_config =
  kc_prefix :: rstr
  kc_inherit_defaults :: bool
  kc_bindings :: "keymap_binding list"

definition binding :: "rstr \<Rightarrow> rstr \<Rightarrow> keymap_binding" where
  "binding keys cmd = \<lparr>kb_keys = keys, kb_command = cmd\<rparr>"

definition built_in_keymap :: keymap_config where
  "built_in_keymap = \<lparr>kc_prefix = lit ''Ctrl+a'', kc_inherit_defaults = True, kc_bindings = map (\<lambda>(k, c). binding k c)
       [(lit ''prefix c'', lit ''new_window''),
        (lit ''prefix v'', lit ''split_v''),
        (lit ''prefix s'', lit ''split_h''),
        (lit ''prefix x'', lit ''kill_pane''),
        (lit ''prefix z'', lit ''zoom_toggle''),
        (lit ''prefix n'', lit ''next_window''),
        (lit ''prefix p'', lit ''prev_window''),
        (lit ''prefix &'', lit ''kill_window''),
        (lit ''prefix d'', lit ''detach''),
        (lit ''prefix ['', lit ''enter_copy_mode''),
        (lit ''prefix y'', lit ''toggle_sync_panes''),
        (lit ''prefix R'', lit ''reload_config''),
        (lit ''prefix 1'', lit ''select_window:0''),
        (lit ''prefix 2'', lit ''select_window:1''),
        (lit ''prefix 3'', lit ''select_window:2''),
        (lit ''prefix 4'', lit ''select_window:3''),
        (lit ''prefix 5'', lit ''select_window:4''),
        (lit ''prefix 6'', lit ''select_window:5''),
        (lit ''prefix 7'', lit ''select_window:6''),
        (lit ''prefix 8'', lit ''select_window:7''),
        (lit ''prefix 9'', lit ''select_window:8''),
        (lit ''prefix h'', lit ''select_pane_left''),
        (lit ''prefix j'', lit ''select_pane_down''),
        (lit ''prefix k'', lit ''select_pane_up''),
        (lit ''prefix l'', lit ''select_pane_right''),
        (lit ''Alt+Left'', lit ''select_pane_left''),
        (lit ''Alt+Down'', lit ''select_pane_down''),
        (lit ''Alt+Up'', lit ''select_pane_up''),
        (lit ''Alt+Right'', lit ''select_pane_right''),
        (lit ''prefix H'', lit ''resize_pane_left''),
        (lit ''prefix J'', lit ''resize_pane_down''),
        (lit ''prefix K'', lit ''resize_pane_up''),
        (lit ''prefix L'', lit ''resize_pane_right''),
        (lit ''prefix Tab'', lit ''select_last_window''),
        (lit ''prefix ;'', lit ''select_last_pane''),
        (lit ''prefix ,'', lit ''rename_window''),
        (lit ''prefix .'', lit ''rename_pane''),
        (lit ''prefix ?'', lit ''show_help''),
        (lit ''prefix :'', lit ''command_prompt''),
        (lit ''prefix w'', lit ''choose_session''),
        (lit ''prefix W'', lit ''choose_tree''),
        (lit ''prefix /'', lit ''history''),
        (lit ''prefix f'', lit ''hints''),
        (lit ''prefix m'', lit ''mark_pane''),
        (lit ''prefix !'', lit ''break_pane''),
        (lit ''prefix {'', lit ''swap_pane_prev''),
        (lit ''prefix }'', lit ''swap_pane_next''),
        (lit ''prefix ]'', lit ''paste_buffer''),
        (lit ''prefix ='', lit ''choose_buffer''),
        (lit ''prefix M'', lit ''toggle_monitor_activity''),
        (lit ''prefix P'', lit ''popup''),
        (lit ''prefix q'', lit ''close_popup''),
        (lit ''prefix i'', lit ''next_layout''),
        (lit ''prefix Space'', lit ''command_palette''),
        (lit ''prefix <'', lit ''prev_prompt''),
        (lit ''prefix >'', lit ''next_prompt''),
        (lit ''prefix b'', lit ''enter_block_mode'')]\<rparr>"

definition DEFAULT_PREFIX :: chord where
  "DEFAULT_PREFIX = (MOD_CTRL, KChar 97)"

definition resolve_prefix :: "(rstr \<Rightarrow> rstr) \<Rightarrow> rstr \<Rightarrow> chord" where
  "resolve_prefix lower s =
     (case parse_chord_seq lower s of
        Inr [c] \<Rightarrow> c
      | _ \<Rightarrow> DEFAULT_PREFIX)"

text \<open>The \<open>Display\<close> form of an error.\<close>

definition spec_error_text :: "key_spec_error \<Rightarrow> rstr" where
  "spec_error_text e =
     (case e of
        SpecEmpty \<Rightarrow> lit ''empty chord''
      | UnknownToken t \<Rightarrow> lit ''unknown token: '' @ t
      | UnknownCommand c \<Rightarrow> lit ''unknown command: '' @ c
      | BadArg c a \<Rightarrow> lit ''invalid argument for command '' @ c @ lit '': '' @ a
      | MissingArg c \<Rightarrow> lit ''missing argument for command '' @ c)"

definition skip_text :: "rstr \<Rightarrow> key_spec_error \<Rightarrow> rstr" where
  "skip_text s e = [34] @ s @ [34] @ lit '': '' @ spec_error_text e"

fun apply_bindings :: "(rstr \<Rightarrow> rstr) \<Rightarrow> chord \<Rightarrow> keymap_binding list \<Rightarrow> keymap \<times> rstr list \<Rightarrow> keymap \<times> rstr list" where
  "apply_bindings lower prefix [] (km, skipped) = (km, skipped)"
| "apply_bindings lower prefix (b # bs) (km, skipped) =
     apply_bindings lower prefix bs
       (case (parse_chord_seq_with_prefix lower (kb_keys b) prefix, parse_bound_command (kb_command b)) of
          (Inr chords, Inr c) \<Rightarrow> (keymap_bind chords c km, skipped)
        | (Inl e, _) \<Rightarrow> (km, skipped @ [skip_text (kb_keys b) e])
        | (Inr _, Inl e) \<Rightarrow> (km, skipped @ [skip_text (kb_command b) e]))"

definition build_keymap_with_skips :: "(rstr \<Rightarrow> rstr) \<Rightarrow> keymap_config \<Rightarrow> keymap \<times> rstr list" where
  "build_keymap_with_skips lower cfg =
     (let prefix = resolve_prefix lower (kc_prefix cfg);
          km = keymap_new;
          km = (if kc_inherit_defaults cfg
                then fst (apply_bindings lower prefix (kc_bindings built_in_keymap) (km, [])) else km)
      in apply_bindings lower prefix (kc_bindings cfg) (km, []))"

definition build_keymap :: "(rstr \<Rightarrow> rstr) \<Rightarrow> keymap_config \<Rightarrow> keymap" where
  "build_keymap lower cfg = fst (build_keymap_with_skips lower cfg)"

end
