(* ===== verification/Keymap_Facts.thy ===== *)
theory Keymap_Facts
  imports Key_Spec Prelude
begin

text \<open>
  The keymap trie against its specification: a finite map from chord sequences to commands, and the
  machine that waits while the chords typed begin a longer binding.
\<close>

section \<open>The trie as a map\<close>

definition trie_get :: "trie_node \<Rightarrow> chord list \<rightharpoonup> command" where
  "trie_get n ks = (case trie_at ks n of Some m \<Rightarrow> tn_terminal m | None \<Rightarrow> None)"

lemma trie_get_Nil: "trie_get n [] = tn_terminal n"
  by (simp add: trie_get_def)

lemma trie_get_Cons:
  "trie_get n (k # ks) = (case map_of (tn_children n) k of Some child \<Rightarrow> trie_get child ks | None \<Rightarrow> None)"
  by (simp add: trie_get_def split: option.split)

lemma trie_get_empty [simp]: "trie_get trie_empty = Map.empty"
proof
  fix ks
  show "trie_get trie_empty ks = None"
    by (cases ks) (simp_all add: trie_get_Nil trie_get_Cons trie_empty_def)
qed

lemma trie_get_bind: "trie_get (trie_bind ks c n) = (trie_get n)(ks \<mapsto> c)"
proof (induction ks c n rule: trie_bind.induct)
  case (1 c ch t)
  show ?case
  proof
    fix qs
    show "trie_get (trie_bind [] c (TrieNode ch t)) qs = ((trie_get (TrieNode ch t))([] \<mapsto> c)) qs"
      by (cases qs) (simp_all add: trie_get_Nil trie_get_Cons)
  qed
next
  case (2 k ks c ch t)
  show ?case
  proof
    fix qs
    show "trie_get (trie_bind (k # ks) c (TrieNode ch t)) qs = ((trie_get (TrieNode ch t))(k # ks \<mapsto> c)) qs"
      using 2 by (cases qs) (auto simp: trie_get_Nil trie_get_Cons update_conv' split: option.split)
  qed
qed

text \<open>No node of the trie is a dead end: below every child some command is bound.\<close>

definition live :: "trie_node \<Rightarrow> bool" where
  "live n \<longleftrightarrow> tn_terminal n \<noteq> None \<or> tn_children n \<noteq> []"

inductive trie_ok :: "trie_node \<Rightarrow> bool" where
  "(\<And>k c. (k, c) \<in> set ch \<Longrightarrow> trie_ok c \<and> live c) \<Longrightarrow> trie_ok (TrieNode ch t)"

inductive_simps trie_ok_node: "trie_ok (TrieNode ch t)"

lemma live_bind: "live (trie_bind ks c n)"
  by (cases "(ks, c, n)" rule: trie_bind.cases) (auto simp: live_def)

lemma trie_ok_mem: "trie_ok (TrieNode ch t) \<Longrightarrow> (k, c) \<in> set ch \<Longrightarrow> trie_ok c \<and> live c"
  by (cases k) (auto simp: trie_ok_node)

lemma trie_ok_child: "trie_ok n \<Longrightarrow> map_of (tn_children n) k = Some c \<Longrightarrow> trie_ok c \<and> live c"
  using trie_ok_mem [of "tn_children n" "tn_terminal n" k c] map_of_SomeD [of "tn_children n" k c] by simp

lemma in_update: "x \<in> set (AList.update k v al) \<Longrightarrow> x = (k, v) \<or> x \<in> set al"
  by (induction al) (auto split: if_splits)

lemma trie_ok_bind: "trie_ok n \<Longrightarrow> trie_ok (trie_bind ks c n)"
proof (induction ks c n rule: trie_bind.induct)
  case (2 k ks c ch t)
  let ?sub = "trie_bind ks c (case map_of ch k of Some n \<Rightarrow> n | None \<Rightarrow> trie_empty)"
  have "trie_ok (case map_of ch k of Some n \<Rightarrow> n | None \<Rightarrow> trie_empty)"
    using trie_ok_child [OF 2(2), of k] by (auto simp: trie_empty_def trie_ok_node split: option.split)
  then have sub: "trie_ok ?sub \<and> live ?sub"
    using 2(1) live_bind by simp
  show ?case
    unfolding trie_bind.simps
  proof (rule trie_ok.intros)
    fix k' c'
    assume "(k', c') \<in> set (AList.update k ?sub ch)"
    then have "(k', c') = (k, ?sub) \<or> (k', c') \<in> set ch"
      by (rule in_update)
    then show "trie_ok c' \<and> live c'"
      using sub trie_ok_mem [OF 2(2)] by blast
  qed
qed (simp add: trie_ok_node)

lemma trie_ok_at: "trie_ok n \<Longrightarrow> trie_at q n = Some m \<Longrightarrow> trie_ok m \<and> (q \<noteq> [] \<longrightarrow> live m)"
proof (induction q arbitrary: n)
  case (Cons k q)
  then obtain c where c: "map_of (tn_children n) k = Some c" "trie_at q c = Some m"
    by (auto split: option.splits)
  then show ?case
    using Cons.IH [of c] trie_ok_child [OF Cons.prems(1) c(1)] by (cases q) auto
qed simp

lemma live_bound: "trie_ok n \<Longrightarrow> live n \<Longrightarrow> \<exists>ks. trie_get n ks \<noteq> None"
proof (induction n rule: trie_ok.induct)
  case (1 ch t)
  show ?case
  proof (cases ch)
    case Nil
    then show ?thesis
      using "1.prems" by (intro exI [of _ "[]"]) (simp add: live_def trie_get_Nil)
  next
    case (Cons kc ch')
    obtain k c where kc: "kc = (k, c)" by fastforce
    then obtain ks where "trie_get c ks \<noteq> None"
      using 1(1) [of k c] Cons by auto
    then show ?thesis
      using Cons kc by (intro exI [of _ "k # ks"]) (simp add: trie_get_Cons)
  qed
qed

lemma trie_get_append: "trie_get n (q @ ks) = (case trie_at q n of Some m \<Rightarrow> trie_get m ks | None \<Rightarrow> None)"
  by (induction q arbitrary: n) (auto simp: trie_get_Cons split: option.split)

lemma trie_at_append: "trie_at (q @ ks) n = Option.bind (trie_at q n) (trie_at ks)"
  by (induction q arbitrary: n) (auto split: option.split)

lemma children_bound:
  assumes "trie_ok m"
  shows "tn_children m \<noteq> [] \<longleftrightarrow> (\<exists>k ks. trie_get m (k # ks) \<noteq> None)"
proof
  assume "tn_children m \<noteq> []"
  then obtain k c ch' where ch: "tn_children m = (k, c) # ch'"
    by (cases "tn_children m") auto
  then have "trie_ok c \<and> live c"
    using trie_ok_child [OF assms, of k c] by simp
  then obtain ks where "trie_get c ks \<noteq> None"
    using live_bound by blast
  then show "\<exists>k ks. trie_get m (k # ks) \<noteq> None"
    using ch by (intro exI [of _ k] exI [of _ ks]) (simp add: trie_get_Cons)
qed (auto simp: trie_get_Cons)

section \<open>The specification\<close>

text \<open>
  The specification of a keymap is the map of its bindings and the chords typed so far.  A press
  waits while a longer binding may follow, fires the binding it completes, and otherwise passes
  through, or cancels when chords were pending.
\<close>

definition begins_longer :: "(chord list \<rightharpoonup> command) \<Rightarrow> chord list \<Rightarrow> bool" where
  "begins_longer M q \<longleftrightarrow> (\<exists>k ks. M (q @ k # ks) \<noteq> None)"

definition event_chord :: "key_event \<Rightarrow> chord" where
  "event_chord ev = (mods_difference (ke_mods ev) (MOD_CAPS_LOCK OR MOD_NUM_LOCK), ke_key ev)"

definition spec_consume :: "(chord list \<rightharpoonup> command) \<Rightarrow> chord list \<Rightarrow> key_event \<Rightarrow> bytes \<Rightarrow> chord list \<times> keymap_action" where
  "spec_consume M pending ev b =
     (let q = pending @ [event_chord ev]
      in if ke_kind ev = KPress \<and> begins_longer M q then (q, KMPending)
         else if ke_kind ev = KPress \<and> M q \<noteq> None then ([], KMCommand (the (M q)))
         else if pending = [] then ([], KMPassThrough ev b)
         else ([], KMCancel))"

definition keymap_ok :: "keymap \<Rightarrow> bool" where
  "keymap_ok m \<longleftrightarrow> trie_ok (km_root m) \<and> trie_at (km_pending m) (km_root m) \<noteq> None"

lemma spec_consume_step:
  assumes "keymap_ok m"
  shows "keymap_ok (fst (keymap_consume m ev b)) \<and>
    km_root (fst (keymap_consume m ev b)) = km_root m \<and>
    (km_pending (fst (keymap_consume m ev b)), snd (keymap_consume m ev b)) =
      spec_consume (trie_get (km_root m)) (km_pending m) ev b"
proof -
  obtain n where n: "trie_at (km_pending m) (km_root m) = Some n" "trie_ok n"
    using assms trie_ok_at by (auto simp: keymap_ok_def)
  have at: "trie_at (km_pending m @ [k]) (km_root m) = map_of (tn_children n) k" for k
    using n(1) by (auto simp: trie_at_append split: option.split)
  have get: "trie_get (km_root m) (km_pending m @ k # ks) =
      (case map_of (tn_children n) k of Some c \<Rightarrow> trie_get c ks | None \<Rightarrow> None)" for k ks
    using n(1) by (simp add: trie_get_append trie_get_Cons)
  have desc: "keymap_descend m = n"
    using n(1) by (simp add: keymap_descend_def)
  show ?thesis
  proof (cases "map_of (tn_children n) (event_chord ev)")
    case None
    then have "\<not> begins_longer (trie_get (km_root m)) (km_pending m @ [event_chord ev])"
      "trie_get (km_root m) (km_pending m @ [event_chord ev]) = None"
      by (simp_all add: begins_longer_def get)
    then show ?thesis
      using assms n None by (simp add: keymap_consume_def spec_consume_def event_chord_def desc keymap_cancel_def
          keymap_ok_def Let_def)
  next
    case (Some c)
    then have c: "trie_ok c" "live c"
      using trie_ok_child [OF n(2)] by auto
    have longer: "begins_longer (trie_get (km_root m)) (km_pending m @ [event_chord ev]) \<longleftrightarrow> tn_children c \<noteq> []"
      using Some children_bound [OF c(1)] by (simp add: begins_longer_def get)
    have here: "trie_get (km_root m) (km_pending m @ [event_chord ev]) = tn_terminal c"
      using Some by (simp add: get trie_get_Nil)
    have "tn_children c = [] \<Longrightarrow> tn_terminal c \<noteq> None"
      using c(2) by (simp add: live_def)
    then show ?thesis
      using assms n Some longer here at [of "event_chord ev"]
      by (auto simp: keymap_consume_def spec_consume_def event_chord_def [symmetric] desc keymap_cancel_def
          keymap_ok_def Let_def split: option.split)
  qed
qed

text \<open>Both machines keep a log of the actions they returned.\<close>

definition keymap_log_step :: "keymap \<times> keymap_action list \<Rightarrow> key_event \<times> bytes \<Rightarrow> keymap \<times> keymap_action list" where
  "keymap_log_step s e =
     (fst (keymap_consume (fst s) (fst e) (snd e)), snd s @ [snd (keymap_consume (fst s) (fst e) (snd e))])"

definition spec_log_step ::
  "((chord list \<rightharpoonup> command) \<times> chord list) \<times> keymap_action list \<Rightarrow> key_event \<times> bytes \<Rightarrow>
   ((chord list \<rightharpoonup> command) \<times> chord list) \<times> keymap_action list" where
  "spec_log_step s e =
     (let (M, pending) = fst s; r = spec_consume M pending (fst e) (snd e)
      in ((M, fst r), snd s @ [snd r]))"

definition keymap_abs :: "keymap \<times> keymap_action list \<Rightarrow> ((chord list \<rightharpoonup> command) \<times> chord list) \<times> keymap_action list" where
  "keymap_abs s = ((trie_get (km_root (fst s)), km_pending (fst s)), snd s)"

interpretation km: simulation "\<lambda>s. keymap_ok (fst s)" keymap_abs keymap_log_step spec_log_step
proof unfold_locales
  fix s e
  assume ok: "keymap_ok (fst (s :: keymap \<times> keymap_action list))"
  note step = spec_consume_step [OF ok, of "fst e" "snd e"]
  then show "keymap_ok (fst (keymap_log_step s e))"
    by (simp add: keymap_log_step_def)
  show "keymap_abs (keymap_log_step s e) = spec_log_step (keymap_abs s) e"
    using step by (simp add: keymap_log_step_def spec_log_step_def keymap_abs_def Let_def flip: prod.collapse)
      (metis fst_conv snd_conv)
qed

section \<open>Keymaps built from bindings\<close>

definition bind_all :: "(chord list \<times> command) list \<Rightarrow> keymap \<Rightarrow> keymap" where
  "bind_all bs m = foldl (\<lambda>m (ks, c). keymap_bind ks c m) m bs"

lemma bind_all_simps [simp]:
  "bind_all [] m = m" "bind_all (b # bs) m = bind_all bs (keymap_bind (fst b) (snd b) m)"
  by (simp_all add: bind_all_def case_prod_beta)

lemma bind_all_get: "trie_get (km_root (bind_all bs m)) = trie_get (km_root m) ++ map_of (rev bs)"
proof (induction bs arbitrary: m)
  case (Cons b bs)
  then show ?case
    by (simp add: keymap_bind_def trie_get_bind map_add_upd_left fun_eq_iff map_add_def split: option.split)
qed simp

lemma bind_all_ok: "trie_ok (km_root m) \<Longrightarrow> km_pending m = [] \<Longrightarrow>
   trie_ok (km_root (bind_all bs m)) \<and> km_pending (bind_all bs m) = []"
  by (induction bs arbitrary: m) (simp_all add: keymap_bind_def trie_ok_bind)

lemma keymap_new_ok: "trie_ok (km_root keymap_new)" "km_pending keymap_new = []"
  by (simp_all add: keymap_new_def trie_empty_def trie_ok_node)

text \<open>The bindings of a list that parse, in order.\<close>

fun good_bindings :: "(rstr \<Rightarrow> rstr) \<Rightarrow> chord \<Rightarrow> keymap_binding list \<Rightarrow> (chord list \<times> command) list" where
  "good_bindings lower prefix [] = []"
| "good_bindings lower prefix (b # bs) =
     (case (parse_chord_seq_with_prefix lower (kb_keys b) prefix, parse_bound_command (kb_command b)) of
        (Inr chords, Inr c) \<Rightarrow> (chords, c) # good_bindings lower prefix bs
      | _ \<Rightarrow> good_bindings lower prefix bs)"

lemma apply_bindings_eq:
  "fst (apply_bindings lower prefix bs (km, skipped)) = bind_all (good_bindings lower prefix bs) km \<and>
   length (snd (apply_bindings lower prefix bs (km, skipped))) + length (good_bindings lower prefix bs) =
     length skipped + length bs"
  by (induction bs arbitrary: km skipped) (auto split: sum.split prod.split)

lemma bind_all_append: "bind_all (xs @ ys) m = bind_all ys (bind_all xs m)"
  by (induction xs arbitrary: m) simp_all

lemma build_keymap_eq:
  "fst (build_keymap_with_skips lower cfg) =
     bind_all ((if kc_inherit_defaults cfg
                then good_bindings lower (resolve_prefix lower (kc_prefix cfg)) (kc_bindings built_in_keymap) else []) @
               good_bindings lower (resolve_prefix lower (kc_prefix cfg)) (kc_bindings cfg)) keymap_new"
  by (simp add: build_keymap_with_skips_def Let_def apply_bindings_eq bind_all_append)

end
