(* ===== verification/Paste_Parser.thy ===== *)
theory Paste_Parser
  imports Keys
begin

text \<open>
  The bracketed-paste parser, after \<open>crates/keys/src/paste.rs\<close>: the content between
  \<open>ESC [ 200 ~\<close> and \<open>ESC [ 201 ~\<close> becomes one paste, capped; everything else passes through.
\<close>

datatype paste_output =
    PastePending
  | Paste bytes
  | NotPaste bytes

datatype paste_state =
    PsIdle | PsSawEsc | PsSawBracket | PsSawTwo | PsSawTwoZero | PsSawTwoZeroZero
  | PsContent | PsInEsc | PsInBracket | PsInTwo | PsInTwoZero | PsInTwoZeroOne

definition PASTE_DEFAULT_MAX_BYTES :: nat where
  "PASTE_DEFAULT_MAX_BYTES = 4 * 1024 * 1024"

record paste_parser =
  pp_state :: paste_state
  pp_held :: bytes
  pp_buffer :: bytes
  pp_max_bytes :: nat
  pp_truncated :: bool

definition pp_with_cap :: "nat \<Rightarrow> paste_parser" where
  "pp_with_cap cap = \<lparr>pp_state = PsIdle, pp_held = [], pp_buffer = [], pp_max_bytes = cap, pp_truncated = False\<rparr>"

definition pp_new :: paste_parser where
  "pp_new = pp_with_cap PASTE_DEFAULT_MAX_BYTES"

definition pp_push_content :: "char \<Rightarrow> paste_parser \<Rightarrow> paste_parser" where
  "pp_push_content b s =
     (if length (pp_buffer s) < pp_max_bytes s then s\<lparr>pp_buffer := pp_buffer s @ [b]\<rparr>
      else if \<not> pp_truncated s then s\<lparr>pp_truncated := True\<rparr> else s)"

definition pp_flush_held_into_buffer :: "paste_parser \<Rightarrow> paste_parser" where
  "pp_flush_held_into_buffer s = foldl (\<lambda>s b. pp_push_content b s) (s\<lparr>pp_held := []\<rparr>) (pp_held s)"

definition pp_bail_open :: "char \<Rightarrow> paste_parser \<Rightarrow> paste_parser \<times> paste_output" where
  "pp_bail_open b s = (s\<lparr>pp_held := [], pp_state := PsIdle\<rparr>, NotPaste (pp_held s @ [b]))"

definition pp_advance_open :: "char \<Rightarrow> char \<Rightarrow> paste_state \<Rightarrow> paste_parser \<Rightarrow> paste_parser \<times> paste_output" where
  "pp_advance_open b expected nx s =
     (if b = expected then (s\<lparr>pp_held := pp_held s @ [b], pp_state := nx\<rparr>, PastePending)
      else pp_bail_open b s)"

definition pp_advance_close :: "char \<Rightarrow> char \<Rightarrow> paste_state \<Rightarrow> paste_parser \<Rightarrow> paste_parser \<times> paste_output" where
  "pp_advance_close b expected nx s =
     (if b = expected then (s\<lparr>pp_held := pp_held s @ [b], pp_state := nx\<rparr>, PastePending)
      else ((pp_push_content b (pp_flush_held_into_buffer s))\<lparr>pp_state := PsContent\<rparr>, PastePending))"

definition pp_consume :: "paste_parser \<Rightarrow> char \<Rightarrow> paste_parser \<times> paste_output" where
  "pp_consume s b =
     (case pp_state s of
        PsIdle \<Rightarrow>
          if b = CHR 0x1B then (s\<lparr>pp_held := pp_held s @ [b], pp_state := PsSawEsc\<rparr>, PastePending)
          else (s, NotPaste [b])
      | PsSawEsc \<Rightarrow> pp_advance_open b (CHR ''['') PsSawBracket s
      | PsSawBracket \<Rightarrow> pp_advance_open b (CHR ''2'') PsSawTwo s
      | PsSawTwo \<Rightarrow> pp_advance_open b (CHR ''0'') PsSawTwoZero s
      | PsSawTwoZero \<Rightarrow> pp_advance_open b (CHR ''0'') PsSawTwoZeroZero s
      | PsSawTwoZeroZero \<Rightarrow>
          if b = CHR ''~'' then
            (s\<lparr>pp_held := [], pp_buffer := [], pp_truncated := False, pp_state := PsContent\<rparr>, PastePending)
          else pp_bail_open b s
      | PsContent \<Rightarrow>
          if b = CHR 0x1B then (s\<lparr>pp_held := pp_held s @ [b], pp_state := PsInEsc\<rparr>, PastePending)
          else (pp_push_content b s, PastePending)
      | PsInEsc \<Rightarrow> pp_advance_close b (CHR ''['') PsInBracket s
      | PsInBracket \<Rightarrow> pp_advance_close b (CHR ''2'') PsInTwo s
      | PsInTwo \<Rightarrow> pp_advance_close b (CHR ''0'') PsInTwoZero s
      | PsInTwoZero \<Rightarrow> pp_advance_close b (CHR ''1'') PsInTwoZeroOne s
      | PsInTwoZeroOne \<Rightarrow>
          if b = CHR ''~'' then
            (s\<lparr>pp_held := [], pp_buffer := [], pp_state := PsIdle, pp_truncated := False\<rparr>, Paste (pp_buffer s))
          else
            ((pp_push_content b (pp_flush_held_into_buffer s))\<lparr>pp_state := PsContent\<rparr>, PastePending))"

definition pp_is_pending_open :: "paste_parser \<Rightarrow> bool" where
  "pp_is_pending_open s \<longleftrightarrow>
     pp_state s \<in> {PsSawEsc, PsSawBracket, PsSawTwo, PsSawTwoZero, PsSawTwoZeroZero}"

definition pp_flush_open :: "paste_parser \<Rightarrow> paste_parser \<times> paste_output option" where
  "pp_flush_open s =
     (if \<not> pp_is_pending_open s then (s, None)
      else (s\<lparr>pp_held := [], pp_state := PsIdle\<rparr>, Some (NotPaste (pp_held s))))"

fun pp_feed :: "paste_parser \<Rightarrow> bytes \<Rightarrow> paste_parser \<times> paste_output list" where
  "pp_feed s [] = (s, [])"
| "pp_feed s (b # bs) =
     (let (s', out) = pp_consume s b;
          (s'', outs) = pp_feed s' bs
      in (s'', if out = PastePending then outs else out # outs))"

section \<open>What the parser holds\<close>

text \<open>The bytes held are the prefix of the opener or of the closer that the state stands for.\<close>

definition opener :: bytes where "opener = CHR 0x1B # ''[200~''"
definition closer :: bytes where "closer = CHR 0x1B # ''[201~''"

fun held_of :: "paste_state \<Rightarrow> bytes" where
  "held_of PsIdle = []"
| "held_of PsSawEsc = take 1 opener"
| "held_of PsSawBracket = take 2 opener"
| "held_of PsSawTwo = take 3 opener"
| "held_of PsSawTwoZero = take 4 opener"
| "held_of PsSawTwoZeroZero = take 5 opener"
| "held_of PsContent = []"
| "held_of PsInEsc = take 1 closer"
| "held_of PsInBracket = take 2 closer"
| "held_of PsInTwo = take 3 closer"
| "held_of PsInTwoZero = take 4 closer"
| "held_of PsInTwoZeroOne = take 5 closer"

fun in_content :: "paste_state \<Rightarrow> bool" where
  "in_content PsContent = True" | "in_content PsInEsc = True" | "in_content PsInBracket = True"
| "in_content PsInTwo = True" | "in_content PsInTwoZero = True" | "in_content PsInTwoZeroOne = True"
| "in_content _ = False"

definition paste_inv :: "paste_parser \<Rightarrow> bool" where
  "paste_inv s \<longleftrightarrow> pp_held s = held_of (pp_state s) \<and> length (pp_buffer s) \<le> pp_max_bytes s \<and>
     (\<not> in_content (pp_state s) \<longrightarrow> pp_buffer s = [] \<and> \<not> pp_truncated s)"

text \<open>The input bytes an output, and a state, stand for.\<close>

definition paste_output_bytes :: "paste_output \<Rightarrow> bytes" where
  "paste_output_bytes out =
     (case out of PastePending \<Rightarrow> [] | Paste p \<Rightarrow> opener @ p @ closer | NotPaste p \<Rightarrow> p)"

definition paste_state_bytes :: "paste_parser \<Rightarrow> bytes" where
  "paste_state_bytes s =
     (if in_content (pp_state s) then opener @ pp_buffer s @ pp_held s else pp_held s)"

lemma push_content_simps [simp]:
  "pp_max_bytes (pp_push_content b s) = pp_max_bytes s" "pp_held (pp_push_content b s) = pp_held s"
  "pp_state (pp_push_content b s) = pp_state s"
  "length (pp_buffer s) \<le> pp_max_bytes s \<Longrightarrow> length (pp_buffer (pp_push_content b s)) \<le> pp_max_bytes s"
  by (simp_all add: pp_push_content_def)

lemma push_content_buffer:
  "length (pp_buffer s) \<le> pp_max_bytes s \<Longrightarrow> pp_buffer (pp_push_content b s) = take (pp_max_bytes s) (pp_buffer s @ [b])"
  by (simp add: pp_push_content_def)

lemma push_contents:
  "length (pp_buffer s) \<le> pp_max_bytes s \<Longrightarrow>
   pp_buffer (foldl (\<lambda>s b. pp_push_content b s) s bs) = take (pp_max_bytes s) (pp_buffer s @ bs) \<and>
   pp_max_bytes (foldl (\<lambda>s b. pp_push_content b s) s bs) = pp_max_bytes s \<and>
   pp_held (foldl (\<lambda>s b. pp_push_content b s) s bs) = pp_held s \<and>
   pp_state (foldl (\<lambda>s b. pp_push_content b s) s bs) = pp_state s"
proof (induction bs arbitrary: s)
  case (Cons b bs)
  then show ?case
    using Cons.IH [of "pp_push_content b s"]
    by (cases "length (pp_buffer s) < pp_max_bytes s") (simp_all add: push_content_buffer)
qed simp

text \<open>What is not the closer after all goes into the buffer.\<close>

definition pp_content :: "bytes \<Rightarrow> paste_parser \<Rightarrow> paste_parser" where
  "pp_content bs s = foldl (\<lambda>s b. pp_push_content b s) s bs"

lemma flush_then_push:
  "pp_push_content b (pp_flush_held_into_buffer s) = pp_content (pp_held s @ [b]) (s\<lparr>pp_held := []\<rparr>)"
  by (simp add: pp_content_def pp_flush_held_into_buffer_def)

lemma pp_content_fields:
  "length (pp_buffer s) \<le> pp_max_bytes s \<Longrightarrow>
   pp_buffer (pp_content bs s) = take (pp_max_bytes s) (pp_buffer s @ bs)"
  "length (pp_buffer s) \<le> pp_max_bytes s \<Longrightarrow> pp_max_bytes (pp_content bs s) = pp_max_bytes s"
  "length (pp_buffer s) \<le> pp_max_bytes s \<Longrightarrow> pp_held (pp_content bs s) = pp_held s"
  "length (pp_buffer s) \<le> pp_max_bytes s \<Longrightarrow> pp_state (pp_content bs s) = pp_state s"
  using push_contents [of s bs] by (auto simp: pp_content_def)

lemma pp_consume_step:
  assumes "paste_inv s" "length (paste_state_bytes s) < pp_max_bytes s"
  shows "paste_inv (fst (pp_consume s b)) \<and> pp_max_bytes (fst (pp_consume s b)) = pp_max_bytes s \<and>
         paste_output_bytes (snd (pp_consume s b)) @ paste_state_bytes (fst (pp_consume s b)) = paste_state_bytes s @ [b]"
  using assms
  by (cases "pp_state s")
    (auto simp: pp_consume_def pp_advance_open_def pp_advance_close_def pp_bail_open_def paste_inv_def
      flush_then_push push_content_buffer pp_content_fields paste_output_bytes_def paste_state_bytes_def
      opener_def closer_def)

end
