(* ===== verification/Keymap_Props.thy ===== *)
theory Keymap_Props
  imports Keymap_Facts Paste_Parser
begin

text \<open>
  Properties of the keymap and of the bracketed-paste parser.
\<close>

section \<open>Keymap\<close>

text \<open>
  C6: the compiled keymap refines its bindings.  For a keymap built from any configuration, and any
  sequence of key events, the actions returned are those of the specification machine over the map
  of the valid bindings in which later bindings win: it waits exactly while a longer binding may
  follow, fires exactly the binding the chords complete, and otherwise passes the key through or
  cancels.
\<close>

theorem keymap_refines_bindings:
  fixes cfg :: keymap_config and lower :: "rstr \<Rightarrow> rstr"
  defines "prefix \<equiv> resolve_prefix lower (kc_prefix cfg)"
  defines "bs \<equiv> (if kc_inherit_defaults cfg then good_bindings lower prefix (kc_bindings built_in_keymap) else []) @
                 good_bindings lower prefix (kc_bindings cfg)"
  shows "snd (foldl keymap_log_step (build_keymap lower cfg, []) evs) =
         snd (foldl spec_log_step ((map_of (rev bs), []), []) evs)"
proof -
  let ?m = "build_keymap lower cfg"
  have m: "?m = bind_all bs keymap_new"
    by (simp add: build_keymap_def build_keymap_eq bs_def prefix_def)
  have "keymap_ok ?m"
    using bind_all_ok [OF keymap_new_ok, of bs] by (simp add: m keymap_ok_def)
  then have "keymap_abs (foldl keymap_log_step (?m, []) evs) = foldl spec_log_step (keymap_abs (?m, [])) evs"
    by (intro km.run_refines) simp
  moreover have "keymap_abs (?m, []) = ((map_of (rev bs), []), [])"
    using bind_all_ok [OF keymap_new_ok, of bs] bind_all_get [of bs keymap_new]
    by (simp add: keymap_abs_def m) (simp add: keymap_new_def)
  ultimately show ?thesis
    by (metis keymap_abs_def snd_conv)
qed

text \<open>\<open>str::to_lowercase\<close> on ASCII text.\<close>

definition lowers_ascii :: "(rstr \<Rightarrow> rstr) \<Rightarrow> bool" where
  "lowers_ascii lower \<longleftrightarrow> (\<forall>s. list_all (\<lambda>c. c < 128) s \<longrightarrow> lower s = ascii_lower s)"

lemma lowers_asciiD: "lowers_ascii lower \<Longrightarrow> list_all (\<lambda>c. c < 128) s \<Longrightarrow> lower s = ascii_lower s"
  by (simp add: lowers_ascii_def)

text \<open>A binding whose strings both parse, with any prefix chord.\<close>

definition valid_binding :: "(rstr \<Rightarrow> rstr) \<Rightarrow> chord \<Rightarrow> keymap_binding \<Rightarrow> bool" where
  "valid_binding lower prefix b \<longleftrightarrow>
     (\<exists>chords c. parse_chord_seq_with_prefix lower (kb_keys b) prefix = Inr chords \<and> parse_bound_command (kb_command b) = Inr c)"

lemmas parse_simps = parse_chord_seq_with_prefix_def parse_chord_seq_impl_def trim_def is_whitespace_def
  split_whitespace_def ascii_lower_def parse_chord_def parse_named_key_def named_keys_def
  strip_suffix_def Let_def parse_unsigned_def parse_digits_def is_digit_def digits_val_def digit_val_def
  utf8_encode_def utf8_char_def char_of_eq_iff parse_bound_command_def plain_commands_def alias_meta_as_alt_def

text \<open>A command name of lower-case letters and underscores is looked up as it is.\<close>

definition name_char :: "nat \<Rightarrow> bool" where
  "name_char c \<longleftrightarrow> (97 \<le> c \<and> c \<le> 122) \<or> c = 95"

lemma name_char_plain: "name_char c \<Longrightarrow> \<not> is_whitespace c \<and> c \<noteq> 58"
  by (auto simp: name_char_def is_whitespace_def)

lemma trim_id: "list_all (\<lambda>c. \<not> is_whitespace c) s \<Longrightarrow> trim s = s"
proof -
  assume a: "list_all (\<lambda>c. \<not> is_whitespace c) s"
  have d: "list_all (\<lambda>c. \<not> is_whitespace c) xs \<Longrightarrow> dropWhile is_whitespace xs = xs" for xs
    by (cases xs) simp_all
  show ?thesis
    using d [OF a] d [of "rev s"] a by (simp add: trim_def list_all_iff)
qed

lemma split_once_absent: "sep \<notin> set s \<Longrightarrow> split_once sep s = None"
  by (induction s) auto

definition command_ok :: "rstr \<Rightarrow> bool" where
  "command_ok s \<longleftrightarrow> (\<exists>c. parse_bound_command s = Inr c)"

definition command_names :: "rstr list" where
  "command_names = map fst plain_commands"

lemma plain_command_ok:
  assumes "list_all name_char s" "s \<in> set command_names"
  shows "command_ok s"
proof -
  have "trim s = s" "58 \<notin> set s"
    using assms(1) trim_id [of s] name_char_plain by (auto simp: list_all_iff)
  moreover obtain c where "map_of plain_commands s = Some c"
    using assms(2) unfolding command_names_def by (metis list.set_map map_of_eq_None_iff not_None_eq)
  ultimately show ?thesis
    by (simp add: command_ok_def parse_bound_command_def split_once_absent)
qed

lemma name_char_lit: "list_all name_char (lit s) \<longleftrightarrow> list_all (\<lambda>c. name_char (of_char c)) s"
  by (simp add: lit_def list_all_iff)

lemma select_window_ok:
  assumes "48 \<le> (of_char d :: nat)" "(of_char d :: nat) \<le> 57"
  shows "command_ok (lit [CHR ''s'', CHR ''e'', CHR ''l'', CHR ''e'', CHR ''c'', CHR ''t'', CHR ''_'',
     CHR ''w'', CHR ''i'', CHR ''n'', CHR ''d'', CHR ''o'', CHR ''w'', CHR '':'', d])"
  using assms by (auto simp: command_ok_def parse_simps take_bit_eq_mod)

lemma popup_ok: "command_ok (lit ''popup'')"
  by (simp add: command_ok_def parse_simps)

text \<open>The chord strings: the prefix and one character, or one of six others.\<close>

definition keys_ok :: "(rstr \<Rightarrow> rstr) \<Rightarrow> chord \<Rightarrow> rstr \<Rightarrow> bool" where
  "keys_ok lower p s \<longleftrightarrow> (\<exists>chords. parse_chord_seq_with_prefix lower s p = Inr chords)"

lemma prefix_char_ok:
  assumes "lowers_ascii lower" "33 \<le> (of_char x :: nat)" "(of_char x :: nat) \<le> 126" "(of_char x :: nat) \<noteq> 43"
  shows "keys_ok lower p (lit [CHR ''p'', CHR ''r'', CHR ''e'', CHR ''f'', CHR ''i'', CHR ''x'', CHR '' '', x])"
  using assms by (simp add: keys_ok_def parse_simps lowers_asciiD)

lemma other_keys_ok:
  assumes "lowers_ascii lower"
  shows "keys_ok lower p (lit ''prefix Tab'')" "keys_ok lower p (lit ''prefix Space'')"
    "keys_ok lower p (lit ''Alt+Left'')" "keys_ok lower p (lit ''Alt+Down'')"
    "keys_ok lower p (lit ''Alt+Up'')" "keys_ok lower p (lit ''Alt+Right'')"
  using assms by (simp_all add: keys_ok_def parse_simps lowers_asciiD)

lemma built_in_ok:
  assumes "lowers_ascii lower"
  shows "list_all (\<lambda>b. keys_ok lower p (kb_keys b)) (kc_bindings built_in_keymap)"
  using prefix_char_ok [OF assms] other_keys_ok [OF assms]
  by (simp add: built_in_keymap_def binding_def del: lit_Cons lit_Nil)

lemma built_in_commands_ok: "list_all (\<lambda>b. command_ok (kb_command b)) (kc_bindings built_in_keymap)"
  by (simp add: built_in_keymap_def binding_def select_window_ok popup_ok plain_command_ok name_char_lit
      name_char_def command_names_def plain_commands_def del: lit_Cons lit_Nil)

lemma good_bindings_all:
  "list_all (\<lambda>b. keys_ok lower p (kb_keys b)) bs \<Longrightarrow> list_all (\<lambda>b. command_ok (kb_command b)) bs \<Longrightarrow>
   length (good_bindings lower p bs) = length bs"
  by (induction bs) (auto simp: keys_ok_def command_ok_def)

text \<open>
  the built-in keymap is valid.  Every one of its bindings parses, with any prefix chord, so
  building a keymap from it skips none - what the code relies on when it discards the list of
  skipped defaults.
\<close>

theorem built_in_keymap_valid:
  assumes "lowers_ascii lower"
  shows "snd (apply_bindings lower prefix (kc_bindings built_in_keymap) (km, [])) = []"
  using apply_bindings_eq [of lower prefix "kc_bindings built_in_keymap" km "[]"]
    good_bindings_all [OF built_in_ok [OF assms] built_in_commands_ok, of prefix] by simp

theorem built_in_keymap_valid_witness:
  "snd (apply_bindings ascii_lower (MOD_CTRL, KChar 98) (kc_bindings built_in_keymap) (keymap_new, [])) = []"
  by (rule built_in_keymap_valid) (simp add: lowers_ascii_def)

section \<open>Bracketed paste\<close>

lemma pp_feed_lossless:
  "paste_inv s \<Longrightarrow> length (paste_state_bytes s) + length bs \<le> pp_max_bytes s \<Longrightarrow>
   concat (map paste_output_bytes (snd (pp_feed s bs))) @ paste_state_bytes (fst (pp_feed s bs)) =
   paste_state_bytes s @ bs"
proof (induction bs arbitrary: s)
  case (Cons b bs)
  obtain s' out where c: "pp_consume s b = (s', out)" by fastforce
  have step: "paste_inv s'" "pp_max_bytes s' = pp_max_bytes s"
    "paste_output_bytes out @ paste_state_bytes s' = paste_state_bytes s @ [b]"
    using pp_consume_step [OF Cons.prems(1), of b] Cons.prems(2) c by simp_all
  have "length (paste_output_bytes out @ paste_state_bytes s') = length (paste_state_bytes s @ [b])"
    using step(3) by simp
  then have "length (paste_state_bytes s') + length bs \<le> pp_max_bytes s'"
    using Cons.prems(2) step(2) by simp
  then have "concat (map paste_output_bytes (snd (pp_feed s' bs))) @ paste_state_bytes (fst (pp_feed s' bs)) =
      paste_state_bytes s' @ bs"
    using Cons.IH [OF step(1)] by simp
  moreover have "paste_output_bytes out @ paste_state_bytes s' @ bs = paste_state_bytes s @ b # bs"
    using step(3) by (metis append.assoc append_Cons append_Nil)
  moreover have "out = PastePending \<Longrightarrow> paste_output_bytes out = []"
    by (simp add: paste_output_bytes_def)
  ultimately show ?case
    using c by (auto simp: case_prod_beta Let_def)
qed simp

text \<open>
  the paste parser is transparent.  For any input shorter than the cap, the outputs in order -
  a paste written with its opener and closer, other bytes as they are - followed by what is still
  held are exactly the input: no byte is lost, duplicated or reordered, whatever the mixture of
  pastes, broken openers and escapes inside a paste.
\<close>

theorem paste_parser_transparent:
  assumes "length bs \<le> cap"
  shows "concat (map paste_output_bytes (snd (pp_feed (pp_with_cap cap) bs))) @
         paste_state_bytes (fst (pp_feed (pp_with_cap cap) bs)) = bs"
  using pp_feed_lossless [of "pp_with_cap cap" bs] assms
  by (simp add: paste_inv_def pp_with_cap_def paste_state_bytes_def)

theorem paste_parser_transparent_witness:
  "concat (map paste_output_bytes (snd (pp_feed (pp_with_cap 40) (''a'' @ opener @ ''b'' @ closer @ [CHR 0x1B, CHR ''['']))))
     @ paste_state_bytes (fst (pp_feed (pp_with_cap 40) (''a'' @ opener @ ''b'' @ closer @ [CHR 0x1B, CHR ''['']))) =
   ''a'' @ opener @ ''b'' @ closer @ [CHR 0x1B, CHR ''['']"
  by (rule paste_parser_transparent) (simp add: opener_def closer_def)

lemma pp_feed_append:
  "pp_feed s (xs @ ys) = (let (s', o1) = pp_feed s xs; (s'', o2) = pp_feed s' ys in (s'', o1 @ o2))"
  by (induction xs arbitrary: s) (auto simp: Let_def split: prod.splits)

lemma pp_feed_content:
  "CHR 0x1B \<notin> set p \<Longrightarrow> pp_state s = PsContent \<Longrightarrow> pp_feed s p = (pp_content p s, [])"
proof (induction p arbitrary: s)
  case (Cons b p)
  then show ?case
    by (auto simp: pp_consume_def pp_content_def)
qed (simp add: pp_content_def)

lemma pp_feed_opener: "pp_feed (pp_with_cap cap) opener = ((pp_with_cap cap)\<lparr>pp_state := PsContent\<rparr>, [])"
  by (simp add: opener_def pp_consume_def pp_advance_open_def pp_with_cap_def)

text \<open>
  a paste arrives whole, up to the cap.  Content without an escape byte, wrapped in the opener
  and the closer, is one paste of its first \<open>cap\<close> bytes, and the parser is as it was before.
\<close>

theorem paste_round_trip:
  assumes "CHR 0x1B \<notin> set p"
  shows "pp_feed (pp_with_cap cap) (opener @ p @ closer) = (pp_with_cap cap, [Paste (take cap p)])"
proof -
  define s where "s = (pp_with_cap cap)\<lparr>pp_state := PsContent\<rparr>"
  note op = pp_feed_opener [of cap, folded s_def]
  have s: "pp_state s = PsContent" "pp_buffer s = []" "pp_max_bytes s = cap" "pp_held s = []"
    by (simp_all add: s_def pp_with_cap_def)
  note c = pp_content_fields [of s p]
  have "pp_feed (pp_content p s) closer = ((pp_content p s)\<lparr>pp_held := [], pp_buffer := [], pp_state := PsIdle, pp_truncated := False\<rparr>,
      [Paste (take cap p)])"
    using c s by (simp add: closer_def pp_consume_def pp_advance_close_def)
  moreover have "(pp_content p s)\<lparr>pp_held := [], pp_buffer := [], pp_state := PsIdle, pp_truncated := False\<rparr> = pp_with_cap cap"
    using c(2) s by (intro paste_parser.equality) (simp_all add: pp_with_cap_def)
  ultimately show ?thesis
    using op pp_feed_content [OF assms s(1)] by (simp add: pp_feed_append del: pp_feed.simps)
qed

theorem paste_round_trip_witness:
  "pp_feed (pp_with_cap 3) (opener @ ''hello'' @ closer) = (pp_with_cap 3, [Paste (take 3 ''hello'')])"
  by (rule paste_round_trip) simp

text \<open>
  content that ends in an escape byte hides the closer.  The escape is held as the possible
  start of a closer; the closer's own escape does not match and is taken for content together with
  the held one, and the rest of the closer after it: no paste comes out and the parser goes on
  collecting what is typed next.
\<close>

theorem paste_ending_in_escape_never_closes:
  assumes "CHR 0x1B \<notin> set p"
  shows "snd (pp_feed (pp_with_cap cap) (opener @ p @ [CHR 0x1B] @ closer)) = [] \<and>
         pp_state (fst (pp_feed (pp_with_cap cap) (opener @ p @ [CHR 0x1B] @ closer))) = PsContent"
proof -
  define s where "s = (pp_with_cap cap)\<lparr>pp_state := PsContent\<rparr>"
  have s: "pp_state s = PsContent" "length (pp_buffer s) \<le> pp_max_bytes s"
    by (simp_all add: s_def pp_with_cap_def)
  define t where "t = pp_content p s"
  have t: "pp_state t = PsContent"
    using pp_content_fields [of s p] s by (simp add: t_def)
  have "pp_state (pp_push_content b u) = pp_state u" for b u
    by (simp add: pp_push_content_def)
  then have "snd (pp_feed t ([CHR 0x1B] @ closer)) = [] \<and> pp_state (fst (pp_feed t ([CHR 0x1B] @ closer))) = PsContent"
    using t by (simp add: closer_def pp_consume_def pp_advance_close_def Let_def)
  then show ?thesis
    using pp_feed_opener [of cap] pp_feed_content [OF assms s(1)]
    by (simp add: pp_feed_append s_def [symmetric] t_def [symmetric] case_prod_beta Let_def del: pp_feed.simps)
qed

theorem paste_ending_in_escape_never_closes_witness:
  "snd (pp_feed (pp_with_cap 30) (opener @ ''ab'' @ [CHR 0x1B] @ closer)) = [] \<and>
   pp_state (fst (pp_feed (pp_with_cap 30) (opener @ ''ab'' @ [CHR 0x1B] @ closer))) = PsContent"
  by (rule paste_ending_in_escape_never_closes) simp

end
