(* ===== verification/Mouse.thy ===== *)
theory Mouse
  imports Keys
begin

text \<open>
  The mouse, after \<open>crates/mux/src/mouse.rs\<close>: the parser of the SGR mouse reports of the outer
  terminal, and the encoder that forwards an event to a child in the encoding the child asked for.
\<close>

datatype mouse_button = MBLeft | MBMiddle | MBRight | MBNone

record mouse_modifiers =
  mm_shift :: bool
  mm_alt :: bool
  mm_ctrl :: bool

datatype wheel_axis = AxisVertical | AxisHorizontal

datatype mouse_kind = MKPress | MKRelease | MKMove | MKWheel int wheel_axis

record mouse_event =
  me_kind :: mouse_kind
  me_button :: mouse_button
  me_modifiers :: mouse_modifiers
  me_row :: nat
  me_col :: nat

datatype mouse_encoding = EncX10 | EncButtonEvent | EncAnyEvent | EncSgr

datatype mouse_action =
    MAPending
  | MAEvent mouse_event
  | MAOther char
  | MABailed bytes

datatype mouse_state = MSIdle | MSSawEsc | MSSawBracket | MSSawLt | MSAccum nat

record mouse_parser =
  mp_state :: mouse_state
  mp_params :: "nat list"
  mp_held :: bytes

definition mp_new :: mouse_parser where
  "mp_new = \<lparr>mp_state = MSIdle, mp_params = [0, 0, 0], mp_held = []\<rparr>"

definition mp_reset_state :: "mouse_parser \<Rightarrow> mouse_parser" where
  "mp_reset_state s = s\<lparr>mp_state := MSIdle, mp_params := [0, 0, 0]\<rparr>"

definition mp_bail_already_pushed :: "mouse_parser \<Rightarrow> mouse_parser \<times> mouse_action" where
  "mp_bail_already_pushed s = (mp_reset_state (s\<lparr>mp_held := []\<rparr>), MABailed (mp_held s))"

definition mp_bail_with_byte :: "char \<Rightarrow> mouse_parser \<Rightarrow> mouse_parser \<times> mouse_action" where
  "mp_bail_with_byte b s = mp_bail_already_pushed (s\<lparr>mp_held := mp_held s @ [b]\<rparr>)"

unbundle bit_operations_syntax

definition build_event :: "nat list \<Rightarrow> bool \<Rightarrow> mouse_event" where
  "build_event params is_press =
     (let raw = params ! 0;
          c = min (params ! 1 - 1) u16_max;
          r = min (params ! 2 - 1) u16_max;
          modifiers = \<lparr>mm_shift = raw AND 4 \<noteq> 0, mm_alt = raw AND 8 \<noteq> 0, mm_ctrl = raw AND 16 \<noteq> 0\<rparr>;
          motion = raw AND 32 \<noteq> 0;
          wheel = raw AND 64 \<noteq> 0;
          buttons = raw AND 3;
          button = (if wheel then MBNone
                    else if buttons = 0 then MBLeft else if buttons = 1 then MBMiddle
                    else if buttons = 2 then MBRight else MBNone);
          kind = (if wheel then
                    MKWheel (if buttons AND 1 = 0 then 3 else -3)
                      (if buttons AND 2 \<noteq> 0 then AxisHorizontal else AxisVertical)
                  else if motion then MKMove
                  else if is_press then MKPress else MKRelease)
      in \<lparr>me_kind = kind, me_button = button, me_modifiers = modifiers, me_row = r, me_col = c\<rparr>)"

definition accum_param :: "char \<Rightarrow> nat \<Rightarrow> mouse_parser \<Rightarrow> mouse_parser \<times> mouse_action" where
  "accum_param b idx s =
     (if is_digit b then
        (s\<lparr>mp_params := (mp_params s)[idx := sadd32 (smul32 (mp_params s ! idx) 10) (digit_val b)]\<rparr>, MAPending)
      else if b = CHR '';'' then
        (if idx \<ge> 2 then mp_bail_already_pushed s else (s\<lparr>mp_state := MSAccum (idx + 1)\<rparr>, MAPending))
      else if b = CHR ''M'' \<or> b = CHR ''m'' then
        ((mp_reset_state s)\<lparr>mp_held := []\<rparr>, MAEvent (build_event (mp_params s) (b = CHR ''M'')))
      else mp_bail_already_pushed s)"

definition mp_consume :: "mouse_parser \<Rightarrow> char \<Rightarrow> mouse_parser \<times> mouse_action" where
  "mp_consume s b =
     (case mp_state s of
        MSIdle \<Rightarrow>
          if b = CHR 0x1B then (s\<lparr>mp_held := mp_held s @ [b], mp_state := MSSawEsc\<rparr>, MAPending)
          else (s, MAOther b)
      | MSSawEsc \<Rightarrow>
          if b = CHR ''['' then (s\<lparr>mp_held := mp_held s @ [b], mp_state := MSSawBracket\<rparr>, MAPending)
          else mp_bail_with_byte b s
      | MSSawBracket \<Rightarrow>
          if b = CHR ''<'' then (s\<lparr>mp_held := mp_held s @ [b], mp_state := MSSawLt\<rparr>, MAPending)
          else mp_bail_with_byte b s
      | MSSawLt \<Rightarrow> accum_param b 0 (s\<lparr>mp_held := mp_held s @ [b], mp_state := MSAccum 0\<rparr>)
      | MSAccum idx \<Rightarrow> accum_param b idx (s\<lparr>mp_held := mp_held s @ [b]\<rparr>))"

definition mp_is_mid_sequence :: "mouse_parser \<Rightarrow> bool" where
  "mp_is_mid_sequence s \<longleftrightarrow> mp_state s \<noteq> MSIdle"

definition mp_flush :: "mouse_parser \<Rightarrow> mouse_parser \<times> bytes" where
  "mp_flush s = (mp_reset_state (s\<lparr>mp_held := []\<rparr>), mp_held s)"

section \<open>Forwarding to a child\<close>

definition button_code_low :: "nat \<Rightarrow> nat" where
  "button_code_low cb = min cb 223"

definition legacy_mouse_byte :: "nat \<Rightarrow> char" where
  "legacy_mouse_byte v = char_of (min (sadd32 v 32) 255)"

definition mouse_button_code :: "mouse_event \<Rightarrow> nat" where
  "mouse_button_code ev =
     (let c = (case me_button ev of MBLeft \<Rightarrow> 0 | MBNone \<Rightarrow> 0 | MBMiddle \<Rightarrow> 1 | MBRight \<Rightarrow> 2);
          c = (if mm_shift (me_modifiers ev) then c OR 4 else c);
          c = (if mm_alt (me_modifiers ev) then c OR 8 else c);
          c = (if mm_ctrl (me_modifiers ev) then c OR 16 else c)
      in case me_kind ev of
           MKPress \<Rightarrow> c
         | MKRelease \<Rightarrow> c
         | MKMove \<Rightarrow> c OR 32
         | MKWheel delta ax \<Rightarrow>
             (let c = c OR (case ax of AxisHorizontal \<Rightarrow> 66 | AxisVertical \<Rightarrow> 64)
              in if delta < 0 then c OR 1 else c))"

definition encode_for_child :: "mouse_event \<Rightarrow> mouse_encoding \<Rightarrow> bytes" where
  "encode_for_child ev mode =
     (let button_code = mouse_button_code ev;
          is_press = (me_kind ev \<noteq> MKRelease);
          r = sadd16 (me_row ev) 1;
          c = sadd16 (me_col ev) 1
      in case mode of
           EncSgr \<Rightarrow> CHR 0x1B # ''[<'' @ dec button_code @ '';'' @ dec c @ '';'' @ dec r @
             (if is_press then ''M'' else ''m'')
         | _ \<Rightarrow>
             (let cb = (if is_press then button_code else 3)
              in CHR 0x1B # ''[M'' @ [legacy_mouse_byte (button_code_low cb), legacy_mouse_byte c, legacy_mouse_byte r]))"

text \<open>Feeding a whole buffer; the caller drops the \<open>Pending\<close> outputs.\<close>

fun mp_feed :: "mouse_parser \<Rightarrow> bytes \<Rightarrow> mouse_parser \<times> mouse_action list" where
  "mp_feed s [] = (s, [])"
| "mp_feed s (b # bs) =
     (let (s', out) = mp_consume s b;
          (s'', outs) = mp_feed s' bs
      in (s'', if out = MAPending then outs else out # outs))"

section \<open>What the parser holds\<close>

text \<open>
  The invariant: three parameters, and held bytes that put a fresh parser into the very state; so
  the held bytes alone say what the parser is waiting for.
\<close>

definition mouse_inv :: "mouse_parser \<Rightarrow> bool" where
  "mouse_inv s \<longleftrightarrow> length (mp_params s) = 3 \<and> (mp_state s = MSIdle \<longrightarrow> mp_held s = []) \<and>
     (\<forall>i. mp_state s = MSAccum i \<longrightarrow> i \<le> 2) \<and> mp_feed mp_new (mp_held s) = (s, [])"

text \<open>\<open>mouse_report ev bs\<close>: the bytes are one report of the event.\<close>

definition mouse_report :: "mouse_event \<Rightarrow> bytes \<Rightarrow> bool" where
  "mouse_report ev bs \<longleftrightarrow> mp_feed mp_new bs = (mp_new, [MAEvent ev])"

fun mouse_chunk :: "mouse_action \<Rightarrow> bytes \<Rightarrow> bool" where
  "mouse_chunk MAPending bs \<longleftrightarrow> bs = []"
| "mouse_chunk (MAEvent ev) bs \<longleftrightarrow> mouse_report ev bs"
| "mouse_chunk (MAOther b) bs \<longleftrightarrow> bs = [b]"
| "mouse_chunk (MABailed c) bs \<longleftrightarrow> bs = c"

lemma mp_feed_append:
  "mp_feed s (xs @ ys) = (let (s', o1) = mp_feed s xs; (s'', o2) = mp_feed s' ys in (s'', o1 @ o2))"
  by (induction xs arbitrary: s) (auto simp: Let_def split: prod.splits)

lemma mouse_inv_new [simp]: "mouse_inv mp_new"
  by (simp add: mouse_inv_def mp_new_def)

lemma mp_params_3: "length (mp_params s) = 3 \<Longrightarrow> mp_reset_state (s\<lparr>mp_held := []\<rparr>) = mp_new"
  by (intro mouse_parser.equality) (simp_all add: mp_reset_state_def mp_new_def)

text \<open>A step waits with the byte held, or hands everything out and is as new.\<close>

lemma mp_consume_cases:
  assumes "length (mp_params s) = 3"
  shows "(snd (mp_consume s b) = MAPending \<and> mp_held (fst (mp_consume s b)) = mp_held s @ [b] \<and>
            mp_state (fst (mp_consume s b)) \<noteq> MSIdle \<and> length (mp_params (fst (mp_consume s b))) = 3) \<or>
         (snd (mp_consume s b) = MAOther b \<and> mp_state s = MSIdle \<and> fst (mp_consume s b) = s) \<or>
         (snd (mp_consume s b) = MABailed (mp_held s @ [b]) \<and> fst (mp_consume s b) = mp_new) \<or>
         (\<exists>ev. snd (mp_consume s b) = MAEvent ev \<and> fst (mp_consume s b) = mp_new)"
  using assms
  by (auto simp: mp_consume_def accum_param_def mp_bail_with_byte_def mp_bail_already_pushed_def mp_params_3
      mp_reset_state_def mp_new_def split: mouse_state.split intro!: mouse_parser.equality)

lemma mp_consume_index:
  "(\<forall>i. mp_state s = MSAccum i \<longrightarrow> i \<le> 2) \<Longrightarrow> mp_state (fst (mp_consume s b)) = MSAccum i \<Longrightarrow> i \<le> 2"
  by (auto simp: mp_consume_def accum_param_def mp_bail_with_byte_def mp_bail_already_pushed_def
      mp_reset_state_def split: mouse_state.splits if_splits)

lemma mp_consume_step:
  assumes "mouse_inv s"
  shows "mouse_inv (fst (mp_consume s b)) \<and>
         (\<exists>c. mouse_chunk (snd (mp_consume s b)) c \<and> c @ mp_held (fst (mp_consume s b)) = mp_held s @ [b])"
proof -
  have s: "length (mp_params s) = 3" "mp_state s = MSIdle \<longrightarrow> mp_held s = []"
    "\<forall>i. mp_state s = MSAccum i \<longrightarrow> i \<le> 2" "mp_feed mp_new (mp_held s) = (s, [])"
    using assms by (simp_all add: mouse_inv_def)
  have feed: "mp_feed mp_new (mp_held s @ [b]) =
      (fst (mp_consume s b), if snd (mp_consume s b) = MAPending then [] else [snd (mp_consume s b)])"
    by (simp add: mp_feed_append s(4) case_prod_beta Let_def)
  show ?thesis
    using mp_consume_cases [OF s(1), of b] feed mp_consume_index [OF s(3), of b] s
    by (elim disjE exE) (auto simp: mouse_inv_def mouse_report_def mp_new_def)
qed

end
