(* ===== verification/Input_Router.thy ===== *)
theory Input_Router
  imports Mouse Paste_Parser Key_Facts "HOL-Library.Multiset"
begin

text \<open>
  The input router of a client connection, after \<open>crates/daemon/src/input_router.rs\<close>: the paste, mouse
  and key parsers in a row, each handing what it does not take to the next.
\<close>

text \<open>The keyboard protocol a client negotiated with its terminal (\<open>crates/protocol/src/messages.rs\<close>).\<close>

datatype negotiated_kbd = NkLegacy | NkModifyOtherKeys nat | NkKitty nat

definition decode_protocol :: "negotiated_kbd \<Rightarrow> keyboard_protocol" where
  "decode_protocol kbd =
     (case kbd of
        NkLegacy \<Rightarrow> ProtoLegacy
      | NkModifyOtherKeys _ \<Rightarrow> ProtoModifyOtherKeys
      | NkKitty _ \<Rightarrow> ProtoKitty)"

datatype input_event =
    IEKey key_event bytes
  | IEMouse mouse_event
  | IEPaste bytes
  | IEBytes bytes

record input_router =
  ir_paste :: paste_parser
  ir_mouse :: mouse_parser
  ir_keys :: key_parser

definition ir_new :: input_router where
  "ir_new = \<lparr>ir_paste = pp_new, ir_mouse = mp_new, ir_keys = kp_new\<rparr>"

definition ir_with_protocol :: "keyboard_protocol \<Rightarrow> input_router" where
  "ir_with_protocol pr = \<lparr>ir_paste = pp_new, ir_mouse = mp_new, ir_keys = kp_with_protocol pr kp_new\<rparr>"

definition key_output_event :: "key_parse_output \<Rightarrow> input_event list" where
  "key_output_event out =
     (case out of KPPending \<Rightarrow> [] | KPEvent ev b \<Rightarrow> [IEKey ev b] | KPBytes b \<Rightarrow> [IEBytes b])"

definition feed_key :: "input_router \<times> input_event list \<Rightarrow> char \<Rightarrow> input_router \<times> input_event list" where
  "feed_key = (\<lambda>(s, out) b.
     (let (k, r) = kp_consume (ir_keys s) b in (s\<lparr>ir_keys := k\<rparr>, out @ key_output_event r)))"

definition feed_mouse_then_key :: "input_router \<times> input_event list \<Rightarrow> char \<Rightarrow> input_router \<times> input_event list" where
  "feed_mouse_then_key = (\<lambda>(s, out) b.
     (let (m, act) = mp_consume (ir_mouse s) b; s = s\<lparr>ir_mouse := m\<rparr>
      in case act of
           MAPending \<Rightarrow> (s, out)
         | MAEvent e \<Rightarrow> (s, out @ [IEMouse e])
         | MAOther c \<Rightarrow> feed_key (s, out) c
         | MABailed bs \<Rightarrow> foldl feed_key (s, out) bs))"

definition classify_byte :: "input_router \<times> input_event list \<Rightarrow> char \<Rightarrow> input_router \<times> input_event list" where
  "classify_byte = (\<lambda>(s, out) b.
     (let (p, r) = pp_consume (ir_paste s) b; s = s\<lparr>ir_paste := p\<rparr>
      in case r of
           PastePending \<Rightarrow> (s, out)
         | Paste content \<Rightarrow> (s, out @ [IEPaste content])
         | NotPaste bs \<Rightarrow> foldl feed_mouse_then_key (s, out) bs))"

definition classify :: "input_router \<Rightarrow> bytes \<Rightarrow> input_router \<times> input_event list" where
  "classify s bs = foldl classify_byte (s, []) bs"

definition flush_parsers :: "input_router \<Rightarrow> input_router \<times> input_event list" where
  "flush_parsers s =
     (let (p, r) = pp_flush_open (ir_paste s); s = s\<lparr>ir_paste := p\<rparr>;
          (s, evs) = (case r of Some (NotPaste bs) \<Rightarrow> foldl feed_mouse_then_key (s, []) bs | _ \<Rightarrow> (s, []));
          (s, evs) = (if mp_is_mid_sequence (ir_mouse s) then
                        (let (m, bs) = mp_flush (ir_mouse s) in foldl feed_key (s\<lparr>ir_mouse := m\<rparr>, evs) bs)
                      else (s, evs));
          (k, r) = kp_flush (ir_keys s)
      in (s\<lparr>ir_keys := k\<rparr>, evs @ (case r of None \<Rightarrow> [] | Some out \<Rightarrow> key_output_event out)))"

definition flush_keys :: "input_router \<Rightarrow> input_router \<times> input_event option" where
  "flush_keys s = (let (s', evs) = flush_parsers s in (s', head_opt evs))"

definition has_pending :: "input_router \<Rightarrow> bool" where
  "has_pending s \<longleftrightarrow> pp_is_pending_open (ir_paste s) \<or> mp_is_mid_sequence (ir_mouse s) \<or> kp_is_mid_sequence (ir_keys s)"

section \<open>What the router holds\<close>

definition router_inv :: "input_router \<Rightarrow> bool" where
  "router_inv s \<longleftrightarrow> paste_inv (ir_paste s) \<and> mouse_inv (ir_mouse s)"

definition router_held :: "input_router \<Rightarrow> bytes" where
  "router_held s = kp_buf (ir_keys s) @ mp_held (ir_mouse s) @ paste_state_bytes (ir_paste s)"

text \<open>The input bytes an event stands for.\<close>

fun event_chunk :: "input_event \<Rightarrow> bytes \<Rightarrow> bool" where
  "event_chunk (IEKey ev b) c \<longleftrightarrow> c = b"
| "event_chunk (IEMouse ev) c \<longleftrightarrow> mouse_report ev c"
| "event_chunk (IEPaste p) c \<longleftrightarrow> c = opener @ p @ closer"
| "event_chunk (IEBytes b) c \<longleftrightarrow> c = b"

text \<open>
  The events of a run account for a number of bytes: there are chunks, one per event and each
  standing for it, that together hold exactly those bytes.
\<close>

definition accounts :: "input_event list \<Rightarrow> char multiset \<Rightarrow> bool" where
  "accounts evs M \<longleftrightarrow> (\<exists>cs. list_all2 event_chunk evs cs \<and> mset (concat cs) = M)"

lemma accounts_Nil [simp]: "accounts [] {#}"
  by (simp add: accounts_def)

lemma accounts_append: "accounts xs M \<Longrightarrow> accounts ys N \<Longrightarrow> accounts (xs @ ys) (M + N)"
proof -
  assume "accounts xs M" "accounts ys N"
  then obtain cs ds where "list_all2 event_chunk xs cs" "mset (concat cs) = M"
    "list_all2 event_chunk ys ds" "mset (concat ds) = N"
    by (auto simp: accounts_def)
  then show ?thesis
    unfolding accounts_def by (intro exI [of _ "cs @ ds"]) (simp add: list_all2_appendI)
qed

lemma accounts_one: "event_chunk e c \<Longrightarrow> accounts [e] (mset c)"
  unfolding accounts_def by (intro exI [of _ "[c]"]) simp

text \<open>
  A stage that has taken the bytes \<open>M\<close> so far: what it has put out and what is held in the router
  account for them.
\<close>

definition settled :: "input_router \<times> input_event list \<Rightarrow> char multiset \<Rightarrow> bool" where
  "settled = (\<lambda>(s, out) M. router_inv s \<and>
     (\<exists>N. accounts out N \<and> N + mset (router_held s) = M))"

lemma union_exchange:
  "A + B = add_mset b C \<Longrightarrow> N + (A + (B + R)) = add_mset b (N + (C + R))"
  by (metis add.assoc union_mset_add_mset_left union_mset_add_mset_right)

lemma feed_key_settled:
  "settled (s, out) M \<Longrightarrow> settled (feed_key (s, out) b) (M + {#b#}) \<and>
   ir_paste (fst (feed_key (s, out) b)) = ir_paste s \<and> ir_mouse (fst (feed_key (s, out) b)) = ir_mouse s"
proof -
  assume "settled (s, out) M"
  then obtain N where N: "router_inv s" "accounts out N" "N + mset (router_held s) = M"
    by (auto simp: settled_def)
  obtain k r where c: "kp_consume (ir_keys s) b = (k, r)" by fastforce
  have r: "accounts (key_output_event r) (mset (output_bytes r))"
    by (cases r) (simp_all add: key_output_event_def output_bytes_def accounts_one)
  have "output_bytes r @ kp_buf k = kp_buf (ir_keys s) @ [b]"
    using kp_consume_keeps [of "ir_keys s" b] c by (auto simp: keeps_bytes_def output_bytes_def)
  then have "mset (output_bytes r) + mset (kp_buf k) = mset (kp_buf (ir_keys s)) + {#b#}"
    by (metis mset_append mset_single_iff_right)
  then have "(N + mset (output_bytes r)) + mset (router_held (s\<lparr>ir_keys := k\<rparr>)) = M + {#b#}"
    unfolding N(3) [symmetric] by (simp add: router_held_def union_exchange)
  then show ?thesis
    using accounts_append [OF N(2) r] N(1) c by (auto simp: feed_key_def settled_def router_inv_def)
qed

lemma feed_keys_settled:
  "settled (s, out) M \<Longrightarrow> settled (foldl feed_key (s, out) bs) (M + mset bs) \<and>
   ir_paste (fst (foldl feed_key (s, out) bs)) = ir_paste s \<and> ir_mouse (fst (foldl feed_key (s, out) bs)) = ir_mouse s"
proof (induction bs arbitrary: s out M)
  case (Cons b bs)
  obtain s' out' where f: "feed_key (s, out) b = (s', out')" by fastforce
  show ?case
    using feed_key_settled [OF Cons.prems, of b] Cons.IH [of s' out' "M + {#b#}"] f by (simp add: ac_simps)
qed simp

lemma feed_mouse_settled:
  assumes "settled (s, out) M"
  shows "settled (feed_mouse_then_key (s, out) b) (M + {#b#}) \<and>
    ir_paste (fst (feed_mouse_then_key (s, out) b)) = ir_paste s"
proof -
  obtain N where N: "router_inv s" "accounts out N" "N + mset (router_held s) = M"
    using assms by (auto simp: settled_def)
  obtain m act where c: "mp_consume (ir_mouse s) b = (m, act)" by fastforce
  define t where "t = s\<lparr>ir_mouse := m\<rparr>"
  have m: "mouse_inv (ir_mouse s)"
    using N(1) by (simp add: router_inv_def)
  obtain c' where c': "mouse_inv m" "mouse_chunk act c'" "c' @ mp_held m = mp_held (ir_mouse s) @ [b]"
    using mp_consume_step [OF m, of b] c by auto
  have "mset c' + mset (mp_held m) = mset (mp_held (ir_mouse s)) + {#b#}"
    using c'(3) by (metis mset_append mset_single_iff_right)
  then have cnt: "N + mset c' + mset (router_held t) = M + {#b#}"
    unfolding N(3) [symmetric] t_def router_held_def
    by (simp add: ac_simps)
  have t: "router_inv t" "ir_paste t = ir_paste s"
    using N(1) c'(1) by (simp_all add: router_inv_def t_def)
  have base: "settled (t, out) (N + mset (router_held t))"
    using N(2) t(1) by (auto simp: settled_def)
  have step: "feed_mouse_then_key (s, out) b =
      (case act of MAPending \<Rightarrow> (t, out) | MAEvent e \<Rightarrow> (t, out @ [IEMouse e])
        | MAOther c \<Rightarrow> feed_key (t, out) c | MABailed bs \<Rightarrow> foldl feed_key (t, out) bs)"
    unfolding t_def by (simp add: feed_mouse_then_key_def c Let_def)
  define M' where "M' = N + mset c' + mset (router_held t)"
  have "settled (feed_mouse_then_key (s, out) b) M' \<and> ir_paste (fst (feed_mouse_then_key (s, out) b)) = ir_paste s"
  proof (cases act)
    case (MAEvent e)
    then have "accounts (out @ [IEMouse e]) (N + mset c')"
      using c'(2) N(2) by (intro accounts_append accounts_one) simp_all
    then show ?thesis
      using t MAEvent by (auto simp: step settled_def M'_def)
  qed (use c' t base feed_key_settled [OF base] feed_keys_settled [OF base] in
      \<open>auto simp: step ac_simps M'_def\<close>)
  then show ?thesis
    by (simp add: M'_def cnt)
qed

lemma feed_mouses_settled:
  "settled (s, out) M \<Longrightarrow> settled (foldl feed_mouse_then_key (s, out) bs) (M + mset bs) \<and>
   ir_paste (fst (foldl feed_mouse_then_key (s, out) bs)) = ir_paste s"
proof (induction bs arbitrary: s out M)
  case (Cons b bs)
  obtain s' out' where f: "feed_mouse_then_key (s, out) b = (s', out')" by fastforce
  show ?case
    using feed_mouse_settled [OF Cons.prems, of b] Cons.IH [of s' out' "M + {#b#}"] f by (simp add: ac_simps)
qed simp

text \<open>
  One byte through the whole chain.  While less than the paste parser's cap has been read nothing is
  dropped.
\<close>

lemma classify_byte_settled:
  assumes "settled (s, out) M" "length (paste_state_bytes (ir_paste s)) \<le> n" "n < pp_max_bytes (ir_paste s)"
  shows "settled (classify_byte (s, out) b) (M + {#b#}) \<and>
    length (paste_state_bytes (ir_paste (fst (classify_byte (s, out) b)))) \<le> Suc n \<and>
    pp_max_bytes (ir_paste (fst (classify_byte (s, out) b))) = pp_max_bytes (ir_paste s)"
proof -
  obtain N where N: "router_inv s" "accounts out N" "N + mset (router_held s) = M"
    using assms(1) by (auto simp: settled_def)
  obtain p r where c: "pp_consume (ir_paste s) b = (p, r)" by fastforce
  define t where "t = s\<lparr>ir_paste := p\<rparr>"
  have p: "paste_inv (ir_paste s)"
    using N(1) by (simp add: router_inv_def)
  have st: "paste_inv p" "pp_max_bytes p = pp_max_bytes (ir_paste s)"
    "paste_output_bytes r @ paste_state_bytes p = paste_state_bytes (ir_paste s) @ [b]"
    using pp_consume_step [OF p, of b] assms(2,3) c by auto
  have "length (paste_output_bytes r @ paste_state_bytes p) = length (paste_state_bytes (ir_paste s) @ [b])"
    using st(3) by simp
  then have len: "length (paste_state_bytes p) \<le> Suc n"
    using assms(2) by simp
  have "mset (paste_output_bytes r) + mset (paste_state_bytes p) = mset (paste_state_bytes (ir_paste s)) + {#b#}"
    using st(3) by (metis mset_append mset_single_iff_right)
  then have cnt: "N + mset (paste_output_bytes r) + mset (router_held t) = M + {#b#}"
    unfolding N(3) [symmetric] t_def router_held_def by (simp add: ac_simps)
  have t: "router_inv t" "ir_paste t = p"
    using N(1) st(1) by (simp_all add: router_inv_def t_def)
  have base: "settled (t, out) (N + mset (router_held t))"
    using N(2) t(1) by (auto simp: settled_def)
  have step: "classify_byte (s, out) b =
      (case r of PastePending \<Rightarrow> (t, out) | Paste content \<Rightarrow> (t, out @ [IEPaste content])
        | NotPaste bs \<Rightarrow> foldl feed_mouse_then_key (t, out) bs)"
    unfolding t_def by (simp add: classify_byte_def c Let_def)
  define M' where "M' = N + mset (paste_output_bytes r) + mset (router_held t)"
  have "settled (classify_byte (s, out) b) M' \<and>
    length (paste_state_bytes (ir_paste (fst (classify_byte (s, out) b)))) \<le> Suc n \<and>
    pp_max_bytes (ir_paste (fst (classify_byte (s, out) b))) = pp_max_bytes (ir_paste s)"
  proof (cases r)
    case (Paste content)
    then have "accounts (out @ [IEPaste content]) (N + mset (paste_output_bytes r))"
      using N(2) by (intro accounts_append accounts_one) (simp_all add: paste_output_bytes_def)
    then show ?thesis
      using t len st(2) Paste by (auto simp: step settled_def M'_def)
  qed (use t len st(2) base feed_mouses_settled [OF base] in
      \<open>auto simp: step ac_simps paste_output_bytes_def M'_def\<close>)
  then show ?thesis
    by (simp add: M'_def cnt)
qed

lemma classify_settled:
  "settled (s, out) M \<Longrightarrow> length (paste_state_bytes (ir_paste s)) \<le> n \<Longrightarrow>
   n + length bs \<le> pp_max_bytes (ir_paste s) \<Longrightarrow>
   settled (foldl classify_byte (s, out) bs) (M + mset bs)"
proof (induction bs arbitrary: s out M n)
  case (Cons b bs)
  obtain s' out' where f: "classify_byte (s, out) b = (s', out')" by fastforce
  show ?case
    using classify_byte_settled [OF Cons.prems(1,2), of b] Cons.prems(3) Cons.IH [of s' out' "M + {#b#}" "Suc n"] f
    by (simp add: ac_simps)
qed simp

lemma router_start: "settled (ir_with_protocol pr, []) {#}"
proof -
  have "mp_held mp_new = []"
    by (simp add: mp_new_def)
  then show ?thesis
    by (simp add: settled_def router_inv_def ir_with_protocol_def paste_inv_def pp_new_def pp_with_cap_def
        router_held_def kp_with_protocol_def kp_new_def paste_state_bytes_def)
qed

lemma put_back [simp]: "s\<lparr>ir_paste := ir_paste s\<rparr> = s" "s\<lparr>ir_keys := ir_keys s\<rparr> = s"
  by (cases s; simp)+

text \<open>The idle flush keeps the account, too: all its events count.\<close>

lemma flush_parsers_settled:
  assumes "settled (s, []) M"
  shows "settled (flush_parsers s) M"
proof -
  obtain p r where c: "pp_flush_open (ir_paste s) = (p, r)" by fastforce
  obtain s1 e1 where s1: "(case r of Some (NotPaste bs) \<Rightarrow> foldl feed_mouse_then_key (s\<lparr>ir_paste := p\<rparr>, []) bs
      | _ \<Rightarrow> (s\<lparr>ir_paste := p\<rparr>, [])) = (s1, e1)" by fastforce
  have "settled (s1, e1) M"
  proof (cases "pp_is_pending_open (ir_paste s)")
    case True
    define bs where "bs = pp_held (ir_paste s)"
    have r: "r = Some (NotPaste bs)" "p = (ir_paste s)\<lparr>pp_held := [], pp_state := PsIdle\<rparr>"
      using c True by (simp_all add: pp_flush_open_def bs_def)
    have inv: "router_inv s" "mset (router_held s) = M"
      using assms by (auto simp: settled_def accounts_def)
    have "\<not> in_content (pp_state (ir_paste s))"
      using True by (auto simp: pp_is_pending_open_def)
    then have "router_inv (s\<lparr>ir_paste := p\<rparr>)" "mset (router_held (s\<lparr>ir_paste := p\<rparr>)) + mset bs = M"
      using inv by (auto simp: r router_inv_def paste_inv_def router_held_def paste_state_bytes_def bs_def)
    then have "settled (s\<lparr>ir_paste := p\<rparr>, []) (mset (router_held (s\<lparr>ir_paste := p\<rparr>)))"
      "mset (router_held (s\<lparr>ir_paste := p\<rparr>)) + mset bs = M"
      by (auto simp: settled_def intro: exI [of _ "{#}"])
    then show ?thesis
      using feed_mouses_settled s1 by (simp add: r(1)) metis
  next
    case False
    then show ?thesis
      using c s1 assms by (auto simp: pp_flush_open_def)
  qed
  obtain s2 e2 where s2: "(if mp_is_mid_sequence (ir_mouse s1) then
      (let (m, bs) = mp_flush (ir_mouse s1) in foldl feed_key (s1\<lparr>ir_mouse := m\<rparr>, e1) bs) else (s1, e1)) = (s2, e2)"
    by fastforce
  have "settled (s2, e2) M"
  proof (cases "mp_is_mid_sequence (ir_mouse s1)")
    case True
    obtain N where N: "router_inv s1" "accounts e1 N" "N + mset (router_held s1) = M"
      using \<open>settled (s1, e1) M\<close> by (auto simp: settled_def)
    define t where "t = s1\<lparr>ir_mouse := mp_new\<rparr>"
    have m: "mp_flush (ir_mouse s1) = (mp_new, mp_held (ir_mouse s1))"
      using N(1) by (simp add: mp_flush_def mp_params_3 router_inv_def mouse_inv_def)
    have "settled (t, e1) (N + mset (router_held t))"
      using N(1,2) by (auto simp: settled_def router_inv_def t_def)
    moreover have "mp_held mp_new = []"
      by (simp add: mp_new_def)
    then have "N + mset (router_held t) + mset (mp_held (ir_mouse s1)) = M"
      unfolding N(3) [symmetric] by (simp add: router_held_def t_def ac_simps)
    ultimately show ?thesis
      using feed_keys_settled [of t e1 _ "mp_held (ir_mouse s1)"] s2 True m by (simp add: t_def) metis
  next
    case False
    then show ?thesis
      using s2 \<open>settled (s1, e1) M\<close> by simp
  qed
  then obtain N where N: "router_inv s2" "accounts e2 N" "N + mset (router_held s2) = M"
    by (auto simp: settled_def)
  obtain k r' where k: "kp_flush (ir_keys s2) = (k, r')" by fastforce
  have "flush_parsers s = (s2\<lparr>ir_keys := k\<rparr>, e2 @ (case r' of None \<Rightarrow> [] | Some out \<Rightarrow> key_output_event out))"
    using c s1 s2 k by (simp add: flush_parsers_def Let_def split: prod.splits)
  moreover have "settled (s2\<lparr>ir_keys := k\<rparr>, e2 @ (case r' of None \<Rightarrow> [] | Some out \<Rightarrow> key_output_event out)) M"
  proof (cases "kp_state (ir_keys s2) = KSawEsc")
    case True
    then have k': "kp_buf k = []" "r' = Some (KPEvent (key_event_plain KEscape) (kp_buf (ir_keys s2)))"
      using k by (auto simp: kp_flush_def kp_out_defs kp_reset_state_def)
    have "accounts (e2 @ [IEKey (key_event_plain KEscape) (kp_buf (ir_keys s2))]) (N + mset (kp_buf (ir_keys s2)))"
      using N(2) by (intro accounts_append accounts_one) simp_all
    moreover have "N + mset (kp_buf (ir_keys s2)) + mset (router_held (s2\<lparr>ir_keys := k\<rparr>)) = M"
      unfolding N(3) [symmetric] by (simp add: router_held_def k'(1) ac_simps)
    ultimately show ?thesis
      using N(1) by (auto simp: settled_def router_inv_def k'(2) key_output_event_def)
  next
    case False
    then show ?thesis
      using k N by (auto simp: kp_flush_def settled_def)
  qed
  ultimately show ?thesis
    by simp
qed

end
