(* ===== verification/Input_Props.thy ===== *)
theory Input_Props
  imports Input_Router
begin

text \<open>
  Properties of the mouse codec and of the input router.
\<close>

section \<open>Mouse reports\<close>

text \<open>The events the parser can report: a wheel has no button and moves by three.\<close>

definition reportable :: "mouse_event \<Rightarrow> bool" where
  "reportable ev \<longleftrightarrow> me_row ev < u16_max \<and> me_col ev < u16_max \<and>
     (case me_kind ev of MKWheel d ax \<Rightarrow> me_button ev = MBNone \<and> d \<in> {3, -3} | _ \<Rightarrow> me_button ev \<noteq> MBNone)"

definition in_report :: "nat \<Rightarrow> nat list \<Rightarrow> bytes \<Rightarrow> mouse_parser" where
  "in_report i ps held = \<lparr>mp_state = MSAccum i, mp_params = ps, mp_held = held\<rparr>"

lemma report_digits:
  assumes "list_all is_digit ds" "i < length ps" "foldl (\<lambda>acc d. 10 * acc + digit_val d) (ps ! i) ds \<le> u32_max"
  shows "mp_feed (in_report i ps held) ds =
     (in_report i (ps[i := foldl (\<lambda>acc d. 10 * acc + digit_val d) (ps ! i) ds]) (held @ ds), [])"
  using assms
proof (induction ds arbitrary: ps held)
  case (Cons d ds)
  have mono: "v \<le> foldl (\<lambda>acc d. 10 * acc + digit_val d) v ds" for v
  proof (induction ds arbitrary: v)
    case (Cons a ds)
    show ?case
      using Cons.IH [of "10 * v + digit_val a"] by simp
  qed simp
  have "10 * ps ! i + digit_val d \<le> u32_max"
    using mono [of "10 * ps ! i + digit_val d"] Cons.prems(3) by simp
  then have "sadd32 (smul32 (ps ! i) 10) (digit_val d) = 10 * ps ! i + digit_val d"
    by (simp add: sadd32_def smul32_def)
  then have "mp_consume (in_report i ps held) d =
      (in_report i (ps[i := 10 * ps ! i + digit_val d]) (held @ [d]), MAPending)"
    using Cons.prems(1) by (simp add: mp_consume_def in_report_def accum_param_def)
  then show ?case
    using Cons.IH [of "ps[i := 10 * ps ! i + digit_val d]" "held @ [d]"] Cons.prems by simp
qed (simp add: in_report_def)

lemma report_dec:
  assumes "n \<le> u32_max" "i < length ps" "ps ! i = 0"
  shows "mp_feed (in_report i ps held) (dec n) = (in_report i (ps[i := n]) (held @ dec n), [])"
  using report_digits [OF dec_digits [of n] assms(2)] digits_val_dec [of n] assms
  by (simp add: digits_val_def)

lemma report_separator:
  "i < 2 \<Longrightarrow> mp_feed (in_report i ps held) (CHR '';'' # bs) = mp_feed (in_report (Suc i) ps (held @ '';'')) bs"
  by (simp add: in_report_def mp_consume_def accum_param_def is_digit_def case_prod_beta Let_def)

lemma report_end:
  "f \<in> {CHR ''M'', CHR ''m''} \<Longrightarrow> length ps = 3 \<Longrightarrow>
   mp_feed (in_report i ps held) [f] = (mp_new, [MAEvent (build_event ps (f = CHR ''M''))])"
  by (auto simp: in_report_def mp_consume_def accum_param_def is_digit_def mp_reset_state_def mp_new_def)

text \<open>Reading an SGR report: the three numbers and the final byte make the event.\<close>

lemma feed_report:
  assumes "a \<le> u32_max" "b \<le> u32_max" "c \<le> u32_max" "f \<in> {CHR ''M'', CHR ''m''}"
  shows "mp_feed mp_new (CHR 0x1B # ''[<'' @ dec a @ '';'' @ dec b @ '';'' @ dec c @ [f]) =
         (mp_new, [MAEvent (build_event [a, b, c] (f = CHR ''M''))])"
proof -
  obtain d ds where d: "dec a = d # ds"
    by (cases "dec a") auto
  have intro: "mp_feed mp_new (CHR 0x1B # ''[<'' @ dec a @ bs) =
      mp_feed (in_report 0 [0, 0, 0] (CHR 0x1B # ''[<'')) (dec a @ bs)" for bs
    by (simp add: d mp_new_def in_report_def mp_consume_def)
  show ?thesis
    using assms by (simp only: intro) (simp add: mp_feed_append report_dec report_separator report_end Let_def del: mp_feed.simps)
qed

text \<open>The button code, bit by bit.\<close>

lemma and_bits:
  "(x :: nat) AND 4 = 0 \<longleftrightarrow> \<not> bit x 2" "x AND 8 = 0 \<longleftrightarrow> \<not> bit x 3" "x AND 16 = 0 \<longleftrightarrow> \<not> bit x 4"
  "x AND 32 = 0 \<longleftrightarrow> \<not> bit x 5" "x AND 64 = 0 \<longleftrightarrow> \<not> bit x 6"
  using and_exp_eq_0_iff_not_bit [of x 2] and_exp_eq_0_iff_not_bit [of x 3] and_exp_eq_0_iff_not_bit [of x 4]
    and_exp_eq_0_iff_not_bit [of x 5] and_exp_eq_0_iff_not_bit [of x 6]
  by simp_all

lemma and_three: "(x :: nat) AND 3 = of_bool (bit x 0) + 2 * of_bool (bit x 1)"
proof -
  have "x AND 3 = take_bit 2 x"
    using take_bit_eq_mask [of 2 x] by (simp add: mask_eq_exp_minus_1)
  then show ?thesis
    by (simp add: take_bit_eq_mod bit_iff_odd) presburger
qed

lemma or_below: "(a :: nat) < 2 ^ n \<Longrightarrow> b < 2 ^ n \<Longrightarrow> a OR b < 2 ^ n"
  by (metis take_bit_nat_eq_self_iff take_bit_or)

lemma or_below_128: "(a :: nat) < 128 \<Longrightarrow> b < 128 \<Longrightarrow> a OR b < 128"
  using or_below [of a 7 b] by simp

lemma button_code_below: "mouse_button_code ev < 128"
  by (auto simp: mouse_button_code_def Let_def intro!: or_below_128 split: mouse_button.split mouse_kind.split wheel_axis.split)

lemma bit_one: "bit (Suc 0) 0"
  by (simp add: bit_iff_odd)

lemma button_code_back:
  assumes "case k of MKWheel d ax \<Rightarrow> b = MBNone \<and> d \<in> {3, -3} | _ \<Rightarrow> b \<noteq> MBNone"
  shows "build_event [mouse_button_code \<lparr>me_kind = k, me_button = b, me_modifiers = m, me_row = r, me_col = c\<rparr>, c + 1, r + 1]
           (k \<noteq> MKRelease) = \<lparr>me_kind = k, me_button = b, me_modifiers = m, me_row = min r u16_max, me_col = min c u16_max\<rparr>"
  using assms
  by (cases k; cases b; cases m)
    (auto simp: mouse_button_code_def build_event_def Let_def and_bits and_three bit_or_iff bit_one split: wheel_axis.splits)

text \<open>
  a mouse event that the parser can report, forwarded in the SGR encoding to a child that reads
  it with the same parser, arrives as it was: button, modifiers, motion or wheel, row and column.
\<close>

theorem mouse_round_trip:
  assumes "reportable ev"
  shows "mp_feed mp_new (encode_for_child ev EncSgr) = (mp_new, [MAEvent ev])"
proof -
  obtain k b m r c where ev: "ev = \<lparr>me_kind = k, me_button = b, me_modifiers = m, me_row = r, me_col = c\<rparr>"
    by (cases ev) auto
  define f where "f = (if k = MKRelease then CHR ''m'' else CHR ''M'')"
  have f: "f \<in> {CHR ''M'', CHR ''m''}" "f = CHR ''M'' \<longleftrightarrow> k \<noteq> MKRelease"
    by (simp_all add: f_def)
  have code: "mouse_button_code ev \<le> u32_max" "build_event [mouse_button_code ev, c + 1, r + 1] (k \<noteq> MKRelease) = ev"
    using assms
    using button_code_below [of ev] button_code_back [where k = k and b = b and m = m and r = r and c = c] assms
    by (auto simp: ev reportable_def u32_max_def split: mouse_kind.splits)
  have rc: "r + 1 \<le> u32_max" "c + 1 \<le> u32_max" "sadd16 r 1 = r + 1" "sadd16 c 1 = c + 1"
    using assms by (simp_all add: reportable_def ev sadd16_def u16_max_def u32_max_def)
  have "encode_for_child ev EncSgr =
      CHR 0x1B # ''[<'' @ dec (mouse_button_code ev) @ '';'' @ dec (c + 1) @ '';'' @ dec (r + 1) @ [f]"
    using rc by (simp add: encode_for_child_def ev f_def)
  then show ?thesis
    using feed_report [OF code(1) rc(2) rc(1) f(1)] code(2) by (simp add: f(2))
qed

definition sample_drag :: mouse_event where
  "sample_drag = \<lparr>me_kind = MKMove, me_button = MBRight, me_modifiers = \<lparr>mm_shift = False, mm_alt = True, mm_ctrl = True\<rparr>,
     me_row = 41, me_col = 200\<rparr>"

theorem mouse_round_trip_witness:
  "mp_feed mp_new (encode_for_child sample_drag EncSgr) = (mp_new, [MAEvent sample_drag])"
  by (rule mouse_round_trip) (simp add: sample_drag_def reportable_def u16_max_def)

text \<open>
  motion without a button is forwarded as a drag.  The parser tells hovering from dragging with
  the left button, the encoder writes the same bytes for both.
\<close>

theorem hover_forwarded_as_drag:
  "encode_for_child (ev\<lparr>me_kind := MKMove, me_button := MBNone\<rparr>) mode =
   encode_for_child (ev\<lparr>me_kind := MKMove, me_button := MBLeft\<rparr>) mode"
  by (simp add: encode_for_child_def mouse_button_code_def Let_def split: mouse_encoding.split)

section \<open>The input router\<close>


text \<open>
  an idle flush returns only its first event.  While a mouse report is half read, an escape key
  and a flush make the parsers give up the bytes of the report and the escape; the flush hands out
  the first of the events and drops the others, the escape key among them.
\<close>

lemmas key_run_simps = kp_consume_def step_idle_def step_saw_esc_def step_csi_def dispatch_csi_def kp_emit_simple_def
  kp_emit_def kp_bail_def kp_take_def kp_reset_state_def kp_new_def kp_flush_def kp_flush_param_def kp_push_sub_def
  decode_csi_def nth_opt_def csi_final_key_def csi_function_key_def is_digit_def digit_val_def key_event_plain_def key_event_new_def

lemmas mouse_run_simps = mp_consume_def accum_param_def mp_bail_with_byte_def mp_bail_already_pushed_def mp_reset_state_def
  mp_new_def mp_flush_def mp_is_mid_sequence_def

lemmas router_run_simps = classify_def classify_byte_def feed_mouse_then_key_def feed_key_def ir_new_def
  pp_consume_def pp_advance_open_def pp_bail_open_def pp_new_def pp_with_cap_def pp_flush_open_def pp_is_pending_open_def

definition half_report :: input_router where
  "half_report = fst (classify ir_new (CHR 0x1B # ''[<0;1'' @ [CHR 0x1B]))"

lemma half_report_fields:
  "half_report = \<lparr>ir_paste = (pp_new\<lparr>pp_held := [CHR 0x1B], pp_state := PsSawEsc\<rparr>),
     ir_mouse = \<lparr>mp_state = MSAccum 1, mp_params = [0, 1, 0], mp_held = CHR 0x1B # ''[<0;1''\<rparr>, ir_keys = kp_new\<rparr>"
  by (simp add: half_report_def router_run_simps mouse_run_simps is_digit_def digit_val_def Let_def sadd32_def smul32_def u32_max_def)

lemma half_report_flushed:
  "flush_parsers half_report = (ir_new, [IEBytes (CHR 0x1B # ''[<''), IEKey (key_event_plain (KChar 48)) ''0'',
     IEKey (key_event_plain (KChar 59)) '';'', IEKey (key_event_plain (KChar 49)) ''1'', IEKey (key_event_plain KEscape) [CHR 0x1B]])"
  by (simp add: half_report_fields flush_parsers_def router_run_simps mouse_run_simps key_run_simps key_output_event_def Let_def)

theorem flush_drops_later_events:
  "\<exists>s s'. s = fst (classify ir_new (CHR 0x1B # ''[<0;1'' @ [CHR 0x1B])) \<and> has_pending s \<and>
     length (snd (flush_parsers s)) = 5 \<and> last (snd (flush_parsers s)) = IEKey (key_event_plain KEscape) [CHR 0x1B] \<and>
     flush_keys s = (s', Some (IEBytes (CHR 0x1B # ''[<''))) \<and> router_held s' = []"
proof -
  have "has_pending half_report"
    by (simp add: has_pending_def half_report_fields mp_is_mid_sequence_def)
  then show ?thesis
    using half_report_flushed
    by (intro exI [of _ half_report] exI [of _ ir_new])
      (simp add: half_report_def flush_keys_def head_opt_def router_held_def ir_new_def kp_new_def mp_new_def
        pp_new_def pp_with_cap_def paste_state_bytes_def)
qed

text \<open>
  an escape just before a paste breaks the paste.  The paste parser takes the two escapes for a
  broken opener and lets the rest pass, so that the pasted text arrives as typed keys.
\<close>

theorem escape_before_paste_unwraps_it:
  "\<exists>evs. snd (classify ir_new (CHR 0x1B # opener @ ''ls'' @ [CHR 0x0D] @ closer)) = evs \<and>
     IEKey (key_event_plain KEnter) [CHR 0x0D] \<in> set evs \<and> (\<forall>p. IEPaste p \<notin> set evs)"
  by (simp add: opener_def closer_def router_run_simps mouse_run_simps key_run_simps key_output_event_def Let_def
      sadd32_def smul32_def u32_max_def param_primary_def param_sub_at_def param_default_def key_from_tilde_def)



end
