(* ===== verification/Protocol.thy ===== *)
theory Protocol
  imports Input_Router
begin

text \<open>
  The wire protocol, after \<open>crates/protocol/src\<close>: messages, errors, session names, the frame codec and
  the version handshake.  Asynchronous reading and writing (\<open>tokio\<close>) and the serialisation of messages
  (\<open>postcard\<close>) are parameters; what the code relies on is stated as a predicate on them.
\<close>

section \<open>Messages and errors\<close>

type_synonym protocol_version = nat
type_synonym client_id = nat
type_synonym system_time = nat

definition PROTOCOL_VERSION :: protocol_version where "PROTOCOL_VERSION = 13"

record pty_size =
  ps_rows :: nat
  ps_cols :: nat
  ps_pixel_width :: nat
  ps_pixel_height :: nat

record session_entry =
  se_name :: rstr
  se_windows :: nat
  se_panes :: nat
  se_clients :: nat
  se_created :: system_time
  se_last_active :: system_time

record spawn_spec =
  sp_program :: rstr
  sp_args :: "rstr list"
  sp_env :: "(rstr \<times> rstr) list"
  sp_cwd :: "rstr option"

datatype exit_status = ExitCode int | ExitSignal int | ExitUnknown

datatype create_policy = RequireExisting | CreateIfMissing

record graphics_caps =
  gc_kitty :: bool
  gc_sixel :: bool
  gc_iterm2 :: bool

definition graphics_caps_default :: graphics_caps where
  "graphics_caps_default = \<lparr>gc_kitty = False, gc_sixel = False, gc_iterm2 = False\<rparr>"

datatype wire_color_scheme = SchemeDark | SchemeLight

record client_hello =
  ch_version :: protocol_version
  ch_term :: rstr
  ch_kbd :: negotiated_kbd
  ch_graphics :: graphics_caps
  ch_remote :: bool

record server_hello =
  sh_version :: protocol_version
  sh_daemon_pid :: nat

datatype client_msg =
    CmAttachOrCreate "rstr option" create_policy "spawn_spec option" pty_size
  | CmListSessions
  | CmKillSession rstr
  | CmInput bytes
  | CmResize pty_size
  | CmDetach
  | CmShutdown
  | CmReloadConfig
  | CmFocusIn
  | CmFocusOut
  | CmColorScheme wire_color_scheme
  | CmRunCommand "rstr option" rstr
  | CmSendInput "rstr option" bytes
  | CmCapturePane "rstr option"
  | CmCaptureLastCommand "rstr option"
  | CmExecCommand "rstr option" rstr "nat option"
  | CmCaptureLastBlock "rstr option"
  | CmSwitchSession rstr
  | CmRedraw

datatype protocol_error =
    PeVersionMismatch nat nat
  | PePtyOpenFailed rstr
  | PeSpawnFailed rstr
  | PeUnexpectedMessage rstr
  | PeInternal rstr
  | PeSessionNotFound rstr
  | PeSessionAlreadyExists rstr
  | PeAmbiguousSession nat
  | PeEmptyName
  | PeInvalidName rstr

datatype server_msg =
    SmAttached rstr client_id
  | SmSessionList "session_entry list"
  | SmSessionKilled rstr
  | SmOutput bytes
  | SmExited exit_status
  | SmError protocol_error
  | SmConfigReloaded "rstr option"
  | SmCommandResult bool "rstr option"
  | SmPaneCapture rstr
  | SmExecDone "int option" rstr bool
  | SmBlockCapture rstr "int option" "rstr option"
  | SmOpenSessionPicker "session_entry list" rstr

datatype io_error = IoUnexpectedEof | IoOther nat

datatype codec_error =
    CeFrameTooLarge nat nat
  | CeUnexpectedEof
  | CeIo io_error
  | CeDecode rstr
  | CeEncode rstr

section \<open>Session names\<close>

definition SESSION_NAME_MAX_LEN :: nat where "SESSION_NAME_MAX_LEN = 64"

definition is_ascii_alphanumeric :: "nat \<Rightarrow> bool" where
  "is_ascii_alphanumeric c \<longleftrightarrow> (48 \<le> c \<and> c \<le> 57) \<or> (65 \<le> c \<and> c \<le> 90) \<or> (97 \<le> c \<and> c \<le> 122)"

datatype session_name = SessionName (as_str: rstr)

definition session_name_parse :: "rstr \<Rightarrow> protocol_error + session_name" where
  "session_name_parse name =
     (if name = [] \<or> utf8_len name > SESSION_NAME_MAX_LEN then Inl PeEmptyName
      else if \<not> list_all (\<lambda>c. is_ascii_alphanumeric c \<or> c = 95 \<or> c = 45) name then Inl (PeInvalidName name)
      else Inr (SessionName name))"

section \<open>Frames\<close>

text \<open>
  The two ends of a connection: \<open>read_exact\<close>, \<open>write_all\<close> and \<open>flush\<close> of the reader and the writer.
\<close>

record ('r, 'w) wire =
  read_exact :: "'r \<Rightarrow> nat \<Rightarrow> 'r \<times> (io_error + bytes)"
  write_all :: "'w \<Rightarrow> bytes \<Rightarrow> 'w \<times> io_error option"
  flush_wire :: "'w \<Rightarrow> 'w \<times> io_error option"

definition MAX_FRAME_BYTES :: nat where "MAX_FRAME_BYTES = 128 * 2 ^ 20"

definition u32_to_le :: "nat \<Rightarrow> bytes" where
  "u32_to_le n = map char_of [n mod 256, n div 256 mod 256, n div 65536 mod 256, n div 16777216 mod 256]"

definition u32_from_le :: "bytes \<Rightarrow> nat" where
  "u32_from_le b = foldr (\<lambda>c acc. of_char c + 256 * acc) b 0"

definition read_frame :: "('r, 'w) wire \<Rightarrow> 'r \<Rightarrow> 'r \<times> (codec_error + bytes option)" where
  "read_frame io r =
     (case read_exact io r 4 of
        (r, Inl IoUnexpectedEof) \<Rightarrow> (r, Inr None)
      | (r, Inl e) \<Rightarrow> (r, Inl (CeIo e))
      | (r, Inr len_buf) \<Rightarrow>
          (let len = u32_from_le len_buf
           in if len > MAX_FRAME_BYTES then (r, Inl (CeFrameTooLarge MAX_FRAME_BYTES len))
              else (case read_exact io r len of
                      (r, Inl IoUnexpectedEof) \<Rightarrow> (r, Inl CeUnexpectedEof)
                    | (r, Inl e) \<Rightarrow> (r, Inl (CeIo e))
                    | (r, Inr buf) \<Rightarrow> (r, Inr (Some buf)))))"

definition write_frame :: "('r, 'w) wire \<Rightarrow> 'w \<Rightarrow> bytes \<Rightarrow> 'w \<times> codec_error option" where
  "write_frame io w payload =
     (if length payload > u32_max then (w, Some (CeFrameTooLarge MAX_FRAME_BYTES u32_max))
      else if length payload > MAX_FRAME_BYTES then (w, Some (CeFrameTooLarge MAX_FRAME_BYTES (length payload)))
      else (case write_all io w (u32_to_le (length payload)) of
              (w, Some e) \<Rightarrow> (w, Some (CeIo e))
            | (w, None) \<Rightarrow>
                (case write_all io w payload of
                   (w, Some e) \<Rightarrow> (w, Some (CeIo e))
                 | (w, None) \<Rightarrow>
                     (case flush_wire io w of
                        (w, Some e) \<Rightarrow> (w, Some (CeIo e))
                      | (w, None) \<Rightarrow> (w, None)))))"

section \<open>Handshake\<close>

text \<open>The serialisation functions the handshake uses; an error carries its message.\<close>

record postcard =
  enc_client_hello :: "client_hello \<Rightarrow> rstr + bytes"
  dec_client_hello :: "bytes \<Rightarrow> rstr + client_hello"
  enc_server_hello :: "server_hello \<Rightarrow> rstr + bytes"
  dec_server_hello :: "bytes \<Rightarrow> rstr + server_hello"
  enc_server_msg :: "server_msg \<Rightarrow> rstr + bytes"
  take_version :: "bytes \<Rightarrow> rstr + (protocol_version \<times> bytes)"

datatype handshake_error =
    HsCodec codec_error
  | HsPeerClosed
  | HsVersionMismatch nat nat

text \<open>\<open>postcard::to_allocvec(..)?\<close> followed by \<open>Codec::write_frame(..)?\<close>.\<close>

definition send_encoded :: "('r, 'w) wire \<Rightarrow> 'w \<Rightarrow> rstr + bytes \<Rightarrow> 'w \<times> handshake_error option" where
  "send_encoded io w enc =
     (case enc of
        Inl e \<Rightarrow> (w, Some (HsCodec (CeEncode e)))
      | Inr b \<Rightarrow> (case write_frame io w b of (w, r) \<Rightarrow> (w, map_option HsCodec r)))"

text \<open>\<open>Codec::read_frame(..)?.ok_or(PeerClosed)?\<close>.\<close>

definition receive_frame :: "('r, 'w) wire \<Rightarrow> 'r \<Rightarrow> 'r \<times> (handshake_error + bytes)" where
  "receive_frame io r =
     (case read_frame io r of
        (r, Inl e) \<Rightarrow> (r, Inl (HsCodec e))
      | (r, Inr None) \<Rightarrow> (r, Inl HsPeerClosed)
      | (r, Inr (Some b)) \<Rightarrow> (r, Inr b))"

text \<open>
  Both sides compare the peer's version with the one they were built with (\<open>PROTOCOL_VERSION\<close> of
  their build, here the argument \<open>ours\<close>).
\<close>

definition client_handshake_with ::
    "protocol_version \<Rightarrow> postcard \<Rightarrow> ('r, 'w) wire \<Rightarrow> 'r \<Rightarrow> 'w \<Rightarrow> client_hello \<Rightarrow>
     'r \<times> 'w \<times> (handshake_error + server_hello)" where
  "client_handshake_with ours pc io r w hello =
     (case send_encoded io w (enc_client_hello pc hello) of
        (w, Some e) \<Rightarrow> (r, w, Inl e)
      | (w, None) \<Rightarrow>
          (case receive_frame io r of
             (r, Inl e) \<Rightarrow> (r, w, Inl e)
           | (r, Inr frame) \<Rightarrow>
               (case dec_server_hello pc frame of
                  Inl e \<Rightarrow> (r, w, Inl (HsCodec (CeDecode e)))
                | Inr server \<Rightarrow>
                    if sh_version server < ours then (r, w, Inl (HsVersionMismatch ours (sh_version server)))
                    else (r, w, Inr server))))"

definition client_handshake ::
    "rstr option \<Rightarrow> postcard \<Rightarrow> ('r, 'w) wire \<Rightarrow> 'r \<Rightarrow> 'w \<Rightarrow> 'r \<times> 'w \<times> (handshake_error + server_hello)" where
  "client_handshake term_var pc io r w =
     client_handshake_with PROTOCOL_VERSION pc io r w
       \<lparr>ch_version = PROTOCOL_VERSION,
        ch_term = (case term_var of Some t \<Rightarrow> t | None \<Rightarrow> lit ''xterm-256color''),
        ch_kbd = NkLegacy, ch_graphics = graphics_caps_default, ch_remote = False\<rparr>"

definition reject_version_mismatch ::
    "protocol_version \<Rightarrow> postcard \<Rightarrow> ('r, 'w) wire \<Rightarrow> 'w \<Rightarrow> nat \<Rightarrow> protocol_version \<Rightarrow> 'w \<times> handshake_error" where
  "reject_version_mismatch ours pc io w pid peer =
     (case send_encoded io w (enc_server_hello pc \<lparr>sh_version = ours, sh_daemon_pid = pid\<rparr>) of
        (w, Some e) \<Rightarrow> (w, e)
      | (w, None) \<Rightarrow>
          (case send_encoded io w (enc_server_msg pc (SmError (PeVersionMismatch peer ours))) of
             (w, Some e) \<Rightarrow> (w, e)
           | (w, None) \<Rightarrow> (w, HsVersionMismatch ours peer)))"

definition server_handshake ::
    "protocol_version \<Rightarrow> postcard \<Rightarrow> ('r, 'w) wire \<Rightarrow> 'r \<Rightarrow> 'w \<Rightarrow> nat \<Rightarrow>
     'r \<times> 'w \<times> (handshake_error + client_hello)" where
  "server_handshake ours pc io r w pid =
     (case receive_frame io r of
        (r, Inl e) \<Rightarrow> (r, w, Inl e)
      | (r, Inr frame) \<Rightarrow>
          (case take_version pc frame of
             Inl e \<Rightarrow> (r, w, Inl (HsCodec (CeDecode e)))
           | Inr (peer, _) \<Rightarrow>
               if peer \<noteq> ours then
                 (case reject_version_mismatch ours pc io w pid peer of (w, e) \<Rightarrow> (r, w, Inl e))
               else
                 (case dec_client_hello pc frame of
                    Inl e \<Rightarrow> (r, w, Inl (HsCodec (CeDecode e)))
                  | Inr client \<Rightarrow>
                      (case send_encoded io w (enc_server_hello pc \<lparr>sh_version = ours, sh_daemon_pid = pid\<rparr>) of
                         (w, Some e) \<Rightarrow> (r, w, Inl e)
                       | (w, None) \<Rightarrow> (r, w, Inr client)))))"

end
