(* ===== verification/Protocol_Props.thy ===== *)
theory Protocol_Props
  imports Protocol
begin

text \<open>
  Properties of the frame codec, the handshake and session names.
\<close>

section \<open>What the code relies on\<close>

text \<open>
  A connection that stays up: \<open>unread r\<close> are the bytes that will arrive at the reader before its end
  of file, \<open>sent w\<close> those the writer has taken.  \<open>read_exact\<close> fills the buffer or, if the end of file
  comes first, fails with \<open>UnexpectedEof\<close>.
\<close>

definition wire_ok :: "('r, 'w) wire \<Rightarrow> ('r \<Rightarrow> bytes) \<Rightarrow> ('w \<Rightarrow> bytes) \<Rightarrow> bool" where
  "wire_ok io unread sent \<longleftrightarrow>
     (\<forall>r n. n \<le> length (unread r) \<longrightarrow>
        (\<exists>r'. read_exact io r n = (r', Inr (take n (unread r))) \<and> unread r' = drop n (unread r))) \<and>
     (\<forall>r n. length (unread r) < n \<longrightarrow> (\<exists>r'. read_exact io r n = (r', Inl IoUnexpectedEof) \<and> unread r' = [])) \<and>
     (\<forall>w b. \<exists>w'. write_all io w b = (w', None) \<and> sent w' = sent w @ b) \<and>
     (\<forall>w. \<exists>w'. flush_wire io w = (w', None) \<and> sent w' = sent w)"

definition frame :: "bytes \<Rightarrow> bytes" where
  "frame p = u32_to_le (length p) @ p"

lemma length_u32_to_le [simp]: "length (u32_to_le n) = 4"
  by (simp add: u32_to_le_def)

lemma u32_le_round_trip: "n \<le> u32_max \<Longrightarrow> u32_from_le (u32_to_le n) = n"
proof -
  assume n: "n \<le> u32_max"
  have "n div 65536 = n div 256 div 256" "n div 16777216 = n div 256 div 256 div 256"
    by (simp_all add: div_mult2_eq [symmetric])
  moreover have "n div 16777216 mod 256 = n div 16777216"
    using n by (simp add: u32_max_def)
  ultimately show ?thesis
    unfolding u32_from_le_def u32_to_le_def
    using mult_div_mod_eq [of 256 n] mult_div_mod_eq [of 256 "n div 256"] mult_div_mod_eq [of 256 "n div 256 div 256"]
    by simp
qed

lemma max_frame_fits: "MAX_FRAME_BYTES \<le> u32_max"
  by (simp add: MAX_FRAME_BYTES_def u32_max_def)

lemma write_frame_sends:
  assumes "wire_ok io unread sent" "length p \<le> MAX_FRAME_BYTES"
  shows "\<exists>w'. write_frame io w p = (w', None) \<and> sent w' = sent w @ frame p"
proof -
  note io = assms(1) [unfolded wire_ok_def]
  obtain w1 where w1: "write_all io w (u32_to_le (length p)) = (w1, None)" "sent w1 = sent w @ u32_to_le (length p)"
    using io by blast
  obtain w2 where w2: "write_all io w1 p = (w2, None)" "sent w2 = sent w1 @ p"
    using io by blast
  obtain w3 where w3: "flush_wire io w2 = (w3, None)" "sent w3 = sent w2"
    using io by blast
  show ?thesis
    using assms(2) max_frame_fits w1 w2 w3 by (simp add: write_frame_def frame_def)
qed

lemma read_exact_ok:
  assumes "wire_ok io unread sent" "unread r = x @ y"
  shows "\<exists>r'. read_exact io r (length x) = (r', Inr x) \<and> unread r' = y"
  using assms(1) [unfolded wire_ok_def, THEN conjunct1, rule_format, of "length x" r] assms(2) by auto

lemma read_exact_short:
  assumes "wire_ok io unread sent" "length (unread r) < n"
  shows "\<exists>r'. read_exact io r n = (r', Inl IoUnexpectedEof) \<and> unread r' = []"
  using assms by (auto simp: wire_ok_def)

lemma read_frame_reads:
  assumes "wire_ok io unread sent" "length p \<le> MAX_FRAME_BYTES" "unread r = frame p @ rest"
  shows "\<exists>r'. read_frame io r = (r', Inr (Some p)) \<and> unread r' = rest"
proof -
  obtain r1 where r1: "read_exact io r 4 = (r1, Inr (u32_to_le (length p)))" "unread r1 = p @ rest"
    using read_exact_ok [OF assms(1), of r "u32_to_le (length p)" "p @ rest"] assms(3) by (auto simp: frame_def)
  obtain r2 where "read_exact io r1 (length p) = (r2, Inr p)" "unread r2 = rest"
    using read_exact_ok [OF assms(1) r1(2)] by auto
  then show ?thesis
    using r1 assms(2) max_frame_fits by (simp add: read_frame_def u32_le_round_trip)
qed

section \<open>Frames\<close>

fun write_frames :: "('r, 'w) wire \<Rightarrow> 'w \<Rightarrow> bytes list \<Rightarrow> 'w \<times> codec_error option" where
  "write_frames io w [] = (w, None)"
| "write_frames io w (p # ps) =
     (case write_frame io w p of
        (w, Some e) \<Rightarrow> (w, Some e)
      | (w, None) \<Rightarrow> write_frames io w ps)"

fun read_frames :: "('r, 'w) wire \<Rightarrow> nat \<Rightarrow> 'r \<Rightarrow> 'r \<times> (codec_error + bytes option) list" where
  "read_frames io 0 r = (r, [])"
| "read_frames io (Suc n) r =
     (let (r, x) = read_frame io r; (r, xs) = read_frames io n r in (r, x # xs))"

lemma write_frames_sends:
  assumes "wire_ok io unread sent"
  shows "list_all (\<lambda>p. length p \<le> MAX_FRAME_BYTES) ps \<Longrightarrow>
    \<exists>w'. write_frames io w ps = (w', None) \<and> sent w' = sent w @ concat (map frame ps)"
proof (induction ps arbitrary: w)
  case (Cons p ps)
  obtain w1 where w1: "write_frame io w p = (w1, None)" "sent w1 = sent w @ frame p"
    using write_frame_sends [OF assms, of p] Cons.prems by auto
  then show ?case
    using Cons.IH [of w1] Cons.prems by auto
qed simp

lemma read_frames_reads:
  assumes "wire_ok io unread sent"
  shows "list_all (\<lambda>p. length p \<le> MAX_FRAME_BYTES) ps \<Longrightarrow> unread r = concat (map frame ps) \<Longrightarrow>
    snd (read_frames io (Suc (length ps)) r) = map (\<lambda>p. Inr (Some p)) ps @ [Inr None]"
proof (induction ps arbitrary: r)
  case Nil
  then have "length (unread r) < 4"
    by simp
  then obtain r' where "read_exact io r 4 = (r', Inl IoUnexpectedEof)"
    using read_exact_short [OF assms, of r 4] by auto
  then show ?case
    by (simp add: read_frame_def)
next
  case (Cons p ps)
  obtain r1 where r1: "read_frame io r = (r1, Inr (Some p))" "unread r1 = concat (map frame ps)"
    using read_frame_reads [OF assms, of p r "concat (map frame ps)"] Cons.prems by auto
  show ?case
    using Cons.IH [of r1] Cons.prems(1) r1 by (simp add: case_prod_beta Let_def)
qed

text \<open>
  C16: frames survive the connection.  Any payloads up to the frame limit, written one after the other,
  are sent without an error, and a reader of those bytes gets the same payloads in the same order and
  then the clean end of file.
\<close>

theorem frames_round_trip:
  assumes "wire_ok io unread sent" "list_all (\<lambda>p. length p \<le> MAX_FRAME_BYTES) ps"
    and "sent w = []" "unread r = sent (fst (write_frames io w ps))"
  shows "snd (write_frames io w ps) = None \<and>
         snd (read_frames io (Suc (length ps)) r) = map (\<lambda>p. Inr (Some p)) ps @ [Inr None]"
  using write_frames_sends [OF assms(1,2), of w] read_frames_reads [OF assms(1,2), of r] assms(3,4) by auto

text \<open>A connection over a buffer.\<close>

definition buffer_wire :: "(bytes, bytes) wire" where
  "buffer_wire = \<lparr>read_exact = \<lambda>r n. if n \<le> length r then (drop n r, Inr (take n r)) else ([], Inl IoUnexpectedEof),
     write_all = \<lambda>w b. (w @ b, None), flush_wire = \<lambda>w. (w, None)\<rparr>"

lemma buffer_wire_ok: "wire_ok buffer_wire (\<lambda>r. r) (\<lambda>w. w)"
  by (simp add: wire_ok_def buffer_wire_def)

theorem frames_round_trip_witness:
  "snd (write_frames buffer_wire [] [''ab'', [], ''c'']) = None \<and>
   snd (read_frames buffer_wire (Suc (length [''ab'', [], ''c''])) (fst (write_frames buffer_wire [] [''ab'', [], ''c'']))) =
     map (\<lambda>p. Inr (Some p)) [''ab'', [], ''c''] @ [Inr None]"
  by (rule frames_round_trip [OF buffer_wire_ok]) (simp_all add: MAX_FRAME_BYTES_def)

text \<open>
  a frame that is cut off.  If the connection ends inside a frame's payload the reader reports an
  unexpected end of file; if it ends inside the length prefix, with one to three of its bytes read, the
  reader takes it for the clean end of file of a finished conversation.
\<close>

theorem truncated_frame:
  assumes "wire_ok io unread sent" "length p \<le> MAX_FRAME_BYTES"
    and "k < length (frame p)" "unread r = take k (frame p)"
  shows "snd (read_frame io r) = (if k < 4 then Inr None else Inl CeUnexpectedEof)"
proof (cases "k < 4")
  case True
  then have "length (unread r) < 4"
    using assms(4) by simp
  then show ?thesis
    using read_exact_short [OF assms(1), of r 4] True by (auto simp: read_frame_def)
next
  case False
  then have u: "unread r = u32_to_le (length p) @ take (k - 4) p" and k: "k - 4 < length p"
    using assms(3,4) by (simp_all add: frame_def)
  obtain r1 where r1: "read_exact io r 4 = (r1, Inr (u32_to_le (length p)))" "unread r1 = take (k - 4) p"
    using read_exact_ok [OF assms(1) u] by auto
  have "length (unread r1) < length p"
    using r1(2) k by simp
  then show ?thesis
    using read_exact_short [OF assms(1), of r1 "length p"] r1(1) assms(2) max_frame_fits False
    by (auto simp: read_frame_def u32_le_round_trip)
qed

theorem truncated_frame_witness:
  "snd (read_frame buffer_wire (take 3 (frame ''abc''))) = Inr None \<and>
   snd (read_frame buffer_wire (take 6 (frame ''abc''))) = Inl CeUnexpectedEof"
  using truncated_frame [OF buffer_wire_ok, of "''abc''" 3] truncated_frame [OF buffer_wire_ok, of "''abc''" 6]
  by (simp add: frame_def MAX_FRAME_BYTES_def)

section \<open>Handshake\<close>

text \<open>The messages of a handshake fit a frame and survive their encoding.\<close>

definition hellos_ok :: "postcard \<Rightarrow> client_hello \<Rightarrow> server_hello \<Rightarrow> bytes \<Rightarrow> bool" where
  "hellos_ok pc hello server hb \<longleftrightarrow>
     enc_client_hello pc hello = Inr hb \<and> length hb \<le> MAX_FRAME_BYTES \<and> dec_client_hello pc hb = Inr hello \<and>
     (\<exists>rest. take_version pc hb = Inr (ch_version hello, rest)) \<and>
     (\<exists>sb. enc_server_hello pc server = Inr sb \<and> length sb \<le> MAX_FRAME_BYTES \<and> dec_server_hello pc sb = Inr server) \<and>
     (\<exists>eb. enc_server_msg pc (SmError (PeVersionMismatch (ch_version hello) (sh_version server))) = Inr eb \<and>
           length eb \<le> MAX_FRAME_BYTES)"

lemma receive_frame_reads:
  assumes "wire_ok io unread sent" "length p \<le> MAX_FRAME_BYTES" "unread r = frame p @ rest"
  shows "\<exists>r'. receive_frame io r = (r', Inr p) \<and> unread r' = rest"
  using read_frame_reads [OF assms] by (auto simp: receive_frame_def)

lemma send_encoded_sends:
  assumes "wire_ok io unread sent" "length p \<le> MAX_FRAME_BYTES"
  shows "\<exists>w'. send_encoded io w (Inr p) = (w', None) \<and> sent w' = sent w @ frame p"
  using write_frame_sends [OF assms, of w] by (auto simp: send_encoded_def)

lemma server_handshake_result:
  assumes "wire_ok io unread sent" "hellos_ok pc hello \<lparr>sh_version = sv, sh_daemon_pid = pid\<rparr> hb" "unread rs = frame hb"
  shows "\<exists>rs' ws' sb rest. server_handshake sv pc io rs ws pid =
      (rs', ws', if ch_version hello = sv then Inr hello else Inl (HsVersionMismatch sv (ch_version hello))) \<and>
    enc_server_hello pc \<lparr>sh_version = sv, sh_daemon_pid = pid\<rparr> = Inr sb \<and> sent ws' = sent ws @ frame sb @ rest"
proof -
  obtain sb eb vr where h: "length hb \<le> MAX_FRAME_BYTES" "dec_client_hello pc hb = Inr hello"
    "take_version pc hb = Inr (ch_version hello, vr)"
    "enc_server_hello pc \<lparr>sh_version = sv, sh_daemon_pid = pid\<rparr> = Inr sb" "length sb \<le> MAX_FRAME_BYTES"
    "enc_server_msg pc (SmError (PeVersionMismatch (ch_version hello) sv)) = Inr eb" "length eb \<le> MAX_FRAME_BYTES"
    using assms(2) by (auto simp: hellos_ok_def)
  obtain rs' where r: "receive_frame io rs = (rs', Inr hb)"
    using receive_frame_reads [OF assms(1) h(1), of rs "[]"] assms(3) by auto
  obtain w1 where w1: "send_encoded io ws (Inr sb) = (w1, None)" "sent w1 = sent ws @ frame sb"
    using send_encoded_sends [OF assms(1) h(5), of ws] by auto
  obtain w2 where w2: "send_encoded io w1 (Inr eb) = (w2, None)" "sent w2 = sent w1 @ frame eb"
    using send_encoded_sends [OF assms(1) h(7), of w1] by auto
  show ?thesis
    using h r w1 w2 by (auto simp: server_handshake_def reject_version_mismatch_def)
qed

text \<open>
  what the two sides of a handshake conclude.  A daemon built with version \<open>sv\<close> accepts exactly
  the clients of its own version and tells others so; a client built with version \<open>cv\<close> refuses exactly
  the older daemons.  So a client older than the daemon ends its handshake successfully although the
  daemon has rejected it.
\<close>

theorem handshake_version_policy:
  assumes "wire_ok io unread sent" "hellos_ok pc hello \<lparr>sh_version = sv, sh_daemon_pid = pid\<rparr> hb"
    and "ch_version hello = cv" "sent ws = []" "unread rs = frame hb"
    and "server_handshake sv pc io rs ws pid = (rs', ws', res_s)" "unread rc = sent ws'"
    and "client_handshake_with cv pc io rc wc hello = (rc', wc', res_c)"
  shows "sent wc' = sent wc @ frame hb \<and>
         res_s = (if cv = sv then Inr hello else Inl (HsVersionMismatch sv cv)) \<and>
         res_c = (if sv < cv then Inl (HsVersionMismatch cv sv) else Inr \<lparr>sh_version = sv, sh_daemon_pid = pid\<rparr>)"
proof -
  obtain sb rest where s: "res_s = (if cv = sv then Inr hello else Inl (HsVersionMismatch sv cv))"
    "enc_server_hello pc \<lparr>sh_version = sv, sh_daemon_pid = pid\<rparr> = Inr sb" "sent ws' = frame sb @ rest"
    using server_handshake_result [OF assms(1,2,5), of ws] assms(3,4,6) by auto
  have h: "enc_client_hello pc hello = Inr hb" "length hb \<le> MAX_FRAME_BYTES" "length sb \<le> MAX_FRAME_BYTES"
    "dec_server_hello pc sb = Inr \<lparr>sh_version = sv, sh_daemon_pid = pid\<rparr>"
    using assms(2) s(2) by (auto simp: hellos_ok_def)
  obtain w1 where w1: "send_encoded io wc (Inr hb) = (w1, None)" "sent w1 = sent wc @ frame hb"
    using send_encoded_sends [OF assms(1) h(2), of wc] by auto
  obtain r1 where r1: "receive_frame io rc = (r1, Inr sb)"
    using receive_frame_reads [OF assms(1) h(3), of rc rest] assms(7) s(3) by auto
  show ?thesis
    using assms(8) s(1) h w1 r1 by (auto simp: client_handshake_with_def split: if_splits)
qed

definition sample_hello :: client_hello where
  "sample_hello = \<lparr>ch_version = 12, ch_term = lit ''xterm'', ch_kbd = NkKitty 1, ch_graphics = graphics_caps_default,
     ch_remote = False\<rparr>"

definition sample_postcard :: postcard where
  "sample_postcard = \<lparr>enc_client_hello = \<lambda>h. Inr ''c'', dec_client_hello = \<lambda>b. Inr sample_hello,
     enc_server_hello = \<lambda>h. Inr ''s'', dec_server_hello = \<lambda>b. Inr \<lparr>sh_version = PROTOCOL_VERSION, sh_daemon_pid = 7\<rparr>,
     enc_server_msg = \<lambda>m. Inr ''e'', take_version = \<lambda>b. Inr (12, [])\<rparr>"

theorem handshake_version_policy_witness:
  "\<exists>rs' ws' rc' wc' res_s res_c. server_handshake PROTOCOL_VERSION sample_postcard buffer_wire (frame ''c'') [] 7 = (rs', ws', res_s) \<and>
     client_handshake_with 12 sample_postcard buffer_wire ws' [] sample_hello = (rc', wc', res_c) \<and>
     res_s = Inl (HsVersionMismatch PROTOCOL_VERSION 12) \<and> res_c = Inr \<lparr>sh_version = PROTOCOL_VERSION, sh_daemon_pid = 7\<rparr>"
proof -
  obtain rs' ws' res_s where s: "server_handshake PROTOCOL_VERSION sample_postcard buffer_wire (frame ''c'') [] 7 = (rs', ws', res_s)"
    by (metis prod_cases3)
  obtain rc' wc' res_c where c: "client_handshake_with 12 sample_postcard buffer_wire ws' [] sample_hello = (rc', wc', res_c)"
    by (metis prod_cases3)
  have ok: "hellos_ok sample_postcard sample_hello \<lparr>sh_version = PROTOCOL_VERSION, sh_daemon_pid = 7\<rparr> ''c''"
    by (simp add: hellos_ok_def sample_postcard_def sample_hello_def MAX_FRAME_BYTES_def)
  show ?thesis
    using handshake_version_policy [OF buffer_wire_ok ok _ refl refl s refl c] s c
    by (simp add: sample_hello_def PROTOCOL_VERSION_def)
qed

section \<open>Session names\<close>

text \<open>
  session names.  A name is accepted exactly if it has 1 to 64 characters, all ASCII letters,
  digits, underscores and hyphens; it is kept as it was given, so that it is one byte per character.
\<close>

theorem session_name_accepts:
  "session_name_parse name = Inr sn \<longleftrightarrow>
     sn = SessionName name \<and> 1 \<le> length name \<and> length name \<le> 64 \<and> utf8_len name = length name \<and>
     list_all (\<lambda>c. is_ascii_alphanumeric c \<or> c = 95 \<or> c = 45) name"
proof -
  have "utf8_len name = length name" if "list_all (\<lambda>c. is_ascii_alphanumeric c \<or> c = 95 \<or> c = 45) name"
    using that
  proof (induction name)
    case (Cons c name)
    then have "c < 128"
      by (auto simp: is_ascii_alphanumeric_def)
    then show ?case
      using Cons by (simp add: utf8_len_def utf8_width_def)
  qed (simp add: utf8_len_def)
  then show ?thesis
    by (auto simp: session_name_parse_def SESSION_NAME_MAX_LEN_def Suc_le_eq)
qed

end
