(* ===== verification/Finder.thy ===== *)
theory Finder
  imports Keys Prelude "HOL-Library.Sublist"
begin

text \<open>
  The filter lists of the overlays, after \<open>crates/mux/src/finder.rs\<close>, and the two lists built on a
  selection cursor: the history palette (\<open>history.rs\<close>) and the buffer chooser (\<open>buffer.rs\<close>).  Lower-casing
  (Unicode) is the parameter \<open>lower\<close>.
\<close>

section \<open>Filtering\<close>

text \<open>\<open>str::contains\<close>.\<close>

fun str_contains :: "rstr \<Rightarrow> rstr \<Rightarrow> bool" where
  "str_contains [] needle \<longleftrightarrow> needle = []"
| "str_contains (c # cs) needle \<longleftrightarrow> take (length needle) (c # cs) = needle \<or> str_contains cs needle"

lemma str_contains_sublist: "str_contains h needle \<longleftrightarrow> sublist needle h"
proof (induction h)
  case (Cons c cs)
  have "take (length needle) (c # cs) = needle \<longleftrightarrow> prefix needle (c # cs)"
    by (metis append_eq_conv_conj append_take_drop_id prefix_def)
  then show ?case
    using Cons by (simp only: str_contains.simps sublist_Cons_right)
qed auto

definition filtered_indices :: "(rstr \<Rightarrow> rstr) \<Rightarrow> rstr list \<Rightarrow> rstr \<Rightarrow> nat list" where
  "filtered_indices lower haystacks flt =
     (if flt = [] then [0..<length haystacks]
      else (let needle = lower flt in filter (\<lambda>i. str_contains (haystacks ! i) needle) [0..<length haystacks]))"

record filter_list =
  fl_filter :: rstr
  fl_cursor :: nat

definition fl_new :: filter_list where
  "fl_new = \<lparr>fl_filter = [], fl_cursor = 0\<rparr>"

definition filtered_len :: "(rstr \<Rightarrow> rstr) \<Rightarrow> rstr list \<Rightarrow> filter_list \<Rightarrow> nat" where
  "filtered_len lower hs f = length (filtered_indices lower hs (fl_filter f))"

definition fl_selected :: "(rstr \<Rightarrow> rstr) \<Rightarrow> rstr list \<Rightarrow> filter_list \<Rightarrow> nat option" where
  "fl_selected lower hs f = nth_opt (filtered_indices lower hs (fl_filter f)) (fl_cursor f)"

definition fl_up :: "filter_list \<Rightarrow> filter_list \<times> bool" where
  "fl_up f = (if fl_cursor f > 0 then (f\<lparr>fl_cursor := fl_cursor f - 1\<rparr>, True) else (f, False))"

definition fl_down :: "(rstr \<Rightarrow> rstr) \<Rightarrow> rstr list \<Rightarrow> filter_list \<Rightarrow> filter_list \<times> bool" where
  "fl_down lower hs f =
     (let len = filtered_len lower hs f
      in if len = 0 then (f, False)
         else (let mx = len - 1
               in if fl_cursor f < mx then (f\<lparr>fl_cursor := fl_cursor f + 1\<rparr>, True) else (f, False)))"

definition fl_home :: "filter_list \<Rightarrow> filter_list \<times> bool" where
  "fl_home f = (if fl_cursor f \<noteq> 0 then (f\<lparr>fl_cursor := 0\<rparr>, True) else (f, False))"

definition fl_end :: "(rstr \<Rightarrow> rstr) \<Rightarrow> rstr list \<Rightarrow> filter_list \<Rightarrow> filter_list \<times> bool" where
  "fl_end lower hs f =
     (let target = filtered_len lower hs f - 1
      in if fl_cursor f = target then (f, False) else (f\<lparr>fl_cursor := target\<rparr>, True))"

definition fl_push :: "nat \<Rightarrow> filter_list \<Rightarrow> filter_list" where
  "fl_push c f = f\<lparr>fl_filter := fl_filter f @ [c], fl_cursor := 0\<rparr>"

definition fl_backspace :: "(rstr \<Rightarrow> rstr) \<Rightarrow> rstr list \<Rightarrow> filter_list \<Rightarrow> filter_list \<times> bool" where
  "fl_backspace lower hs f =
     (if fl_filter f \<noteq> [] then
        (let f = f\<lparr>fl_filter := butlast (fl_filter f)\<rparr>; len = filtered_len lower hs f
         in (f\<lparr>fl_cursor := min (fl_cursor f) (len - 1)\<rparr>, True))
      else (f, False))"

definition fl_clear :: "filter_list \<Rightarrow> filter_list \<times> bool" where
  "fl_clear f = (if fl_filter f = [] then (f, False) else (f\<lparr>fl_filter := [], fl_cursor := 0\<rparr>, True))"

datatype finder_key =
    FkUp | FkDown | FkHome | FkEnd | FkChar nat | FkBackspace | FkClear | FkAccept | FkCancel | FkPass

definition finder_classify :: "key_event \<Rightarrow> finder_key" where
  "finder_classify ev =
     (let m = ke_mods ev
      in case ke_key ev of
           KEscape \<Rightarrow> if m = 0 then FkCancel else FkPass
         | KEnter \<Rightarrow> FkAccept
         | KKeypadEnter \<Rightarrow> FkAccept
         | KArrow d \<Rightarrow>
             if d = DirUp \<and> m = 0 then FkUp else if d = DirDown \<and> m = 0 then FkDown else FkPass
         | KHome \<Rightarrow> if m = 0 then FkHome else FkPass
         | KEnd \<Rightarrow> if m = 0 then FkEnd else FkPass
         | KBackspace \<Rightarrow> if m = 0 then FkBackspace else FkPass
         | KChar c \<Rightarrow>
             if c = chr (CHR ''k'') \<and> m = MOD_CTRL then FkUp
             else if c = chr (CHR ''j'') \<and> m = MOD_CTRL then FkDown
             else if c = chr (CHR ''u'') \<and> m = MOD_CTRL then FkClear
             else if m = 0 \<or> m = MOD_SHIFT then FkChar c
             else FkPass
         | _ \<Rightarrow> FkPass)"

section \<open>History palette\<close>

record history_entry =
  he_session :: rstr
  he_window :: window_id
  he_window_idx :: nat
  he_pane :: pane_id
  he_prompt_line :: nat
  he_command :: rstr
  he_exit :: "int option"
  he_duration :: "nat option"
  he_haystack :: rstr

record history_target =
  ht_session :: rstr
  ht_window :: window_id
  ht_pane :: pane_id
  ht_prompt_line :: nat
  ht_command :: rstr

record history_state =
  hs_entries :: "history_entry list"
  hs_finder :: filter_list

datatype history_outcome = HoNone | HoRedraw | HoCancel | HoJump history_target

definition history_new :: "history_entry list \<Rightarrow> history_state" where
  "history_new es = \<lparr>hs_entries = es, hs_finder = fl_new\<rparr>"

definition haystacks :: "history_state \<Rightarrow> rstr list" where
  "haystacks s = map he_haystack (hs_entries s)"

definition history_visible_indices :: "(rstr \<Rightarrow> rstr) \<Rightarrow> history_state \<Rightarrow> nat list" where
  "history_visible_indices lower s = filtered_indices lower (haystacks s) (fl_filter (hs_finder s))"

definition history_selected :: "(rstr \<Rightarrow> rstr) \<Rightarrow> history_state \<Rightarrow> nat option" where
  "history_selected lower s = fl_selected lower (haystacks s) (hs_finder s)"

definition target_of :: "history_entry \<Rightarrow> history_target" where
  "target_of e = \<lparr>ht_session = he_session e, ht_window = he_window e, ht_pane = he_pane e,
     ht_prompt_line = he_prompt_line e, ht_command = he_command e\<rparr>"

definition history_moved :: "history_state \<Rightarrow> filter_list \<times> bool \<Rightarrow> history_state \<times> history_outcome" where
  "history_moved s = (\<lambda>(f, changed). (s\<lparr>hs_finder := f\<rparr>, if changed then HoRedraw else HoNone))"

definition handle_history :: "(rstr \<Rightarrow> rstr) \<Rightarrow> key_event \<Rightarrow> history_state \<Rightarrow> history_state \<times> history_outcome" where
  "handle_history lower ev s =
     (let hs = haystacks s; f = hs_finder s
      in case finder_classify ev of
           FkCancel \<Rightarrow> (s, HoCancel)
         | FkAccept \<Rightarrow>
             (case fl_selected lower hs f of
                Some i \<Rightarrow> (s, HoJump (target_of (hs_entries s ! i)))
              | None \<Rightarrow> (s, HoNone))
         | FkUp \<Rightarrow> history_moved s (fl_up f)
         | FkDown \<Rightarrow> history_moved s (fl_down lower hs f)
         | FkHome \<Rightarrow> history_moved s (fl_home f)
         | FkEnd \<Rightarrow> history_moved s (fl_end lower hs f)
         | FkClear \<Rightarrow> history_moved s (fl_clear f)
         | FkBackspace \<Rightarrow> history_moved s (fl_backspace lower hs f)
         | FkChar c \<Rightarrow> (s\<lparr>hs_finder := fl_push c f\<rparr>, HoRedraw)
         | FkPass \<Rightarrow> (s, HoNone))"

section \<open>Buffer chooser\<close>

text \<open>
  An index out of range panics in Rust; a handler that would panic gives \<open>None\<close>.
\<close>

record buffer_entry =
  be_name :: rstr
  be_preview :: rstr

record buffer_picker_state =
  bp_entries :: "buffer_entry list"
  bp_selected :: nat

datatype buffer_action = BufPaste rstr | BufDelete rstr

datatype buffer_outcome = BoNone | BoRedraw | BoCancel | BoAct buffer_action

definition buf_set_sel :: "buffer_picker_state \<Rightarrow> nat \<Rightarrow> buffer_picker_state \<times> buffer_outcome" where
  "buf_set_sel s target =
     (let clamped = min target (length (bp_entries s) - 1)
      in if clamped = bp_selected s then (s, BoNone) else (s\<lparr>bp_selected := clamped\<rparr>, BoRedraw))"

definition buf_move_sel :: "buffer_picker_state \<Rightarrow> bool \<Rightarrow> buffer_picker_state \<times> buffer_outcome" where
  "buf_move_sel s down =
     (let last = length (bp_entries s) - 1
      in buf_set_sel s (if down then min (bp_selected s + 1) last else bp_selected s - 1))"

definition buf_clamp_sel :: "buffer_picker_state \<Rightarrow> buffer_picker_state" where
  "buf_clamp_sel s =
     (if bp_entries s = [] then s\<lparr>bp_selected := 0\<rparr>
      else s\<lparr>bp_selected := min (bp_selected s) (length (bp_entries s) - 1)\<rparr>)"

definition handle_buffers :: "key_event \<Rightarrow> buffer_picker_state \<Rightarrow> (buffer_picker_state \<times> buffer_outcome) option" where
  "handle_buffers ev s =
     (let m = ke_mods ev; k = ke_key ev
      in if m = 0 \<and> k = KEscape then Some (s, BoCancel)
         else if bp_entries s = [] then Some (s, BoNone)
         else (let last = length (bp_entries s) - 1
               in case k of
                    KArrow d \<Rightarrow>
                      if d = DirUp \<and> m = 0 then Some (buf_move_sel s False)
                      else if d = DirDown \<and> m = 0 then Some (buf_move_sel s True)
                      else Some (s, BoNone)
                  | KHome \<Rightarrow> if m = 0 then Some (buf_set_sel s 0) else Some (s, BoNone)
                  | KEnd \<Rightarrow> if m = 0 then Some (buf_set_sel s last) else Some (s, BoNone)
                  | KEnter \<Rightarrow> map_option (\<lambda>e. (s, BoAct (BufPaste (be_name e)))) (nth_opt (bp_entries s) (bp_selected s))
                  | KKeypadEnter \<Rightarrow> map_option (\<lambda>e. (s, BoAct (BufPaste (be_name e)))) (nth_opt (bp_entries s) (bp_selected s))
                  | KChar c \<Rightarrow>
                      if c = chr (CHR ''k'') \<and> m = 0 then Some (buf_move_sel s False)
                      else if c = chr (CHR ''p'') \<and> m = MOD_CTRL then Some (buf_move_sel s False)
                      else if c = chr (CHR ''j'') \<and> m = 0 then Some (buf_move_sel s True)
                      else if c = chr (CHR ''n'') \<and> m = MOD_CTRL then Some (buf_move_sel s True)
                      else if c = chr (CHR ''g'') \<and> m = 0 then Some (buf_set_sel s 0)
                      else if c = chr (CHR ''G'') \<and> (m = 0 \<or> m = MOD_SHIFT) then Some (buf_set_sel s last)
                      else if c = chr (CHR ''d'') \<and> m = 0 then
                        (case nth_opt (bp_entries s) (bp_selected s) of
                           None \<Rightarrow> None
                         | Some e \<Rightarrow>
                             Some (buf_clamp_sel (s\<lparr>bp_entries := remove_at (bp_selected s) (bp_entries s)\<rparr>),
                                   BoAct (BufDelete (be_name e))))
                      else Some (s, BoNone)
                  | _ \<Rightarrow> Some (s, BoNone)))"

section \<open>The cursor stays on a row\<close>

definition finder_ok :: "(rstr \<Rightarrow> rstr) \<Rightarrow> rstr list \<Rightarrow> filter_list \<Rightarrow> bool" where
  "finder_ok lower hs f \<longleftrightarrow> fl_cursor f < max 1 (filtered_len lower hs f)"

lemma filtered_indices_set:
  "i \<in> set (filtered_indices lower hs flt) \<longleftrightarrow> i < length hs \<and> (flt = [] \<or> sublist (lower flt) (hs ! i))"
  by (auto simp: filtered_indices_def str_contains_sublist)

lemma sorted_filtered_indices: "sorted (filtered_indices lower hs flt) \<and> distinct (filtered_indices lower hs flt)"
  by (simp add: filtered_indices_def sorted_wrt_filter)

lemma finder_ops_ok:
  assumes "finder_ok lower hs f"
  shows "finder_ok lower hs (fst (fl_up f))" "finder_ok lower hs (fst (fl_down lower hs f))"
    "finder_ok lower hs (fst (fl_home f))" "finder_ok lower hs (fst (fl_end lower hs f))"
    "finder_ok lower hs (fl_push c f)" "finder_ok lower hs (fst (fl_backspace lower hs f))"
    "finder_ok lower hs (fst (fl_clear f))" "finder_ok lower hs fl_new"
  using assms
  by (auto simp: finder_ok_def fl_up_def fl_down_def fl_home_def fl_end_def fl_push_def fl_backspace_def
      fl_clear_def fl_new_def filtered_len_def Let_def)

definition history_ok :: "(rstr \<Rightarrow> rstr) \<Rightarrow> history_state \<Rightarrow> bool" where
  "history_ok lower s \<longleftrightarrow> finder_ok lower (haystacks s) (hs_finder s)"

lemma history_moved_fields [simp]:
  "hs_entries (fst (history_moved s r)) = hs_entries s" "hs_finder (fst (history_moved s r)) = fst r"
  "haystacks (fst (history_moved s r)) = haystacks s"
  by (simp_all add: history_moved_def case_prod_beta haystacks_def)

lemma handle_history_entries [simp]: "hs_entries (fst (handle_history lower ev s)) = hs_entries s"
  by (simp add: handle_history_def Let_def split: finder_key.split option.split)

lemma handle_history_ok: "history_ok lower s \<Longrightarrow> history_ok lower (fst (handle_history lower ev s))"
  by (auto simp: handle_history_def history_ok_def Let_def haystacks_def finder_ops_ok
      split: finder_key.split option.split)

definition buffers_ok :: "buffer_picker_state \<Rightarrow> bool" where
  "buffers_ok s \<longleftrightarrow> bp_selected s < max 1 (length (bp_entries s))"

lemma buf_sel_ok [simp]:
  "buffers_ok s \<Longrightarrow> buffers_ok (fst (buf_set_sel s n))" "buffers_ok s \<Longrightarrow> buffers_ok (fst (buf_move_sel s d))"
  "buffers_ok (buf_clamp_sel s)"
  by (auto simp: buffers_ok_def buf_set_sel_def buf_move_sel_def buf_clamp_sel_def Let_def)

end
