(* ===== verification/Tree_View.thy ===== *)
theory Tree_View
  imports Finder Key_Spec
begin

text \<open>
  The session tree overlay, after \<open>crates/mux/src/tree.rs\<close>: sessions, windows and panes in preorder,
  collapsing, an incremental filter, and the key handler of its four modes.  A set of collapsed nodes
  is a set; an index out of range, where Rust panics, gives \<open>None\<close>.
\<close>

datatype tree_kind = TkSession | TkWindow window_id | TkPane window_id pane_id

record tree_node =
  tv_session :: rstr
  tv_kind :: tree_kind
  tv_depth :: nat
  tv_label :: rstr
  tv_name :: rstr
  tv_index :: nat
  tv_is_current :: bool

datatype node_key = NkSession rstr | NkWindow rstr window_id

definition tree_node_key :: "tree_node \<Rightarrow> node_key option" where
  "tree_node_key n =
     (case tv_kind n of
        TkSession \<Rightarrow> Some (NkSession (tv_session n))
      | TkWindow w \<Rightarrow> Some (NkWindow (tv_session n) w)
      | TkPane _ _ \<Rightarrow> None)"

datatype tree_mode = TmNavigate | TmConfirmKill | TmRename rstr | TmFilter

record tree_state =
  ts_nodes :: "tree_node list"
  ts_selected :: nat
  ts_mode :: tree_mode
  ts_collapsed :: "node_key set"
  ts_filter :: rstr

definition tree_state_new :: "tree_node list \<Rightarrow> tree_state" where
  "tree_state_new ns = \<lparr>ts_nodes = ns, ts_selected = 0, ts_mode = TmNavigate, ts_collapsed = {}, ts_filter = []\<rparr>"

section \<open>Visible rows\<close>

definition row_keeps :: "bool list \<Rightarrow> tree_node list \<Rightarrow> nat \<Rightarrow> bool" where
  "row_keeps matched ns i \<longleftrightarrow>
     matched ! i \<or>
     list_ex (\<lambda>j. matched ! j) (takeWhile (\<lambda>j. tv_depth (ns ! j) > tv_depth (ns ! i)) [i + 1..<length ns])"

definition keep_rows :: "(rstr \<Rightarrow> rstr) \<Rightarrow> tree_state \<Rightarrow> bool list" where
  "keep_rows lower s =
     (let ns = ts_nodes s
      in if ts_filter s = [] then replicate (length ns) True
         else (let needle = lower (ts_filter s);
                   matched = map (\<lambda>n. str_contains (lower (tv_label n)) needle) ns
               in map (row_keeps matched ns) [0..<length ns]))"

text \<open>The ancestor stack has its top at the head.\<close>

fun visible_walk :: "node_key set \<Rightarrow> bool list \<Rightarrow> nat \<Rightarrow> (nat \<times> bool) list \<Rightarrow> tree_node list \<Rightarrow> nat list" where
  "visible_walk col keep i stack [] = []"
| "visible_walk col keep i stack (n # ns) =
     (let stack = dropWhile (\<lambda>(d, _). d \<ge> tv_depth n) stack;
          here = (case tree_node_key n of None \<Rightarrow> False | Some k \<Rightarrow> k \<in> col);
          rest = visible_walk col keep (i + 1) ((tv_depth n, here) # stack) ns
      in if keep ! i \<and> \<not> list_ex snd stack then i # rest else rest)"

definition visible_indices :: "(rstr \<Rightarrow> rstr) \<Rightarrow> tree_state \<Rightarrow> nat list" where
  "visible_indices lower s = visible_walk (ts_collapsed s) (keep_rows lower s) 0 [] (ts_nodes s)"

section \<open>Actions and outcomes\<close>

datatype tree_action =
    TaSwitch rstr "window_id option" "pane_id option"
  | TaKillSession rstr
  | TaKillWindow rstr window_id
  | TaKillPane rstr pane_id
  | TaRenameWindow rstr window_id rstr
  | TaRenamePane rstr pane_id rstr
  | TaRenameSession rstr rstr

datatype tree_outcome = ToNone | ToRedraw | ToCancel | ToAct tree_action

definition window_label :: "nat \<Rightarrow> rstr \<Rightarrow> rstr" where
  "window_label i name = lit (dec i) @ lit '': '' @ name"

definition pane_label :: "nat \<Rightarrow> rstr \<Rightarrow> rstr" where
  "pane_label i name =
     (if name = [] then lit ''pane '' @ lit (dec i) else lit ''pane '' @ lit (dec i) @ lit '': '' @ name)"

definition session_label :: "rstr \<Rightarrow> nat \<Rightarrow> nat \<Rightarrow> rstr" where
  "session_label name windows panes =
     name @ [32, 0x2014, 32] @ lit (dec windows) @ lit '' win, '' @ lit (dec panes) @ lit '' panes''"

text \<open>
  The end of the subtree at \<open>idx\<close>: the run of deeper nodes that follows it.
\<close>

definition prune_subtree :: "tree_node list \<Rightarrow> nat \<Rightarrow> tree_node list" where
  "prune_subtree ns idx =
     (if idx \<ge> length ns then ns
      else take idx ns @ dropWhile (\<lambda>n. tv_depth n > tv_depth (ns ! idx)) (drop (idx + 1) ns))"

definition tree_clamp_sel :: "(rstr \<Rightarrow> rstr) \<Rightarrow> tree_state \<Rightarrow> tree_state" where
  "tree_clamp_sel lower s =
     (let vis = visible_indices lower s
      in if ts_selected s \<in> set vis then s
         else case find (\<lambda>i. i \<le> ts_selected s) (rev vis) of
                Some i \<Rightarrow> s\<lparr>ts_selected := i\<rparr>
              | None \<Rightarrow> (case vis of i # _ \<Rightarrow> s\<lparr>ts_selected := i\<rparr> | [] \<Rightarrow> s\<lparr>ts_selected := 0\<rparr>))"

definition select_visible :: "tree_state \<Rightarrow> nat list \<Rightarrow> nat \<Rightarrow> tree_state \<times> tree_outcome" where
  "select_visible s vis pos =
     (case nth_opt vis (min pos (length vis - 1)) of
        None \<Rightarrow> (s, ToNone)
      | Some idx \<Rightarrow> if idx = ts_selected s then (s, ToNone) else (s\<lparr>ts_selected := idx\<rparr>, ToRedraw))"

definition tree_move_sel :: "tree_state \<Rightarrow> nat list \<Rightarrow> nat option \<Rightarrow> bool \<Rightarrow> tree_state \<times> tree_outcome" where
  "tree_move_sel s vis pos down =
     select_visible s vis
       (case pos of
          Some p \<Rightarrow> if down then min (p + 1) (length vis - 1) else p - 1
        | None \<Rightarrow> 0)"

definition collapse_selected :: "(rstr \<Rightarrow> rstr) \<Rightarrow> tree_state \<Rightarrow> (tree_state \<times> tree_outcome) option" where
  "collapse_selected lower s =
     (case nth_opt (ts_nodes s) (ts_selected s) of
        None \<Rightarrow> None
      | Some n \<Rightarrow>
          (case tv_kind n of
             TkPane w _ \<Rightarrow>
               (let s = s\<lparr>ts_collapsed := insert (NkWindow (tv_session n) w) (ts_collapsed s)\<rparr>;
                    parent = find (\<lambda>i. (case tv_kind (ts_nodes s ! i) of TkWindow w' \<Rightarrow> w' = w | _ \<Rightarrow> False) \<and>
                                       tv_session (ts_nodes s ! i) = tv_session n)
                               (rev [0..<ts_selected s])
                in Some (case parent of Some p \<Rightarrow> s\<lparr>ts_selected := p\<rparr> | None \<Rightarrow> tree_clamp_sel lower s, ToRedraw))
           | _ \<Rightarrow>
               (case tree_node_key n of
                  None \<Rightarrow> Some (s, ToNone)
                | Some k \<Rightarrow>
                    if k \<notin> ts_collapsed s then Some (s\<lparr>ts_collapsed := insert k (ts_collapsed s)\<rparr>, ToRedraw)
                    else Some (s, ToNone))))"

definition expand_selected :: "tree_state \<Rightarrow> (tree_state \<times> tree_outcome) option" where
  "expand_selected s =
     (case nth_opt (ts_nodes s) (ts_selected s) of
        None \<Rightarrow> None
      | Some n \<Rightarrow>
          (case tree_node_key n of
             Some k \<Rightarrow>
               if k \<in> ts_collapsed s then Some (s\<lparr>ts_collapsed := ts_collapsed s - {k}\<rparr>, ToRedraw)
               else Some (s, ToNone)
           | None \<Rightarrow> Some (s, ToNone)))"

definition switch_action :: "tree_node \<Rightarrow> tree_action" where
  "switch_action n =
     (case tv_kind n of
        TkSession \<Rightarrow> TaSwitch (tv_session n) None None
      | TkWindow w \<Rightarrow> TaSwitch (tv_session n) (Some w) None
      | TkPane w p \<Rightarrow> TaSwitch (tv_session n) (Some w) (Some p))"

definition kill_action :: "tree_node \<Rightarrow> tree_action" where
  "kill_action n =
     (case tv_kind n of
        TkSession \<Rightarrow> TaKillSession (tv_session n)
      | TkWindow w \<Rightarrow> TaKillWindow (tv_session n) w
      | TkPane _ p \<Rightarrow> TaKillPane (tv_session n) p)"

section \<open>Key handlers\<close>

definition handle_navigate :: "(rstr \<Rightarrow> rstr) \<Rightarrow> key_event \<Rightarrow> tree_state \<Rightarrow> (tree_state \<times> tree_outcome) option" where
  "handle_navigate lower ev s =
     (let vis = visible_indices lower s;
          pos = position (\<lambda>i. i = ts_selected s) vis;
          last = length vis - 1;
          m = ke_mods ev;
          switch = (if pos \<noteq> None then
                      map_option (\<lambda>n. (s, ToAct (switch_action n))) (nth_opt (ts_nodes s) (ts_selected s))
                    else Some (s, ToNone))
      in case ke_key ev of
           KEscape \<Rightarrow> Some (s, if m = 0 then ToCancel else ToNone)
         | KArrow d \<Rightarrow>
             if m \<noteq> 0 then Some (s, ToNone)
             else (case d of
                     DirUp \<Rightarrow> Some (tree_move_sel s vis pos False)
                   | DirDown \<Rightarrow> Some (tree_move_sel s vis pos True)
                   | DirLeft \<Rightarrow> if pos \<noteq> None then collapse_selected lower s else Some (s, ToNone)
                   | DirRight \<Rightarrow> if pos \<noteq> None then expand_selected s else Some (s, ToNone))
         | KHome \<Rightarrow> Some (if m = 0 then select_visible s vis 0 else (s, ToNone))
         | KEnd \<Rightarrow> Some (if m = 0 then select_visible s vis last else (s, ToNone))
         | KEnter \<Rightarrow> switch
         | KKeypadEnter \<Rightarrow> switch
         | KChar c \<Rightarrow>
             if c = chr (CHR ''k'') \<and> m = 0 then Some (tree_move_sel s vis pos False)
             else if c = chr (CHR ''p'') \<and> m = MOD_CTRL then Some (tree_move_sel s vis pos False)
             else if c = chr (CHR ''j'') \<and> m = 0 then Some (tree_move_sel s vis pos True)
             else if c = chr (CHR ''n'') \<and> m = MOD_CTRL then Some (tree_move_sel s vis pos True)
             else if c = chr (CHR ''g'') \<and> m = 0 then Some (select_visible s vis 0)
             else if c = chr (CHR ''G'') \<and> (m = 0 \<or> m = MOD_SHIFT) then Some (select_visible s vis last)
             else if c = chr (CHR ''h'') \<and> m = 0 \<and> pos \<noteq> None then collapse_selected lower s
             else if c = chr (CHR ''l'') \<and> m = 0 \<and> pos \<noteq> None then expand_selected s
             else if c = chr (CHR ''/'') \<and> m = 0 then Some (s\<lparr>ts_mode := TmFilter\<rparr>, ToRedraw)
             else if c = chr (CHR ''x'') \<and> m = 0 \<and> pos \<noteq> None then Some (s\<lparr>ts_mode := TmConfirmKill\<rparr>, ToRedraw)
             else if c = chr (CHR ''r'') \<and> m = 0 \<and> pos \<noteq> None then
               map_option (\<lambda>n. (s\<lparr>ts_mode := TmRename (tv_name n)\<rparr>, ToRedraw)) (nth_opt (ts_nodes s) (ts_selected s))
             else Some (s, ToNone)
         | _ \<Rightarrow> Some (s, ToNone))"

definition handle_confirm_kill :: "(rstr \<Rightarrow> rstr) \<Rightarrow> key_event \<Rightarrow> tree_state \<Rightarrow> (tree_state \<times> tree_outcome) option" where
  "handle_confirm_kill lower ev s =
     (let m = ke_mods ev; k = ke_key ev
      in if k = KChar (chr (CHR ''y'')) \<and> m = 0 then
           map_option (\<lambda>n.
             (let s = s\<lparr>ts_nodes := prune_subtree (ts_nodes s) (ts_selected s)\<rparr>
              in ((tree_clamp_sel lower s)\<lparr>ts_mode := TmNavigate\<rparr>, ToAct (kill_action n))))
             (nth_opt (ts_nodes s) (ts_selected s))
         else if k = KChar (chr (CHR ''n'')) \<and> m = 0 then Some (s\<lparr>ts_mode := TmNavigate\<rparr>, ToRedraw)
         else if k = KEscape \<and> m = 0 then Some (s\<lparr>ts_mode := TmNavigate\<rparr>, ToRedraw)
         else Some (s, ToNone))"

definition commit_rename :: "rstr \<Rightarrow> tree_state \<Rightarrow> (tree_state \<times> tree_outcome) option" where
  "commit_rename buf s =
     (let trimmed = trim buf; s = s\<lparr>ts_mode := TmNavigate\<rparr>
      in if trimmed = [] then Some (s, ToRedraw)
         else case nth_opt (ts_nodes s) (ts_selected s) of
           None \<Rightarrow> None
         | Some n \<Rightarrow>
             (case tv_kind n of
                TkWindow w \<Rightarrow>
                  Some (s\<lparr>ts_nodes := (ts_nodes s)[ts_selected s := n\<lparr>tv_name := trimmed, tv_label := window_label (tv_index n) trimmed\<rparr>]\<rparr>,
                        ToAct (TaRenameWindow (tv_session n) w trimmed))
              | TkPane _ p \<Rightarrow>
                  Some (s\<lparr>ts_nodes := (ts_nodes s)[ts_selected s := n\<lparr>tv_name := trimmed, tv_label := pane_label (tv_index n) trimmed\<rparr>]\<rparr>,
                        ToAct (TaRenamePane (tv_session n) p trimmed))
              | TkSession \<Rightarrow>
                  Some (s, if trimmed = tv_name n then ToRedraw else ToAct (TaRenameSession (tv_session n) trimmed))))"

definition handle_rename :: "key_event \<Rightarrow> tree_state \<Rightarrow> (tree_state \<times> tree_outcome) option" where
  "handle_rename ev s =
     (case ts_mode s of
        TmRename buf \<Rightarrow>
          (let m = ke_mods ev
           in case ke_key ev of
                KEscape \<Rightarrow> Some (if m = 0 then (s\<lparr>ts_mode := TmNavigate\<rparr>, ToRedraw) else (s, ToNone))
              | KEnter \<Rightarrow> commit_rename buf s
              | KKeypadEnter \<Rightarrow> commit_rename buf s
              | KBackspace \<Rightarrow>
                  Some (if m = 0 \<and> buf \<noteq> [] then (s\<lparr>ts_mode := TmRename (butlast buf)\<rparr>, ToRedraw) else (s, ToNone))
              | KChar c \<Rightarrow>
                  Some (if m = 0 \<or> m = MOD_SHIFT then (s\<lparr>ts_mode := TmRename (buf @ [c])\<rparr>, ToRedraw) else (s, ToNone))
              | _ \<Rightarrow> Some (s, ToNone))
      | _ \<Rightarrow> Some (s, ToNone))"

definition handle_filter :: "(rstr \<Rightarrow> rstr) \<Rightarrow> key_event \<Rightarrow> tree_state \<Rightarrow> tree_state \<times> tree_outcome" where
  "handle_filter lower ev s =
     (let m = ke_mods ev
      in case ke_key ev of
           KEscape \<Rightarrow>
             if m = 0 then (tree_clamp_sel lower (s\<lparr>ts_filter := [], ts_mode := TmNavigate\<rparr>), ToRedraw) else (s, ToNone)
         | KEnter \<Rightarrow> (s\<lparr>ts_mode := TmNavigate\<rparr>, ToRedraw)
         | KKeypadEnter \<Rightarrow> (s\<lparr>ts_mode := TmNavigate\<rparr>, ToRedraw)
         | KBackspace \<Rightarrow>
             if m = 0 \<and> ts_filter s \<noteq> [] then (tree_clamp_sel lower (s\<lparr>ts_filter := butlast (ts_filter s)\<rparr>), ToRedraw)
             else (s, ToNone)
         | KChar c \<Rightarrow>
             if m = 0 \<or> m = MOD_SHIFT then (tree_clamp_sel lower (s\<lparr>ts_filter := ts_filter s @ [c]\<rparr>), ToRedraw)
             else (s, ToNone)
         | _ \<Rightarrow> (s, ToNone))"

definition handle_tree :: "(rstr \<Rightarrow> rstr) \<Rightarrow> key_event \<Rightarrow> tree_state \<Rightarrow> (tree_state \<times> tree_outcome) option" where
  "handle_tree lower ev s =
     (if ts_nodes s = [] then Some (s, ToNone)
      else case ts_mode s of
             TmNavigate \<Rightarrow> handle_navigate lower ev s
           | TmConfirmKill \<Rightarrow> handle_confirm_kill lower ev s
           | TmRename _ \<Rightarrow> handle_rename ev s
           | TmFilter \<Rightarrow> Some (handle_filter lower ev s))"

end
