(* ===== verification/Overlay_Props.thy ===== *)
theory Overlay_Props
  imports Tree_View
begin

text \<open>
  Properties of the list overlays: the history palette, the buffer chooser and the session tree.
\<close>

section \<open>History palette\<close>

text \<open>The palette under keys keeps its cursor on a row.\<close>

definition history_step :: "(rstr \<Rightarrow> rstr) \<Rightarrow> history_state \<Rightarrow> key_event \<Rightarrow> history_state" where
  "history_step lower s ev = fst (handle_history lower ev s)"

interpretation hist: invariant_machine "history_ok lower" "history_step lower"
  by unfold_locales (simp add: history_step_def handle_history_ok)

lemma history_run_entries: "hs_entries (foldl (history_step lower) s evs) = hs_entries s"
  by (induction evs arbitrary: s) (simp_all add: history_step_def)

definition history_matches :: "(rstr \<Rightarrow> rstr) \<Rightarrow> rstr \<Rightarrow> history_entry \<Rightarrow> bool" where
  "history_matches lower flt e \<longleftrightarrow> flt = [] \<or> sublist (lower flt) (he_haystack e)"

text \<open>
  Enter in the history palette.  After any keys, Enter jumps to an entry that matches the filter
  as it stands, the one under the cursor in the list of matches, and does nothing exactly when no entry
  matches: the cursor never points past the list however the filter was edited.
\<close>

theorem history_enter_jumps_to_match:
  fixes lower :: "rstr \<Rightarrow> rstr" and es :: "history_entry list"
  defines "run \<equiv> foldl (history_step lower) (history_new es)"
  shows "snd (handle_history lower (key_event_new KEnter m) (run evs)) =
      (case filter (history_matches lower (fl_filter (hs_finder (run evs)))) es of
         [] \<Rightarrow> HoNone
       | ms \<Rightarrow> HoJump (target_of (ms ! fl_cursor (hs_finder (run evs))))) \<and>
    (filter (history_matches lower (fl_filter (hs_finder (run evs)))) es \<noteq> [] \<longleftrightarrow>
     fl_cursor (hs_finder (run evs)) < length (filter (history_matches lower (fl_filter (hs_finder (run evs)))) es))"
proof -
  define s where "s = run evs"
  define f where "f = hs_finder s"
  have es: "hs_entries s = es"
    by (simp add: s_def run_def history_run_entries history_new_def)
  have "history_ok lower (history_new es)"
    by (simp add: history_ok_def history_new_def finder_ops_ok(8) finder_ok_def fl_new_def)
  then have ok: "history_ok lower s"
    unfolding s_def run_def by (rule hist.run_inv)
  define ix where "ix = filtered_indices lower (map he_haystack es) (fl_filter f)"
  have ix: "ix = filter (\<lambda>i. history_matches lower (fl_filter f) (es ! i)) [0..<length es]"
    by (auto simp: ix_def filtered_indices_def history_matches_def str_contains_sublist Let_def intro!: filter_cong)
  have ms: "filter (history_matches lower (fl_filter f)) es = map ((!) es) ix"
    unfolding ix by (metis (no_types, lifting) filter_cong filter_map comp_apply map_nth)
  have cur: "fl_cursor f < max 1 (length ix)"
    using ok by (simp add: history_ok_def finder_ok_def filtered_len_def haystacks_def es f_def [symmetric] ix_def)
  have sel: "fl_selected lower (haystacks s) f = nth_opt ix (fl_cursor f)"
    by (simp add: fl_selected_def haystacks_def es ix_def)
  have "snd (handle_history lower (key_event_new KEnter m) s) =
      (case nth_opt ix (fl_cursor f) of None \<Rightarrow> HoNone | Some i \<Rightarrow> HoJump (target_of (es ! i)))"
    by (simp add: handle_history_def finder_classify_def key_event_new_def Let_def f_def [symmetric] sel es split: option.split)
  then have "snd (handle_history lower (key_event_new KEnter m) s) =
      (case map ((!) es) ix of [] \<Rightarrow> HoNone | ms \<Rightarrow> HoJump (target_of (ms ! fl_cursor f)))"
    using cur nth_map [of "fl_cursor f" ix "(!) es"]
    by (cases "map ((!) es) ix") (auto simp: nth_opt_def)
  moreover have "map ((!) es) ix \<noteq> [] \<longleftrightarrow> fl_cursor f < length (map ((!) es) ix)"
    using cur by (cases ix) auto
  ultimately show ?thesis
    unfolding s_def [symmetric] f_def [symmetric] ms by blast
qed

section \<open>Buffer chooser\<close>

text \<open>
  the buffer chooser.  With the selection on a row no key panics, and the selection is on a row
  again afterwards; the entries change only by a deletion, which removes exactly the selected entry
  and reports its name.
\<close>

theorem buffer_chooser_safe:
  assumes "buffers_ok s"
  shows "\<exists>s' out. handle_buffers ev s = Some (s', out) \<and> buffers_ok s' \<and>
    (case out of
       BoAct (BufDelete n) \<Rightarrow> bp_selected s < length (bp_entries s) \<and> n = be_name (bp_entries s ! bp_selected s) \<and>
         bp_entries s' = take (bp_selected s) (bp_entries s) @ drop (Suc (bp_selected s)) (bp_entries s)
     | BoAct (BufPaste n) \<Rightarrow> s' = s \<and> bp_selected s < length (bp_entries s) \<and> n = be_name (bp_entries s ! bp_selected s)
     | _ \<Rightarrow> bp_entries s' = bp_entries s)"
proof -
  have set: "\<exists>s' out. buf_set_sel s n = (s', out) \<and> buffers_ok s' \<and> bp_entries s' = bp_entries s \<and> out \<in> {BoNone, BoRedraw}" for n
    using buf_sel_ok(1) [OF assms, of n] by (auto simp: buf_set_sel_def Let_def)
  then have move: "\<exists>s' out. buf_move_sel s d = (s', out) \<and> buffers_ok s' \<and> bp_entries s' = bp_entries s \<and> out \<in> {BoNone, BoRedraw}" for d
    unfolding buf_move_sel_def Let_def by blast
  have sel: "bp_selected s < length (bp_entries s)" if "bp_entries s \<noteq> []"
    using assms that by (cases "bp_entries s") (auto simp: buffers_ok_def)
  have del: "bp_entries (buf_clamp_sel t) = bp_entries t" for t
    by (simp add: buf_clamp_sel_def)
  define good where "good = (\<lambda>r. \<exists>s' out. r = Some (s', out) \<and> buffers_ok s' \<and>
    (case out of
       BoAct (BufDelete n) \<Rightarrow> bp_selected s < length (bp_entries s) \<and> n = be_name (bp_entries s ! bp_selected s) \<and>
         bp_entries s' = take (bp_selected s) (bp_entries s) @ drop (Suc (bp_selected s)) (bp_entries s)
     | BoAct (BufPaste n) \<Rightarrow> s' = s \<and> bp_selected s < length (bp_entries s) \<and> n = be_name (bp_entries s ! bp_selected s)
     | _ \<Rightarrow> bp_entries s' = bp_entries s))"
  have moves: "good (Some (buf_set_sel s n))" "good (Some (buf_move_sel s d))" for n d
    using set [of n] move [of d] by (auto simp: good_def)
  have keep: "good (Some (s, BoNone))" "good (Some (s, BoCancel))"
    using assms by (simp_all add: good_def)
  have acts: "good (map_option (\<lambda>e. (s, BoAct (BufPaste (be_name e)))) (nth_opt (bp_entries s) (bp_selected s)))"
    "good (case nth_opt (bp_entries s) (bp_selected s) of
             None \<Rightarrow> None
           | Some e \<Rightarrow>
               Some (buf_clamp_sel (s\<lparr>bp_entries := remove_at (bp_selected s) (bp_entries s)\<rparr>), BoAct (BufDelete (be_name e))))"
    if "bp_entries s \<noteq> []"
    using assms sel [OF that] by (simp_all add: good_def nth_opt_def remove_at_def del)
  have "good (handle_buffers ev s)"
    unfolding handle_buffers_def Let_def using moves keep acts by (simp split: key.split)
  then show ?thesis
    by (simp add: good_def)
qed

definition sample_buffers :: buffer_picker_state where
  "sample_buffers = \<lparr>bp_entries = [\<lparr>be_name = lit ''buffer1'', be_preview = []\<rparr>, \<lparr>be_name = lit ''buffer0'', be_preview = []\<rparr>],
     bp_selected = 1\<rparr>"

theorem buffer_chooser_safe_witness:
  "\<exists>s' out. handle_buffers (key_event_plain (KChar (chr (CHR ''d'')))) sample_buffers = Some (s', out) \<and> buffers_ok s' \<and>
     out = BoAct (BufDelete (lit ''buffer0''))"
proof -
  have "buffers_ok sample_buffers"
    by (simp add: buffers_ok_def sample_buffers_def)
  from buffer_chooser_safe [OF this, of "key_event_plain (KChar (chr (CHR ''d'')))"]
  show ?thesis
    by (auto simp: handle_buffers_def sample_buffers_def key_event_plain_def key_event_new_def chr_def Let_def nth_opt_def)
qed

section \<open>Visible rows of the tree\<close>

text \<open>In preorder a node's ancestors are the nodes before it that no node in between is as shallow as.\<close>

definition ancestor :: "tree_node list \<Rightarrow> nat \<Rightarrow> nat \<Rightarrow> bool" where
  "ancestor ns j i \<longleftrightarrow> j < i \<and> (\<forall>k. j < k \<and> k \<le> i \<longrightarrow> tv_depth (ns ! j) < tv_depth (ns ! k))"

definition is_open :: "tree_node list \<Rightarrow> nat \<Rightarrow> nat \<Rightarrow> bool" where
  "is_open ns i j \<longleftrightarrow> (\<forall>k. j < k \<and> k < i \<longrightarrow> tv_depth (ns ! j) < tv_depth (ns ! k))"

definition is_collapsed :: "node_key set \<Rightarrow> tree_node \<Rightarrow> bool" where
  "is_collapsed col n = (case tree_node_key n of None \<Rightarrow> False | Some k \<Rightarrow> k \<in> col)"

definition open_stack :: "node_key set \<Rightarrow> tree_node list \<Rightarrow> nat \<Rightarrow> (nat \<times> bool) list" where
  "open_stack col ns i =
     map (\<lambda>j. (tv_depth (ns ! j), is_collapsed col (ns ! j))) (rev (filter (is_open ns i) [0..<i]))"

lemma dropWhile_decreasing:
  "sorted_wrt (\<lambda>x y. fst x > fst y) st \<Longrightarrow> dropWhile (\<lambda>(d, _). d \<ge> c) st = filter (\<lambda>(d, _). d < (c :: nat)) st"
proof (induction st)
  case (Cons x st)
  have "filter (\<lambda>p. fst p < c) st = st" if "fst x < c"
    using Cons.prems that by (auto simp: filter_id_conv)
  then show ?case
    using Cons by (simp add: case_prod_beta not_le)
qed simp

lemma open_stack_sorted: "sorted_wrt (\<lambda>x y. fst x > fst y) (open_stack col ns i)"
proof -
  have "sorted_wrt (\<lambda>j j'. tv_depth (ns ! j) < tv_depth (ns ! j')) (filter (is_open ns i) [0..<i])"
    by (rule sorted_wrt_mono_rel [of _ "(<)"]) (auto simp: is_open_def sorted_wrt_filter)
  then show ?thesis
    by (simp add: open_stack_def sorted_wrt_map sorted_wrt_rev)
qed

lemma open_stack_pop:
  "dropWhile (\<lambda>(d, _). d \<ge> tv_depth (ns ! i)) (open_stack col ns i) =
   map (\<lambda>j. (tv_depth (ns ! j), is_collapsed col (ns ! j))) (rev (filter (\<lambda>j. ancestor ns j i) [0..<i]))"
proof -
  have "filter (\<lambda>j. ancestor ns j i) [0..<i] = filter (\<lambda>j. tv_depth (ns ! j) < tv_depth (ns ! i)) (filter (is_open ns i) [0..<i])"
    unfolding filter_filter by (rule filter_cong) (auto simp: ancestor_def is_open_def le_less)
  then show ?thesis
    unfolding dropWhile_decreasing [OF open_stack_sorted] by (simp add: open_stack_def filter_map rev_filter comp_def)
qed

lemma open_stack_Suc:
  "open_stack col ns (Suc i) = (tv_depth (ns ! i), is_collapsed col (ns ! i)) #
     map (\<lambda>j. (tv_depth (ns ! j), is_collapsed col (ns ! j))) (rev (filter (\<lambda>j. ancestor ns j i) [0..<i]))"
proof -
  have "filter (is_open ns (Suc i)) [0..<i] = filter (\<lambda>j. ancestor ns j i) [0..<i]"
    by (rule filter_cong) (auto simp: ancestor_def is_open_def less_Suc_eq_le)
  moreover have "is_open ns (Suc i) i"
    by (simp add: is_open_def)
  ultimately show ?thesis
    by (simp add: open_stack_def)
qed

lemma visible_walk_filter:
  "i \<le> length ns \<Longrightarrow> visible_walk col keep i (open_stack col ns i) (drop i ns) =
     filter (\<lambda>k. keep ! k \<and> \<not> (\<exists>j. ancestor ns j k \<and> is_collapsed col (ns ! j))) [i..<length ns]"
proof (induction "length ns - i" arbitrary: i)
  case (Suc n)
  then have i: "i < length ns"
    by simp
  have ex: "list_ex snd (dropWhile (\<lambda>(d, _). d \<ge> tv_depth (ns ! i)) (open_stack col ns i)) \<longleftrightarrow>
      (\<exists>j. ancestor ns j i \<and> is_collapsed col (ns ! j))"
    unfolding open_stack_pop by (auto simp: list_ex_iff ancestor_def)
  have rest: "visible_walk col keep (Suc i) (open_stack col ns (Suc i)) (drop (Suc i) ns) =
      filter (\<lambda>k. keep ! k \<and> \<not> (\<exists>j. ancestor ns j k \<and> is_collapsed col (ns ! j))) [Suc i..<length ns]"
    using Suc by simp
  have "visible_walk col keep i (open_stack col ns i) (ns ! i # drop (Suc i) ns) =
      (if keep ! i \<and> \<not> (\<exists>j. ancestor ns j i \<and> is_collapsed col (ns ! j))
       then i # visible_walk col keep (Suc i) (open_stack col ns (Suc i)) (drop (Suc i) ns)
       else visible_walk col keep (Suc i) (open_stack col ns (Suc i)) (drop (Suc i) ns))"
    using ex by (simp add: Let_def open_stack_pop open_stack_Suc is_collapsed_def)
  then show ?case
    using rest i by (simp add: Cons_nth_drop_Suc [symmetric] upt_conv_Cons)
qed simp

lemma takeWhile_upt: "j \<in> set (takeWhile P [a..<n]) \<longleftrightarrow> a \<le> j \<and> j < n \<and> (\<forall>k. a \<le> k \<and> k \<le> j \<longrightarrow> P k)"
proof (induction "n - a" arbitrary: a)
  case (Suc m)
  then have "[a..<n] = a # [Suc a..<n]"
    by (simp add: upt_conv_Cons)
  moreover have "m = n - Suc a"
    using Suc.hyps(2) by simp
  moreover have "(\<forall>k. a \<le> k \<and> k \<le> j \<longrightarrow> P k) \<longleftrightarrow> P a \<and> (\<forall>k. Suc a \<le> k \<and> k \<le> j \<longrightarrow> P k)" if "a \<le> j"
    using that by (metis le_eq_less_or_eq Suc_leI order_refl less_imp_le Suc_le_lessD)
  ultimately show ?case
    using Suc.hyps(1) [of "Suc a"] Suc.hyps(2)
    by (cases "a \<le> j"; cases "j = a") (auto simp: Suc_le_eq)
qed auto

text \<open>Whether the filter keeps a node by itself.\<close>

definition label_matches :: "(rstr \<Rightarrow> rstr) \<Rightarrow> tree_state \<Rightarrow> nat \<Rightarrow> bool" where
  "label_matches lower s i \<longleftrightarrow> ts_filter s = [] \<or> sublist (lower (ts_filter s)) (lower (tv_label (ts_nodes s ! i)))"

text \<open>
  which rows of the tree are shown.  The single pass with a stack of ancestors shows, in order,
  exactly the rows none of whose ancestors is collapsed and that match the filter themselves or have a
  descendant that does.
\<close>

theorem visible_rows_are_those_specified:
  "visible_indices lower s =
     filter (\<lambda>i. (\<nexists>j. ancestor (ts_nodes s) j i \<and> is_collapsed (ts_collapsed s) (ts_nodes s ! j)) \<and>
                 (label_matches lower s i \<or> (\<exists>j. j < length (ts_nodes s) \<and> ancestor (ts_nodes s) i j \<and> label_matches lower s j)))
       [0..<length (ts_nodes s)]"
proof -
  define ns where "ns = ts_nodes s"
  have keep: "keep_rows lower s ! i \<longleftrightarrow>
      label_matches lower s i \<or> (\<exists>j. j < length ns \<and> ancestor ns i j \<and> label_matches lower s j)" if i: "i < length ns" for i
  proof (cases "ts_filter s = []")
    case True
    then show ?thesis
      using i by (simp add: keep_rows_def label_matches_def ns_def Let_def)
  next
    case False
    define mt where "mt = map (\<lambda>n. str_contains (lower (tv_label n)) (lower (ts_filter s))) ns"
    have mt: "mt ! j \<longleftrightarrow> label_matches lower s j" if "j < length ns" for j
      using that False by (simp add: mt_def label_matches_def ns_def str_contains_sublist)
    have "keep_rows lower s ! i \<longleftrightarrow> row_keeps mt ns i"
      using i False by (simp add: keep_rows_def ns_def mt_def Let_def)
    also have "\<dots> \<longleftrightarrow> mt ! i \<or> (\<exists>j. j < length ns \<and> ancestor ns i j \<and> mt ! j)"
      by (auto simp: row_keeps_def list_ex_iff takeWhile_upt ancestor_def Suc_le_eq)
    finally show ?thesis
      using mt i by auto
  qed
  have "open_stack (ts_collapsed s) ns 0 = []"
    by (simp add: open_stack_def)
  then have "visible_indices lower s =
      filter (\<lambda>k. keep_rows lower s ! k \<and> \<not> (\<exists>j. ancestor ns j k \<and> is_collapsed (ts_collapsed s) (ns ! j))) [0..<length ns]"
    using visible_walk_filter [of 0 ns "ts_collapsed s" "keep_rows lower s"] by (simp add: visible_indices_def ns_def)
  also have "\<dots> = filter (\<lambda>i. (\<nexists>j. ancestor ns j i \<and> is_collapsed (ts_collapsed s) (ns ! j)) \<and>
      (label_matches lower s i \<or> (\<exists>j. j < length ns \<and> ancestor ns i j \<and> label_matches lower s j))) [0..<length ns]"
    by (rule filter_cong) (auto simp: keep)
  finally show ?thesis
    unfolding ns_def .
qed

section \<open>Keys in the tree\<close>

text \<open>
  killing a node removes from the rows exactly the node and its descendants, and keeps the others
  in order.
\<close>

theorem prune_removes_subtree:
  "prune_subtree ns i = map ((!) ns) (filter (\<lambda>k. k \<noteq> i \<and> \<not> ancestor ns i k) [0..<length ns])"
proof (cases "i < length ns")
  case True
  let ?P = "\<lambda>k. k \<noteq> i \<and> \<not> ancestor ns i k"
  have cut: "[0..<length ns] = [0..<i] @ i # [Suc i..<length ns]"
    using True upt_add_eq_append [of 0 i "length ns - i"] by (simp add: upt_conv_Cons)
  have early: "filter ?P [0..<i] = [0..<i]"
    by (auto simp: filter_id_conv ancestor_def)
  let ?deep = "\<lambda>k. tv_depth (ns ! k) > tv_depth (ns ! i)"
  have tail: "dropWhile ?deep [Suc i..<length ns] = filter ?P [Suc i..<length ns]"
  proof -
    have anc: "ancestor ns i k \<longleftrightarrow> k \<in> set (takeWhile ?deep [Suc i..<length ns])" if "Suc i \<le> k" "k < length ns" for k
      using that by (auto simp: takeWhile_upt ancestor_def Suc_le_eq)
    have dist: "distinct (takeWhile ?deep [Suc i..<length ns] @ dropWhile ?deep [Suc i..<length ns])"
      by simp
    have "filter ?P [Suc i..<length ns] = filter (\<lambda>k. k \<notin> set (takeWhile ?deep [Suc i..<length ns])) [Suc i..<length ns]"
      by (rule filter_cong) (auto simp: anc)
    also have "\<dots> = filter (\<lambda>k. k \<notin> set (takeWhile ?deep [Suc i..<length ns]))
        (takeWhile ?deep [Suc i..<length ns] @ dropWhile ?deep [Suc i..<length ns])"
      by simp
    also have "\<dots> = dropWhile ?deep [Suc i..<length ns]"
      using dist by (simp only: filter_append distinct_append) (auto simp: filter_empty_conv filter_id_conv)
    finally show ?thesis
      by simp
  qed
  have drop: "drop (Suc i) ns = map ((!) ns) [Suc i..<length ns]"
    by (metis add_0 drop_map drop_upt map_nth)
  have "dropWhile (\<lambda>n. tv_depth n > tv_depth (ns ! i)) (drop (Suc i) ns) = map ((!) ns) (filter ?P [Suc i..<length ns])"
    unfolding drop dropWhile_map comp_def tail ..
  moreover have "take i ns = map ((!) ns) [0..<i]"
    using True by (metis add_0 less_imp_le map_nth take_map take_upt)
  ultimately show ?thesis
    using True early by (simp add: prune_subtree_def cut del: upt_Suc)
next
  case False
  then have "filter (\<lambda>k. k \<noteq> i \<and> \<not> ancestor ns i k) [0..<length ns] = [0..<length ns]"
    by (auto simp: filter_id_conv ancestor_def)
  then show ?thesis
    using False by (simp add: prune_subtree_def map_nth)
qed

definition tree_ok :: "tree_state \<Rightarrow> bool" where
  "tree_ok s \<longleftrightarrow> ts_nodes s = [] \<or> ts_selected s < length (ts_nodes s)"

text \<open>What a key may do: the outcome of an action names the selected row, and the rows change accordingly.\<close>

definition tree_effect :: "(rstr \<Rightarrow> rstr) \<Rightarrow> tree_state \<Rightarrow> tree_state \<Rightarrow> tree_outcome \<Rightarrow> bool" where
  "tree_effect lower s s' out =
     (let n = ts_nodes s ! ts_selected s
      in case out of
           ToAct a \<Rightarrow>
             (case a of
                TaSwitch _ _ _ \<Rightarrow> a = switch_action n \<and> s' = s \<and> ts_selected s \<in> set (visible_indices lower s)
              | TaKillSession _ \<Rightarrow> a = kill_action n \<and> ts_nodes s' = prune_subtree (ts_nodes s) (ts_selected s)
              | TaKillWindow _ _ \<Rightarrow> a = kill_action n \<and> ts_nodes s' = prune_subtree (ts_nodes s) (ts_selected s)
              | TaKillPane _ _ \<Rightarrow> a = kill_action n \<and> ts_nodes s' = prune_subtree (ts_nodes s) (ts_selected s)
              | TaRenameWindow sn w name \<Rightarrow> tv_session n = sn \<and> tv_kind n = TkWindow w \<and>
                  ts_nodes s' = (ts_nodes s)[ts_selected s := n\<lparr>tv_name := name, tv_label := window_label (tv_index n) name\<rparr>]
              | TaRenamePane sn p name \<Rightarrow> tv_session n = sn \<and> (\<exists>w. tv_kind n = TkPane w p) \<and>
                  ts_nodes s' = (ts_nodes s)[ts_selected s := n\<lparr>tv_name := name, tv_label := pane_label (tv_index n) name\<rparr>]
              | TaRenameSession sn name \<Rightarrow> tv_session n = sn \<and> tv_kind n = TkSession \<and> ts_nodes s' = ts_nodes s)
         | _ \<Rightarrow> ts_nodes s' = ts_nodes s)"

definition tree_good :: "(rstr \<Rightarrow> rstr) \<Rightarrow> tree_state \<Rightarrow> (tree_state \<times> tree_outcome) option \<Rightarrow> bool" where
  "tree_good lower s r \<longleftrightarrow> (\<exists>s' out. r = Some (s', out) \<and> tree_ok s' \<and> tree_effect lower s s' out)"

lemma visible_in_range: "i \<in> set (visible_indices lower s) \<Longrightarrow> i < length (ts_nodes s)"
  by (simp add: visible_rows_are_those_specified)

lemma tree_good_plain:
  "tree_ok s' \<Longrightarrow> ts_nodes s' = ts_nodes s \<Longrightarrow> out \<in> {ToNone, ToRedraw, ToCancel} \<Longrightarrow> tree_good lower s (Some (s', out))"
  by (auto simp: tree_good_def tree_effect_def Let_def)

lemma tree_okI: "ts_selected s < length (ts_nodes s) \<Longrightarrow> tree_ok s"
  by (simp add: tree_ok_def)

lemma tree_ok_update [simp]:
  "tree_ok (s\<lparr>ts_mode := m\<rparr>) = tree_ok s" "tree_ok (s\<lparr>ts_collapsed := c\<rparr>) = tree_ok s"
  "tree_ok (s\<lparr>ts_filter := f\<rparr>) = tree_ok s"
  "tree_ok (s\<lparr>ts_selected := p\<rparr>) \<longleftrightarrow> ts_nodes s = [] \<or> p < length (ts_nodes s)"
  by (simp_all add: tree_ok_def)

lemma clamp_nodes [simp]: "ts_nodes (tree_clamp_sel lower s) = ts_nodes s"
  by (simp add: tree_clamp_sel_def Let_def split: option.split list.split)

lemma clamp_ok [simp]: "tree_ok (tree_clamp_sel lower s)"
proof (cases "ts_nodes s = []")
  case False
  have "i < length (ts_nodes s)" if "find P (rev (visible_indices lower s)) = Some i" for i P
    using that visible_in_range [of i lower s] by (auto simp: find_Some_iff rev_nth)
  then show ?thesis
    using False visible_in_range [of _ lower s]
    by (auto simp: tree_ok_def tree_clamp_sel_def Let_def split: option.split list.split)
qed (simp add: tree_ok_def)

lemma select_visible_good:
  assumes "tree_ok s"
  shows "tree_good lower s (Some (select_visible s (visible_indices lower s) n))"
    "tree_good lower s (Some (tree_move_sel s (visible_indices lower s) p d))"
proof -
  show sel: "tree_good lower s (Some (select_visible s (visible_indices lower s) n))" for n
    using assms visible_in_range [of "visible_indices lower s ! min n (length (visible_indices lower s) - 1)" lower s]
    by (auto simp: select_visible_def tree_ok_def split: option.split intro!: tree_good_plain)
  then show "tree_good lower s (Some (tree_move_sel s (visible_indices lower s) p d))"
    by (simp add: tree_move_sel_def)
qed

lemma collapse_good: "ts_selected s < length (ts_nodes s) \<Longrightarrow> tree_good lower s (collapse_selected lower s)"
proof -
  assume s: "ts_selected s < length (ts_nodes s)"
  have "p < length (ts_nodes s)" if "find P (rev [0..<ts_selected s]) = Some p" for P p
    using that s by (auto simp: find_Some_iff rev_nth)
  then show ?thesis
    using s tree_okI [OF s]
    by (auto simp: collapse_selected_def nth_opt_def Let_def split: tree_kind.split option.split intro!: tree_good_plain)
qed

lemma expand_good: "ts_selected s < length (ts_nodes s) \<Longrightarrow> tree_good lower s (expand_selected s)"
  by (auto simp: expand_selected_def nth_opt_def tree_ok_def split: option.split intro!: tree_good_plain)

lemma position_selected: "position (\<lambda>i. i = k) xs = Some p \<Longrightarrow> k \<in> set xs"
  using position_Some [of "\<lambda>i. i = k" xs p] by (auto simp: in_set_conv_nth)

lemma navigate_good: "ts_selected s < length (ts_nodes s) \<Longrightarrow> tree_good lower s (handle_navigate lower ev s)"
proof -
  assume s: "ts_selected s < length (ts_nodes s)"
  note ok = tree_okI [OF s]
  have keep: "tree_good lower s (Some (s, out))" if "out \<in> {ToNone, ToRedraw, ToCancel}" for out
    using ok that by (intro tree_good_plain) simp_all
  have mode: "tree_good lower s (Some (s\<lparr>ts_mode := m\<rparr>, ToRedraw))" for m
    using ok by (intro tree_good_plain) simp_all
  define pos where "pos = position (\<lambda>i. i = ts_selected s) (visible_indices lower s)"
  have switch: "tree_good lower s (map_option (\<lambda>n. (s, ToAct (switch_action n))) (nth_opt (ts_nodes s) (ts_selected s)))"
    if "pos \<noteq> None"
    using that s ok keep position_selected [of "ts_selected s" "visible_indices lower s"]
    by (auto simp: nth_opt_def tree_good_def tree_effect_def pos_def switch_action_def split: tree_kind.split)
  have rename: "tree_good lower s (map_option (\<lambda>n. (s\<lparr>ts_mode := TmRename (tv_name n)\<rparr>, ToRedraw)) (nth_opt (ts_nodes s) (ts_selected s)))"
    using s mode by (simp add: nth_opt_def)
  show ?thesis
    unfolding handle_navigate_def Let_def pos_def [symmetric]
    using keep mode switch rename select_visible_good [OF ok] collapse_good [OF s] expand_good [OF s]
    by (simp split: key.split direction.split)
qed

lemma kill_good: "ts_selected s < length (ts_nodes s) \<Longrightarrow> tree_good lower s (handle_confirm_kill lower ev s)"
proof -
  assume s: "ts_selected s < length (ts_nodes s)"
  have keep: "tree_good lower s (Some (s, ToNone))" "tree_good lower s (Some (s\<lparr>ts_mode := TmNavigate\<rparr>, ToRedraw))"
    using tree_okI [OF s] by (auto intro: tree_good_plain)
  have "tree_good lower s (Some ((tree_clamp_sel lower (s\<lparr>ts_nodes := prune_subtree (ts_nodes s) (ts_selected s)\<rparr>))\<lparr>ts_mode := TmNavigate\<rparr>,
      ToAct (kill_action (ts_nodes s ! ts_selected s))))"
    by (auto simp: tree_good_def tree_effect_def kill_action_def Let_def split: tree_kind.split)
  then show ?thesis
    using s keep by (simp add: handle_confirm_kill_def nth_opt_def Let_def)
qed

lemma commit_rename_good: "ts_selected s < length (ts_nodes s) \<Longrightarrow> tree_good lower s (commit_rename buf s)"
  by (auto simp: commit_rename_def nth_opt_def Let_def tree_good_def tree_effect_def tree_ok_def split: tree_kind.split)

lemma rename_good: "ts_selected s < length (ts_nodes s) \<Longrightarrow> tree_good lower s (handle_rename ev s)"
  using commit_rename_good [of s lower] tree_okI [of s]
  by (auto simp: handle_rename_def Let_def split: tree_mode.split key.split intro!: tree_good_plain)

lemma filter_good: "ts_selected s < length (ts_nodes s) \<Longrightarrow> tree_good lower s (Some (handle_filter lower ev s))"
  using tree_okI [of s] by (auto simp: handle_filter_def Let_def split: key.split intro!: tree_good_plain)

lemma handle_tree_good:
  assumes "tree_ok s"
  shows "tree_good lower s (handle_tree lower ev s)"
proof (cases "ts_nodes s = []")
  case True
  then show ?thesis
    using assms by (auto simp: handle_tree_def tree_effect_def tree_good_def)
next
  case False
  then have "ts_selected s < length (ts_nodes s)"
    using assms by (simp add: tree_ok_def)
  then show ?thesis
    using False navigate_good kill_good rename_good filter_good
    by (simp add: handle_tree_def split: tree_mode.split)
qed

text \<open>
  C20: keys in the tree.  With the selection on one of the rows, no key in any mode panics, and the
  selection is on a row again afterwards.  A switch names the selected row, which is visible; a kill
  names the selected row and removes its subtree; a rename names the selected row and changes its
  text alone; all other keys leave the rows as they are.
\<close>

theorem tree_keys_safe:
  assumes "tree_ok s"
  shows "\<exists>s' out. handle_tree lower ev s = Some (s', out) \<and> tree_ok s' \<and> tree_effect lower s s' out"
  using handle_tree_good [OF assms] by (simp add: tree_good_def)

definition sample_tree :: tree_state where
  "sample_tree = (tree_state_new
     [\<lparr>tv_session = lit ''main'', tv_kind = TkSession, tv_depth = 0, tv_label = lit ''main'', tv_name = lit ''main'', tv_index = 0, tv_is_current = True\<rparr>,
      \<lparr>tv_session = lit ''main'', tv_kind = TkWindow 1, tv_depth = 1, tv_label = lit ''1: vim'', tv_name = lit ''vim'', tv_index = 1, tv_is_current = True\<rparr>,
      \<lparr>tv_session = lit ''main'', tv_kind = TkPane 1 4, tv_depth = 2, tv_label = lit ''pane 1'', tv_name = [], tv_index = 1, tv_is_current = True\<rparr>])
     \<lparr>ts_selected := 1, ts_mode := TmConfirmKill\<rparr>"

theorem tree_keys_safe_witness:
  "\<exists>s' out. handle_tree (\<lambda>s. s) (key_event_plain (KChar (chr (CHR ''y'')))) sample_tree = Some (s', out) \<and> tree_ok s' \<and>
     tree_effect (\<lambda>s. s) sample_tree s' out"
  by (rule tree_keys_safe) (simp add: tree_ok_def sample_tree_def tree_state_new_def)

text \<open>
  renaming under a filter can hide the selection.  The row takes its new text at once and the
  selection is not moved, so that a row whose new name does not match the filter stays selected
  although it is no longer shown.
\<close>

definition renaming_tree :: tree_state where
  "renaming_tree = sample_tree\<lparr>ts_mode := TmRename (lit ''sh''), ts_filter := lit ''vim''\<rparr>"

theorem rename_hides_selection:
  "\<exists>s' out. ts_selected renaming_tree \<in> set (visible_indices (\<lambda>s. s) renaming_tree) \<and>
     handle_tree (\<lambda>s. s) (key_event_plain KEnter) renaming_tree = Some (s', out) \<and>
     ts_mode s' = TmNavigate \<and> ts_selected s' \<notin> set (visible_indices (\<lambda>s. s) s')"
  by (simp add: renaming_tree_def sample_tree_def tree_state_new_def visible_indices_def keep_rows_def row_keeps_def
      handle_tree_def handle_rename_def commit_rename_def key_event_plain_def key_event_new_def trim_def is_whitespace_def
      nth_opt_def tree_node_key_def window_label_def dec.simps upt_rec Let_def)

end
