(* ===== verification/Blocks.thy ===== *)
theory Blocks
  imports Screen Key_Spec Float32 "HOL-Library.Product_Lexorder"
begin

text \<open>
  Command blocks, after \<open>crates/mux/src/blocks.rs\<close> and the line newtypes of \<open>line.rs\<close>: scans over the
  rows of a screen, scrollback first, that carry the marks of \<open>OSC 133\<close>; folding; and the projection
  between all lines and the visible ones.  A line index is a \<open>u32\<close>; \<open>len() as u32\<close> truncates.
  Lower-casing is the parameter \<open>lower\<close>.
\<close>

section \<open>Line newtypes\<close>

definition line_advance :: "nat \<Rightarrow> nat \<Rightarrow> nat" where "line_advance v n = sadd32 v n"
definition line_retreat :: "nat \<Rightarrow> nat \<Rightarrow> nat" where "line_retreat v n = v - n"
definition saturating_delta :: "nat \<Rightarrow> nat \<Rightarrow> nat" where "saturating_delta v base = v - base"

section \<open>Rows and prompts\<close>

definition row_at :: "screen \<Rightarrow> nat \<Rightarrow> grid_row option" where
  "row_at s line =
     (let sb = sb_rows (scrollback s); n = as_u32 (length sb)
      in if line < n then nth_opt sb line else nth_opt (g_rows (active s)) (line - n))"

definition total_lines :: "screen \<Rightarrow> nat" where
  "total_lines s = wadd32 (as_u32 (length (sb_rows (scrollback s)))) (as_u32 (length (g_rows (active s))))"

definition row_has :: "8 word \<Rightarrow> screen \<Rightarrow> nat \<Rightarrow> bool" where
  "row_has flag s line = (case row_at s line of None \<Rightarrow> False | Some r \<Rightarrow> mark_contains (mark r) flag)"

abbreviation is_prompt :: "screen \<Rightarrow> nat \<Rightarrow> bool" where
  "is_prompt \<equiv> row_has RM_PROMPT_START"

definition prev_prompt_line :: "screen \<Rightarrow> nat \<Rightarrow> nat option" where
  "prev_prompt_line s from_line = find (is_prompt s) (rev [0..<min from_line (total_lines s)])"

definition next_prompt_line :: "screen \<Rightarrow> nat \<Rightarrow> nat option" where
  "next_prompt_line s from_line = find (is_prompt s) [line_advance from_line 1..<total_lines s]"

definition first_prompt_line :: "screen \<Rightarrow> nat option" where
  "first_prompt_line s = find (is_prompt s) [0..<total_lines s]"

definition last_prompt_line :: "screen \<Rightarrow> nat option" where
  "last_prompt_line s = prev_prompt_line s (total_lines s)"

definition all_prompt_lines :: "screen \<Rightarrow> nat list" where
  "all_prompt_lines s = filter (is_prompt s) [0..<total_lines s]"

definition prompt_at_or_above :: "screen \<Rightarrow> nat \<Rightarrow> nat option" where
  "prompt_at_or_above s line =
     (let total = total_lines s
      in if total = 0 then None
         else (let line = min line (total - 1)
               in if is_prompt s line then Some line else prev_prompt_line s line))"

text \<open>The last line of the block that starts at a prompt.\<close>

definition block_last :: "screen \<Rightarrow> nat \<Rightarrow> nat" where
  "block_last s prompt =
     (case next_prompt_line s prompt of None \<Rightarrow> total_lines s - 1 | Some n \<Rightarrow> line_retreat n 1)"

definition block_output_range :: "screen \<Rightarrow> nat \<Rightarrow> (nat \<times> nat) option" where
  "block_output_range s line =
     (let total = total_lines s
      in if total = 0 then None
         else (let line = min line (total - 1)
               in case (if is_prompt s line then Some line else prev_prompt_line s line) of
                    None \<Rightarrow> None
                  | Some prompt \<Rightarrow>
                      (let end = block_last s prompt
                       in Some (case find (row_has RM_OUTPUT_START s) [prompt..<end + 1] of
                                  Some l \<Rightarrow> l | None \<Rightarrow> prompt, end))))"

definition block_extent :: "screen \<Rightarrow> nat \<Rightarrow> nat \<times> nat" where
  "block_extent s prompt = (prompt, block_last s prompt)"

definition closing_block_end_line :: "screen \<Rightarrow> nat \<Rightarrow> nat option" where
  "closing_block_end_line s prompt =
     (let last = total_lines s - 1;
          search_end = (case next_prompt_line s prompt of None \<Rightarrow> last | Some np \<Rightarrow> min np last)
      in find (row_has RM_BLOCK_END s) [line_advance prompt 1..<search_end + 1])"

text \<open>The line in the block that the newest \<open>BLOCK_END\<close> closes.\<close>

definition newest_end_block_line :: "screen \<Rightarrow> nat option" where
  "newest_end_block_line s =
     (case find (row_has RM_BLOCK_END s) (rev [0..<total_lines s]) of
        None \<Rightarrow> None
      | Some end_mark \<Rightarrow> if is_prompt s end_mark then checked_sub end_mark 1 else Some end_mark)"

definition last_completed_prompt :: "screen \<Rightarrow> nat option" where
  "last_completed_prompt s =
     Option.bind (newest_end_block_line s)
       (\<lambda>line. if is_prompt s line then Some line else prev_prompt_line s line)"

definition last_completed_block :: "screen \<Rightarrow> (nat \<times> nat) option" where
  "last_completed_block s = Option.bind (newest_end_block_line s) (block_output_range s)"

definition closing_exit :: "screen \<Rightarrow> nat \<Rightarrow> int option" where
  "closing_exit s prompt =
     Option.bind (closing_block_end_line s prompt) (\<lambda>d. Option.bind (row_at s d) (\<lambda>r. mark_exit (mark r)))"

definition closing_duration :: "screen \<Rightarrow> nat \<Rightarrow> nat option" where
  "closing_duration s prompt =
     Option.bind (closing_block_end_line s prompt) (\<lambda>d. Option.bind (row_at s d) (\<lambda>r. duration_ms (mark r)))"

definition is_command_row :: "screen \<Rightarrow> nat \<Rightarrow> bool" where
  "is_command_row s line =
     (case row_at s line of
        None \<Rightarrow> False
      | Some r \<Rightarrow>
          if mark_contains (mark r) RM_PROMPT_END then True
          else if \<not> mark_contains (mark r) RM_PROMPT_START then False
          else (let end = (case next_prompt_line s line of None \<Rightarrow> total_lines s | Some n \<Rightarrow> n)
                in \<not> list_ex (row_has RM_PROMPT_END s) [line..<end]))"

section \<open>Text of a block\<close>

definition trim_end :: "rstr \<Rightarrow> rstr" where
  "trim_end t = rev (dropWhile is_whitespace (rev t))"

definition row_text :: "nat \<Rightarrow> grid_row \<Rightarrow> rstr" where
  "row_text from_col r = concat (map grapheme (drop from_col (cells r)))"

text \<open>Joining the lines: nothing between a row and its soft continuation, a line feed otherwise.\<close>

fun join_rows :: "screen \<Rightarrow> nat \<Rightarrow> rstr list \<Rightarrow> rstr" where
  "join_rows s succ [] = []"
| "join_rows s succ [p] = p"
| "join_rows s succ (p # q # ps) =
     p @ (if (case row_at s succ of Some r \<Rightarrow> (case wrap_origin r of SoftFrom _ \<Rightarrow> True | Hard \<Rightarrow> False) | None \<Rightarrow> False)
          then [] else [10]) @ join_rows s (succ + 1) (q # ps)"

definition block_command_line :: "screen \<Rightarrow> nat \<Rightarrow> rstr option" where
  "block_command_line s prompt =
     (case block_output_range s prompt of
        None \<Rightarrow> None
      | Some (_, block_end) \<Rightarrow>
          (case find (row_has RM_OUTPUT_START s) [prompt..<block_end + 1] of
             None \<Rightarrow> None
           | Some c_row \<Rightarrow>
               (case find (row_has RM_PROMPT_END s) [prompt..<c_row] of
                  None \<Rightarrow> None
                | Some b_row \<Rightarrow>
                    (let b_col = (case Option.bind (row_at s b_row) (\<lambda>r. prompt_end_col (mark r)) of None \<Rightarrow> 0 | Some c \<Rightarrow> c);
                         parts = List.map_filter (\<lambda>line. map_option (\<lambda>r.
                           trim_end (row_text (if line = b_row then b_col else 0) r)) (row_at s line)) [b_row..<c_row];
                         trimmed = trim (join_rows s (b_row + 1) parts)
                     in if trimmed = [] then None else Some trimmed))))"

text \<open>Output text, stopped once the cap is reached.\<close>

fun search_cells :: "nat \<Rightarrow> rstr \<Rightarrow> cell list \<Rightarrow> rstr \<times> bool" where
  "search_cells cap out [] = (out, False)"
| "search_cells cap out (c # cs) =
     (let out = out @ grapheme c in if utf8_len out \<ge> cap then (out, True) else search_cells cap out cs)"

fun search_rows :: "screen \<Rightarrow> nat \<Rightarrow> rstr \<Rightarrow> nat list \<Rightarrow> rstr" where
  "search_rows s cap out [] = out"
| "search_rows s cap out (l # ls) =
     (case row_at s l of
        None \<Rightarrow> search_rows s cap out ls
      | Some r \<Rightarrow>
          (let (out, stop) = search_cells cap out (cells r)
           in if stop then out
              else (let out = out @ [10] in if utf8_len out \<ge> cap then out else search_rows s cap out ls)))"

definition block_search_text :: "(rstr \<Rightarrow> rstr) \<Rightarrow> screen \<Rightarrow> nat \<Rightarrow> nat \<Rightarrow> rstr" where
  "block_search_text lower s prompt cap =
     (let t = (case block_command_line s prompt of None \<Rightarrow> [] | Some t \<Rightarrow> t)
      in lower (case block_output_range s prompt of
                  None \<Rightarrow> t
                | Some (a, b) \<Rightarrow> t @ [10] @ search_rows s cap [] [a..<b + 1]))"

definition abs_diff :: "nat \<Rightarrow> nat \<Rightarrow> nat" where
  "abs_diff a b = (if a \<ge> b then a - b else b - a)"

fun min_by_key :: "('a \<Rightarrow> nat) \<Rightarrow> 'a list \<Rightarrow> 'a option" where
  "min_by_key f [] = None"
| "min_by_key f (x # xs) = (case min_by_key f xs of None \<Rightarrow> Some x | Some y \<Rightarrow> if f x \<le> f y then Some x else Some y)"

definition find_block_by_command :: "screen \<Rightarrow> rstr \<Rightarrow> nat \<Rightarrow> nat option" where
  "find_block_by_command s command near_line =
     min_by_key (\<lambda>l. abs_diff l near_line)
       (filter (\<lambda>l. block_command_line s l = Some command) (all_prompt_lines s))"

definition block_text :: "screen \<Rightarrow> nat \<times> nat \<Rightarrow> rstr" where
  "block_text s = (\<lambda>(a, b).
     (let lines = List.map_filter (\<lambda>l. map_option (\<lambda>r. trim_end (row_text 0 r)) (row_at s l)) [a..<b + 1]
      in join_with 10 (rev (dropWhile (\<lambda>t. t = []) (rev lines)))))"

text \<open>
  A duration in words.  Tenths of a second are printed from the \<open>f64\<close> quotient, rounded to the nearest
  with ties to even.
\<close>

definition f64_rat :: "rat \<Rightarrow> rat" where
  "f64_rat x =
     (if x = 0 then 0
      else let u = 2 powi (max (f32_expo \<bar>x\<bar>) (- 1022) - 52)
           in of_int (round_half_even (x / u)) * u)"

definition format_duration :: "nat \<Rightarrow> rstr" where
  "format_duration ms =
     (if ms < 1000 then lit (dec ms) @ lit ''ms''
      else if ms < 9950 then
        (let t = nat (round_half_even (10 * f64_rat (of_nat ms / 1000)))
         in lit (dec (t div 10)) @ lit ''.'' @ lit (dec (t mod 10)) @ lit ''s'')
      else
        (let secs = sadd32 ms 500 div 1000
         in if secs < 60 then lit (dec secs) @ lit ''s''
            else lit (dec (secs div 60)) @ lit ''m'' @
              (if secs mod 60 < 10 then lit ''0'' else []) @ lit (dec (secs mod 60)) @ lit ''s''))"

section \<open>Status of blocks\<close>

datatype block_line_status = BlockOk | BlockFailed

definition exit_status_of :: "screen \<Rightarrow> nat \<Rightarrow> block_line_status option" where
  "exit_status_of s d =
     (case Option.bind (row_at s d) (\<lambda>r. mark_exit (mark r)) of
        Some e \<Rightarrow> Some (if e = 0 then BlockOk else BlockFailed)
      | None \<Rightarrow> None)"

definition fill_status :: "nat \<Rightarrow> nat \<Rightarrow> 'a \<Rightarrow> 'a list \<Rightarrow> 'a list" where
  "fill_status a b v xs = map (\<lambda>i. if a \<le> i \<and> i \<le> b then v else xs ! i) [0..<length xs]"

lemma next_prompt_line_Some:
  "next_prompt_line s p = Some n \<Longrightarrow> p < n \<and> n < total_lines s \<and> is_prompt s n"
  by (auto simp: next_prompt_line_def find_Some_iff line_advance_def sadd32_def total_lines_def wadd32_def u32_max_def
      split: if_splits)

function viewport_loop :: "screen \<Rightarrow> nat \<Rightarrow> nat \<Rightarrow> nat \<Rightarrow> block_line_status option list \<Rightarrow> block_line_status option list" where
  "viewport_loop s vtop n prompt result =
     (let next_p = next_prompt_line s prompt;
          block_end_incl = (case next_p of None \<Rightarrow> total_lines s - 1 | Some np \<Rightarrow> np - 1);
          status = (case closing_block_end_line s prompt of None \<Rightarrow> None | Some d \<Rightarrow> exit_status_of s d);
          vp_end = sadd32 vtop (n - 1);
          overlap_start = max prompt vtop;
          overlap_end = min block_end_incl vp_end;
          result = (if overlap_start \<le> overlap_end
                    then fill_status (overlap_start - vtop) (min (overlap_end - vtop) (n - 1)) status result else result)
      in case next_p of
           None \<Rightarrow> result
         | Some np \<Rightarrow> if np \<ge> sadd32 vtop n then result else viewport_loop s vtop n np result)"
  by pat_completeness auto
termination
  by (relation "measure (\<lambda>(s, vtop, n, prompt, result). total_lines s - prompt)")
    (auto dest!: next_prompt_line_Some [OF sym])

declare viewport_loop.simps [simp del]

definition viewport_block_status :: "screen \<Rightarrow> nat \<Rightarrow> nat \<Rightarrow> block_line_status option list" where
  "viewport_block_status s vtop n =
     (let result = replicate n None; total = total_lines s
      in if alt s \<noteq> None then result
         else if total = 0 \<or> n = 0 then result
         else (let governing = (if vtop < total \<and> is_prompt s vtop then Some vtop
                                else if vtop < total then prev_prompt_line s vtop else None)
               in case (case governing of Some p \<Rightarrow> Some p | None \<Rightarrow> find (is_prompt s) [vtop..<total]) of
                    None \<Rightarrow> result
                  | Some p \<Rightarrow> viewport_loop s vtop n p result))"

definition block_status_at :: "screen \<Rightarrow> nat \<Rightarrow> block_line_status option" where
  "block_status_at s line =
     (if alt s \<noteq> None then None
      else Option.bind (prompt_at_or_above s line) (\<lambda>prompt.
             Option.bind (closing_block_end_line s prompt) (exit_status_of s)))"

definition pane_at_prompt :: "screen \<Rightarrow> bool" where
  "pane_at_prompt s =
     (let total = total_lines s
      in if total = 0 then False
         else case find (is_prompt s) (rev [0..<total]) of
                None \<Rightarrow> False
              | Some newest \<Rightarrow> \<not> list_ex (row_has RM_OUTPUT_START s) [newest + 1..<total])"

definition running_command :: "screen \<Rightarrow> rstr option" where
  "running_command s =
     (if pane_at_prompt s then None
      else Option.bind (prev_prompt_line s (total_lines s)) (block_command_line s))"

section \<open>Folding\<close>

definition row_update :: "screen \<Rightarrow> nat \<Rightarrow> (grid_row \<Rightarrow> grid_row) \<Rightarrow> screen" where
  "row_update s line f =
     (let sb = sb_rows (scrollback s); n = as_u32 (length sb)
      in if line < n then s\<lparr>scrollback := (scrollback s)\<lparr>sb_rows := sb[line := f (sb ! line)]\<rparr>\<rparr>
         else s\<lparr>active := map_row (line - n) f (active s)\<rparr>)"

definition foldable_output :: "screen \<Rightarrow> nat \<Rightarrow> (nat \<times> nat) option" where
  "foldable_output s prompt =
     (if \<not> is_prompt s prompt then None
      else if next_prompt_line s prompt = None then None
      else case block_output_range s prompt of
             None \<Rightarrow> None
           | Some (a, b) \<Rightarrow> if a > prompt then Some (a, b) else None)"

definition row_folded :: "screen \<Rightarrow> nat \<Rightarrow> bool" where
  "row_folded s line = (case row_at s line of None \<Rightarrow> False | Some r \<Rightarrow> is_folded (mark r))"

definition is_folded_command_line :: "screen \<Rightarrow> nat \<Rightarrow> bool" where
  "is_folded_command_line s line =
     (case prompt_at_or_above s line of
        None \<Rightarrow> False
      | Some p \<Rightarrow>
          if row_folded s p then (case foldable_output s p of None \<Rightarrow> False | Some (a, _) \<Rightarrow> line < a) else False)"

definition set_block_folded :: "nat \<Rightarrow> bool \<Rightarrow> screen \<Rightarrow> screen" where
  "set_block_folded prompt folded s =
     (if folded \<and> foldable_output s prompt = None then s
      else if is_prompt s prompt then row_update s prompt (\<lambda>r. r\<lparr>mark := set_folded folded (mark r)\<rparr>)
      else s)"

definition toggle_block_fold :: "nat \<Rightarrow> screen \<Rightarrow> screen" where
  "toggle_block_fold prompt s = set_block_folded prompt (\<not> row_folded s prompt) s"

definition fold_all_completed :: "screen \<Rightarrow> screen" where
  "fold_all_completed s =
     (let last = last_prompt_line s
      in fold (\<lambda>l s. if Some l \<noteq> last then set_block_folded l True s else s) (all_prompt_lines s) s)"

definition unfold_all :: "screen \<Rightarrow> screen" where
  "unfold_all s = fold (\<lambda>l s. set_block_folded l False s) (all_prompt_lines s) s"

section \<open>The fold projection\<close>

record fold_projection =
  fp_hidden :: "(nat \<times> nat) list"
  fp_total :: nat

definition fp_identity :: "nat \<Rightarrow> fold_projection" where
  "fp_identity n = \<lparr>fp_hidden = [], fp_total = n\<rparr>"

definition coalesce_step :: "(nat \<times> nat) list \<Rightarrow> nat \<times> nat \<Rightarrow> (nat \<times> nat) list" where
  "coalesce_step merged = (\<lambda>(a, b).
     (case last_opt merged of
        Some (pa, pb) \<Rightarrow>
          if a \<le> sadd32 pb 1 then butlast merged @ [(pa, max pb b)] else merged @ [(a, b)]
      | None \<Rightarrow> merged @ [(a, b)]))"

definition fp_build :: "screen \<Rightarrow> fold_projection" where
  "fp_build s =
     (let hidden = List.map_filter (foldable_output s) (filter (row_folded s) (all_prompt_lines s))
      in \<lparr>fp_hidden = foldl coalesce_step [] (sort hidden), fp_total = total_lines s\<rparr>)"

definition fp_is_identity :: "fold_projection \<Rightarrow> bool" where
  "fp_is_identity p \<longleftrightarrow> fp_hidden p = []"

definition visible_total :: "fold_projection \<Rightarrow> nat" where
  "visible_total p = fp_total p - sum_list (map (\<lambda>(a, b). b - a + 1) (fp_hidden p))"

fun skip_hidden :: "nat \<Rightarrow> (nat \<times> nat) list \<Rightarrow> nat" where
  "skip_hidden u [] = u"
| "skip_hidden u ((a, b) # hs) = (if a \<le> u then skip_hidden (u + (b - a + 1)) hs else u)"

definition to_unified :: "fold_projection \<Rightarrow> nat \<Rightarrow> nat" where
  "to_unified p v =
     (let u = skip_hidden v (fp_hidden p) in if fp_total p = 0 then 0 else min u (fp_total p - 1))"

fun unhide :: "nat \<Rightarrow> nat \<Rightarrow> (nat \<times> nat) list \<Rightarrow> nat option" where
  "unhide unified vis [] = Some vis"
| "unhide unified vis ((a, b) # hs) =
     (if b < unified then unhide unified (vis - (b - a + 1)) hs
      else if a \<le> unified then None
      else Some vis)"

definition from_unified :: "fold_projection \<Rightarrow> nat \<Rightarrow> nat option" where
  "from_unified p u = unhide u u (fp_hidden p)"

section \<open>Scrolling\<close>

definition max_scroll_offset :: "screen \<Rightarrow> nat \<Rightarrow> nat" where
  "max_scroll_offset s rows = visible_total (fp_build s) - rows"

definition scroll_line_at :: "screen \<Rightarrow> nat \<Rightarrow> nat \<Rightarrow> nat \<Rightarrow> nat" where
  "scroll_line_at s rows off drow =
     (let p = fp_build s; vtop = visible_total p - rows - off in to_unified p (vtop + drow))"

definition scroll_offset_for_top :: "screen \<Rightarrow> nat \<Rightarrow> nat \<Rightarrow> nat" where
  "scroll_offset_for_top s rows target =
     (let p = fp_build s; mx = visible_total p - rows;
          target_visible = (case from_unified p target of None \<Rightarrow> 0 | Some v \<Rightarrow> v)
      in mx - target_visible)"

end
