(* ===== verification/Block_Facts.thy ===== *)
theory Block_Facts
  imports Blocks
begin

text \<open>
  Facts about command blocks: which line each scan finds, that the blocks partition the lines, and
  that the fold projection numbers the lines that are not folded away.
\<close>

section \<open>First and last line with a property\<close>

lemma find_upt_None: "find P [a..<b] = None \<longleftrightarrow> (\<forall>y. a \<le> y \<and> y < b \<longrightarrow> \<not> P y)"
  by (auto simp: find_None_iff)

lemma find_rev_upt_None: "find P (rev [0..<b]) = None \<longleftrightarrow> (\<forall>y<b. \<not> P y)"
  by (auto simp: find_None_iff)

section \<open>Lines and blocks\<close>

lemma total_lines_le [simp]: "total_lines s \<le> u32_max"
  by (simp add: total_lines_def wadd32_def less_Suc_eq_le [symmetric])

lemma advance_1: "l < total_lines s \<Longrightarrow> line_advance l (Suc 0) = Suc l"
  using order.strict_trans2 [OF _ total_lines_le, of l s] by (simp add: line_advance_def sadd32_def)

lemma advance_past: "\<not> l < total_lines s \<Longrightarrow> [line_advance l (Suc 0)..<total_lines s] = []"
  using total_lines_le [of s] by (simp add: line_advance_def sadd32_def)

lemma next_prompt_Some:
  "next_prompt_line s p = Some n \<longleftrightarrow> p < n \<and> n < total_lines s \<and> is_prompt s n \<and> (\<forall>y. p < y \<and> y < n \<longrightarrow> \<not> is_prompt s y)"
proof (cases "p < total_lines s")
  case True
  then show ?thesis
    by (auto simp: next_prompt_line_def advance_1 find_upt_Some Suc_le_eq)
next
  case False
  then show ?thesis
    by (auto simp: next_prompt_line_def advance_past)
qed

lemma next_prompt_None:
  "next_prompt_line s p = None \<longleftrightarrow> (\<forall>y. p < y \<and> y < total_lines s \<longrightarrow> \<not> is_prompt s y)"
proof (cases "p < total_lines s")
  case True
  then show ?thesis
    by (auto simp: next_prompt_line_def advance_1 find_upt_None Suc_le_eq)
next
  case False
  then show ?thesis
    by (auto simp: next_prompt_line_def advance_past)
qed

lemma prev_prompt_Some:
  "prev_prompt_line s l = Some p \<longleftrightarrow>
     p < min l (total_lines s) \<and> is_prompt s p \<and> (\<forall>y. p < y \<and> y < min l (total_lines s) \<longrightarrow> \<not> is_prompt s y)"
  by (simp add: prev_prompt_line_def find_rev_upt_Some)

text \<open>The prompt that governs a line.\<close>

lemma prompt_at_or_above_Some:
  assumes "l < total_lines s"
  shows "prompt_at_or_above s l = Some p \<longleftrightarrow> p \<le> l \<and> is_prompt s p \<and> (\<forall>y. p < y \<and> y \<le> l \<longrightarrow> \<not> is_prompt s y)"
proof -
  have "min l (total_lines s - 1) = l" "min l (total_lines s) = l"
    using assms by auto
  then show ?thesis
    using assms by (auto simp: prompt_at_or_above_def prev_prompt_Some Let_def le_less)
qed

lemma prompt_at_or_above_None:
  assumes "l < total_lines s"
  shows "prompt_at_or_above s l = None \<longleftrightarrow> (\<forall>y\<le>l. \<not> is_prompt s y)"
proof -
  have "min l (total_lines s - 1) = l" "min l (total_lines s) = l"
    using assms by auto
  then show ?thesis
    using assms by (auto simp: prompt_at_or_above_def prev_prompt_line_def find_rev_upt_None Let_def le_less)
qed

lemma block_last_bounds:
  assumes "p < total_lines s"
  shows "p \<le> block_last s p" "block_last s p < total_lines s"
    "p < y \<Longrightarrow> y \<le> block_last s p \<Longrightarrow> \<not> is_prompt s y"
    "next_prompt_line s p = Some n \<Longrightarrow> block_last s p = n - 1"
    "next_prompt_line s p = None \<Longrightarrow> block_last s p = total_lines s - 1"
proof -
  have "p \<le> block_last s p \<and> block_last s p < total_lines s \<and>
    (\<forall>y. p < y \<and> y \<le> block_last s p \<longrightarrow> \<not> is_prompt s y) \<and>
    (\<forall>n. next_prompt_line s p = Some n \<longrightarrow> block_last s p = n - 1) \<and>
    (next_prompt_line s p = None \<longrightarrow> block_last s p = total_lines s - 1)"
  proof (cases "next_prompt_line s p")
    case None
    then have "block_last s p = total_lines s - 1"
      by (simp add: block_last_def)
    then show ?thesis
      using assms None next_prompt_None [of s p] by auto
  next
    case (Some n)
    then have "block_last s p = n - 1"
      by (simp add: block_last_def line_retreat_def)
    moreover have "p < n" "n < total_lines s" "\<forall>y. p < y \<and> y < n \<longrightarrow> \<not> is_prompt s y"
      using Some by (simp_all add: next_prompt_Some)
    ultimately show ?thesis
      using Some by auto
  qed
  then show "p \<le> block_last s p" "block_last s p < total_lines s"
    "p < y \<Longrightarrow> y \<le> block_last s p \<Longrightarrow> \<not> is_prompt s y"
    "next_prompt_line s p = Some n \<Longrightarrow> block_last s p = n - 1"
    "next_prompt_line s p = None \<Longrightarrow> block_last s p = total_lines s - 1"
    by simp_all
qed

text \<open>The lines of a block are those its prompt governs.\<close>

lemma block_governs:
  assumes "is_prompt s p" "p < total_lines s" "l < total_lines s"
  shows "prompt_at_or_above s l = Some p \<longleftrightarrow> p \<le> l \<and> l \<le> block_last s p"
proof
  assume "prompt_at_or_above s l = Some p"
  then have l: "p \<le> l" "\<forall>y. p < y \<and> y \<le> l \<longrightarrow> \<not> is_prompt s y"
    using assms(3) by (simp_all add: prompt_at_or_above_Some)
  moreover have "l \<le> block_last s p"
  proof (cases "next_prompt_line s p")
    case None
    then show ?thesis
      using block_last_bounds(5) [OF assms(2)] assms(3) by simp
  next
    case (Some n)
    then have "p < n" "is_prompt s n"
      by (simp_all add: next_prompt_Some)
    then have "l < n"
      using l by (meson not_le)
    then show ?thesis
      using block_last_bounds(4) [OF assms(2) Some] by simp
  qed
  ultimately show "p \<le> l \<and> l \<le> block_last s p"
    by simp
next
  assume "p \<le> l \<and> l \<le> block_last s p"
  then show "prompt_at_or_above s l = Some p"
    using assms block_last_bounds(3) [OF assms(2)] by (simp add: prompt_at_or_above_Some)
qed

lemma output_range_at_prompt:
  assumes "is_prompt s p" "p < total_lines s"
  shows "\<exists>a. block_output_range s p = Some (a, block_last s p) \<and> p \<le> a \<and> a \<le> block_last s p"
proof -
  have "min p (total_lines s - 1) = p"
    using assms(2) by auto
  then show ?thesis
    using assms block_last_bounds(1) [OF assms(2)]
    by (auto simp: block_output_range_def Let_def find_upt_Some simp del: upt_Suc split: option.split)
qed

lemma foldable_bounds:
  assumes "foldable_output s p = Some (a, b)"
  shows "is_prompt s p" "p < a" "a \<le> b" "b = block_last s p" "p < total_lines s"
    "\<exists>n. next_prompt_line s p = Some n \<and> b = n - 1"
proof -
  show "is_prompt s p"
    using assms by (simp add: foldable_output_def split: if_splits)
  have ne: "next_prompt_line s p \<noteq> None"
    using assms by (auto simp: foldable_output_def split: if_splits)
  then show p: "p < total_lines s"
    by (auto simp: next_prompt_Some)
  show "p < a" "a \<le> b" "b = block_last s p"
    using assms output_range_at_prompt [OF \<open>is_prompt s p\<close> p]
    by (auto simp: foldable_output_def split: if_splits option.splits)
  then show "\<exists>n. next_prompt_line s p = Some n \<and> b = n - 1"
    using ne block_last_bounds(4) [OF p] by auto
qed

section \<open>Projections\<close>

text \<open>Ranges in order, apart from each other, below \<open>n\<close>.\<close>

fun ranges_ok :: "nat \<Rightarrow> (nat \<times> nat) list \<Rightarrow> nat \<Rightarrow> bool" where
  "ranges_ok lo [] n \<longleftrightarrow> True"
| "ranges_ok lo ((a, b) # hs) n \<longleftrightarrow> lo \<le> a \<and> a \<le> b \<and> b < n \<and> ranges_ok (b + 2) hs n"

definition in_ranges :: "nat \<Rightarrow> (nat \<times> nat) list \<Rightarrow> bool" where
  "in_ranges x hs \<longleftrightarrow> list_ex (\<lambda>(a, b). a \<le> x \<and> x \<le> b) hs"

fun hidden_below :: "nat \<Rightarrow> (nat \<times> nat) list \<Rightarrow> nat" where
  "hidden_below x [] = 0"
| "hidden_below x ((a, b) # hs) = (if b < x then b - a + 1 else 0) + hidden_below x hs"

lemma in_ranges_simps [simp]:
  "in_ranges x [] = False" "in_ranges x ((a, b) # hs) \<longleftrightarrow> (a \<le> x \<and> x \<le> b) \<or> in_ranges x hs"
  by (simp_all add: in_ranges_def)

lemma ranges_above: "ranges_ok lo hs n \<Longrightarrow> x < lo \<Longrightarrow> hidden_below x hs = 0 \<and> \<not> in_ranges x hs"
  by (induction lo hs n rule: ranges_ok.induct) auto

lemma hidden_below_le: "ranges_ok lo hs n \<Longrightarrow> lo \<le> x \<Longrightarrow> hidden_below x hs + lo \<le> x"
proof (induction lo hs n rule: ranges_ok.induct)
  case (2 lo a b hs n)
  show ?case
  proof (cases "b + 2 \<le> x")
    case True
    have ok: "lo \<le> a" "a \<le> b"
      using 2 by simp_all
    have "hidden_below x hs + (b + 2) \<le> x"
      using 2 True by simp
    then show ?thesis
      using True ok by simp
  next
    case False
    then have "hidden_below x hs = 0"
      using ranges_above [of "b + 2" hs n x] 2 by simp
    moreover have "b - a + 1 + lo \<le> b + 1"
      using 2 by (simp only: ranges_ok.simps) linarith
    ultimately show ?thesis
      using 2 False by (cases "b < x") simp_all
  qed
qed simp

lemma skip_hidden_ge: "u \<le> skip_hidden u hs"
proof (induction u hs rule: skip_hidden.induct)
  case (2 u a b hs)
  then show ?case by (cases "a \<le> u") auto
qed simp

lemma skip_hidden_counts:
  "ranges_ok lo hs n \<Longrightarrow> \<not> in_ranges (skip_hidden u hs) hs \<and> skip_hidden u hs = u + hidden_below (skip_hidden u hs) hs"
proof (induction hs arbitrary: lo u)
  case (Cons r hs)
  obtain a b where r: "r = (a, b)" by fastforce
  have ok: "a \<le> b" "ranges_ok (b + 2) hs n"
    using Cons.prems by (simp_all add: r)
  show ?case
  proof (cases "a \<le> u")
    case True
    define x where "x = skip_hidden (u + (b - a + 1)) hs"
    have "b < x"
      using skip_hidden_ge [of "u + (b - a + 1)" hs] True ok(1) by (simp add: x_def)
    moreover have "\<not> in_ranges x hs" "x = u + (b - a + 1) + hidden_below x hs"
      using Cons.IH [OF ok(2), of "u + (b - a + 1)"] by (simp_all add: x_def)
    moreover have "skip_hidden u (r # hs) = x"
      using True by (simp add: r x_def)
    ultimately show ?thesis
      by (simp only: r in_ranges_simps hidden_below.simps) simp
  next
    case False
    then show ?thesis
      using ranges_above [OF ok(2), of u] ok(1) by (simp add: r)
  qed
qed simp

lemma skip_hidden_back: "ranges_ok lo hs n \<Longrightarrow> \<not> in_ranges x hs \<Longrightarrow> skip_hidden (x - hidden_below x hs) hs = x"
proof (induction hs arbitrary: lo)
  case (Cons r hs)
  obtain a b where r: "r = (a, b)" by fastforce
  have ok: "a \<le> b" "ranges_ok (b + 2) hs n" and out: "\<not> in_ranges x hs" "x < a \<or> b < x"
    using Cons.prems by (auto simp: r)
  show ?case
  proof (cases "b < x")
    case True
    have le: "hidden_below x hs + (b + 1) \<le> x"
    proof (cases "b + 2 \<le> x")
      case True
      then show ?thesis
        using hidden_below_le [OF ok(2) True] by simp
    next
      case False
      then show ?thesis
        using ranges_above [OF ok(2), of x] \<open>b < x\<close> by simp
    qed
    define v where "v = x - hidden_below x (r # hs)"
    have v: "v + (b - a + 1) = x - hidden_below x hs" "a \<le> v"
      using le True ok(1) by (simp_all add: v_def r)
    have "skip_hidden v (r # hs) = skip_hidden (x - hidden_below x hs) hs"
      using v by (simp only: r skip_hidden.simps if_True)
    then show ?thesis
      using Cons.IH [OF ok(2) out(1)] by (simp add: v_def)
  next
    case False
    then have "x < a"
      using out by simp
    then show ?thesis
      using ranges_above [OF ok(2), of x] ok(1) by (simp add: r)
  qed
qed simp

lemma unhide_counts:
  "ranges_ok lo hs n \<Longrightarrow> unhide x v hs = (if in_ranges x hs then None else Some (v - hidden_below x hs))"
proof (induction hs arbitrary: lo v)
  case (Cons r hs)
  obtain a b where r: "r = (a, b)" by fastforce
  have ok: "a \<le> b" "ranges_ok (b + 2) hs n"
    using Cons.prems by (simp_all add: r)
  show ?case
    using Cons.IH [OF ok(2), of "v - (b - a + 1)"] ranges_above [OF ok(2), of x] ok(1)
    by (auto simp: r)
qed simp

lemma hidden_below_all: "ranges_ok lo hs n \<Longrightarrow> hidden_below x hs \<le> sum_list (map (\<lambda>(a, b). b - a + 1) hs)"
  by (induction lo hs n rule: ranges_ok.induct) auto

text \<open>The ranges above a visible line fit between it and the end.\<close>

lemma hidden_above_fits:
  "ranges_ok lo hs n \<Longrightarrow> x < n \<Longrightarrow> \<not> in_ranges x hs \<Longrightarrow>
   sum_list (map (\<lambda>(a, b). b - a + 1) hs) \<le> hidden_below x hs + (n - Suc x)"
proof (induction hs arbitrary: lo)
  case (Cons r hs)
  obtain a b where r: "r = (a, b)" by fastforce
  have ok: "a \<le> b" "b < n" "ranges_ok (b + 2) hs n" and out: "\<not> in_ranges x hs" "x < a \<or> b < x"
    using Cons.prems by (auto simp: r)
  show ?case
  proof (cases "b < x")
    case True
    then show ?thesis
      using Cons.IH [OF ok(3) Cons.prems(2) out(1)] by (simp add: r)
  next
    case False
    have "sum_list (map (\<lambda>(a, b). b - a + 1) hs) \<le> n - (b + 1)" if "ranges_ok (b + 2) hs n" "b < n" for b hs
      using that
    proof (induction hs arbitrary: b)
      case (Cons r hs)
      obtain c d where r: "r = (c, d)" by fastforce
      then show ?case
        using Cons.IH [of d] Cons.prems by auto
    qed simp
    then have "sum_list (map (\<lambda>(a, b). b - a + 1) hs) \<le> n - (b + 1)"
      using ok by blast
    moreover have "b - a + 1 + (n - (b + 1)) \<le> n - Suc x" "x < a"
      using False ok out by auto
    ultimately have "b - a + 1 + sum_list (map (\<lambda>(a, b). b - a + 1) hs) \<le> n - Suc x"
      by linarith
    then show ?thesis
      by (simp add: r)
  qed
qed simp

section \<open>A concrete screen\<close>

definition sample_row :: "8 word \<Rightarrow> grid_row" where
  "sample_row flags = \<lparr>cells = [default_cell], wrap_origin = Hard,
     mark = \<lparr>rm_flags = flags, rm_prompt_end_col = 0, rm_exit_code = 0, rm_duration_ms = 0\<rparr>\<rparr>"

definition sample_blocks :: screen where
  "sample_blocks = (screen_new 5 1)\<lparr>active := \<lparr>g_rows = map sample_row [17, 2, 0, 133, 0], g_cols = 1\<rparr>\<rparr>"

lemma sample_lines [simp]: "total_lines sample_blocks = 5" "alt sample_blocks = None"
  by (simp_all add: sample_blocks_def total_lines_def screen_new_def sb_default_def with_cap_def as_u32_def
      wadd32_def u32_max_def)

lemma sample_row_at:
  "row_at sample_blocks l =
     (if l = 0 then Some (sample_row 17) else if l = 1 then Some (sample_row 2) else if l = 2 then Some (sample_row 0)
      else if l = 3 then Some (sample_row 133) else if l = 4 then Some (sample_row 0) else None)"
proof -
  have "row_at sample_blocks l = nth_opt (map sample_row [17, 2, 0, 133, 0]) l"
    by (simp add: sample_blocks_def row_at_def screen_new_def sb_default_def with_cap_def as_u32_def)
  then show ?thesis
    by (auto simp: nth_opt_def less_Suc_eq numeral_eq_Suc nth_Cons')
qed

lemma sample_has [simp]:
  "row_has RM_PROMPT_START sample_blocks l \<longleftrightarrow> l = 0 \<or> l = 3" "row_has RM_OUTPUT_START sample_blocks l \<longleftrightarrow> l = 1"
  "row_folded sample_blocks l \<longleftrightarrow> l = 0"
  by (simp_all add: row_has_def row_folded_def sample_row_at sample_row_def mark_contains_def is_folded_def rm_bits)

lemma sample_next [simp]: "next_prompt_line sample_blocks 0 = Some 3" "find (row_has RM_OUTPUT_START sample_blocks) [0..<3] = Some 1"
  by (auto simp: next_prompt_Some find_upt_Some)

lemma sample_fold: "foldable_output sample_blocks 0 = Some (1, 2)" "foldable_output sample_blocks 3 = None"
proof -
  have "next_prompt_line sample_blocks 3 = None"
    by (auto simp: next_prompt_None)
  then show "foldable_output sample_blocks 0 = Some (1, 2)" "foldable_output sample_blocks 3 = None"
    by (simp_all add: foldable_output_def block_output_range_def block_last_def line_retreat_def upt_rec Let_def)
qed

end
