(* ===== verification/Block_Props.thy ===== *)
theory Block_Props
  imports Block_Facts
begin

text \<open>
  Properties of command blocks: the status column, folding, and the numbering of visible lines.
\<close>

section \<open>Status column\<close>

text \<open>The status of the block that starts at a prompt.\<close>

definition block_status :: "screen \<Rightarrow> nat \<Rightarrow> block_line_status option" where
  "block_status s p = Option.bind (closing_block_end_line s p) (exit_status_of s)"

lemma length_fill [simp]: "length (fill_status a b v xs) = length xs"
  by (simp add: fill_status_def)

lemma nth_fill [simp]: "i < length xs \<Longrightarrow> fill_status a b v xs ! i = (if a \<le> i \<and> i \<le> b then v else xs ! i)"
  by (simp add: fill_status_def)

lemma status_at_block:
  assumes "alt s = None" "is_prompt s p" "p < total_lines s" "p \<le> l" "l \<le> block_last s p"
  shows "block_status_at s l = block_status s p"
proof -
  have "l < total_lines s"
    using assms(5) block_last_bounds(2) [OF assms(3)] by simp
  then have "prompt_at_or_above s l = Some p"
    using block_governs [OF assms(2,3)] assms(4,5) by simp
  then show ?thesis
    using assms(1) by (simp add: block_status_at_def block_status_def)
qed

text \<open>The loop: the rows before the prompt are done, those from it on are still to be filled.\<close>

definition column_done :: "screen \<Rightarrow> nat \<Rightarrow> nat \<Rightarrow> nat \<Rightarrow> block_line_status option list \<Rightarrow> bool" where
  "column_done s vtop n l result \<longleftrightarrow> length result = n \<and>
     (\<forall>r<n. vtop + r < l \<longrightarrow> vtop + r < total_lines s \<longrightarrow> result ! r = block_status_at s (vtop + r))"

lemma viewport_loop_done:
  "alt s = None \<Longrightarrow> 0 < n \<Longrightarrow> is_prompt s p \<Longrightarrow> p < total_lines s \<Longrightarrow>
   column_done s vtop n p result \<Longrightarrow>
   column_done s vtop n (total_lines s) (viewport_loop s vtop n p result)"
proof (induction "total_lines s - p" arbitrary: p result rule: less_induct)
  case less
  define e where "e = block_last s p"
  define st where "st = block_status s p"
  define oe where "oe = min e (sadd32 vtop (n - 1))"
  define result' where "result' =
    (if max p vtop \<le> oe then fill_status (max p vtop - vtop) (min (oe - vtop) (n - 1)) st result else result)"
  have e: "p \<le> e" "e < total_lines s"
    using block_last_bounds [OF less.prems(4)] by (simp_all add: e_def)
  have "e \<le> u32_max"
    using e(2) total_lines_le [of s] by linarith
  then have oe: "oe = min e (vtop + n - 1)"
    using less.prems(2) by (auto simp: oe_def sadd32_def)
  have len: "length result = n"
    using less.prems(5) by (simp add: column_done_def)
  have step: "result' ! r = block_status_at s (vtop + r)" if r: "r < n" "vtop + r \<le> e" for r
  proof (cases "p \<le> vtop + r")
    case True
    have "max p vtop \<le> oe" "max p vtop - vtop \<le> r" "r \<le> min (oe - vtop) (n - 1)"
      using True r e by (auto simp: oe)
    then have "result' ! r = st"
      using len r by (simp add: result'_def)
    then show ?thesis
      using status_at_block [OF less.prems(1,3,4) True] r by (simp add: st_def e_def)
  next
    case False
    then have "\<not> p - vtop \<le> r"
      by simp
    then have "result' ! r = result ! r"
      using len r by (simp add: result'_def)
    then show ?thesis
      using less.prems(4,5) False r by (simp add: column_done_def)
  qed
  have done': "column_done s vtop n (Suc e) result'"
    using step len by (auto simp: column_done_def result'_def)
  have unf: "viewport_loop s vtop n p result =
      (case next_prompt_line s p of None \<Rightarrow> result'
       | Some np \<Rightarrow> if np \<ge> sadd32 vtop n then result' else viewport_loop s vtop n np result')"
  proof -
    have "(case next_prompt_line s p of None \<Rightarrow> total_lines s - 1 | Some np \<Rightarrow> np - 1) = e"
      by (simp add: e_def block_last_def line_retreat_def split: option.split)
    moreover have "(case closing_block_end_line s p of None \<Rightarrow> None | Some d \<Rightarrow> exit_status_of s d) = st"
      by (simp add: st_def block_status_def split: option.split)
    ultimately show ?thesis
      by (subst viewport_loop.simps) (simp only: Let_def result'_def oe_def)
  qed
  show ?case
  proof (cases "next_prompt_line s p")
    case None
    then have "e = total_lines s - 1"
      by (simp add: e_def block_last_def)
    then show ?thesis
      using unf None done' e by simp
  next
    case (Some np)
    then have np: "p < np" "np < total_lines s" "is_prompt s np" "e = np - 1"
      using block_last_bounds(4) [OF less.prems(4) Some] by (simp_all add: next_prompt_Some e_def)
    show ?thesis
    proof (cases "np \<ge> sadd32 vtop n")
      case True
      have "vtop + n \<le> np"
        using True order.strict_trans2 [OF np(2) total_lines_le] by (auto simp: sadd32_def min_def split: if_splits)
      then have "column_done s vtop n (total_lines s) result'"
        using done' np(4) by (auto simp: column_done_def)
      then show ?thesis
        using unf Some True by simp
    next
      case False
      have "column_done s vtop n np result'"
        using done' np by simp
      then have "column_done s vtop n (total_lines s) (viewport_loop s vtop n np result')"
        using np less.prems(1,2) by (intro less.hyps) simp_all
      then show ?thesis
        using unf Some False by simp
    qed
  qed
qed

text \<open>
  C26: the status column.  For every row of the viewport that shows a line, the status computed for
  the whole viewport in one pass over the blocks is the status of that line alone: that of the block
  the line belongs to, whichever line is at the top and however the blocks straddle the edges.
\<close>

theorem viewport_status_agrees:
  assumes "r < n" "vtop + r < total_lines s"
  shows "viewport_block_status s vtop n ! r = block_status_at s (vtop + r)"
proof (cases "alt s = None")
  case True
  define start where "start = (case (if vtop < total_lines s \<and> is_prompt s vtop then Some vtop
      else if vtop < total_lines s then prev_prompt_line s vtop else None) of
        Some p \<Rightarrow> Some p | None \<Rightarrow> find (is_prompt s) [vtop..<total_lines s])"
  have top: "vtop < total_lines s" "min vtop (total_lines s - 1) = vtop" "total_lines s \<noteq> 0"
    using assms by auto
  have gov: "start = (case prompt_at_or_above s vtop of Some p \<Rightarrow> Some p | None \<Rightarrow> find (is_prompt s) [vtop..<total_lines s])"
    using top by (simp add: start_def prompt_at_or_above_def Let_def)
  have unf: "viewport_block_status s vtop n =
      (case start of None \<Rightarrow> replicate n None | Some p \<Rightarrow> viewport_loop s vtop n p (replicate n None))"
    using True assms(1) top by (simp add: viewport_block_status_def start_def Let_def)
  have blank: "block_status_at s l = None" if "\<forall>y\<le>l. \<not> is_prompt s y" "l < total_lines s" for l
    using prompt_at_or_above_None [OF that(2)] that(1) by (simp add: block_status_at_def)
  show ?thesis
  proof (cases "prompt_at_or_above s vtop")
    case (Some p)
    then have p: "p \<le> vtop" "is_prompt s p"
      using top by (simp_all add: prompt_at_or_above_Some)
    have "column_done s vtop n p (replicate n None)"
      using p by (auto simp: column_done_def)
    then have "column_done s vtop n (total_lines s) (viewport_loop s vtop n p (replicate n None))"
      using True assms p top by (intro viewport_loop_done) auto
    then show ?thesis
      using unf gov Some assms by (simp add: column_done_def)
  next
    case None
    then have none: "\<forall>y\<le>vtop. \<not> is_prompt s y"
      using top by (simp add: prompt_at_or_above_None)
    show ?thesis
    proof (cases "find (is_prompt s) [vtop..<total_lines s]")
      case None
      then have "\<forall>y\<le>vtop + r. \<not> is_prompt s y"
        using none assms(2) unfolding find_upt_None by (meson le_less_trans nat_le_linear)
      then show ?thesis
        using unf gov \<open>prompt_at_or_above s vtop = None\<close> None assms blank by simp
    next
      case (Some p)
      then have p: "p < total_lines s" "is_prompt s p" "\<forall>y<p. \<not> is_prompt s y"
        using none unfolding find_upt_Some by (blast, blast, metis nat_le_linear)
      have before: "column_done s vtop n p (replicate n None)"
        using p blank by (auto simp: column_done_def)
      then have "column_done s vtop n (total_lines s) (viewport_loop s vtop n p (replicate n None))"
        using \<open>alt s = None\<close> assms p by (intro viewport_loop_done) auto
      then show ?thesis
        using unf gov \<open>prompt_at_or_above s vtop = None\<close> Some assms by (simp add: column_done_def)
    qed
  qed
next
  case False
  then show ?thesis
    using assms by (simp add: viewport_block_status_def block_status_at_def Let_def)
qed

section \<open>Folding\<close>

text \<open>The lines that are folded away: the output of a block whose prompt carries the fold.\<close>

definition folded_away :: "screen \<Rightarrow> nat \<Rightarrow> bool" where
  "folded_away s l \<longleftrightarrow>
     (\<exists>p a b. row_folded s p \<and> foldable_output s p = Some (a, b) \<and> a \<le> l \<and> l \<le> b)"

lemma hidden_ranges_ok:
  "sorted_wrt (<) ps \<Longrightarrow> list_all (is_prompt s) ps \<Longrightarrow> list_all (\<lambda>p. lo \<le> Suc p) ps \<Longrightarrow>
   ranges_ok lo (List.map_filter (foldable_output s) ps) (total_lines s)"
proof (induction ps arbitrary: lo)
  case (Cons p ps)
  show ?case
  proof (cases "foldable_output s p")
    case None
    then show ?thesis
      using Cons by simp
  next
    case (Some r)
    obtain a b where r: "r = (a, b)" by fastforce
    note fb = foldable_bounds [OF Some [unfolded r]]
    have b: "b < total_lines s"
      using block_last_bounds(2) [OF fb(5)] fb(4) by simp
    obtain n where n: "next_prompt_line s p = Some n" "b = n - 1"
      using fb(6) by blast
    have "b + 2 \<le> Suc q" if "q \<in> set ps" for q
    proof -
      have "p < q" "is_prompt s q"
        using Cons.prems(1,2) that by (auto simp: list_all_iff)
      moreover have "p < n" "\<forall>y. p < y \<and> y < n \<longrightarrow> \<not> is_prompt s y"
        using n(1) by (simp_all add: next_prompt_Some)
      ultimately have "n \<le> q"
        by (meson not_le)
      then show ?thesis
        using n(2) \<open>p < n\<close> by simp
    qed
    then have "ranges_ok (b + 2) (List.map_filter (foldable_output s) ps) (total_lines s)"
      using Cons.prems by (intro Cons.IH) (auto simp: list_all_iff)
    then show ?thesis
      using Cons.prems(3) fb(2,3) b Some by (simp add: r)
  qed
qed simp

text \<open>The ranges come in order and apart, so that sorting and merging them changes nothing.\<close>

lemma ranges_sorted: "ranges_ok lo hs n \<Longrightarrow> sorted hs \<and> list_all (\<lambda>(a, b). lo \<le> a) hs"
proof (induction lo hs n rule: ranges_ok.induct)
  case (2 lo a b hs n)
  then have "sorted hs" "list_all (\<lambda>(c, d). b + 2 \<le> c) hs"
    by simp_all
  then show ?case
    using 2 by (auto simp: list_all_iff less_eq_prod_def)
qed simp

lemma coalesce_apart:
  "ranges_ok lo hs n \<Longrightarrow> n \<le> u32_max \<Longrightarrow> (\<forall>a b. last_opt acc = Some (a, b) \<longrightarrow> b + 2 \<le> lo) \<Longrightarrow>
   foldl coalesce_step acc hs = acc @ hs"
proof (induction lo hs n arbitrary: acc rule: ranges_ok.induct)
  case (2 lo a b hs n)
  have "coalesce_step acc (a, b) = acc @ [(a, b)]"
    using 2 by (auto simp: coalesce_step_def sadd32_def split: option.split)
  then show ?case
    using 2 by (simp add: last_opt_def)
qed simp

lemma fp_build_eq:
  "fp_build s = \<lparr>fp_hidden = List.map_filter (foldable_output s) (filter (row_folded s) (all_prompt_lines s)), fp_total = total_lines s\<rparr>"
  "ranges_ok 0 (fp_hidden (fp_build s)) (total_lines s)"
proof -
  let ?h = "List.map_filter (foldable_output s) (filter (row_folded s) (all_prompt_lines s))"
  have ok: "ranges_ok 0 ?h (total_lines s)"
    by (rule hidden_ranges_ok) (auto simp: all_prompt_lines_def sorted_wrt_filter list_all_iff)
  have "sort ?h = ?h"
    using ranges_sorted [OF ok] by (simp add: sorted_sort_id)
  then show eq: "fp_build s = \<lparr>fp_hidden = ?h, fp_total = total_lines s\<rparr>"
    using coalesce_apart [OF ok total_lines_le, of "[]"] by (simp add: fp_build_def last_opt_def Let_def)
  show "ranges_ok 0 (fp_hidden (fp_build s)) (total_lines s)"
    using ok by (simp add: eq)
qed

lemma fp_build_total [simp]: "fp_total (fp_build s) = total_lines s"
  by (simp add: fp_build_eq(1))

lemma in_hidden: "in_ranges l (fp_hidden (fp_build s)) \<longleftrightarrow> folded_away s l"
proof -
  have "p < total_lines s \<and> is_prompt s p" if "foldable_output s p = Some r" for p r
    using foldable_bounds(1,5) [of s p "fst r" "snd r"] that by simp
  then show ?thesis
    by (auto simp: fp_build_eq(1) in_ranges_def list_ex_iff folded_away_def all_prompt_lines_def List.map_filter_def)
      (metis (no_types, lifting) case_prod_conv option.sel)+
qed

lemma skip_hidden_mono: "v < w \<Longrightarrow> skip_hidden v hs < skip_hidden w hs"
proof (induction hs arbitrary: v w)
  case (Cons r hs)
  obtain a b where r: "r = (a, b)" by fastforce
  show ?case
    using Cons.IH [of "v + (b - a + 1)" "w + (b - a + 1)"] Cons.prems skip_hidden_ge [of "w + (b - a + 1)" hs]
    by (auto simp: r)
qed simp

text \<open>
  C10: the fold projection.  The visible indices number, in order and without a gap, exactly the
  lines that no fold hides: each index below the visible total stands for such a line and is found
  again from it, a hidden line has no index, and every other line has one.  The sorting and merging
  of the ranges that \<open>build\<close> does never changes them.
\<close>

theorem fold_projection_exact:
  assumes "v < visible_total (fp_build s)" "l < total_lines s"
  shows "to_unified (fp_build s) v < total_lines s \<and> \<not> folded_away s (to_unified (fp_build s) v) \<and>
    from_unified (fp_build s) (to_unified (fp_build s) v) = Some v \<and>
    strict_mono_on {..<visible_total (fp_build s)} (to_unified (fp_build s)) \<and>
    (case from_unified (fp_build s) l of
       None \<Rightarrow> folded_away s l
     | Some w \<Rightarrow> \<not> folded_away s l \<and> w < visible_total (fp_build s) \<and> to_unified (fp_build s) w = l)"
proof -
  define hs where "hs = fp_hidden (fp_build s)"
  define n where "n = total_lines s"
  have ok: "ranges_ok 0 hs n"
    using fp_build_eq(2) by (simp add: hs_def n_def)
  have vt: "visible_total (fp_build s) = n - sum_list (map (\<lambda>(a, b). b - a + 1) hs)"
    by (simp add: visible_total_def hs_def n_def)
  have skip: "skip_hidden v hs < n \<and> to_unified (fp_build s) v = skip_hidden v hs" if "v < visible_total (fp_build s)" for v
  proof -
    have "skip_hidden v hs = v + hidden_below (skip_hidden v hs) hs"
      using skip_hidden_counts [OF ok] by blast
    also have "\<dots> < n"
      using hidden_below_all [OF ok, of "skip_hidden v hs"] that vt by simp
    finally have "skip_hidden v hs < n" .
    then show ?thesis
      by (simp add: to_unified_def Let_def hs_def [symmetric]) (simp add: n_def)
  qed
  have index: "from_unified (fp_build s) x = (if folded_away s x then None else Some (x - hidden_below x hs))" for x
    using unhide_counts [OF ok, of x x] in_hidden [of x s] by (simp add: from_unified_def hs_def)
  have at_v: "\<not> folded_away s (skip_hidden v hs)" "skip_hidden v hs - hidden_below (skip_hidden v hs) hs = v"
    using skip_hidden_counts [OF ok, of v] in_hidden [of "skip_hidden v hs" s, folded hs_def]
    by (blast, metis add_diff_cancel_right')
  have mono: "strict_mono_on {..<visible_total (fp_build s)} (to_unified (fp_build s))"
    using skip skip_hidden_mono by (auto intro!: strict_mono_onI)
  have "case from_unified (fp_build s) l of
       None \<Rightarrow> folded_away s l
     | Some w \<Rightarrow> \<not> folded_away s l \<and> w < visible_total (fp_build s) \<and> to_unified (fp_build s) w = l"
  proof (cases "folded_away s l")
    case True
    then show ?thesis
      by (simp add: index)
  next
    case False
    then have out: "\<not> in_ranges l hs"
      using in_hidden by (simp add: hs_def)
    have "l - hidden_below l hs < visible_total (fp_build s)"
      using hidden_above_fits [OF ok _ out] hidden_below_le [OF ok, of l] assms(2) by (simp add: vt n_def)
    then show ?thesis
      using skip [of "l - hidden_below l hs"] skip_hidden_back [OF ok out] False by (simp add: index)
  qed
  then show ?thesis
    using skip [OF assms(1)] at_v index mono by (simp add: n_def)
qed

section \<open>Setting and clearing folds\<close>

lemma fold_flag_other:
  "mark_contains (set_folded f m) RM_PROMPT_START = mark_contains m RM_PROMPT_START"
  "mark_contains (set_folded f m) RM_OUTPUT_START = mark_contains m RM_OUTPUT_START"
  "mark_contains (set_folded f m) RM_BLOCK_END = mark_contains m RM_BLOCK_END"
  "is_folded (set_folded f m) = f"
  by (cases f; simp add: mark_contains_def set_folded_def is_folded_def rm_bits bit.conj_disj_distrib2 and.assoc)+

lemma row_update_at:
  "row_at (row_update s p f) l = (if l = p then map_option f (row_at s l) else row_at s l)"
proof -
  have "as_u32 k \<le> k" for k
    by (simp add: as_u32_def)
  then show ?thesis
    by (auto simp: row_at_def row_update_def map_row_def nth_opt_def Let_def nth_list_update
        dest: order.strict_trans2)
qed

lemma row_update_total [simp]: "total_lines (row_update s p f) = total_lines s"
  by (simp add: total_lines_def row_update_def map_row_def Let_def)

text \<open>Two screens that differ in the folds alone have the same blocks.\<close>

definition same_blocks :: "screen \<Rightarrow> screen \<Rightarrow> bool" where
  "same_blocks s t \<longleftrightarrow> total_lines t = total_lines s \<and> row_has RM_PROMPT_START t = row_has RM_PROMPT_START s \<and>
     row_has RM_OUTPUT_START t = row_has RM_OUTPUT_START s"

lemma same_blocks_simps:
  assumes "same_blocks s t"
  shows "foldable_output t = foldable_output s" "all_prompt_lines t = all_prompt_lines s"
    "last_prompt_line t = last_prompt_line s"
proof -
  have eq: "total_lines t = total_lines s" "row_has RM_PROMPT_START t = row_has RM_PROMPT_START s"
    "row_has RM_OUTPUT_START t = row_has RM_OUTPUT_START s"
    using assms by (simp_all add: same_blocks_def)
  then have pn: "next_prompt_line t l = next_prompt_line s l" "prev_prompt_line t l = prev_prompt_line s l" for l
    by (simp_all add: next_prompt_line_def prev_prompt_line_def)
  have "block_output_range t l = block_output_range s l" for l
    unfolding block_output_range_def block_last_def eq pn ..
  then show "foldable_output t = foldable_output s"
    by (intro ext) (simp add: foldable_output_def eq pn)
  show "all_prompt_lines t = all_prompt_lines s" "last_prompt_line t = last_prompt_line s"
    by (simp_all add: all_prompt_lines_def last_prompt_line_def prev_prompt_line_def eq)
qed

lemma same_blocks_trans [trans]: "same_blocks s t \<Longrightarrow> same_blocks t u \<Longrightarrow> same_blocks s u"
  by (simp add: same_blocks_def)

lemma same_blocks_refl [simp]: "same_blocks s s"
  by (simp add: same_blocks_def)

lemma set_block_folded_effect:
  "same_blocks s (set_block_folded p f s)"
  "row_folded (set_block_folded p f s) l =
     (if l = p \<and> is_prompt s p \<and> (f \<longrightarrow> foldable_output s p \<noteq> None) then f else row_folded s l)"
proof -
  have has: "row_has flag (row_update s p (\<lambda>r. r\<lparr>mark := set_folded f (mark r)\<rparr>)) = row_has flag s"
    if "flag \<in> {RM_PROMPT_START, RM_OUTPUT_START}" for flag
    using that by (auto simp: row_has_def row_update_at fold_flag_other fun_eq_iff split: option.split)
  then show "same_blocks s (set_block_folded p f s)"
    by (simp add: set_block_folded_def same_blocks_def)
  show "row_folded (set_block_folded p f s) l =
     (if l = p \<and> is_prompt s p \<and> (f \<longrightarrow> foldable_output s p \<noteq> None) then f else row_folded s l)"
    by (auto simp: set_block_folded_def row_folded_def row_update_at fold_flag_other row_has_def split: option.split)
qed

lemma foldable_unique:
  assumes "foldable_output s p = Some (a, b)" "foldable_output s q = Some (c, d)" "a \<le> l" "l \<le> b" "c \<le> l" "l \<le> d"
  shows "p = q"
proof -
  note p = foldable_bounds [OF assms(1)] and q = foldable_bounds [OF assms(2)]
  have "l < total_lines s"
    using block_last_bounds(2) [OF p(5)] p(4) assms(4) by simp
  then have "prompt_at_or_above s l = Some p" "prompt_at_or_above s l = Some q"
    using block_governs [OF p(1,5)] block_governs [OF q(1,5)] p(2,4) q(2,4) assms(3-6) by auto
  then show ?thesis
    by simp
qed

text \<open>
  C28: folding one block.  Folding a block hides exactly its output lines and changes nothing for the
  other lines; unfolding it shows exactly those lines again.
\<close>

theorem fold_hides_exactly_the_output:
  assumes "foldable_output s p = Some (a, b)"
  shows "(folded_away (set_block_folded p True s) l \<longleftrightarrow> folded_away s l \<or> (a \<le> l \<and> l \<le> b)) \<and>
         (folded_away (set_block_folded p False s) l \<longleftrightarrow> folded_away s l \<and> \<not> (a \<le> l \<and> l \<le> b))"
proof -
  have same: "foldable_output (set_block_folded p f s) = foldable_output s" for f
    by (rule same_blocks_simps(1) [OF set_block_folded_effect(1)])
  define H where "H q \<longleftrightarrow> (\<exists>c d. foldable_output s q = Some (c, d) \<and> c \<le> l \<and> l \<le> d)" for q
  have away: "folded_away (set_block_folded p f s) l \<longleftrightarrow> (\<exists>q. row_folded (set_block_folded p f s) q \<and> H q)"
    "folded_away s l \<longleftrightarrow> (\<exists>q. row_folded s q \<and> H q)" for f
    by (auto simp: folded_away_def same H_def)
  have p: "is_prompt s p \<and> foldable_output s p \<noteq> None"
    using foldable_bounds(1) [OF assms] assms by simp
  have row: "row_folded (set_block_folded p f s) q \<longleftrightarrow> (if q = p then f else row_folded s q)" for f q
    using p by (simp add: set_block_folded_effect(2))
  have Hp: "H p \<longleftrightarrow> a \<le> l \<and> l \<le> b" and uni: "H p \<Longrightarrow> H q \<Longrightarrow> q = p" for q
    using assms foldable_unique [OF assms] by (auto simp: H_def)
  show ?thesis
    unfolding away row Hp [symmetric] using uni by auto metis
qed

lemma fold_all_effect:
  "fold (\<lambda>l s. if Some l \<noteq> lst then set_block_folded l True s else s) ps s = t \<Longrightarrow>
   same_blocks s t \<and> (\<forall>q. row_folded t q \<longleftrightarrow> row_folded s q \<or> (q \<in> set ps \<and> Some q \<noteq> lst \<and> foldable_output s q \<noteq> None))"
proof (induction ps arbitrary: s)
  case (Cons p ps)
  define u where "u = (if Some p \<noteq> lst then set_block_folded p True s else s)"
  have su: "same_blocks s u"
    using set_block_folded_effect(1) by (simp add: u_def)
  have "same_blocks u t \<and> (\<forall>q. row_folded t q \<longleftrightarrow> row_folded u q \<or> (q \<in> set ps \<and> Some q \<noteq> lst \<and> foldable_output u q \<noteq> None))"
    using Cons.prems by (intro Cons.IH) (simp add: u_def)
  moreover have "is_prompt s p" if "foldable_output s p \<noteq> None"
    using that by (auto simp: foldable_output_def split: if_splits)
  then have "row_folded u q \<longleftrightarrow> row_folded s q \<or> (q = p \<and> Some q \<noteq> lst \<and> foldable_output s q \<noteq> None)" for q
    by (auto simp: u_def set_block_folded_effect(2))
  ultimately show ?case
    using same_blocks_simps(1) [OF su] same_blocks_trans [OF su] by auto
qed simp

lemma unfold_all_effect:
  "fold (\<lambda>l s. set_block_folded l False s) ps s = t \<Longrightarrow>
   same_blocks s t \<and> (\<forall>q. row_folded t q \<longleftrightarrow> row_folded s q \<and> \<not> (q \<in> set ps \<and> is_prompt s q))"
proof (induction ps arbitrary: s)
  case (Cons p ps)
  define u where "u = set_block_folded p False s"
  have su: "same_blocks s u"
    using set_block_folded_effect(1) by (simp add: u_def)
  have "same_blocks u t \<and> (\<forall>q. row_folded t q \<longleftrightarrow> row_folded u q \<and> \<not> (q \<in> set ps \<and> is_prompt u q))"
    using Cons.prems by (intro Cons.IH) (simp add: u_def)
  then show ?case
    using su same_blocks_trans [OF su] by (auto simp: u_def set_block_folded_effect(2) same_blocks_def)
qed simp

text \<open>
  folding and unfolding all.  \<open>fold_all_completed\<close> hides exactly the output lines of the
  completed blocks that have one, and \<open>unfold_all\<close> leaves no line hidden.
\<close>

theorem fold_all_and_unfold_all:
  "(folded_away (fold_all_completed s) l \<longleftrightarrow> (\<exists>p a b. foldable_output s p = Some (a, b) \<and> a \<le> l \<and> l \<le> b)) \<and>
   \<not> folded_away (unfold_all s) l"
proof -
  have prompts: "p \<in> set (all_prompt_lines s) \<and> Some p \<noteq> last_prompt_line s \<and> is_prompt s p" if "foldable_output s p = Some (a, b)" for p a b
  proof -
    note fb = foldable_bounds [OF that]
    obtain n where "next_prompt_line s p = Some n"
      using fb(6) by blast
    then have "p < n" "n < total_lines s" "is_prompt s n"
      by (simp_all add: next_prompt_Some)
    then have "last_prompt_line s \<noteq> Some p"
      by (auto simp: last_prompt_line_def prev_prompt_Some)
    then show ?thesis
      using fb(1,5) by (auto simp: all_prompt_lines_def)
  qed
  define t where "t = fold_all_completed s"
  have t: "same_blocks s t" "row_folded t q \<longleftrightarrow> row_folded s q \<or> (q \<in> set (all_prompt_lines s) \<and> Some q \<noteq> last_prompt_line s \<and> foldable_output s q \<noteq> None)" for q
    using fold_all_effect [of "last_prompt_line s" "all_prompt_lines s" s t] by (simp_all add: t_def fold_all_completed_def Let_def)
  have "folded_away t l \<longleftrightarrow> (\<exists>p a b. foldable_output s p = Some (a, b) \<and> a \<le> l \<and> l \<le> b)"
    using prompts unfolding folded_away_def same_blocks_simps(1) [OF t(1)] t(2) by (metis option.distinct(1))
  moreover define u where "u = unfold_all s"
  have u: "same_blocks s u" "row_folded u q \<longleftrightarrow> row_folded s q \<and> \<not> (q \<in> set (all_prompt_lines s) \<and> is_prompt s q)" for q
    using unfold_all_effect [of "all_prompt_lines s" s u] by (simp_all add: u_def unfold_all_def)
  have "\<not> folded_away u l"
    using prompts unfolding folded_away_def same_blocks_simps(1) [OF u(1)] u(2) by blast
  ultimately show ?thesis
    by (simp add: t_def u_def)
qed

section \<open>A concrete screen\<close>

lemma sample_visible: "visible_total (fp_build sample_blocks) = 3"
  by (simp add: visible_total_def fp_build_eq(1) all_prompt_lines_def upt_rec sample_fold)

theorem viewport_status_agrees_witness:
  "viewport_block_status sample_blocks 1 3 ! 1 = block_status_at sample_blocks (1 + 1)"
  by (rule viewport_status_agrees) simp_all

theorem fold_projection_exact_witness:
  "to_unified (fp_build sample_blocks) 1 < 5 \<and> from_unified (fp_build sample_blocks) (to_unified (fp_build sample_blocks) 1) = Some 1 \<and>
   (case from_unified (fp_build sample_blocks) 2 of None \<Rightarrow> folded_away sample_blocks 2
      | Some w \<Rightarrow> to_unified (fp_build sample_blocks) w = 2)"
  using fold_projection_exact [of 1 sample_blocks 2] by (simp add: sample_visible split: option.splits)

theorem fold_hides_exactly_the_output_witness:
  "(folded_away (set_block_folded 0 True sample_blocks) 2 \<longleftrightarrow> folded_away sample_blocks 2 \<or> (1 \<le> (2::nat) \<and> 2 \<le> (2::nat))) \<and>
   (folded_away (set_block_folded 0 False sample_blocks) 2 \<longleftrightarrow> folded_away sample_blocks 2 \<and> \<not> (1 \<le> (2::nat) \<and> 2 \<le> (2::nat)))"
  by (rule fold_hides_exactly_the_output [OF sample_fold(1)])

end
