(* ===== verification/Selection.thy ===== *)
theory Selection
  imports Blocks Geometry
begin

text \<open>
  Mouse selection, after \<open>crates/mux/src/selection.rs\<close>: the selection of a pane, its cells, the word and
  the line under a click, and the text of a selection and of a screen.  \<open>char::is_alphanumeric\<close>
  (Unicode) is the parameter \<open>alnum\<close>.
\<close>

record selection =
  sel_pane :: pane_id
  sel_anchor :: point
  sel_head :: point

definition selection_start :: "pane_id \<Rightarrow> nat \<Rightarrow> nat \<Rightarrow> selection" where
  "selection_start p r c = \<lparr>sel_pane = p, sel_anchor = mk_point r c, sel_head = mk_point r c\<rparr>"

definition selection_extend :: "nat \<Rightarrow> nat \<Rightarrow> rect \<Rightarrow> selection \<Rightarrow> selection" where
  "selection_extend r c pane_rect s =
     s\<lparr>sel_head := mk_point (min r (rc_rows pane_rect - 1)) (min c (rc_cols pane_rect - 1))\<rparr>"

text \<open>The derived order of points: rows first.\<close>

definition point_le :: "point \<Rightarrow> point \<Rightarrow> bool" where
  "point_le p q \<longleftrightarrow> pt_row p < pt_row q \<or> (pt_row p = pt_row q \<and> pt_col p \<le> pt_col q)"

definition selection_normalized :: "selection \<Rightarrow> point \<times> point" where
  "selection_normalized s =
     (if point_le (sel_anchor s) (sel_head s) then (sel_anchor s, sel_head s) else (sel_head s, sel_anchor s))"

definition selection_is_empty :: "selection \<Rightarrow> bool" where
  "selection_is_empty s \<longleftrightarrow> sel_anchor s = sel_head s"

definition selection_is_click :: "selection \<Rightarrow> bool" where
  "selection_is_click s \<longleftrightarrow>
     pt_row (sel_anchor s) = pt_row (sel_head s) \<and> abs_diff (pt_col (sel_anchor s)) (pt_col (sel_head s)) \<le> 1"

section \<open>The cells of a selection\<close>

record cells_iter =
  sc_cur :: point
  sc_end :: point
  sc_max_cols :: nat

definition cells_next :: "cells_iter \<Rightarrow> cells_iter \<times> point option" where
  "cells_next it =
     (if \<not> point_le (sc_cur it) (sc_end it) then (it, None)
      else (let here = sc_cur it;
                last_col = (if pt_row here = pt_row (sc_end it) then pt_col (sc_end it) else sc_max_cols it - 1)
            in (it\<lparr>sc_cur := (if pt_col here \<ge> last_col then mk_point (sadd16 (pt_row here) 1) 0
                              else mk_point (pt_row here) (pt_col here + 1))\<rparr>, Some here)))"

definition selection_cells :: "selection \<Rightarrow> nat \<Rightarrow> cells_iter" where
  "selection_cells s max_cols =
     (let (a, b) = selection_normalized s in \<lparr>sc_cur = a, sc_end = b, sc_max_cols = max_cols\<rparr>)"

text \<open>Running the iterator to its end; \<open>None\<close> when it never ends.\<close>

partial_function (option) collect_cells :: "cells_iter \<Rightarrow> point list option" where
  "collect_cells it =
     (case cells_next it of
        (it', None) \<Rightarrow> Some []
      | (it', Some p) \<Rightarrow> Option.bind (collect_cells it') (\<lambda>ps. Some (p # ps)))"

section \<open>The row under a click\<close>

definition viewport_content_row :: "screen \<Rightarrow> nat \<Rightarrow> nat \<Rightarrow> nat \<Rightarrow> grid_row option" where
  "viewport_content_row s pane_rows off vrow =
     (let proj = fp_build s; vt = visible_total proj;
          idx = (vt - pane_rows - off) + vrow
      in if idx < vt then row_at s (to_unified proj idx) else None)"

definition is_word_char :: "(nat \<Rightarrow> bool) \<Rightarrow> rstr \<Rightarrow> bool" where
  "is_word_char alnum g =
     (case g of
        [] \<Rightarrow> False
      | [c] \<Rightarrow> alnum c \<or> c \<in> {95, 46, 45, 47, 126}
      | _ \<Rightarrow> True)"

function word_left :: "(nat \<Rightarrow> bool) \<Rightarrow> (nat \<Rightarrow> bool) \<Rightarrow> nat \<Rightarrow> nat" where
  "word_left is_word is_spacer start =
     (if start > 0 then
        (let candidate = start - 1;
             g = (if candidate > 0 \<and> is_spacer candidate then candidate - 1 else candidate)
         in if is_word g then word_left is_word is_spacer g else start)
      else start)"
  by pat_completeness auto
termination
  by (relation "measure (\<lambda>(w, sp, start). start)") auto

declare word_left.simps [simp del]

function word_right :: "(nat \<Rightarrow> bool) \<Rightarrow> (nat \<Rightarrow> bool) \<Rightarrow> nat \<Rightarrow> nat \<Rightarrow> nat" where
  "word_right is_word is_spacer cols e =
     (if e + 1 < cols then
        (let candidate = e + 1
         in if is_word candidate then
              word_right is_word is_spacer cols
                (if candidate + 1 < cols \<and> is_spacer (candidate + 1) then candidate + 1 else candidate)
            else e)
      else e)"
  by pat_completeness auto
termination
  by (relation "measure (\<lambda>(w, sp, cols, e). cols - e)") auto

declare word_right.simps [simp del]

definition word_at :: "(nat \<Rightarrow> bool) \<Rightarrow> pane_id \<Rightarrow> screen \<Rightarrow> nat \<Rightarrow> nat \<Rightarrow> nat \<Rightarrow> nat \<Rightarrow> selection option" where
  "word_at alnum p s pane_rows off r c =
     (let cols = num_cols (active s)
      in if c \<ge> cols then None
         else case viewport_content_row s pane_rows off r of
           None \<Rightarrow> None
         | Some content \<Rightarrow>
             (let is_word = (\<lambda>i. case nth_opt (cells content) i of Some cl \<Rightarrow> is_word_char alnum (grapheme cl) | None \<Rightarrow> False);
                  is_spacer = (\<lambda>i. case nth_opt (cells content) i of Some cl \<Rightarrow> is_wide_spacer cl | None \<Rightarrow> False);
                  c = (if c > 0 \<and> is_spacer c then c - 1 else c)
              in if \<not> is_word c then None
                 else Some \<lparr>sel_pane = p,
                   sel_anchor = mk_point r (word_left is_word is_spacer c),
                   sel_head = mk_point r (word_right is_word is_spacer cols
                     (if c + 1 < cols \<and> is_spacer (c + 1) then c + 1 else c))\<rparr>))"

definition line_at :: "pane_id \<Rightarrow> screen \<Rightarrow> nat \<Rightarrow> nat \<Rightarrow> nat \<Rightarrow> selection option" where
  "line_at p s pane_rows off r =
     (case viewport_content_row s pane_rows off r of
        None \<Rightarrow> None
      | Some content \<Rightarrow>
          (case filter (\<lambda>i. case nth_opt (cells content) i of Some cl \<Rightarrow> \<not> is_blank cl | None \<Rightarrow> False)
                  [0..<num_cols (active s)] of
             [] \<Rightarrow> None
           | is \<Rightarrow> Some \<lparr>sel_pane = p, sel_anchor = mk_point r 0, sel_head = mk_point r (last is)\<rparr>))"

section \<open>Text\<close>

definition selected_row_text :: "grid_row \<Rightarrow> nat \<Rightarrow> nat \<Rightarrow> rstr" where
  "selected_row_text content row_start row_end =
     (let cell_at = nth_opt (cells content);
          last_significant = foldl (\<lambda>acc i. case cell_at i of Some cl \<Rightarrow> if \<not> is_blank cl then i else acc | None \<Rightarrow> acc)
            row_start [row_start..<row_end + 1]
      in concat (map (\<lambda>i. case cell_at i of
             Some cl \<Rightarrow> if is_wide_spacer cl then [] else grapheme cl
           | None \<Rightarrow> []) [row_start..<last_significant + 1]))"

definition extract_text :: "selection \<Rightarrow> screen \<Rightarrow> nat \<Rightarrow> nat \<Rightarrow> rstr" where
  "extract_text sel s pane_rows off =
     (let (a, b) = selection_normalized sel; cols = num_cols (active s)
      in concat (map (\<lambda>r.
           (case viewport_content_row s pane_rows off r of
              None \<Rightarrow> []
            | Some content \<Rightarrow>
                (let row_start = (if r = pt_row a then pt_col a else 0);
                     row_start = (if r = pt_row a \<and> row_start > 0 \<and>
                                     (case nth_opt (cells content) row_start of Some cl \<Rightarrow> is_wide_spacer cl | None \<Rightarrow> False)
                                  then row_start - 1 else row_start);
                     row_end = (if r = pt_row b then pt_col b else cols - 1)
                 in selected_row_text content row_start row_end)) @
           (if r < pt_row b then [10] else [])) [pt_row a..<pt_row b + 1]))"

definition screen_text :: "screen \<Rightarrow> rstr" where
  "screen_text s =
     (let lines = map (\<lambda>r. trim_end (row_text 0 r)) (g_rows (active s))
      in join_with 10 (rev (dropWhile (\<lambda>t. t = []) (rev lines))))"

end
