(* ===== verification/Virtual_Screen.thy ===== *)
theory Virtual_Screen
  imports Graphics Cursor
begin

text \<open>
  The composed frame, after \<open>crates/mux/src/virtual_screen.rs\<close>: cells, cursor and image placements in the
  coordinates of the client's terminal.  The compositor builds one, the diff renderer compares two.
\<close>

record visible_placement =
  vpl_key :: nat
  vpl_image_id :: nat
  vpl_placement_id :: nat
  vpl_protocol :: image_protocol
  vpl_iterm_args :: "rstr option"
  vpl_generation :: nat
  vpl_format :: image_format
  vpl_pixel_w :: nat
  vpl_pixel_h :: nat
  vpl_src_x :: nat
  vpl_src_y :: nat
  vpl_src_w :: nat
  vpl_src_h :: nat
  vpl_data :: bytes
  vpl_host_row :: nat
  vpl_host_col :: nat
  vpl_rows :: nat
  vpl_cols :: nat
  vpl_z :: int
  vpl_frames :: "frame list"
  vpl_anim :: "anim_control option"

record visible_virtual_placement =
  vvp_key :: nat
  vvp_image_id :: nat
  vvp_placement_id :: nat
  vvp_generation :: nat
  vvp_format :: image_format
  vvp_pixel_w :: nat
  vvp_pixel_h :: nat
  vvp_data :: bytes
  vvp_rows :: nat
  vvp_cols :: nat

record virtual_screen =
  vs_cells :: "cell list"
  vs_cursor :: "(nat \<times> nat) option"
  vs_cursor_visible :: bool
  vs_cursor_style :: "(cursor_shape \<times> bool) option"
  vs_rows :: nat
  vs_cols :: nat
  vs_placements :: "visible_placement list"
  vs_virtual_placements :: "visible_virtual_placement list"

definition vs_blank :: "nat \<Rightarrow> nat \<Rightarrow> virtual_screen" where
  "vs_blank rows cols =
     (let rows = max rows 1; cols = max cols 1
      in \<lparr>vs_cells = replicate (rows * cols) default_cell, vs_cursor = None, vs_cursor_visible = False,
          vs_cursor_style = None, vs_rows = rows, vs_cols = cols, vs_placements = [],
          vs_virtual_placements = []\<rparr>)"

definition vs_cell :: "virtual_screen \<Rightarrow> nat \<Rightarrow> nat \<Rightarrow> cell option" where
  "vs_cell s r c =
     (if r \<ge> vs_rows s \<or> c \<ge> vs_cols s then None else nth_opt (vs_cells s) (r * vs_cols s + c))"

text \<open>\<open>cell_mut\<close>, as the update of the cell it gives access to.\<close>

definition vs_cell_mut :: "nat \<Rightarrow> nat \<Rightarrow> (cell \<Rightarrow> cell) \<Rightarrow> virtual_screen \<Rightarrow> virtual_screen" where
  "vs_cell_mut r c f s =
     (if r \<ge> vs_rows s \<or> c \<ge> vs_cols s then s
      else s\<lparr>vs_cells := (vs_cells s)[r * vs_cols s + c := f (vs_cells s ! (r * vs_cols s + c))]\<rparr>)"

definition vs_put :: "nat \<Rightarrow> nat \<Rightarrow> cell \<Rightarrow> virtual_screen \<Rightarrow> virtual_screen" where
  "vs_put r c x s = vs_cell_mut r c (\<lambda>_. x) s"

section \<open>Well-formed frames\<close>

definition vs_wf :: "virtual_screen \<Rightarrow> bool" where
  "vs_wf s \<longleftrightarrow> 0 < vs_rows s \<and> 0 < vs_cols s \<and> length (vs_cells s) = vs_rows s * vs_cols s"

text \<open>The cells of one row.\<close>

definition vs_row :: "virtual_screen \<Rightarrow> nat \<Rightarrow> cell list" where
  "vs_row s r = take (vs_cols s) (drop (r * vs_cols s) (vs_cells s))"

lemma cell_index:
  assumes "r < rows" "c < cols"
  shows "r * cols + c < rows * (cols :: nat)"
proof -
  have "r * cols + c < Suc r * cols" using assms(2) by simp
  also have "\<dots> \<le> rows * cols" using assms(1) by (intro mult_le_mono) auto
  finally show ?thesis .
qed

lemma vs_row_length: "vs_wf s \<Longrightarrow> r < vs_rows s \<Longrightarrow> length (vs_row s r) = vs_cols s"
  using cell_index [of r "vs_rows s" "vs_cols s - 1" "vs_cols s"] by (simp add: vs_row_def vs_wf_def)

lemma vs_cell_row:
  "vs_wf s \<Longrightarrow> r < vs_rows s \<Longrightarrow> c < vs_cols s \<Longrightarrow> vs_cell s r c = Some (vs_row s r ! c)"
  using cell_index [of r "vs_rows s" c "vs_cols s"] by (simp add: vs_cell_def vs_row_def vs_wf_def)

lemma vs_cell_None [simp]: "vs_cols s \<le> c \<Longrightarrow> vs_cell s r c = None"
  by (simp add: vs_cell_def)

lemma vs_blank_wf: "vs_wf (vs_blank rows cols)"
  by (simp add: vs_wf_def vs_blank_def Let_def max_def)

lemma vs_cell_mut_fields [simp]:
  "vs_rows (vs_cell_mut r c f s) = vs_rows s" "vs_cols (vs_cell_mut r c f s) = vs_cols s"
  "vs_wf (vs_cell_mut r c f s) = vs_wf s"
  by (simp_all add: vs_cell_mut_def vs_wf_def)

lemma vs_cell_mut_cell:
  assumes "vs_wf s"
  shows "vs_cell (vs_cell_mut r c f s) r' c' =
     (if r' = r \<and> c' = c then map_option f (vs_cell s r c) else vs_cell s r' c')"
proof (cases "r < vs_rows s \<and> c < vs_cols s \<and> r' < vs_rows s \<and> c' < vs_cols s")
  case True
  then have i: "r * vs_cols s + c < length (vs_cells s)" "r' * vs_cols s + c' < length (vs_cells s)"
    using assms by (simp_all add: vs_wf_def cell_index)
  have "r' * vs_cols s + c' = r * vs_cols s + c \<longleftrightarrow> r' = r \<and> c' = c"
  proof
    assume e: "r' * vs_cols s + c' = r * vs_cols s + c"
    have "(r' * vs_cols s + c') div vs_cols s = r'" "(r * vs_cols s + c) div vs_cols s = r"
      using True by simp_all
    with e have "r' = r" by simp
    with e show "r' = r \<and> c' = c" by simp
  qed simp
  then show ?thesis using True i by (auto simp: vs_cell_def vs_cell_mut_def nth_opt_def nth_list_update)
next
  case False
  then show ?thesis by (auto simp: vs_cell_def vs_cell_mut_def)
qed

end
