(* ===== verification/Diff.thy ===== *)
theory Diff
  imports Virtual_Screen Terminfo "HOL-Library.Product_Lexorder"
begin

unbundle bit_operations_syntax

text \<open>
  The diff renderer, after \<open>crates/mux/src/diff.rs\<close>: the terminal commands that turn what a client's
  terminal shows into the next frame.  The code writes text; here a renderer returns the commands, and
  \<open>cmd_text\<close> is their text: what \<open>render\<close> writes is \<open>render_bytes\<close>.  The order in which a hash map
  yields its keys is the parameter \<open>ord\<close>, a function of the set of keys.
\<close>

section \<open>Terminal commands\<close>

text \<open>
  A CSI sequence with its groups of parameters, intermediates (a private marker first) and final byte;
  ESC and one byte; text to print; a control string (APC, DCS or OSC) with its introducer and end.
\<close>

datatype term_cmd =
    TCsi "nat list list" bytes char
  | TEsc char
  | TText rstr
  | TString rstr

definition is_private :: "char \<Rightarrow> bool" where
  "is_private c \<longleftrightarrow> c = CHR ''?'' \<or> c = CHR ''>'' \<or> c = CHR ''<'' \<or> c = CHR ''=''"

definition csi_text :: "nat list list \<Rightarrow> bytes \<Rightarrow> char \<Rightarrow> bytes" where
  "csi_text ps ints f =
     ESC # ''['' @ filter is_private ints
       @ join_with (CHR '';'') (map (\<lambda>g. join_with (CHR '':'') (map dec g)) ps)
       @ filter (\<lambda>c. \<not> is_private c) ints @ [f]"

primrec cmd_text :: "term_cmd \<Rightarrow> rstr" where
  "cmd_text (TCsi ps ints f) = lit (csi_text ps ints f)"
| "cmd_text (TEsc c) = lit [ESC, c]"
| "cmd_text (TText t) = t"
| "cmd_text (TString t) = t"

definition cup :: "nat \<Rightarrow> nat \<Rightarrow> term_cmd" where
  "cup r c = TCsi [[as_u16 (r + 1)], [as_u16 (c + 1)]] [] (CHR ''H'')"

definition sgr :: "nat list list \<Rightarrow> term_cmd" where
  "sgr ps = TCsi ps [] (CHR ''m'')"

section \<open>State\<close>

record diff_graphics_caps =
  dg_kitty :: bool
  dg_sixel :: bool
  dg_iterm2 :: bool

record placed_rect =
  pr_host_row :: nat
  pr_host_col :: nat
  pr_image_id :: nat
  pr_placement_id :: nat
  pr_src_x :: nat
  pr_src_y :: nat
  pr_src_w :: nat
  pr_src_h :: nat
  pr_rows :: nat
  pr_cols :: nat

record diff_renderer =
  dr_previous :: "virtual_screen option"
  dr_graphics :: diff_graphics_caps
  dr_transmitted :: "nat \<rightharpoonup> nat"
  dr_transmitted_virtual :: "nat \<rightharpoonup> nat"
  dr_placed :: "nat \<rightharpoonup> placed_rect"
  dr_boxed :: "nat \<rightharpoonup> placed_rect"
  dr_virtual_placed :: "nat \<rightharpoonup> nat \<times> nat"
  dr_placed_data :: "nat \<rightharpoonup> placed_rect"
  dr_reset_images :: bool
  dr_last_frame_seq :: "nat \<rightharpoonup> nat"
  dr_last_anim_sent :: "nat \<rightharpoonup> anim_control"
  dr_last_cursor_ps :: "nat option"

definition diff_renderer_new :: diff_renderer where
  "diff_renderer_new =
     \<lparr>dr_previous = None, dr_graphics = \<lparr>dg_kitty = False, dg_sixel = False, dg_iterm2 = False\<rparr>,
      dr_transmitted = Map.empty, dr_transmitted_virtual = Map.empty, dr_placed = Map.empty,
      dr_boxed = Map.empty, dr_virtual_placed = Map.empty, dr_placed_data = Map.empty,
      dr_reset_images = False, dr_last_frame_seq = Map.empty, dr_last_anim_sent = Map.empty,
      dr_last_cursor_ps = None\<rparr>"

definition set_graphics_caps :: "diff_graphics_caps \<Rightarrow> diff_renderer \<Rightarrow> diff_renderer" where
  "set_graphics_caps caps rd = rd\<lparr>dr_graphics := caps\<rparr>"

definition diff_invalidate :: "diff_renderer \<Rightarrow> diff_renderer" where
  "diff_invalidate rd = rd\<lparr>dr_previous := None, dr_reset_images := True, dr_last_cursor_ps := None\<rparr>"

section \<open>SGR\<close>

record cell_attrs =
  ca_fg :: color
  ca_bg :: color
  ca_ucolor :: color
  ca_ustyle :: underline_style
  ca_attrs :: attrs

definition cell_attrs_default :: cell_attrs where
  "cell_attrs_default = \<lparr>ca_fg = DefaultColor, ca_bg = DefaultColor, ca_ucolor = DefaultColor,
     ca_ustyle = UlNone, ca_attrs = 0\<rparr>"

definition from_cell :: "cell \<Rightarrow> cell_attrs" where
  "from_cell c = \<lparr>ca_fg = c_fg c, ca_bg = c_bg c, ca_ucolor = c_ucolor c, ca_ustyle = c_ustyle c,
     ca_attrs = c_attrs c\<rparr>"

definition sgr_flag :: "attrs \<Rightarrow> attrs \<Rightarrow> nat \<Rightarrow> term_cmd list" where
  "sgr_flag a flag n = (if a AND flag = flag then [sgr [[n]]] else [])"

definition sgr_underline :: "underline_style \<Rightarrow> term_cmd" where
  "sgr_underline st =
     (case st of UlNone \<Rightarrow> sgr [[4]] | UlSingle \<Rightarrow> sgr [[4]] | UlDouble \<Rightarrow> sgr [[4, 2]]
      | UlCurly \<Rightarrow> sgr [[4, 3]] | UlDotted \<Rightarrow> sgr [[4, 4]] | UlDashed \<Rightarrow> sgr [[4, 5]])"

text \<open>The foreground and the background differ in the bases of their codes.\<close>

definition sgr_color :: "nat \<Rightarrow> nat \<Rightarrow> nat \<Rightarrow> color \<Rightarrow> term_cmd list" where
  "sgr_color base bright sel c =
     (case c of
        DefaultColor \<Rightarrow> []
      | Indexed n \<Rightarrow>
          if n \<le> 7 then [sgr [[base + n]]]
          else if n \<le> 15 then [sgr [[bright + (n - 8)]]]
          else [sgr [[sel], [5], [n]]]
      | Rgb r g b \<Rightarrow> [sgr [[sel], [2], [r], [g], [b]]])"

definition sgr_ucolor :: "color \<Rightarrow> term_cmd list" where
  "sgr_ucolor c =
     (case c of
        DefaultColor \<Rightarrow> []
      | Indexed n \<Rightarrow> [sgr [[58, 5, n]]]
      | Rgb r g b \<Rightarrow> [sgr [[58, 2, r, g, b]]])"

definition apply_sgr_delta :: "cell_attrs \<Rightarrow> cell \<Rightarrow> term_cmd list" where
  "apply_sgr_delta prev cl =
     (let new = from_cell cl; a = ca_attrs new
      in if new = prev then []
         else [sgr [[0]]] @ sgr_flag a A_BOLD 1 @ sgr_flag a A_DIM 2 @ sgr_flag a A_ITALIC 3
           @ sgr_flag a A_BLINK 5
           @ (if a AND A_UNDERLINE = A_UNDERLINE then [sgr_underline (ca_ustyle new)] else [])
           @ sgr_flag a A_REVERSE 7 @ sgr_flag a A_HIDDEN 8 @ sgr_flag a A_HIGHLIGHT 103
           @ sgr_flag a A_STRIKETHROUGH 9
           @ sgr_color 30 90 38 (ca_fg new) @ sgr_color 40 100 48 (ca_bg new)
           @ sgr_ucolor (ca_ucolor new))"

text \<open>\<open>decscusr_ps\<close>: the parameter of DECSCUSR for a cursor style.\<close>

definition decscusr_ps :: "(cursor_shape \<times> bool) option \<Rightarrow> nat" where
  "decscusr_ps style =
     (case style of
        None \<Rightarrow> 0
      | Some (sh, bl) \<Rightarrow>
          (case sh of ShapeDefault \<Rightarrow> 0
           | ShapeBlock \<Rightarrow> if bl then 1 else 2
           | ShapeUnderline \<Rightarrow> if bl then 3 else 4
           | ShapeBar \<Rightarrow> if bl then 5 else 6))"

section \<open>Cells\<close>

text \<open>
  Painting cells of a row from a column up to a limit.  The column is a \<open>u16\<close>: a wide cell is never in
  the last column of a frame of 65535 columns, so the addition is exact.
\<close>

function paint_run ::
    "(rstr \<Rightarrow> nat) \<Rightarrow> virtual_screen \<Rightarrow> nat \<Rightarrow> nat \<Rightarrow> nat \<Rightarrow> cell_attrs \<Rightarrow> term_cmd list \<times> cell_attrs" where
  "paint_run wd s lim r c a =
     (if c < lim then
        (case vs_cell s r c of
           None \<Rightarrow> ([], a)
         | Some cl \<Rightarrow>
             if is_wide_spacer cl then paint_run wd s lim r (c + 1) a
             else (let (out, a') = paint_run wd s lim r (c + cell_advance wd (grapheme cl)) (from_cell cl)
                   in (apply_sgr_delta a cl @ TText (grapheme cl) # out, a')))
      else ([], a))"
  by pat_completeness auto
termination
proof (relation "measure (\<lambda>(wd, s, lim, r, c, a). lim - c)", goal_cases)
  case (3 wd s lim r c a cl)
  have "1 \<le> cell_advance wd (grapheme cl)" using cell_advance_bounds by blast
  with 3 show ?case by simp
qed auto

declare paint_run.simps [simp del]

definition full_repaint :: "(rstr \<Rightarrow> nat) \<Rightarrow> virtual_screen \<Rightarrow> term_cmd list" where
  "full_repaint wd s =
     TCsi [[2]] [] (CHR ''J'') # TCsi [] [] (CHR ''H'') #
     fst (foldl (\<lambda>(out, a) r.
            let (o', a') = paint_run wd s (vs_cols s) r 0 a in (out @ cup r 0 # o', a'))
          ([], cell_attrs_default) [0..<vs_rows s])"

text \<open>One run of changed cells; it returns the column where it stopped.\<close>

function diff_run ::
    "(rstr \<Rightarrow> nat) \<Rightarrow> virtual_screen \<Rightarrow> virtual_screen \<Rightarrow> nat \<Rightarrow> nat \<Rightarrow> cell_attrs \<Rightarrow>
     term_cmd list \<times> cell_attrs \<times> nat" where
  "diff_run wd prev s r c a =
     (if c < vs_cols s then
        (case vs_cell s r c of
           None \<Rightarrow> ([], a, c)
         | Some cl \<Rightarrow>
             if Some cl = vs_cell prev r c then ([], a, c)
             else if is_wide_spacer cl then diff_run wd prev s r (c + 1) a
             else (let (out, a', c') = diff_run wd prev s r (c + cell_advance wd (grapheme cl)) (from_cell cl)
                   in (apply_sgr_delta a cl @ TText (grapheme cl) # out, a', c')))
      else ([], a, c))"
  by pat_completeness auto
termination
proof (relation "measure (\<lambda>(wd, prev, s, r, c, a). vs_cols s - c)", goal_cases)
  case (3 wd prev s r c a cl)
  have "1 \<le> cell_advance wd (grapheme cl)" using cell_advance_bounds by blast
  with 3 show ?case by simp
qed auto

declare diff_run.simps [simp del]

text \<open>
  One row: the outer loop.  It would not end at a column that has no cell, so it is partial.
\<close>

partial_function (option) diff_row ::
    "(rstr \<Rightarrow> nat) \<Rightarrow> virtual_screen \<Rightarrow> virtual_screen \<Rightarrow> nat \<Rightarrow> nat \<Rightarrow> cell_attrs \<Rightarrow>
     (term_cmd list \<times> cell_attrs) option" where
  "diff_row wd prev s r c a =
     (if c < vs_cols s then
        (if vs_cell prev r c = vs_cell s r c then diff_row wd prev s r (c + 1) a
         else (case diff_run wd prev s r c a of
                 (out, a', c') \<Rightarrow>
                   Option.bind (diff_row wd prev s r c' a') (\<lambda>(o', a'').
                     Some (cup r c # out @ o', a''))))
      else Some ([], a))"

definition diff_rows ::
    "(rstr \<Rightarrow> nat) \<Rightarrow> virtual_screen \<Rightarrow> virtual_screen \<Rightarrow> term_cmd list option" where
  "diff_rows wd prev s =
     map_option fst (foldl (\<lambda>acc r.
        Option.bind acc (\<lambda>(out, a). map_option (\<lambda>(o', a'). (out @ o', a')) (diff_row wd prev s r 0 a)))
      (Some ([], cell_attrs_default)) [0..<vs_rows s])"

end
