(* ===== verification/Diff_Images.thy ===== *)
theory Diff_Images
  imports Diff
begin

text \<open>
  Images in the diff renderer (\<open>crates/mux/src/diff.rs\<close>): Kitty placements by id, virtual placements,
  placeholder boxes, sixel and iTerm2 data, and \<open>render\<close>, which puts the parts of a frame together.
  \<open>seg\<close> cuts a string into grapheme clusters.
\<close>

section \<open>Control strings\<close>

definition apc :: "bytes \<Rightarrow> term_cmd" where
  "apc body = TString (lit (ESC # ''_G'' @ body @ [ESC, CHR 0x5C]))"

text \<open>A chunk: the head in ASCII, then payload, which is decoded as UTF-8.\<close>

definition apc_chunk :: "bytes \<Rightarrow> bytes \<Rightarrow> term_cmd" where
  "apc_chunk head payload =
     TString (lit (ESC # ''_G'' @ head) @ from_utf8_lossy payload @ lit [ESC, CHR 0x5C])"

definition dec_int :: "int \<Rightarrow> bytes" where
  "dec_int z = (if z < 0 then CHR ''-'' # dec (nat (- z)) else dec (nat z))"

definition opt_key :: "bytes \<Rightarrow> nat option \<Rightarrow> bytes" where
  "opt_key k v = (case v of None \<Rightarrow> [] | Some n \<Rightarrow> k @ dec n)"

definition nonzero_key :: "bytes \<Rightarrow> nat \<Rightarrow> bytes" where
  "nonzero_key k n = (if n \<noteq> 0 then k @ dec n else [])"

definition chunk_size :: nat where "chunk_size = 4096"

text \<open>The data in chunks, the first under its own head; each says whether more follow.\<close>

function chunk_loop :: "(nat \<Rightarrow> bytes) \<Rightarrow> (nat \<Rightarrow> bytes) \<Rightarrow> bytes \<Rightarrow> term_cmd list" where
  "chunk_loop first rest_head data =
     (if data = [] then []
      else apc_chunk (first (if length data > chunk_size then 1 else 0)) (take chunk_size data)
             # chunk_loop rest_head rest_head (drop chunk_size data))"
  by pat_completeness auto
termination
  by (relation "measure (\<lambda>(f, g, d). length d)") (auto simp: chunk_size_def)

declare chunk_loop.simps [simp del]

definition emit_transmit_bytes :: "nat \<Rightarrow> nat \<Rightarrow> nat \<Rightarrow> nat \<Rightarrow> bytes \<Rightarrow> term_cmd list" where
  "emit_transmit_bytes image_id f w h data =
     chunk_loop
       (\<lambda>more. ''i='' @ dec image_id @ '',a=t,f='' @ dec f @ '',s='' @ dec w @ '',v='' @ dec h
                @ '',q=2,m='' @ dec more @ '';'')
       (\<lambda>more. ''m='' @ dec more @ '';'') data"

definition emit_transmit :: "visible_placement \<Rightarrow> term_cmd list" where
  "emit_transmit p =
     emit_transmit_bytes (vpl_image_id p) (kitty_f (vpl_format p)) (vpl_pixel_w p) (vpl_pixel_h p) (vpl_data p)"

definition emit_place :: "visible_placement \<Rightarrow> term_cmd list" where
  "emit_place p =
     (let cropped = vpl_src_x p > 0 \<or> vpl_src_y p > 0 \<or> vpl_src_w p < vpl_pixel_w p \<or> vpl_src_h p < vpl_pixel_h p
      in [cup (vpl_host_row p) (vpl_host_col p),
          apc (''a=p,i='' @ dec (vpl_image_id p) @ '',p='' @ dec (vpl_placement_id p)
            @ (if cropped then '',x='' @ dec (vpl_src_x p) @ '',y='' @ dec (vpl_src_y p)
                 @ '',w='' @ dec (vpl_src_w p) @ '',h='' @ dec (vpl_src_h p) else [])
            @ (if vpl_z p \<noteq> 0 then '',z='' @ dec_int (vpl_z p) else [])
            @ '',r='' @ dec (vpl_rows p) @ '',c='' @ dec (vpl_cols p) @ '',q=2'')])"

definition emit_delete :: "nat \<Rightarrow> nat \<Rightarrow> term_cmd" where
  "emit_delete image_id placement_id =
     apc (''a=d,d=i,i='' @ dec image_id @ '',p='' @ dec placement_id @ '',q=2'')"

definition delete_all_images :: term_cmd where
  "delete_all_images = apc ''a=d,d=A,q=2''"

definition emit_frame :: "nat \<Rightarrow> frame \<Rightarrow> term_cmd list" where
  "emit_frame image_id f =
     chunk_loop
       (\<lambda>more. ''i='' @ dec image_id @ '',a=f,f='' @ dec (kitty_f (fr_format f))
          @ opt_key '',r='' (fr_number f) @ opt_key '',c='' (fr_canvas f)
          @ nonzero_key '',x='' (fr_x f) @ nonzero_key '',y='' (fr_y f)
          @ nonzero_key '',s='' (fr_width f) @ nonzero_key '',v='' (fr_height f)
          @ (if fr_overwrite f then '',X=1'' else []) @ nonzero_key '',Y='' (fr_bg f)
          @ (if fr_gap f \<noteq> 0 then '',z='' @ dec_int (fr_gap f) else [])
          @ '',q=2,m='' @ dec more @ '';'')
       (\<lambda>more. ''a=f,i='' @ dec image_id @ '',m='' @ dec more @ '';'') (fr_data f)"

definition emit_anim_control :: "nat \<Rightarrow> anim_control \<Rightarrow> term_cmd" where
  "emit_anim_control image_id ctrl =
     apc (''i='' @ dec image_id @ '',a=a'' @ opt_key '',s='' (an_state ctrl)
       @ opt_key '',v='' (an_loop_count ctrl) @ opt_key '',c='' (an_current_frame ctrl) @ '',q=2'')"

definition emit_data_image :: "visible_placement \<Rightarrow> term_cmd list" where
  "emit_data_image p =
     (case vpl_protocol p of
        Sixel \<Rightarrow> [TString (lit [ESC, CHR ''P''] @ from_utf8_lossy (vpl_data p) @ lit [ESC, CHR 0x5C])]
      | Iterm2 \<Rightarrow> [TString (lit (ESC # '']1337;File='')
          @ (case vpl_iterm_args p of None \<Rightarrow> [] | Some args \<Rightarrow> args) @ lit '':''
          @ from_utf8_lossy (vpl_data p) @ [7])]
      | Kitty \<Rightarrow> [])"

section \<open>Kitty placements\<close>

definition rect_of_placement :: "visible_placement \<Rightarrow> placed_rect" where
  "rect_of_placement p =
     \<lparr>pr_host_row = vpl_host_row p, pr_host_col = vpl_host_col p, pr_image_id = vpl_image_id p,
      pr_placement_id = vpl_placement_id p, pr_src_x = vpl_src_x p, pr_src_y = vpl_src_y p,
      pr_src_w = vpl_src_w p, pr_src_h = vpl_src_h p, pr_rows = vpl_rows p, pr_cols = vpl_cols p\<rparr>"

definition TRANSMIT_CAP :: nat where "TRANSMIT_CAP = 256"

text \<open>Transmit once per content generation; forget the frames replayed for an older one.\<close>

definition transmit_step :: "visible_placement \<Rightarrow> diff_renderer \<Rightarrow> diff_renderer \<times> term_cmd list" where
  "transmit_step p rd =
     (let i = vpl_image_id p
      in if dr_transmitted rd i \<noteq> Some (vpl_generation p) then
           (rd\<lparr>dr_transmitted := (dr_transmitted rd)(i \<mapsto> vpl_generation p),
               dr_last_frame_seq := (dr_last_frame_seq rd)(i \<mapsto> 0),
               dr_last_anim_sent := (dr_last_anim_sent rd)(i := None)\<rparr>, emit_transmit p)
         else (rd, []))"

definition frames_step :: "visible_placement \<Rightarrow> diff_renderer \<Rightarrow> diff_renderer \<times> term_cmd list" where
  "frames_step p rd =
     (case last_opt (vpl_frames p) of
        None \<Rightarrow> (rd, [])
      | Some newest \<Rightarrow>
          (let i = vpl_image_id p;
               watermark = (case dr_last_frame_seq rd i of None \<Rightarrow> 0 | Some n \<Rightarrow> n)
           in if fr_seq newest > watermark then
                (rd\<lparr>dr_last_frame_seq := (dr_last_frame_seq rd)(i \<mapsto> fr_seq newest)\<rparr>,
                 concat (map (emit_frame i) (filter (\<lambda>f. fr_seq f > watermark) (vpl_frames p))))
              else (rd, [])))"

definition anim_step :: "visible_placement \<Rightarrow> diff_renderer \<Rightarrow> diff_renderer \<times> term_cmd list" where
  "anim_step p rd =
     (case vpl_anim p of
        None \<Rightarrow> (rd, [])
      | Some ctrl \<Rightarrow>
          if dr_last_anim_sent rd (vpl_image_id p) \<noteq> Some ctrl then
            (rd\<lparr>dr_last_anim_sent := (dr_last_anim_sent rd)(vpl_image_id p \<mapsto> ctrl)\<rparr>,
             [emit_anim_control (vpl_image_id p) ctrl])
          else (rd, []))"

definition place_step :: "visible_placement \<Rightarrow> diff_renderer \<Rightarrow> diff_renderer \<times> term_cmd list" where
  "place_step p rd =
     (let rect = rect_of_placement p; placed = rd\<lparr>dr_placed := (dr_placed rd)(vpl_key p \<mapsto> rect)\<rparr>
      in case dr_placed rd (vpl_key p) of
           Some prev \<Rightarrow>
             if prev = rect then (rd, [])
             else (placed, emit_delete (pr_image_id prev) (pr_placement_id prev) # emit_place p)
         | None \<Rightarrow> (placed, emit_place p))"

definition then_step ::
    "(diff_renderer \<Rightarrow> diff_renderer \<times> term_cmd list) \<Rightarrow> diff_renderer \<times> term_cmd list \<Rightarrow>
     diff_renderer \<times> term_cmd list" where
  "then_step f st = (let (rd, out) = st; (rd', o') = f rd in (rd', out @ o'))"

definition kitty_step ::
    "visible_placement \<Rightarrow> diff_renderer \<times> term_cmd list \<Rightarrow> diff_renderer \<times> term_cmd list" where
  "kitty_step p st =
     (if vpl_protocol p \<noteq> Kitty \<or> vpl_data p = [] then st
      else then_step (place_step p) (then_step (anim_step p)
             (then_step (frames_step p) (then_step (transmit_step p) st))))"

text \<open>Delete the placements that vanished, in the order the map yields its keys.\<close>

definition delete_gone ::
    "(nat set \<Rightarrow> nat list) \<Rightarrow> nat set \<Rightarrow> diff_renderer \<times> term_cmd list \<Rightarrow> diff_renderer \<times> term_cmd list" where
  "delete_gone ord seen st =
     fold (\<lambda>k (rd, out).
        case dr_placed rd k of
          None \<Rightarrow> (rd, out)
        | Some rect \<Rightarrow> (rd\<lparr>dr_placed := (dr_placed rd)(k := None)\<rparr>,
            out @ [emit_delete (pr_image_id rect) (pr_placement_id rect)]))
      (filter (\<lambda>k. k \<notin> seen) (ord (dom (dr_placed (fst st))))) st"

definition render_kitty_placements ::
    "(nat set \<Rightarrow> nat list) \<Rightarrow> virtual_screen \<Rightarrow> diff_renderer \<times> term_cmd list \<Rightarrow>
     diff_renderer \<times> term_cmd list" where
  "render_kitty_placements ord s st =
     (if \<not> dg_kitty (dr_graphics (fst st)) then st
      else let st = fold kitty_step (vs_placements s) st;
               seen = set (map vpl_key (filter (\<lambda>p. vpl_protocol p = Kitty) (vs_placements s)));
               (rd, out) = delete_gone ord seen st
           in (if card (dom (dr_transmitted rd)) > TRANSMIT_CAP then rd\<lparr>dr_reset_images := True\<rparr> else rd, out))"

section \<open>Virtual placements\<close>

definition virtual_step ::
    "visible_virtual_placement \<Rightarrow> diff_renderer \<times> term_cmd list \<Rightarrow> diff_renderer \<times> term_cmd list" where
  "virtual_step vp st =
     (if vvp_data vp = [] then st
      else then_step (\<lambda>rd.
             if dr_virtual_placed rd (vvp_key vp) = None then
               (rd\<lparr>dr_virtual_placed := (dr_virtual_placed rd)(vvp_key vp \<mapsto> (vvp_image_id vp, vvp_placement_id vp))\<rparr>,
                [apc (''a=p,U=1,i='' @ dec (vvp_image_id vp) @ '',p='' @ dec (vvp_placement_id vp)
                   @ nonzero_key '',c='' (vvp_cols vp) @ nonzero_key '',r='' (vvp_rows vp) @ '',q=2'')])
             else (rd, []))
           (then_step (\<lambda>rd.
             if dr_transmitted_virtual rd (vvp_image_id vp) \<noteq> Some (vvp_generation vp) then
               (rd\<lparr>dr_transmitted_virtual := (dr_transmitted_virtual rd)(vvp_image_id vp \<mapsto> vvp_generation vp)\<rparr>,
                emit_transmit_bytes (vvp_image_id vp) (kitty_f (vvp_format vp)) (vvp_pixel_w vp) (vvp_pixel_h vp)
                  (vvp_data vp))
             else (rd, [])) st))"

definition delete_gone_virtual ::
    "(nat set \<Rightarrow> nat list) \<Rightarrow> nat set \<Rightarrow> diff_renderer \<times> term_cmd list \<Rightarrow> diff_renderer \<times> term_cmd list" where
  "delete_gone_virtual ord seen st =
     fold (\<lambda>k (rd, out).
        case dr_virtual_placed rd k of
          None \<Rightarrow> (rd, out)
        | Some (img, pid) \<Rightarrow> (rd\<lparr>dr_virtual_placed := (dr_virtual_placed rd)(k := None)\<rparr>, out @ [emit_delete img pid]))
      (filter (\<lambda>k. k \<notin> seen) (ord (dom (dr_virtual_placed (fst st))))) st"

definition render_virtual_placements ::
    "(nat set \<Rightarrow> nat list) \<Rightarrow> virtual_screen \<Rightarrow> diff_renderer \<times> term_cmd list \<Rightarrow>
     diff_renderer \<times> term_cmd list" where
  "render_virtual_placements ord s st =
     (if \<not> dg_kitty (dr_graphics (fst st)) then st
      else let st = fold virtual_step (vs_virtual_placements s) st;
               seen = set (map vvp_key (filter (\<lambda>p. vvp_data p \<noteq> []) (vs_virtual_placements s)));
               (rd, out) = delete_gone_virtual ord seen st
           in (if card (dom (dr_transmitted_virtual rd)) > TRANSMIT_CAP then rd\<lparr>dr_reset_images := True\<rparr> else rd, out))"

section \<open>Overlays painted into cells\<close>

definition is_box_placement :: "diff_graphics_caps \<Rightarrow> visible_placement \<Rightarrow> bool" where
  "is_box_placement caps p =
     (case vpl_protocol p of Kitty \<Rightarrow> \<not> dg_kitty caps | Sixel \<Rightarrow> \<not> dg_sixel caps | Iterm2 \<Rightarrow> \<not> dg_iterm2 caps)"

definition is_data_placement :: "diff_graphics_caps \<Rightarrow> visible_placement \<Rightarrow> bool" where
  "is_data_placement caps p =
     (case vpl_protocol p of Sixel \<Rightarrow> dg_sixel caps | Iterm2 \<Rightarrow> dg_iterm2 caps | Kitty \<Rightarrow> False)"

definition rects_overlap :: "placed_rect \<Rightarrow> placed_rect \<Rightarrow> bool" where
  "rects_overlap a b \<longleftrightarrow>
     pr_host_row a < sadd16 (pr_host_row b) (pr_rows b) \<and> pr_host_row b < sadd16 (pr_host_row a) (pr_rows a)
     \<and> pr_host_col a < sadd16 (pr_host_col b) (pr_cols b) \<and> pr_host_col b < sadd16 (pr_host_col a) (pr_cols a)"

definition footprint_cells_changed :: "virtual_screen option \<Rightarrow> virtual_screen \<Rightarrow> placed_rect \<Rightarrow> bool" where
  "footprint_cells_changed prev s rect =
     (case prev of
        None \<Rightarrow> True
      | Some p \<Rightarrow>
          list_ex (\<lambda>r. list_ex (\<lambda>c. vs_cell p r c \<noteq> vs_cell s r c)
              [pr_host_col rect..<sadd16 (pr_host_col rect) (pr_cols rect)])
            [pr_host_row rect..<sadd16 (pr_host_row rect) (pr_rows rect)])"

definition paint_cells_rect ::
    "(rstr \<Rightarrow> nat) \<Rightarrow> virtual_screen \<Rightarrow> nat \<Rightarrow> nat \<Rightarrow> nat \<Rightarrow> nat \<Rightarrow> term_cmd list" where
  "paint_cells_rect wd s r0 c0 rows cols =
     sgr [[0]] # concat (map (\<lambda>r.
       cup r c0 # fst (paint_run wd s (min (sadd16 c0 cols) (vs_cols s)) r c0 cell_attrs_default) @ [sgr [[0]]])
       [r0..<min (sadd16 r0 rows) (vs_rows s)])"

text \<open>The rows of the placeholder box: a border with the image's size in the middle row.\<close>

definition box_row :: "(rstr \<Rightarrow> nat) \<Rightarrow> rstr \<Rightarrow> nat \<Rightarrow> nat \<Rightarrow> nat \<Rightarrow> rstr" where
  "box_row wd label rows cols r =
     (let inner = cols - 2
      in if r = 0 then [0x250C] @ replicate inner 0x2500 @ [0x2510]
         else if r = rows - 1 then [0x2514] @ replicate inner 0x2500 @ [0x2518]
         else if r = rows div 2 then
           (let pad = inner - display_width wd label; left = pad div 2
            in [0x2502] @ replicate left 32 @ label @ replicate (pad - left) 32 @ [0x2502])
         else [0x2502] @ replicate inner 32 @ [0x2502])"

definition emit_placeholder_box ::
    "(rstr \<Rightarrow> nat) \<Rightarrow> (rstr \<Rightarrow> rstr list) \<Rightarrow> visible_placement \<Rightarrow> term_cmd list" where
  "emit_placeholder_box wd seg p =
     (let rows = vpl_rows p; cols = vpl_cols p
      in sgr [[0]] #
         (if rows = 0 \<or> cols = 0 then []
          else if rows < 2 \<or> cols < 2 then
            concat (map (\<lambda>r. [cup (as_u16 (vpl_host_row p + r)) (vpl_host_col p), TText (replicate cols 0x2592)])
              [0..<rows])
          else
            (let label = truncate_to_width wd seg
                   (lit (dec (vpl_pixel_w p) @ ''x'' @ dec (vpl_pixel_h p))) (cols - 2)
             in concat (map (\<lambda>r. [cup (as_u16 (vpl_host_row p + r)) (vpl_host_col p),
                  TText (box_row wd label rows cols r)]) [0..<rows]))))"

text \<open>The regions whose placement vanished, moved or changed its size.\<close>

definition is_stale :: "virtual_screen \<Rightarrow> nat \<Rightarrow> placed_rect \<Rightarrow> bool" where
  "is_stale s k prev =
     (case find (\<lambda>p. vpl_key p = k) (vs_placements s) of
        None \<Rightarrow> True
      | Some p \<Rightarrow> (pr_host_row prev, pr_host_col prev, pr_rows prev, pr_cols prev)
                  \<noteq> (vpl_host_row p, vpl_host_col p, vpl_rows p, vpl_cols p))"

definition stale_rects ::
    "(nat set \<Rightarrow> nat list) \<Rightarrow> virtual_screen \<Rightarrow> (nat \<rightharpoonup> placed_rect) \<Rightarrow> placed_rect list" where
  "stale_rects ord s m =
     List.map_filter (\<lambda>k. case m k of None \<Rightarrow> None | Some prev \<Rightarrow> if is_stale s k prev then Some prev else None)
       (ord (dom m))"

definition data_step ::
    "virtual_screen \<Rightarrow> visible_placement \<Rightarrow> (diff_renderer \<times> term_cmd list) \<times> placed_rect list \<Rightarrow>
     (diff_renderer \<times> term_cmd list) \<times> placed_rect list" where
  "data_step s p = (\<lambda>((rd, out), repainted).
     (if vpl_data p = [] then ((rd, out), repainted)
      else (let rect = rect_of_placement p;
                disturbed = (dr_placed_data rd (vpl_key p) \<noteq> Some rect
                  \<or> list_ex (\<lambda>r. rects_overlap r rect) repainted
                  \<or> footprint_cells_changed (dr_previous rd) s rect);
                rd = rd\<lparr>dr_placed_data := (dr_placed_data rd)(vpl_key p \<mapsto> rect)\<rparr>
            in if disturbed then
                 ((rd, out @ [TEsc (CHR ''7''), cup (vpl_host_row p) (vpl_host_col p)] @ emit_data_image p @ [TEsc (CHR ''8'')]),
                  repainted @ [rect])
               else ((rd, out), repainted))))"

definition render_overlay_placements ::
    "(rstr \<Rightarrow> nat) \<Rightarrow> (rstr \<Rightarrow> rstr list) \<Rightarrow> (nat set \<Rightarrow> nat list) \<Rightarrow> virtual_screen \<Rightarrow>
     diff_renderer \<times> term_cmd list \<Rightarrow> diff_renderer \<times> term_cmd list" where
  "render_overlay_placements wd seg ord s = (\<lambda>(rd, out).
     (let caps = dr_graphics rd;
          boxes = filter (is_box_placement caps) (vs_placements s);
          datas = filter (is_data_placement caps) (vs_placements s);
          repainted = stale_rects ord s (dr_boxed rd) @ stale_rects ord s (dr_placed_data rd);
          out = out @ concat (map (\<lambda>r.
                  paint_cells_rect wd s (pr_host_row r) (pr_host_col r) (pr_rows r) (pr_cols r)) repainted);
          rd = rd\<lparr>dr_boxed := dr_boxed rd |` set (map vpl_key boxes),
                  dr_placed_data := dr_placed_data rd |` set (map vpl_key datas)\<rparr>;
          out = out @ concat (map (emit_placeholder_box wd seg) boxes);
          rd = rd\<lparr>dr_boxed := fold (\<lambda>p m. m(vpl_key p \<mapsto> rect_of_placement p)) boxes (dr_boxed rd)\<rparr>
      in fst (fold (data_step s) (sort_key (\<lambda>p. (vpl_z p, vpl_image_id p)) datas) ((rd, out), repainted))))"

section \<open>A frame\<close>

definition forget_images :: "diff_renderer \<Rightarrow> diff_renderer" where
  "forget_images rd =
     rd\<lparr>dr_transmitted := Map.empty, dr_transmitted_virtual := Map.empty, dr_placed := Map.empty,
        dr_boxed := Map.empty, dr_virtual_placed := Map.empty, dr_placed_data := Map.empty,
        dr_last_frame_seq := Map.empty, dr_last_anim_sent := Map.empty\<rparr>"

definition drop_images :: "diff_renderer \<Rightarrow> term_cmd list" where
  "drop_images rd =
     (if dg_kitty (dr_graphics rd) \<and> (dr_transmitted rd \<noteq> Map.empty \<or> dr_placed rd \<noteq> Map.empty)
      then [delete_all_images] else [])"

definition needs_full_repaint :: "diff_renderer \<Rightarrow> virtual_screen \<Rightarrow> bool" where
  "needs_full_repaint rd s =
     (case dr_previous rd of None \<Rightarrow> True | Some p \<Rightarrow> vs_rows p \<noteq> vs_rows s \<or> vs_cols p \<noteq> vs_cols s)"

definition cursor_cmds :: "virtual_screen \<Rightarrow> term_cmd list" where
  "cursor_cmds s =
     (case (if vs_cursor_visible s then vs_cursor s else None) of
        Some (r, c) \<Rightarrow> [cup r c, TCsi [[25]] ''?'' (CHR ''h'')]
      | None \<Rightarrow> [TCsi [[25]] ''?'' (CHR ''l'')])"

text \<open>The cells of a frame; \<open>None\<close> when the code would not return.\<close>

definition cell_cmds :: "(rstr \<Rightarrow> nat) \<Rightarrow> diff_renderer \<Rightarrow> virtual_screen \<Rightarrow> term_cmd list option" where
  "cell_cmds wd rd s =
     (if needs_full_repaint rd s then Some (full_repaint wd s)
      else (case dr_previous rd of None \<Rightarrow> None | Some p \<Rightarrow> diff_rows wd p s))"

definition render ::
    "(rstr \<Rightarrow> nat) \<Rightarrow> (rstr \<Rightarrow> rstr list) \<Rightarrow> (nat set \<Rightarrow> nat list) \<Rightarrow> virtual_screen \<Rightarrow> diff_renderer \<Rightarrow>
     (diff_renderer \<times> term_cmd list) option" where
  "render wd seg ord s rd =
     (let (rd, out) = (if dr_reset_images rd
                       then ((forget_images rd)\<lparr>dr_reset_images := False\<rparr>, drop_images rd) else (rd, []));
          (rd, out) = (if needs_full_repaint rd s then (forget_images rd, out @ drop_images rd) else (rd, out))
      in case cell_cmds wd rd s of
           None \<Rightarrow> None
         | Some cs \<Rightarrow>
             (let (rd, out) = render_overlay_placements wd seg ord s
                    (render_virtual_placements ord s (render_kitty_placements ord s (rd, out @ cs)));
                  out = out @ cursor_cmds s;
                  ps = decscusr_ps (vs_cursor_style s);
                  (rd, out) = (if dr_last_cursor_ps rd \<noteq> Some ps
                    then (rd\<lparr>dr_last_cursor_ps := Some ps\<rparr>, out @ [TCsi [[ps]] '' '' (CHR ''q'')]) else (rd, out))
              in Some (rd\<lparr>dr_previous := Some s\<rparr>, out @ [sgr [[0]]])))"

text \<open>What \<open>render\<close> returns to its caller: the bytes.\<close>

definition render_bytes :: "term_cmd list \<Rightarrow> bytes" where
  "render_bytes cmds = utf8_encode (concat (map cmd_text cmds))"

end
