(* ===== verification/Diff_Host.thy ===== *)
theory Diff_Host
  imports Diff_Images Screen_Pairs
begin

unbundle bit_operations_syntax

text \<open>
  The client's terminal for the diff renderer: the emulator's own screen, driven by the commands.  The
  text of one cell reaches it as one cluster.  The facts say what each kind of command that paints cells
  does to it: the pen after the SGR commands of a cell, the cursor after a motion, the row after a
  cluster.
\<close>

primrec host_cmd :: "(rstr \<Rightarrow> nat) \<Rightarrow> term_cmd \<Rightarrow> screen \<Rightarrow> screen" where
  "host_cmd wd (TCsi ps ints f) s = handle_csi wd ps ints f s"
| "host_cmd wd (TEsc c) s = handle_esc [] (chr c) s"
| "host_cmd wd (TText g) s = put_grapheme wd g s"
| "host_cmd wd (TString t) s = s"

definition host_run :: "(rstr \<Rightarrow> nat) \<Rightarrow> term_cmd list \<Rightarrow> screen \<Rightarrow> screen" where
  "host_run wd cmds s = fold (host_cmd wd) cmds s"

lemma host_run_simps [simp]:
  "host_run wd [] s = s"
  "host_run wd (c # cs) s = host_run wd cs (host_cmd wd c s)"
  "host_run wd (xs @ ys) s = host_run wd ys (host_run wd xs s)"
  by (simp_all add: host_run_def)

text \<open>A terminal of a given size in its usual state: no line drawing, no origin mode.\<close>

definition host_ready :: "nat \<Rightarrow> nat \<Rightarrow> screen \<Rightarrow> bool" where
  "host_ready rows cols s \<longleftrightarrow>
     screen_wf s \<and> length (g_rows (active s)) = rows \<and> g_cols (active s) = cols
     \<and> active_charset s = Ascii \<and> \<not> m_contains (modes s) M_ORIGIN"

section \<open>The pen\<close>

text \<open>
  What the SGR commands of a cell show: everything but the highlight, which becomes a bright yellow
  background where the cell has none; an underline with no style is a single one, and a style without
  the underline shows nothing.
\<close>

definition shown_pen :: "cell_attrs \<Rightarrow> cursor \<Rightarrow> cursor" where
  "shown_pen a k =
     k\<lparr>attrs := ca_attrs a AND 0xFF, fg := ca_fg a,
       bg := (if ca_bg a = DefaultColor \<and> ca_attrs a AND A_HIGHLIGHT = A_HIGHLIGHT then Indexed 11 else ca_bg a),
       underline_color := ca_ucolor a,
       underline_style := (if ca_attrs a AND A_UNDERLINE = A_UNDERLINE
         then (if ca_ustyle a = UlNone then UlSingle else ca_ustyle a) else UlNone)\<rparr>"

definition color_ok :: "color \<Rightarrow> bool" where
  "color_ok c = (case c of DefaultColor \<Rightarrow> True | Indexed n \<Rightarrow> n \<le> 255 | Rgb r g b \<Rightarrow> r \<le> 255 \<and> g \<le> 255 \<and> b \<le> 255)"

definition colors_ok :: "cell \<Rightarrow> bool" where
  "colors_ok cl \<longleftrightarrow> color_ok (c_fg cl) \<and> color_ok (c_bg cl) \<and> color_ok (c_ucolor cl)"

text \<open>One SGR sequence, as a function of the pen.\<close>

definition sgr_on :: "nat list list \<Rightarrow> cursor \<Rightarrow> cursor" where
  "sgr_on ps k = (let (k, codes) = foldl sgr_group (k, []) ps in sgr_loop codes k)"

definition is_sgr :: "term_cmd \<Rightarrow> bool" where
  "is_sgr c \<longleftrightarrow> (\<exists>ps. c = sgr ps)"

primrec sgr_params :: "term_cmd \<Rightarrow> nat list list" where
  "sgr_params (TCsi ps ints f) = ps"
| "sgr_params (TEsc c) = []"
| "sgr_params (TText t) = []"
| "sgr_params (TString t) = []"

definition pen_run :: "term_cmd list \<Rightarrow> cursor \<Rightarrow> cursor" where
  "pen_run cmds k = fold (\<lambda>c. sgr_on (sgr_params c)) cmds k"

lemma pen_run_simps [simp]:
  "pen_run [] k = k" "pen_run (sgr ps # cs) k = pen_run cs (sgr_on ps k)"
  "pen_run (xs @ ys) k = pen_run ys (pen_run xs k)"
  by (simp_all add: pen_run_def sgr_def)

lemma host_sgr: "host_cmd wd (sgr ps) s = s\<lparr>cursor := sgr_on ps (cursor s), last_graphic := None\<rparr>"
  by (simp add: sgr_def handle_csi_def csi_m_def handle_sgr_def sgr_on_def head_opt_def Let_def
      case_prod_beta)

lemma host_sgrs_from:
  "list_all is_sgr cmds \<Longrightarrow>
     host_run wd cmds (s\<lparr>cursor := k, last_graphic := None\<rparr>) = s\<lparr>cursor := pen_run cmds k, last_graphic := None\<rparr>"
proof (induction cmds arbitrary: k)
  case (Cons c cs)
  then obtain ps where c: "c = sgr ps" by (auto simp: is_sgr_def)
  have "host_cmd wd c (s\<lparr>cursor := k, last_graphic := None\<rparr>) = s\<lparr>cursor := sgr_on ps k, last_graphic := None\<rparr>"
    unfolding c host_sgr by simp
  then show ?case using Cons.IH [of "sgr_on ps k"] Cons.prems by (simp add: c)
qed simp

lemma host_sgrs:
  assumes "list_all is_sgr cmds" "cmds \<noteq> []"
  shows "host_run wd cmds s = s\<lparr>cursor := pen_run cmds (cursor s), last_graphic := None\<rparr>"
proof -
  obtain ps cs where c: "cmds = sgr ps # cs" using assms by (cases cmds) (auto simp: is_sgr_def)
  show ?thesis
    using host_sgrs_from [of cs wd "sgr_on ps (cursor s)" s] assms(1) by (simp add: c host_sgr)
qed

lemma sgr_on_code:
  "\<not> is_color_sel n \<Longrightarrow> sgr_on [[n]] k = sgr_code n k"
  by (simp add: sgr_on_def sgr_group_def)

lemma sgr_on_flags:
  "sgr_on [[1]] k = add_attr A_BOLD k" "sgr_on [[2]] k = add_attr A_DIM k"
  "sgr_on [[3]] k = add_attr A_ITALIC k" "sgr_on [[5]] k = add_attr A_BLINK k"
  "sgr_on [[7]] k = add_attr A_REVERSE k" "sgr_on [[8]] k = add_attr A_HIDDEN k"
  "sgr_on [[9]] k = add_attr A_STRIKETHROUGH k"
  by (simp_all add: sgr_on_code is_color_sel_def sgr_code_def)

lemma pen_flag:
  "(\<And>k. sgr_on [[n]] k = add_attr flag k) \<Longrightarrow>
     pen_run (sgr_flag a flag n) k = k\<lparr>attrs := attrs k OR (if a AND flag = flag then flag else 0)\<rparr>"
  by (simp add: sgr_flag_def add_attr_def)

lemmas pen_flags = sgr_on_flags [THEN pen_flag]

lemma pen_highlight:
  "pen_run (sgr_flag a A_HIGHLIGHT 103) k =
     k\<lparr>bg := (if a AND A_HIGHLIGHT = A_HIGHLIGHT then Indexed 11 else bg k)\<rparr>"
  by (simp add: sgr_flag_def sgr_on_code is_color_sel_def sgr_code_def from_ansi_bright_def as_u8_def)

lemma sgr_on_underline:
  "sgr_on (sgr_params (sgr_underline st)) k =
     k\<lparr>attrs := attrs k OR A_UNDERLINE, underline_style := (if st = UlNone then UlSingle else st)\<rparr>"
  by (cases st) (simp_all add: sgr_underline_def sgr_def sgr_on_def sgr_group_def is_color_sel_def sgr_code_def
      add_attr_def from_sgr_subparam_def)

lemma pen_underline:
  "pen_run (if b then [sgr_underline st] else []) k =
     k\<lparr>attrs := attrs k OR (if b then A_UNDERLINE else 0),
       underline_style := (if b then (if st = UlNone then UlSingle else st) else underline_style k)\<rparr>"
  by (simp add: pen_run_def sgr_on_underline)

lemma pen_fg: "color_ok c \<Longrightarrow> pen_run (sgr_color 30 90 38 c) k = k\<lparr>fg := (if c = DefaultColor then fg k else c)\<rparr>"
  by (auto simp: sgr_color_def color_ok_def sgr_on_def sgr_group_def is_color_sel_def sgr_code_def from_ansi_basic_def
      from_ansi_bright_def as_u8_def parse_extended_color_def set_color_def split: color.splits)

lemma pen_bg: "color_ok c \<Longrightarrow> pen_run (sgr_color 40 100 48 c) k = k\<lparr>bg := (if c = DefaultColor then bg k else c)\<rparr>"
  by (auto simp: sgr_color_def color_ok_def sgr_on_def sgr_group_def is_color_sel_def sgr_code_def from_ansi_basic_def
      from_ansi_bright_def as_u8_def parse_extended_color_def set_color_def split: color.splits)

lemma pen_ucolor:
  "color_ok c \<Longrightarrow> pen_run (sgr_ucolor c) k = k\<lparr>underline_color := (if c = DefaultColor then underline_color k else c)\<rparr>"
  by (auto simp: sgr_ucolor_def color_ok_def sgr_on_def sgr_group_def is_color_sel_def
      parse_extended_color_def set_color_def split: color.splits)

lemma pen_reset:
  "sgr_on [[0]] k = k\<lparr>attrs := 0, fg := DefaultColor, bg := DefaultColor, underline_color := DefaultColor,
     underline_style := UlNone\<rparr>"
  by (simp add: sgr_on_code is_color_sel_def sgr_code_def sgr_reset_def)

lemma one_bit: "(if a AND w = w then w else 0) = a AND w"
  if "w = push_bit n 1" for a w :: attrs
proof -
  have "a AND push_bit n 1 = (if bit a n then push_bit n 1 else 0)"
    by (rule bit_eqI) (auto simp: bit_simps)
  then show ?thesis using that by (auto simp: bit_simps)
qed

lemma attr_flag:
  "(if a AND A_BOLD = A_BOLD then A_BOLD else 0) = a AND A_BOLD"
  "(if a AND A_DIM = A_DIM then A_DIM else 0) = a AND A_DIM"
  "(if a AND A_ITALIC = A_ITALIC then A_ITALIC else 0) = a AND A_ITALIC"
  "(if a AND A_BLINK = A_BLINK then A_BLINK else 0) = a AND A_BLINK"
  "(if a AND A_UNDERLINE = A_UNDERLINE then A_UNDERLINE else 0) = a AND A_UNDERLINE"
  "(if a AND A_REVERSE = A_REVERSE then A_REVERSE else 0) = a AND A_REVERSE"
  "(if a AND A_HIDDEN = A_HIDDEN then A_HIDDEN else 0) = a AND A_HIDDEN"
  "(if a AND A_STRIKETHROUGH = A_STRIKETHROUGH then A_STRIKETHROUGH else 0) = a AND A_STRIKETHROUGH"
  by (rule one_bit [where n = 0], simp add: attr_bits, rule one_bit [where n = 1], simp add: attr_bits,
      rule one_bit [where n = 2], simp add: attr_bits, rule one_bit [where n = 4], simp add: attr_bits,
      rule one_bit [where n = 3], simp add: attr_bits, rule one_bit [where n = 5], simp add: attr_bits,
      rule one_bit [where n = 6], simp add: attr_bits, rule one_bit [where n = 7], simp add: attr_bits)

lemma shown_attrs:
  "(a AND A_BOLD) OR (a AND A_DIM) OR (a AND A_ITALIC) OR (a AND A_BLINK) OR (a AND A_UNDERLINE)
     OR (a AND A_REVERSE) OR (a AND A_HIDDEN) OR (a AND A_STRIKETHROUGH) = a AND 0xFF"
  by (simp add: attr_bits flip: bit.conj_disj_distrib)

lemma from_cell_simps [simp]:
  "ca_fg (from_cell cl) = c_fg cl" "ca_bg (from_cell cl) = c_bg cl" "ca_ucolor (from_cell cl) = c_ucolor cl"
  "ca_ustyle (from_cell cl) = c_ustyle cl" "ca_attrs (from_cell cl) = c_attrs cl"
  by (simp_all add: from_cell_def)

lemma pen_delta:
  assumes "colors_ok cl" "from_cell cl \<noteq> a"
  shows "pen_run (apply_sgr_delta a cl) k = shown_pen (from_cell cl) k"
proof -
  let ?x = "c_attrs cl"
  have c: "color_ok (c_fg cl)" "color_ok (c_bg cl)" "color_ok (c_ucolor cl)"
    using assms(1) by (simp_all add: colors_ok_def)
  have "pen_run (apply_sgr_delta a cl) k = (shown_pen (from_cell cl) k)\<lparr>attrs :=
      ((((((((0 OR (?x AND A_BOLD)) OR (?x AND A_DIM)) OR (?x AND A_ITALIC)) OR (?x AND A_BLINK)) OR (?x AND A_UNDERLINE))
        OR (?x AND A_REVERSE)) OR (?x AND A_HIDDEN)) OR (?x AND A_STRIKETHROUGH))\<rparr>"
    unfolding apply_sgr_delta_def Let_def
    using assms(2) by (simp add: pen_flags attr_flag pen_highlight pen_underline
        pen_reset pen_fg [OF c(1)] pen_bg [OF c(2)] pen_ucolor [OF c(3)] del: One_nat_def)
      (simp add: shown_pen_def)
  then show ?thesis
    using shown_attrs [of ?x] by (simp add: or.assoc) (simp add: shown_pen_def)
qed

lemma is_sgr_sgr [simp]: "is_sgr (sgr ps)"
  by (auto simp: is_sgr_def)

lemma parts_are_sgr [simp]:
  "list_all is_sgr (sgr_flag a flag n)" "is_sgr (sgr_underline st)" "list_all is_sgr (sgr_color x y z c)"
  "list_all is_sgr (sgr_ucolor c)"
  by (simp_all add: sgr_flag_def sgr_underline_def sgr_color_def sgr_ucolor_def split: underline_style.split color.split)

lemma delta_is_sgr: "list_all is_sgr (apply_sgr_delta a cl)"
  by (simp add: apply_sgr_delta_def Let_def)

text \<open>A pen that shows given attributes, and links nothing.\<close>

definition pen_is :: "cell_attrs \<Rightarrow> cursor \<Rightarrow> bool" where
  "pen_is a k \<longleftrightarrow> shown_pen a k = k \<and> hyperlink_id k = None"

lemma host_delta:
  assumes "pen_is a (cursor s)" "colors_ok cl"
  shows "\<exists>l. host_run wd (apply_sgr_delta a cl) s =
    s\<lparr>cursor := shown_pen (from_cell cl) (cursor s), last_graphic := l\<rparr>"
proof (cases "from_cell cl = a")
  case True
  then have "host_run wd (apply_sgr_delta a cl) s = s" by (simp add: apply_sgr_delta_def)
  moreover have "shown_pen (from_cell cl) (cursor s) = cursor s" using assms(1) True by (simp add: pen_is_def)
  ultimately have "host_run wd (apply_sgr_delta a cl) s =
      s\<lparr>cursor := shown_pen (from_cell cl) (cursor s), last_graphic := last_graphic s\<rparr>"
    by (cases s) (simp only: screen.simps)
  then show ?thesis by (rule exI)
next
  case False
  then have ne: "apply_sgr_delta a cl \<noteq> []" by (simp add: apply_sgr_delta_def Let_def)
  show ?thesis
    by (rule exI, rule trans [OF host_sgrs [OF delta_is_sgr ne]], simp only: pen_delta [OF assms(2) False])
qed

lemma pen_is_shown: "hyperlink_id k = None \<Longrightarrow> pen_is a (shown_pen a k)"
  by (simp add: pen_is_def) (simp add: shown_pen_def)

lemma pen_is_moved:
  "pen_is a k \<Longrightarrow> pen_is a (k\<lparr>row := r\<rparr>)" "pen_is a k \<Longrightarrow> pen_is a (k\<lparr>col := c\<rparr>)"
  "pen_is a k \<Longrightarrow> pen_is a (k\<lparr>pending_wrap := b\<rparr>)"
proof -
  have m: "shown_pen a (k\<lparr>row := r\<rparr>) = (shown_pen a k)\<lparr>row := r\<rparr>"
    "shown_pen a (k\<lparr>col := c\<rparr>) = (shown_pen a k)\<lparr>col := c\<rparr>"
    "shown_pen a (k\<lparr>pending_wrap := b\<rparr>) = (shown_pen a k)\<lparr>pending_wrap := b\<rparr>"
    by (simp_all add: shown_pen_def)
  show "pen_is a k \<Longrightarrow> pen_is a (k\<lparr>row := r\<rparr>)" "pen_is a k \<Longrightarrow> pen_is a (k\<lparr>col := c\<rparr>)"
    "pen_is a k \<Longrightarrow> pen_is a (k\<lparr>pending_wrap := b\<rparr>)"
    by (simp_all add: pen_is_def m)
qed

text \<open>The cell a terminal shows for a cell of a frame.\<close>

definition shown_cell :: "cell \<Rightarrow> cell" where
  "shown_cell cl =
     (if is_wide_spacer cl then wide_spacer
      else cursor_cell (grapheme cl) (shown_pen (from_cell cl) cursor_default))"

lemma pen_is_cell:
  assumes "pen_is (from_cell cl) k" "\<not> is_wide_spacer cl"
  shows "cursor_cell (grapheme cl) k = shown_cell cl"
proof -
  have h: "hyperlink_id k = None" using assms(1) by (simp add: pen_is_def)
  have "cursor_cell (grapheme cl) k = cursor_cell (grapheme cl) (shown_pen (from_cell cl) k)"
    using assms(1) by (simp add: pen_is_def)
  also have "\<dots> = cursor_cell (grapheme cl) (shown_pen (from_cell cl) cursor_default)"
    using h by (simp add: cursor_cell_def shown_pen_def cursor_default_def)
  finally show ?thesis using assms(2) by (simp add: shown_cell_def)
qed

section \<open>Motion and printing\<close>

lemma charset_fields [simp]:
  "active_charset (s\<lparr>cursor := k\<rparr>) = active_charset s" "active_charset (s\<lparr>active := g\<rparr>) = active_charset s"
  "active_charset (s\<lparr>last_graphic := l\<rparr>) = active_charset s"
  by (simp_all add: active_charset_def)

lemma host_cup:
  assumes "host_ready rows cols s" "r < rows" "c < cols"
  shows "host_cmd wd (cup r c) s =
    s\<lparr>cursor := (cursor s)\<lparr>row := r, col := c, pending_wrap := False\<rparr>, last_graphic := None\<rparr>"
proof -
  have u: "rows \<le> u16_max" "cols \<le> u16_max" "s_rows s = rows" "s_cols s = cols"
    using assms(1) wf_pos [of s] wf_rows [of s] by (auto simp: host_ready_def)
  have a: "as_u16 (r + 1) = r + 1" "as_u16 (c + 1) = c + 1"
    using u assms(2,3) by (simp_all add: as_u16_id)
  have m: "min r (rows - 1) = r" "min c (cols - 1) = c" using assms by auto
  have "handle_csi wd [[r + 1], [c + 1]] [] (CHR ''H'') s = csi_cup [[r + 1], [c + 1]] (s\<lparr>last_graphic := None\<rparr>)"
    by (simp add: handle_csi_def)
  also have "\<dots> = s\<lparr>cursor := (cursor s)\<lparr>row := r, col := c, pending_wrap := False\<rparr>, last_graphic := None\<rparr>"
    using assms(1) u m by (simp add: csi_cup_def param_or_def param_def nth_opt_def head_opt_def absolute_row_def host_ready_def
        set_wrap_def set_col_def set_row_def upd_cur_def s_rows_def s_cols_def num_cols_def)
  finally show ?thesis by (simp only: cup_def host_cmd.simps a)
qed

text \<open>A cluster of width 1 or 2 put into a row.\<close>

definition put_cells :: "(rstr \<Rightarrow> nat) \<Rightarrow> nat \<Rightarrow> nat \<Rightarrow> cell \<Rightarrow> cell list \<Rightarrow> cell list" where
  "put_cells wd w c x cs =
     (let cs = (straddle_cells wd c (c + w - 1) cs)[c := x] in if w = 2 then cs[c + 1 := wide_spacer] else cs)"

lemma put_fitting:
  assumes "active_charset s = Ascii" "\<not> pending_wrap (cursor s)" "wd g = w" "w = 1 \<or> w = 2"
    and "col (cursor s) + w \<le> s_cols s"
  shows "put_grapheme wd g s = step_right (write_cluster wd w g (s\<lparr>last_graphic := Some g\<rparr>))"
proof -
  have m: "mapped_cluster s g = g" using assms(1) by (simp add: mapped_cluster_def)
  have w: "as_u16 (wd g) = w" "w \<noteq> 0" using assms(3,4) by (auto simp: as_u16_def u16_max_def)
  have "resolve_wrap (s\<lparr>last_graphic := Some g\<rparr>) = s\<lparr>last_graphic := Some g\<rparr>"
    using assms(2) by (simp add: resolve_wrap_def)
  moreover have "\<not> (w \<ge> 2 \<and> col (cursor s) + 1 \<ge> g_cols (active s))" using assms(5) by simp
  then have "make_room_wide wd w (s\<lparr>last_graphic := Some g\<rparr>) = s\<lparr>last_graphic := Some g\<rparr>"
    unfolding make_room_wide_def by (subst if_not_P) simp_all
  ultimately show ?thesis unfolding put_grapheme_def m Let_def w using w(2) by simp
qed

lemma write_fitting:
  assumes "row (cursor s) < length (g_rows (active s))" "w = 1 \<or> w = 2" "col (cursor s) + w \<le> u16_max"
  shows "write_cluster wd w g s = s\<lparr>
      active := at_row (row (cursor s)) (put_cells wd w (col (cursor s)) (cursor_cell g (cursor s))) (active s),
      cursor := (cursor s)\<lparr>col := col (cursor s) + w - 1\<rparr>\<rparr>"
proof -
  define r c b where defs: "r = row (cursor s)" "c = col (cursor s)" "b = col (cursor s) + w - 1"
  have b: "advance c (if w \<ge> 2 then 1 else 0) = b" "b < u16_max"
    using assms(2,3) by (auto simp: defs advance_exact)
  have str: "clear_wide_straddle wd c b s = s\<lparr>active := at_row r (straddle_cells wd c b) (active s)\<rparr>"
  proof -
    have "active (clear_wide_straddle wd c b s) = at_row r (straddle_cells wd c b) (active s)"
      by (rule straddle_at_row) (use assms(1) b(2) in \<open>simp_all add: defs\<close>)
    moreover have "\<exists>G. clear_wide_straddle wd c b s = s\<lparr>active := G\<rparr>"
      unfolding clear_wide_straddle_def Let_def by (rule exI, rule refl)
    ultimately show ?thesis by auto
  qed
  define x where "x = cursor_cell g (cursor s)"
  have one: "put_cell_at_cursor x (s\<lparr>active := at_row r f (active s)\<rparr>) =
      s\<lparr>active := at_row r (\<lambda>cs. (f cs)[c := x]) (active s)\<rparr>" for f
    by (simp add: put_cell_at_cursor_def put_cell_at_row at_row_at_row o_def flip: defs)
  show ?thesis
  proof (cases "w = 1")
    case True
    then have bc: "b = c" by (simp add: defs)
    have cur: "(cursor s)\<lparr>col := c\<rparr> = cursor s" by (simp add: defs)
    have "write_cluster wd w g s = s\<lparr>active := at_row r (\<lambda>cs. (straddle_cells wd c c cs)[c := x]) (active s)\<rparr>"
      using True b(1) by (simp add: write_cluster_def Let_def str [unfolded bc] one bc flip: defs x_def)
    also have "\<dots> = s\<lparr>active := at_row r (put_cells wd 1 c x) (active s), cursor := (cursor s)\<lparr>col := c\<rparr>\<rparr>"
      unfolding cur by (simp add: put_cells_def [abs_def])
    finally show ?thesis using True by (simp flip: defs x_def)
  next
    case False
    then have w: "w = 2" using assms(2) by simp
    then have bc: "b = c + 1" by (simp add: defs)
    let ?t = "s\<lparr>active := at_row r (\<lambda>cs. (straddle_cells wd c (c + 1) cs)[c := x]) (active s)\<rparr>"
    have "advance c 1 = c + 1" using b(1) w bc by simp
    moreover have "clear_wide_straddle wd c (Suc c) s = s\<lparr>active := at_row r (straddle_cells wd c (Suc c)) (active s)\<rparr>"
      using str bc by simp
    ultimately have "write_cluster wd w g s = put_cell_at_cursor wide_spacer (set_col (c + 1) ?t)"
      using w b(1) by (simp add: write_cluster_def Let_def one bc flip: defs x_def)
    also have "\<dots> = s\<lparr>active := at_row r (put_cells wd 2 c x) (active s), cursor := (cursor s)\<lparr>col := c + 1\<rparr>\<rparr>"
      by (simp add: put_cell_at_cursor_def put_cell_at_row at_row_at_row o_def set_col_def upd_cur_def
          put_cells_def [abs_def] flip: defs)
    finally show ?thesis using w by (simp flip: defs x_def)
  qed
qed

lemma at_row_dims [simp]: "length (g_rows (at_row r f g)) = length (g_rows g)" "g_cols (at_row r f g) = g_cols g"
  by (simp_all add: at_row_def map_row_def)

lemma host_text:
  assumes "host_ready rows cols s" "\<not> pending_wrap (cursor s)" "wd g = w" "w = 1 \<or> w = 2"
    and "col (cursor s) + w \<le> cols"
  defines "t \<equiv> host_cmd wd (TText g) s"
  shows "active t = at_row (row (cursor s)) (put_cells wd w (col (cursor s)) (cursor_cell g (cursor s))) (active s)"
    and "cursor t = (if col (cursor s) + w < cols then (cursor s)\<lparr>col := col (cursor s) + w\<rparr>
                     else (cursor s)\<lparr>col := cols - 1, pending_wrap := True\<rparr>)"
    and "active_charset t = Ascii" "modes t = modes s"
proof -
  have wf: "screen_wf s" and dims: "g_cols (active s) = cols" and cs: "active_charset s = Ascii"
    using assms(1) by (simp_all add: host_ready_def)
  define u where "u = s\<lparr>last_graphic := Some g\<rparr>"
  define x where "x = cursor_cell g (cursor s)"
  define v where "v = u\<lparr>active := at_row (row (cursor s)) (put_cells wd w (col (cursor s)) x) (active s),
      cursor := (cursor s)\<lparr>col := col (cursor s) + w - 1\<rparr>\<rparr>"
  have t: "t = step_right v"
    unfolding t_def host_cmd.simps
    using put_fitting [of s wd g w] write_fitting [of u w wd g] assms(2-5) cs dims wf_cursor(1) [OF wf] wf_pos(4) [OF wf]
    by (simp add: u_def v_def x_def)
  have vf: "g_cols (active v) = cols" "cursor v = (cursor s)\<lparr>col := col (cursor s) + w - 1\<rparr>"
    "active v = at_row (row (cursor s)) (put_cells wd w (col (cursor s)) x) (active s)"
    "active_charset v = active_charset s" "modes v = modes s"
    using dims by (simp_all add: v_def u_def at_row_def map_row_def)
  have fit: "col (cursor s) + w \<le> u16_max" using assms(5) wf_pos(4) [OF wf] dims by simp
  have adv: "advance (col (cursor s) + w - 1) 1 = col (cursor s) + w"
    using fit assms(4) by (auto simp: advance_def sadd16_def)
  have ge: "col (cursor s) + w - 1 + 1 = col (cursor s) + w" using assms(4) by auto
  show "active t = at_row (row (cursor s)) (put_cells wd w (col (cursor s)) (cursor_cell g (cursor s))) (active s)"
    by (simp add: t step_right_def vf x_def)
  show "active_charset t = Ascii" "modes t = modes s"
    using cs vf(4,5) by (simp_all add: t step_right_def set_wrap_def set_col_def upd_cur_def)
  show "cursor t = (if col (cursor s) + w < cols then (cursor s)\<lparr>col := col (cursor s) + w\<rparr>
                     else (cursor s)\<lparr>col := cols - 1, pending_wrap := True\<rparr>)"
    using adv ge assms(4,5) by (auto simp: t step_right_def vf set_wrap_def set_col_def upd_cur_def dims simp del: One_nat_def)
qed

lemma host_cmd_wf: "screen_wf s \<Longrightarrow> screen_wf (host_cmd wd c s)"
  by (cases c) (simp_all add: inv_intros)

lemma host_run_wf: "screen_wf s \<Longrightarrow> screen_wf (host_run wd cs s)"
  by (induction cs arbitrary: s) (simp_all add: host_cmd_wf)

text \<open>One cell: its SGR commands and its text.\<close>

lemma host_cell:
  assumes "host_ready rows cols s" "\<not> pending_wrap (cursor s)" "pen_is a (cursor s)"
    and "wd (grapheme cl) = w" "w = 1 \<or> w = 2" "col (cursor s) + w \<le> cols" "colors_ok cl" "\<not> is_wide_spacer cl"
  defines "t \<equiv> host_run wd (apply_sgr_delta a cl @ [TText (grapheme cl)]) s"
  shows "host_ready rows cols t" "pen_is (from_cell cl) (cursor t)" "row (cursor t) = row (cursor s)"
    and "active t = at_row (row (cursor s)) (put_cells wd w (col (cursor s)) (shown_cell cl)) (active s)"
    and "col (cursor s) + w < cols \<Longrightarrow> col (cursor t) = col (cursor s) + w \<and> \<not> pending_wrap (cursor t)"
proof -
  obtain l where l: "host_run wd (apply_sgr_delta a cl) s =
      s\<lparr>cursor := shown_pen (from_cell cl) (cursor s), last_graphic := l\<rparr>"
    using host_delta [OF assms(3,7)] by blast
  define u where "u = s\<lparr>cursor := shown_pen (from_cell cl) (cursor s), last_graphic := l\<rparr>"
  have k: "row (cursor u) = row (cursor s)" "col (cursor u) = col (cursor s)" "\<not> pending_wrap (cursor u)"
    "pen_is (from_cell cl) (cursor u)"
    using assms(2,3) pen_is_shown [of "cursor s"] by (simp_all add: u_def shown_pen_def pen_is_def)
  have "screen_wf u"
    using host_run_wf [of s wd "apply_sgr_delta a cl"] assms(1) by (simp add: l u_def host_ready_def)
  then have ready: "host_ready rows cols u"
    using assms(1) by (simp add: u_def host_ready_def)
  have t: "t = host_cmd wd (TText (grapheme cl)) u" by (simp add: t_def l u_def)
  have fits: "col (cursor u) + w \<le> cols" using assms(6) k(2) by simp
  note e = host_text [where g = "grapheme cl" and wd = wd, OF ready k(3) assms(4,5) fits, folded t, unfolded k(1,2)]
  have "screen_wf t" unfolding t by (rule host_cmd_wf) (use ready in \<open>simp add: host_ready_def\<close>)
  then show "host_ready rows cols t" using ready e(1,3,4) by (simp add: host_ready_def)
  show "pen_is (from_cell cl) (cursor t)" using k(4) by (simp add: e(2) pen_is_moved)
  show "row (cursor t) = row (cursor s)" using k(1) by (simp add: e(2))
  show "active t = at_row (row (cursor s)) (put_cells wd w (col (cursor s)) (shown_cell cl)) (active s)"
    using pen_is_cell [OF k(4) assms(8)] by (simp add: e(1)) (simp add: u_def)
  show "col (cursor s) + w < cols \<Longrightarrow> col (cursor t) = col (cursor s) + w \<and> \<not> pending_wrap (cursor t)"
    using k by (simp add: e(2))
qed

end
