(* ===== verification/Diff_Rows.thy ===== *)
theory Diff_Rows
  imports Diff_Host
begin

text \<open>
  The diff of one row.  While the renderer walks a row from left to right, the cells before its column
  already show the new frame and those after it still the old one; at the column itself half of a wide
  character may have been blanked.  A walk that keeps this ends with the whole row shown.
\<close>

section \<open>Rows of frames\<close>

text \<open>Cells the terminal can show: byte-sized colours, and one or two columns of text.\<close>

definition cell_fits :: "(rstr \<Rightarrow> nat) \<Rightarrow> cell \<Rightarrow> bool" where
  "cell_fits wd cl \<longleftrightarrow> colors_ok cl \<and> (is_wide_spacer cl \<or> wd (grapheme cl) = 1 \<or> wd (grapheme cl) = 2)"

text \<open>
  Where a wide character stays, so does the cell to its right: the spacer of an unchanged character is
  unchanged.
\<close>

definition spacers_follow :: "cell list \<Rightarrow> cell list \<Rightarrow> bool" where
  "spacers_follow P Q \<longleftrightarrow>
     (\<forall>i. Suc i < length Q \<and> is_wide_spacer (Q ! Suc i) \<and> P ! i = Q ! i \<longrightarrow> P ! Suc i = Q ! Suc i)"

definition rows_ok :: "(rstr \<Rightarrow> nat) \<Rightarrow> cell list \<Rightarrow> cell list \<Rightarrow> bool" where
  "rows_ok wd P Q \<longleftrightarrow>
     width_ok wd \<and> length P = length Q \<and> pairs_ok wd P \<and> pairs_ok wd Q \<and> spacers_follow P Q
     \<and> list_all (cell_fits wd) Q"

lemma shown_spacer [simp]: "is_wide_spacer (shown_cell cl) = is_wide_spacer cl"
  by (simp add: shown_cell_def cursor_cell_def is_wide_spacer_def wide_spacer_def)

lemma shown_wide [simp]: "width_ok wd \<Longrightarrow> is_wide wd (shown_cell cl) = is_wide wd cl"
  by (auto simp: shown_cell_def is_wide_def cursor_cell_def wide_spacer_def is_wide_spacer_def width_ok_simps
      display_width_def)

lemma is_wide_iff: "is_wide wd cl \<longleftrightarrow> 2 \<le> wd (grapheme cl)"
  by (simp add: is_wide_def)

lemma put_cells_length [simp]: "length (put_cells wd w c x cs) = length cs"
  by (simp add: put_cells_def Let_def)

definition row_walk :: "(rstr \<Rightarrow> nat) \<Rightarrow> cell list \<Rightarrow> cell list \<Rightarrow> nat \<Rightarrow> cell list \<Rightarrow> bool" where
  "row_walk wd P Q c hs \<longleftrightarrow>
     length hs = length Q \<and> c \<le> length Q
     \<and> (\<forall>i<c. hs ! i = shown_cell (Q ! i))
     \<and> (\<forall>i. c < i \<and> i < length Q \<longrightarrow> hs ! i = shown_cell (P ! i))
     \<and> (c < length Q \<longrightarrow>
          hs ! c = shown_cell (P ! c) \<and> (is_wide_spacer (P ! c) \<and> 0 < c \<longrightarrow> P ! (c - 1) = Q ! (c - 1))
          \<or> hs ! c = default_cell \<and> is_wide_spacer (P ! c) \<and> \<not> is_wide_spacer (Q ! c))
     \<and> (0 < c \<and> is_wide wd (Q ! (c - 1)) \<longrightarrow> P ! (c - 1) = Q ! (c - 1))"

lemma row_walk_start: "rows_ok wd P Q \<Longrightarrow> row_walk wd P Q 0 (map shown_cell P)"
  by (auto simp: row_walk_def rows_ok_def)

lemma row_walk_end: "row_walk wd P Q (length Q) hs \<Longrightarrow> hs = map shown_cell Q"
  by (auto simp: row_walk_def intro: nth_equalityI)

lemma row_walk_skip:
  assumes "row_walk wd P Q c hs" "c < length Q" "P ! c = Q ! c"
  shows "row_walk wd P Q (Suc c) hs"
  using assms by (auto simp: row_walk_def less_Suc_eq)

lemma row_walk_spacer:
  assumes "rows_ok wd P Q" "row_walk wd P Q c hs" "c < length Q" "P ! c \<noteq> Q ! c"
  shows "\<not> is_wide_spacer (Q ! c)"
proof
  assume s: "is_wide_spacer (Q ! c)"
  then have w: "0 < c" "is_wide wd (Q ! (c - 1))"
    using pairs_okD(1) [of wd Q c] assms(1,3) by (simp_all add: rows_ok_def)
  then have "P ! (c - 1) = Q ! (c - 1)" using assms(2) by (simp add: row_walk_def)
  then have "P ! c = Q ! c"
    using assms(1,3) s w(1) by (auto simp: rows_ok_def spacers_follow_def dest!: spec [of _ "c - 1"])
  then show False using assms(4) by simp
qed

text \<open>The cell at the column of the walk is never a spacer the terminal still shows.\<close>

lemma row_walk_head:
  assumes "rows_ok wd P Q" "row_walk wd P Q c hs" "c < length Q" "\<not> is_wide_spacer (Q ! c)" "0 < c"
  shows "\<not> is_wide_spacer (hs ! c)"
proof
  assume s: "is_wide_spacer (hs ! c)"
  then have p: "is_wide_spacer (P ! c)" "P ! (c - 1) = Q ! (c - 1)"
    using assms(2,3,5) by (auto simp: row_walk_def)
  then have "is_wide wd (Q ! (c - 1))"
    using pairs_okD(1) [of wd P c] assms(1,3) by (simp add: rows_ok_def)
  then have "is_wide_spacer (Q ! c)"
    using pairs_okD(2) [of wd Q "c - 1"] assms(1,3,5) by (simp add: rows_ok_def)
  then show False using assms(4) by simp
qed

lemma row_walk_narrow:
  assumes "rows_ok wd P Q" "row_walk wd P Q c hs" "c < length Q" "\<not> is_wide_spacer (Q ! c)" "wd (grapheme (Q ! c)) = 1"
  shows "row_walk wd P Q (Suc c) (put_cells wd 1 c (shown_cell (Q ! c)) hs)"
proof -
  have len: "length hs = length Q" "length P = length Q" using assms(1,2) by (simp_all add: row_walk_def rows_ok_def)
  have w: "width_ok wd" using assms(1) by (simp add: rows_ok_def)
  have nw: "\<not> is_wide wd (Q ! c)" using assms(5) by (simp add: is_wide_iff)
  have clr: "cleared wd c c hs i \<longleftrightarrow> is_wide wd (P ! c) \<and> i = Suc c" for i
    using row_walk_head [OF assms(1-4)] assms(2,3) w is_wide_not_spacer [OF w, of "P ! c"]
    by (auto simp: cleared_def row_walk_def)
  have nth: "put_cells wd 1 c (shown_cell (Q ! c)) hs ! i =
      (if i = c then shown_cell (Q ! c) else if is_wide wd (P ! c) \<and> i = Suc c then default_cell else hs ! i)"
    if "i < length Q" for i
    using that len assms(3) straddle_nth [of c c hs i wd] by (simp add: put_cells_def clr nth_list_update)
  have wide: "is_wide wd (P ! c) \<and> is_wide_spacer (P ! Suc c) \<and> \<not> is_wide_spacer (Q ! Suc c)"
    if "Suc c < length Q" "is_wide wd (P ! c)"
    using that pairs_okD(2) [of wd P c] pairs_okD(1) [of wd Q "Suc c"] assms(1) nw by (auto simp: rows_ok_def)
  have narrow: "\<not> is_wide_spacer (P ! Suc c)" if "Suc c < length Q" "\<not> is_wide wd (P ! c)"
    using that pairs_okD(1) [of wd P "Suc c"] assms(1) by (auto simp: rows_ok_def)
  define hs' where "hs' = put_cells wd 1 c (shown_cell (Q ! c)) hs"
  note nth = nth [folded hs'_def]
  have before: "hs' ! i = shown_cell (Q ! i)" if "i < Suc c" for i
    using that assms(2,3) by (cases "i = c") (simp_all add: nth row_walk_def)
  have after: "hs' ! i = shown_cell (P ! i)" if "Suc c < i" "i < length Q" for i
    using that assms(2) by (simp add: nth row_walk_def)
  have at: "hs' ! Suc c = (if is_wide wd (P ! c) then default_cell else shown_cell (P ! Suc c))" if "Suc c < length Q"
    using that assms(2) by (simp add: nth row_walk_def)
  have head: "hs' ! Suc c = shown_cell (P ! Suc c) \<and> (is_wide_spacer (P ! Suc c) \<and> 0 < Suc c \<longrightarrow> P ! (Suc c - 1) = Q ! (Suc c - 1))
      \<or> hs' ! Suc c = default_cell \<and> is_wide_spacer (P ! Suc c) \<and> \<not> is_wide_spacer (Q ! Suc c)" if "Suc c < length Q"
    using at [OF that] wide [OF that] narrow [OF that] by (cases "is_wide wd (P ! c)") simp_all
  have "length hs' = length Q" using len(1) by (simp add: hs'_def)
  then show ?thesis
    unfolding row_walk_def hs'_def [symmetric] using assms(3) nw before after head by simp
qed

lemma row_walk_wide:
  assumes "rows_ok wd P Q" "row_walk wd P Q c hs" "c < length Q" "\<not> is_wide_spacer (Q ! c)" "wd (grapheme (Q ! c)) = 2"
  shows "c + 2 \<le> length Q" "row_walk wd P Q (c + 2) (put_cells wd 2 c (shown_cell (Q ! c)) hs)"
proof -
  have len: "length hs = length Q" "length P = length Q" using assms(1,2) by (simp_all add: row_walk_def rows_ok_def)
  have w: "width_ok wd" using assms(1) by (simp add: rows_ok_def)
  have "is_wide wd (Q ! c)" using assms(5) by (simp add: is_wide_iff)
  then have q: "Suc c < length Q" "is_wide_spacer (Q ! Suc c)"
    using pairs_okD(2) [of wd Q c] assms(1,3) by (simp_all add: rows_ok_def)
  then show "c + 2 \<le> length Q" by simp
  have nw: "\<not> is_wide wd (Q ! Suc c)" using q(2) is_wide_not_spacer [OF w] by blast
  have h1: "hs ! Suc c = shown_cell (P ! Suc c)" using assms(2) q(1) by (simp add: row_walk_def)
  have clr: "cleared wd c (Suc c) hs i \<longleftrightarrow> is_wide wd (P ! Suc c) \<and> i = Suc (Suc c)" for i
    using row_walk_head [OF assms(1-4)] w by (auto simp: cleared_def h1)
  have nth: "put_cells wd 2 c (shown_cell (Q ! c)) hs ! i =
      (if i = c then shown_cell (Q ! c) else if i = Suc c then wide_spacer
       else if is_wide wd (P ! Suc c) \<and> i = Suc (Suc c) then default_cell else hs ! i)"
    if "i < length Q" for i
    using that len q(1) straddle_nth [of c "Suc c" hs i wd] by (simp add: put_cells_def clr nth_list_update)
  have sh: "shown_cell (Q ! Suc c) = wide_spacer" using q(2) by (simp add: shown_cell_def)
  have wide: "is_wide_spacer (P ! Suc (Suc c)) \<and> \<not> is_wide_spacer (Q ! Suc (Suc c))"
    if "Suc (Suc c) < length Q" "is_wide wd (P ! Suc c)"
    using that pairs_okD(2) [of wd P "Suc c"] pairs_okD(1) [of wd Q "Suc (Suc c)"] assms(1) nw by (auto simp: rows_ok_def)
  have narrow: "\<not> is_wide_spacer (P ! Suc (Suc c))" if "Suc (Suc c) < length Q" "\<not> is_wide wd (P ! Suc c)"
    using that pairs_okD(1) [of wd P "Suc (Suc c)"] assms(1) by (auto simp: rows_ok_def)
  define hs' where "hs' = put_cells wd 2 c (shown_cell (Q ! c)) hs"
  note nth = nth [folded hs'_def]
  have before: "hs' ! i = shown_cell (Q ! i)" if i: "i < c + 2" for i
  proof -
    consider "i < c" | "i = c" | "i = Suc c" using i by linarith
    then show ?thesis using assms(2) q(1) sh by cases (simp_all add: nth row_walk_def)
  qed
  have after: "hs' ! i = shown_cell (P ! i)" if "c + 2 < i" "i < length Q" for i
    using that assms(2) by (simp add: nth row_walk_def)
  have at: "hs' ! (c + 2) = (if is_wide wd (P ! Suc c) then default_cell else shown_cell (P ! (c + 2)))" if "c + 2 < length Q"
    using that assms(2) by (simp add: nth row_walk_def)
  have head: "hs' ! (c + 2) = shown_cell (P ! (c + 2)) \<and>
        (is_wide_spacer (P ! (c + 2)) \<and> 0 < c + 2 \<longrightarrow> P ! (c + 2 - 1) = Q ! (c + 2 - 1))
      \<or> hs' ! (c + 2) = default_cell \<and> is_wide_spacer (P ! (c + 2)) \<and> \<not> is_wide_spacer (Q ! (c + 2))" if "c + 2 < length Q"
    using that at [OF that] wide narrow by (cases "is_wide wd (P ! Suc c)") simp_all
  have "length hs' = length Q" using len(1) by (simp add: hs'_def)
  then show "row_walk wd P Q (c + 2) (put_cells wd 2 c (shown_cell (Q ! c)) hs)"
    unfolding row_walk_def hs'_def [symmetric] using q(1) nw before after head by simp
qed

section \<open>The terminal during a walk\<close>

definition host_row :: "screen \<Rightarrow> nat \<Rightarrow> cell list" where
  "host_row s r = cells (g_rows (active s) ! r)"

lemma host_row_at_row:
  "r < length (g_rows g) \<Longrightarrow>
     cells (g_rows (at_row r f g) ! i) = (if i = r then f (cells (g_rows g ! r)) else cells (g_rows g ! i))"
  by (simp add: at_row_def map_row_def nth_list_update)

text \<open>
  The renderer at column \<open>c\<close> of row \<open>r\<close> with the attributes \<open>a\<close> in effect; where it has just printed, the
  cursor is at that column too.
\<close>

definition walking ::
    "(rstr \<Rightarrow> nat) \<Rightarrow> nat \<Rightarrow> cell list \<Rightarrow> cell list \<Rightarrow> nat \<Rightarrow> nat \<Rightarrow> cell_attrs \<Rightarrow> screen \<Rightarrow> bool" where
  "walking wd rows P Q r c a s \<longleftrightarrow>
     host_ready rows (length Q) s \<and> r < rows \<and> pen_is a (cursor s) \<and> row_walk wd P Q c (host_row s r)"

definition cursor_at :: "nat \<Rightarrow> nat \<Rightarrow> nat \<Rightarrow> screen \<Rightarrow> bool" where
  "cursor_at cols r c s \<longleftrightarrow>
     row (cursor s) = r \<and> (c < cols \<longrightarrow> col (cursor s) = c \<and> \<not> pending_wrap (cursor s))"

definition others_kept :: "nat \<Rightarrow> screen \<Rightarrow> screen \<Rightarrow> bool" where
  "others_kept r s t \<longleftrightarrow> (\<forall>i. i \<noteq> r \<longrightarrow> host_row t i = host_row s i)"

lemma others_kept_trans: "others_kept r s t \<Longrightarrow> others_kept r t u \<Longrightarrow> others_kept r s u"
  by (simp add: others_kept_def)

lemma others_kept_refl [simp]: "others_kept r s s"
  by (simp add: others_kept_def)

text \<open>Moving to the column of the walk.\<close>

lemma walking_cup:
  assumes "walking wd rows P Q r c a s" "c < length Q"
  defines "t \<equiv> host_cmd wd (cup r c) s"
  shows "walking wd rows P Q r c a t" "cursor_at (length Q) r c t" "others_kept r s t"
proof -
  have ready: "host_ready rows (length Q) s" "r < rows" using assms(1) by (simp_all add: walking_def)
  note e = host_cup [OF ready assms(2), of wd, folded t_def]
  have act: "active t = active s" and cur: "cursor t = (cursor s)\<lparr>row := r, col := c, pending_wrap := False\<rparr>"
    and md: "modes t = modes s" "active_charset t = active_charset s" by (simp_all add: e)
  have "screen_wf t" unfolding t_def by (rule host_cmd_wf) (use ready in \<open>simp add: host_ready_def\<close>)
  then have "host_ready rows (length Q) t" using ready(1) by (simp add: host_ready_def act md)
  moreover have "pen_is a (cursor t)" using assms(1) by (simp add: cur pen_is_moved walking_def)
  ultimately show "walking wd rows P Q r c a t" using assms(1) by (simp add: walking_def host_row_def act)
  show "cursor_at (length Q) r c t" "others_kept r s t"
    by (simp_all add: cursor_at_def cur others_kept_def host_row_def act)
qed

text \<open>One cell of a run.\<close>

lemma walk_cell:
  assumes rows: "rows_ok wd P Q" and walk: "walking wd rows P Q r c a s" "cursor_at (length Q) r c s"
    and c: "c < length Q" "\<not> is_wide_spacer (Q ! c)"
  defines "t \<equiv> host_run wd (apply_sgr_delta a (Q ! c) @ [TText (grapheme (Q ! c))]) s"
    and "d \<equiv> c + cell_advance wd (grapheme (Q ! c))"
  shows "walking wd rows P Q r d (from_cell (Q ! c)) t" "cursor_at (length Q) r d t" "others_kept r s t" "d \<le> length Q"
proof -
  have fits: "cell_fits wd (Q ! c)" using rows c(1) by (simp add: rows_ok_def list_all_length)
  define w where "w = wd (grapheme (Q ! c))"
  have w: "w = 1 \<or> w = 2" and ok: "colors_ok (Q ! c)" using fits c(2) by (auto simp: cell_fits_def w_def)
  have d: "d = c + w" using w by (auto simp: d_def cell_advance_def display_width_def u16_max_def clamp_def w_def)
  have ready: "host_ready rows (length Q) s" "r < rows" and at: "row (cursor s) = r" "col (cursor s) = c" "\<not> pending_wrap (cursor s)"
    and pen: "pen_is a (cursor s)" and rw: "row_walk wd P Q c (host_row s r)"
    using walk c(1) by (simp_all add: walking_def cursor_at_def)
  have next_walk: "row_walk wd P Q d (put_cells wd w c (shown_cell (Q ! c)) (host_row s r))" and "d \<le> length Q"
    using w row_walk_narrow [OF rows rw c] row_walk_wide [OF rows rw c] c(1)
    by (auto simp: d w_def)
  then show "d \<le> length Q" by simp
  have fit: "col (cursor s) + w \<le> length Q" using \<open>d \<le> length Q\<close> by (simp add: d at)
  note h = host_cell [where cl = "Q ! c" and wd = wd, OF ready(1) at(3) pen w_def [symmetric] w fit ok c(2), folded t_def, unfolded at]
  have len: "r < length (g_rows (active s))" using ready by (simp add: host_ready_def)
  have hr: "host_row t i = (if i = r then put_cells wd w c (shown_cell (Q ! c)) (host_row s r) else host_row s i)" for i
    unfolding host_row_def h(4) by (rule host_row_at_row [OF len])
  show "walking wd rows P Q r d (from_cell (Q ! c)) t"
    using h(1,2) ready(2) next_walk by (simp add: walking_def hr)
  show "cursor_at (length Q) r d t" using h(3,5) by (simp add: cursor_at_def d)
  show "others_kept r s t" by (simp add: others_kept_def hr)
qed

text \<open>Row \<open>r\<close> of a frame and of the frame before it.\<close>

definition row_pair :: "virtual_screen \<Rightarrow> virtual_screen \<Rightarrow> nat \<Rightarrow> cell list \<Rightarrow> cell list \<Rightarrow> bool" where
  "row_pair p v r P Q \<longleftrightarrow>
     vs_cols v = length Q \<and> (\<forall>c<length Q. vs_cell v r c = Some (Q ! c) \<and> vs_cell p r c = Some (P ! c))"

lemma run_step:
  "c < vs_cols v \<Longrightarrow> vs_cell v r c = Some x \<Longrightarrow> vs_cell p r c \<noteq> Some x \<Longrightarrow> \<not> is_wide_spacer x \<Longrightarrow>
    diff_run wd p v r c a = (let (out, a', c') = diff_run wd p v r (c + cell_advance wd (grapheme x)) (from_cell x)
                             in (apply_sgr_delta a x @ TText (grapheme x) # out, a', c'))"
  by (subst diff_run.simps) auto

lemma run_stop:
  "\<not> c < vs_cols v \<or> vs_cell p r c = vs_cell v r c \<Longrightarrow> diff_run wd p v r c a = ([], a, c)"
  by (subst diff_run.simps) (auto split: option.split)

text \<open>A run of changed cells.\<close>

lemma run_walk:
  assumes rows: "rows_ok wd P Q" and pair: "row_pair p v r P Q"
  shows "walking wd rows P Q r c a s \<Longrightarrow> cursor_at (length Q) r c s \<Longrightarrow> c \<le> length Q \<Longrightarrow>
    diff_run wd p v r c a = (out, a', c') \<Longrightarrow>
    walking wd rows P Q r c' a' (host_run wd out s) \<and> others_kept r s (host_run wd out s) \<and> c \<le> c' \<and> c' \<le> length Q
      \<and> (c < length Q \<and> P ! c \<noteq> Q ! c \<longrightarrow> c < c')"
proof (induction "length Q - c" arbitrary: c a s out rule: less_induct)
  case less
  show ?case
  proof (cases "c < length Q \<and> P ! c \<noteq> Q ! c")
    case False
    then have "\<not> c < vs_cols v \<or> vs_cell p r c = vs_cell v r c" using pair by (auto simp: row_pair_def)
    then have "out = []" "a' = a" "c' = c" using less.prems(4) by (simp_all add: run_stop)
    then show ?thesis using False less.prems(1,3) by simp
  next
    case True
    then have c: "c < length Q" and ne: "P ! c \<noteq> Q ! c" by simp_all
    have cells: "c < vs_cols v" "vs_cell v r c = Some (Q ! c)" "vs_cell p r c \<noteq> Some (Q ! c)"
      using pair c ne by (simp_all add: row_pair_def)
    have sp: "\<not> is_wide_spacer (Q ! c)"
      using less.prems(1) by (intro row_walk_spacer [OF rows _ c ne, of "host_row s r"]) (simp add: walking_def)
    define d where "d = c + cell_advance wd (grapheme (Q ! c))"
    have d: "c < d" using cell_advance_bounds [of wd "grapheme (Q ! c)"] by (simp add: d_def)
    obtain out' where run: "diff_run wd p v r d (from_cell (Q ! c)) = (out', a', c')"
      and out: "out = apply_sgr_delta a (Q ! c) @ TText (grapheme (Q ! c)) # out'"
      using less.prems(4) unfolding run_step [OF cells sp] d_def [symmetric] by (auto split: prod.splits)
    define t where "t = host_run wd (apply_sgr_delta a (Q ! c) @ [TText (grapheme (Q ! c))]) s"
    note w = walk_cell [OF rows less.prems(1,2) c sp, folded t_def d_def]
    have "host_run wd out s = host_run wd out' t" by (simp add: out t_def)
    moreover have "walking wd rows P Q r c' a' (host_run wd out' t) \<and> others_kept r t (host_run wd out' t) \<and> d \<le> c' \<and> c' \<le> length Q"
      using less.hyps [OF _ w(1,2,4) run] d w(4) by auto
    ultimately show ?thesis using w(3) d others_kept_trans by auto
  qed
qed

text \<open>The outer loop ends, and the row then shows the new frame.\<close>

lemma row_walk_total:
  assumes rows: "rows_ok wd P Q" and pair: "row_pair p v r P Q"
  shows "walking wd rows P Q r c a s \<Longrightarrow> c \<le> length Q \<Longrightarrow>
    \<exists>out a'. diff_row wd p v r c a = Some (out, a') \<and> walking wd rows P Q r (length Q) a' (host_run wd out s)
      \<and> others_kept r s (host_run wd out s)"
proof (induction "length Q - c" arbitrary: c a s rule: less_induct)
  case less
  have cols: "vs_cols v = length Q" using pair by (simp add: row_pair_def)
  consider (stop) "c = length Q" | (same) "c < length Q" "P ! c = Q ! c" | (run) "c < length Q" "P ! c \<noteq> Q ! c"
    using less.prems(2) by linarith
  then show ?case
  proof cases
    case stop
    then show ?thesis using less.prems(1) cols by (subst diff_row.simps) simp
  next
    case same
    then have eq: "vs_cell p r c = vs_cell v r c" using pair by (simp add: row_pair_def)
    have "walking wd rows P Q r (c + 1) a s"
      using less.prems(1) same row_walk_skip by (simp add: walking_def)
    then show ?thesis using less.hyps [of "c + 1" a s] same(1) cols eq by (subst diff_row.simps) simp
  next
    case run
    then have neq: "vs_cell p r c \<noteq> vs_cell v r c" using pair by (simp add: row_pair_def)
    obtain out a' c' where r: "diff_run wd p v r c a = (out, a', c')" by (cases "diff_run wd p v r c a")
    define t where "t = host_cmd wd (cup r c) s"
    note m = walking_cup [OF less.prems(1) run(1), folded t_def]
    have w: "walking wd rows P Q r c' a' (host_run wd out t)" "others_kept r t (host_run wd out t)" "c < c'" "c' \<le> length Q"
      using run_walk [OF rows pair m(1,2) less.prems(2) r] run by simp_all
    obtain out' a'' where n: "diff_row wd p v r c' a' = Some (out', a'')"
      "walking wd rows P Q r (length Q) a'' (host_run wd out' (host_run wd out t))"
      "others_kept r (host_run wd out t) (host_run wd out' (host_run wd out t))"
      using less.hyps [OF diff_less_mono2 [OF w(3) run(1)] w(1,4)] by blast
    have "diff_row wd p v r c a = Some (cup r c # out @ out', a'')"
      using run(1) neq cols by (subst diff_row.simps) (simp add: r n(1))
    moreover have "others_kept r s (host_run wd out' (host_run wd out t))"
      using m(3) w(2) n(3) others_kept_trans by blast
    ultimately show ?thesis using n(2) by (simp add: t_def)
  qed
qed

end
