(* ===== verification/Diff_Frames.thy ===== *)
theory Diff_Frames
  imports Diff_Rows
begin

unbundle bit_operations_syntax

text \<open>
  Whole frames.  A terminal that shows the renderer's last frame shows the next one after its commands,
  whether the renderer compares the two or paints everything; and this goes on for any sequence of
  frames, resizes of the terminal and lost screens included.
\<close>

section \<open>Painting a row\<close>

lemma paint_step:
  "c < lim \<Longrightarrow> vs_cell v r c = Some x \<Longrightarrow> \<not> is_wide_spacer x \<Longrightarrow>
    paint_run wd v lim r c a = (let (out, a') = paint_run wd v lim r (c + cell_advance wd (grapheme x)) (from_cell x)
                                in (apply_sgr_delta a x @ TText (grapheme x) # out, a'))"
  by (subst paint_run.simps) auto

lemma paint_stop: "\<not> c < lim \<Longrightarrow> paint_run wd v lim r c a = ([], a)"
  by (subst paint_run.simps) simp

text \<open>The cells a row has after the screen was cleared.\<close>

abbreviation cleared_row :: "nat \<Rightarrow> cell list" where
  "cleared_row n \<equiv> replicate n default_cell"

lemma default_not_spacer [simp]: "\<not> is_wide_spacer default_cell"
  by (simp add: is_wide_spacer_def default_cell_def)

lemma default_not_wide: "width_ok wd \<Longrightarrow> \<not> is_wide wd default_cell"
  by (simp add: is_wide_def default_cell_def display_width_def width_ok_simps)

lemma shown_default [simp]: "shown_cell default_cell = default_cell"
  by (simp add: shown_cell_def) (simp add: cursor_cell_def shown_pen_def cursor_default_def default_cell_def from_cell_def attr_bits)

text \<open>A row the terminal can show at all.\<close>

definition row_fits :: "(rstr \<Rightarrow> nat) \<Rightarrow> cell list \<Rightarrow> bool" where
  "row_fits wd Q \<longleftrightarrow> pairs_ok wd Q \<and> list_all (cell_fits wd) Q"

lemma cleared_rows_ok:
  assumes w: "width_ok wd" and q: "row_fits wd Q"
  shows "rows_ok wd (cleared_row (length Q)) Q"
proof -
  have no: "False" if "Suc i < length Q" "is_wide_spacer (Q ! Suc i)" "default_cell = Q ! i" for i
    using pairs_okD(1) [of wd Q "Suc i"] that q default_not_wide [OF w] by (simp add: row_fits_def)
  have "spacers_follow (cleared_row (length Q)) Q"
    unfolding spacers_follow_def by (intro allI impI, elim conjE) (rule FalseE, rule no, auto)
  moreover have "pairs_ok wd (cleared_row (length Q))"
    using default_not_wide [OF w] by (intro pairs_okI) simp_all
  ultimately show ?thesis using w q by (simp add: rows_ok_def row_fits_def)
qed

lemma paint_walk:
  assumes w: "width_ok wd" and q: "row_fits wd Q" and v: "vs_cols v = length Q" "\<And>c. c < length Q \<Longrightarrow> vs_cell v r c = Some (Q ! c)"
  shows "walking wd rows (cleared_row (length Q)) Q r c a s \<Longrightarrow> cursor_at (length Q) r c s \<Longrightarrow> c \<le> length Q \<Longrightarrow>
    paint_run wd v (length Q) r c a = (out, a') \<Longrightarrow>
    walking wd rows (cleared_row (length Q)) Q r (length Q) a' (host_run wd out s) \<and> others_kept r s (host_run wd out s)"
proof (induction "length Q - c" arbitrary: c a s out rule: less_induct)
  case less
  note rows = cleared_rows_ok [OF w q]
  show ?case
  proof (cases "c < length Q")
    case False
    then show ?thesis using less.prems by (simp add: paint_stop)
  next
    case c: True
    have sp: "\<not> is_wide_spacer (Q ! c)"
    proof
      assume s: "is_wide_spacer (Q ! c)"
      then have wide: "0 < c" "is_wide wd (Q ! (c - 1))" using pairs_okD(1) [of wd Q c] q c by (simp_all add: row_fits_def)
      then have "cleared_row (length Q) ! (c - 1) = Q ! (c - 1)" using less.prems(1) by (simp add: walking_def row_walk_def)
      then show False using wide c default_not_wide [OF w] by simp
    qed
    define d where "d = c + cell_advance wd (grapheme (Q ! c))"
    have d: "c < d" using cell_advance_bounds [of wd "grapheme (Q ! c)"] by (simp add: d_def)
    obtain out' where run: "paint_run wd v (length Q) r d (from_cell (Q ! c)) = (out', a')"
      and out: "out = apply_sgr_delta a (Q ! c) @ TText (grapheme (Q ! c)) # out'"
      using less.prems(4) unfolding paint_step [OF c v(2) [OF c] sp] d_def [symmetric] by (auto split: prod.splits)
    define t where "t = host_run wd (apply_sgr_delta a (Q ! c) @ [TText (grapheme (Q ! c))]) s"
    note wk = walk_cell [OF rows less.prems(1,2) c sp, folded t_def d_def]
    have "host_run wd out s = host_run wd out' t" by (simp add: out t_def)
    moreover note less.hyps [OF diff_less_mono2 [OF d c] wk(1,2,4) run]
    ultimately show ?thesis using wk(3) others_kept_trans by auto
  qed
qed

section \<open>Frames\<close>

definition row_shown :: "screen \<Rightarrow> virtual_screen \<Rightarrow> nat \<Rightarrow> bool" where
  "row_shown s v r \<longleftrightarrow> host_row s r = map shown_cell (vs_row v r)"

text \<open>The terminal shows a frame: every cell of it.\<close>

definition frame_shown :: "screen \<Rightarrow> virtual_screen \<Rightarrow> bool" where
  "frame_shown s v \<longleftrightarrow> (\<forall>r<vs_rows v. row_shown s v r)"

definition frame_fits :: "(rstr \<Rightarrow> nat) \<Rightarrow> virtual_screen \<Rightarrow> bool" where
  "frame_fits wd v \<longleftrightarrow>
     width_ok wd \<and> vs_wf v \<and> vs_placements v = [] \<and> vs_virtual_placements v = []
     \<and> list_all (row_fits wd) (map (vs_row v) [0..<vs_rows v])"

definition frame_follows :: "virtual_screen \<Rightarrow> virtual_screen \<Rightarrow> bool" where
  "frame_follows p v \<longleftrightarrow> list_all (\<lambda>r. spacers_follow (vs_row p r) (vs_row v r)) [0..<vs_rows v]"

lemma frame_fits_row: "frame_fits wd v \<Longrightarrow> r < vs_rows v \<Longrightarrow> row_fits wd (vs_row v r) \<and> length (vs_row v r) = vs_cols v"
  by (simp add: frame_fits_def vs_row_length list_all_length)

text \<open>A terminal between two frames.\<close>

definition host_idle :: "nat \<Rightarrow> nat \<Rightarrow> screen \<Rightarrow> bool" where
  "host_idle rows cols s \<longleftrightarrow> host_ready rows cols s \<and> pen_is cell_attrs_default (cursor s)"

text \<open>The rows before \<open>k\<close> are painted, the others are as they were.\<close>

definition painted :: "virtual_screen \<Rightarrow> nat \<Rightarrow> cell_attrs \<Rightarrow> screen \<Rightarrow> screen \<Rightarrow> bool" where
  "painted v k a s t \<longleftrightarrow>
     host_ready (vs_rows v) (vs_cols v) t \<and> pen_is a (cursor t)
     \<and> (\<forall>r<k. row_shown t v r) \<and> (\<forall>r\<ge>k. host_row t r = host_row s r)"

lemma painted_row:
  assumes "painted v k a s t" "walking wd (vs_rows v) P (vs_row v k) k (length (vs_row v k)) a' u" "others_kept k t u"
    and "length (vs_row v k) = vs_cols v"
  shows "painted v (Suc k) a' s u"
proof -
  have k: "row_shown u v k" using assms(2) by (auto simp: walking_def row_shown_def dest: row_walk_end)
  have o: "host_row u r = host_row t r" if "r \<noteq> k" for r using assms(3) that by (simp add: others_kept_def)
  have "row_shown u v r" if "r < Suc k" for r
    using that k o assms(1) by (cases "r = k") (simp_all add: painted_def row_shown_def)
  moreover have "host_row u r = host_row s r" if "Suc k \<le> r" for r
    using that o assms(1) by (simp add: painted_def)
  ultimately show ?thesis using assms(2,4) by (simp add: painted_def walking_def)
qed

lemma painted_start: "host_idle (vs_rows v) (vs_cols v) s \<Longrightarrow> painted v 0 cell_attrs_default s s"
  by (simp add: painted_def host_idle_def)

text \<open>All rows of a comparison.\<close>

lemma diff_rows_paint:
  assumes fits: "frame_fits wd p" "frame_fits wd v" and dims: "vs_rows p = vs_rows v" "vs_cols p = vs_cols v"
    and follow: "frame_follows p v" and idle: "host_idle (vs_rows v) (vs_cols v) s" and sh: "frame_shown s p"
  shows "k \<le> vs_rows v \<Longrightarrow>
    \<exists>out a. foldl (\<lambda>acc r. Option.bind acc (\<lambda>(out, a). map_option (\<lambda>(o', a'). (out @ o', a')) (diff_row wd p v r 0 a)))
        (Some ([], cell_attrs_default)) [0..<k] = Some (out, a) \<and> painted v k a s (host_run wd out s)"
proof (induction k)
  case 0
  then show ?case using painted_start [OF idle] by simp
next
  case (Suc k)
  obtain out a where IH: "foldl (\<lambda>acc r. Option.bind acc (\<lambda>(out, a). map_option (\<lambda>(o', a'). (out @ o', a')) (diff_row wd p v r 0 a)))
        (Some ([], cell_attrs_default)) [0..<k] = Some (out, a)" and pt: "painted v k a s (host_run wd out s)"
    using Suc by auto
  define t where "t = host_run wd out s"
  have k: "k < vs_rows v" "k < vs_rows p" using Suc.prems dims by simp_all
  have wf: "vs_wf p" "vs_wf v" using fits by (simp_all add: frame_fits_def)
  have rp: "row_fits wd (vs_row p k)" "length (vs_row p k) = vs_cols v"
    and rv: "row_fits wd (vs_row v k)" "length (vs_row v k) = vs_cols v"
    using frame_fits_row [OF fits(1) k(2)] frame_fits_row [OF fits(2) k(1)] dims by simp_all
  have rows: "rows_ok wd (vs_row p k) (vs_row v k)"
    using fits rp rv follow k(1) by (simp add: rows_ok_def row_fits_def frame_fits_def frame_follows_def list_all_length)
  have pair: "row_pair p v k (vs_row p k) (vs_row v k)"
    using vs_cell_row [OF wf(1) k(2)] vs_cell_row [OF wf(2) k(1)] rv(2) dims by (simp add: row_pair_def)
  have "host_row t k = map shown_cell (vs_row p k)"
    using pt sh k by (simp add: painted_def t_def frame_shown_def row_shown_def)
  then have walk: "walking wd (vs_rows v) (vs_row p k) (vs_row v k) k 0 a t"
    using pt row_walk_start [OF rows] k(1) rv(2) by (simp add: walking_def painted_def t_def)
  obtain o' a' where r: "diff_row wd p v k 0 a = Some (o', a')"
    "walking wd (vs_rows v) (vs_row p k) (vs_row v k) k (length (vs_row v k)) a' (host_run wd o' t)"
    "others_kept k t (host_run wd o' t)"
    using row_walk_total [OF rows pair walk] by auto
  have "painted v (Suc k) a' s (host_run wd (out @ o') s)"
    using painted_row [OF pt, folded t_def, OF r(2,3) rv(2)] by (simp add: t_def)
  then show ?case using IH r(1) by simp
qed

text \<open>All rows of a full repaint, from a cleared screen.\<close>

lemma paint_rows:
  assumes fits: "frame_fits wd v" and idle: "host_idle (vs_rows v) (vs_cols v) s"
    and blank: "\<And>r. r < vs_rows v \<Longrightarrow> host_row s r = cleared_row (vs_cols v)"
  shows "k \<le> vs_rows v \<Longrightarrow>
    \<exists>out a. foldl (\<lambda>(out, a) r. let (o', a') = paint_run wd v (vs_cols v) r 0 a in (out @ cup r 0 # o', a'))
        ([], cell_attrs_default) [0..<k] = (out, a) \<and> painted v k a s (host_run wd out s)"
proof (induction k)
  case 0
  then show ?case using painted_start [OF idle] by simp
next
  case (Suc k)
  obtain out a where IH: "foldl (\<lambda>(out, a) r. let (o', a') = paint_run wd v (vs_cols v) r 0 a in (out @ cup r 0 # o', a'))
        ([], cell_attrs_default) [0..<k] = (out, a)" and pt: "painted v k a s (host_run wd out s)"
    using Suc by auto
  define t where "t = host_run wd out s"
  have k: "k < vs_rows v" using Suc.prems by simp
  have wf: "vs_wf v" and w: "width_ok wd" using fits by (simp_all add: frame_fits_def)
  have rv: "row_fits wd (vs_row v k)" "length (vs_row v k) = vs_cols v" using frame_fits_row [OF fits k] by simp_all
  have cell: "vs_cell v k c = Some (vs_row v k ! c)" if "c < length (vs_row v k)" for c
    using vs_cell_row [OF wf k] that rv(2) by simp
  have "host_row t k = map shown_cell (cleared_row (vs_cols v))"
    using pt blank [OF k] by (simp add: painted_def t_def)
  then have walk: "walking wd (vs_rows v) (cleared_row (length (vs_row v k))) (vs_row v k) k 0 a t"
    using pt row_walk_start [OF cleared_rows_ok [OF w rv(1)]] k rv(2) by (simp add: walking_def painted_def t_def)
  have "0 < length (vs_row v k)" using wf rv(2) by (simp add: vs_wf_def)
  note m = walking_cup [OF walk this]
  obtain o' a' where p: "paint_run wd v (length (vs_row v k)) k 0 a = (o', a')" by (cases "paint_run wd v (length (vs_row v k)) k 0 a")
  have p': "paint_run wd v (vs_cols v) k 0 a = (o', a')" using p rv(2) by simp
  note q = paint_walk [OF w rv(1) rv(2) [symmetric] cell m(1,2) le0 p]
  have "painted v (Suc k) a' s (host_run wd o' (host_cmd wd (cup k 0) t))"
    using painted_row [OF pt, folded t_def, OF _ others_kept_trans [OF m(3)] rv(2)] q by blast
  then show ?case using IH p' by (simp add: t_def)
qed

section \<open>Clearing the screen and the cursor\<close>

definition clear_cmds :: "term_cmd list" where
  "clear_cmds = [TCsi [[2]] [] (CHR ''J''), TCsi [] [] (CHR ''H'')]"

lemma m_origin_visible [simp]:
  "m_contains (m_insert M_CURSOR_VISIBLE m) M_ORIGIN = m_contains m M_ORIGIN"
  "m_contains (m_remove M_CURSOR_VISIBLE m) M_ORIGIN = m_contains m M_ORIGIN"
  by (rule m_contains_other, simp add: mode_bits)+

lemma host_clear:
  fixes wd :: "rstr \<Rightarrow> nat"
  assumes "host_idle rows cols s"
  defines "t \<equiv> host_run wd clear_cmds s"
  shows "host_idle rows cols t" "r < rows \<Longrightarrow> host_row t r = cleared_row cols"
proof -
  have ready: "host_ready rows cols s" "pen_is cell_attrs_default (cursor s)" using assms(1) by (simp_all add: host_idle_def)
  define u where "u = host_cmd wd (TCsi [[2]] [] (CHR ''J'')) s"
  have u: "u = s\<lparr>last_graphic := None, active := grid_clear (active s), cursor := (cursor s)\<lparr>pending_wrap := False\<rparr>\<rparr>"
    by (simp add: u_def handle_csi_def csi_ed_def param_or_def param_def nth_opt_def head_opt_def set_wrap_def upd_cur_def Let_def)
  have dims: "length (g_rows (grid_clear (active s))) = rows" "g_cols (grid_clear (active s)) = cols"
    using ready(1) by (simp_all add: host_ready_def grid_clear_def)
  have t: "active t = grid_clear (active s)" "modes t = modes s" "active_charset t = active_charset s"
    "\<exists>r c b. cursor t = (cursor s)\<lparr>row := r, col := c, pending_wrap := b\<rparr>"
    unfolding t_def clear_cmds_def host_run_simps u_def [symmetric]
    by (auto simp: u handle_csi_def csi_cup_def set_wrap_def set_col_def set_row_def upd_cur_def Let_def active_charset_def)
  have "screen_wf t" unfolding t_def by (rule host_run_wf) (use ready in \<open>simp add: host_ready_def\<close>)
  then have "host_ready rows cols t" using ready(1) dims by (simp add: host_ready_def t(1-3))
  moreover have "pen_is cell_attrs_default (cursor t)"
  proof -
    obtain r c b where "cursor t = (cursor s)\<lparr>row := r, col := c, pending_wrap := b\<rparr>" using t(4) by blast
    then show ?thesis using ready(2) by (simp add: pen_is_moved)
  qed
  ultimately show "host_idle rows cols t" by (simp add: host_idle_def)
  show "host_row t r = cleared_row cols" if "r < rows"
  proof -
    have g: "grid_wf (active s)" "r < length (g_rows (active s))" "g_cols (active s) = cols"
      using ready(1) that by (simp_all add: host_ready_def screen_wf_def)
    then have "length (cells (g_rows (active s) ! r)) = cols" by (simp add: grid_wf_def)
    then show ?thesis using g(2) by (simp add: host_row_def t(1) grid_clear_def clear_grid_row_def map_replicate_const)
  qed
qed

text \<open>The cursor the frame asks for.\<close>

definition cursor_shown :: "screen \<Rightarrow> virtual_screen \<Rightarrow> bool" where
  "cursor_shown s v \<longleftrightarrow>
     (case (if vs_cursor_visible v then vs_cursor v else None) of
        Some (r, c) \<Rightarrow> row (cursor s) = r \<and> col (cursor s) = c \<and> m_contains (modes s) M_CURSOR_VISIBLE
      | None \<Rightarrow> \<not> m_contains (modes s) M_CURSOR_VISIBLE)"

definition cursor_fits :: "virtual_screen \<Rightarrow> bool" where
  "cursor_fits v \<longleftrightarrow> (case vs_cursor v of None \<Rightarrow> True | Some (r, c) \<Rightarrow> r < vs_rows v \<and> c < vs_cols v)"

lemma host_visible:
  "host_cmd wd (TCsi [[25]] ''?'' (CHR ''h'')) s = s\<lparr>last_graphic := None, modes := m_insert M_CURSOR_VISIBLE (modes s)\<rparr>"
  "host_cmd wd (TCsi [[25]] ''?'' (CHR ''l'')) s = s\<lparr>last_graphic := None, modes := m_remove M_CURSOR_VISIBLE (modes s)\<rparr>"
  by (simp_all add: handle_csi_def set_mode_def head_opt_def set_dec_private_mode_def private_mode_flag_def set_flag_def Let_def)

definition style_cmds :: "nat \<Rightarrow> nat option \<Rightarrow> term_cmd list" where
  "style_cmds ps sent = (if sent \<noteq> Some ps then [TCsi [[ps]] '' '' (CHR ''q'')] else [])"

lemma host_style:
  fixes s ps sent and wd :: "rstr \<Rightarrow> nat"
  defines "t \<equiv> host_run wd (style_cmds ps sent) s"
  shows "active t = active s" "modes t = modes s" "active_charset t = active_charset s"
    "\<exists>sh bl. cursor t = (cursor s)\<lparr>shape := sh, blink := bl\<rparr>"
proof -
  have q: "\<exists>sh bl. csi_q [[ps]] '' '' u = u\<lparr>cursor := (cursor u)\<lparr>shape := sh, blink := bl\<rparr>\<rparr>" for u
    unfolding csi_q_def upd_cur_def Let_def head_opt_def list.sel list.case by (simp only: char.inject if_False if_True option.inject simp_thms) (rule exI, rule exI, rule refl)
  obtain sh bl where q: "csi_q [[ps]] '' '' (s\<lparr>last_graphic := None\<rparr>) =
      (s\<lparr>last_graphic := None\<rparr>)\<lparr>cursor := (cursor (s\<lparr>last_graphic := None\<rparr>))\<lparr>shape := sh, blink := bl\<rparr>\<rparr>"
    using q by blast
  have csi: "handle_csi wd [[ps]] '' '' (CHR ''q'') s = csi_q [[ps]] '' '' (s\<lparr>last_graphic := None\<rparr>)"
    by (simp add: handle_csi_def)
  have "cursor s = (cursor s)\<lparr>shape := shape (cursor s), blink := blink (cursor s)\<rparr>" by simp
  then have same: "\<exists>sh bl. cursor s = (cursor s)\<lparr>shape := sh, blink := bl\<rparr>" by (intro exI)
  have "t = s \<or> t = (s\<lparr>last_graphic := None\<rparr>)\<lparr>cursor := (cursor (s\<lparr>last_graphic := None\<rparr>))\<lparr>shape := sh, blink := bl\<rparr>\<rparr>"
    unfolding t_def style_cmds_def using csi [unfolded q] by (cases "sent = Some ps") simp_all
  then have "active t = active s \<and> modes t = modes s \<and> active_charset t = active_charset s \<and>
    (\<exists>sh bl. cursor t = (cursor s)\<lparr>shape := sh, blink := bl\<rparr>)"
  proof
    assume "t = s"
    then show ?thesis using same by (simp only: simp_thms)
  next
    assume t: "t = (s\<lparr>last_graphic := None\<rparr>)\<lparr>cursor := (cursor (s\<lparr>last_graphic := None\<rparr>))\<lparr>shape := sh, blink := bl\<rparr>\<rparr>"
    have "cursor t = (cursor s)\<lparr>shape := sh, blink := bl\<rparr>" by (simp add: t)
    then show ?thesis by (simp add: t) blast
  qed
  then show "active t = active s" "modes t = modes s" "active_charset t = active_charset s"
    "\<exists>sh bl. cursor t = (cursor s)\<lparr>shape := sh, blink := bl\<rparr>" by blast+
qed

lemma pen_reset_is: "hyperlink_id k = None \<Longrightarrow> pen_is cell_attrs_default (sgr_on [[0]] k)"
  by (simp add: pen_is_def pen_reset shown_pen_def cell_attrs_default_def attr_bits)

text \<open>The end of a frame: the cursor, its style and the reset.\<close>

lemma host_finish:
  fixes wd :: "rstr \<Rightarrow> nat" and ps :: nat and sent :: "nat option"
  assumes ready: "host_ready (vs_rows v) (vs_cols v) s" and link: "hyperlink_id (cursor s) = None" and fits: "cursor_fits v"
  defines "t \<equiv> host_run wd (cursor_cmds v @ style_cmds ps sent @ [sgr [[0]]]) s"
  shows "host_idle (vs_rows v) (vs_cols v) t" "host_row t r = host_row s r" "cursor_shown t v"
proof -
  define a where "a = host_run wd (cursor_cmds v) s"
  have a: "active a = active s" "active_charset a = active_charset s" "hyperlink_id (cursor a) = None"
    "\<not> m_contains (modes a) M_ORIGIN" "cursor_shown a v"
  proof -
    have o: "\<not> m_contains (modes s) M_ORIGIN" using ready by (simp add: host_ready_def)
    have v: "M_CURSOR_VISIBLE \<noteq> 0" by (simp add: mode_bits)
    note cup = host_cup [OF ready]
    show "active a = active s" "active_charset a = active_charset s" "hyperlink_id (cursor a) = None"
      "\<not> m_contains (modes a) M_ORIGIN" "cursor_shown a v"
      using fits link o v unfolding a_def cursor_cmds_def cursor_fits_def cursor_shown_def
      by (auto simp: cup host_visible active_charset_def simp del: host_cmd.simps split: option.splits prod.splits)
  qed
  define b where "b = host_run wd (style_cmds ps sent) a"
  note style = host_style [where wd = wd and ps = ps and sent = sent and s = a, folded b_def]
  obtain sh bl where b: "cursor b = (cursor a)\<lparr>shape := sh, blink := bl\<rparr>" using style(4) by blast
  have t: "active t = active a" "active_charset t = active_charset a" "modes t = modes a"
    "cursor t = sgr_on [[0]] ((cursor a)\<lparr>shape := sh, blink := bl\<rparr>)"
    unfolding t_def host_run_simps a_def [symmetric] b_def [symmetric] host_sgr
    by (simp_all add: style(1-3) b)
  have wf: "screen_wf t" unfolding t_def by (rule host_run_wf) (use ready in \<open>simp add: host_ready_def\<close>)
  show "host_idle (vs_rows v) (vs_cols v) t"
    using wf ready a t pen_reset_is by (simp add: host_idle_def host_ready_def)
  show "host_row t r = host_row s r" by (simp add: host_row_def t a)
  have "row (cursor t) = row (cursor a)" "col (cursor t) = col (cursor a)" by (simp_all add: t pen_reset)
  then show "cursor_shown t v" using a(5) by (simp only: cursor_shown_def t(3))
qed

section \<open>A renderer that has sent no images\<close>

definition no_images :: "diff_renderer \<Rightarrow> bool" where
  "no_images rd \<longleftrightarrow>
     dr_transmitted rd = Map.empty \<and> dr_transmitted_virtual rd = Map.empty \<and> dr_placed rd = Map.empty
     \<and> dr_boxed rd = Map.empty \<and> dr_virtual_placed rd = Map.empty \<and> dr_placed_data rd = Map.empty
     \<and> dr_last_frame_seq rd = Map.empty \<and> dr_last_anim_sent rd = Map.empty"

lemma forget_nothing: "no_images rd \<Longrightarrow> forget_images rd = rd"
  by (cases rd) (simp add: no_images_def forget_images_def)

lemma drop_nothing: "no_images rd \<Longrightarrow> drop_images rd = []"
  by (simp add: no_images_def drop_images_def)

lemma fold_idle: "(\<And>k. k \<in> set ks \<Longrightarrow> f k st = st) \<Longrightarrow> fold f ks st = st"
  by (induction ks) simp_all

lemma kitty_nothing:
  "no_images rd \<Longrightarrow> vs_placements v = [] \<Longrightarrow> render_kitty_placements ord v (rd, out) = (rd, out)"
  by (simp add: render_kitty_placements_def delete_gone_def Let_def no_images_def fold_idle)

lemma virtual_nothing:
  "no_images rd \<Longrightarrow> vs_virtual_placements v = [] \<Longrightarrow> render_virtual_placements ord v (rd, out) = (rd, out)"
  by (simp add: render_virtual_placements_def delete_gone_virtual_def Let_def no_images_def fold_idle)

lemma stale_nothing: "stale_rects ord v Map.empty = []"
  by (simp add: stale_rects_def List.map_filter_def)

lemma overlay_nothing:
  assumes "no_images rd" "vs_placements v = []"
  shows "render_overlay_placements wd seg ord v (rd, out) = (rd, out)"
proof -
  have "render_overlay_placements wd seg ord v (rd, out) = (rd\<lparr>dr_boxed := Map.empty, dr_placed_data := Map.empty\<rparr>, out)"
    using assms by (simp add: render_overlay_placements_def Let_def no_images_def stale_nothing)
  also have "rd\<lparr>dr_boxed := Map.empty, dr_placed_data := Map.empty\<rparr> = rd"
    using assms(1) by (cases rd) (simp add: no_images_def)
  finally show ?thesis .
qed

text \<open>What \<open>render\<close> returns then: the cells, the cursor, its style and the reset.\<close>

lemma render_cells:
  assumes quiet: "no_images rd" and v: "vs_placements v = []" "vs_virtual_placements v = []"
    and cs: "cell_cmds wd rd v = Some cs"
  shows "\<exists>rd'. render wd seg ord v rd = Some (rd', cs @ cursor_cmds v @ style_cmds (decscusr_ps (vs_cursor_style v)) (dr_last_cursor_ps rd) @ [sgr [[0]]])
    \<and> no_images rd' \<and> dr_previous rd' = Some v"
proof -
  define rd1 where "rd1 = rd\<lparr>dr_reset_images := False\<rparr>"
  define rd2 where "rd2 = (if dr_reset_images rd then rd1 else rd)"
  have q: "no_images rd2" using quiet by (simp add: rd2_def rd1_def no_images_def)
  have p: "dr_previous rd2 = dr_previous rd" "dr_last_cursor_ps rd2 = dr_last_cursor_ps rd"
    by (simp_all add: rd2_def rd1_def)
  then have "cell_cmds wd rd2 v = cell_cmds wd rd v" by (simp only: cell_cmds_def needs_full_repaint_def)
  then have n: "cell_cmds wd rd2 v = Some cs" by (simp only: cs)
  define ps where "ps = decscusr_ps (vs_cursor_style v)"
  define rd3 where "rd3 = (if dr_last_cursor_ps rd \<noteq> Some ps then rd2\<lparr>dr_last_cursor_ps := Some ps\<rparr> else rd2)"
  have h1: "(if dr_reset_images rd then ((forget_images rd)\<lparr>dr_reset_images := False\<rparr>, drop_images rd) else (rd, [])) = (rd2, [])"
    by (simp add: forget_nothing [OF quiet] drop_nothing [OF quiet] rd2_def rd1_def)
  have h2: "(if needs_full_repaint rd2 v then (forget_images rd2, [] @ drop_images rd2) else (rd2, [])) = (rd2, [])"
    by (simp add: forget_nothing [OF q] drop_nothing [OF q])
  have r: "render wd seg ord v rd = Some (rd3\<lparr>dr_previous := Some v\<rparr>, cs @ cursor_cmds v @ style_cmds ps (dr_last_cursor_ps rd) @ [sgr [[0]]])"
    unfolding render_def h1 Let_def prod.case h2
    unfolding n option.case append_Nil prod.case kitty_nothing [OF q v(1)]
      virtual_nothing [OF q v(2)] overlay_nothing [OF q v(1)]
    by (simp add: style_cmds_def rd3_def p(2) flip: ps_def)
  have "no_images (rd3\<lparr>dr_previous := Some v\<rparr>)" using q by (simp add: rd3_def no_images_def)
  then show ?thesis using r by (simp add: ps_def)
qed

end
