(* ===== verification/Copy_Mode.thy ===== *)
theory Copy_Mode
  imports Selection Mouse Finder
begin

unbundle bit_operations_syntax

text \<open>
  Copy mode, after \<open>crates/mux/src/copy_mode.rs\<close>: the cursor and the selection over the scrollback and
  the grid, scrolling, search, and the text yanked.  A line is an index of the unified line space.
  Sums of \<open>u32\<close> and \<open>u16\<close> that the code does not saturate wrap.  \<open>handle_copy_mode\<close> returns \<open>None\<close>
  where the code would index a list out of range.
\<close>

section \<open>State\<close>

record match_span =
  ms_line_idx :: nat
  ms_col_start :: nat
  ms_col_end :: nat

record search_state =
  ss_query :: rstr
  ss_matches :: "match_span list"
  ss_current :: nat
  ss_prompt_active :: bool
  ss_prompt_buf :: rstr

record copy_mode =
  cm_cursor :: "nat \<times> nat"
  cm_anchor :: "(nat \<times> nat) option"
  cm_search :: search_state
  cm_viewport_top :: nat
  cm_pane_rows :: nat
  cm_total_lines :: nat

datatype copy_mode_action = CmRender | CmExit | CmYank rstr

definition search_default :: search_state where
  "search_default = \<lparr>ss_query = [], ss_matches = [], ss_current = 0, ss_prompt_active = False, ss_prompt_buf = []\<rparr>"

definition cm_new :: "nat \<Rightarrow> nat \<Rightarrow> nat \<Rightarrow> nat \<Rightarrow> copy_mode" where
  "cm_new lines pane_rows start_line start_col =
     \<lparr>cm_cursor = (min start_line (lines - 1), start_col), cm_anchor = None, cm_search = search_default,
      cm_viewport_top = lines - pane_rows, cm_pane_rows = pane_rows, cm_total_lines = lines\<rparr>"

definition cm_upd_search :: "(search_state \<Rightarrow> search_state) \<Rightarrow> copy_mode \<Rightarrow> copy_mode" where
  "cm_upd_search f st = st\<lparr>cm_search := f (cm_search st)\<rparr>"

section \<open>Lines\<close>

text \<open>\<open>unified_line_cells\<close>: the cells of a line.\<close>

definition unified_line_cells :: "screen \<Rightarrow> nat \<Rightarrow> cell list option" where
  "unified_line_cells s line =
     (let sb = sb_rows (scrollback s); n = as_u32 (length sb)
      in if line < n then map_option cells (nth_opt sb line)
         else map_option cells (nth_opt (g_rows (active s)) (line - n)))"

definition ensure_visible :: "copy_mode \<Rightarrow> copy_mode" where
  "ensure_visible st =
     (let line = fst (cm_cursor st); page = cm_pane_rows st - 1;
          st = (if line < cm_viewport_top st then st\<lparr>cm_viewport_top := line\<rparr> else st)
      in if line > wadd32 (cm_viewport_top st) page then st\<lparr>cm_viewport_top := line - page\<rparr> else st)"

definition cm_go :: "nat \<Rightarrow> nat \<Rightarrow> copy_mode \<Rightarrow> copy_mode" where
  "cm_go line c st = ensure_visible (st\<lparr>cm_cursor := (line, c)\<rparr>)"

section \<open>Selection\<close>

definition select_word_at_cursor :: "(nat \<Rightarrow> bool) \<Rightarrow> screen \<Rightarrow> copy_mode \<Rightarrow> copy_mode" where
  "select_word_at_cursor alnum s st =
     (let (line, c) = cm_cursor st
      in case unified_line_cells s line of
           None \<Rightarrow> st
         | Some cs \<Rightarrow>
             (let cols = length cs;
                  is_word = (\<lambda>c. case nth_opt cs c of Some cl \<Rightarrow> is_word_char alnum (grapheme cl) | None \<Rightarrow> False);
                  is_spacer = (\<lambda>c. case nth_opt cs c of Some cl \<Rightarrow> is_wide_spacer cl | None \<Rightarrow> False)
              in if c \<ge> cols then st
                 else (let c = (if c > 0 \<and> is_spacer c then c - 1 else c)
                       in if \<not> is_word c then st
                          else st\<lparr>cm_anchor := Some (line, as_u16 (word_left is_word is_spacer c)),
                                  cm_cursor := (line, as_u16 (word_right is_word is_spacer cols
                                    (if c + 1 < cols \<and> is_spacer (c + 1) then c + 1 else c)))\<rparr>)))"

definition select_line_at_cursor :: "screen \<Rightarrow> copy_mode \<Rightarrow> copy_mode" where
  "select_line_at_cursor s st =
     (let line = fst (cm_cursor st)
      in case unified_line_cells s line of
           None \<Rightarrow> st
         | Some cs \<Rightarrow>
             (case filter (\<lambda>i. \<not> is_blank (cs ! i)) [0..<length cs] of
                [] \<Rightarrow> st
              | is \<Rightarrow> st\<lparr>cm_anchor := Some (line, 0), cm_cursor := (line, as_u16 (last is))\<rparr>))"

text \<open>The order of positions, lines first.\<close>

definition pos_le :: "nat \<times> nat \<Rightarrow> nat \<times> nat \<Rightarrow> bool" where
  "pos_le a b \<longleftrightarrow> fst a < fst b \<or> (fst a = fst b \<and> snd a \<le> snd b)"

definition cm_normalize :: "nat \<times> nat \<Rightarrow> nat \<times> nat \<Rightarrow> (nat \<times> nat) \<times> nat \<times> nat" where
  "cm_normalize a b = (if pos_le a b then (a, b) else (b, a))"

text \<open>The text of the columns of one line, without the blanks at its end.\<close>

definition cells_text :: "cell list \<Rightarrow> nat \<Rightarrow> nat \<Rightarrow> rstr" where
  "cells_text cs row_start row_end =
     (let last_significant = foldl (\<lambda>acc i. case nth_opt cs i of Some cl \<Rightarrow> if \<not> is_blank cl then i else acc | None \<Rightarrow> acc)
            row_start [row_start..<row_end + 1]
      in concat (map (\<lambda>i. case nth_opt cs i of
             Some cl \<Rightarrow> if is_wide_spacer cl then [] else grapheme cl
           | None \<Rightarrow> []) [row_start..<last_significant + 1]))"

definition extract_selection :: "copy_mode \<Rightarrow> screen \<Rightarrow> rstr" where
  "extract_selection st s =
     (let cols = num_cols (active s);
          (a, b) = (case cm_anchor st of
                      Some anchor \<Rightarrow> cm_normalize anchor (cm_cursor st)
                    | None \<Rightarrow> ((fst (cm_cursor st), 0), (fst (cm_cursor st), cols - 1)))
      in concat (map (\<lambda>line.
           (case unified_line_cells s line of
              None \<Rightarrow> []
            | Some cs \<Rightarrow>
                cells_text cs (if line = fst a then snd a else 0) (if line = fst b then snd b else cols - 1)
                @ (if line < fst b then [10] else []))) [fst a..<fst b + 1]))"

section \<open>The mouse\<close>

definition cm_handle_mouse ::
    "(nat \<Rightarrow> bool) \<Rightarrow> mouse_event \<Rightarrow> nat \<Rightarrow> screen \<Rightarrow> copy_mode \<Rightarrow> copy_mode \<times> copy_mode_action" where
  "cm_handle_mouse alnum ev click_count s st =
     (let line = min (sadd32 (cm_viewport_top st) (me_row ev)) (cm_total_lines st - 1)
      in (case (me_kind ev, me_button ev) of
            (MKPress, MBLeft) \<Rightarrow>
              (let st = st\<lparr>cm_cursor := (line, me_col ev), cm_anchor := Some (line, me_col ev)\<rparr>
               in if click_count \<ge> 3 then select_line_at_cursor s st
                  else if click_count = 2 then select_word_at_cursor alnum s st else st)
          | (MKMove, MBLeft) \<Rightarrow>
              (let st = (if cm_anchor st = None then st\<lparr>cm_anchor := Some (cm_cursor st)\<rparr> else st)
               in st\<lparr>cm_cursor := (line, me_col ev)\<rparr>)
          | (MKWheel delta AxisVertical, _) \<Rightarrow>
              (if delta > 0 then st\<lparr>cm_viewport_top := cm_viewport_top st - nat delta\<rparr>
               else st\<lparr>cm_viewport_top := min (wadd32 (cm_viewport_top st) (nat (- delta)))
                      (cm_total_lines st - cm_pane_rows st)\<rparr>)
          | _ \<Rightarrow> st, CmRender))"

section \<open>A resize\<close>

definition set_pane_rows :: "nat \<Rightarrow> nat \<Rightarrow> copy_mode \<Rightarrow> copy_mode" where
  "set_pane_rows pane_rows lines st =
     (let st = st\<lparr>cm_pane_rows := pane_rows, cm_total_lines := lines\<rparr>;
          st = (if fst (cm_cursor st) \<ge> lines then st\<lparr>cm_cursor := (lines - 1, snd (cm_cursor st))\<rparr> else st);
          st = (case cm_anchor st of
                  Some (line, c) \<Rightarrow> if line \<ge> lines then st\<lparr>cm_anchor := Some (lines - 1, c)\<rparr> else st
                | None \<Rightarrow> st);
          max_top = lines - pane_rows
      in if cm_viewport_top st > max_top then st\<lparr>cm_viewport_top := max_top\<rparr> else st)"

section \<open>Search\<close>

text \<open>\<open>str::find\<close>; positions count characters where the code counts bytes.\<close>

fun str_find :: "rstr \<Rightarrow> rstr \<Rightarrow> nat option" where
  "str_find q t =
     (case strip_prefix q t of
        Some _ \<Rightarrow> Some 0
      | None \<Rightarrow> (case t of [] \<Rightarrow> None | _ # t' \<Rightarrow> map_option Suc (str_find q t')))"

definition occurs_at :: "rstr \<Rightarrow> rstr \<Rightarrow> nat \<Rightarrow> bool" where
  "occurs_at q t i \<longleftrightarrow> i + length q \<le> length t \<and> take (length q) (drop i t) = q"

lemma strip_prefix_occurs: "(\<exists>r. strip_prefix q t = Some r) \<longleftrightarrow> occurs_at q t 0"
proof -
  have "(\<exists>r. t = q @ r) \<longleftrightarrow> length q \<le> length t \<and> take (length q) t = q"
    by (metis append_eq_conv_conj append_take_drop_id length_append le_add1)
  then show ?thesis by (simp add: strip_prefix_Some occurs_at_def)
qed

lemma occurs_at_Suc [simp]: "occurs_at q (x # t) (Suc i) = occurs_at q t i"
  by (simp add: occurs_at_def)

declare str_find.simps [simp del]

text \<open>\<open>str_find\<close> finds the first occurrence.\<close>

lemma str_find_spec:
  "str_find q t = (if \<exists>i. occurs_at q t i then Some (LEAST i. occurs_at q t i) else None)"
proof (induction q t rule: str_find.induct)
  case (1 q t)
  show ?case
  proof (cases "occurs_at q t 0")
    case True
    then obtain r where "strip_prefix q t = Some r" using strip_prefix_occurs by blast
    moreover have "(LEAST i. occurs_at q t i) = 0" using True by (simp add: Least_eq_0)
    ultimately show ?thesis using True by (subst str_find.simps) auto
  next
    case False
    then have s: "strip_prefix q t = None" using strip_prefix_occurs by fastforce
    show ?thesis
    proof (cases t)
      case Nil
      have "\<not> occurs_at q t i" for i using False by (simp add: occurs_at_def Nil)
      then show ?thesis using s Nil by (subst str_find.simps) simp
    next
      case (Cons x t')
      have ex: "(\<exists>i. occurs_at q t i) \<longleftrightarrow> (\<exists>i. occurs_at q t' i)"
        using False unfolding Cons by (metis not0_implies_Suc occurs_at_Suc)
      have "(LEAST i. occurs_at q t i) = Suc (LEAST i. occurs_at q t' i)" if "\<exists>i. occurs_at q t' i"
      proof -
        obtain i where "occurs_at q (x # t') (Suc i)" using \<open>\<exists>i. occurs_at q t' i\<close> by auto
        then show ?thesis using Least_Suc [of "occurs_at q (x # t')" "Suc i"] False Cons by simp
      qed
      then show ?thesis using 1 s Cons ex by (subst str_find.simps) auto
    qed
  qed
qed

lemma str_find_Some:
  assumes "str_find q t = Some i"
  shows "occurs_at q t i" "\<And>j. j < i \<Longrightarrow> \<not> occurs_at q t j"
  using assms by (auto simp: str_find_spec split: if_splits intro: LeastI dest: not_less_Least)

lemma str_find_None: "str_find q t = None \<longleftrightarrow> (\<forall>i. \<not> occurs_at q t i)"
  by (simp add: str_find_spec)

text \<open>The text of a line, and for each glyph where it starts in the text and in the grid.\<close>

definition line_starts :: "cell list \<Rightarrow> rstr \<times> (nat \<times> nat) list" where
  "line_starts cs =
     (let (text, starts, grid_col) =
        foldl (\<lambda>(text, starts, grid_col) c.
           if is_wide_spacer c then (text, starts, grid_col + 1)
           else (text @ grapheme c, starts @ [(length text, grid_col)], grid_col + 1)) ([], [], 0) cs
      in (text, starts))"

function occurrences :: "rstr \<Rightarrow> rstr \<Rightarrow> nat \<Rightarrow> nat list" where
  "occurrences q text start =
     (if q = [] then []
      else case str_find q (drop start text) of
             None \<Rightarrow> []
           | Some idx \<Rightarrow> (start + idx) # occurrences q text (start + idx + length q))"
  by pat_completeness auto
termination
proof (relation "measure (\<lambda>(q, text, start). length text - start)", goal_cases)
  case (2 q t start idx)
  have "0 < length q" using 2(1) by simp
  moreover have "idx + length q \<le> length t - start" using str_find_Some(1) [OF 2(2)] by (simp add: occurs_at_def)
  ultimately have "length t - (start + idx + length q) < length t - start" by linarith
  then show ?case by simp
qed simp

declare occurrences.simps [simp del]

definition find_matches :: "(rstr \<Rightarrow> nat) \<Rightarrow> screen \<Rightarrow> rstr \<Rightarrow> match_span list" where
  "find_matches wd s query =
     (if query = [] then []
      else (let cols = num_cols (active s);
                lines = wadd32 (as_u32 (length (sb_rows (scrollback s)))) (num_rows (active s));
                span = max (display_width wd query) 1
            in concat (map (\<lambda>line.
                 (case unified_line_cells s line of
                    None \<Rightarrow> []
                  | Some cs \<Rightarrow>
                      (let (text, starts) = line_starts cs
                       in map (\<lambda>off.
                            (let col_start = (case find (\<lambda>(b, _). b \<le> off) (rev starts) of
                                                Some (_, gc) \<Rightarrow> gc | None \<Rightarrow> 0)
                             in \<lparr>ms_line_idx = line, ms_col_start = col_start,
                                 ms_col_end = min (sadd16 col_start (span - 1)) (cols - 1)\<rparr>))
                            (occurrences query text 0)))) [0..<lines])))"

definition jump_to_match :: "nat \<Rightarrow> copy_mode \<Rightarrow> copy_mode option" where
  "jump_to_match i st =
     Option.bind (nth_opt (ss_matches (cm_search st)) i) (\<lambda>m.
       Some (cm_go (ms_line_idx m) (ms_col_start m) (cm_upd_search (\<lambda>x. x\<lparr>ss_current := i\<rparr>) st)))"

definition jump_to_next_match :: "copy_mode \<Rightarrow> copy_mode option" where
  "jump_to_next_match st =
     (let x = cm_search st
      in if ss_matches x = [] then Some st
         else jump_to_match ((ss_current x + 1) mod length (ss_matches x)) st)"

definition jump_to_prev_match :: "copy_mode \<Rightarrow> copy_mode option" where
  "jump_to_prev_match st =
     (let x = cm_search st
      in if ss_matches x = [] then Some st
         else jump_to_match (if ss_current x = 0 then length (ss_matches x) - 1 else ss_current x - 1) st)"

text \<open>Enter in the prompt.\<close>

definition start_search :: "(rstr \<Rightarrow> nat) \<Rightarrow> screen \<Rightarrow> copy_mode \<Rightarrow> copy_mode option" where
  "start_search wd s st =
     (let query = ss_prompt_buf (cm_search st);
          st = cm_upd_search (\<lambda>x. x\<lparr>ss_query := query, ss_prompt_buf := [], ss_prompt_active := False\<rparr>) st;
          matches = (if query = [] then [] else find_matches wd s query);
          st = cm_upd_search (\<lambda>x. x\<lparr>ss_matches := matches\<rparr>) st
      in if matches = [] then Some (cm_upd_search (\<lambda>x. x\<lparr>ss_current := 0\<rparr>) st)
         else jump_to_match (case position (\<lambda>m. ms_line_idx m \<ge> fst (cm_cursor st)) matches of
                               Some i \<Rightarrow> i | None \<Rightarrow> 0) st)"

definition handle_search_prompt :: "(rstr \<Rightarrow> nat) \<Rightarrow> key_event \<Rightarrow> screen \<Rightarrow> copy_mode \<Rightarrow> copy_mode option" where
  "handle_search_prompt wd ev s st =
     (let m = ke_mods ev
      in case ke_key ev of
           KEnter \<Rightarrow> if m = 0 then start_search wd s st else Some st
         | KBackspace \<Rightarrow>
             if m = 0 then Some (cm_upd_search (\<lambda>x. x\<lparr>ss_prompt_buf := butlast (ss_prompt_buf x)\<rparr>) st) else Some st
         | KChar c \<Rightarrow>
             if m = 0 \<or> m = MOD_SHIFT then Some (cm_upd_search (\<lambda>x. x\<lparr>ss_prompt_buf := ss_prompt_buf x @ [c]\<rparr>) st)
             else Some st
         | _ \<Rightarrow> Some st)"

section \<open>Keys\<close>

definition cm_motion :: "key_event \<Rightarrow> screen \<Rightarrow> copy_mode \<Rightarrow> copy_mode option" where
  "cm_motion ev s st =
     (let m = ke_mods ev; key = ke_key ev; cols = num_cols (active s); (line, c) = cm_cursor st;
          max_line = cm_total_lines st - 1; shifted = (m = 0 \<or> m = MOD_SHIFT);
          half = cm_pane_rows st div 2
      in if m = 0 \<and> key \<in> {KChar (chr (CHR ''h'')), KArrow DirLeft} then Some (st\<lparr>cm_cursor := (line, c - 1)\<rparr>)
         else if m = 0 \<and> key \<in> {KChar (chr (CHR ''l'')), KArrow DirRight} then
           Some (st\<lparr>cm_cursor := (line, min (as_u16 (c + 1)) (cols - 1))\<rparr>)
         else if m = 0 \<and> key \<in> {KChar (chr (CHR ''k'')), KArrow DirUp} then Some (cm_go (line_retreat line 1) c st)
         else if m = 0 \<and> key \<in> {KChar (chr (CHR ''j'')), KArrow DirDown} then
           Some (cm_go (min (line_advance line 1) max_line) c st)
         else if m = 0 \<and> key = KPageUp then Some (cm_go (line_retreat line (cm_pane_rows st)) c st)
         else if m = 0 \<and> key = KPageDown then Some (cm_go (min (line_advance line (cm_pane_rows st)) max_line) c st)
         else if m = MOD_CTRL \<and> key = KChar (chr (CHR ''d'')) then Some (cm_go (min (line_advance line half) max_line) c st)
         else if m = MOD_CTRL \<and> key = KChar (chr (CHR ''u'')) then Some (cm_go (line_retreat line half) c st)
         else if m = 0 \<and> key = KChar (chr (CHR ''g'')) then Some (cm_go 0 0 st)
         else if shifted \<and> key = KChar (chr (CHR ''G'')) then Some (cm_go max_line 0 st)
         else if m = 0 \<and> key = KChar (chr (CHR ''0'')) then Some (st\<lparr>cm_cursor := (line, 0)\<rparr>)
         else if shifted \<and> key = KChar (chr (CHR ''$'')) then Some (st\<lparr>cm_cursor := (line, cols - 1)\<rparr>)
         else if m = 0 \<and> key = KChar (chr (CHR ''['')) then
           Some (case prev_prompt_line s line of Some l \<Rightarrow> cm_go l 0 st | None \<Rightarrow> st)
         else if m = 0 \<and> key = KChar (chr (CHR '']'')) then
           Some (case next_prompt_line s line of Some l \<Rightarrow> cm_go l 0 st | None \<Rightarrow> st)
         else if m = 0 \<and> key = KChar (chr (CHR ''o'')) then
           Some (case block_output_range s line of
                   Some (a, b) \<Rightarrow> cm_go b (cols - 1) (st\<lparr>cm_anchor := Some (a, 0)\<rparr>) | None \<Rightarrow> st)
         else if m = 0 \<and> key = KChar (chr (CHR ''v'')) then
           Some (st\<lparr>cm_anchor := (if cm_anchor st \<noteq> None then None else Some (cm_cursor st))\<rparr>)
         else if m = 0 \<and> key = KChar (chr (CHR ''/'')) then
           Some (cm_upd_search (\<lambda>x. x\<lparr>ss_prompt_active := True, ss_prompt_buf := []\<rparr>) st)
         else if m = 0 \<and> key = KChar (chr (CHR ''n'')) then jump_to_next_match st
         else if shifted \<and> key = KChar (chr (CHR ''N'')) then jump_to_prev_match st
         else Some st)"

definition handle_copy_mode ::
    "(rstr \<Rightarrow> nat) \<Rightarrow> key_event \<Rightarrow> screen \<Rightarrow> copy_mode \<Rightarrow> (copy_mode \<times> copy_mode_action) option" where
  "handle_copy_mode wd ev s st =
     (if ke_mods ev = 0 \<and> ke_key ev \<in> {KEscape, KChar (chr (CHR ''q''))} then
        (if ss_prompt_active (cm_search st) then
           Some (cm_upd_search (\<lambda>x. x\<lparr>ss_prompt_active := False, ss_prompt_buf := []\<rparr>) st, CmRender)
         else if cm_anchor st \<noteq> None then Some (st\<lparr>cm_anchor := None\<rparr>, CmRender)
         else Some (st, CmExit))
      else if ss_prompt_active (cm_search st) then map_option (\<lambda>st. (st, CmRender)) (handle_search_prompt wd ev s st)
      else if ke_mods ev = 0 \<and> ke_key ev = KChar (chr (CHR ''y'')) then Some (st, CmYank (extract_selection st s))
      else map_option (\<lambda>st. (st, CmRender)) (cm_motion ev s st))"

end
