(* ===== verification/Copy_Props.thy ===== *)
theory Copy_Props
  imports Copy_Mode Block_Facts Screen_Inv
begin

unbundle bit_operations_syntax

text \<open>
  Copy mode: no key and no mouse event leaves the lines of the screen or indexes out of range; the search
  finds the occurrences of the query; and two ways in which it does not do what it means to.
\<close>

section \<open>The cursor stays on the screen\<close>

definition view_ok :: "copy_mode \<Rightarrow> bool" where
  "view_ok st \<longleftrightarrow>
     cm_total_lines st \<le> u32_max \<and> cm_pane_rows st \<le> u16_max
     \<and> cm_viewport_top st \<le> cm_total_lines st - cm_pane_rows st"

definition matches_ok :: "nat \<Rightarrow> search_state \<Rightarrow> bool" where
  "matches_ok n x \<longleftrightarrow>
     list_all (\<lambda>m. ms_line_idx m < n) (ss_matches x) \<and> (ss_matches x = [] \<or> ss_current x < length (ss_matches x))"

definition cm_ok :: "copy_mode \<Rightarrow> bool" where
  "cm_ok st \<longleftrightarrow>
     view_ok st \<and> fst (cm_cursor st) \<le> cm_total_lines st - 1
     \<and> pred_option (\<lambda>a. fst a \<le> cm_total_lines st - 1) (cm_anchor st)
     \<and> matches_ok (cm_total_lines st) (cm_search st)"

text \<open>The cursor is in the viewport.\<close>

definition cursor_visible :: "copy_mode \<Rightarrow> bool" where
  "cursor_visible st \<longleftrightarrow>
     cm_viewport_top st \<le> fst (cm_cursor st) \<and> fst (cm_cursor st) \<le> cm_viewport_top st + (cm_pane_rows st - 1)"

lemma ensure_visible_fields [simp]:
  "cm_cursor (ensure_visible st) = cm_cursor st" "cm_anchor (ensure_visible st) = cm_anchor st"
  "cm_search (ensure_visible st) = cm_search st" "cm_total_lines (ensure_visible st) = cm_total_lines st"
  "cm_pane_rows (ensure_visible st) = cm_pane_rows st"
  by (simp_all add: ensure_visible_def Let_def)

lemma ensure_visible_ok:
  assumes "view_ok st" "fst (cm_cursor st) \<le> cm_total_lines st - 1"
  shows "view_ok (ensure_visible st)" "cursor_visible (ensure_visible st)"
proof -
  let ?l = "fst (cm_cursor st)" and ?v = "cm_viewport_top st" and ?p = "cm_pane_rows st" and ?n = "cm_total_lines st"
  have b: "?v \<le> ?n - ?p" "?n \<le> u32_max" "?p \<le> u16_max" "?l \<le> ?n - 1" using assms by (simp_all add: view_ok_def)
  define w where "w = (if ?l < ?v then ?l else ?v)"
  have w: "w \<le> ?l" "w \<le> ?n - ?p" using b by (auto simp: w_def)
  then have "w + (?p - 1) \<le> u32_max" using b by (auto simp: u32_max_def u16_max_def)
  then have wadd: "wadd32 w (?p - 1) = w + (?p - 1)" by (simp add: wadd32_def)
  have vt: "cm_viewport_top (ensure_visible st) = (if ?l > w + (?p - 1) then ?l - (?p - 1) else w)"
    using wadd by (cases "?l < ?v") (simp_all add: ensure_visible_def Let_def w_def)
  have "?l - (?p - 1) \<le> ?n - ?p" using b by linarith
  then show "view_ok (ensure_visible st)" using b w by (simp add: view_ok_def vt)
  show "cursor_visible (ensure_visible st)" using w by (simp add: cursor_visible_def vt)
qed

lemma cm_go_ok:
  assumes "cm_ok st" "line \<le> cm_total_lines st - 1"
  shows "cm_ok (cm_go line c st)" "cursor_visible (cm_go line c st)"
  using assms ensure_visible_ok [of "st\<lparr>cm_cursor := (line, c)\<rparr>"]
  by (simp_all add: cm_ok_def cm_go_def view_ok_def)

lemma cm_go_fields [simp]:
  "cm_total_lines (cm_go line c st) = cm_total_lines st" "cm_pane_rows (cm_go line c st) = cm_pane_rows st"
  "cm_search (cm_go line c st) = cm_search st" "cm_anchor (cm_go line c st) = cm_anchor st"
  "cm_cursor (cm_go line c st) = (line, c)"
  by (simp_all add: cm_go_def)

lemma cm_upd_search_fields [simp]:
  "cm_total_lines (cm_upd_search f st) = cm_total_lines st" "cm_pane_rows (cm_upd_search f st) = cm_pane_rows st"
  "cm_cursor (cm_upd_search f st) = cm_cursor st" "cm_anchor (cm_upd_search f st) = cm_anchor st"
  "cm_viewport_top (cm_upd_search f st) = cm_viewport_top st" "cm_search (cm_upd_search f st) = f (cm_search st)"
  by (simp_all add: cm_upd_search_def)

lemma cm_ok_search: "cm_ok st \<Longrightarrow> matches_ok (cm_total_lines st) (f (cm_search st)) \<Longrightarrow> cm_ok (cm_upd_search f st)"
  by (simp add: cm_ok_def view_ok_def)

lemma cm_ok_column: "cm_ok st \<Longrightarrow> cm_ok (st\<lparr>cm_cursor := (fst (cm_cursor st), c)\<rparr>)"
  by (simp add: cm_ok_def view_ok_def)

lemma jump_ok:
  assumes "cm_ok st" "i < length (ss_matches (cm_search st))"
  shows "\<exists>st'. jump_to_match i st = Some st' \<and> cm_ok st' \<and> cursor_visible st' \<and> cm_total_lines st' = cm_total_lines st"
proof -
  let ?m = "ss_matches (cm_search st) ! i"
  let ?st = "cm_upd_search (\<lambda>x. x\<lparr>ss_current := i\<rparr>) st"
  have m: "ms_line_idx ?m < cm_total_lines st" "list_all (\<lambda>m. ms_line_idx m < cm_total_lines st) (ss_matches (cm_search st))"
    using assms by (simp_all add: cm_ok_def matches_ok_def list_all_length)
  have "cm_ok ?st" using assms m(2) by (intro cm_ok_search) (simp_all add: matches_ok_def)
  then show ?thesis
    using cm_go_ok [of ?st "ms_line_idx ?m" "ms_col_start ?m"] m(1) assms(2) by (simp add: jump_to_match_def nth_opt_def)
qed

text \<open>Every branch of the handlers keeps it.\<close>

definition cm_good :: "nat \<Rightarrow> copy_mode option \<Rightarrow> bool" where
  "cm_good n r \<longleftrightarrow> pred_option (\<lambda>st. cm_ok st \<and> cm_total_lines st = n) r \<and> r \<noteq> None"

lemma cm_good_Some [simp]: "cm_good n (Some st) \<longleftrightarrow> cm_ok st \<and> cm_total_lines st = n"
  by (simp add: cm_good_def)

lemma find_matches_lines:
  "list_all (\<lambda>m. ms_line_idx m < wadd32 (as_u32 (length (sb_rows (scrollback s)))) (num_rows (active s))) (find_matches wd s q)"
  by (auto simp: find_matches_def Let_def list_all_iff split: option.splits prod.splits)

lemma wadd32_total:
  "screen_wf s \<Longrightarrow> wadd32 (as_u32 (length (sb_rows (scrollback s)))) (num_rows (active s)) = total_lines s"
  using wf_pos [of s] by (simp add: total_lines_def num_rows_def as_u16_def as_u32_def u16_max_def u32_max_def)

lemma jump_good:
  "cm_ok st \<Longrightarrow> cm_total_lines st = n \<Longrightarrow> i < length (ss_matches (cm_search st)) \<Longrightarrow> cm_good n (jump_to_match i st)"
  using jump_ok [of st i] by auto

lemma next_match_ok:
  assumes "cm_ok st" "cm_total_lines st = n"
  shows "cm_good n (jump_to_next_match st)" "cm_good n (jump_to_prev_match st)"
proof -
  let ?ms = "ss_matches (cm_search st)" and ?i = "ss_current (cm_search st)"
  have "?ms = [] \<or> ?i < length ?ms" using assms(1) by (simp add: cm_ok_def matches_ok_def)
  then have "?ms \<noteq> [] \<Longrightarrow> (?i + 1) mod length ?ms < length ?ms"
    "?ms \<noteq> [] \<Longrightarrow> (if ?i = 0 then length ?ms - 1 else ?i - 1) < length ?ms" by auto
  then show "cm_good n (jump_to_next_match st)" "cm_good n (jump_to_prev_match st)"
    using assms jump_good [OF assms] by (simp_all add: jump_to_next_match_def jump_to_prev_match_def Let_def)
qed

lemma start_search_ok:
  assumes "screen_wf s" "cm_ok st" "cm_total_lines st = total_lines s"
  shows "cm_good (total_lines s) (start_search wd s st)"
proof -
  define q where "q = ss_prompt_buf (cm_search st)"
  define ms where "ms = (if q = [] then [] else find_matches wd s q)"
  define u where "u = cm_upd_search (\<lambda>x. x\<lparr>ss_matches := ms\<rparr>) (cm_upd_search (\<lambda>x. x\<lparr>ss_query := q, ss_prompt_buf := [], ss_prompt_active := False\<rparr>) st)"
  define i where "i = (case position (\<lambda>m. ms_line_idx m \<ge> fst (cm_cursor u)) ms of Some i \<Rightarrow> i | None \<Rightarrow> 0)"
  have eq: "start_search wd s st = (if ms = [] then Some (cm_upd_search (\<lambda>x. x\<lparr>ss_current := 0\<rparr>) u) else jump_to_match i u)"
    by (simp add: start_search_def Let_def u_def ms_def q_def i_def)
  have lines: "list_all (\<lambda>m. ms_line_idx m < total_lines s) ms"
    using find_matches_lines [of s wd q] wadd32_total [OF assms(1)] by (simp add: ms_def)
  have i: "ms \<noteq> [] \<Longrightarrow> i < length ms"
    using position_Some by (fastforce simp: i_def split: option.split)
  let ?u = "cm_upd_search (\<lambda>x. x\<lparr>ss_current := 0\<rparr>) u"
  have "cm_ok ?u" "cm_total_lines ?u = total_lines s"
    using assms(2,3) lines by (auto simp: u_def cm_ok_def view_ok_def matches_ok_def)
  moreover have "jump_to_match i u = jump_to_match i ?u" by (simp add: jump_to_match_def cm_upd_search_def cm_go_def)
  ultimately show ?thesis using jump_good [of ?u "total_lines s" i] i eq by (auto simp: u_def)
qed

lemma prompt_ok:
  assumes "screen_wf s" "cm_ok st" "cm_total_lines st = total_lines s"
  shows "cm_good (total_lines s) (handle_search_prompt wd ev s st)"
proof -
  have "cm_ok (cm_upd_search f st)" if "\<And>x. ss_matches (f x) = ss_matches x \<and> ss_current (f x) = ss_current x" for f
    using assms(2) that by (intro cm_ok_search) (simp_all add: cm_ok_def matches_ok_def)
  then show ?thesis
    using assms start_search_ok [OF assms] by (simp add: handle_search_prompt_def Let_def split: key.split)
qed

lemma prompt_lines:
  "prev_prompt_line s l = Some p \<Longrightarrow> p \<le> total_lines s - 1" "next_prompt_line s l = Some p \<Longrightarrow> p \<le> total_lines s - 1"
  by (auto simp: prev_prompt_Some next_prompt_Some)

lemma output_lines:
  assumes "block_output_range s l = Some (a, b)"
  shows "a \<le> total_lines s - 1" "b \<le> total_lines s - 1"
proof -
  define l' where "l' = min l (total_lines s - 1)"
  define g where "g = (if is_prompt s l' then Some l' else prev_prompt_line s l')"
  have "total_lines s \<noteq> 0" using assms by (cases "total_lines s = 0") (simp_all add: block_output_range_def)
  then have e: "block_output_range s l = (case g of None \<Rightarrow> None | Some p \<Rightarrow>
      Some (case find (row_has RM_OUTPUT_START s) [p..<block_last s p + 1] of Some l \<Rightarrow> l | None \<Rightarrow> p, block_last s p))"
    unfolding block_output_range_def Let_def g_def l'_def by (subst if_not_P) simp_all
  then obtain p where f: "g = Some p" using assms by (cases g) simp_all
  with e assms have ab: "b = block_last s p" "a = (case find (row_has RM_OUTPUT_START s) [p..<b + 1] of Some l \<Rightarrow> l | None \<Rightarrow> p)"
    by simp_all
  have p: "p \<le> total_lines s - 1"
    using f prompt_lines(1) [of s l' p] by (auto simp: g_def l'_def split: if_splits)
  have "block_last s p \<le> total_lines s - 1"
    by (auto simp: block_last_def line_retreat_def next_prompt_Some split: option.split)
  then show "b \<le> total_lines s - 1" by (simp add: ab(1))
  then show "a \<le> total_lines s - 1"
    using p ab(2) by (auto simp: find_upt_Some split: option.splits simp del: upt_Suc)
qed

lemma good_if: "cm_good n x \<Longrightarrow> cm_good n y \<Longrightarrow> cm_good n (if b then x else y)"
  by simp

lemma motion_ok:
  assumes "screen_wf s" "cm_ok st" "cm_total_lines st = total_lines s"
  shows "cm_good (total_lines s) (cm_motion ev s st)"
proof -
  obtain line c where lc: "cm_cursor st = (line, c)" by (cases "cm_cursor st")
  let ?n = "total_lines s"
  have line: "line \<le> ?n - 1" using assms(2,3) lc by (simp add: cm_ok_def)
  have go: "cm_good ?n (Some (cm_go l k st))" if "l \<le> ?n - 1" for l k
    using cm_go_ok(1) [OF assms(2)] that assms(3) by simp
  have column: "cm_good ?n (Some (st\<lparr>cm_cursor := (line, k)\<rparr>))" for k
    using cm_ok_column [OF assms(2)] assms(3) lc by simp
  have anchor: "cm_ok (st\<lparr>cm_anchor := Some (a, k)\<rparr>)" if "a \<le> ?n - 1" for a k
    using assms(2,3) that by (simp add: cm_ok_def view_ok_def)
  have toggle: "cm_ok (st\<lparr>cm_anchor := (if b then None else Some (line, c))\<rparr>)" for b
    using assms(2,3) line by (simp add: cm_ok_def view_ok_def)
  have prompts: "cm_good ?n (Some (case f of Some l \<Rightarrow> cm_go l 0 st | None \<Rightarrow> st))" if "\<And>l. f = Some l \<Longrightarrow> l \<le> ?n - 1" for f
    using that go assms(2,3) by (cases f) simp_all
  have out: "cm_good ?n (Some (case block_output_range s line of
      Some (a, b) \<Rightarrow> cm_go b k (st\<lparr>cm_anchor := Some (a, 0)\<rparr>) | None \<Rightarrow> st))" for k
    using output_lines cm_go_ok(1) [OF anchor] assms(2,3) by (auto split: option.split)
  have prompt: "cm_good ?n (Some (cm_upd_search (\<lambda>x. x\<lparr>ss_prompt_active := True, ss_prompt_buf := []\<rparr>) st))"
    using cm_ok_search [OF assms(2), of "\<lambda>x. x\<lparr>ss_prompt_active := True, ss_prompt_buf := []\<rparr>"] assms(2,3)
    by (simp add: cm_ok_def matches_ok_def)
  show ?thesis
    unfolding cm_motion_def Let_def lc prod.case assms(3)
    using line prompt_lines [of s line]
    by (intro good_if column go prompts out prompt next_match_ok assms(2,3))
      (auto simp: line_retreat_def assms toggle)
qed

text \<open>The mouse.\<close>

lemma wheel_ok: "cm_ok st \<Longrightarrow> v \<le> cm_total_lines st - cm_pane_rows st \<Longrightarrow> cm_ok (st\<lparr>cm_viewport_top := v\<rparr>)"
  by (simp add: cm_ok_def view_ok_def)

lemma place_ok:
  "cm_ok st \<Longrightarrow> l \<le> cm_total_lines st - 1 \<Longrightarrow> cm_ok (st\<lparr>cm_cursor := (l, c)\<rparr>)"
  "cm_ok st \<Longrightarrow> l \<le> cm_total_lines st - 1 \<Longrightarrow> cm_ok (st\<lparr>cm_anchor := Some (l, c)\<rparr>)"
  by (simp_all add: cm_ok_def view_ok_def)

lemma place_both_ok:
  "cm_ok st \<Longrightarrow> l \<le> cm_total_lines st - 1 \<Longrightarrow> cm_ok (st\<lparr>cm_cursor := (l, c), cm_anchor := Some (l, d)\<rparr>)"
  by (simp add: cm_ok_def view_ok_def)

lemma select_ok:
  assumes "cm_ok st"
  shows "cm_ok (select_word_at_cursor alnum s st) \<and> cm_total_lines (select_word_at_cursor alnum s st) = cm_total_lines st"
    "cm_ok (select_line_at_cursor s st) \<and> cm_total_lines (select_line_at_cursor s st) = cm_total_lines st"
proof -
  obtain l c where lc: "cm_cursor st = (l, c)" by (cases "cm_cursor st")
  have "l \<le> cm_total_lines st - 1" using assms lc by (simp add: cm_ok_def)
  then have both: "cm_ok (st\<lparr>cm_anchor := Some (l, a), cm_cursor := (l, b)\<rparr>)" for a b
    using assms by (simp add: cm_ok_def view_ok_def)
  show "cm_ok (select_word_at_cursor alnum s st) \<and> cm_total_lines (select_word_at_cursor alnum s st) = cm_total_lines st"
    using assms both unfolding select_word_at_cursor_def lc prod.case Let_def
    by (cases "unified_line_cells s l") simp_all
  show "cm_ok (select_line_at_cursor s st) \<and> cm_total_lines (select_line_at_cursor s st) = cm_total_lines st"
    using assms both unfolding select_line_at_cursor_def lc fst_conv Let_def
    by (auto split: option.split list.split)
qed

lemma mouse_ok:
  assumes "cm_ok st"
  shows "cm_ok (fst (cm_handle_mouse alnum ev clicks s st)) \<and> cm_total_lines (fst (cm_handle_mouse alnum ev clicks s st)) = cm_total_lines st"
proof -
  define l where "l = min (sadd32 (cm_viewport_top st) (me_row ev)) (cm_total_lines st - 1)"
  have l: "l \<le> cm_total_lines st - 1" by (simp add: l_def)
  have v: "cm_viewport_top st - k \<le> cm_total_lines st - cm_pane_rows st" for k
    using assms by (intro le_trans [OF diff_le_self]) (simp add: cm_ok_def view_ok_def)
  define p where "p = st\<lparr>cm_cursor := (l, me_col ev), cm_anchor := Some (l, me_col ev)\<rparr>"
  define d where "d = (if cm_anchor st = None then st\<lparr>cm_anchor := Some (cm_cursor st)\<rparr> else st)"
  have p: "cm_ok p" "cm_total_lines p = cm_total_lines st" using place_both_ok [OF assms l] by (simp_all add: p_def)
  have d: "cm_ok d" "cm_total_lines d = cm_total_lines st"
    using assms place_ok(2) [OF assms, of "fst (cm_cursor st)" "snd (cm_cursor st)"] by (simp_all add: d_def cm_ok_def)
  have m: "cm_ok (d\<lparr>cm_cursor := (l, me_col ev)\<rparr>)" using place_ok(1) [OF d(1)] l d(2) by simp
  note sel = select_ok [OF p(1)]
  show ?thesis
    unfolding cm_handle_mouse_def Let_def l_def [symmetric] p_def [symmetric] d_def [symmetric]
    using assms p d m sel wheel_ok [OF assms v] wheel_ok [OF assms]
    by (auto split: mouse_kind.split mouse_button.split wheel_axis.split)
qed

section \<open>Runs\<close>

datatype copy_event = CopyKey key_event | CopyMouse mouse_event nat

definition copy_step :: "(rstr \<Rightarrow> nat) \<Rightarrow> (nat \<Rightarrow> bool) \<Rightarrow> screen \<Rightarrow> copy_mode option \<Rightarrow> copy_event \<Rightarrow> copy_mode option" where
  "copy_step wd alnum s r ev =
     Option.bind r (\<lambda>st. case ev of
         CopyKey k \<Rightarrow> map_option fst (handle_copy_mode wd k s st)
       | CopyMouse m clicks \<Rightarrow> Some (fst (cm_handle_mouse alnum m clicks s st)))"

definition copy_inv :: "screen \<Rightarrow> copy_mode option \<Rightarrow> bool" where
  "copy_inv s r \<longleftrightarrow> screen_wf s \<and> cm_good (total_lines s) r"

lemma handle_ok:
  assumes "screen_wf s" "cm_ok st" "cm_total_lines st = total_lines s"
  shows "cm_good (total_lines s) (map_option fst (handle_copy_mode wd ev s st))"
proof -
  have quit: "cm_ok (cm_upd_search (\<lambda>x. x\<lparr>ss_prompt_active := False, ss_prompt_buf := []\<rparr>) st)"
    using assms(2) by (intro cm_ok_search) (simp_all add: cm_ok_def matches_ok_def)
  have drop_anchor: "cm_ok (st\<lparr>cm_anchor := None\<rparr>)" using assms(2) by (simp add: cm_ok_def view_ok_def)
  have f: "map_option fst (map_option (\<lambda>st. (st, CmRender)) r) = r" for r by (cases r) simp_all
  show ?thesis
    unfolding handle_copy_mode_def
    using assms(2,3) quit drop_anchor prompt_ok [OF assms] motion_ok [OF assms] by (simp add: f)
qed

interpretation copy: invariant_machine "copy_inv s" "copy_step wd alnum s" for s wd alnum
proof
  fix r ev
  assume a: "copy_inv s r"
  then obtain st where st: "r = Some st" "cm_ok st" "cm_total_lines st = total_lines s" "screen_wf s"
    by (auto simp: copy_inv_def cm_good_def)
  show "copy_inv s (copy_step wd alnum s r ev)"
    using st handle_ok [OF st(4,2,3)] mouse_ok [OF st(2)]
    by (cases ev) (simp_all add: copy_inv_def copy_step_def)
qed

lemma copy_new_ok: "screen_wf s \<Longrightarrow> rows \<le> u16_max \<Longrightarrow> copy_inv s (Some (cm_new (total_lines s) rows l c))"
  by (simp add: copy_inv_def cm_ok_def view_ok_def cm_new_def search_default_def matches_ok_def)

text \<open>
  C22: Copy mode is safe on any screen: from its start, no sequence of keys and mouse events makes it
  index a list out of range, and after every one of them the cursor, the selection's anchor and every
  match of the search lie on lines the screen has, and the viewport lies within them.
\<close>

theorem copy_mode_safe:
  assumes "screen_wf s" "rows \<le> u16_max"
  shows "\<exists>st. foldl (copy_step wd alnum s) (Some (cm_new (total_lines s) rows l c)) evs = Some st
    \<and> cm_ok st \<and> cm_total_lines st = total_lines s"
  using copy.run_inv [OF copy_new_ok [OF assms, of l c], where es = evs and wd = wd and alnum = alnum]
  by (auto simp: copy_inv_def cm_good_def)

lemma copy_mode_safe_witness:
  "\<exists>st. foldl (copy_step (\<lambda>_. 1) (\<lambda>_. True) (screen_new 2 3)) (Some (cm_new (total_lines (screen_new 2 3)) 2 0 0))
      [CopyKey (key_event_plain (KChar 71)), CopyKey (key_event_plain (KChar 110))] = Some st
    \<and> cm_ok st \<and> cm_total_lines st = total_lines (screen_new 2 3)"
  by (rule copy_mode_safe) (simp_all add: screen_new_wf u16_max_def)

section \<open>Search\<close>

text \<open>The text of a line, and where its glyphs are.\<close>

definition line_text :: "cell list \<Rightarrow> rstr" where
  "line_text cs = concat (map grapheme cs)"

definition text_start :: "cell list \<Rightarrow> nat \<Rightarrow> nat" where
  "text_start cs c = length (line_text (take c cs))"

definition glyph_cols :: "cell list \<Rightarrow> nat list" where
  "glyph_cols cs = filter (\<lambda>c. \<not> is_wide_spacer (cs ! c)) [0..<length cs]"

lemma line_starts_foldl:
  "foldl (\<lambda>(text, starts, grid_col) c.
      if is_wide_spacer c then (text, starts, grid_col + 1)
      else (text @ grapheme c, starts @ [(length text, grid_col)], grid_col + 1)) ([], [], 0) cs =
   (line_text cs, map (\<lambda>c. (text_start cs c, c)) (glyph_cols cs), length cs)"
proof (induction cs rule: rev_induct)
  case Nil
  then show ?case by (simp add: line_text_def glyph_cols_def)
next
  case (snoc x cs)
  have cols: "glyph_cols (cs @ [x]) = glyph_cols cs @ (if is_wide_spacer x then [] else [length cs])"
    by (auto simp: glyph_cols_def nth_append intro!: filter_cong)
  have "text_start (cs @ [x]) c = text_start cs c" if "c \<in> set (glyph_cols cs)" for c
    using that by (simp add: glyph_cols_def text_start_def)
  then have starts: "map (\<lambda>c. (text_start (cs @ [x]) c, c)) (glyph_cols cs) = map (\<lambda>c. (text_start cs c, c)) (glyph_cols cs)"
    by (intro map_cong refl) simp
  show ?case
    using snoc starts by (cases "is_wide_spacer x") (simp_all add: cols line_text_def text_start_def is_wide_spacer_def)
qed

lemma line_starts_eq: "line_starts cs = (line_text cs, map (\<lambda>c. (text_start cs c, c)) (glyph_cols cs))"
  unfolding line_starts_def line_starts_foldl by simp

lemma text_start_mono: "a \<le> b \<Longrightarrow> text_start cs a \<le> text_start cs b"
proof -
  assume "a \<le> b"
  then have "take b cs = take a cs @ take (b - a) (drop a cs)" by (metis le_add_diff_inverse take_add)
  then show ?thesis by (simp add: text_start_def line_text_def)
qed

lemma text_start_Suc: "c < length cs \<Longrightarrow> text_start cs (Suc c) = text_start cs c + length (grapheme (cs ! c))"
  by (simp add: text_start_def line_text_def take_Suc_conv_app_nth)

text \<open>The glyph a position of the text lies in.\<close>

lemma glyph_at:
  assumes "off < length (line_text cs)"
  shows "\<exists>c<length cs. text_start cs c \<le> off \<and> off < text_start cs c + length (grapheme (cs ! c))"
proof -
  define n where "n = (LEAST n. off < text_start cs n)"
  have e: "off < text_start cs (length cs)" using assms by (simp add: text_start_def)
  have n: "off < text_start cs n" "n \<le> length cs" using LeastI [of _ "length cs"] Least_le [of _ "length cs"] e by (simp_all add: n_def)
  have "text_start cs 0 = 0" by (simp add: text_start_def line_text_def)
  then have "n \<noteq> 0" using n(1) by (cases n) simp_all
  then obtain c where c: "n = Suc c" using not0_implies_Suc by blast
  have "\<not> off < text_start cs c" using not_less_Least [of c "\<lambda>n. off < text_start cs n"] c by (simp add: n_def)
  then show ?thesis using n c text_start_Suc [of c cs] by (intro exI [of _ c]) simp
qed

lemma find_rev_Some:
  "find P (rev xs) = Some x \<Longrightarrow> \<exists>ys zs. xs = ys @ x # zs \<and> P x \<and> (\<forall>z\<in>set zs. \<not> P z)"
proof (induction xs rule: rev_induct)
  case (snoc y xs)
  show ?case
  proof (cases "P y")
    case True
    then show ?thesis using snoc.prems by (intro exI [of _ xs] exI [of _ "[]"]) simp
  next
    case False
    then obtain ys zs where "xs = ys @ x # zs" "P x" "\<forall>z\<in>set zs. \<not> P z" using snoc by auto
    then show ?thesis using False by (intro exI [of _ ys] exI [of _ "zs @ [y]"]) simp
  qed
qed simp

text \<open>The column the code finds is the column of that glyph.\<close>

lemma found_column:
  assumes "off < length (line_text cs)"
  shows "\<exists>c<length cs. find (\<lambda>(b, _). b \<le> off) (rev (map (\<lambda>c. (text_start cs c, c)) (glyph_cols cs))) = Some (text_start cs c, c)
    \<and> text_start cs c \<le> off \<and> off < text_start cs c + length (grapheme (cs ! c))"
proof -
  define P where "P = (\<lambda>(b, _ :: nat). b \<le> off)"
  define f where "f = (\<lambda>c. (text_start cs c, c))"
  obtain c where c: "c < length cs" "text_start cs c \<le> off" "off < text_start cs c + length (grapheme (cs ! c))"
    using glyph_at [OF assms] by blast
  have "grapheme (cs ! c) \<noteq> []" using c by auto
  then have g: "c \<in> set (glyph_cols cs)" using c(1) by (simp add: glyph_cols_def is_wide_spacer_def)
  have "P (f c)" using c(2) by (simp add: P_def f_def)
  have "find P (rev (map f (glyph_cols cs))) \<noteq> None"
  proof
    assume "find P (rev (map f (glyph_cols cs))) = None"
    then have "\<not> P (f c)" using g by (simp add: find_None_iff)
    then show False using \<open>P (f c)\<close> by simp
  qed
  then obtain x where x: "find P (rev (map f (glyph_cols cs))) = Some x" by blast
  obtain ys zs where s: "map f (glyph_cols cs) = ys @ x # zs" "P x" "\<forall>z\<in>set zs. \<not> P z" using find_rev_Some [OF x] by blast
  then obtain ys' d zs' where d: "glyph_cols cs = ys' @ d # zs'" "x = f d" "zs = map f zs'"
    unfolding map_eq_append_conv map_eq_Cons_conv by blast
  have "c \<le> d"
  proof (rule ccontr)
    assume "\<not> c \<le> d"
    have "sorted (ys' @ d # zs')" unfolding d(1) [symmetric] by (simp add: glyph_cols_def sorted_wrt_filter)
    then have "c \<notin> set ys'" "c \<noteq> d" using \<open>\<not> c \<le> d\<close> by (auto simp: sorted_append)
    then have "c \<in> set zs'" using g unfolding d(1) by simp
    then show False using s(3) d(3) \<open>P (f c)\<close> by simp
  qed
  moreover have "\<not> Suc c \<le> d"
    using text_start_mono [of "Suc c" d cs] text_start_Suc [OF c(1)] c(3) s(2) by (auto simp: d(2) P_def f_def)
  ultimately have "d = c" by simp
  then show ?thesis using x c d(2) unfolding P_def f_def by (intro exI [of _ c]) simp
qed

text \<open>The occurrences a line contributes: all of them, but for those that overlap an earlier one.\<close>

lemma occurs_drop: "start \<le> length t \<Longrightarrow> occurs_at q (drop start t) i \<longleftrightarrow> occurs_at q t (start + i)"
  by (auto simp: occurs_at_def add.commute)

lemma occurrences_empty: "length t \<le> start \<Longrightarrow> occurrences q t start = []"
proof (cases "q = []")
  case True
  then show ?thesis by (subst occurrences.simps) simp
next
  case False
  assume "length t \<le> start"
  then have "str_find q (drop start t) = None" using False by (simp add: str_find_None occurs_at_def)
  then show ?thesis by (subst occurrences.simps) simp
qed

lemma occurrences_sound: "i \<in> set (occurrences q t start) \<Longrightarrow> start \<le> i \<and> occurs_at q t i"
proof (induction q t start rule: occurrences.induct)
  case (1 q t start)
  have "\<not> length t \<le> start" using "1.prems" occurrences_empty by fastforce
  have "occurrences [] t start = []" by (subst occurrences.simps) simp
  then have "q \<noteq> []" using "1.prems" by auto
  then obtain idx where idx: "str_find q (drop start t) = Some idx"
      "i = start + idx \<or> i \<in> set (occurrences q t (start + idx + length q))"
    using "1.prems" \<open>q \<noteq> []\<close> unfolding occurrences.simps [of q t start]
    by (cases "str_find q (drop start t)") auto
  have "occurs_at q t (start + idx)"
    using str_find_Some(1) [OF idx(1)] occurs_drop \<open>\<not> length t \<le> start\<close> by simp
  then show ?case using idx(2) "1.IH" [OF \<open>q \<noteq> []\<close> idx(1)] by auto
qed

lemma occurrences_complete:
  "q \<noteq> [] \<Longrightarrow> start \<le> i \<Longrightarrow> occurs_at q t i \<Longrightarrow> \<exists>j\<in>set (occurrences q t start). j \<le> i \<and> i < j + length q"
proof (induction q t start rule: occurrences.induct)
  case (1 q t start)
  have len: "start \<le> length t" using "1.prems" by (simp add: occurs_at_def)
  have at: "occurs_at q (drop start t) (i - start)" using "1.prems" occurs_drop [OF len, of q "i - start"] by simp
  then obtain idx where idx: "str_find q (drop start t) = Some idx"
    using str_find_None [of q "drop start t"] by (cases "str_find q (drop start t)") auto
  have le: "start + idx \<le> i" using str_find_Some(2) [OF idx, of "i - start"] at "1.prems"(2) by fastforce
  have occ: "occurrences q t start = (start + idx) # occurrences q t (start + idx + length q)"
    using "1.prems"(1) idx by (subst occurrences.simps) simp
  show ?case
  proof (cases "i < start + idx + length q")
    case True
    then show ?thesis using le by (simp add: occ)
  next
    case False
    then show ?thesis using "1.IH" [OF "1.prems"(1) idx "1.prems"(1) _ "1.prems"(3)] by (auto simp: occ)
  qed
qed

text \<open>The matches of one line.\<close>

definition span_of :: "(rstr \<Rightarrow> nat) \<Rightarrow> nat \<Rightarrow> rstr \<Rightarrow> nat \<Rightarrow> (nat \<times> nat) list \<Rightarrow> nat \<Rightarrow> match_span" where
  "span_of wd cols q line starts off =
     (let col_start = (case find (\<lambda>(b, _). b \<le> off) (rev starts) of Some (_, gc) \<Rightarrow> gc | None \<Rightarrow> 0)
      in \<lparr>ms_line_idx = line, ms_col_start = col_start,
          ms_col_end = min (sadd16 col_start (max (display_width wd q) 1 - 1)) (cols - 1)\<rparr>)"

definition line_matches :: "(rstr \<Rightarrow> nat) \<Rightarrow> screen \<Rightarrow> rstr \<Rightarrow> nat \<Rightarrow> match_span list" where
  "line_matches wd s q line =
     (case unified_line_cells s line of
        None \<Rightarrow> []
      | Some cs \<Rightarrow> map (span_of wd (num_cols (active s)) q line (snd (line_starts cs))) (occurrences q (line_text cs) 0))"

lemma find_matches_eq:
  assumes "screen_wf s" "q \<noteq> []"
  shows "find_matches wd s q = concat (map (line_matches wd s q) [0..<total_lines s])"
  using assms(2) unfolding find_matches_def Let_def wadd32_total [OF assms(1)]
  by (auto simp: line_matches_def span_of_def Let_def line_starts_eq intro!: arg_cong [where f = concat] map_cong split: option.split)

lemma span_line [simp]: "ms_line_idx (span_of wd cols q line starts off) = line"
  by (simp add: span_of_def Let_def)

lemma line_matches_line: "m \<in> set (line_matches wd s q line) \<Longrightarrow> ms_line_idx m = line"
  by (auto simp: line_matches_def split: option.splits)

text \<open>The column of a match is that of the glyph in which an occurrence starts.\<close>

definition starts_in_glyph :: "cell list \<Rightarrow> nat \<Rightarrow> nat \<Rightarrow> bool" where
  "starts_in_glyph cs off c \<longleftrightarrow>
     c < length cs \<and> text_start cs c \<le> off \<and> off < text_start cs c + length (grapheme (cs ! c))"

lemma span_glyph:
  assumes "occurs_at q (line_text cs) off" "q \<noteq> []"
  shows "starts_in_glyph cs off (ms_col_start (span_of wd cols q line (snd (line_starts cs)) off))"
proof -
  have "off < length (line_text cs)" using assms by (cases q) (simp_all add: occurs_at_def)
  from found_column [OF this] show ?thesis by (auto simp: span_of_def line_starts_eq starts_in_glyph_def Let_def)
qed

lemma search_facts:
  assumes "screen_wf s" "q \<noteq> []"
  shows "list_all (\<lambda>m. \<exists>cs off. unified_line_cells s (ms_line_idx m) = Some cs \<and> occurs_at q (line_text cs) off
        \<and> starts_in_glyph cs off (ms_col_start m)) (find_matches wd s q)"
    and "line < total_lines s \<Longrightarrow> unified_line_cells s line = Some cs \<Longrightarrow> occurs_at q (line_text cs) i \<Longrightarrow>
        \<exists>m\<in>set (find_matches wd s q). ms_line_idx m = line \<and>
          (\<exists>off. off \<le> i \<and> i < off + length q \<and> starts_in_glyph cs off (ms_col_start m))"
    and "sorted (map ms_line_idx (find_matches wd s q))"
proof -
  note eq = find_matches_eq [OF assms]
  show "list_all (\<lambda>m. \<exists>cs off. unified_line_cells s (ms_line_idx m) = Some cs \<and> occurs_at q (line_text cs) off
        \<and> starts_in_glyph cs off (ms_col_start m)) (find_matches wd s q)"
    unfolding list_all_iff
  proof
    fix m assume "m \<in> set (find_matches wd s q)"
    then obtain line where m: "m \<in> set (line_matches wd s q line)" unfolding eq by auto
    then obtain cs off where u: "unified_line_cells s line = Some cs" "off \<in> set (occurrences q (line_text cs) 0)"
      "m = span_of wd (num_cols (active s)) q line (snd (line_starts cs)) off"
      by (cases "unified_line_cells s line") (auto simp: line_matches_def)
    then have o: "occurs_at q (line_text cs) off" using occurrences_sound by blast
    then show "\<exists>cs off. unified_line_cells s (ms_line_idx m) = Some cs \<and> occurs_at q (line_text cs) off
        \<and> starts_in_glyph cs off (ms_col_start m)"
      using u span_glyph [OF o assms(2)] by auto
  qed
  show "\<exists>m\<in>set (find_matches wd s q). ms_line_idx m = line \<and>
          (\<exists>off. off \<le> i \<and> i < off + length q \<and> starts_in_glyph cs off (ms_col_start m))"
    if l: "line < total_lines s" "unified_line_cells s line = Some cs" "occurs_at q (line_text cs) i"
  proof -
    obtain j where j: "j \<in> set (occurrences q (line_text cs) 0)" "j \<le> i" "i < j + length q"
      using occurrences_complete [OF assms(2) le0 l(3)] by blast
    let ?m = "span_of wd (num_cols (active s)) q line (snd (line_starts cs)) j"
    have o: "occurs_at q (line_text cs) j" using occurrences_sound [OF j(1)] by simp
    have "?m \<in> set (line_matches wd s q line)" using l(2) j(1) by (simp add: line_matches_def)
    then have "?m \<in> set (find_matches wd s q)" unfolding eq using l(1) by auto
    then show ?thesis using span_glyph [OF o assms(2)] j(2,3) by (intro bexI [of _ ?m]) auto
  qed
  have "sorted (map ms_line_idx (concat (map (line_matches wd s q) [0..<n]))) \<and>
      (\<forall>m\<in>set (concat (map (line_matches wd s q) [0..<n])). ms_line_idx m < n)" for n
  proof (induction n)
    case (Suc n)
    have "map ms_line_idx (line_matches wd s q n) = replicate (length (line_matches wd s q n)) n"
      by (simp add: line_matches_line map_replicate_const [symmetric] cong: map_cong)
    then show ?case using Suc line_matches_line by (auto simp: sorted_append less_Suc_eq)
  qed simp
  then show "sorted (map ms_line_idx (find_matches wd s q))" unfolding eq by blast
qed

text \<open>
  C23: A search finds the occurrences of the query: every match is at the column of the glyph in which an
  occurrence in its line starts; every occurrence in a line is a match or overlaps one that starts before
  it; and the matches are listed in the order of their lines.
\<close>

theorem search_finds_occurrences:
  assumes "screen_wf s" "q \<noteq> []"
  shows "list_all (\<lambda>m. \<exists>cs off. unified_line_cells s (ms_line_idx m) = Some cs \<and> occurs_at q (line_text cs) off
        \<and> starts_in_glyph cs off (ms_col_start m)) (find_matches wd s q)
    \<and> (\<forall>line cs i. line < total_lines s \<and> unified_line_cells s line = Some cs \<and> occurs_at q (line_text cs) i \<longrightarrow>
        (\<exists>m\<in>set (find_matches wd s q). ms_line_idx m = line \<and>
          (\<exists>off. off \<le> i \<and> i < off + length q \<and> starts_in_glyph cs off (ms_col_start m))))
    \<and> sorted (map ms_line_idx (find_matches wd s q))"
  using search_facts [OF assms] by blast

lemma search_finds_occurrences_witness:
  "\<exists>m\<in>set (find_matches (\<lambda>_. 1) (screen_new 2 3) [32]). ms_line_idx m = 1"
proof -
  have wf: "screen_wf (screen_new 2 3)" by (simp add: screen_new_wf u16_max_def)
  have lines: "total_lines (screen_new 2 3) = 2"
    by (simp add: total_lines_def screen_new_def grid_new_def sb_default_def with_cap_def as_u32_def wadd32_def u32_max_def)
  have u: "unified_line_cells (screen_new 2 3) 1 = Some (replicate 3 default_cell)"
    by (simp add: unified_line_cells_def screen_new_def grid_new_def sb_default_def with_cap_def nth_opt_def as_u32_def blank_row_def)
  have "occurs_at [32] (line_text (replicate 3 default_cell)) 0"
    by (simp add: occurs_at_def line_text_def default_cell_def numeral_3_eq_3)
  then show ?thesis
    using search_finds_occurrences [OF wf, of "[32]" "\<lambda>_. 1", THEN conjunct2, THEN conjunct1, rule_format,
        of 1 "replicate 3 default_cell" 0] lines u by auto
qed

section \<open>Jumping between matches\<close>

text \<open>
  Going to the next match and back restores the search, and the cursor is on the match that was
  current, wherever it was before; neither jump indexes out of range.
\<close>

theorem next_match_and_back:
  assumes "cm_ok st" "ss_matches (cm_search st) \<noteq> []"
  shows "\<exists>st1 st2. jump_to_next_match st = Some st1 \<and> jump_to_prev_match st1 = Some st2 \<and> cm_search st2 = cm_search st
    \<and> cm_cursor st2 = (ms_line_idx (ss_matches (cm_search st) ! ss_current (cm_search st)),
                        ms_col_start (ss_matches (cm_search st) ! ss_current (cm_search st)))
    \<and> cursor_visible st2"
proof -
  let ?ms = "ss_matches (cm_search st)" and ?i = "ss_current (cm_search st)"
  have i: "?i < length ?ms" using assms by (simp add: cm_ok_def matches_ok_def)
  define j where "j = (?i + 1) mod length ?ms"
  have j: "j < length ?ms" unfolding j_def by (rule mod_less_divisor, use i in linarith)
  have prev: "(if j = 0 then length ?ms - 1 else j - 1) = ?i"
  proof (cases "?i + 1 < length ?ms")
    case True
    then show ?thesis by (simp add: j_def)
  next
    case False
    then have "?i + 1 = length ?ms" using i by linarith
    then show ?thesis by (simp add: j_def)
  qed
  obtain st1 where s1: "jump_to_match j st = Some st1" "cm_ok st1" using jump_ok [OF assms(1) j] by blast
  have f1: "cm_search st1 = (cm_search st)\<lparr>ss_current := j\<rparr>"
    using s1(1) j by (auto simp: jump_to_match_def nth_opt_def)
  have n: "jump_to_next_match st = Some st1" using assms(2) s1(1) by (simp add: jump_to_next_match_def Let_def j_def)
  obtain st2 where s2: "jump_to_match ?i st1 = Some st2" "cursor_visible st2" using jump_ok [OF s1(2), of ?i] i f1 by auto
  have "jump_to_prev_match st1 = jump_to_match (if j = 0 then length ?ms - 1 else j - 1) st1"
    using assms(2) by (simp add: jump_to_prev_match_def Let_def f1)
  then have p: "jump_to_prev_match st1 = Some st2" by (simp only: prev s2(1))
  have "cm_search st2 = cm_search st \<and> cm_cursor st2 = (ms_line_idx (?ms ! ?i), ms_col_start (?ms ! ?i))"
    using s2(1) i by (auto simp: jump_to_match_def nth_opt_def f1)
  then show ?thesis using n p s2(2) by blast
qed

definition two_matches :: copy_mode where
  "two_matches = (cm_new 10 4 0 0)\<lparr>cm_search := search_default\<lparr>ss_query := [97],
     ss_matches := [\<lparr>ms_line_idx = 2, ms_col_start = 0, ms_col_end = 0\<rparr>, \<lparr>ms_line_idx = 9, ms_col_start = 1, ms_col_end = 1\<rparr>]\<rparr>\<rparr>"

lemma two_matches_ok: "cm_ok two_matches" "ss_matches (cm_search two_matches) \<noteq> []"
  by (simp_all add: two_matches_def cm_ok_def view_ok_def cm_new_def search_default_def matches_ok_def u16_max_def u32_max_def)

lemma next_match_and_back_witness:
  "\<exists>st1 st2. jump_to_next_match two_matches = Some st1 \<and> jump_to_prev_match st1 = Some st2 \<and> cm_search st2 = cm_search two_matches
    \<and> cm_cursor st2 = (2, 0) \<and> cursor_visible st2"
proof -
  have "ss_matches (cm_search two_matches) ! ss_current (cm_search two_matches) = \<lparr>ms_line_idx = 2, ms_col_start = 0, ms_col_end = 0\<rparr>"
    by (simp add: two_matches_def search_default_def)
  then show ?thesis using next_match_and_back [OF two_matches_ok] by simp
qed

section \<open>A resize\<close>

lemma set_pane_rows_ok:
  assumes "cm_ok st" "n \<le> u32_max" "rows \<le> u16_max" "matches_ok n (cm_search st)"
  shows "cm_ok (set_pane_rows rows n st)"
  using assms by (auto simp: cm_ok_def view_ok_def set_pane_rows_def Let_def split: option.split prod.split)




end
