(* ===== verification/Block_Mode.thy ===== *)
theory Block_Mode
  imports Blocks Finder
begin

unbundle bit_operations_syntax

text \<open>
  Block mode, after \<open>crates/mux/src/block_mode.rs\<close>: navigation over the command blocks of a pane, with a
  filter that narrows them as its query is typed.  A block is named by the line of its prompt.
\<close>

section \<open>State\<close>

record block_filter =
  bf_query :: rstr
  bf_prompt_active :: bool
  bf_matches :: "nat list"

record block_mode =
  bm_selected :: nat
  bm_viewport_top :: nat
  bm_pane_rows :: nat
  bm_total_lines :: nat
  bm_filter :: "block_filter option"

datatype block_mode_action =
    BmRender
  | BmExit
  | BmYank rstr
  | BmReRun rstr
  | BmToggleFold nat
  | BmFoldAll
  | BmUnfoldAll
  | BmIgnore

definition bm_recenter :: "block_mode \<Rightarrow> block_mode" where
  "bm_recenter st = st\<lparr>bm_viewport_top := min (bm_selected st) (bm_total_lines st - bm_pane_rows st)\<rparr>"

definition bm_at :: "screen \<Rightarrow> nat \<Rightarrow> nat \<Rightarrow> block_mode" where
  "bm_at s pane_rows sel =
     bm_recenter \<lparr>bm_selected = sel, bm_viewport_top = 0, bm_pane_rows = pane_rows,
       bm_total_lines = total_lines s, bm_filter = None\<rparr>"

definition bm_new_for :: "screen \<Rightarrow> nat \<Rightarrow> block_mode option" where
  "bm_new_for s pane_rows =
     (if alt s \<noteq> None then None else map_option (bm_at s pane_rows) (last_prompt_line s))"

definition bm_new_at :: "screen \<Rightarrow> nat \<Rightarrow> nat \<Rightarrow> block_mode option" where
  "bm_new_at s pane_rows line =
     (if alt s \<noteq> None then None
      else map_option (bm_at s pane_rows)
        (case prompt_at_or_above s line of Some p \<Rightarrow> Some p | None \<Rightarrow> first_prompt_line s))"

definition bm_set_pane_rows :: "nat \<Rightarrow> nat \<Rightarrow> block_mode \<Rightarrow> block_mode" where
  "bm_set_pane_rows pane_rows n st =
     (let st = st\<lparr>bm_pane_rows := pane_rows, bm_total_lines := n\<rparr>
      in bm_recenter (if bm_selected st \<ge> n then st\<lparr>bm_selected := n - 1\<rparr> else st))"

section \<open>Motions\<close>

definition bm_move_to :: "nat option \<Rightarrow> block_mode \<Rightarrow> block_mode \<times> block_mode_action" where
  "bm_move_to target st =
     (case target of
        Some p \<Rightarrow> (bm_recenter (st\<lparr>bm_selected := p\<rparr>), BmRender)
      | None \<Rightarrow> (st, BmIgnore))"

definition active_set :: "screen \<Rightarrow> block_mode \<Rightarrow> nat list" where
  "active_set s st =
     (case bm_filter st of
        Some f \<Rightarrow> if bf_query f \<noteq> [] then bf_matches f else all_prompt_lines s
      | None \<Rightarrow> all_prompt_lines s)"

definition next_in :: "nat list \<Rightarrow> nat \<Rightarrow> bool \<Rightarrow> nat option" where
  "next_in ps sel forward =
     (if ps = [] then None
      else if forward then (case find (\<lambda>p. p > sel) ps of Some p \<Rightarrow> Some p | None \<Rightarrow> head_opt ps)
      else (case find (\<lambda>p. p < sel) (rev ps) of Some p \<Rightarrow> Some p | None \<Rightarrow> last_opt ps))"

definition next_failed :: "screen \<Rightarrow> nat list \<Rightarrow> nat \<Rightarrow> bool \<Rightarrow> nat option" where
  "next_failed s ps sel forward =
     next_in (filter (\<lambda>p. case closing_exit s p of Some c \<Rightarrow> c \<noteq> 0 | None \<Rightarrow> False) ps) sel forward"

section \<open>The filter\<close>

definition block_matches :: "(rstr \<Rightarrow> rstr) \<Rightarrow> screen \<Rightarrow> rstr \<Rightarrow> nat \<Rightarrow> bool" where
  "block_matches lower s q prompt = str_contains (lower (block_text s (block_extent s prompt))) (lower q)"

definition recompute_matches :: "(rstr \<Rightarrow> rstr) \<Rightarrow> screen \<Rightarrow> rstr \<Rightarrow> nat list option \<Rightarrow> nat list" where
  "recompute_matches lower s q prior =
     (if q = [] then all_prompt_lines s
      else filter (block_matches lower s q) (case prior of Some ps \<Rightarrow> ps | None \<Rightarrow> all_prompt_lines s))"

definition snap_after_filter :: "block_mode \<Rightarrow> block_mode" where
  "snap_after_filter st =
     (case bm_filter st of
        None \<Rightarrow> st
      | Some f \<Rightarrow>
          if bf_query f = [] \<or> bf_matches f = [] \<or> bm_selected st \<in> set (bf_matches f) then st
          else (case (case find (\<lambda>p. p \<ge> bm_selected st) (bf_matches f) of
                        Some p \<Rightarrow> Some p | None \<Rightarrow> find (\<lambda>p. p < bm_selected st) (rev (bf_matches f))) of
                  Some t \<Rightarrow> bm_recenter (st\<lparr>bm_selected := t\<rparr>)
                | None \<Rightarrow> st))"

definition handle_filter_prompt ::
    "(rstr \<Rightarrow> rstr) \<Rightarrow> key_event \<Rightarrow> screen \<Rightarrow> block_mode \<Rightarrow> block_mode \<times> block_mode_action" where
  "handle_filter_prompt lower ev s st =
     (let m = ke_mods ev;
          edit = (\<lambda>f q ms. (snap_after_filter (st\<lparr>bm_filter := Some (f\<lparr>bf_query := q, bf_matches := ms\<rparr>)\<rparr>), BmRender))
      in case ke_key ev of
           KEnter \<Rightarrow>
             if m = 0 then
               (case bm_filter st of
                  Some f \<Rightarrow> (st\<lparr>bm_filter := (if bf_query f = [] then None else Some (f\<lparr>bf_prompt_active := False\<rparr>))\<rparr>, BmRender)
                | None \<Rightarrow> (st, BmRender))
             else (st, BmIgnore)
         | KEscape \<Rightarrow> if m = 0 then (st\<lparr>bm_filter := None\<rparr>, BmRender) else (st, BmIgnore)
         | KBackspace \<Rightarrow>
             if m = 0 then
               (case bm_filter st of
                  Some f \<Rightarrow> (let q = butlast (bf_query f) in edit f q (recompute_matches lower s q None))
                | None \<Rightarrow> (st, BmIgnore))
             else (st, BmIgnore)
         | KChar ch \<Rightarrow>
             if m = 0 \<or> m = MOD_SHIFT then
               (case bm_filter st of
                  Some f \<Rightarrow> (let q = bf_query f @ [ch] in edit f q (recompute_matches lower s q (Some (bf_matches f))))
                | None \<Rightarrow> (st, BmIgnore))
             else (st, BmIgnore)
         | _ \<Rightarrow> (st, BmIgnore))"

section \<open>Keys\<close>

definition bm_motion :: "key_event \<Rightarrow> screen \<Rightarrow> block_mode \<Rightarrow> block_mode \<times> block_mode_action" where
  "bm_motion ev s st =
     (let m = ke_mods ev; key = ke_key ev; ps = active_set s st; sel = bm_selected st;
          shifted = (m = 0 \<or> m = MOD_SHIFT)
      in if m = 0 \<and> key \<in> {KChar (chr (CHR ''j'')), KArrow DirDown} then bm_move_to (next_in ps sel True) st
         else if m = 0 \<and> key \<in> {KChar (chr (CHR ''k'')), KArrow DirUp} then bm_move_to (next_in ps sel False) st
         else if shifted \<and> key = KChar (chr (CHR ''J'')) then bm_move_to (next_failed s ps sel True) st
         else if shifted \<and> key = KChar (chr (CHR ''K'')) then bm_move_to (next_failed s ps sel False) st
         else if m = 0 \<and> key = KChar (chr (CHR ''g'')) then bm_move_to (head_opt ps) st
         else if shifted \<and> key = KChar (chr (CHR ''G'')) then bm_move_to (last_opt ps) st
         else if m = 0 \<and> key = KChar (chr (CHR ''y'')) then (st, BmYank (block_text s (block_extent s sel)))
         else if m = 0 \<and> key = KChar (chr (CHR ''o'')) then
           (st, case block_output_range s sel of Some lines \<Rightarrow> BmYank (block_text s lines) | None \<Rightarrow> BmIgnore)
         else if m = 0 \<and> key = KChar (chr (CHR ''c'')) then
           (st, case block_command_line s sel of Some cmd \<Rightarrow> BmYank cmd | None \<Rightarrow> BmIgnore)
         else if m = 0 \<and> key = KChar (chr (CHR ''r'')) then
           (st, case block_command_line s sel of Some cmd \<Rightarrow> BmReRun cmd | None \<Rightarrow> BmIgnore)
         else if m = 0 \<and> key = KTab then (st, BmToggleFold sel)
         else if shifted \<and> key = KChar (chr (CHR ''Z'')) then (st, BmFoldAll)
         else if shifted \<and> key = KChar (chr (CHR ''O'')) then (st, BmUnfoldAll)
         else (st, BmIgnore))"

text \<open>The selection is moved to a prompt that still exists; \<open>None\<close> when there is none.\<close>

definition bm_reanchor :: "screen \<Rightarrow> block_mode \<Rightarrow> block_mode option" where
  "bm_reanchor s st =
     map_option (\<lambda>p. st\<lparr>bm_total_lines := total_lines s, bm_selected := p\<rparr>)
       (case prompt_at_or_above s (bm_selected st) of Some p \<Rightarrow> Some p | None \<Rightarrow> first_prompt_line s)"

definition open_filter :: "screen \<Rightarrow> block_mode \<Rightarrow> block_mode" where
  "open_filter s st =
     (let f = (case bm_filter st of
                 Some f \<Rightarrow> f | None \<Rightarrow> \<lparr>bf_query = [], bf_prompt_active = False, bf_matches = []\<rparr>);
          f = f\<lparr>bf_prompt_active := True\<rparr>
      in st\<lparr>bm_filter := Some (if bf_query f = [] then f\<lparr>bf_matches := all_prompt_lines s\<rparr> else f)\<rparr>)"

definition handle_block_mode ::
    "(rstr \<Rightarrow> rstr) \<Rightarrow> key_event \<Rightarrow> screen \<Rightarrow> block_mode \<Rightarrow> block_mode \<times> block_mode_action" where
  "handle_block_mode lower ev s st =
     (if alt s \<noteq> None then (st, BmExit)
      else case bm_reanchor s st of
             None \<Rightarrow> (st\<lparr>bm_total_lines := total_lines s\<rparr>, BmExit)
           | Some st \<Rightarrow>
               if (case bm_filter st of Some f \<Rightarrow> bf_prompt_active f | None \<Rightarrow> False) then handle_filter_prompt lower ev s st
               else if ke_mods ev = 0 \<and> ke_key ev = KChar (chr (CHR ''/'')) then (open_filter s st, BmRender)
               else if ke_mods ev = 0 \<and> ke_key ev \<in> {KEscape, KChar (chr (CHR ''q''))} then
                 (if ke_key ev = KEscape \<and> bm_filter st \<noteq> None then (st\<lparr>bm_filter := None\<rparr>, BmRender)
                  else (st, BmExit))
               else bm_motion ev s st)"

end
