(* ===== verification/Hint.thy ===== *)
theory Hint
  imports Selection Key_Encode Utf8 "HOL-Library.Product_Lexorder"
begin

text \<open>
  Hint mode, after \<open>crates/mux/src/hint.rs\<close>: the spans of the visible grid that can be copied or opened,
  their labels, and the keys that pick one.  The crate \<open>regex\<close> is two parameters: \<open>pats\<close> gives for each
  kind of hint the matches of its pattern in a line, as pairs of character positions, in order;
  \<open>line_col\<close> the position of a trailing line and column.  \<open>is_upper\<close> is \<open>char::is_uppercase\<close> (Unicode).
  Positions count characters where the code counts bytes.
\<close>

section \<open>Targets\<close>

datatype hint_kind = HkHyperlink | HkUrl | HkEmail | HkPath | HkUuid | HkIp | HkSha | HkHexColor

primrec hint_priority :: "hint_kind \<Rightarrow> nat" where
  "hint_priority HkHyperlink = 0"
| "hint_priority HkUrl = 1"
| "hint_priority HkEmail = 2"
| "hint_priority HkPath = 3"
| "hint_priority HkUuid = 4"
| "hint_priority HkIp = 5"
| "hint_priority HkSha = 6"
| "hint_priority HkHexColor = 7"

record hint_target =
  ht_start :: point
  ht_text :: rstr
  ht_kind :: hint_kind

definition hint_hex_val :: "char \<Rightarrow> nat option" where
  "hint_hex_val c =
     (let b = chr c
      in if 48 \<le> b \<and> b \<le> 57 then Some (b - 48)
         else if 97 \<le> b \<and> b \<le> 102 then Some (b - 97 + 10)
         else if 65 \<le> b \<and> b \<le> 70 then Some (b - 65 + 10)
         else None)"

fun percent_decode :: "bytes \<Rightarrow> bytes" where
  "percent_decode (b # x # y # rest) =
     (case (if b = CHR ''%'' then (hint_hex_val x, hint_hex_val y) else (None, None)) of
        (Some h, Some l) \<Rightarrow> char_of (16 * h + l) # percent_decode rest
      | _ \<Rightarrow> b # percent_decode (x # y # rest))"
| "percent_decode bs = bs"

definition file_url_to_path :: "rstr \<Rightarrow> rstr option" where
  "file_url_to_path s =
     Option.bind (strip_prefix (lit ''file://'') s) (\<lambda>rest.
       map_option (\<lambda>slash. from_utf8_lossy (percent_decode (utf8_encode (drop slash rest))))
         (position (\<lambda>c. c = 47) rest))"

definition open_text :: "(rstr \<Rightarrow> nat option) \<Rightarrow> hint_target \<Rightarrow> rstr" where
  "open_text line_col t =
     (case (if ht_kind t = HkPath then line_col (ht_text t) else None) of
        Some start \<Rightarrow> take start (ht_text t)
      | None \<Rightarrow> ht_text t)"

definition copy_text :: "hint_target \<Rightarrow> rstr" where
  "copy_text t = (case file_url_to_path (ht_text t) of Some p \<Rightarrow> p | None \<Rightarrow> ht_text t)"

section \<open>Scanning a row\<close>

record hint_span =
  hsp_start_col :: nat
  hsp_end_col :: nat
  hsp_kind :: hint_kind
  hsp_text :: rstr

definition trim_trailing :: "hint_kind \<Rightarrow> rstr \<Rightarrow> rstr" where
  "trim_trailing k s =
     (if k = HkUrl then rev (dropWhile (\<lambda>c. c \<in> set (lit ''.,;:!?)]}'' @ [39, 34])) (rev s)) else s)"

text \<open>The text of a row and the column of each of its glyphs, with the end of the row.\<close>

definition hint_line :: "screen \<Rightarrow> nat \<Rightarrow> rstr \<times> (nat \<times> nat) list" where
  "hint_line s r =
     (let cols = num_cols (active s);
          (line, starts) = foldl (\<lambda>(line, starts) c.
             case get_cell (active s) r c of
               None \<Rightarrow> (line, starts)
             | Some cl \<Rightarrow>
                 if is_wide_spacer cl then (line, starts)
                 else (line @ (if grapheme cl = [] then [32] else grapheme cl), starts @ [(length line, c)]))
             ([], []) [0..<cols]
      in (line, starts @ [(length line, cols)]))"

text \<open>The last start at or before a position; the starts ascend.\<close>

definition hint_col_at :: "(nat \<times> nat) list \<Rightarrow> nat \<Rightarrow> nat" where
  "hint_col_at starts pos = snd (starts ! (length (takeWhile (\<lambda>(b, _). b \<le> pos) starts) - 1))"

definition pattern_spans ::
    "(hint_kind \<Rightarrow> rstr \<Rightarrow> (nat \<times> nat) list) \<Rightarrow> rstr \<Rightarrow> (nat \<times> nat) list \<Rightarrow> hint_kind \<Rightarrow> hint_span list" where
  "pattern_spans pats line starts k =
     List.map_filter (\<lambda>(a, b).
        let t = trim_trailing k (take (b - a) (drop a line))
        in if t = [] then None
           else Some \<lparr>hsp_start_col = hint_col_at starts a, hsp_end_col = hint_col_at starts b, hsp_kind = k, hsp_text = t\<rparr>)
       (pats k line)"

text \<open>The runs of cells with one hyperlink.\<close>

definition cell_link :: "screen \<Rightarrow> nat \<Rightarrow> nat \<Rightarrow> nat option" where
  "cell_link s r c = Option.bind (get_cell (active s) r c) c_link"

definition link_run :: "screen \<Rightarrow> nat \<Rightarrow> nat \<Rightarrow> nat \<Rightarrow> nat" where
  "link_run s r i c =
     (case find (\<lambda>d. cell_link s r d \<noteq> Some i) [c..<num_cols (active s)] of Some d \<Rightarrow> d | None \<Rightarrow> num_cols (active s))"

lemma link_run_ge: "c \<le> num_cols (active s) \<Longrightarrow> cell_link s r c = Some i \<Longrightarrow> c < num_cols (active s) \<Longrightarrow> c < link_run s r i c"
  by (auto simp: link_run_def find_upt_Some split: option.split)

function link_spans :: "screen \<Rightarrow> nat \<Rightarrow> nat \<Rightarrow> hint_span list" where
  "link_spans s r c =
     (if c < num_cols (active s) then
        (case cell_link s r c of
           None \<Rightarrow> link_spans s r (c + 1)
         | Some i \<Rightarrow>
             (let e = link_run s r i c
              in (case link_get i (hyperlinks s) of
                    Some url \<Rightarrow> [\<lparr>hsp_start_col = c, hsp_end_col = e, hsp_kind = HkHyperlink, hsp_text = url\<rparr>]
                  | None \<Rightarrow> []) @ link_spans s r e))
      else [])"
  by pat_completeness auto
termination
proof (relation "measure (\<lambda>(s, r, c). num_cols (active s) - c)", goal_cases)
  case (3 s r c i e)
  then show ?case using link_run_ge [of c s r i] by simp
qed auto

declare link_spans.simps [simp del]

definition resolve_overlaps :: "hint_span list \<Rightarrow> hint_span list" where
  "resolve_overlaps spans =
     fst (foldl (\<lambda>(kept, covered_until) sp.
            if hsp_start_col sp \<ge> covered_until then (kept @ [sp], hsp_end_col sp) else (kept, covered_until))
          ([], 0)
          (sort_key (\<lambda>sp. (hsp_start_col sp, - (int (hsp_end_col sp) - int (hsp_start_col sp)), hint_priority (hsp_kind sp))) spans))"

definition scan_row :: "(hint_kind \<Rightarrow> rstr \<Rightarrow> (nat \<times> nat) list) \<Rightarrow> screen \<Rightarrow> nat \<Rightarrow> hint_target list" where
  "scan_row pats s r =
     (let (line, starts) = hint_line s r
      in map (\<lambda>sp. \<lparr>ht_start = mk_point r (hsp_start_col sp), ht_text = hsp_text sp, ht_kind = hsp_kind sp\<rparr>)
           (resolve_overlaps
              (concat (map (pattern_spans pats line starts) [HkUrl, HkEmail, HkPath, HkUuid, HkIp, HkSha, HkHexColor])
               @ link_spans s r 0)))"

definition scan_hints :: "(hint_kind \<Rightarrow> rstr \<Rightarrow> (nat \<times> nat) list) \<Rightarrow> screen \<Rightarrow> hint_target list" where
  "scan_hints pats s = concat (map (scan_row pats s) [0..<num_rows (active s)])"

section \<open>Labels\<close>

definition DEFAULT_ALPHABET :: rstr where "DEFAULT_ALPHABET = lit ''asdfghjkl''"

definition effective_alphabet :: "rstr \<Rightarrow> rstr" where
  "effective_alphabet configured =
     (let distinct_chars = foldl (\<lambda>acc c. if c \<in> set acc then acc else acc @ [c]) [] configured
      in if length distinct_chars \<ge> 2 then distinct_chars else DEFAULT_ALPHABET)"

text \<open>How long the labels are; the product is checked in a \<open>usize\<close> of 64 bits.\<close>

partial_function (option) label_len :: "nat \<Rightarrow> nat \<Rightarrow> nat \<Rightarrow> nat \<Rightarrow> nat option" where
  "label_len k n len cap =
     (if cap < n then (if cap * k > u64_max then Some len else label_len k n (len + 1) (cap * k))
      else Some len)"

text \<open>The counter, its last digit first.\<close>

fun counter_incr :: "nat \<Rightarrow> nat list \<Rightarrow> nat list" where
  "counter_incr k [] = []"
| "counter_incr k (d # ds) = (if d + 1 < k then (d + 1) # ds else 0 # counter_incr k ds)"

fun label_loop :: "nat \<Rightarrow> rstr \<Rightarrow> nat \<Rightarrow> nat list \<Rightarrow> rstr list" where
  "label_loop k chars 0 idx = []"
| "label_loop k chars (Suc n) idx =
     map (\<lambda>i. chars ! min i (length chars - 1)) idx # label_loop k chars n (rev (counter_incr k (rev idx)))"

text \<open>\<open>None\<close> for an empty alphabet, where the code would panic.\<close>

definition assign_labels :: "nat \<Rightarrow> rstr \<Rightarrow> rstr list option" where
  "assign_labels n alphabet =
     (if n = 0 then Some []
      else let k = max (length alphabet) 2
           in Option.bind (label_len k n 1 k) (\<lambda>len.
                if alphabet = [] then None else Some (label_loop k alphabet n (replicate len 0))))"

section \<open>Picking\<close>

datatype hint_action = HintCopy | HintOpen

record hint_pick =
  hp_text :: rstr
  hp_action :: hint_action

datatype hint_outcome = HoNone | HoRedraw | HoCancel | HoPick hint_pick

record hint_state =
  hs_labeled :: "(rstr \<times> hint_target) list"
  hs_typed :: rstr

definition hint_state_new :: "hint_target list \<Rightarrow> rstr \<Rightarrow> hint_state option" where
  "hint_state_new targets alphabet =
     map_option (\<lambda>labels. \<lparr>hs_labeled = zip labels targets, hs_typed = []\<rparr>) (assign_labels (length targets) alphabet)"

definition starts_with :: "rstr \<Rightarrow> rstr \<Rightarrow> bool" where
  "starts_with p s \<longleftrightarrow> take (length p) s = p"

definition hint_visible :: "hint_state \<Rightarrow> (rstr \<times> hint_target) list" where
  "hint_visible st = filter (\<lambda>(l, _). starts_with (hs_typed st) l) (hs_labeled st)"

definition handle_hint ::
    "(rstr \<Rightarrow> nat option) \<Rightarrow> (nat \<Rightarrow> bool) \<Rightarrow> key_event \<Rightarrow> hint_state \<Rightarrow> hint_state \<times> hint_outcome" where
  "handle_hint line_col is_upper ev st =
     (if ke_key ev = KEscape \<and> ke_mods ev = 0 then (st, HoCancel)
      else case ke_key ev of
             KChar c \<Rightarrow>
               if \<not> (ke_mods ev = 0 \<or> ke_mods ev = MOD_SHIFT) then (st, HoNone)
               else (let candidate = hs_typed st @ [to_ascii_lowercase c]
                     in if \<not> list_ex (\<lambda>(l, _). starts_with candidate l) (hs_labeled st) then (st, HoNone)
                        else (let st = st\<lparr>hs_typed := candidate\<rparr>
                              in case find (\<lambda>(l, _). l = hs_typed st) (hs_labeled st) of
                                   Some (_, target) \<Rightarrow>
                                     (st, HoPick (if is_upper c
                                        then \<lparr>hp_text = open_text line_col target, hp_action = HintOpen\<rparr>
                                        else \<lparr>hp_text = copy_text target, hp_action = HintCopy\<rparr>))
                                 | None \<Rightarrow> (st, HoRedraw)))
           | _ \<Rightarrow> (st, HoNone))"

end
