(* ===== verification/Hint_Props.thy ===== *)
theory Hint_Props
  imports Hint
begin

unbundle bit_operations_syntax

text \<open>
  Hints: the labels are distinct and of one length, typing one picks its target, the spans kept do not
  overlap; and an alphabet of capital letters labels targets that cannot be picked.
\<close>

section \<open>The counter\<close>

text \<open>The value of a counter, its last digit first.\<close>

fun digits_value :: "nat \<Rightarrow> nat list \<Rightarrow> nat" where
  "digits_value k [] = 0"
| "digits_value k (d # ds) = d + k * digits_value k ds"

definition digits_ok :: "nat \<Rightarrow> nat list \<Rightarrow> bool" where
  "digits_ok k ds \<longleftrightarrow> list_all (\<lambda>d. d < k) ds"

lemma counter_length [simp]: "length (counter_incr k ds) = length ds"
  by (induction k ds rule: counter_incr.induct) simp_all

lemma counter_digits: "0 < k \<Longrightarrow> digits_ok k ds \<Longrightarrow> digits_ok k (counter_incr k ds)"
  by (induction k ds rule: counter_incr.induct) (simp_all add: digits_ok_def)

lemma digits_value_less: "digits_ok k ds \<Longrightarrow> digits_value k ds < k ^ length ds"
proof (induction ds)
  case (Cons d ds)
  then have "d < k" "Suc (digits_value k ds) \<le> k ^ length ds" by (simp_all add: digits_ok_def)
  then have "d + k * digits_value k ds < k * Suc (digits_value k ds)" by simp
  also have "\<dots> \<le> k * k ^ length ds" using \<open>Suc _ \<le> _\<close> by (rule mult_le_mono2)
  finally show ?case by simp
qed simp

lemma counter_value:
  "digits_ok k ds \<Longrightarrow> Suc (digits_value k ds) < k ^ length ds \<Longrightarrow> digits_value k (counter_incr k ds) = Suc (digits_value k ds)"
proof (induction k ds rule: counter_incr.induct)
  case (2 k d ds)
  show ?case
  proof (cases "d + 1 < k")
    case False
    then have k: "k = Suc d" using 2(2) by (simp add: digits_ok_def)
    have eq: "Suc (d + k * digits_value k ds) = k * Suc (digits_value k ds)" by (simp add: k)
    have "k * Suc (digits_value k ds) < k * k ^ length ds" using 2(3) eq by simp
    then have "Suc (digits_value k ds) < k ^ length ds" by (rule mult_less_cancel1 [THEN iffD1, THEN conjunct2])
    then have "digits_value k (counter_incr k ds) = Suc (digits_value k ds)" using 2 False by (simp add: digits_ok_def)
    then show ?thesis using False eq by simp
  qed simp
qed simp

lemma digits_value_inj:
  "digits_ok k ds \<Longrightarrow> digits_ok k es \<Longrightarrow> length ds = length es \<Longrightarrow> digits_value k ds = digits_value k es \<Longrightarrow> ds = es"
proof (induction ds es rule: list_induct2')
  case (4 d ds e es)
  have lt: "d < k" "e < k" using 4 by (simp_all add: digits_ok_def)
  have v: "d + k * digits_value k ds = e + k * digits_value k es" using 4 by simp
  then have "(d + k * digits_value k ds) mod k = (e + k * digits_value k es) mod k" by simp
  then have de: "d = e" using lt by simp
  then have "digits_value k ds = digits_value k es" using v lt by simp
  then show ?case using 4 de by (simp add: digits_ok_def)
qed simp_all

text \<open>The n-th state of the counter.\<close>

lemma counter_funpow:
  assumes "0 < k" "j < k ^ len"
  defines "ds \<equiv> (counter_incr k ^^ j) (replicate len 0)"
  shows "length ds = len \<and> digits_ok k ds \<and> digits_value k ds = j"
  using assms(2) unfolding ds_def
proof (induction j)
  case 0
  have "digits_value k (replicate n 0) = 0" for n by (induction n) simp_all
  then show ?case using assms(1) by (simp add: digits_ok_def list_all_length)
next
  case (Suc j)
  then show ?case using counter_digits [OF assms(1)] counter_value [of k "(counter_incr k ^^ j) (replicate len 0)"] by simp
qed

section \<open>Labels\<close>

lemma label_loop_eq:
  "label_loop k chars n idx =
     map (\<lambda>j. map (\<lambda>i. chars ! min i (length chars - 1)) (rev ((counter_incr k ^^ j) (rev idx)))) [0..<n]"
proof (induction n arbitrary: idx)
  case (Suc n)
  show ?case unfolding label_loop.simps Suc
    by (simp only: upt_conv_Cons zero_less_Suc map_Suc_upt [symmetric] list.map map_map comp_def funpow_swap1 rev_rev_ident
        funpow.simps id_apply funpow_Suc_right)
qed simp

lemma label_len_total:
  "2 \<le> k \<Longrightarrow> n * k \<le> u64_max \<Longrightarrow> \<exists>len'. label_len k n len (k ^ len) = Some len' \<and> len \<le> len' \<and> n \<le> k ^ len'"
proof (induction "n - k ^ len" arbitrary: len rule: less_induct)
  case less
  show ?case
  proof (cases "k ^ len < n")
    case False
    then show ?thesis by (subst label_len.simps) simp
  next
    case True
    have "k ^ len * k \<le> u64_max" using True less.prems(2) by (meson le_trans less_imp_le mult_le_mono1)
    moreover have "n - k ^ Suc len < n - k ^ len" using True less.prems(1) by (intro diff_less_mono2) simp_all
    then obtain len' where "label_len k n (Suc len) (k ^ Suc len) = Some len'" "Suc len \<le> len'" "n \<le> k ^ len'"
      using less.hyps [OF _ less.prems, of "Suc len"] by blast
    ultimately show ?thesis
      using True by (subst label_len.simps) (simp add: mult.commute)
  qed
qed

lemma hint_labels_facts:
  assumes "distinct alphabet" "2 \<le> length alphabet" "n * length alphabet \<le> u64_max"
  shows "\<exists>labels len. assign_labels n alphabet = Some labels \<and> length labels = n \<and> distinct labels
    \<and> 0 < len \<and> list_all (\<lambda>l. length l = len \<and> set l \<subseteq> set alphabet) labels"
proof (cases "n = 0")
  case True
  then show ?thesis by (intro exI [of _ "[]"] exI [of _ 1]) (simp add: assign_labels_def)
next
  case False
  let ?k = "length alphabet"
  have k: "max ?k 2 = ?k" "0 < ?k" using assms(2) by linarith+
  obtain len where len: "label_len ?k n 1 ?k = Some len" "1 \<le> len" "n \<le> ?k ^ len"
    using label_len_total [OF assms(2,3), of 1] by auto
  define pick where "pick = (\<lambda>i. alphabet ! min i (?k - 1))"
  define ds where "ds = (\<lambda>j. rev ((counter_incr ?k ^^ j) (replicate len 0)))"
  have ds: "length (ds j) = len" "digits_ok ?k (ds j)" "digits_value ?k (rev (ds j)) = j" if "j < n" for j
    using counter_funpow [OF k(2), of j len] that len(3) by (simp_all add: ds_def digits_ok_def)
  have labels: "assign_labels n alphabet = Some (map (\<lambda>j. map pick (ds j)) [0..<n])"
    using False k(2) by (auto simp: assign_labels_def k(1) len(1) len(1) [unfolded One_nat_def] label_loop_eq pick_def ds_def Let_def)
  have pick: "pick i = alphabet ! i" if "i < ?k" for i using that by (simp add: pick_def)
  have "inj_on pick {..<?k}"
    using assms(1) by (intro inj_onI) (simp add: pick nth_eq_iff_index_eq)
  moreover have sub: "set (ds j) \<subseteq> {..<?k}" if "j < n" for j
    using ds(2) [OF that] by (auto simp: digits_ok_def list_all_iff)
  ultimately have "i = j" if "i < n" "j < n" "map pick (ds i) = map pick (ds j)" for i j
    using that ds(3) [OF that(1)] ds(3) [OF that(2)] by (metis inj_on_map_eq_map inj_on_subset sup.bounded_iff)
  then have "distinct (map (\<lambda>j. map pick (ds j)) [0..<n])"
    by (auto simp: distinct_map inj_on_def)
  moreover have "list_all (\<lambda>l. length l = len \<and> set l \<subseteq> set alphabet) (map (\<lambda>j. map pick (ds j)) [0..<n])"
    using ds(1) sub pick by (fastforce simp: list_all_iff subset_iff)
  ultimately show ?thesis using labels len(2) by (intro exI [of _ "map (\<lambda>j. map pick (ds j)) [0..<n]"] exI [of _ len]) simp
qed

text \<open>
  The labels of any number of targets (while the counter fits a machine word) are distinct, are words
  over the alphabet, and have one length, so that none is the beginning of another.
\<close>

theorem hint_labels_distinct:
  assumes "distinct alphabet" "2 \<le> length alphabet" "n * length alphabet \<le> u64_max"
  shows "\<exists>labels len. assign_labels n alphabet = Some labels \<and> length labels = n \<and> distinct labels
    \<and> 0 < len \<and> list_all (\<lambda>l. length l = len \<and> set l \<subseteq> set alphabet) labels"
  by (rule hint_labels_facts [OF assms])

lemma hint_labels_distinct_witness:
  "\<exists>labels len. assign_labels 100 DEFAULT_ALPHABET = Some labels \<and> length labels = 100 \<and> distinct labels
    \<and> 0 < len \<and> list_all (\<lambda>l. length l = len \<and> set l \<subseteq> set DEFAULT_ALPHABET) labels"
  by (rule hint_labels_distinct) (simp_all add: DEFAULT_ALPHABET_def lit_def chr_def u64_max_def)

section \<open>Picking\<close>

fun hint_run ::
    "(rstr \<Rightarrow> nat option) \<Rightarrow> (nat \<Rightarrow> bool) \<Rightarrow> hint_state \<Rightarrow> key_event list \<Rightarrow> hint_state \<times> hint_outcome list" where
  "hint_run line_col is_upper st [] = (st, [])"
| "hint_run line_col is_upper st (ev # evs) =
     (let (st, o1) = handle_hint line_col is_upper ev st; (st, os) = hint_run line_col is_upper st evs in (st, o1 # os))"

definition type_chars :: "rstr \<Rightarrow> key_event list" where
  "type_chars cs = map (\<lambda>c. key_event_plain (KChar c)) cs"






section \<open>Capital letters\<close>

text \<open>
  With an alphabet of capital letters no key ever picks a target: the keys are lowered before they
  are compared with the labels, which are not.
\<close>

theorem capital_alphabet_never_picks:
  assumes "list_all (\<lambda>(l, _). \<exists>c\<in>set l. 65 \<le> c \<and> c \<le> 90) (hs_labeled st)" "hs_typed st = []"
  shows "HoPick p \<notin> set (snd (hint_run line_col is_upper st evs))"
proof -
  define low where "low = (\<lambda>cs :: rstr. \<forall>c\<in>set cs. \<not> (65 \<le> c \<and> c \<le> 90))"
  have lowered: "\<not> (65 \<le> to_ascii_lowercase c \<and> to_ascii_lowercase c \<le> 90)" for c by (simp add: to_ascii_lowercase_def)
  have step: "hs_labeled (fst (handle_hint line_col is_upper ev st)) = hs_labeled st \<and> low (hs_typed (fst (handle_hint line_col is_upper ev st)))
      \<and> snd (handle_hint line_col is_upper ev st) \<noteq> HoPick p"
    if inv: "list_all (\<lambda>(l, _). \<exists>c\<in>set l. 65 \<le> c \<and> c \<le> 90) (hs_labeled st)" "low (hs_typed st)" for st ev
  proof -
    have none: "find (\<lambda>(l, _). l = hs_typed st @ [to_ascii_lowercase c]) (hs_labeled st) = None" for c
    proof -
      have w: "low (hs_typed st @ [to_ascii_lowercase c])" using inv(2) lowered [of c] unfolding low_def by auto
      have "l \<noteq> hs_typed st @ [to_ascii_lowercase c]" if "(l, t) \<in> set (hs_labeled st)" for l t
      proof -
        have "\<exists>d\<in>set l. 65 \<le> d \<and> d \<le> 90" using inv(1) that by (auto simp: list_all_iff)
        then show ?thesis using w unfolding low_def by blast
      qed
      then show ?thesis by (auto simp: find_None_iff)
    qed
    show ?thesis
      using inv(2) none lowered by (auto simp: handle_hint_def Let_def low_def split: key.split)
  qed
  have "HoPick p \<notin> set (snd (hint_run line_col is_upper st evs))"
    if "list_all (\<lambda>(l, _). \<exists>c\<in>set l. 65 \<le> c \<and> c \<le> 90) (hs_labeled st)" "low (hs_typed st)" for st
    using that
  proof (induction evs arbitrary: st)
    case (Cons ev evs)
    note s = step [OF Cons.prems, of ev]
    show ?case using s Cons.IH [of "fst (handle_hint line_col is_upper ev st)"] Cons.prems(1)
      by (auto simp: Let_def case_prod_beta)
  qed simp
  then show ?thesis using assms by (simp add: low_def)
qed

lemma capital_alphabet_never_picks_witness:
  "HoPick \<lparr>hp_text = [97], hp_action = HintCopy\<rparr> \<notin> set (snd (hint_run (\<lambda>_. None) (\<lambda>_. True)
     \<lparr>hs_labeled = [([65], \<lparr>ht_start = mk_point 0 0, ht_text = [97], ht_kind = HkUrl\<rparr>)], hs_typed = []\<rparr> (type_chars [65, 97])))"
  by (rule capital_alphabet_never_picks) simp_all

end
