(* ===== verification/Paint.thy ===== *)
theory Paint
  imports Virtual_Screen Geometry
begin

unbundle bit_operations_syntax

text \<open>
  Painting text, boxes and the status bar into a frame, after the helpers of \<open>crates/mux/src/compositor.rs\<close>,
  with the styles of \<open>crates/status/src/style.rs\<close>.  What comes from the Unicode crates is one record: the
  width of a string, its grapheme clusters, the width of a character, and lower-casing.  Plain
  additions of \<open>u16\<close> values wrap, as in a release build.
\<close>

record unicode =
  uc_width :: "rstr \<Rightarrow> nat"
  uc_graphemes :: "rstr \<Rightarrow> rstr list"
  uc_char_width :: "nat \<Rightarrow> nat"
  uc_lower :: "rstr \<Rightarrow> rstr"

definition wadd16 :: "nat \<Rightarrow> nat \<Rightarrow> nat" where
  "wadd16 a b = as_u16 (a + b)"

definition wsub16 :: "nat \<Rightarrow> nat \<Rightarrow> nat" where
  "wsub16 a b = (if b \<le> a then a - b else a + (u16_max + 1) - b)"

definition graphemes_with_width :: "unicode \<Rightarrow> rstr \<Rightarrow> (rstr \<times> nat) list" where
  "graphemes_with_width u text = map (\<lambda>g. (g, grapheme_advance (uc_width u) g)) (uc_graphemes u text)"

abbreviation dwidth :: "unicode \<Rightarrow> rstr \<Rightarrow> nat" where
  "dwidth u \<equiv> display_width (uc_width u)"

section \<open>Text\<close>

definition plain_cell :: "rstr \<Rightarrow> attrs \<Rightarrow> cell" where
  "plain_cell g a = default_cell\<lparr>grapheme := g, c_attrs := a\<rparr>"

definition colored_cell :: "rstr \<Rightarrow> color \<Rightarrow> color \<Rightarrow> attrs \<Rightarrow> cell" where
  "colored_cell g f b a = default_cell\<lparr>grapheme := g, c_fg := f, c_bg := b, c_attrs := a\<rparr>"

text \<open>A glyph and, for a wide one, its right half.\<close>

definition put_glyph :: "nat \<Rightarrow> nat \<Rightarrow> nat \<Rightarrow> cell \<Rightarrow> virtual_screen \<Rightarrow> virtual_screen" where
  "put_glyph r c w x s = (let s = vs_put r c x s in if w = 2 then vs_put r (c + 1) wide_spacer s else s)"

fun put_graphemes ::
    "(rstr \<Rightarrow> cell) \<Rightarrow> nat \<Rightarrow> nat \<Rightarrow> nat \<Rightarrow> (rstr \<times> nat) list \<Rightarrow> virtual_screen \<Rightarrow> virtual_screen \<times> nat" where
  "put_graphemes mk max_col r c [] s = (s, c)"
| "put_graphemes mk max_col r c ((g, w) # gs) s =
     (if c \<ge> max_col \<or> c \<ge> vs_cols s then (s, c)
      else if w = 2 \<and> (c + 1 \<ge> max_col \<or> c + 1 \<ge> vs_cols s) then (s, c)
      else put_graphemes mk max_col r (wadd16 c w) gs (put_glyph r c w (mk g) s))"

text \<open>Both return the frame and the column after the last glyph.\<close>

definition put_str ::
    "unicode \<Rightarrow> nat \<Rightarrow> nat \<Rightarrow> rstr \<Rightarrow> attrs \<Rightarrow> nat \<Rightarrow> virtual_screen \<Rightarrow> virtual_screen \<times> nat" where
  "put_str u r c text a max_col s =
     put_graphemes (\<lambda>g. plain_cell g a) max_col r c (graphemes_with_width u text) s"

definition put_colored ::
    "unicode \<Rightarrow> nat \<Rightarrow> nat \<Rightarrow> rstr \<Rightarrow> color \<Rightarrow> color \<Rightarrow> attrs \<Rightarrow> nat \<Rightarrow> virtual_screen \<Rightarrow> virtual_screen \<times> nat" where
  "put_colored u r c text f b a max_col s =
     put_graphemes (\<lambda>g. colored_cell g f b a) max_col r c (graphemes_with_width u text) s"

definition put_char :: "unicode \<Rightarrow> nat \<Rightarrow> nat \<Rightarrow> nat \<Rightarrow> attrs \<Rightarrow> virtual_screen \<Rightarrow> virtual_screen \<times> nat" where
  "put_char u r c ch a s =
     (if r \<ge> vs_rows s \<or> c \<ge> vs_cols s then (s, 0)
      else (let w = max (uc_char_width u ch) 1
            in if w = 2 \<and> c + 1 \<ge> vs_cols s then (s, 0) else (put_glyph r c w (plain_cell [ch] a) s, w)))"

section \<open>Boxes\<close>

definition border_glyph :: "nat \<Rightarrow> nat \<Rightarrow> nat \<Rightarrow> nat \<Rightarrow> nat" where
  "border_glyph r c h w =
     (let last_r = h - 1; last_c = w - 1
      in if r = 0 \<and> c = 0 then 0x250C
         else if r = 0 \<and> c = last_c then 0x2510
         else if c = 0 \<and> r = last_r then 0x2514
         else if r = last_r \<and> c = last_c then 0x2518
         else if r = 0 \<or> c = 0 then (if r = 0 \<or> r = last_r then 0x2500 else 0x2502)
         else if r = last_r then 0x2500
         else if c = last_c then 0x2502
         else 32)"

record ring_colors =
  rng_active :: color
  rng_marked :: color
  rng_drag_source :: color
  rng_drag_target :: color

definition SOURCE_DRAG_COLOR :: nat where "SOURCE_DRAG_COLOR = 14"
definition TARGET_DRAG_COLOR :: nat where "TARGET_DRAG_COLOR = 10"

definition ring_ansi_default :: ring_colors where
  "ring_ansi_default = \<lparr>rng_active = Indexed 12, rng_marked = Indexed 13,
     rng_drag_source = Indexed SOURCE_DRAG_COLOR, rng_drag_target = Indexed TARGET_DRAG_COLOR\<rparr>"

record chrome_colors =
  ch_rings :: ring_colors
  ch_border :: color
  ch_title :: color
  ch_footer :: color
  ch_bg :: color

definition chrome_ansi_default :: chrome_colors where
  "chrome_ansi_default = \<lparr>ch_rings = ring_ansi_default, ch_border = DefaultColor, ch_title = DefaultColor,
     ch_footer = DefaultColor, ch_bg = DefaultColor\<rparr>"

text \<open>All positions of a rectangle, row by row.\<close>

definition box_cells :: "nat \<Rightarrow> nat \<Rightarrow> (nat \<times> nat) list" where
  "box_cells h w = List.product [0..<h] [0..<w]"

definition centered_col :: "unicode \<Rightarrow> nat \<Rightarrow> nat \<Rightarrow> rstr \<Rightarrow> nat" where
  "centered_col u col0 box_w text = wadd16 (wadd16 col0 1) (as_u16 ((box_w - 2 - dwidth u text) div 2))"

definition draw_box ::
    "unicode \<Rightarrow> nat \<Rightarrow> nat \<Rightarrow> nat \<Rightarrow> nat \<Rightarrow> rstr \<Rightarrow> rstr \<Rightarrow> chrome_colors \<Rightarrow> virtual_screen \<Rightarrow> virtual_screen" where
  "draw_box u row0 col0 box_h box_w title_text footer ch s =
     (let bg = ch_bg ch;
          s = foldl (\<lambda>s (r, c).
                let g = border_glyph r c box_h box_w; fg = (if g = 32 then bg else ch_border ch)
                in fst (put_colored u (wadd16 row0 r) (wadd16 col0 c) [g] fg bg 0 (wadd16 col0 box_w) s))
              s (box_cells box_h box_w);
          s = fst (put_colored u row0 (centered_col u col0 box_w title_text) title_text (ch_title ch) bg A_BOLD
                     (wsub16 (wadd16 col0 box_w) 1) s)
      in fst (put_colored u (wsub16 (wadd16 row0 box_h) 1) (centered_col u col0 box_w footer) footer (ch_footer ch) bg 0
                (wsub16 (wadd16 col0 box_w) 1) s))"

text \<open>Filling a stretch of a row with one character.\<close>

definition fill_chars :: "unicode \<Rightarrow> nat \<Rightarrow> nat \<Rightarrow> nat \<Rightarrow> nat \<Rightarrow> attrs \<Rightarrow> virtual_screen \<Rightarrow> virtual_screen" where
  "fill_chars u r a b ch style s = foldl (\<lambda>s c. fst (put_char u r c ch style s)) s [a..<b]"

definition paint_selectable_rows ::
    "unicode \<Rightarrow> rstr list \<Rightarrow> nat \<Rightarrow> nat \<Rightarrow> nat \<Rightarrow> nat \<Rightarrow> nat \<Rightarrow> nat \<Rightarrow> virtual_screen \<Rightarrow> virtual_screen" where
  "paint_selectable_rows u rows first_row inner_left inner_right vtop shown sel s =
     foldl (\<lambda>s i.
         let r = wadd16 first_row (as_u16 (i - vtop)); a = (if i = sel then A_REVERSE else 0);
             s = (if i = sel then fill_chars u r inner_left inner_right 32 a s else s)
         in fst (put_str u r inner_left (rows ! i) a inner_right s))
       s [vtop..<min (vtop + shown) (length rows)]"

section \<open>The status bar\<close>

record resolved_style =
  st_fg :: "(nat \<times> nat \<times> nat) option"
  st_bg :: "(nat \<times> nat \<times> nat) option"
  st_attrs :: attrs

definition style_default :: resolved_style where
  "style_default = \<lparr>st_fg = None, st_bg = None, st_attrs = 0\<rparr>"

datatype click_action =
    ClickSelectWindow nat | ClickToggleSyncPanes | ClickExitCopyMode | ClickDetach | ClickNoOp

record segment =
  sg_text :: rstr
  sg_style :: resolved_style
  sg_click :: "click_action option"

record status_line =
  sl_left :: "segment list"
  sl_middle :: "segment list"
  sl_right :: "segment list"

type_synonym status_cell = "rstr \<times> nat \<times> resolved_style"

definition rgb_to_color :: "nat \<times> nat \<times> nat \<Rightarrow> color" where
  "rgb_to_color = (\<lambda>(r, g, b). Rgb r g b)"

definition cell_for :: "rstr \<Rightarrow> resolved_style \<Rightarrow> cell" where
  "cell_for g st =
     (let x = plain_cell g (st_attrs st);
          x = (case st_fg st of Some f \<Rightarrow> x\<lparr>c_fg := rgb_to_color f\<rparr> | None \<Rightarrow> x)
      in case st_bg st of Some b \<Rightarrow> x\<lparr>c_bg := rgb_to_color b\<rparr> | None \<Rightarrow> x)"

definition status_cells :: "unicode \<Rightarrow> segment list \<Rightarrow> status_cell list" where
  "status_cells u segs =
     concat (map (\<lambda>sg. map (\<lambda>(g, w). (g, w, sg_style sg)) (graphemes_with_width u (sg_text sg))) segs)"

definition cells_width :: "status_cell list \<Rightarrow> nat" where
  "cells_width cs = sum_list (map (\<lambda>(_, w, _). w) cs)"

fun truncate_cells :: "nat \<Rightarrow> nat \<Rightarrow> status_cell list \<Rightarrow> status_cell list" where
  "truncate_cells used max_w [] = []"
| "truncate_cells used max_w ((g, w, st) # cs) =
     (if used + w > max_w then [] else (g, w, st) # truncate_cells (used + w) max_w cs)"

fun paint_cells :: "nat \<Rightarrow> nat \<Rightarrow> status_cell list \<Rightarrow> virtual_screen \<Rightarrow> virtual_screen" where
  "paint_cells r c [] s = s"
| "paint_cells r c ((g, w, st) # cs) s =
     (if c \<ge> vs_cols s then s
      else if w = 2 \<and> c + 1 \<ge> vs_cols s then s
      else paint_cells r (sadd16 c w) cs (put_glyph r c w (cell_for g st) s))"

text \<open>What the bar shows: the left part first, the right part in what is left, the middle in the gap.\<close>

definition status_parts ::
    "unicode \<Rightarrow> status_line \<Rightarrow> nat \<Rightarrow> status_cell list \<times> status_cell list \<times> status_cell list" where
  "status_parts u sl cols =
     (let left = truncate_cells 0 cols (status_cells u (sl_left sl));
          left_w = cells_width left;
          right = truncate_cells 0 (cols - left_w) (status_cells u (sl_right sl));
          budget = cols - (left_w + cells_width right);
          all_middle = status_cells u (sl_middle sl);
          middle = (if cells_width all_middle \<le> budget then all_middle
                    else if budget = 0 then []
                    else truncate_cells 0 (budget - 1) all_middle @ [([8230], 1, style_default)])
      in (left, middle, right))"

definition paint_status_row :: "unicode \<Rightarrow> status_line \<Rightarrow> nat \<Rightarrow> nat \<Rightarrow> virtual_screen \<Rightarrow> virtual_screen" where
  "paint_status_row u sl cols r s =
     (let (left, middle, right) = status_parts u sl cols;
          s = paint_cells r 0 left s;
          s = paint_cells r (as_u16 (cells_width left)) middle s
      in paint_cells r (as_u16 (cols - cells_width right)) right s)"

end
