(* ===== verification/Borders.thy ===== *)
theory Borders
  imports Paint Blocks
begin

unbundle bit_operations_syntax

text \<open>
  The frames of the panes, after \<open>crates/mux/src/borders.rs\<close>: a cell of the band outside every pane is a border
  cell, its glyph follows from which of its neighbours are border cells, its colour from the pane it
  belongs to; titles are painted over the top edges.
\<close>

datatype pane_drag_role = DragNone | DragSource | DragTarget

record block_border_colors =
  bb_ok :: color
  bb_fail :: color
  bb_duration_threshold :: "nat option"
  bb_sticky_header :: bool

record selected_block =
  sb_sel_rows :: "nat \<times> nat"
  sb_cap_top :: bool
  sb_cap_bottom :: bool
  sb_color :: color

record pane_frame =
  pf_rect :: rect
  pf_active :: bool
  pf_marked :: bool
  pf_drag_role :: pane_drag_role
  pf_title :: "rstr option"
  pf_block_rows :: "block_line_status option list"
  pf_selected_block :: "selected_block option"

section \<open>Border cells\<close>

definition is_border :: "nat \<Rightarrow> nat \<Rightarrow> rect \<Rightarrow> rect list \<Rightarrow> bool" where
  "is_border r c band rects \<longleftrightarrow>
     contains band (mk_point r c) \<and> \<not> list_ex (\<lambda>R. contains R (mk_point r c)) rects"

definition touches :: "nat \<Rightarrow> nat \<Rightarrow> rect \<Rightarrow> bool" where
  "touches r c R \<longleftrightarrow>
     rc_row R - 1 \<le> r \<and> r \<le> sadd16 (bottom_edge_row R) 1 \<and> rc_col R - 1 \<le> c \<and> c \<le> sadd16 (right_edge_col R) 1"

fun box_glyph :: "bool \<Rightarrow> bool \<Rightarrow> bool \<Rightarrow> bool \<Rightarrow> nat" where
  "box_glyph True True True True = 0x253C"
| "box_glyph True True True False = 0x251C"
| "box_glyph True True False True = 0x2524"
| "box_glyph True False True True = 0x2534"
| "box_glyph False True True True = 0x252C"
| "box_glyph False True True False = 0x250C"
| "box_glyph False True False True = 0x2510"
| "box_glyph True False True False = 0x2514"
| "box_glyph True False False True = 0x2518"
| "box_glyph n True False False = 0x2502"
| "box_glyph True False False False = 0x2502"
| "box_glyph False False e True = 0x2500"
| "box_glyph False False True False = 0x2500"
| "box_glyph False False False False = 32"

text \<open>The border cells next to a cell: above, below, to the right, to the left.\<close>

definition border_arms :: "nat \<Rightarrow> nat \<Rightarrow> rect \<Rightarrow> rect list \<Rightarrow> bool \<times> bool \<times> bool \<times> bool" where
  "border_arms r c band rects =
     (r > rc_row band \<and> is_border (r - 1) c band rects,
      r < bottom_edge_row band \<and> is_border (r + 1) c band rects,
      c < right_edge_col band \<and> is_border r (c + 1) band rects,
      c > rc_col band \<and> is_border r (c - 1) band rects)"

section \<open>Colours\<close>

definition left_segment :: "nat \<Rightarrow> nat \<Rightarrow> pane_frame \<Rightarrow> bool" where
  "left_segment r c f \<longleftrightarrow>
     0 < rc_col (pf_rect f) \<and> c = rc_col (pf_rect f) - 1
     \<and> rc_row (pf_rect f) \<le> r \<and> r < sadd16 (rc_row (pf_rect f)) (rc_rows (pf_rect f))"

definition left_segment_status :: "nat \<Rightarrow> nat \<Rightarrow> pane_frame list \<Rightarrow> block_line_status option" where
  "left_segment_status r c fs =
     (case find (\<lambda>f. pf_block_rows f \<noteq> [] \<and> left_segment r c f) fs of
        None \<Rightarrow> None
      | Some f \<Rightarrow> Option.bind (nth_opt (pf_block_rows f) (r - rc_row (pf_rect f))) (\<lambda>st. st))"

definition bracket_covers :: "nat \<Rightarrow> nat \<Rightarrow> pane_frame \<Rightarrow> bool" where
  "bracket_covers r c f \<longleftrightarrow>
     (case pf_selected_block f of
        None \<Rightarrow> False
      | Some sel \<Rightarrow>
          0 < rc_col (pf_rect f) \<and> c = rc_col (pf_rect f) - 1
          \<and> sadd16 (rc_row (pf_rect f)) (fst (sb_sel_rows sel)) \<le> r
          \<and> r \<le> sadd16 (rc_row (pf_rect f)) (snd (sb_sel_rows sel)))"

definition selected_bracket :: "nat \<Rightarrow> nat \<Rightarrow> pane_frame list \<Rightarrow> (color \<times> nat) option" where
  "selected_bracket r c fs =
     Option.bind (find (bracket_covers r c) fs) (\<lambda>f. Option.bind (pf_selected_block f) (\<lambda>sel.
       let top_abs = sadd16 (rc_row (pf_rect f)) (fst (sb_sel_rows sel));
           bot_abs = sadd16 (rc_row (pf_rect f)) (snd (sb_sel_rows sel))
       in Some (sb_color sel,
                if r = top_abs \<and> sb_cap_top sel then 0x250F
                else if r = bot_abs \<and> sb_cap_bottom sel then 0x2517 else 0x2503)))"

definition rect_where :: "(pane_frame \<Rightarrow> bool) \<Rightarrow> pane_frame list \<Rightarrow> rect option" where
  "rect_where P fs = map_option pf_rect (find P fs)"

definition touched :: "nat \<Rightarrow> nat \<Rightarrow> rect option \<Rightarrow> bool" where
  "touched r c R = (case R of None \<Rightarrow> False | Some R \<Rightarrow> touches r c R)"

definition border_cell ::
    "pane_frame list \<Rightarrow> rect \<Rightarrow> block_border_colors option \<Rightarrow> ring_colors \<Rightarrow> nat \<Rightarrow> nat \<Rightarrow> cell" where
  "border_cell fs band blocks rings r c =
     (let rects = map pf_rect fs;
          (n, s, e, w) = border_arms r c band rects;
          glyph = box_glyph n s e w;
          x = plain_cell [glyph] 0;
          ring = (\<lambda>f. x\<lparr>c_attrs := A_BOLD, c_fg := f\<rparr>)
      in case selected_bracket r c fs of
           Some (f, g) \<Rightarrow> x\<lparr>c_attrs := A_BOLD, c_fg := f, grapheme := [g]\<rparr>
         | None \<Rightarrow>
             if touched r c (rect_where (\<lambda>f. pf_drag_role f = DragSource) fs) then ring (rng_drag_source rings)
             else if touched r c (rect_where (\<lambda>f. pf_drag_role f = DragTarget) fs) then ring (rng_drag_target rings)
             else if touched r c (rect_where pf_marked fs) then ring (rng_marked rings)
             else (case (case blocks of
                           None \<Rightarrow> None
                         | Some cols \<Rightarrow> map_option (\<lambda>st. (cols, st)) (left_segment_status r c fs)) of
                     Some (cols, st) \<Rightarrow>
                       x\<lparr>c_fg := (case st of BlockOk \<Rightarrow> bb_ok cols | BlockFailed \<Rightarrow> bb_fail cols),
                         grapheme := (if glyph = 0x2502 then [0x2590] else [glyph])\<rparr>
                   | None \<Rightarrow>
                       if touched r c (rect_where pf_active fs) then ring (rng_active rings) else x))"

section \<open>Drawing\<close>

definition band_cells :: "rect \<Rightarrow> (nat \<times> nat) list" where
  "band_cells band =
     List.product [rc_row band..<bottom_edge_row band + 1] [rc_col band..<right_edge_col band + 1]"

definition draw_border_cells ::
    "pane_frame list \<Rightarrow> rect \<Rightarrow> block_border_colors option \<Rightarrow> ring_colors \<Rightarrow> virtual_screen \<Rightarrow> virtual_screen" where
  "draw_border_cells fs band blocks rings s =
     foldl (\<lambda>s (r, c). if is_border r c band (map pf_rect fs) then vs_put r c (border_cell fs band blocks rings r c) s else s)
       s (band_cells band)"

text \<open>The title; \<open>max_col\<close> is the last column it may use.\<close>

fun paint_title_loop ::
    "(rstr \<Rightarrow> cell) \<Rightarrow> nat \<Rightarrow> nat \<Rightarrow> nat \<Rightarrow> (rstr \<times> nat) list \<Rightarrow> virtual_screen \<Rightarrow> virtual_screen" where
  "paint_title_loop mk max_col r c [] s = s"
| "paint_title_loop mk max_col r c ((g, w) # gs) s =
     (if c > max_col \<or> c \<ge> vs_cols s then s
      else if w = 2 \<and> (wadd16 c 1 > max_col \<or> wadd16 c 1 \<ge> vs_cols s) then s
      else paint_title_loop mk max_col r (wadd16 c w) gs (put_glyph r c w (mk g) s))"

definition paint_title ::
    "unicode \<Rightarrow> nat \<Rightarrow> nat \<Rightarrow> nat \<Rightarrow> rstr \<Rightarrow> color option \<Rightarrow> virtual_screen \<Rightarrow> virtual_screen" where
  "paint_title u r start max_col title_text active_color s =
     paint_title_loop
       (\<lambda>g. case active_color of Some f \<Rightarrow> (plain_cell g A_BOLD)\<lparr>c_fg := f\<rparr> | None \<Rightarrow> plain_cell g 0)
       max_col r start (graphemes_with_width u ([32] @ title_text @ [32])) s"

definition draw_title :: "unicode \<Rightarrow> pane_frame list \<Rightarrow> ring_colors \<Rightarrow> virtual_screen \<Rightarrow> pane_frame \<Rightarrow> virtual_screen" where
  "draw_title u fs rings s f =
     (case pf_title f of
        None \<Rightarrow> s
      | Some t \<Rightarrow>
          if t = [] \<or> rc_row (pf_rect f) = 0 then s
          else paint_title u (rc_row (pf_rect f) - 1) (sadd16 (rc_col (pf_rect f)) 1) (right_edge_col (pf_rect f)) t
                 (if rect_where pf_active fs = Some (pf_rect f) then Some (rng_active rings) else None) s)"

definition draw_borders ::
    "unicode \<Rightarrow> pane_frame list \<Rightarrow> rect \<Rightarrow> block_border_colors option \<Rightarrow> ring_colors \<Rightarrow> virtual_screen \<Rightarrow> virtual_screen" where
  "draw_borders u fs band blocks rings s =
     foldl (draw_title u fs rings) (draw_border_cells fs band blocks rings s) fs"

end
