(* ===== verification/Command_Prompt.thy ===== *)
theory Command_Prompt
  imports Key_Spec
begin

text \<open>
  The command prompt, after \<open>crates/mux/src/command_prompt.rs\<close>: the commands, the parser of a typed line and
  the completion of a token.  Positions in a string count characters where the code counts bytes.
\<close>

section \<open>Commands\<close>

datatype focus_target = FtDir direction | FtNext | FtPrev | FtLast

datatype prompt_command =
    PcNewWindow | PcNextWindow | PcPrevWindow | PcSelectWindow nat | PcLastWindow
  | PcSplitH | PcSplitV | PcZoom | PcKillPane | PcKillWindow
  | PcFocus focus_target | PcResize direction nat
  | PcRenameWindow rstr | PcRenamePane rstr
  | PcCopyMode | PcToggleSync | PcReload | PcDetach | PcHelp
  | PcSwitch rstr | PcChooseSession | PcChooseTree | PcHistory | PcHints | PcCommandPalette
  | PcMarkPane | PcBreakPane | PcJoinPane split_dir | PcSwapPane swap_target | PcSwapMarked
  | PcPasteBuffer "rstr option" | PcChooseBuffer | PcSetBuffer rstr
  | PcSaveBuffer "rstr option" rstr | PcLoadBuffer rstr
  | PcToggleMonitorActivity | PcToggleMonitorBell | PcToggleMonitorCommand
  | PcMonitorSilence "nat option"
  | PcPopup "rstr option" | PcClosePopup | PcPipePane "rstr option" | PcLayout layout_preset
  | PcPrevPrompt | PcNextPrompt | PcCopyOutput | PcBlockMode

text \<open>A parse error is its text.\<close>

type_synonym parse_error = rstr

definition VERBS :: "rstr list" where
  "VERBS = map lit
     [''block-mode'', ''break'', ''buffers'', ''close-popup'', ''copy'', ''copy-output'', ''detach'', ''focus'',
      ''help'', ''hints'', ''history'', ''join'', ''kill'', ''last'', ''layout'', ''load-buffer'', ''mark'',
      ''monitor-activity'', ''monitor-bell'', ''monitor-command'', ''monitor-silence'', ''new'', ''next'',
      ''next-prompt'', ''palette'', ''paste'', ''pipe-pane'', ''popup'', ''prev'', ''prev-prompt'', ''reload'',
      ''rename'', ''rename-pane'', ''resize'', ''save-buffer'', ''sessions'', ''set-buffer'', ''split'', ''swap'',
      ''switch'', ''sync'', ''tree'', ''win'', ''zoom'']"

section \<open>Pieces of a line\<close>

definition is_buffer_name :: "rstr \<Rightarrow> bool" where
  "is_buffer_name s =
     (case strip_prefix (lit ''buffer'') s of
        None \<Rightarrow> False | Some d \<Rightarrow> d \<noteq> [] \<and> list_all (\<lambda>c. 48 \<le> c \<and> c \<le> 57) d)"

definition dir_from_letter :: "rstr \<Rightarrow> direction option" where
  "dir_from_letter s =
     (if s = lit ''l'' then Some DirLeft else if s = lit ''r'' then Some DirRight
      else if s = lit ''u'' then Some DirUp else if s = lit ''d'' then Some DirDown else None)"

text \<open>\<open>split_once(char::is_whitespace)\<close> and \<open>trim_start\<close>.\<close>

definition split_once_ws :: "rstr \<Rightarrow> (rstr \<times> rstr) option" where
  "split_once_ws s =
     (case dropWhile (\<lambda>c. \<not> is_whitespace c) s of
        [] \<Rightarrow> None | _ # r \<Rightarrow> Some (takeWhile (\<lambda>c. \<not> is_whitespace c) s, r))"

definition trim_start :: "rstr \<Rightarrow> rstr" where
  "trim_start s = dropWhile is_whitespace s"

text \<open>The verbs whose command has no argument.\<close>

definition plain_prompt_commands :: "(rstr \<times> prompt_command) list" where
  "plain_prompt_commands =
    [(lit ''new'', PcNewWindow), (lit ''next'', PcNextWindow), (lit ''prev'', PcPrevWindow),
     (lit ''last'', PcLastWindow), (lit ''zoom'', PcZoom), (lit ''copy'', PcCopyMode),
     (lit ''sync'', PcToggleSync), (lit ''reload'', PcReload), (lit ''detach'', PcDetach),
     (lit ''help'', PcHelp), (lit ''sessions'', PcChooseSession), (lit ''tree'', PcChooseTree),
     (lit ''history'', PcHistory), (lit ''hints'', PcHints), (lit ''palette'', PcCommandPalette),
     (lit ''mark'', PcMarkPane), (lit ''break'', PcBreakPane), (lit ''buffers'', PcChooseBuffer),
     (lit ''monitor-activity'', PcToggleMonitorActivity), (lit ''monitor-bell'', PcToggleMonitorBell),
     (lit ''monitor-command'', PcToggleMonitorCommand), (lit ''prev-prompt'', PcPrevPrompt),
     (lit ''next-prompt'', PcNextPrompt), (lit ''copy-output'', PcCopyOutput),
     (lit ''block-mode'', PcBlockMode), (lit ''close-popup'', PcClosePopup)]"

section \<open>Commands with arguments\<close>

definition parse_save_buffer :: "rstr \<Rightarrow> parse_error + prompt_command" where
  "parse_save_buffer rest =
     (case split_once_ws rest of
        Some (first, tail) \<Rightarrow>
          if is_buffer_name first then Inr (PcSaveBuffer (Some first) (trim_start tail))
          else Inr (PcSaveBuffer None rest)
      | None \<Rightarrow>
          if rest \<noteq> [] \<and> \<not> is_buffer_name rest then Inr (PcSaveBuffer None rest)
          else Inl (lit ''save-buffer: expected a path''))"

definition parse_monitor_silence :: "rstr list \<Rightarrow> parse_error + prompt_command" where
  "parse_monitor_silence args =
     (case args of
        [] \<Rightarrow> Inr (PcMonitorSilence None)
      | [n] \<Rightarrow>
          (case parse_unsigned u64_max (utf8_encode n) of
             None \<Rightarrow> Inl (lit ''monitor-silence: expected a number of seconds'')
           | Some secs \<Rightarrow> Inr (PcMonitorSilence (if secs > 0 then Some secs else None)))
      | _ \<Rightarrow> Inl (lit ''monitor-silence: expected a number of seconds''))"

definition parse_win :: "rstr list \<Rightarrow> parse_error + prompt_command" where
  "parse_win args =
     (case args of
        [n] \<Rightarrow>
          (case parse_unsigned u32_max (utf8_encode n) of
             None \<Rightarrow> Inl (lit ''win: expected a window number'')
           | Some n \<Rightarrow>
               if n = 0 then Inl (lit ''win: window numbers start at 1'')
               else if n > 256 then Inl (lit ''win: no such window'')
               else Inr (PcSelectWindow (as_u8 (n - 1))))
      | _ \<Rightarrow> Inl (lit ''win: expected a window number''))"

definition parse_focus :: "rstr list \<Rightarrow> parse_error + prompt_command" where
  "parse_focus args =
     (case args of
        [t] \<Rightarrow>
          (case dir_from_letter t of
             Some d \<Rightarrow> Inr (PcFocus (FtDir d))
           | None \<Rightarrow>
               if t = lit ''next'' then Inr (PcFocus FtNext)
               else if t = lit ''prev'' then Inr (PcFocus FtPrev)
               else if t = lit ''last'' then Inr (PcFocus FtLast)
               else Inl (lit ''focus: expected l/r/u/d/next/prev/last''))
      | _ \<Rightarrow> Inl (lit ''focus: expected l/r/u/d/next/prev/last''))"

definition parse_resize :: "rstr list \<Rightarrow> parse_error + prompt_command" where
  "parse_resize args =
     (let finish = (\<lambda>d n.
            (case dir_from_letter d of
               None \<Rightarrow> Inl (lit ''resize: expected a direction l/r/u/d'')
             | Some dir \<Rightarrow> if n = 0 then Inl (lit ''resize: count must be >= 1'') else Inr (PcResize dir n)))
      in case args of
           [d] \<Rightarrow> finish d 1
         | [d, n] \<Rightarrow>
             (case parse_unsigned u16_max (utf8_encode n) of
                None \<Rightarrow> Inl (lit ''resize: count must be a number'') | Some n \<Rightarrow> finish d n)
         | _ \<Rightarrow> Inl (lit ''resize: expected a direction l/r/u/d''))"

definition parse_layout :: "rstr \<Rightarrow> parse_error + prompt_command" where
  "parse_layout rest =
     (let names = lit ''even-horizontal, even-vertical, main-horizontal, main-vertical, tiled''
      in if rest = [] then Inl (lit ''layout: expected one of '' @ names)
         else case preset_parse rest of
                Some p \<Rightarrow> Inr (PcLayout p)
              | None \<Rightarrow> Inl (lit ''layout: unknown layout `'' @ rest @ lit ''`; expected one of '' @ names))"

text \<open>A rest that must be there, and one that may be.\<close>

definition rest_or_error :: "rstr \<Rightarrow> parse_error \<Rightarrow> (rstr \<Rightarrow> prompt_command) \<Rightarrow> parse_error + prompt_command" where
  "rest_or_error rest e f = (if rest = [] then Inl e else Inr (f rest))"

definition optional_rest :: "rstr \<Rightarrow> rstr option" where
  "optional_rest rest = (if rest = [] then None else Some rest)"

definition parse_verb :: "rstr \<Rightarrow> rstr list \<Rightarrow> rstr \<Rightarrow> parse_error + prompt_command" where
  "parse_verb verb args rest =
     (case map_of plain_prompt_commands verb of
        Some c \<Rightarrow> if args = [] then Inr c else Inl (verb @ lit '': takes no arguments'')
      | None \<Rightarrow>
          if verb = lit ''paste'' then
            (case args of [] \<Rightarrow> Inr (PcPasteBuffer None) | [name] \<Rightarrow> Inr (PcPasteBuffer (Some name))
             | _ \<Rightarrow> Inl (lit ''paste: expected a buffer name or no argument''))
          else if verb = lit ''set-buffer'' then rest_or_error rest (lit ''set-buffer: expected text'') PcSetBuffer
          else if verb = lit ''save-buffer'' then parse_save_buffer rest
          else if verb = lit ''load-buffer'' then rest_or_error rest (lit ''load-buffer: expected a path'') PcLoadBuffer
          else if verb = lit ''monitor-silence'' then parse_monitor_silence args
          else if verb = lit ''join'' \<or> verb = lit ''join-pane'' then
            (if args = [] \<or> args = [lit ''v''] then Inr (PcJoinPane SplitVertical)
             else if args = [lit ''h''] then Inr (PcJoinPane SplitHorizontal)
             else Inl (lit ''join: expected h or v''))
          else if verb = lit ''swap'' \<or> verb = lit ''swap-pane'' then
            (if args = [] then Inr PcSwapMarked
             else if args = [lit ''next''] then Inr (PcSwapPane SwapNext)
             else if args = [lit ''prev''] then Inr (PcSwapPane SwapPrev)
             else Inl (lit ''swap: expected prev, next, or no argument''))
          else if verb = lit ''win'' then parse_win args
          else if verb = lit ''split'' then
            (if args = [lit ''h''] then Inr PcSplitH else if args = [lit ''v''] then Inr PcSplitV
             else Inl (lit ''split: expected h or v''))
          else if verb = lit ''kill'' then
            (if args = [] then Inr PcKillPane
             else if args = [lit ''win''] \<or> args = [lit ''window''] then Inr PcKillWindow
             else Inl (lit ''kill: expected nothing or '' @ [39] @ lit ''win'' @ [39]))
          else if verb = lit ''focus'' then parse_focus args
          else if verb = lit ''resize'' then parse_resize args
          else if verb = lit ''rename'' then rest_or_error rest (lit ''rename: expected a name'') PcRenameWindow
          else if verb = lit ''rename-pane'' then rest_or_error rest (lit ''rename-pane: expected a name'') PcRenamePane
          else if verb = lit ''switch'' then rest_or_error rest (lit ''switch: expected a session name'') PcSwitch
          else if verb = lit ''popup'' then Inr (PcPopup (optional_rest rest))
          else if verb = lit ''pipe-pane'' then Inr (PcPipePane (optional_rest rest))
          else if verb = lit ''layout'' then parse_layout rest
          else Inl (lit ''unknown command: '' @ verb))"

definition parse_prompt :: "rstr \<Rightarrow> parse_error + prompt_command" where
  "parse_prompt line =
     (let line = trim line
      in case split_whitespace line of
           [] \<Rightarrow> Inl (lit ''empty command'')
         | verb # args \<Rightarrow>
             parse_verb verb args (case split_once_ws line of None \<Rightarrow> [] | Some (_, r) \<Rightarrow> trim r))"

section \<open>Completion\<close>

datatype completion = CompletionNone | CompletionUnique rstr | CompletionPartial rstr

fun common_prefix :: "'a list \<Rightarrow> 'a list \<Rightarrow> 'a list" where
  "common_prefix (x # xs) (y # ys) = (if x = y then x # common_prefix xs ys else [])"
| "common_prefix xs ys = []"

text \<open>The common prefix of the bytes, cut back to a character, is the common prefix of the characters.\<close>

definition longest_common_prefix :: "rstr list \<Rightarrow> rstr" where
  "longest_common_prefix items =
     (case items of [] \<Rightarrow> []
      | first # rest \<Rightarrow>
          take (foldl (\<lambda>end s. min end (length (common_prefix first s))) (length first) rest) first)"

definition complete :: "rstr \<Rightarrow> rstr list \<Rightarrow> completion" where
  "complete pre candidates =
     (case filter (\<lambda>c. take (length pre) c = pre) candidates of
        [] \<Rightarrow> CompletionNone
      | [only] \<Rightarrow> CompletionUnique only
      | many \<Rightarrow>
          (let lcp = longest_common_prefix many
           in if length lcp > length pre then CompletionPartial lcp else CompletionNone))"

end
