(* ===== verification/Palette.thy ===== *)
theory Palette
  imports Command_Prompt Finder
begin

text \<open>
  The command palette, after \<open>crates/mux/src/palette.rs\<close>: a filter list over the catalog of the commands.
  \<open>lower\<close> is \<open>str::to_lowercase\<close>.
\<close>

datatype palette_action = PaRun prompt_command | PaPrompt rstr

record palette_entry =
  pe_label :: rstr
  pe_aliases :: "rstr list"
  pe_binding_verb :: "rstr option"
  pe_key :: "rstr option"
  pe_action :: palette_action
  pe_haystack :: rstr

datatype palette_outcome = PoNone | PoRedraw | PoCancel | PoRun prompt_command | PoPrompt rstr

record palette_state =
  ps_entries :: "palette_entry list"
  ps_finder :: filter_list

definition palette_new :: "palette_entry list \<Rightarrow> palette_state" where
  "palette_new es = \<lparr>ps_entries = es, ps_finder = fl_new\<rparr>"

definition palette_haystacks :: "palette_state \<Rightarrow> rstr list" where
  "palette_haystacks s = map pe_haystack (ps_entries s)"

definition palette_visible_indices :: "(rstr \<Rightarrow> rstr) \<Rightarrow> palette_state \<Rightarrow> nat list" where
  "palette_visible_indices lower s = filtered_indices lower (palette_haystacks s) (fl_filter (ps_finder s))"

definition palette_selected :: "(rstr \<Rightarrow> rstr) \<Rightarrow> palette_state \<Rightarrow> nat option" where
  "palette_selected lower s = fl_selected lower (palette_haystacks s) (ps_finder s)"

definition palette_moved :: "palette_state \<Rightarrow> filter_list \<times> bool \<Rightarrow> palette_state \<times> palette_outcome" where
  "palette_moved s = (\<lambda>(f, changed). (s\<lparr>ps_finder := f\<rparr>, if changed then PoRedraw else PoNone))"

definition handle_palette ::
    "(rstr \<Rightarrow> rstr) \<Rightarrow> key_event \<Rightarrow> palette_state \<Rightarrow> palette_state \<times> palette_outcome" where
  "handle_palette lower ev s =
     (let hs = palette_haystacks s; f = ps_finder s
      in case finder_classify ev of
           FkCancel \<Rightarrow> (s, PoCancel)
         | FkAccept \<Rightarrow>
             (s, case fl_selected lower hs f of
                   Some i \<Rightarrow> (case pe_action (ps_entries s ! i) of PaRun c \<Rightarrow> PoRun c | PaPrompt p \<Rightarrow> PoPrompt p)
                 | None \<Rightarrow> PoNone)
         | FkUp \<Rightarrow> palette_moved s (fl_up f)
         | FkDown \<Rightarrow> palette_moved s (fl_down lower hs f)
         | FkHome \<Rightarrow> palette_moved s (fl_home f)
         | FkEnd \<Rightarrow> palette_moved s (fl_end lower hs f)
         | FkClear \<Rightarrow> palette_moved s (fl_clear f)
         | FkBackspace \<Rightarrow> palette_moved s (fl_backspace lower hs f)
         | FkChar c \<Rightarrow> (s\<lparr>ps_finder := fl_push c f\<rparr>, PoRedraw)
         | FkPass \<Rightarrow> (s, PoNone))"

section \<open>The catalog\<close>

definition pal_entry :: "(rstr \<Rightarrow> rstr) \<Rightarrow> rstr \<Rightarrow> rstr option \<Rightarrow> palette_action \<Rightarrow> rstr list \<Rightarrow> palette_entry" where
  "pal_entry lower label bverb act aliases =
     \<lparr>pe_label = label, pe_aliases = aliases, pe_binding_verb = bverb, pe_key = None, pe_action = act,
      pe_haystack = foldl (\<lambda>h a. h @ [32] @ lower a) (lower label) aliases\<rparr>"

definition pal_run :: "(rstr \<Rightarrow> rstr) \<Rightarrow> rstr \<Rightarrow> rstr option \<Rightarrow> prompt_command \<Rightarrow> rstr list \<Rightarrow> palette_entry" where
  "pal_run lower label bverb cmd aliases = pal_entry lower label bverb (PaRun cmd) aliases"

definition pal_prompt :: "(rstr \<Rightarrow> rstr) \<Rightarrow> rstr \<Rightarrow> rstr option \<Rightarrow> rstr \<Rightarrow> rstr list \<Rightarrow> palette_entry" where
  "pal_prompt lower label bverb prefill aliases = pal_entry lower label bverb (PaPrompt prefill) aliases"

definition catalog :: "(rstr \<Rightarrow> rstr) \<Rightarrow> palette_entry list" where
  "catalog lower =
    [pal_run lower (lit ''New window'') (Some (lit ''new_window'')) PcNewWindow [lit ''new''],
     pal_run lower (lit ''Next window'') (Some (lit ''next_window'')) PcNextWindow [lit ''next''],
     pal_run lower (lit ''Previous window'') (Some (lit ''prev_window'')) PcPrevWindow [lit ''previous''],
     pal_run lower (lit ''Last window'') (Some (lit ''select_last_window'')) PcLastWindow [lit ''last''],
     pal_prompt lower (lit ''Select window'' @ [8230]) None (lit ''win '') [lit ''window'', lit ''goto''],
     pal_prompt lower (lit ''Rename window'' @ [8230]) (Some (lit ''rename_window'')) (lit ''rename '') [lit ''rename''],
     pal_run lower (lit ''Kill window'') (Some (lit ''kill_window'')) PcKillWindow [lit ''kill'', lit ''close''],
     pal_run lower (lit ''Split horizontal'') (Some (lit ''split_h'')) PcSplitH [lit ''split''],
     pal_run lower (lit ''Split vertical'') (Some (lit ''split_v'')) PcSplitV [lit ''split''],
     pal_run lower (lit ''Zoom pane'') (Some (lit ''zoom_toggle'')) PcZoom [lit ''zoom'', lit ''fullscreen''],
     pal_run lower (lit ''Kill pane'') (Some (lit ''kill_pane'')) PcKillPane [lit ''kill'', lit ''close''],
     pal_run lower (lit ''Focus pane left'') (Some (lit ''select_pane_left'')) (PcFocus (FtDir DirLeft)) [lit ''focus'', lit ''move''],
     pal_run lower (lit ''Focus pane right'') (Some (lit ''select_pane_right'')) (PcFocus (FtDir DirRight)) [lit ''focus'', lit ''move''],
     pal_run lower (lit ''Focus pane up'') (Some (lit ''select_pane_up'')) (PcFocus (FtDir DirUp)) [lit ''focus'', lit ''move''],
     pal_run lower (lit ''Focus pane down'') (Some (lit ''select_pane_down'')) (PcFocus (FtDir DirDown)) [lit ''focus'', lit ''move''],
     pal_run lower (lit ''Focus next pane'') (Some (lit ''select_next_pane'')) (PcFocus FtNext) [lit ''focus''],
     pal_run lower (lit ''Focus previous pane'') (Some (lit ''select_prev_pane'')) (PcFocus FtPrev) [lit ''focus''],
     pal_run lower (lit ''Focus last pane'') (Some (lit ''select_last_pane'')) (PcFocus FtLast) [lit ''focus''],
     pal_run lower (lit ''Resize pane left'') (Some (lit ''resize_pane_left'')) (PcResize DirLeft 1) [lit ''resize''],
     pal_run lower (lit ''Resize pane right'') (Some (lit ''resize_pane_right'')) (PcResize DirRight 1) [lit ''resize''],
     pal_run lower (lit ''Resize pane up'') (Some (lit ''resize_pane_up'')) (PcResize DirUp 1) [lit ''resize''],
     pal_run lower (lit ''Resize pane down'') (Some (lit ''resize_pane_down'')) (PcResize DirDown 1) [lit ''resize''],
     pal_prompt lower (lit ''Rename pane'' @ [8230]) (Some (lit ''rename_pane'')) (lit ''rename-pane '') [lit ''rename'', lit ''pane''],
     pal_run lower (lit ''Mark pane'') (Some (lit ''mark_pane'')) PcMarkPane [lit ''mark''],
     pal_run lower (lit ''Break pane'') (Some (lit ''break_pane'')) PcBreakPane [lit ''break''],
     pal_run lower (lit ''Join pane (vertical)'') (Some (lit ''join_pane'')) (PcJoinPane SplitVertical) [lit ''join''],
     pal_run lower (lit ''Join pane (horizontal)'') None (PcJoinPane SplitHorizontal) [lit ''join''],
     pal_run lower (lit ''Swap pane next'') (Some (lit ''swap_pane_next'')) (PcSwapPane SwapNext) [lit ''swap''],
     pal_run lower (lit ''Swap pane previous'') (Some (lit ''swap_pane_prev'')) (PcSwapPane SwapPrev) [lit ''swap''],
     pal_run lower (lit ''Swap with marked pane'') (Some (lit ''swap_marked_pane'')) PcSwapMarked [lit ''swap'', lit ''marked''],
     pal_run lower (lit ''Layout: even-horizontal'') (Some (lit ''layout:even-horizontal'')) (PcLayout EvenHorizontal) [lit ''layout''],
     pal_run lower (lit ''Layout: even-vertical'') (Some (lit ''layout:even-vertical'')) (PcLayout EvenVertical) [lit ''layout''],
     pal_run lower (lit ''Layout: main-horizontal'') (Some (lit ''layout:main-horizontal'')) (PcLayout MainHorizontal) [lit ''layout''],
     pal_run lower (lit ''Layout: main-vertical'') (Some (lit ''layout:main-vertical'')) (PcLayout MainVertical) [lit ''layout''],
     pal_run lower (lit ''Layout: tiled'') (Some (lit ''layout:tiled'')) (PcLayout Tiled) [lit ''layout''],
     pal_run lower (lit ''Choose session'') (Some (lit ''choose_session'')) PcChooseSession [lit ''sessions''],
     pal_prompt lower (lit ''Switch session'' @ [8230]) None (lit ''switch '') [lit ''session''],
     pal_run lower (lit ''Choose tree'') (Some (lit ''choose_tree'')) PcChooseTree [lit ''tree''],
     pal_run lower (lit ''History palette'') (Some (lit ''history'')) PcHistory [lit ''history'', lit ''commands''],
     pal_run lower (lit ''Hint mode'') (Some (lit ''hints'')) PcHints [lit ''hints'', lit ''links''],
     pal_run lower (lit ''Copy mode'') (Some (lit ''enter_copy_mode'')) PcCopyMode [lit ''copy'', lit ''scroll''],
     pal_run lower (lit ''Block mode'') (Some (lit ''enter_block_mode'')) PcBlockMode [lit ''block'', lit ''blocks''],
     pal_run lower (lit ''Toggle sync panes'') (Some (lit ''toggle_sync_panes'')) PcToggleSync [lit ''sync'', lit ''broadcast''],
     pal_run lower (lit ''Detach'') (Some (lit ''detach'')) PcDetach [lit ''detach''],
     pal_run lower (lit ''Reload config'') (Some (lit ''reload_config'')) PcReload [lit ''reload'', lit ''config''],
     pal_run lower (lit ''Help'') (Some (lit ''show_help'')) PcHelp [lit ''help'', lit ''keys''],
     pal_run lower (lit ''Previous command'') (Some (lit ''prev_prompt'')) PcPrevPrompt [lit ''prompt''],
     pal_run lower (lit ''Next command'') (Some (lit ''next_prompt'')) PcNextPrompt [lit ''prompt''],
     pal_run lower (lit ''Copy last output'') (Some (lit ''copy_output'')) PcCopyOutput [lit ''output'', lit ''copy''],
     pal_run lower (lit ''Monitor activity'') (Some (lit ''toggle_monitor_activity'')) PcToggleMonitorActivity [lit ''monitor''],
     pal_run lower (lit ''Monitor bell'') (Some (lit ''toggle_monitor_bell'')) PcToggleMonitorBell [lit ''monitor''],
     pal_run lower (lit ''Monitor command'') (Some (lit ''toggle_monitor_command'')) PcToggleMonitorCommand [lit ''monitor''],
     pal_prompt lower (lit ''Monitor silence'' @ [8230]) None (lit ''monitor-silence '') [lit ''monitor''],
     pal_run lower (lit ''Paste buffer'') (Some (lit ''paste_buffer'')) (PcPasteBuffer None) [lit ''paste''],
     pal_run lower (lit ''Choose buffer'') (Some (lit ''choose_buffer'')) PcChooseBuffer [lit ''buffers''],
     pal_prompt lower (lit ''Set buffer'' @ [8230]) None (lit ''set-buffer '') [lit ''buffer''],
     pal_prompt lower (lit ''Save buffer'' @ [8230]) None (lit ''save-buffer '') [lit ''buffer''],
     pal_prompt lower (lit ''Load buffer'' @ [8230]) None (lit ''load-buffer '') [lit ''buffer''],
     pal_run lower (lit ''Popup (scratch shell)'') (Some (lit ''popup'')) (PcPopup None) [lit ''popup'', lit ''shell''],
     pal_prompt lower (lit ''Open popup: command'' @ [8230]) None (lit ''popup '') [lit ''popup'', lit ''run''],
     pal_run lower (lit ''Close popup'') (Some (lit ''close_popup'')) PcClosePopup [lit ''popup'', lit ''close''],
     pal_prompt lower (lit ''Pipe pane'' @ [8230]) None (lit ''pipe-pane '') [lit ''pipe'']]"

end
