(* ===== verification/Overlay.thy ===== *)
theory Overlay
  imports Palette Hint Tree_View
begin

text \<open>
  The modal overlays, after \<open>crates/mux/src/overlay.rs\<close>: the rename prompt, the help page, the welcome box and
  the command prompt, each with every key.  The tree, the choosers, the hints and the palette have
  handlers of their own.  Positions in a string count characters where the code counts bytes.
\<close>

datatype rename_target = RenameTargetWindow | RenameTargetPane

datatype overlay =
    OvRename rename_target rstr
  | OvHelp nat
  | OvCommand (ov_buf: rstr) (ov_history: "rstr list") (ov_hist_idx: "nat option") (ov_completions: "rstr list")
  | OvTree tree_state
  | OvBufferPicker buffer_picker_state
  | OvHistory history_state
  | OvHint hint_state
  | OvWelcome
  | OvPalette palette_state

datatype overlay_action = OaRedraw | OaCommit rstr | OaCancel | OaNone

definition PAGE_STEP :: nat where "PAGE_STEP = 10"

section \<open>Rename and help\<close>

definition ov_handle_rename :: "key_event \<Rightarrow> rstr \<Rightarrow> rstr \<times> overlay_action" where
  "ov_handle_rename ev buf =
     (let m = ke_mods ev
      in case ke_key ev of
           KEscape \<Rightarrow> (buf, if m = 0 then OaCancel else OaNone)
         | KEnter \<Rightarrow> (buf, OaCommit (trim buf))
         | KKeypadEnter \<Rightarrow> (buf, OaCommit (trim buf))
         | KBackspace \<Rightarrow> if m = 0 \<and> buf \<noteq> [] then (butlast buf, OaRedraw) else (buf, OaNone)
         | KChar c \<Rightarrow> if m = 0 \<or> m = MOD_SHIFT then (buf @ [c], OaRedraw) else (buf, OaNone)
         | _ \<Rightarrow> (buf, OaNone))"

text \<open>The new top line, \<open>None\<close> for a key the page does not know.\<close>

definition help_target :: "key_event \<Rightarrow> nat \<Rightarrow> nat option" where
  "help_target ev n =
     (let m = ke_mods ev; key = ke_key ev
      in if m = 0 \<and> key \<in> {KChar (chr (CHR ''j'')), KArrow DirDown} then Some (sadd16 n 1)
         else if m = 0 \<and> key \<in> {KChar (chr (CHR ''k'')), KArrow DirUp} then Some (n - 1)
         else if m = 0 \<and> key = KPageDown then Some (sadd16 n PAGE_STEP)
         else if m = 0 \<and> key = KPageUp then Some (n - PAGE_STEP)
         else if m = MOD_CTRL \<and> key = KChar (chr (CHR ''d'')) then Some (sadd16 n PAGE_STEP)
         else if m = MOD_CTRL \<and> key = KChar (chr (CHR ''u'')) then Some (n - PAGE_STEP)
         else if m = 0 \<and> key \<in> {KChar (chr (CHR ''g'')), KHome} then Some 0
         else if m = MOD_SHIFT \<and> key = KChar (chr (CHR ''G'')) then Some u16_max
         else if m = 0 \<and> key = KEnd then Some u16_max
         else None)"

definition handle_help :: "key_event \<Rightarrow> nat \<Rightarrow> nat \<times> overlay_action" where
  "handle_help ev n =
     (if ke_mods ev = 0 \<and> ke_key ev \<in> {KEscape, KChar (chr (CHR ''q'')), KEnter} then (n, OaCancel)
      else case help_target ev n of
             None \<Rightarrow> (n, OaNone)
           | Some k \<Rightarrow> (k, if k = n then OaNone else OaRedraw))"

definition handle_welcome :: "key_event \<Rightarrow> overlay_action" where
  "handle_welcome ev = OaCancel"

section \<open>The command prompt\<close>

definition complete_in_place :: "rstr \<Rightarrow> rstr list \<Rightarrow> rstr \<times> overlay_action" where
  "complete_in_place buf completions =
     (let trimmed = trim_start buf; leading = length buf - length trimmed
      in case strip_prefix (lit ''switch '') trimmed of
           Some rest \<Rightarrow>
             (let arg = trim_start rest; keep = length buf - length arg
              in case complete arg completions of
                   CompletionUnique s \<Rightarrow> (take keep buf @ s, OaRedraw)
                 | CompletionPartial s \<Rightarrow> (take keep buf @ s, OaRedraw)
                 | CompletionNone \<Rightarrow> (buf, OaNone))
         | None \<Rightarrow>
             if \<not> list_ex is_whitespace trimmed then
               (case complete trimmed VERBS of
                  CompletionUnique s \<Rightarrow> (take leading buf @ s @ [32], OaRedraw)
                | CompletionPartial s \<Rightarrow> (take leading buf @ s, OaRedraw)
                | CompletionNone \<Rightarrow> (buf, OaNone))
             else (buf, OaNone))"

text \<open>The buffer and the place in the history; \<open>None\<close> where the code would index out of range.\<close>

definition history_recall ::
    "rstr \<Rightarrow> rstr list \<Rightarrow> nat option \<Rightarrow> bool \<Rightarrow> (rstr \<times> nat option \<times> overlay_action) option" where
  "history_recall buf history hist_idx older =
     (if history = [] then Some (buf, hist_idx, OaNone)
      else if older then
        (let i = (case hist_idx of None \<Rightarrow> length history - 1 | Some j \<Rightarrow> if j = 0 then 0 else j - 1)
         in Option.bind (nth_opt history i) (\<lambda>h. Some (h, Some i, OaRedraw)))
      else case hist_idx of
             None \<Rightarrow> Some (buf, None, OaNone)
           | Some i \<Rightarrow>
               if i + 1 < length history
               then Option.bind (nth_opt history (i + 1)) (\<lambda>h. Some (h, Some (i + 1), OaRedraw))
               else Some ([], None, OaRedraw))"

definition handle_command_prompt ::
    "key_event \<Rightarrow> rstr \<Rightarrow> rstr list \<Rightarrow> nat option \<Rightarrow> rstr list \<Rightarrow> (rstr \<times> nat option \<times> overlay_action) option" where
  "handle_command_prompt ev buf history hist_idx completions =
     (let m = ke_mods ev;
          commit = (let t = trim buf in if t = [] then OaCancel else OaCommit t)
      in case ke_key ev of
           KEscape \<Rightarrow> Some (buf, hist_idx, if m = 0 then OaCancel else OaNone)
         | KEnter \<Rightarrow> Some (buf, hist_idx, commit)
         | KKeypadEnter \<Rightarrow> Some (buf, hist_idx, commit)
         | KBackspace \<Rightarrow>
             if m = 0 then Some (if buf \<noteq> [] then (butlast buf, None, OaRedraw) else (buf, None, OaNone))
             else Some (buf, hist_idx, OaNone)
         | KTab \<Rightarrow>
             if m = 0 then (let (b, a) = complete_in_place buf completions in Some (b, hist_idx, a))
             else Some (buf, hist_idx, OaNone)
         | KArrow d \<Rightarrow>
             if m = 0 \<and> d = DirUp then history_recall buf history hist_idx True
             else if m = 0 \<and> d = DirDown then history_recall buf history hist_idx False
             else Some (buf, hist_idx, OaNone)
         | KChar c \<Rightarrow>
             if m = MOD_CTRL \<and> c = chr (CHR ''u'') then
               Some (if buf = [] then (buf, None, OaNone) else ([], None, OaRedraw))
             else if m = 0 \<or> m = MOD_SHIFT then Some (buf @ [c], None, OaRedraw)
             else Some (buf, hist_idx, OaNone)
         | _ \<Rightarrow> Some (buf, hist_idx, OaNone))"

definition handle_overlay :: "key_event \<Rightarrow> overlay \<Rightarrow> (overlay \<times> overlay_action) option" where
  "handle_overlay ev ov =
     (case ov of
        OvRename t buf \<Rightarrow> (let (b, a) = ov_handle_rename ev buf in Some (OvRename t b, a))
      | OvHelp n \<Rightarrow> (let (k, a) = handle_help ev n in Some (OvHelp k, a))
      | OvWelcome \<Rightarrow> Some (ov, handle_welcome ev)
      | OvCommand buf history hist_idx completions \<Rightarrow>
          map_option (\<lambda>(b, i, a). (OvCommand b history i completions, a))
            (handle_command_prompt ev buf history hist_idx completions)
      | _ \<Rightarrow> Some (ov, OaNone))"

end
