(* ===== verification/Boxes.thy ===== *)
theory Boxes
  imports Borders Overlay
begin

unbundle bit_operations_syntax

text \<open>
  The interactive overlays as they are painted, after \<open>crates/mux/src/compositor.rs\<close>: the one-line prompts, the
  centred boxes (help, welcome, history, palette, tree, buffers), the hint labels and the floating popup.
\<close>

section \<open>What is painted\<close>

record hint_colors =
  hc_label_fg :: color
  hc_label_bg :: color
  hc_match_fg :: color

datatype overlay_view =
    OvwRenamePrompt rstr rstr
  | OvwHelp "(rstr \<times> rstr) list" nat
  | OvwCommand rstr
  | OvwTree tree_state
  | OvwBuffer buffer_picker_state
  | OvwHistory history_state
  | OvwHint hint_state hint_colors
  | OvwWelcome "rstr list"
  | OvwPalette palette_state

record popup_view =
  pv_rect :: rect
  pv_screen :: screen
  pv_title :: rstr

text \<open>Where a centred box lies, and when there is no room for it.\<close>

definition box_origin :: "nat \<Rightarrow> nat \<Rightarrow> nat \<Rightarrow> nat \<Rightarrow> nat \<Rightarrow> nat \<times> nat" where
  "box_origin offset rows cols box_h box_w = (wadd16 offset ((rows - box_h) div 2), (cols - box_w) div 2)"

definition box_fits :: "nat \<Rightarrow> nat \<Rightarrow> nat \<Rightarrow> nat \<Rightarrow> nat \<Rightarrow> bool" where
  "box_fits min_h rows cols box_h box_w \<longleftrightarrow> 3 \<le> box_w \<and> min_h \<le> box_h \<and> box_w \<le> cols \<and> box_h \<le> rows"

definition box_width :: "nat \<Rightarrow> nat list \<Rightarrow> nat" where
  "box_width cols ws = as_u16 (min (Max (set (0 # ws)) + 2) (cols - 2) + 2)"

text \<open>The first line of a list that keeps the selected one in its window.\<close>

definition scroll_top :: "nat \<Rightarrow> nat \<Rightarrow> nat" where
  "scroll_top sel shown = (if sel \<ge> shown then sel - shown + 1 else 0)"

section \<open>Help and welcome\<close>

definition help_line :: "unicode \<Rightarrow> nat \<Rightarrow> rstr \<times> rstr \<Rightarrow> rstr" where
  "help_line u key_w = (\<lambda>(keys, desc). keys @ replicate (key_w - dwidth u keys) 32 @ [32, 32] @ desc)"

text \<open>Lines painted one below the other.\<close>

definition paint_lines ::
    "(nat \<Rightarrow> rstr \<Rightarrow> virtual_screen \<Rightarrow> virtual_screen \<times> nat) \<Rightarrow> nat \<Rightarrow> rstr list \<Rightarrow> virtual_screen \<Rightarrow> virtual_screen" where
  "paint_lines put row0 lines s =
     foldl (\<lambda>s (i, l). fst (put (wadd16 (wadd16 row0 1) (as_u16 i)) l s)) s (enumerate 0 lines)"

definition paint_help_box ::
    "unicode \<Rightarrow> (rstr \<times> rstr) list \<Rightarrow> nat \<Rightarrow> nat \<Rightarrow> nat \<Rightarrow> nat \<Rightarrow> chrome_colors \<Rightarrow> virtual_screen \<Rightarrow> virtual_screen" where
  "paint_help_box u lines scroll offset rows cols ch s =
     (let title_text = lit '' Keybindings '';
          footer = lit '' j/k scroll '' @ [183] @ lit '' esc close '';
          key_w = min (Max (set (0 # map (\<lambda>(k, _). dwidth u k) lines))) 20;
          box_w = box_width cols (map (\<lambda>(k, d). max key_w (dwidth u k) + 2 + dwidth u d) lines
                                  @ [dwidth u title_text, dwidth u footer]);
          shown = min (length lines) (max (rows - 3) 1);
          box_h = wadd16 (as_u16 shown) 3
      in if \<not> box_fits 4 rows cols box_h box_w then s
         else (let vtop = min scroll (length lines - shown); (row0, col0) = box_origin offset rows cols box_h box_w;
                   s = draw_box u row0 col0 box_h box_w title_text footer ch s
               in paint_lines (\<lambda>r l. put_str u r (wadd16 col0 1) l 0 (wsub16 (wadd16 col0 box_w) 1)) row0
                    (map (help_line u key_w) (take shown (drop vtop lines))) s))"

definition paint_welcome ::
    "unicode \<Rightarrow> rstr list \<Rightarrow> nat \<Rightarrow> nat \<Rightarrow> nat \<Rightarrow> chrome_colors \<Rightarrow> virtual_screen \<Rightarrow> virtual_screen" where
  "paint_welcome u lines offset rows cols ch s =
     (let title_text = lit '' Welcome to plexy-glass ''; footer = lit '' press any key to continue '';
          box_w = box_width cols (map (dwidth u) lines @ [dwidth u title_text, dwidth u footer]);
          box_h = wadd16 (as_u16 (length lines)) 3
      in if \<not> box_fits 4 rows cols box_h box_w then s
         else (let (row0, col0) = box_origin offset rows cols box_h box_w;
                   s = draw_box u row0 col0 box_h box_w title_text footer ch s
               in paint_lines (\<lambda>r l. put_colored u r (wadd16 col0 1) l DefaultColor (ch_bg ch) 0 (wsub16 (wadd16 col0 box_w) 1))
                    row0 lines s))"

section \<open>Filter lists\<close>

definition pad_to :: "nat \<Rightarrow> rstr \<Rightarrow> rstr" where
  "pad_to n t = t @ replicate (n - length t) 32"

definition history_row :: "history_entry \<Rightarrow> rstr" where
  "history_row e =
     [case he_exit e of Some x \<Rightarrow> if x = 0 then 0x2713 else 0x2717 | None \<Rightarrow> 32] @ [32]
     @ pad_to 6 (case he_duration e of Some d \<Rightarrow> format_duration d | None \<Rightarrow> []) @ [32]
     @ he_session e @ lit ''/'' @ lit (dec (he_window_idx e)) @ [32, 32] @ he_command e"

definition palette_row :: "nat \<Rightarrow> palette_entry \<Rightarrow> rstr" where
  "palette_row label_w e =
     pad_to label_w (pe_label e) @ [32, 32] @ (case pe_key e of Some k \<Rightarrow> k | None \<Rightarrow> [])"

text \<open>The box of the history and of the palette: a filter line with a count, and the rows.\<close>

definition paint_finder_box ::
    "unicode \<Rightarrow> rstr \<Rightarrow> rstr \<Rightarrow> rstr \<Rightarrow> rstr list \<Rightarrow> rstr \<Rightarrow> nat \<Rightarrow> nat \<Rightarrow> nat \<Rightarrow> nat \<Rightarrow> nat \<Rightarrow> chrome_colors
      \<Rightarrow> virtual_screen \<Rightarrow> virtual_screen" where
  "paint_finder_box u title_text footer empty_msg items flt n_all sel offset rows cols ch s =
     (let filter_line = lit ''filter: '' @ flt;
          shown = min (max (length items) 1) (max (rows - 3) 1);
          box_w = box_width cols (map (dwidth u) items
                    @ [dwidth u filter_line, dwidth u title_text, dwidth u footer,
                       if items = [] then dwidth u empty_msg else 0]);
          box_h = wadd16 (as_u16 shown) 3
      in if \<not> box_fits 4 rows cols box_h box_w then s
         else (let vtop = scroll_top sel shown; (row0, col0) = box_origin offset rows cols box_h box_w;
                   s = draw_box u row0 col0 box_h box_w title_text footer ch s;
                   left = wadd16 col0 1; right = wsub16 (wadd16 col0 box_w) 1; r1 = wadd16 row0 1; r2 = wadd16 row0 2;
                   s = fst (put_str u r1 left (filter_line @ [0x2588]) 0 right s);
                   count = lit (dec (length items)) @ lit ''/'' @ lit (dec n_all); cw = dwidth u count;
                   s = (if right > wadd16 left cw then fst (put_str u r1 (wsub16 right cw) count 0 right s) else s)
               in if items = [] then fst (put_str u r2 left empty_msg 0 right s)
                  else paint_selectable_rows u items r2 left right vtop shown sel s))"

text \<open>The place of the selected entry among the visible ones.\<close>

definition selected_place :: "nat list \<Rightarrow> nat option \<Rightarrow> nat" where
  "selected_place is sel =
     (case Option.bind sel (\<lambda>x. position (\<lambda>i. i = x) is) of Some p \<Rightarrow> p | None \<Rightarrow> 0)"

definition select_footer :: "rstr \<Rightarrow> rstr" where
  "select_footer verb =
     lit '' '' @ [8593] @ lit ''/'' @ [8595] @ lit '' select '' @ [183] @ lit '' enter '' @ verb
     @ lit '' '' @ [183] @ lit '' esc cancel ''"

definition paint_history ::
    "unicode \<Rightarrow> history_state \<Rightarrow> nat \<Rightarrow> nat \<Rightarrow> nat \<Rightarrow> chrome_colors \<Rightarrow> virtual_screen \<Rightarrow> virtual_screen" where
  "paint_history u st offset rows cols ch s =
     (let is = history_visible_indices (uc_lower u) st; es = Finder.hs_entries st
      in paint_finder_box u (lit '' History '') (select_footer (lit ''jump'')) (lit ''(no matching blocks)'')
           (map (\<lambda>i. history_row (es ! i)) is) (fl_filter (Finder.hs_finder st)) (length es)
           (selected_place is (history_selected (uc_lower u) st)) offset rows cols ch s)"

definition paint_palette ::
    "unicode \<Rightarrow> palette_state \<Rightarrow> nat \<Rightarrow> nat \<Rightarrow> nat \<Rightarrow> chrome_colors \<Rightarrow> virtual_screen \<Rightarrow> virtual_screen" where
  "paint_palette u st offset rows cols ch s =
     (let is = palette_visible_indices (uc_lower u) st; es = ps_entries st;
          label_w = Max (set (0 # map (\<lambda>i. dwidth u (pe_label (es ! i))) is))
      in paint_finder_box u (lit '' Commands '') (select_footer (lit ''run'')) (lit ''(no matching commands)'')
           (map (\<lambda>i. palette_row label_w (es ! i)) is) (fl_filter (ps_finder st)) (length es)
           (selected_place is (palette_selected (uc_lower u) st)) offset rows cols ch s)"

section \<open>The tree and the buffers\<close>

definition tree_footer :: "tree_state \<Rightarrow> rstr" where
  "tree_footer st =
     (case ts_mode st of
        TmNavigate \<Rightarrow>
          lit '' '' @ [8593] @ lit ''/'' @ [8595] @ lit '' move '' @ [183] @ lit '' enter switch '' @ [183]
          @ lit '' x kill '' @ [183] @ lit '' r rename '' @ [183] @ lit '' esc close ''
          @ (if ts_filter st = [] then [] else lit ''(filtered) '')
      | TmConfirmKill \<Rightarrow>
          (case nth_opt (ts_nodes st) (ts_selected st) of
             Some n \<Rightarrow>
               lit '' Kill '' @ (case tv_kind n of TkSession \<Rightarrow> lit ''session'' | TkWindow _ \<Rightarrow> lit ''window''
                                 | TkPane _ _ \<Rightarrow> lit ''pane'') @ [32, 39] @ tv_name n @ [39] @ lit ''?  y / n ''
           | None \<Rightarrow> lit '' Kill?  y / n '')
      | TmRename buf \<Rightarrow> lit '' rename: '' @ buf @ [0x2588] @ lit ''  enter ok '' @ [183] @ lit '' esc cancel ''
      | TmFilter \<Rightarrow> lit '' /'' @ ts_filter st @ [0x2588] @ lit ''  enter keep '' @ [183] @ lit '' esc clear '')"

definition tree_row :: "tree_node \<Rightarrow> rstr" where
  "tree_row n =
     replicate (tv_depth n * 2) 32 @ (if tv_is_current n then lit ''*'' else [32]) @ [32] @ tv_label n"

text \<open>The box of the tree and of the buffers: rows, and a line when there are none.\<close>

definition paint_list_box ::
    "unicode \<Rightarrow> rstr \<Rightarrow> rstr \<Rightarrow> rstr option \<Rightarrow> rstr list \<Rightarrow> nat \<Rightarrow> nat \<Rightarrow> nat \<Rightarrow> nat \<Rightarrow> chrome_colors
      \<Rightarrow> virtual_screen \<Rightarrow> virtual_screen" where
  "paint_list_box u title_text footer empty_msg items sel offset rows cols ch s =
     (let shown = min (max (length items) 1) (max (rows - 2) 1);
          box_w = box_width cols (map (dwidth u) items @ [dwidth u title_text, dwidth u footer]
                    @ (case empty_msg of Some m \<Rightarrow> if items = [] then [dwidth u m] else [] | None \<Rightarrow> []));
          box_h = wadd16 (as_u16 shown) 2
      in if \<not> box_fits 3 rows cols box_h box_w then s
         else (let vtop = scroll_top sel shown; (row0, col0) = box_origin offset rows cols box_h box_w;
                   s = draw_box u row0 col0 box_h box_w title_text footer ch s;
                   left = wadd16 col0 1; right = wsub16 (wadd16 col0 box_w) 1; r1 = wadd16 row0 1
               in if items = [] then
                    (case empty_msg of Some m \<Rightarrow> fst (put_str u r1 left m 0 right s) | None \<Rightarrow> s)
                  else paint_selectable_rows u items r1 left right vtop shown sel s))"

definition paint_tree ::
    "unicode \<Rightarrow> tree_state \<Rightarrow> nat \<Rightarrow> nat \<Rightarrow> nat \<Rightarrow> chrome_colors \<Rightarrow> virtual_screen \<Rightarrow> virtual_screen" where
  "paint_tree u st offset rows cols ch s =
     (let is = visible_indices (uc_lower u) st
      in paint_list_box u (lit '' Tree '') (tree_footer st) None (map (\<lambda>i. tree_row (ts_nodes st ! i)) is)
           (selected_place is (Some (ts_selected st))) offset rows cols ch s)"

definition paint_buffers ::
    "unicode \<Rightarrow> buffer_picker_state \<Rightarrow> nat \<Rightarrow> nat \<Rightarrow> nat \<Rightarrow> chrome_colors \<Rightarrow> virtual_screen \<Rightarrow> virtual_screen" where
  "paint_buffers u st offset rows cols ch s =
     (let items = map (\<lambda>e. be_name e @ lit '': '' @ be_preview e) (bp_entries st)
      in paint_list_box u (lit '' Paste buffers '')
           (lit '' '' @ [8593] @ lit ''/'' @ [8595] @ lit '' move '' @ [183] @ lit '' enter paste '' @ [183]
            @ lit '' d delete '' @ [183] @ lit '' esc close '')
           (Some (lit ''(no paste buffers)'')) items (min (bp_selected st) (length items - 1)) offset rows cols ch s)"

section \<open>Hints and the popup\<close>

definition dim_cell :: "attrs \<Rightarrow> cell \<Rightarrow> cell" where
  "dim_cell a x = x\<lparr>c_attrs := c_attrs x OR a\<rparr>"

definition paint_hint ::
    "unicode \<Rightarrow> hint_state \<Rightarrow> hint_colors \<Rightarrow> nat \<Rightarrow> rect \<Rightarrow> nat \<Rightarrow> virtual_screen \<Rightarrow> virtual_screen" where
  "paint_hint u st hc offset R host_cols s =
     (let s = foldl (\<lambda>s (r, c).
                if wadd16 (rc_col R) c \<ge> host_cols then s
                else vs_cell_mut (wadd16 (wadd16 offset (rc_row R)) r) (wadd16 (rc_col R) c) (dim_cell A_DIM) s)
                s (box_cells (rc_rows R) (rc_cols R));
          clip = min (wadd16 (rc_col R) (rc_cols R)) host_cols;
          n = length (hs_typed st)
      in foldl (\<lambda>s (label, target).
           let p = ht_start target
           in if pt_row p \<ge> rc_rows R \<or> pt_col p \<ge> rc_cols R then s
              else (let r = wadd16 (wadd16 offset (rc_row R)) (pt_row p);
                        (s, after) = put_colored u r (wadd16 (rc_col R) (pt_col p)) (take n label) (hc_match_fg hc)
                                       DefaultColor A_DIM clip s
                    in fst (put_colored u r after (drop n label) (hc_label_fg hc) (hc_label_bg hc) A_BOLD clip s)))
         s (hint_visible st))"

text \<open>The grid of the popup's pane, in the interior of its box.\<close>

definition popup_interior :: "popup_view \<Rightarrow> nat \<Rightarrow> virtual_screen \<Rightarrow> virtual_screen" where
  "popup_interior p offset s =
     (let R = pv_rect p; g = active (pv_screen p)
      in foldl (\<lambda>s (r, c).
           (case Option.bind (nth_opt (g_rows g) r) (\<lambda>row. nth_opt (cells row) c) of
              None \<Rightarrow> s
            | Some x \<Rightarrow> vs_put (wadd16 (wadd16 (wadd16 offset (rc_row R)) 1) r) (wadd16 (wadd16 (rc_col R) 1) c) x s))
         s (box_cells (min (rc_rows R - 2) (num_rows g)) (min (rc_cols R - 2) (num_cols g))))"

definition popup_status_cell :: "block_border_colors \<Rightarrow> block_line_status \<Rightarrow> cell \<Rightarrow> cell" where
  "popup_status_cell bb st x =
     (case st of
        BlockOk \<Rightarrow> x\<lparr>c_fg := bb_ok bb\<rparr>
      | BlockFailed \<Rightarrow> x\<lparr>c_fg := bb_fail bb, grapheme := (if grapheme x = [0x2502] then [0x2590] else grapheme x)\<rparr>)"

definition popup_statuses :: "popup_view \<Rightarrow> nat \<Rightarrow> nat \<Rightarrow> nat \<Rightarrow> block_border_colors \<Rightarrow> virtual_screen \<Rightarrow> virtual_screen" where
  "popup_statuses p offset rows cols bb s =
     (let R = pv_rect p; n = rc_rows R - 2;
          sts = viewport_block_status (pv_screen p) (as_u32 (length (sb_rows (scrollback (pv_screen p))))) n
      in foldl (\<lambda>s (i, st).
           (case st of
              None \<Rightarrow> s
            | Some st \<Rightarrow>
                let r = wadd16 (wadd16 (wadd16 offset (rc_row R)) 1) (as_u16 i); c = rc_col R
                in if r \<ge> sadd16 rows offset \<or> c \<ge> cols then s else vs_cell_mut r c (popup_status_cell bb st) s))
         s (enumerate 0 sts))"

definition popup_cursor :: "popup_view \<Rightarrow> nat \<Rightarrow> (nat \<times> nat) option" where
  "popup_cursor p offset =
     (let R = pv_rect p; cur = cursor (pv_screen p)
      in if row cur < rc_rows R - 2 \<and> col cur < rc_cols R - 2
         then Some (wadd16 (wadd16 (wadd16 offset (rc_row R)) 1) (row cur), wadd16 (wadd16 (rc_col R) 1) (col cur))
         else None)"

definition paint_popup ::
    "unicode \<Rightarrow> popup_view \<Rightarrow> nat \<Rightarrow> nat \<Rightarrow> nat \<Rightarrow> block_border_colors option \<Rightarrow> virtual_screen \<Rightarrow> virtual_screen" where
  "paint_popup u p offset rows cols blocks s =
     (let s = s\<lparr>vs_cursor_style := None\<rparr>; R = pv_rect p
      in if rc_rows R < 3 \<or> rc_cols R < 3 then s
         else if sadd16 (rc_row R) (rc_rows R) > rows \<or> sadd16 (rc_col R) (rc_cols R) > cols then s
         else
           (let r0 = wadd16 offset (rc_row R);
                s = foldl (\<lambda>s (r, c). fst (put_char u (wadd16 r0 r) (wadd16 (rc_col R) c)
                                            (border_glyph r c (rc_rows R) (rc_cols R)) 0 s))
                      s (box_cells (rc_rows R) (rc_cols R));
                title_text = [32] @ pv_title p @ [32];
                tcol = wadd16 (wadd16 (rc_col R) 1) ((rc_cols R - 2 - dwidth u title_text) div 2);
                s = fst (put_str u r0 tcol title_text 0 (wsub16 (wadd16 (rc_col R) (rc_cols R)) 1) s);
                s = popup_interior p offset s;
                s = (case blocks of Some bb \<Rightarrow> popup_statuses p offset rows cols bb s | None \<Rightarrow> s)
            in s\<lparr>vs_cursor := popup_cursor p offset,
                 vs_cursor_visible := m_contains (modes (pv_screen p)) M_CURSOR_VISIBLE\<rparr>))"

section \<open>Overlays\<close>

text \<open>A bar over the whole width at the bottom of the panes, with a block after the text.\<close>

definition paint_bar :: "unicode \<Rightarrow> rstr \<Rightarrow> nat \<Rightarrow> nat \<Rightarrow> nat \<Rightarrow> virtual_screen \<Rightarrow> virtual_screen" where
  "paint_bar u text_line offset rows cols s =
     (let r = wadd16 offset (rows - 1);
          s = fill_chars u r 0 cols 32 A_REVERSE s;
          (s, end_col) = put_str u r 0 text_line A_REVERSE cols s;
          s = (if end_col < cols then fst (put_char u r end_col 0x2588 A_REVERSE s) else s)
      in s\<lparr>vs_cursor := Some (r, min end_col (cols - 1)), vs_cursor_visible := False\<rparr>)"

definition paint_overlay ::
    "unicode \<Rightarrow> overlay_view \<Rightarrow> nat \<Rightarrow> nat \<Rightarrow> nat \<Rightarrow> rect option \<Rightarrow> chrome_colors \<Rightarrow> virtual_screen \<Rightarrow> virtual_screen" where
  "paint_overlay u ov offset rows cols active_rect ch s =
     (let s = s\<lparr>vs_cursor_style := None\<rparr>; hide = (\<lambda>s :: virtual_screen. s\<lparr>vs_cursor_visible := False\<rparr>)
      in case ov of
           OvwRenamePrompt label buf \<Rightarrow>
             paint_bar u ([32] @ label @ [32, 0x25B8, 32] @ buf) offset rows cols s
         | OvwCommand buf \<Rightarrow> paint_bar u (lit '' :'' @ buf) offset rows cols s
         | OvwHelp lines scroll \<Rightarrow> hide (paint_help_box u lines scroll offset rows cols ch s)
         | OvwTree st \<Rightarrow> hide (paint_tree u st offset rows cols ch s)
         | OvwBuffer st \<Rightarrow> hide (paint_buffers u st offset rows cols ch s)
         | OvwHistory st \<Rightarrow> hide (paint_history u st offset rows cols ch s)
         | OvwPalette st \<Rightarrow> hide (paint_palette u st offset rows cols ch s)
         | OvwHint st hc \<Rightarrow>
             hide (paint_hint u st hc offset
                     (case active_rect of Some R \<Rightarrow> R | None \<Rightarrow> mk_rect (mk_point 0 0) (mk_size rows cols)) cols s)
         | OvwWelcome lines \<Rightarrow> hide (paint_welcome u lines offset rows cols ch s))"

end
