(* ===== verification/Compositor.thy ===== *)
theory Compositor
  imports Boxes Block_Mode Copy_Mode Selection
begin

unbundle bit_operations_syntax

text \<open>
  The compositor, after \<open>crates/mux/src/compositor.rs\<close>: panes, borders, annotations, images, the status bar,
  the cursor, prompts, messages, the popup and the overlay, layer on layer, into one frame.
\<close>

section \<open>Views\<close>

record pane_view =
  pw_id :: pane_id
  pw_rect :: rect
  pw_screen :: screen
  pw_is_active :: bool
  pw_scroll_offset :: nat
  pw_copy_mode :: "copy_mode option"
  pw_block_mode :: "block_mode option"
  pw_title :: "rstr option"
  pw_marked :: bool
  pw_drag_role :: pane_drag_role

datatype status_placement = StatusTop | StatusBottom

record message_view =
  mv_text :: rstr
  mv_glyph :: rstr
  mv_fg :: color
  mv_bg :: color

definition MIN_POPUP_ROWS :: nat where "MIN_POPUP_ROWS = 5"
definition MIN_POPUP_COLS :: nat where "MIN_POPUP_COLS = 12"

definition popup_rect :: "rect \<Rightarrow> rect" where
  "popup_rect R =
     (let want_rows = min (rc_rows R * 8 div 10) u16_max; want_cols = min (rc_cols R * 8 div 10) u16_max;
          rows = min (max want_rows MIN_POPUP_ROWS) (rc_rows R);
          cols = min (max want_cols MIN_POPUP_COLS) (rc_cols R)
      in mk_rect (mk_point (wadd16 (rc_row R) ((rc_rows R - rows) div 2)) (wadd16 (rc_col R) ((rc_cols R - cols) div 2)))
           (mk_size rows cols))"

section \<open>Folding\<close>

definition effective_scroll_for :: "pane_view \<Rightarrow> nat" where
  "effective_scroll_for v =
     (let vtop = (case pw_copy_mode v of
                    Some cm \<Rightarrow> Some (cm_viewport_top cm)
                  | None \<Rightarrow> map_option bm_viewport_top (pw_block_mode v));
          s = pw_screen v
      in case vtop of
           Some vt \<Rightarrow>
             wadd32 (as_u32 (length (sb_rows (scrollback s)))) (num_rows (active s)) - vt - rc_rows (pw_rect v)
         | None \<Rightarrow> pw_scroll_offset v)"

record fold_ctx =
  fx_proj :: fold_projection
  fx_top :: nat

definition fold_ctx_for :: "pane_view \<Rightarrow> fold_ctx" where
  "fold_ctx_for v =
     (let rows = rc_rows (pw_rect v); s = pw_screen v
      in case pw_copy_mode v of
           Some _ \<Rightarrow>
             (let p = fp_identity (total_lines s)
              in \<lparr>fx_proj = p, fx_top = visible_total p - rows - effective_scroll_for v\<rparr>)
         | None \<Rightarrow>
             (let p = fp_build s
              in \<lparr>fx_proj = p,
                  fx_top = (case pw_block_mode v of
                      Some bm \<Rightarrow>
                        min (case from_unified p (bm_viewport_top bm) of Some x \<Rightarrow> x | None \<Rightarrow> 0) (visible_total p - rows)
                    | None \<Rightarrow> visible_total p - rows - pw_scroll_offset v)\<rparr>))"

definition ctx_line_at :: "fold_ctx \<Rightarrow> nat \<Rightarrow> nat option" where
  "ctx_line_at ctx r =
     (let v = line_advance (fx_top ctx) r
      in if v < visible_total (fx_proj ctx) then Some (to_unified (fx_proj ctx) v) else None)"

definition ctx_display_row :: "fold_ctx \<Rightarrow> nat \<Rightarrow> nat \<Rightarrow> nat option" where
  "ctx_display_row ctx line rows =
     Option.bind (from_unified (fx_proj ctx) line) (\<lambda>v.
       if v < fx_top ctx then None
       else (let r = saturating_delta v (fx_top ctx) in if r < rows then Some (as_u16 r) else None))"

text \<open>The contexts of all panes, by pane; of two panes with one id the later one counts.\<close>

definition ctx_of :: "pane_view list \<Rightarrow> pane_view \<Rightarrow> fold_ctx" where
  "ctx_of panes v =
     (case map_of (rev (map (\<lambda>w. (pw_id w, fold_ctx_for w)) panes)) (pw_id v) of
        Some ctx \<Rightarrow> ctx | None \<Rightarrow> fold_ctx_for v)"

section \<open>Images\<close>

definition wmul64 :: "nat \<Rightarrow> nat \<Rightarrow> nat" where
  "wmul64 a b = (a * b) mod (u64_max + 1)"

definition host_image_id :: "nat \<Rightarrow> nat \<Rightarrow> nat" where
  "host_image_id pane raw = max (as_u32 (wmul64 (pane * 2 ^ 32 + raw) 0x9E3779B97F4A7C15 div 2 ^ 32)) 1"

definition KITTY_PLACEHOLDER :: nat where "KITTY_PLACEHOLDER = 0x10EEEE"

definition virtual_host_image_id :: "nat \<Rightarrow> nat \<Rightarrow> nat" where
  "virtual_host_image_id pane raw =
     (let low24 = raw mod 2 ^ 24;
          mixed = wmul64 (pane * 2 ^ 24 + low24) 0x9E3779B97F4A7C15;
          folded = (mixed div 2 ^ 40) mod 2 ^ 24
      in (raw div 2 ^ 24 mod 2 ^ 8) * 2 ^ 24 + max folded 1)"

definition color_id :: "color \<Rightarrow> nat option" where
  "color_id f = (case f of Rgb r g b \<Rightarrow> Some (r * 2 ^ 16 + g * 2 ^ 8 + b) | Indexed n \<Rightarrow> Some n | DefaultColor \<Rightarrow> None)"

definition refold_placeholder_cell :: "nat \<Rightarrow> cell \<Rightarrow> cell" where
  "refold_placeholder_cell pane x =
     (if head_opt (grapheme x) \<noteq> Some KITTY_PLACEHOLDER then x
      else case color_id (c_fg x) of
             None \<Rightarrow> x
           | Some low24 \<Rightarrow>
               (let wire = virtual_host_image_id pane low24
                in x\<lparr>c_fg := Rgb (as_u8 (wire div 2 ^ 16)) (as_u8 (wire div 2 ^ 8)) (as_u8 wire)\<rparr>))"

definition crop_axis :: "nat \<Rightarrow> nat \<Rightarrow> nat \<Rightarrow> nat \<Rightarrow> nat \<times> nat" where
  "crop_axis pixels cs off vis =
     (let cs = max cs 1
      in if off = 0 \<and> vis \<ge> cs then (0, pixels)
         else (let a = pixels * off div cs; b = min (pixels * (off + vis) div cs) pixels
               in (as_u32 a, as_u32 (b - a))))"

definition place_image :: "pane_view \<Rightarrow> fold_ctx \<Rightarrow> nat \<Rightarrow> nat \<Rightarrow> placement \<Rightarrow> visible_placement option" where
  "place_image v ctx offset area_rows p =
     (let R = pw_rect v; vtop = fx_top ctx; bottom = min (rc_rows R) (area_rows - rc_row R)
      in Option.bind (store_get (pl_image p) (images (pw_screen v))) (\<lambda>img.
         Option.bind (from_unified (fx_proj ctx) (pl_anchor p)) (\<lambda>img_top.
           let vis_top = max img_top vtop;
               vis_bot = min (line_advance img_top (pl_rows p)) (line_advance vtop bottom);
               rows_off = as_u16 (saturating_delta vis_top img_top);
               vis_rows = as_u16 (saturating_delta vis_bot vis_top);
               vis_cols = min (pl_cols p) (rc_cols R - pl_col p);
               (src_y, src_h) = crop_axis (im_h img) (pl_rows p) rows_off vis_rows;
               (src_x, src_w) = crop_axis (im_w img) (pl_cols p) 0 vis_cols
           in if vis_bot \<le> vis_top \<or> vis_cols = 0 then None
              else Some \<lparr>vpl_key = (pw_id v mod 2 ^ 24) * 2 ^ 40 + pl_seq p mod 2 ^ 40,
                vpl_image_id = host_image_id (pw_id v) (pl_image p), vpl_placement_id = pl_id p,
                vpl_protocol = im_protocol img, vpl_iterm_args = im_iterm_args img, vpl_generation = im_generation img,
                vpl_format = im_format img, vpl_pixel_w = im_w img, vpl_pixel_h = im_h img,
                vpl_src_x = src_x, vpl_src_y = src_y, vpl_src_w = src_w, vpl_src_h = src_h, vpl_data = im_data img,
                vpl_host_row = wadd16 (wadd16 offset (rc_row R)) (as_u16 (saturating_delta vis_top vtop)),
                vpl_host_col = wadd16 (rc_col R) (pl_col p),
                vpl_rows = vis_rows, vpl_cols = vis_cols, vpl_z = pl_z p, vpl_frames = im_frames img,
                vpl_anim = im_anim img\<rparr>)))"

definition visible_placements :: "pane_view list \<Rightarrow> nat \<Rightarrow> nat \<Rightarrow> visible_placement list" where
  "visible_placements panes offset area_rows =
     concat (map (\<lambda>v. if alt (pw_screen v) \<noteq> None then []
                      else List.map_filter (place_image v (ctx_of panes v) offset area_rows) (placements (pw_screen v)))
       panes)"

definition place_virtual :: "pane_view \<Rightarrow> virtual_placement \<Rightarrow> visible_virtual_placement option" where
  "place_virtual v p =
     Option.bind (store_get (vp_image p) (images (pw_screen v))) (\<lambda>img.
       Some \<lparr>vvp_key = (pw_id v mod 2 ^ 24) * 2 ^ 40 + vp_seq p mod 2 ^ 40,
         vvp_image_id = virtual_host_image_id (pw_id v) (vp_image p), vvp_placement_id = vp_id p,
         vvp_generation = im_generation img, vvp_format = im_format img, vvp_pixel_w = im_w img, vvp_pixel_h = im_h img,
         vvp_data = im_data img, vvp_rows = vp_rows p, vvp_cols = vp_cols p\<rparr>)"

definition visible_virtual_placements :: "pane_view list \<Rightarrow> visible_virtual_placement list" where
  "visible_virtual_placements panes =
     concat (map (\<lambda>v. if alt (pw_screen v) \<noteq> None then []
                      else List.map_filter (place_virtual v) (virtual_placements (pw_screen v))) panes)"

section \<open>Pane contents\<close>

text \<open>The cell of a pane as it is copied.\<close>

definition pane_cell :: "pane_view \<Rightarrow> bool \<Rightarrow> cell \<Rightarrow> cell" where
  "pane_cell v dimmed x =
     (let x = (if dimmed \<and> \<not> is_blank x then dim_cell A_DIM x else x)
      in if virtual_placements (pw_screen v) \<noteq> [] then refold_placeholder_cell (pw_id v) x else x)"

definition pane_row :: "pane_view \<Rightarrow> fold_ctx \<Rightarrow> nat \<Rightarrow> cell list" where
  "pane_row v ctx r =
     (case ctx_line_at ctx r of
        None \<Rightarrow> []
      | Some line \<Rightarrow>
          (case row_at (pw_screen v) line of
             None \<Rightarrow> []
           | Some gr \<Rightarrow>
               map (pane_cell v (\<not> fp_is_identity (fx_proj ctx) \<and> is_folded_command_line (pw_screen v) line))
                 (take (min (rc_cols (pw_rect v)) (num_cols (active (pw_screen v)))) (cells gr))))"

definition copy_row ::
    "nat \<Rightarrow> nat \<Rightarrow> nat \<Rightarrow> cell list \<Rightarrow> virtual_screen \<Rightarrow> virtual_screen" where
  "copy_row host_cols r c0 xs s =
     foldl (\<lambda>s (i, x). if sadd16 c0 i \<ge> host_cols then s else vs_put r (sadd16 c0 i) x s) s (enumerate 0 xs)"

definition copy_pane ::
    "nat \<Rightarrow> nat \<Rightarrow> nat \<Rightarrow> fold_ctx \<Rightarrow> pane_view \<Rightarrow> virtual_screen \<Rightarrow> virtual_screen" where
  "copy_pane offset area_rows host_cols ctx v s =
     foldl (\<lambda>s r.
         if sadd16 (rc_row (pw_rect v)) r \<ge> area_rows then s
         else copy_row host_cols (wadd16 offset (sadd16 (rc_row (pw_rect v)) r)) (rc_col (pw_rect v)) (pane_row v ctx r) s)
       s [0..<rc_rows (pw_rect v)]"

section \<open>Selections and searches\<close>

text \<open>Adding an attribute to the cells of a row between two columns, both included.\<close>

definition mark_cols :: "attrs \<Rightarrow> nat \<Rightarrow> nat \<Rightarrow> nat \<Rightarrow> nat \<Rightarrow> nat \<Rightarrow> virtual_screen \<Rightarrow> virtual_screen" where
  "mark_cols a host_cols r c0 from_c to_c s =
     foldl (\<lambda>s c. if wadd16 c0 c \<ge> host_cols then s else vs_cell_mut r (wadd16 c0 c) (dim_cell a) s)
       s [from_c..<to_c + 1]"

definition paint_selection ::
    "pane_view list \<Rightarrow> nat \<Rightarrow> nat \<Rightarrow> nat \<Rightarrow> selection option \<Rightarrow> virtual_screen \<Rightarrow> virtual_screen option" where
  "paint_selection panes offset area_rows host_cols sel s =
     (case Option.bind sel (\<lambda>x. map_option (\<lambda>v. (x, v)) (find (\<lambda>v. pw_id v = sel_pane x) panes)) of
        None \<Rightarrow> Some s
      | Some (x, v) \<Rightarrow>
          Option.bind (collect_cells (selection_cells x (num_cols (active (pw_screen v))))) (\<lambda>ps.
            Some (foldl (\<lambda>s p.
                let r = sadd16 (rc_row (pw_rect v)) (pt_row p); c = sadd16 (rc_col (pw_rect v)) (pt_col p)
                in if r \<ge> area_rows \<or> c \<ge> host_cols then s
                   else vs_cell_mut (wadd16 offset r) c (dim_cell A_REVERSE) s) s ps)))"

text \<open>The frame row of a line of copy mode, when it is in the viewport.\<close>

definition copy_line_row :: "pane_view \<Rightarrow> copy_mode \<Rightarrow> nat \<Rightarrow> nat \<Rightarrow> nat option" where
  "copy_line_row v cm offset line =
     (if line < cm_viewport_top cm \<or> line \<ge> wadd32 (cm_viewport_top cm) (rc_rows (pw_rect v)) then None
      else Some (wadd16 (wadd16 offset (rc_row (pw_rect v))) (as_u16 (line - cm_viewport_top cm))))"

definition paint_copy_selection :: "nat \<Rightarrow> nat \<Rightarrow> virtual_screen \<Rightarrow> pane_view \<Rightarrow> virtual_screen" where
  "paint_copy_selection offset host_cols s v =
     (case Option.bind (pw_copy_mode v) (\<lambda>cm. map_option (\<lambda>a. (cm, a)) (cm_anchor cm)) of
        None \<Rightarrow> s
      | Some (cm, a) \<Rightarrow>
          (let (p, q) = (if pos_le a (cm_cursor cm) then (a, cm_cursor cm) else (cm_cursor cm, a));
               last_c = rc_cols (pw_rect v) - 1
           in foldl (\<lambda>s line.
                (case copy_line_row v cm offset line of
                   None \<Rightarrow> s
                 | Some r \<Rightarrow>
                     mark_cols A_REVERSE host_cols r (rc_col (pw_rect v))
                       (min (if line = fst p then snd p else 0) last_c)
                       (min (if line = fst q then snd q else last_c) last_c) s)) s [fst p..<fst q + 1]))"

definition paint_search :: "nat \<Rightarrow> nat \<Rightarrow> virtual_screen \<Rightarrow> pane_view \<Rightarrow> virtual_screen" where
  "paint_search offset host_cols s v =
     (case pw_copy_mode v of
        None \<Rightarrow> s
      | Some cm \<Rightarrow>
          foldl (\<lambda>s m.
              (case copy_line_row v cm offset (ms_line_idx m) of
                 None \<Rightarrow> s
               | Some r \<Rightarrow>
                   mark_cols A_HIGHLIGHT host_cols r (rc_col (pw_rect v)) (ms_col_start m)
                     (min (ms_col_end m) (rc_cols (pw_rect v) - 1)) s)) s (ss_matches (cm_search cm)))"

definition lowered_line :: "unicode \<Rightarrow> cell list \<Rightarrow> rstr \<times> (nat \<times> nat) list" where
  "lowered_line u cs =
     (let (text_line, starts, grid_col) =
        foldl (\<lambda>(text_line, starts, grid_col) c.
           if is_wide_spacer c then (text_line, starts, grid_col + 1)
           else (text_line @ uc_lower u (grapheme c), starts @ [(length text_line, grid_col)], grid_col + 1)) ([], [], 0) cs
      in (text_line, starts))"

definition filter_match_spans :: "unicode \<Rightarrow> screen \<Rightarrow> rstr \<Rightarrow> nat \<Rightarrow> nat \<Rightarrow> (nat \<times> nat \<times> nat) list" where
  "filter_match_spans u s query lo hi =
     (if query = [] then []
      else (let q = uc_lower u query; cols = num_cols (active s);
                lines = wadd32 (as_u32 (length (sb_rows (scrollback s)))) (num_rows (active s));
                span = max (dwidth u q) 1
            in concat (map (\<lambda>line.
                 (case row_at s line of
                    None \<Rightarrow> []
                  | Some gr \<Rightarrow>
                      (let (text_line, starts) = lowered_line u (cells gr)
                       in map (\<lambda>off.
                            (let a = (case find (\<lambda>(b, _). b \<le> off) (rev starts) of Some (_, gc) \<Rightarrow> gc | None \<Rightarrow> 0)
                             in (line, a, min (sadd16 a (span - 1)) (cols - 1))))
                            (occurrences q text_line 0)))) [lo..<min hi lines])))"

definition paint_block_filter :: "unicode \<Rightarrow> pane_view list \<Rightarrow> nat \<Rightarrow> nat \<Rightarrow> virtual_screen \<Rightarrow> pane_view \<Rightarrow> virtual_screen" where
  "paint_block_filter u panes offset host_cols s v =
     (case Option.bind (pw_block_mode v) bm_filter of
        None \<Rightarrow> s
      | Some f \<Rightarrow>
          if bf_query f = [] \<or> alt (pw_screen v) \<noteq> None then s
          else
            (let ctx = ctx_of panes v; R = pw_rect v; row_of = (\<lambda>r. wadd16 (wadd16 offset (rc_row R)) r);
                 s = foldl (\<lambda>s r.
                       (case ctx_line_at ctx r of
                          None \<Rightarrow> s
                        | Some line \<Rightarrow>
                            if (case prompt_at_or_above (pw_screen v) line of Some p \<Rightarrow> p \<in> set (bf_matches f) | None \<Rightarrow> False)
                            then s
                            else foldl (\<lambda>s c. vs_cell_mut (row_of r) (wadd16 (rc_col R) c) (dim_cell A_DIM) s) s [0..<rc_cols R]))
                     s [0..<rc_rows R]
             in foldl (\<lambda>s r.
                  (case ctx_line_at ctx r of
                     None \<Rightarrow> s
                   | Some line \<Rightarrow>
                       foldl (\<lambda>s (_, a, b). mark_cols A_HIGHLIGHT host_cols (row_of r) (rc_col R) a (min b (rc_cols R - 1)) s)
                         s (filter_match_spans u (pw_screen v) (bf_query f) line (line_advance line 1))))
                s [0..<rc_rows R]))"

section \<open>Frames of the panes\<close>

definition frame_block_rows :: "fold_ctx \<Rightarrow> pane_view \<Rightarrow> block_border_colors option \<Rightarrow> block_line_status option list" where
  "frame_block_rows ctx v blocks =
     (if blocks = None then []
      else if fp_is_identity (fx_proj ctx) then viewport_block_status (pw_screen v) (fx_top ctx) (rc_rows (pw_rect v))
      else map (\<lambda>r. Option.bind (ctx_line_at ctx r) (block_status_at (pw_screen v))) [0..<rc_rows (pw_rect v)])"

definition frame_selected_block :: "fold_ctx \<Rightarrow> pane_view \<Rightarrow> color \<Rightarrow> selected_block option" where
  "frame_selected_block ctx v select_color =
     Option.bind (pw_block_mode v) (\<lambda>bm.
       (let s = pw_screen v; rows = rc_rows (pw_rect v); vtop = fx_top ctx
        in if rows = 0 \<or> alt s \<noteq> None then None
           else (let (u_start, u_end_full) = block_extent s (bm_selected bm);
                     u_end = (if row_folded s (bm_selected bm)
                              then (case foldable_output s (bm_selected bm) of
                                      Some (out_start, _) \<Rightarrow> line_retreat out_start 1 | None \<Rightarrow> u_end_full)
                              else u_end_full)
                 in Option.bind (from_unified (fx_proj ctx) u_start) (\<lambda>vs.
                    Option.bind (from_unified (fx_proj ctx) u_end) (\<lambda>ve.
                      (let vp_end = line_advance vtop rows
                       in if ve < vtop \<or> vs \<ge> vp_end then None
                          else Some \<lparr>sb_sel_rows = (as_u16 (saturating_delta (max vs vtop) vtop),
                                                as_u16 (saturating_delta (min ve (line_retreat vp_end 1)) vtop)),
                                 sb_cap_top = (vs \<ge> vtop), sb_cap_bottom = (ve < vp_end), sb_color = select_color\<rparr>))))))"

definition pane_frame_of ::
    "pane_view list \<Rightarrow> nat \<Rightarrow> block_border_colors option \<Rightarrow> color \<Rightarrow> pane_view \<Rightarrow> pane_frame" where
  "pane_frame_of panes offset blocks select_color v =
     (let R = pw_rect v; ctx = ctx_of panes v
      in \<lparr>pf_rect = mk_rect (mk_point (sadd16 (rc_row R) offset) (rc_col R)) (mk_size (rc_rows R) (rc_cols R)),
          pf_active = pw_is_active v, pf_marked = pw_marked v, pf_drag_role = pw_drag_role v, pf_title = pw_title v,
          pf_block_rows = frame_block_rows ctx v blocks, pf_selected_block = frame_selected_block ctx v select_color\<rparr>)"

section \<open>Annotations\<close>

definition over_threshold :: "nat option \<Rightarrow> nat \<Rightarrow> bool" where
  "over_threshold t ms = (case t of Some t \<Rightarrow> t \<le> ms * 1000000 | None \<Rightarrow> False)"

definition fold_summary :: "screen \<Rightarrow> nat \<Rightarrow> rstr option" where
  "fold_summary s prompt =
     (if row_folded s prompt then
        map_option (\<lambda>(a, b).
          [0x25B8, 32] @ lit (dec (saturating_delta b a + 1)) @ lit '' lines''
          @ (case block_status_at s prompt of
               Some BlockOk \<Rightarrow> [32, 0x2713] | Some BlockFailed \<Rightarrow> [32, 0x2717] | None \<Rightarrow> [])) (foldable_output s prompt)
      else None)"

definition block_annotation :: "block_border_colors option \<Rightarrow> pane_view \<Rightarrow> nat \<Rightarrow> rstr option" where
  "block_annotation blocks v prompt =
     (let s = pw_screen v; t = Option.bind blocks bb_duration_threshold;
          dur = (if t \<noteq> None \<and> pw_copy_mode v = None
                 then (case closing_duration s prompt of
                         Some ms \<Rightarrow> if over_threshold t ms then Some (format_duration ms) else None | None \<Rightarrow> None)
                 else None)
      in case (fold_summary s prompt, dur) of
           (Some a, Some d) \<Rightarrow> Some (a @ [32, 183, 32] @ d)
         | (Some a, None) \<Rightarrow> Some a
         | (None, Some d) \<Rightarrow> Some d
         | (None, None) \<Rightarrow> None)"

text \<open>The column after the last cell of a stretch that is not blank.\<close>

definition content_end :: "virtual_screen \<Rightarrow> nat \<Rightarrow> nat \<Rightarrow> nat \<Rightarrow> nat" where
  "content_end s r a b =
     (case find (\<lambda>c. case vs_cell s r c of Some x \<Rightarrow> \<not> is_blank x | None \<Rightarrow> False) (rev [a..<b]) of
        Some c \<Rightarrow> c + 1 | None \<Rightarrow> a)"

definition annotate_row ::
    "unicode \<Rightarrow> block_border_colors option \<Rightarrow> pane_view list \<Rightarrow> nat \<Rightarrow> nat \<Rightarrow> nat \<Rightarrow> pane_view \<Rightarrow> virtual_screen \<Rightarrow> nat \<Rightarrow> virtual_screen" where
  "annotate_row u blocks panes offset area_rows host_cols v s r =
     (let R = pw_rect v; scr = pw_screen v
      in case (if sadd16 (rc_row R) r \<ge> area_rows then None else ctx_line_at (ctx_of panes v) r) of
           None \<Rightarrow> s
         | Some line \<Rightarrow>
             if \<not> is_command_row scr line then s
             else (let prompt = (case prompt_at_or_above scr line of Some p \<Rightarrow> p | None \<Rightarrow> line)
                   in case block_annotation blocks v prompt of
                        None \<Rightarrow> s
                      | Some note \<Rightarrow>
                          (let sw = dwidth u note; host_row = wadd16 (wadd16 offset (rc_row R)) r;
                               right = min (wadd16 (rc_col R) (rc_cols R)) host_cols; start = right - sw
                           in if right \<le> wadd16 (rc_col R) sw then s
                              else if content_end s host_row (rc_col R) right \<ge> start then s
                              else (let s = fst (put_str u host_row start note A_DIM right s)
                                    in case (blocks, block_status_at scr prompt) of
                                         (Some bb, Some st) \<Rightarrow>
                                           foldl (\<lambda>s c. vs_cell_mut host_row c
                                               (\<lambda>x. x\<lparr>c_fg := (case st of BlockOk \<Rightarrow> bb_ok bb | BlockFailed \<Rightarrow> bb_fail bb)\<rparr>) s)
                                             s [start..<right]
                                       | _ \<Rightarrow> s))))"

definition annotate_pane ::
    "unicode \<Rightarrow> block_border_colors option \<Rightarrow> pane_view list \<Rightarrow> nat \<Rightarrow> nat \<Rightarrow> nat \<Rightarrow> virtual_screen \<Rightarrow> pane_view \<Rightarrow> virtual_screen" where
  "annotate_pane u blocks panes offset area_rows host_cols s v =
     (if alt (pw_screen v) \<noteq> None then s
      else foldl (annotate_row u blocks panes offset area_rows host_cols v) s [0..<rc_rows (pw_rect v)])"

text \<open>The command whose output fills the top of a pane that is scrolled back.\<close>

definition sticky_command :: "pane_view list \<Rightarrow> nat \<Rightarrow> pane_view \<Rightarrow> (nat \<times> rstr) option" where
  "sticky_command panes area_rows v =
     (let s = pw_screen v
      in if alt s \<noteq> None \<or> pw_copy_mode v \<noteq> None \<or> pw_block_mode v \<noteq> None \<or> pw_scroll_offset v = 0
            \<or> rc_row (pw_rect v) \<ge> area_rows then None
         else Option.bind (ctx_line_at (ctx_of panes v) 0) (\<lambda>top_line.
              Option.bind (prompt_at_or_above s top_line) (\<lambda>prompt.
                if prompt \<ge> top_line then None
                else map_option (\<lambda>cmd. (prompt, cmd)) (block_command_line s prompt))))"

definition sticky_header ::
    "unicode \<Rightarrow> block_border_colors option \<Rightarrow> pane_view list \<Rightarrow> nat \<Rightarrow> nat \<Rightarrow> nat \<Rightarrow> virtual_screen \<Rightarrow> pane_view \<Rightarrow> virtual_screen" where
  "sticky_header u blocks panes offset area_rows host_cols s v =
     (case sticky_command panes area_rows v of
        None \<Rightarrow> s
      | Some (prompt, cmd) \<Rightarrow>
          (let R = pw_rect v; host_row = wadd16 offset (rc_row R); right = min (wadd16 (rc_col R) (rc_cols R)) host_cols;
               s = foldl (\<lambda>s c. vs_cell_mut host_row c (\<lambda>_. default_cell) s) s [rc_col R..<right];
               (s, cmd_end) = put_str u host_row (rc_col R) cmd A_DIM right s;
               t = Option.bind blocks bb_duration_threshold
           in case closing_duration (pw_screen v) prompt of
                None \<Rightarrow> s
              | Some ms \<Rightarrow>
                  if \<not> over_threshold t ms then s
                  else (let d = format_duration ms; dw = dwidth u d; start = right - dw
                        in if right > wadd16 (rc_col R) dw \<and> cmd_end < start
                           then fst (put_str u host_row start d A_DIM right s) else s)))"

section \<open>Cursor, prompts and messages\<close>

definition pane_cursor :: "pane_view list \<Rightarrow> nat \<Rightarrow> nat \<Rightarrow> pane_view \<Rightarrow> (nat \<times> nat) option" where
  "pane_cursor panes area_rows host_cols v =
     (let R = pw_rect v; cur = cursor (pw_screen v)
      in Option.bind
           (case pw_copy_mode v of
              Some cm \<Rightarrow>
                (let line = fst (cm_cursor cm)
                 in if cm_viewport_top cm \<le> line \<and> line < wadd32 (cm_viewport_top cm) (rc_rows R)
                    then Some (sadd16 (rc_row R) (as_u16 (line - cm_viewport_top cm)), sadd16 (rc_col R) (snd (cm_cursor cm)))
                    else None)
            | None \<Rightarrow>
                Option.bind
                  (if pw_block_mode v = None
                   then ctx_display_row (ctx_of panes v)
                          (wadd32 (as_u32 (length (sb_rows (scrollback (pw_screen v))))) (row cur)) (rc_rows R)
                   else Some (row cur))
                  (\<lambda>lr. Some (sadd16 (rc_row R) lr, sadd16 (rc_col R) (col cur))))
           (\<lambda>(r, c). if r < area_rows \<and> c < host_cols then Some (r, c) else None))"

definition place_cursor :: "pane_view list \<Rightarrow> nat \<Rightarrow> nat \<Rightarrow> nat \<Rightarrow> virtual_screen \<Rightarrow> virtual_screen" where
  "place_cursor panes offset area_rows host_cols s =
     (case find pw_is_active panes of
        None \<Rightarrow> s
      | Some v \<Rightarrow>
          (let cur = cursor (pw_screen v);
               s = (case pane_cursor panes area_rows host_cols v of
                      None \<Rightarrow> s
                    | Some (r, c) \<Rightarrow>
                        (let s = s\<lparr>vs_cursor := Some (wadd16 offset r, c)\<rparr>
                         in if pw_copy_mode v = None \<and> pw_block_mode v = None
                            then s\<lparr>vs_cursor_style := Some (shape cur, blink cur)\<rparr> else s))
           in s\<lparr>vs_cursor_visible :=
                 (pw_copy_mode v \<noteq> None \<or> m_contains (modes (pw_screen v)) M_CURSOR_VISIBLE)\<rparr>))"

definition prompt_row :: "nat \<Rightarrow> pane_view \<Rightarrow> nat" where
  "prompt_row offset v = wadd16 (wadd16 offset (rc_row (pw_rect v))) (rc_rows (pw_rect v) - 1)"

definition paint_search_prompt :: "unicode \<Rightarrow> pane_view list \<Rightarrow> nat \<Rightarrow> nat \<Rightarrow> virtual_screen \<Rightarrow> virtual_screen" where
  "paint_search_prompt u panes offset host_cols s =
     (case Option.bind (find pw_is_active panes) (\<lambda>v. map_option (\<lambda>cm. (v, cm)) (pw_copy_mode v)) of
        None \<Rightarrow> s
      | Some (v, cm) \<Rightarrow>
          if ss_prompt_active (cm_search cm)
          then fst (put_str u (prompt_row offset v) (rc_col (pw_rect v)) (lit ''/'' @ ss_prompt_buf (cm_search cm))
                      A_REVERSE host_cols s)
          else s)"

definition paint_filter_prompt :: "unicode \<Rightarrow> pane_view list \<Rightarrow> nat \<Rightarrow> nat \<Rightarrow> virtual_screen \<Rightarrow> virtual_screen" where
  "paint_filter_prompt u panes offset host_cols s =
     (case Option.bind (find pw_is_active panes) (\<lambda>v. Option.bind (pw_block_mode v) (\<lambda>bm.
             map_option (\<lambda>f. (v, f)) (bm_filter bm))) of
        None \<Rightarrow> s
      | Some (v, f) \<Rightarrow>
          if bf_prompt_active f
          then fst (put_str u (prompt_row offset v) (rc_col (pw_rect v))
                      (lit ''filter: '' @ bf_query f @ lit '' ('' @ lit (dec (length (bf_matches f))) @ lit ''/''
                       @ lit (dec (length (all_prompt_lines (pw_screen v)))) @ lit '')'') A_REVERSE host_cols s)
          else s)"

definition paint_message :: "unicode \<Rightarrow> message_view \<Rightarrow> nat \<Rightarrow> nat \<Rightarrow> nat \<Rightarrow> virtual_screen \<Rightarrow> virtual_screen" where
  "paint_message u msg offset area_rows host_cols s =
     (let r = wadd16 offset (area_rows - 1); f = mv_fg msg; b = mv_bg msg;
          s = fst (put_colored u r 0 (replicate host_cols 32) f b 0 host_cols s);
          (s, after_glyph) = put_colored u r 1 (mv_glyph msg) f b A_BOLD host_cols s
      in fst (put_colored u r (wadd16 after_glyph 1) (mv_text msg) f b 0 host_cols s))"

section \<open>Composition\<close>

record layers =
  ly_status :: "status_line option"
  ly_placement :: status_placement
  ly_selection :: "selection option"
  ly_overlay :: "overlay_view option"
  ly_message :: "message_view option"
  ly_popup :: "popup_view option"
  ly_blocks :: "block_border_colors option"
  ly_select_color :: color
  ly_chrome :: chrome_colors

definition pane_area_rows :: "layers \<Rightarrow> nat \<Rightarrow> nat" where
  "pane_area_rows ly host_rows = (if ly_status ly \<noteq> None then max (host_rows - 1) 1 else host_rows)"

definition pane_row_offset :: "layers \<Rightarrow> nat" where
  "pane_row_offset ly = (if ly_status ly \<noteq> None \<and> ly_placement ly = StatusTop then 1 else 0)"

definition status_row :: "layers \<Rightarrow> nat \<Rightarrow> nat" where
  "status_row ly host_rows = (if ly_status ly \<noteq> None \<and> ly_placement ly = StatusBottom then host_rows - 1 else 0)"

text \<open>The panes with selections, searches and filters.\<close>

definition compose_panes ::
    "unicode \<Rightarrow> pane_view list \<Rightarrow> nat \<Rightarrow> nat \<Rightarrow> nat \<Rightarrow> layers \<Rightarrow> virtual_screen \<Rightarrow> virtual_screen option" where
  "compose_panes u panes offset area_rows host_cols ly s =
     (let s = foldl (\<lambda>s v. copy_pane offset area_rows host_cols (ctx_of panes v) v s) s panes
      in Option.bind (paint_selection panes offset area_rows host_cols (ly_selection ly) s) (\<lambda>s.
        (let s = foldl (paint_copy_selection offset host_cols) s panes;
             s = foldl (paint_search offset host_cols) s panes
         in Some (foldl (paint_block_filter u panes offset host_cols) s panes))))"

text \<open>The borders, what is written over the panes, the images and the status bar.\<close>

definition compose_decor ::
    "unicode \<Rightarrow> pane_view list \<Rightarrow> nat \<Rightarrow> nat \<Rightarrow> nat \<Rightarrow> nat \<Rightarrow> layers \<Rightarrow> virtual_screen \<Rightarrow> virtual_screen" where
  "compose_decor u panes offset area_rows host_rows host_cols ly s =
     (let blocks = ly_blocks ly;
          s = draw_borders u (map (pane_frame_of panes offset blocks (ly_select_color ly)) panes)
                (mk_rect (mk_point offset 0) (mk_size area_rows host_cols)) blocks (ch_rings (ly_chrome ly)) s;
          s = foldl (annotate_pane u blocks panes offset area_rows host_cols) s panes;
          s = (if (case blocks of Some bb \<Rightarrow> bb_sticky_header bb | None \<Rightarrow> False)
               then foldl (sticky_header u blocks panes offset area_rows host_cols) s panes else s);
          s = (if ly_overlay ly = None \<and> ly_popup ly = None
               then s\<lparr>vs_placements := visible_placements panes offset area_rows,
                      vs_virtual_placements := visible_virtual_placements panes\<rparr> else s)
      in case ly_status ly of
           Some sl \<Rightarrow> paint_status_row u sl host_cols (status_row ly host_rows) s
         | None \<Rightarrow> s)"

text \<open>The cursor and what lies on top.\<close>

definition compose_top ::
    "unicode \<Rightarrow> pane_view list \<Rightarrow> nat \<Rightarrow> nat \<Rightarrow> nat \<Rightarrow> layers \<Rightarrow> virtual_screen \<Rightarrow> virtual_screen" where
  "compose_top u panes offset area_rows host_cols ly s =
     (let s = place_cursor panes offset area_rows host_cols s;
          s = paint_search_prompt u panes offset host_cols s;
          s = paint_filter_prompt u panes offset host_cols s;
          s = (case (ly_message ly, ly_overlay ly) of
                 (Some m, None) \<Rightarrow> paint_message u m offset area_rows host_cols s | _ \<Rightarrow> s);
          s = (case ly_popup ly of
                 Some p \<Rightarrow> paint_popup u p offset area_rows host_cols (ly_blocks ly) s | None \<Rightarrow> s)
      in case ly_overlay ly of
           Some ov \<Rightarrow>
             paint_overlay u ov offset area_rows host_cols (map_option pw_rect (find pw_is_active panes)) (ly_chrome ly) s
         | None \<Rightarrow> s)"

definition compose :: "unicode \<Rightarrow> pane_view list \<Rightarrow> nat \<times> nat \<Rightarrow> layers \<Rightarrow> virtual_screen option" where
  "compose u panes host_size ly =
     (let host_rows = max (fst host_size) 1; host_cols = max (snd host_size) 1;
          area_rows = pane_area_rows ly host_rows; offset = pane_row_offset ly
      in Option.bind (compose_panes u panes offset area_rows host_cols ly (vs_blank host_rows host_cols)) (\<lambda>s.
           Some (compose_top u panes offset area_rows host_cols ly
             (compose_decor u panes offset area_rows host_rows host_cols ly s))))"

end
