(* ===== verification/Paint_Facts.thy ===== *)
theory Paint_Facts
  imports Compositor
begin

text \<open>
  What the painters touch.  \<open>only_on A s t\<close>: the frame \<open>t\<close> has the size of \<open>s\<close> and differs from it in cells of
  \<open>A\<close> at most.
\<close>

definition only_on :: "(nat \<times> nat) set \<Rightarrow> virtual_screen \<Rightarrow> virtual_screen \<Rightarrow> bool" where
  "only_on A s t \<longleftrightarrow> vs_wf t \<and> vs_rows t = vs_rows s \<and> vs_cols t = vs_cols s
     \<and> (\<forall>r c. (r, c) \<notin> A \<longrightarrow> vs_cell t r c = vs_cell s r c)"

named_theorems paint_rules \<open>what a painter touches\<close>

section \<open>Rules\<close>

lemma only_on_refl [simp, intro]: "vs_wf s \<Longrightarrow> only_on A s s"
  by (simp add: only_on_def)

lemma only_on_wf: "only_on A s t \<Longrightarrow> vs_wf t"
  by (simp add: only_on_def)

lemma only_on_dims: "only_on A s t \<Longrightarrow> vs_rows t = vs_rows s \<and> vs_cols t = vs_cols s"
  by (simp add: only_on_def)

lemma only_on_cell: "only_on A s t \<Longrightarrow> (r, c) \<notin> A \<Longrightarrow> vs_cell t r c = vs_cell s r c"
  by (simp add: only_on_def)

lemma only_on_mono: "only_on A s t \<Longrightarrow> A \<subseteq> B \<Longrightarrow> only_on B s t"
  by (auto simp: only_on_def)

lemma only_on_trans: "only_on A s t \<Longrightarrow> only_on A t v \<Longrightarrow> only_on A s v"
  by (auto simp: only_on_def)

lemma only_on_chain:
  assumes "only_on A s t" "\<And>t. vs_wf t \<Longrightarrow> only_on A t (f t)"
  shows "only_on A s (f t)"
  using assms only_on_trans only_on_wf by blast

lemma only_on_foldl:
  assumes "vs_wf s" "\<And>s x. vs_wf s \<Longrightarrow> x \<in> set xs \<Longrightarrow> only_on A s (f s x)"
  shows "only_on A s (foldl f s xs)"
  using assms
proof (induction xs arbitrary: s)
  case (Cons x xs)
  have one: "only_on A s (f s x)" using Cons.prems by simp
  have "only_on A (f s x) (foldl f (f s x) xs)"
    using Cons.prems(2) by (intro Cons.IH only_on_wf [OF one]) simp
  then show ?case using one only_on_trans by simp
qed simp

text \<open>The cursor and the images are not cells.\<close>

lemma only_on_fields [simp]:
  "only_on A s (t\<lparr>vs_cursor := x\<rparr>) = only_on A s t"
  "only_on A s (t\<lparr>vs_cursor_visible := b\<rparr>) = only_on A s t"
  "only_on A s (t\<lparr>vs_cursor_style := y\<rparr>) = only_on A s t"
  "only_on A s (t\<lparr>vs_placements := ps\<rparr>) = only_on A s t"
  "only_on A s (t\<lparr>vs_virtual_placements := vps\<rparr>) = only_on A s t"
  "only_on A (s\<lparr>vs_cursor_style := y\<rparr>) t = only_on A s t"
  by (simp_all add: only_on_def vs_cell_def vs_wf_def)

lemma vs_wf_fields [simp]:
  "vs_wf (t\<lparr>vs_cursor := x\<rparr>) = vs_wf t" "vs_wf (t\<lparr>vs_cursor_visible := b\<rparr>) = vs_wf t"
  "vs_wf (t\<lparr>vs_cursor_style := y\<rparr>) = vs_wf t" "vs_wf (t\<lparr>vs_placements := ps\<rparr>) = vs_wf t"
  "vs_wf (t\<lparr>vs_virtual_placements := vps\<rparr>) = vs_wf t"
  by (simp_all add: vs_wf_def)

section \<open>Cells and text\<close>

lemma only_on_mut [paint_rules]: "vs_wf s \<Longrightarrow> (r, c) \<in> A \<Longrightarrow> only_on A s (vs_cell_mut r c f s)"
  by (auto simp: only_on_def vs_cell_mut_cell)

lemma only_on_put [paint_rules]: "vs_wf s \<Longrightarrow> (r, c) \<in> A \<Longrightarrow> only_on A s (vs_put r c x s)"
  unfolding vs_put_def by (rule only_on_mut)

lemma only_on_glyph [paint_rules]:
  assumes "vs_wf s" "(r, c) \<in> A" "w = 2 \<Longrightarrow> (r, c + 1) \<in> A"
  shows "only_on A s (put_glyph r c w x s)"
proof (cases "w = 2")
  case True
  have "only_on A s (vs_put r c x s)" by (rule only_on_put [OF assms(1,2)])
  moreover have "only_on A (vs_put r c x s) (vs_put r (c + 1) wide_spacer (vs_put r c x s))"
    using only_on_wf [OF calculation] assms(3) [OF True] by (rule only_on_put)
  ultimately have "only_on A s (vs_put r (c + 1) wide_spacer (vs_put r c x s))" by (rule only_on_trans)
  then show ?thesis using True by (simp add: put_glyph_def)
next
  case False
  then show ?thesis using only_on_put [OF assms(1,2)] by (simp add: put_glyph_def)
qed

text \<open>A stretch of one row.\<close>

definition stretch :: "nat \<Rightarrow> nat \<Rightarrow> nat \<Rightarrow> (nat \<times> nat) set" where
  "stretch r a b = {r} \<times> {a..<b}"

lemma in_stretch [simp]: "(r', c) \<in> stretch r a b \<longleftrightarrow> r' = r \<and> a \<le> c \<and> c < b"
  by (auto simp: stretch_def)

lemma wadd16_exact: "a + b \<le> u16_max \<Longrightarrow> wadd16 a b = a + b"
  by (simp add: wadd16_def as_u16_id)

lemma wadd16_le [simp]: "wadd16 a b \<le> u16_max"
proof -
  have "(a + b) mod (u16_max + 1) < u16_max + 1" by (rule mod_less_divisor) simp
  then show ?thesis unfolding wadd16_def as_u16_def by linarith
qed

text \<open>Painting text stays within its limit, from the column it starts in, in one row.\<close>

lemma put_graphemes_on:
  assumes "vs_wf s"
  shows "only_on (stretch r 0 max_col) s (fst (put_graphemes mk max_col r c gs s))"
  using assms
proof (induction mk max_col r c gs s rule: put_graphemes.induct)
  case (2 mk max_col r c g w gs s)
  show ?case
  proof (cases "c \<ge> max_col \<or> c \<ge> vs_cols s \<or> w = 2 \<and> (c + 1 \<ge> max_col \<or> c + 1 \<ge> vs_cols s)")
    case True
    then show ?thesis using 2(2) by auto
  next
    case False
    have g: "only_on (stretch r 0 max_col) s (put_glyph r c w (mk g) s)"
      using False by (intro only_on_glyph 2(2)) auto
    have "only_on (stretch r 0 max_col) (put_glyph r c w (mk g) s)
        (fst (put_graphemes mk max_col r (wadd16 c w) gs (put_glyph r c w (mk g) s)))"
      using False by (intro 2(1) only_on_wf [OF g]) auto
    then show ?thesis using False only_on_trans [OF g] by auto
  qed
qed simp

lemma put_str_on [paint_rules]:
  "vs_wf s \<Longrightarrow> stretch r 0 max_col \<subseteq> A \<Longrightarrow> only_on A s (fst (put_str u r c t a max_col s))"
  unfolding put_str_def by (rule only_on_mono [OF put_graphemes_on])

lemma put_str_after:
  "only_on A s t \<Longrightarrow> stretch r 0 max_col \<subseteq> A \<Longrightarrow> only_on A s (fst (put_str u r c x a max_col t))"
  by (rule only_on_trans [OF _ put_str_on [OF only_on_wf]])

lemma put_colored_on [paint_rules]:
  "vs_wf s \<Longrightarrow> stretch r 0 max_col \<subseteq> A \<Longrightarrow> only_on A s (fst (put_colored u r c t f b a max_col s))"
  unfolding put_colored_def by (rule only_on_mono [OF put_graphemes_on])

lemma put_char_on [paint_rules]:
  "vs_wf s \<Longrightarrow> {r} \<times> UNIV \<subseteq> A \<Longrightarrow> only_on A s (fst (put_char u r c ch a s))"
  by (auto simp: put_char_def Let_def intro!: only_on_glyph)

section \<open>Rows\<close>

text \<open>The rows of a band; most painters are confined to one.\<close>

definition band_rows :: "nat \<Rightarrow> nat \<Rightarrow> (nat \<times> nat) set" where
  "band_rows a b = {a..<b} \<times> UNIV"

lemma in_band_rows [simp]: "(r, c) \<in> band_rows a b \<longleftrightarrow> a \<le> r \<and> r < b"
  by (auto simp: band_rows_def)

lemma row_in_band: "a \<le> r \<Longrightarrow> r < b \<Longrightarrow> {r} \<times> UNIV \<subseteq> band_rows a b"
  by (auto simp: band_rows_def)

lemma stretch_in_band [intro]: "a \<le> r \<Longrightarrow> r < b \<Longrightarrow> stretch r x y \<subseteq> band_rows a b"
  by (auto simp: band_rows_def stretch_def)

lemma fill_chars_on [paint_rules]:
  "vs_wf s \<Longrightarrow> {r} \<times> UNIV \<subseteq> A \<Longrightarrow> only_on A s (fill_chars u r a b ch style s)"
  unfolding fill_chars_def by (rule only_on_foldl) (auto intro: put_char_on)

lemma fold_mut_on [paint_rules]:
  "vs_wf s \<Longrightarrow> {r} \<times> UNIV \<subseteq> A \<Longrightarrow> only_on A s (foldl (\<lambda>s c. vs_cell_mut r (h c) (g c) s) s cs)"
  by (rule only_on_foldl) (auto intro: only_on_mut)

lemma mark_cols_on [paint_rules]:
  assumes "vs_wf s" "{r} \<times> UNIV \<subseteq> A"
  shows "only_on A s (mark_cols a hc r c0 x y s)"
  unfolding mark_cols_def
proof (rule only_on_foldl [OF assms(1)])
  fix s :: virtual_screen and c
  assume "vs_wf s"
  moreover have "(r, wadd16 c0 c) \<in> A" using assms(2) by blast
  ultimately show "only_on A s (if wadd16 c0 c \<ge> hc then s else vs_cell_mut r (wadd16 c0 c) (dim_cell a) s)"
    by (simp add: only_on_mut)
qed

text \<open>A box: its cells, its title and its footer.\<close>

lemma draw_box_on [paint_rules]:
  assumes "vs_wf s" "lo \<le> row0" "row0 + h \<le> hi" "0 < h" "hi \<le> u16_max"
  shows "only_on (band_rows lo hi) s (draw_box u row0 col0 h w t f ch s)"
proof -
  have rows: "wadd16 row0 r = row0 + r" if "r < h" for r using that assms(3,5) by (intro wadd16_exact) simp
  have last: "wsub16 (wadd16 row0 h) 1 = row0 + h - 1" using assms(3-5) by (simp add: wadd16_exact wsub16_def)
  have cells: "only_on (band_rows lo hi) s (foldl (\<lambda>s (r, c).
      let g = border_glyph r c h w; fg = (if g = 32 then ch_bg ch else ch_border ch)
      in fst (put_colored u (wadd16 row0 r) (wadd16 col0 c) [g] fg (ch_bg ch) 0 (wadd16 col0 w) s)) s (box_cells h w))"
    (is "only_on _ _ ?s1")
    using assms(2,3) by (intro only_on_foldl [OF assms(1)])
      (auto simp: box_cells_def rows Let_def intro!: put_colored_on stretch_in_band)
  have line: "only_on (band_rows lo hi) s (fst (put_colored u r c t f b a m s))"
    if "vs_wf s" "lo \<le> r" "r < hi" for s :: virtual_screen and r c t f b a m
    using that by (intro put_colored_on stretch_in_band)
  have r: "lo \<le> row0" "row0 < hi" "lo \<le> row0 + h - 1" "row0 + h - 1 < hi" using assms(2-4) by simp_all
  note top = only_on_chain [OF cells line [OF _ r(1,2)]]
  show ?thesis
    unfolding draw_box_def Let_def last
    by (rule only_on_chain [OF top [unfolded Let_def] line [OF _ r(3,4)]])
qed

lemma paint_lines_on [paint_rules]:
  assumes "vs_wf s" "lo \<le> row0" "row0 + 1 + length ls \<le> hi" "hi \<le> u16_max"
    and "\<And>r l s. vs_wf s \<Longrightarrow> lo \<le> r \<Longrightarrow> r < hi \<Longrightarrow> only_on (band_rows lo hi) s (fst (put r l s))"
  shows "only_on (band_rows lo hi) s (paint_lines put row0 ls s)"
  unfolding paint_lines_def
proof (rule only_on_foldl [OF assms(1)], clarify)
  fix s :: virtual_screen and i l
  assume wf: "vs_wf s" and "(i, l) \<in> set (enumerate 0 ls)"
  then have i: "i < length ls" by (auto simp: in_set_enumerate_eq)
  then have "i \<le> u16_max" "row0 + 1 \<le> u16_max" "row0 + 1 + i \<le> u16_max" using assms(3,4) by linarith+
  then have "wadd16 (wadd16 row0 1) (as_u16 i) = row0 + 1 + i" by (simp add: wadd16_exact as_u16_id)
  then show "only_on (band_rows lo hi) s (fst (put (wadd16 (wadd16 row0 1) (as_u16 i)) l s))"
    using assms(2,3,5) wf i by simp
qed

lemma paint_selectable_on [paint_rules]:
  assumes "vs_wf s" "lo \<le> r0" "r0 + shown \<le> hi" "hi \<le> u16_max"
  shows "only_on (band_rows lo hi) s (paint_selectable_rows u rows r0 left right vtop shown sel s)"
  unfolding paint_selectable_rows_def
proof (rule only_on_foldl [OF assms(1)])
  fix s :: virtual_screen and i
  assume wf: "vs_wf s" and "i \<in> set [vtop..<min (vtop + shown) (length rows)]"
  then have i: "i - vtop < shown" by auto
  then have r: "wadd16 r0 (as_u16 (i - vtop)) = r0 + (i - vtop)"
    using assms(3,4) by (simp add: wadd16_exact as_u16_id)
  show "only_on (band_rows lo hi) s
      (let r = wadd16 r0 (as_u16 (i - vtop)); a = if i = sel then A_REVERSE else 0;
           s = if i = sel then fill_chars u r left right 32 a s else s
       in fst (put_str u r left (rows ! i) a right s))"
  proof -
    have b: "lo \<le> r0 + (i - vtop)" "r0 + (i - vtop) < hi" using assms(2,3) i by simp_all
    have f: "only_on (band_rows lo hi) s (if i = sel then fill_chars u (r0 + (i - vtop)) left right 32 a s else s)" for a
      using only_on_refl [OF wf] fill_chars_on [OF wf row_in_band [OF b]] by (cases "i = sel") (simp_all split del: if_split)
    show ?thesis unfolding Let_def r by (rule only_on_chain [OF f put_str_on]) (use b in auto)
  qed
qed

end
