(* ===== verification/Compositor_Facts.thy ===== *)
theory Compositor_Facts
  imports Paint_Facts
begin

text \<open>
  Every layer of the compositor stays in the rows of the panes: \<open>band_rows offset (offset + area)\<close>.
\<close>

definition pane_inside :: "nat \<Rightarrow> pane_view \<Rightarrow> bool" where
  "pane_inside area v \<longleftrightarrow>
     1 \<le> rc_row (pw_rect v) \<and> 1 \<le> rc_rows (pw_rect v) \<and> rc_row (pw_rect v) + rc_rows (pw_rect v) \<le> area"

text \<open>A row of a pane, in the frame.\<close>

lemma pane_row_exact:
  assumes "rc_row R + n < area" "offset + area \<le> u16_max"
  shows "wadd16 (wadd16 offset (rc_row R)) n = offset + rc_row R + n" "sadd16 (rc_row R) n = rc_row R + n"
    "wadd16 offset (sadd16 (rc_row R) n) = offset + rc_row R + n"
  using assms by (simp_all add: wadd16_exact sadd16_def)

section \<open>Panes\<close>

lemma copy_pane_on:
  assumes "vs_wf s" "offset + area \<le> u16_max"
  shows "only_on (band_rows offset (offset + area)) s (copy_pane offset area hc ctx v s)"
  unfolding copy_pane_def
proof (rule only_on_foldl [OF assms(1)])
  fix s :: virtual_screen and r
  assume wf: "vs_wf s"
  show "only_on (band_rows offset (offset + area)) s
      (if sadd16 (rc_row (pw_rect v)) r \<ge> area then s
       else copy_row hc (wadd16 offset (sadd16 (rc_row (pw_rect v)) r)) (rc_col (pw_rect v)) (pane_row v ctx r) s)"
  proof (cases "sadd16 (rc_row (pw_rect v)) r \<ge> area")
    case False
    then have "wadd16 offset (sadd16 (rc_row (pw_rect v)) r) = offset + sadd16 (rc_row (pw_rect v)) r"
      using assms(2) by (intro wadd16_exact) simp
    then show ?thesis
      using False wf unfolding copy_row_def
      by (auto intro!: only_on_foldl only_on_put)
  qed (use wf in simp)
qed

lemma paint_selection_on:
  assumes "vs_wf s" "offset + area \<le> u16_max" "paint_selection panes offset area hc sel s = Some t"
  shows "only_on (band_rows offset (offset + area)) s t"
proof -
  have step: "only_on (band_rows offset (offset + area)) s
      (let r = sadd16 a b; c = sadd16 x y
       in if r \<ge> area \<or> c \<ge> hc then s else vs_cell_mut (wadd16 offset r) c f s)"
    if "vs_wf s" for s :: virtual_screen and a b x y f
    using that assms(2) by (auto simp: Let_def wadd16_exact intro!: only_on_mut)
  have "only_on (band_rows offset (offset + area)) s
      (foldl (\<lambda>s p. let r = sadd16 (rc_row (pw_rect v)) (pt_row p); c = sadd16 (rc_col (pw_rect v)) (pt_col p)
          in if r \<ge> area \<or> c \<ge> hc then s else vs_cell_mut (wadd16 offset r) c (dim_cell A_REVERSE) s) s ps)" for v ps
    by (rule only_on_foldl [OF assms(1)]) (rule step)
  then show ?thesis
    using assms(1,3) by (auto simp: paint_selection_def split: option.splits bind_splits)
qed

lemma copy_line_row_in:
  assumes "pane_inside area v" "offset + area \<le> u16_max" "copy_line_row v cm offset line = Some r"
  shows "offset \<le> r \<and> r < offset + area"
proof -
  define d where "d = line - cm_viewport_top cm"
  have "line < wadd32 (cm_viewport_top cm) (rc_rows (pw_rect v))" "cm_viewport_top cm \<le> line"
    and r: "r = wadd16 (wadd16 offset (rc_row (pw_rect v))) (as_u16 d)"
    using assms(3) by (simp_all add: copy_line_row_def d_def split: if_splits)
  then have "line < cm_viewport_top cm + rc_rows (pw_rect v)"
    unfolding wadd32_def by (meson less_le_trans mod_less_eq_dividend)
  then have d: "rc_row (pw_rect v) + d < area" "d \<le> u16_max"
    using assms(1,2) \<open>cm_viewport_top cm \<le> line\<close> by (auto simp: pane_inside_def d_def)
  then show ?thesis using pane_row_exact(1) [OF d(1) assms(2)] by (simp add: r as_u16_id)
qed

lemma copy_layers_on:
  assumes "vs_wf s" "pane_inside area v" "offset + area \<le> u16_max"
  shows "only_on (band_rows offset (offset + area)) s (paint_copy_selection offset hc s v)"
    and "only_on (band_rows offset (offset + area)) s (paint_search offset hc s v)"
proof -
  note row = copy_line_row_in [OF assms(2,3)]
  have mark: "only_on (band_rows offset (offset + area)) s
      (case copy_line_row v cm offset line of None \<Rightarrow> s | Some r \<Rightarrow> mark_cols a hc r c0 x y s)"
    if "vs_wf s" for s :: virtual_screen and cm line a c0 x y
    using that by (auto split: option.split dest!: row intro!: mark_cols_on row_in_band)
  show "only_on (band_rows offset (offset + area)) s (paint_copy_selection offset hc s v)"
  proof (cases "Option.bind (pw_copy_mode v) (\<lambda>cm. map_option (\<lambda>a. (cm, a)) (cm_anchor cm))")
    case (Some x)
    obtain cm a where x: "x = (cm, a)" by (cases x)
    show ?thesis
      unfolding paint_copy_selection_def Some x option.case prod.case Let_def
      by (cases "pos_le a (cm_cursor cm)") (simp_all only: if_True if_False prod.case, (rule only_on_foldl [OF assms(1) mark], assumption)+)
  qed (simp add: paint_copy_selection_def assms(1))
  show "only_on (band_rows offset (offset + area)) s (paint_search offset hc s v)"
    unfolding paint_search_def
    by (auto split: option.split intro!: only_on_foldl mark simp: assms(1))
qed

lemma block_filter_on:
  assumes "vs_wf s" "pane_inside area v" "offset + area \<le> u16_max"
  shows "only_on (band_rows offset (offset + area)) s (paint_block_filter u panes offset hc s v)"
proof -
  have row: "{wadd16 (wadd16 offset (rc_row (pw_rect v))) r} \<times> UNIV \<subseteq> band_rows offset (offset + area)"
    if "r \<in> set [0..<rc_rows (pw_rect v)]" for r
  proof -
    have r: "rc_row (pw_rect v) + r < area" using that assms(2) by (auto simp: pane_inside_def)
    show ?thesis unfolding pane_row_exact(1) [OF r assms(3)] by (rule row_in_band) (use r in simp_all)
  qed
  have dim: "only_on (band_rows offset (offset + area)) s
      (case ctx_line_at ctx r of None \<Rightarrow> s
       | Some line \<Rightarrow> if P line then s
           else foldl (\<lambda>s c. vs_cell_mut (wadd16 (wadd16 offset (rc_row (pw_rect v))) r) (h c) g s) s cs)"
    if "vs_wf s" "r \<in> set [0..<rc_rows (pw_rect v)]" for s :: virtual_screen and ctx r P h g cs
    using that by (auto split: option.split intro!: fold_mut_on row)
  have mark: "only_on (band_rows offset (offset + area)) s
      (case ctx_line_at ctx r of None \<Rightarrow> s
       | Some line \<Rightarrow> foldl (\<lambda>s (_, a, b). mark_cols x hc (wadd16 (wadd16 offset (rc_row (pw_rect v))) r) c0 a (m b) s) s (ys line))"
    if "vs_wf s" "r \<in> set [0..<rc_rows (pw_rect v)]" for s :: virtual_screen and ctx r x c0 m ys
    using that by (auto split: option.split intro!: only_on_foldl mark_cols_on row)
  show ?thesis
  proof (cases "Option.bind (pw_block_mode v) bm_filter")
    case (Some f)
    show ?thesis
    proof (cases "bf_query f = [] \<or> alt (pw_screen v) \<noteq> None")
      case False
      show ?thesis
        unfolding paint_block_filter_def Some option.case Let_def if_not_P [OF False]
        by (rule only_on_chain, rule only_on_foldl [OF assms(1)], rule dim, assumption+,
            rule only_on_foldl, assumption, rule mark, assumption+)
    qed (simp add: paint_block_filter_def Some assms(1))
  qed (simp add: paint_block_filter_def assms(1))
qed

lemma foldl_panes_on:
  assumes "vs_wf s" "list_all (pane_inside area) panes"
    "\<And>s v. vs_wf s \<Longrightarrow> pane_inside area v \<Longrightarrow> v \<in> set panes \<Longrightarrow> only_on A s (f s v)"
  shows "only_on A s (foldl f s panes)"
  using assms by (intro only_on_foldl) (auto simp: list_all_iff)

lemma compose_panes_on:
  assumes "vs_wf s" "list_all (pane_inside area) panes" "offset + area \<le> u16_max"
    and "compose_panes u panes offset area hc ly s = Some t"
  shows "only_on (band_rows offset (offset + area)) s t"
proof -
  let ?A = "band_rows offset (offset + area)"
  let ?s1 = "foldl (\<lambda>s v. copy_pane offset area hc (ctx_of panes v) v s) s panes"
  obtain s2 where s2: "paint_selection panes offset area hc (ly_selection ly) ?s1 = Some s2"
    and t: "t = foldl (paint_block_filter u panes offset hc) (foldl (paint_search offset hc)
        (foldl (paint_copy_selection offset hc) s2 panes) panes) panes"
    using assms(4) by (auto simp: compose_panes_def Let_def split: bind_splits)
  have 1: "only_on ?A s ?s1" by (rule foldl_panes_on [OF assms(1,2)]) (rule copy_pane_on [OF _ assms(3)])
  have 2: "only_on ?A s s2" using 1 paint_selection_on [OF only_on_wf [OF 1] assms(3) s2] by (rule only_on_trans)
  note fold = foldl_panes_on [OF _ assms(2)]
  have 3: "only_on ?A s (foldl (paint_copy_selection offset hc) s2 panes)"
    by (rule only_on_chain [OF 2 fold]) (auto intro: copy_layers_on(1) [OF _ _ assms(3)])
  have 4: "only_on ?A s (foldl (paint_search offset hc) (foldl (paint_copy_selection offset hc) s2 panes) panes)"
    by (rule only_on_chain [OF 3 fold]) (auto intro: copy_layers_on(2) [OF _ _ assms(3)])
  show ?thesis unfolding t
    by (rule only_on_chain [OF 4 fold]) (auto intro: block_filter_on [OF _ _ assms(3)])
qed

section \<open>Borders and annotations\<close>

lemma paint_title_on:
  "vs_wf s \<Longrightarrow> {r} \<times> UNIV \<subseteq> A \<Longrightarrow> only_on A s (paint_title_loop mk m r c gs s)"
proof (induction mk m r c gs s rule: paint_title_loop.induct)
  case (2 mk m r c g w gs s)
  have rA: "(r, x) \<in> A" for x using 2(3) by blast
  have gl: "only_on A s (put_glyph r c w (mk g) s)" by (rule only_on_glyph [OF 2(2) rA rA])
  show ?case using 2 gl only_on_trans [OF gl] only_on_wf [OF gl] by auto
qed simp

lemma frame_rects: "map pf_rect (map (pane_frame_of panes offset blocks sc) panes) =
    map (\<lambda>v. (pw_rect v)\<lparr>rc_row := sadd16 (rc_row (pw_rect v)) offset\<rparr>) panes"
  by (simp add: pane_frame_of_def Let_def mk_rect_def mk_point_def mk_size_def)

lemma draw_borders_on:
  assumes "vs_wf s" "list_all (pane_inside area) panes" "offset + area \<le> u16_max" "0 < area"
  shows "only_on (band_rows offset (offset + area)) s
    (draw_borders u (map (pane_frame_of panes offset blocks sc) panes) (mk_rect (mk_point offset 0) (mk_size area hc)) b2 rings s)"
proof -
  let ?fs = "map (pane_frame_of panes offset blocks sc) panes" and ?band = "mk_rect (mk_point offset 0) (mk_size area hc)"
  have edge: "bottom_edge_row ?band = offset + area - 1" "rc_row ?band = offset"
    using assms(3) by (simp_all add: bottom_edge_row_def mk_rect_def mk_point_def mk_size_def sadd16_def)
  have cells: "only_on (band_rows offset (offset + area)) s (draw_border_cells ?fs ?band b2 rings s)"
    unfolding draw_border_cells_def
  proof (rule only_on_foldl [OF assms(1)], clarify)
    fix s :: virtual_screen and r c
    assume wf: "vs_wf s" and "(r, c) \<in> set (band_cells ?band)"
    then have "offset \<le> r" "r < offset + area" using assms(4) by (auto simp: band_cells_def edge)
    then have "(r, c) \<in> band_rows offset (offset + area)" by simp
    then show "only_on (band_rows offset (offset + area)) s
        (if is_border r c ?band (map pf_rect ?fs) then vs_put r c (border_cell ?fs ?band b2 rings r c) s else s)"
      using wf only_on_put by simp
  qed
  have title: "only_on (band_rows offset (offset + area)) s (draw_title u ?fs rings s f)"
    if wf: "vs_wf s" and f: "f \<in> set ?fs" for s :: virtual_screen and f
  proof -
    obtain v where v: "v \<in> set panes" "pf_rect f = (pw_rect v)\<lparr>rc_row := sadd16 (rc_row (pw_rect v)) offset\<rparr>"
      using f by (auto simp: pane_frame_of_def Let_def mk_rect_def mk_point_def mk_size_def)
    then have p: "pane_inside area v" using assms(2) by (simp add: list_all_iff)
    then have "rc_row (pf_rect f) = rc_row (pw_rect v) + offset" using assms(3) by (simp add: v(2) pane_inside_def sadd16_def)
    then have "offset \<le> rc_row (pf_rect f) - 1" "rc_row (pf_rect f) - 1 < offset + area"
      using p unfolding pane_inside_def by linarith+
    then show ?thesis
      using wf by (auto simp: draw_title_def paint_title_def split: option.split intro!: paint_title_on row_in_band)
  qed
  show ?thesis unfolding draw_borders_def by (rule only_on_chain [OF cells only_on_foldl]) (auto intro: title)
qed

lemma annotate_on:
  assumes "vs_wf s" "pane_inside area v" "offset + area \<le> u16_max"
  shows "only_on (band_rows offset (offset + area)) s (annotate_pane u blocks panes offset area hc s v)"
proof -
  have "only_on (band_rows offset (offset + area)) s (annotate_row u blocks panes offset area hc v s r)"
    if wf: "vs_wf s" and "r < rc_rows (pw_rect v)" for s :: virtual_screen and r
  proof -
    have r: "rc_row (pw_rect v) + r < area" using that(2) assms(2) by (simp add: pane_inside_def)
    have b: "offset \<le> offset + rc_row (pw_rect v) + r" "offset + rc_row (pw_rect v) + r < offset + area" using r by simp_all
    have note_on: "only_on (band_rows offset (offset + area)) s (fst (put_str u (offset + rc_row (pw_rect v) + r) x t a m s))" for x t a m
      by (rule put_str_on [OF wf stretch_in_band [OF b]])
    have "only_on (band_rows offset (offset + area)) s
        (foldl (\<lambda>s c. vs_cell_mut (offset + rc_row (pw_rect v) + r) c g s) (fst (put_str u (offset + rc_row (pw_rect v) + r) x t a m s)) cs)"
      for x t a m cs g
      by (rule only_on_chain [OF note_on fold_mut_on [OF _ row_in_band [OF b]]])
    then show ?thesis
      using wf note_on unfolding annotate_row_def Let_def pane_row_exact(1) [OF r assms(3)]
      by (auto split: option.split block_line_status.split)
  qed
  then show ?thesis using assms(1) by (auto simp: annotate_pane_def intro!: only_on_foldl)
qed

lemma sticky_on:
  assumes "vs_wf s" "pane_inside area v" "offset + area \<le> u16_max"
  shows "only_on (band_rows offset (offset + area)) s (sticky_header u blocks panes offset area hc s v)"
proof -
  have r: "rc_row (pw_rect v) + 0 < area" using assms(2) by (simp add: pane_inside_def)
  have row: "wadd16 offset (rc_row (pw_rect v)) = offset + rc_row (pw_rect v)" using r assms(3) by (simp add: wadd16_exact)
  have b: "offset \<le> offset + rc_row (pw_rect v)" "offset + rc_row (pw_rect v) < offset + area" using r by simp_all
  have str: "only_on (band_rows offset (offset + area)) s (fst (put_str u (offset + rc_row (pw_rect v)) x t a m s))"
    if "vs_wf s" for s :: virtual_screen and x t a m
    by (rule put_str_on [OF that stretch_in_band [OF b]])
  have clear: "only_on (band_rows offset (offset + area)) s (foldl (\<lambda>s c. vs_cell_mut (offset + rc_row (pw_rect v)) c g s) s cs)" for g cs
    by (rule fold_mut_on [OF assms(1) row_in_band [OF b]])
  note one = only_on_chain [OF clear str]
  note two = only_on_chain [OF one str]
  show ?thesis
    using assms(1) unfolding sticky_header_def Let_def row case_prod_beta
    by (auto split: option.split intro: one two)
qed

section \<open>On top\<close>

lemma prompt_row_in:
  assumes "pane_inside area v" "offset + area \<le> u16_max"
  shows "offset \<le> prompt_row offset v \<and> prompt_row offset v < offset + area"
proof -
  have r: "rc_row (pw_rect v) + (rc_rows (pw_rect v) - 1) < area" using assms(1) by (auto simp: pane_inside_def)
  show ?thesis unfolding prompt_row_def pane_row_exact(1) [OF r assms(2)] using r by simp
qed

lemma prompts_on:
  assumes "vs_wf s" "list_all (pane_inside area) panes" "offset + area \<le> u16_max"
  shows "only_on (band_rows offset (offset + area)) s (paint_search_prompt u panes offset hc s)"
    and "only_on (band_rows offset (offset + area)) s (paint_filter_prompt u panes offset hc s)"
proof -
  have str: "only_on (band_rows offset (offset + area)) s (fst (put_str u (prompt_row offset v) x t a m s))"
    if "find pw_is_active panes = Some v" for v x t a m
  proof -
    have "v \<in> set panes" using that by (auto simp: find_Some_iff)
    then have "pane_inside area v" using assms(2) by (simp add: list_all_iff)
    from prompt_row_in [OF this assms(3)] show ?thesis by (intro put_str_on [OF assms(1)] stretch_in_band) simp_all
  qed
  show "only_on (band_rows offset (offset + area)) s (paint_search_prompt u panes offset hc s)"
    using assms(1) str by (auto simp: paint_search_prompt_def split: option.split bind_splits)
  show "only_on (band_rows offset (offset + area)) s (paint_filter_prompt u panes offset hc s)"
    using assms(1) str by (auto simp: paint_filter_prompt_def split: option.split bind_splits)
qed

lemma bar_row: "0 < area \<Longrightarrow> offset + area \<le> u16_max \<Longrightarrow> wadd16 offset (area - 1) = offset + area - 1"
  by (simp add: wadd16_exact)

lemma message_on:
  assumes "vs_wf s" "0 < area" "offset + area \<le> u16_max"
  shows "only_on (band_rows offset (offset + area)) s (paint_message u msg offset area hc s)"
proof -
  have b: "offset \<le> offset + area - 1" "offset + area - 1 < offset + area" using assms(2) by simp_all
  have put: "only_on (band_rows offset (offset + area)) s (fst (put_colored u (offset + area - 1) x t f g a m s))"
    if "vs_wf s" for s :: virtual_screen and x t f g a m
    by (rule put_colored_on [OF that stretch_in_band [OF b]])
  note one = only_on_chain [OF put [OF assms(1)] put]
  note two = only_on_chain [OF one put]
  show ?thesis unfolding paint_message_def Let_def bar_row [OF assms(2,3)] case_prod_beta by (rule two)
qed

lemma paint_bar_on:
  assumes "vs_wf s" "0 < area" "offset + area \<le> u16_max"
  shows "only_on (band_rows offset (offset + area)) s (paint_bar u t offset area hc s)"
proof -
  have b: "offset \<le> offset + area - 1" "offset + area - 1 < offset + area" using assms(2) by simp_all
  note fill = fill_chars_on [OF assms(1) row_in_band [OF b]]
  note two = only_on_chain [OF fill put_str_on [OF _ stretch_in_band [OF b]]]
  note three = only_on_chain [OF two put_char_on [OF _ row_in_band [OF b]]]
  show ?thesis unfolding paint_bar_def Let_def bar_row [OF assms(2,3)] case_prod_beta only_on_fields
    by (cases "snd (put_str u (offset + area - 1) 0 t A_REVERSE hc (fill_chars u (offset + area - 1) 0 hc 32 A_REVERSE s)) < hc")
      (simp_all only: if_True if_False, (rule three two, assumption+)+)
qed

section \<open>Boxes\<close>

lemma box_rows:
  assumes "box_origin offset area cols h w = (row0, col0)" "box_fits m area cols h w" "offset + area \<le> u16_max"
  shows "offset \<le> row0" "row0 + h \<le> offset + area" "m \<le> h"
proof -
  have "h \<le> area" using assms(2) by (simp add: box_fits_def)
  then have "(area - h) div 2 + h \<le> area" by linarith
  moreover have "row0 = offset + (area - h) div 2"
    using assms(1,3) calculation by (auto simp: box_origin_def wadd16_exact)
  ultimately show "offset \<le> row0" "row0 + h \<le> offset + area" by linarith+
  show "m \<le> h" using assms(2) by (simp add: box_fits_def)
qed

lemma box_height:
  assumes "shown \<le> max (area - k) 1" "area \<le> u16_max" "1 \<le> k" "k \<le> 3"
  shows "wadd16 (as_u16 shown) k = shown + k"
proof -
  have "shown + k \<le> u16_max" using assms by (auto simp: u16_max_def max_def split: if_splits)
  then show ?thesis by (simp add: wadd16_exact as_u16_id)
qed

lemma box_lines_on:
  assumes o: "box_origin offset area cols h w = (row0, col0)" and f: "box_fits 4 area cols h w"
    and fit: "offset + area \<le> u16_max" and wf: "vs_wf s" and ls: "length ls + 2 \<le> h"
    and put: "\<And>r l s. vs_wf s \<Longrightarrow> offset \<le> r \<Longrightarrow> r < offset + area \<Longrightarrow> only_on (band_rows offset (offset + area)) s (fst (put r l s))"
  shows "only_on (band_rows offset (offset + area)) s (paint_lines put row0 ls (draw_box u row0 col0 h w t ft ch s))"
proof -
  note b = box_rows [OF o f fit]
  have box: "only_on (band_rows offset (offset + area)) s (draw_box u row0 col0 h w t ft ch s)"
    using b by (intro draw_box_on wf fit) simp_all
  show ?thesis
    by (rule only_on_chain [OF box paint_lines_on [OF _ b(1) _ fit put]]) (use b ls in simp_all)
qed

lemma help_on:
  assumes "vs_wf s" "offset + area \<le> u16_max"
  shows "only_on (band_rows offset (offset + area)) s (paint_help_box u lines scroll offset area cols ch s)"
proof -
  define shown where "shown = min (length lines) (max (area - 3) 1)"
  have h: "wadd16 (as_u16 shown) 3 = shown + 3" by (rule box_height [of _ area]) (use assms(2) in \<open>auto simp: shown_def\<close>)
  have put: "only_on (band_rows offset (offset + area)) s (fst (put_str u r x l a m s))"
    if "vs_wf s" "offset \<le> r" "r < offset + area" for s :: virtual_screen and r x l a m
    using that by (intro put_str_on stretch_in_band)
  have "only_on (band_rows offset (offset + area)) s
      (paint_lines (\<lambda>r l. put_str u r (wadd16 col0 1) l 0 (wsub16 (wadd16 col0 w) 1)) row0
        (map g (take shown (drop k lines))) (draw_box u row0 col0 (shown + 3) w t f ch s))"
    if "box_origin offset area cols (shown + 3) w = (row0, col0)" "box_fits 4 area cols (shown + 3) w" for row0 col0 w t f g k
    by (rule box_lines_on [OF that assms(2,1)]) (auto intro: put)
  then show ?thesis
    using assms(1) unfolding paint_help_box_def Let_def shown_def [symmetric] h by (auto split: prod.split)
qed

lemma welcome_on:
  assumes "vs_wf s" "offset + area \<le> u16_max" "length lines + 3 \<le> u16_max"
  shows "only_on (band_rows offset (offset + area)) s (paint_welcome u lines offset area cols ch s)"
proof -
  have h: "wadd16 (as_u16 (length lines)) 3 = length lines + 3" using assms(3) by (simp add: wadd16_exact as_u16_id)
  have put: "only_on (band_rows offset (offset + area)) s (fst (put_colored u r x l f b a m s))"
    if "vs_wf s" "offset \<le> r" "r < offset + area" for s :: virtual_screen and r x l f b a m
    using that by (intro put_colored_on stretch_in_band)
  have "only_on (band_rows offset (offset + area)) s
      (paint_lines (\<lambda>r l. put_colored u r (wadd16 col0 1) l DefaultColor (ch_bg ch) 0 (wsub16 (wadd16 col0 w) 1)) row0 lines
        (draw_box u row0 col0 (length lines + 3) w t f ch s))"
    if "box_origin offset area cols (length lines + 3) w = (row0, col0)" "box_fits 4 area cols (length lines + 3) w" for row0 col0 w t f
    by (rule box_lines_on [OF that assms(2,1)]) (auto intro: put)
  then show ?thesis
    using assms(1) unfolding paint_welcome_def Let_def h by (auto split: prod.split)
qed

lemma finder_box_on:
  assumes "vs_wf s" "offset + area \<le> u16_max"
  shows "only_on (band_rows offset (offset + area)) s
    (paint_finder_box u t ft em items flt n sel offset area cols ch s)"
proof -
  let ?A = "band_rows offset (offset + area)"
  define shown where "shown = min (max (length items) 1) (max (area - 3) 1)"
  have shown: "1 \<le> shown" by (simp add: shown_def)
  have h: "wadd16 (as_u16 shown) 3 = shown + 3" by (rule box_height [of _ area]) (use assms(2) in \<open>auto simp: shown_def\<close>)
  have main: "only_on ?A s
      (let s = draw_box u row0 col0 (shown + 3) w t ft ch s;
           s = fst (put_str u (wadd16 row0 1) left fl 0 right s);
           s = (if P then fst (put_str u (wadd16 row0 1) cc count 0 right s) else s)
       in if items = [] then fst (put_str u (wadd16 row0 2) left em 0 right s)
          else paint_selectable_rows u items (wadd16 row0 2) left right vtop shown sel s)"
    if o: "box_origin offset area cols (shown + 3) w = (row0, col0)" "box_fits 4 area cols (shown + 3) w"
    for row0 col0 w fl left right P cc count vtop
  proof -
    note b = box_rows [OF o assms(2)]
    have rows: "wadd16 row0 1 = row0 + 1" "wadd16 row0 2 = row0 + 2" using b assms(2) by (simp_all add: wadd16_exact)
    have in1: "offset \<le> row0 + 1" "row0 + 1 < offset + area" and in2: "offset \<le> row0 + 2" "row0 + 2 < offset + area"
      using b shown by simp_all
    have box: "only_on ?A s (draw_box u row0 col0 (shown + 3) w t ft ch s)"
      using b by (intro draw_box_on assms) simp_all
    note a1 = only_on_chain [OF box put_str_on [OF _ stretch_in_band [OF in1]]]
    define s1 where "s1 = fst (put_str u (row0 + 1) left fl 0 right (draw_box u row0 col0 (shown + 3) w t ft ch s))"
    have s1: "only_on ?A s s1" unfolding s1_def by (rule a1)
    define s2 where "s2 = (if P then fst (put_str u (row0 + 1) cc count 0 right s1) else s1)"
    have s2: "only_on ?A s s2"
      using s1 put_str_after [OF s1 stretch_in_band [OF in1]] by (simp add: s2_def)
    note str = put_str_after [OF s2 stretch_in_band [OF in2]]
    have list: "only_on ?A s (paint_selectable_rows u items (row0 + 2) left right vtop shown sel s2)"
      by (rule only_on_chain [OF s2 paint_selectable_on [OF _ in2(1) _ assms(2)]]) (use b in simp_all)
    show ?thesis unfolding Let_def rows s1_def [symmetric] s2_def [symmetric] using str list by simp
  qed
  define w where "w = box_width cols (map (dwidth u) items @ [dwidth u (lit ''filter: '' @ flt), dwidth u t, dwidth u ft,
      if items = [] then dwidth u em else 0])"
  obtain row0 col0 where o: "box_origin offset area cols (shown + 3) w = (row0, col0)" by fastforce
  show ?thesis
  proof (cases "box_fits 4 area cols (shown + 3) w")
    case True
    show ?thesis
      unfolding paint_finder_box_def Let_def shown_def [symmetric] h w_def [symmetric] o prod.case
      by (simp only: True not_True_eq_False if_False) (rule main [unfolded Let_def, OF o True])
  next
    case False
    show ?thesis
      unfolding paint_finder_box_def Let_def shown_def [symmetric] h w_def [symmetric] o prod.case
      by (simp only: False not_False_eq_True if_True only_on_refl [OF assms(1)])
  qed
qed

lemma list_box_on:
  assumes "vs_wf s" "offset + area \<le> u16_max"
  shows "only_on (band_rows offset (offset + area)) s (paint_list_box u t ft em items sel offset area cols ch s)"
proof -
  let ?A = "band_rows offset (offset + area)"
  define shown where "shown = min (max (length items) 1) (max (area - 2) 1)"
  have shown: "1 \<le> shown" by (simp add: shown_def)
  have h: "wadd16 (as_u16 shown) 2 = shown + 2" by (rule box_height [of _ area]) (use assms(2) in \<open>auto simp: shown_def\<close>)
  have main: "only_on ?A s
      (let s = draw_box u row0 col0 (shown + 2) w t ft ch s
       in if items = [] then (case em of Some m \<Rightarrow> fst (put_str u (wadd16 row0 1) left m 0 right s) | None \<Rightarrow> s)
          else paint_selectable_rows u items (wadd16 row0 1) left right vtop shown sel s)"
    if o: "box_origin offset area cols (shown + 2) w = (row0, col0)" "box_fits 3 area cols (shown + 2) w"
    for row0 col0 w left right vtop
  proof -
    note b = box_rows [OF o assms(2)]
    have rows: "wadd16 row0 1 = row0 + 1" using b assms(2) by (simp add: wadd16_exact)
    have in1: "offset \<le> row0 + 1" "row0 + 1 < offset + area" using b shown by simp_all
    have box: "only_on ?A s (draw_box u row0 col0 (shown + 2) w t ft ch s)"
      using b by (intro draw_box_on assms) simp_all
    note str = put_str_after [OF box stretch_in_band [OF in1]]
    have list: "only_on ?A s (paint_selectable_rows u items (row0 + 1) left right vtop shown sel
        (draw_box u row0 col0 (shown + 2) w t ft ch s))"
      by (rule only_on_chain [OF box paint_selectable_on [OF _ in1(1) _ assms(2)]]) (use b in simp_all)
    show ?thesis unfolding Let_def rows using box str list by (auto split: option.split)
  qed
  define w where "w = box_width cols (map (dwidth u) items @ [dwidth u t, dwidth u ft]
      @ (case em of Some m \<Rightarrow> if items = [] then [dwidth u m] else [] | None \<Rightarrow> []))"
  obtain row0 col0 where o: "box_origin offset area cols (shown + 2) w = (row0, col0)" by fastforce
  show ?thesis
  proof (cases "box_fits 3 area cols (shown + 2) w")
    case True
    show ?thesis
      unfolding paint_list_box_def Let_def shown_def [symmetric] h w_def [symmetric] o prod.case
      by (simp only: True not_True_eq_False if_False) (rule main [unfolded Let_def, OF o True])
  next
    case False
    show ?thesis
      unfolding paint_list_box_def Let_def shown_def [symmetric] h w_def [symmetric] o prod.case
      by (simp only: False not_False_eq_True if_True only_on_refl [OF assms(1)])
  qed
qed

section \<open>Hints and the popup\<close>

lemma hint_on:
  assumes "vs_wf s" "offset + area \<le> u16_max" "rc_row R + rc_rows R \<le> area"
  shows "only_on (band_rows offset (offset + area)) s (paint_hint u st hc offset R cols s)"
proof -
  let ?A = "band_rows offset (offset + area)"
  have row: "wadd16 (wadd16 offset (rc_row R)) r = offset + rc_row R + r" "offset + rc_row R + r < offset + area"
    if "r < rc_rows R" for r
    using pane_row_exact(1) [of R r area offset] that assms(2,3) by simp_all
  have dim: "only_on ?A s (foldl (\<lambda>s (r, c).
      if wadd16 (rc_col R) c \<ge> cols then s
      else vs_cell_mut (wadd16 (wadd16 offset (rc_row R)) r) (wadd16 (rc_col R) c) (dim_cell A_DIM) s) s
      (box_cells (rc_rows R) (rc_cols R)))"
    by (rule only_on_foldl [OF assms(1)]) (auto simp: box_cells_def row intro!: only_on_mut)
  have label: "only_on ?A s
      (let p = ht_start target
       in if pt_row p \<ge> rc_rows R \<or> pt_col p \<ge> rc_cols R then s
          else (let r = wadd16 (wadd16 offset (rc_row R)) (pt_row p);
                    (s, after) = put_colored u r (wadd16 (rc_col R) (pt_col p)) t1 f1 DefaultColor A_DIM clip s
                in fst (put_colored u r after t2 f2 b2 A_BOLD clip s)))"
    if wf: "vs_wf s" for s :: virtual_screen and target t1 f1 clip t2 f2 b2
  proof (cases "pt_row (ht_start target) \<ge> rc_rows R \<or> pt_col (ht_start target) \<ge> rc_cols R")
    case False
    then have r: "pt_row (ht_start target) < rc_rows R" by simp
    have b: "offset \<le> offset + rc_row R + pt_row (ht_start target)" by simp
    have "only_on ?A s (fst (put_colored u (offset + rc_row R + pt_row (ht_start target)) c t2 f2 b2 A_BOLD clip
        (fst (put_colored u (offset + rc_row R + pt_row (ht_start target)) x t1 f1 DefaultColor A_DIM clip s))))" for c x
      by (rule only_on_chain [OF put_colored_on [OF wf stretch_in_band [OF b row(2) [OF r]]]
            put_colored_on [OF _ stretch_in_band [OF b row(2) [OF r]]]])
    then show ?thesis using False by (simp add: Let_def row(1) [OF r] case_prod_beta)
  qed (use wf in simp)
  show ?thesis unfolding paint_hint_def
    by (subst (1 2) Let_def, subst Let_def, rule only_on_chain [OF dim], rule only_on_foldl, assumption, clarify, rule label)
qed

lemma fill_status_length [simp]: "length (fill_status a b st xs) = length xs"
  by (simp add: fill_status_def)

lemma viewport_loop_step:
  "\<exists>r'. length r' = length result \<and> viewport_loop s vtop n p result =
     (case next_prompt_line s p of None \<Rightarrow> r' | Some np \<Rightarrow> if np \<ge> sadd32 vtop n then r' else viewport_loop s vtop n np r')"
  unfolding viewport_loop.simps [of s vtop n p result] Let_def
  apply (rule exI, rule conjI)
   prefer 2
   apply (rule refl)
  apply simp
  done

lemma viewport_loop_length: "length (viewport_loop s vtop n p result) = length result"
proof (induction "total_lines s - p" arbitrary: p result rule: less_induct)
  case less
  obtain r' where r': "length r' = length result" "viewport_loop s vtop n p result =
     (case next_prompt_line s p of None \<Rightarrow> r' | Some np \<Rightarrow> if np \<ge> sadd32 vtop n then r' else viewport_loop s vtop n np r')"
    using viewport_loop_step by blast
  have "length (viewport_loop s vtop n np r') = length result" if "next_prompt_line s p = Some np" for np
    using less [of np r'] next_prompt_line_Some [OF that] r'(1) by (simp add: diff_less_mono2)
  then show ?case unfolding r'(2) using r'(1) by (simp split: option.split)
qed

lemma viewport_block_status_length [simp]: "length (viewport_block_status s vtop n) = n"
  by (simp add: viewport_block_status_def Let_def viewport_loop_length split: option.split)

lemma popup_on:
  assumes "vs_wf s" "offset + area \<le> u16_max" "area < u16_max"
  shows "only_on (band_rows offset (offset + area)) s (paint_popup u p offset area cols blocks s)"
proof (cases "rc_rows (pv_rect p) < 3 \<or> rc_cols (pv_rect p) < 3 \<or> sadd16 (rc_row (pv_rect p)) (rc_rows (pv_rect p)) > area
      \<or> sadd16 (rc_col (pv_rect p)) (rc_cols (pv_rect p)) > cols")
  case True
  then have "paint_popup u p offset area cols blocks s = s\<lparr>vs_cursor_style := None\<rparr>"
    by (auto simp: paint_popup_def Let_def)
  then show ?thesis using assms(1) by simp
next
  case False
  let ?A = "band_rows offset (offset + area)" and ?R = "pv_rect p"
  have R: "3 \<le> rc_rows ?R" "rc_row ?R + rc_rows ?R \<le> area"
    using False assms(3) by (auto simp: sadd16_def min_def split: if_splits)
  have row: "wadd16 (wadd16 offset (rc_row ?R)) r = offset + rc_row ?R + r" "offset + rc_row ?R + r < offset + area"
    if "r < rc_rows ?R" for r
    using pane_row_exact(1) [of ?R r area offset] that assms(2) R(2) by simp_all
  have row1: "wadd16 (wadd16 (wadd16 offset (rc_row ?R)) 1) r = offset + rc_row ?R + 1 + r" "offset + rc_row ?R + 1 + r < offset + area"
    if "r < rc_rows ?R - 2" for r
    using row(1) [of 1] that assms(2) R by (simp_all add: wadd16_exact)
  have r0: "wadd16 offset (rc_row ?R) = offset + rc_row ?R" using R assms(2) by (intro wadd16_exact) simp
  have frame: "only_on ?A s (foldl (\<lambda>s (r, c). fst (put_char u (wadd16 (wadd16 offset (rc_row ?R)) r) (wadd16 (rc_col ?R) c)
      (border_glyph r c (rc_rows ?R) (rc_cols ?R)) 0 s)) (s\<lparr>vs_cursor_style := None\<rparr>) (box_cells (rc_rows ?R) (rc_cols ?R)))"
    (is "only_on _ _ ?s1")
  proof -
    have "only_on ?A (s\<lparr>vs_cursor_style := None\<rparr>) ?s1"
      by (rule only_on_foldl) (use assms(1) in \<open>auto simp: box_cells_def row intro!: put_char_on row_in_band\<close>)
    then show ?thesis by simp
  qed
  have title: "only_on ?A s (fst (put_str u (wadd16 offset (rc_row ?R)) x t 0 m ?s1))" for x t m
    by (rule put_str_after [OF frame]) (use R in \<open>auto simp: r0\<close>)
  have inner: "only_on ?A s (popup_interior p offset s)" if "vs_wf s" for s
    unfolding popup_interior_def Let_def
    by (rule only_on_foldl [OF that])
      (auto simp: box_cells_def row1 simp del: One_nat_def split: option.split intro!: only_on_put)
  have stats: "only_on ?A s (popup_statuses p offset area cols bb s)" if "vs_wf s" for s bb
    unfolding popup_statuses_def Let_def
  proof (rule only_on_foldl [OF that], clarify)
    fix s :: virtual_screen and i st
    assume wf: "vs_wf s"
      and "(i, st) \<in> set (enumerate 0 (viewport_block_status (pv_screen p)
          (as_u32 (length (sb_rows (scrollback (pv_screen p))))) (rc_rows ?R - 2)))"
    then have i: "i < rc_rows ?R - 2" by (auto simp: in_set_enumerate_eq)
    then have "as_u16 i = i" using R assms(2) by (intro as_u16_id) linarith
    then show "only_on ?A s (case st of None \<Rightarrow> s
        | Some st \<Rightarrow> if wadd16 (wadd16 (wadd16 offset (rc_row ?R)) 1) (as_u16 i) \<ge> sadd16 area offset \<or> rc_col ?R \<ge> cols then s
            else vs_cell_mut (wadd16 (wadd16 (wadd16 offset (rc_row ?R)) 1) (as_u16 i)) (rc_col ?R) (popup_status_cell bb st) s)"
      using wf i row1 [OF i] by (auto split: option.split intro!: only_on_mut simp del: One_nat_def)
  qed
  define s2 where "s2 = fst (put_str u (wadd16 offset (rc_row ?R))
      (wadd16 (wadd16 (rc_col ?R) 1) ((rc_cols ?R - 2 - dwidth u ([32] @ pv_title p @ [32])) div 2))
      ([32] @ pv_title p @ [32]) 0 (wsub16 (wadd16 (rc_col ?R) (rc_cols ?R)) 1) ?s1)"
  have s2: "only_on ?A s s2" unfolding s2_def by (rule title)
  have s3: "only_on ?A s (popup_interior p offset s2)" by (rule only_on_chain [OF s2 inner])
  have s4: "only_on ?A s (case blocks of Some bb \<Rightarrow> popup_statuses p offset area cols bb (popup_interior p offset s2)
      | None \<Rightarrow> popup_interior p offset s2)"
  proof (cases blocks)
    case (Some bb)
    show ?thesis unfolding Some option.case by (rule only_on_chain [OF s3 stats])
  qed (use s3 in simp)
  have guards: "\<not> (rc_rows ?R < 3 \<or> rc_cols ?R < 3)"
    "\<not> (sadd16 (rc_row ?R) (rc_rows ?R) > area \<or> sadd16 (rc_col ?R) (rc_cols ?R) > cols)"
    using False by simp_all
  show ?thesis
    unfolding paint_popup_def Let_def if_not_P [OF guards(1)] if_not_P [OF guards(2)] s2_def [symmetric] only_on_fields
    by (rule s4)
qed

end
