(* ===== verification/Frame_Facts.thy ===== *)
theory Frame_Facts
  imports Compositor_Facts
begin

text \<open>
  Facts about composed frames: the row of the status bar, which painters leave the cursor alone, and which leave
  the cells of a pane alone.
\<close>

text \<open>
  The status bar as a row: what \<open>paint_status_row\<close> writes, cell by cell, and that the parts of the bar fit it.
\<close>

section \<open>Rows of frames\<close>

lemma vs_row_put:
  assumes "vs_wf s" "r < vs_rows s" "c < vs_cols s"
  shows "vs_row (vs_put r c x s) r = (vs_row s r)[c := x]"
proof (rule nth_equalityI)
  have wf: "vs_wf (vs_put r c x s)" using assms(1) by (simp add: vs_put_def)
  have dims: "vs_rows (vs_put r c x s) = vs_rows s" "vs_cols (vs_put r c x s) = vs_cols s" by (simp_all add: vs_put_def)
  show len: "length (vs_row (vs_put r c x s) r) = length ((vs_row s r)[c := x])"
    using vs_row_length [OF wf, of r] vs_row_length [OF assms(1,2)] assms(2) by (simp add: dims)
  fix i assume "i < length (vs_row (vs_put r c x s) r)"
  then have i: "i < vs_cols s" using len vs_row_length [OF assms(1,2)] by simp
  have "vs_cell (vs_put r c x s) r i = Some ((vs_row s r)[c := x] ! i)"
    using vs_cell_row [OF assms(1,2) i] i vs_row_length [OF assms(1,2)]
    by (auto simp: vs_put_def vs_cell_mut_cell [OF assms(1)] nth_list_update)
  then show "vs_row (vs_put r c x s) r ! i = (vs_row s r)[c := x] ! i"
    using vs_cell_row [OF wf, of r i] assms(2) i by (simp add: dims)
qed

lemma put_glyph_fields [simp]:
  "vs_rows (put_glyph r c w x s) = vs_rows s" "vs_cols (put_glyph r c w x s) = vs_cols s"
  "vs_wf (put_glyph r c w x s) = vs_wf s"
  by (simp_all add: put_glyph_def vs_put_def Let_def)

lemma put_glyph_cursor: "vs_cursor (put_glyph r c w x s) = vs_cursor s"
  by (simp add: put_glyph_def vs_put_def vs_cell_mut_def Let_def)

lemma vs_row_only_on:
  assumes "only_on (band_rows lo hi) s t" "vs_wf s" "r < lo \<or> hi \<le> r" "r < vs_rows s"
  shows "vs_row t r = vs_row s r"
proof (rule nth_equalityI)
  note dims = only_on_dims [OF assms(1)] and wf = only_on_wf [OF assms(1)]
  show len: "length (vs_row t r) = length (vs_row s r)"
    using vs_row_length [OF wf, of r] vs_row_length [OF assms(2), of r] assms(4) dims by simp
  fix i assume "i < length (vs_row t r)"
  then have i: "i < vs_cols s" using len vs_row_length [OF assms(2,4)] by simp
  have "vs_cell t r i = vs_cell s r i" using assms(3) by (intro only_on_cell [OF assms(1)]) auto
  then show "vs_row t r ! i = vs_row s r ! i"
    using vs_cell_row [OF wf, of r i] vs_cell_row [OF assms(2,4) i] assms(4) i dims by simp
qed

lemma vs_blank_row:
  "0 < rows \<Longrightarrow> 0 < cols \<Longrightarrow> r < rows \<Longrightarrow> vs_row (vs_blank rows cols) r = replicate cols default_cell"
proof (rule nth_equalityI)
  assume a: "0 < rows" "0 < cols" "r < rows"
  have m: "max rows 1 = rows" "max cols 1 = cols" using a by (auto intro!: max_absorb1)
  have dims: "vs_rows (vs_blank rows cols) = rows" "vs_cols (vs_blank rows cols) = cols"
    unfolding vs_blank_def Let_def m by simp_all
  show len: "length (vs_row (vs_blank rows cols) r) = length (replicate cols default_cell)"
    using vs_row_length [OF vs_blank_wf, of r rows cols] a(3) dims by simp
  fix i assume "i < length (vs_row (vs_blank rows cols) r)"
  then have i: "i < cols" using len by simp
  then have "r * cols + i < rows * cols" using a by (intro cell_index)
  then show "vs_row (vs_blank rows cols) r ! i = replicate cols default_cell ! i"
    using i unfolding vs_row_def vs_blank_def Let_def m by simp
qed

section \<open>The cells of a part\<close>

text \<open>A glyph of two columns is followed by its spacer; what a wider one skips stays blank.\<close>

fun bar_cells :: "status_cell \<Rightarrow> cell list" where
  "bar_cells (g, w, st) = cell_for g st # (if w = 2 then [wide_spacer] else replicate (w - 1) default_cell)"

definition part_cells :: "status_cell list \<Rightarrow> cell list" where
  "part_cells cs = concat (map bar_cells cs)"

definition advancing :: "status_cell list \<Rightarrow> bool" where
  "advancing cs \<longleftrightarrow> list_all (\<lambda>(_, w, _). 1 \<le> w) cs"

lemma part_cells_simps [simp]:
  "part_cells [] = []" "part_cells (c # cs) = bar_cells c @ part_cells cs"
  "cells_width [] = 0" "cells_width ((g, w, st) # cs) = w + cells_width cs"
  "advancing []" "advancing ((g, w, st) # cs) \<longleftrightarrow> 1 \<le> w \<and> advancing cs"
  by (simp_all add: part_cells_def cells_width_def advancing_def)

lemma bar_cells_length [simp]: "1 \<le> w \<Longrightarrow> length (bar_cells (g, w, st)) = w"
  by simp

lemma part_cells_length: "advancing cs \<Longrightarrow> length (part_cells cs) = cells_width cs"
  by (induction cs rule: list.induct) (auto simp del: bar_cells.simps)

lemma put_glyph_row:
  assumes "vs_wf s" "r < vs_rows s" "vs_row s r = a @ replicate n default_cell @ b" "length a = c" "1 \<le> w" "w \<le> n"
  shows "vs_row (put_glyph r c w (cell_for g st) s) r = a @ bar_cells (g, w, st) @ replicate (n - w) default_cell @ b"
proof -
  have cols: "c + n + length b = vs_cols s" using vs_row_length [OF assms(1,2)] assms(3,4) by simp
  have one: "vs_row (vs_put r c x s) r = a @ x # replicate (n - 1) default_cell @ b" for x
  proof -
    obtain m where n: "n = Suc m" using assms(5,6) by (cases n) simp_all
    show ?thesis using vs_row_put [OF assms(1,2), of c x] cols assms(3,4) by (simp add: n list_update_append)
  qed
  show ?thesis
  proof (cases "w = 2")
    case True
    then obtain m where n: "n = Suc (Suc m)" using assms(6) by (metis Suc_le_D numeral_2_eq_2 Suc_le_mono)
    have "vs_row (vs_put r (c + 1) wide_spacer (vs_put r c (cell_for g st) s)) r =
        (a @ cell_for g st # replicate (n - 1) default_cell @ b)[c + 1 := wide_spacer]"
      using vs_row_put [of "vs_put r c (cell_for g st) s" r "c + 1"] assms(1,2) cols
      by (simp add: one n) (simp add: vs_put_def)
    then show ?thesis using True assms(4) by (simp add: put_glyph_def n list_update_append)
  next
    case False
    have "replicate (n - 1) default_cell = replicate (w - 1) default_cell @ replicate (n - w) default_cell"
      using assms(5,6) by (simp add: replicate_add [symmetric])
    then show ?thesis using False by (simp add: put_glyph_def Let_def one)
  qed
qed

lemma paint_cells_row:
  assumes "vs_wf s" "r < vs_rows s" "vs_row s r = a @ replicate n default_cell @ b" "length a = c"
    "advancing cs" "cells_width cs \<le> n" "vs_cols s \<le> u16_max"
  shows "vs_row (paint_cells r c cs s) r = a @ part_cells cs @ replicate (n - cells_width cs) default_cell @ b"
    and "vs_wf (paint_cells r c cs s)" "vs_rows (paint_cells r c cs s) = vs_rows s" "vs_cols (paint_cells r c cs s) = vs_cols s"
proof (atomize(full), use assms in \<open>induction r c cs s arbitrary: a n rule: paint_cells.induct\<close>)
  case (2 r c g w st cs s)
  have w: "1 \<le> w" "w + cells_width cs \<le> n" "advancing cs" using 2 by simp_all
  have cols: "c + n + length b = vs_cols s" using vs_row_length [OF 2(2,3)] 2(4,5) by simp
  let ?t = "put_glyph r c w (cell_for g st) s"
  have row: "vs_row ?t r = (a @ bar_cells (g, w, st)) @ replicate (n - w) default_cell @ b"
    using put_glyph_row [OF 2(2,3,4,5) w(1), of g st] w(2) by simp
  have sadd: "sadd16 c w = c + w" using cols w(2) 2(8) by (simp add: sadd16_def)
  have no: "\<not> c \<ge> vs_cols s" "\<not> (w = 2 \<and> c + 1 \<ge> vs_cols s)" using cols w by auto
  have len: "length (a @ bar_cells (g, w, st)) = sadd16 c w" using w(1) 2(5) by (simp add: sadd del: bar_cells.simps)
  have fit: "cells_width cs \<le> n - w" using w(2) by simp
  note ih = 2(1) [OF no _ _ row len w(3) fit]
  have "vs_row (paint_cells r (sadd16 c w) cs ?t) r =
        (a @ bar_cells (g, w, st)) @ part_cells cs @ replicate (n - w - cells_width cs) default_cell @ b
      \<and> vs_wf (paint_cells r (sadd16 c w) cs ?t) \<and> vs_rows (paint_cells r (sadd16 c w) cs ?t) = vs_rows ?t
      \<and> vs_cols (paint_cells r (sadd16 c w) cs ?t) = vs_cols ?t"
    by (rule ih) (use 2(2,3,8) in simp_all)
  then show ?case unfolding paint_cells.simps if_not_P [OF no(1)] if_not_P [OF no(2)] by (simp del: bar_cells.simps)
qed simp

section \<open>The parts fit\<close>

lemma truncate_width: "used \<le> m \<Longrightarrow> used + cells_width (truncate_cells used m cs) \<le> m"
  by (induction used m cs rule: truncate_cells.induct) (auto simp: add.assoc)

lemma truncate_advancing: "advancing cs \<Longrightarrow> advancing (truncate_cells used m cs)"
  by (induction used m cs rule: truncate_cells.induct) auto

lemma status_cells_advancing: "advancing (status_cells u segs)"
  by (induction segs)
    (auto simp: advancing_def status_cells_def graphemes_with_width_def list_all_iff grapheme_advance_def)

lemma advancing_append [simp]: "advancing (cs @ ds) \<longleftrightarrow> advancing cs \<and> advancing ds"
  by (simp add: advancing_def)

lemma cells_width_append [simp]: "cells_width (cs @ ds) = cells_width cs + cells_width ds"
  by (simp add: cells_width_def)

lemma status_parts_fit:
  assumes "status_parts u sl cols = (left, middle, right)"
  shows "cells_width left + cells_width middle + cells_width right \<le> cols"
    and "advancing left" "advancing middle" "advancing right"
proof -
  define l where "l = truncate_cells 0 cols (status_cells u (sl_left sl))"
  define r where "r = truncate_cells 0 (cols - cells_width l) (status_cells u (sl_right sl))"
  define budget where "budget = cols - (cells_width l + cells_width r)"
  have l: "cells_width l \<le> cols" using truncate_width [of 0 cols] by (simp add: l_def)
  have r: "cells_width r \<le> cols - cells_width l" using truncate_width [of 0] by (simp add: r_def)
  have parts: "left = l" "right = r" "middle = (if cells_width (status_cells u (sl_middle sl)) \<le> budget then status_cells u (sl_middle sl)
       else if budget = 0 then []
       else truncate_cells 0 (budget - 1) (status_cells u (sl_middle sl)) @ [([8230], 1, style_default)])"
    using assms unfolding status_parts_def Let_def l_def [symmetric] r_def [symmetric] budget_def [symmetric] by simp_all
  have m: "cells_width middle \<le> budget"
    using truncate_width [of 0 "budget - 1" "status_cells u (sl_middle sl)"] by (auto simp: parts(3))
  then show "cells_width left + cells_width middle + cells_width right \<le> cols"
    using l r by (simp add: parts(1,2) budget_def)
  show "advancing left" "advancing right"
    by (simp_all add: parts l_def r_def truncate_advancing status_cells_advancing)
  show "advancing middle" using truncate_advancing [OF status_cells_advancing] status_cells_advancing by (simp add: parts(3))
qed

section \<open>The row of the bar\<close>

definition bar_row :: "unicode \<Rightarrow> status_line \<Rightarrow> nat \<Rightarrow> cell list" where
  "bar_row u sl cols =
     (let (left, middle, right) = status_parts u sl cols
      in part_cells left @ part_cells middle
         @ replicate (cols - (cells_width left + cells_width middle + cells_width right)) default_cell @ part_cells right)"

lemma bar_row_length: "length (bar_row u sl cols) = cols"
proof -
  obtain left middle right where parts: "status_parts u sl cols = (left, middle, right)" by (metis prod_cases3)
  note fit = status_parts_fit [OF parts]
  show ?thesis
    using fit(1) by (simp add: bar_row_def parts part_cells_length [OF fit(2)] part_cells_length [OF fit(3)] part_cells_length [OF fit(4)])
qed

lemma status_row_painted:
  assumes "vs_wf s" "r < vs_rows s" "vs_row s r = replicate cols default_cell" "vs_cols s = cols" "cols \<le> u16_max"
  shows "vs_row (paint_status_row u sl cols r s) r = bar_row u sl cols"
proof -
  obtain left middle right where parts: "status_parts u sl cols = (left, middle, right)" by (metis prod_cases3)
  note fit = status_parts_fit [OF parts]
  let ?l = "cells_width left" and ?m = "cells_width middle" and ?r = "cells_width right"
  define s1 where "s1 = paint_cells r 0 left s"
  define s2 where "s2 = paint_cells r (as_u16 ?l) middle s1"
  have u: "as_u16 ?l = ?l" "as_u16 (cols - ?r) = cols - ?r" using fit(1) assms(5) by (simp_all add: as_u16_id)
  have cols: "vs_cols s \<le> u16_max" using assms(4,5) by simp
  have le: "?l \<le> cols" "?m \<le> cols - ?l" "?r \<le> cols - ?l - ?m" using fit(1) by simp_all
  note p1 = paint_cells_row [OF assms(1,2), of "[]" cols "[]" 0 left, simplified, OF assms(3) fit(2) le(1) cols, folded s1_def]
  have row1: "vs_row s1 r = part_cells left @ replicate (cols - ?l) default_cell @ []" using p1 by simp
  note len1 = part_cells_length [OF fit(2)]
  have r1: "r < vs_rows s1" "vs_cols s1 \<le> u16_max" using p1 assms(2) cols by simp_all
  note p2 = paint_cells_row [OF p1(2) r1(1) row1 len1 fit(3) le(2) r1(2)]
  have s2: "s2 = paint_cells r ?l middle s1" by (simp add: s2_def u)
  have split: "cols - ?l - ?m = (cols - ?r - ?l - ?m) + ?r" using fit(1) by simp
  have row2: "vs_row s2 r = (part_cells left @ part_cells middle @ replicate (cols - ?r - ?l - ?m) default_cell)
      @ replicate ?r default_cell @ []"
    using p2(1) unfolding s2 split replicate_add by simp
  have len2: "length (part_cells left @ part_cells middle @ replicate (cols - ?r - ?l - ?m) default_cell) = cols - ?r"
    using fit(1) by (simp add: part_cells_length [OF fit(2)] part_cells_length [OF fit(3)])
  have wf2: "vs_wf s2" "r < vs_rows s2" "vs_cols s2 \<le> u16_max" using p2 r1 by (simp_all add: s2)
  note p3 = paint_cells_row [OF wf2(1,2) row2 len2 fit(4) order_refl wf2(3)]
  have "cols - ?r - ?l - ?m = cols - (?l + ?m + ?r)" by simp
  then show ?thesis
    using p3(1) by (simp add: paint_status_row_def parts Let_def s1_def [symmetric] s2 [symmetric] u bar_row_def)
qed

lemma paint_cells_dims:
  "vs_rows (paint_cells r c cs s) = vs_rows s" "vs_cols (paint_cells r c cs s) = vs_cols s"
  "vs_wf (paint_cells r c cs s) = vs_wf s" "vs_cursor (paint_cells r c cs s) = vs_cursor s"
  by (induction r c cs s rule: paint_cells.induct) (simp_all add: put_glyph_cursor)

lemma status_row_dims [simp]:
  "vs_rows (paint_status_row u sl cols r s) = vs_rows s" "vs_cols (paint_status_row u sl cols r s) = vs_cols s"
  "vs_wf (paint_status_row u sl cols r s) = vs_wf s" "vs_cursor (paint_status_row u sl cols r s) = vs_cursor s"
  by (simp_all add: paint_status_row_def Let_def paint_cells_dims split: prod.split)

section \<open>The cursor of the frame\<close>

text \<open>Painting cells does not move the cursor of the frame.\<close>

named_theorems cursor_kept \<open>painters that leave the cursor where it is\<close>

lemma foldl_cursor [cursor_kept]:
  "(\<And>s x. vs_cursor (f s x) = vs_cursor s) \<Longrightarrow> vs_cursor (foldl f s xs) = vs_cursor s"
  by (induction xs arbitrary: s) simp_all

lemma cell_mut_cursor [cursor_kept]: "vs_cursor (vs_cell_mut r c f s) = vs_cursor s"
  by (simp add: vs_cell_mut_def)

lemma put_cursor [cursor_kept]: "vs_cursor (vs_put r c x s) = vs_cursor s"
  by (simp add: vs_put_def cursor_kept)

lemma glyph_cursor [cursor_kept]: "vs_cursor (put_glyph r c w x s) = vs_cursor s"
  by (simp add: put_glyph_def cursor_kept Let_def)

lemma put_graphemes_cursor [cursor_kept]: "vs_cursor (fst (put_graphemes mk m r c gs s)) = vs_cursor s"
  by (induction mk m r c gs s rule: put_graphemes.induct) (simp_all add: cursor_kept)

lemma text_cursor [cursor_kept]:
  "vs_cursor (fst (put_str u r c t a m s)) = vs_cursor s"
  "vs_cursor (fst (put_colored u r c t f b a m s)) = vs_cursor s"
  "vs_cursor (fst (put_char u r c ch a s)) = vs_cursor s"
  by (simp_all add: put_str_def put_colored_def put_char_def cursor_kept Let_def)

lemma paint_cells_cursor [cursor_kept]: "vs_cursor (paint_cells r c cs s) = vs_cursor s"
  by (induction r c cs s rule: paint_cells.induct) (simp_all add: cursor_kept)

lemma status_cursor [cursor_kept]: "vs_cursor (paint_status_row u sl cols r s) = vs_cursor s"
  by (simp add: paint_status_row_def cursor_kept Let_def split: prod.split)

subsection \<open>Panes\<close>

lemma mark_cols_cursor [cursor_kept]: "vs_cursor (mark_cols a h r c0 x y s) = vs_cursor s"
  unfolding mark_cols_def by (rule foldl_cursor) (simp add: cursor_kept)

lemma copy_pane_cursor [cursor_kept]: "vs_cursor (copy_pane offset area hc ctx v s) = vs_cursor s"
proof -
  have row: "vs_cursor (copy_row hc r c0 xs s) = vs_cursor s" for r c0 xs s
    unfolding copy_row_def by (rule foldl_cursor) (simp add: cursor_kept split: prod.split)
  show ?thesis unfolding copy_pane_def by (rule foldl_cursor) (simp add: row)
qed

lemma selection_cursor: "paint_selection panes offset area hc sel s = Some t \<Longrightarrow> vs_cursor t = vs_cursor s"
  by (auto simp: paint_selection_def cursor_kept Let_def split: option.splits bind_splits)

lemma copy_selection_cursor [cursor_kept]: "vs_cursor (paint_copy_selection offset hc s v) = vs_cursor s"
proof -
  have mark: "vs_cursor (case z of None \<Rightarrow> s | Some r \<Rightarrow> mark_cols a h r c0 x y s) = vs_cursor s" for z a h c0 x y and s :: virtual_screen
    by (simp add: cursor_kept split: option.split)
  show ?thesis
    unfolding paint_copy_selection_def Let_def
    by (auto split: option.split prod.split intro!: foldl_cursor simp: mark)
qed

lemma search_cursor [cursor_kept]: "vs_cursor (paint_search offset hc s v) = vs_cursor s"
  by (auto simp: paint_search_def cursor_kept split: option.split intro!: foldl_cursor)

lemma block_filter_cursor [cursor_kept]: "vs_cursor (paint_block_filter u panes offset hc s v) = vs_cursor s"
proof -
  have dim: "vs_cursor (case z of None \<Rightarrow> s | Some line \<Rightarrow> if P line then s else foldl (\<lambda>s c. vs_cell_mut r (h c) g s) s cs)
      = vs_cursor s" for z P r h g cs and s :: virtual_screen
    by (simp add: cursor_kept split: option.split)
  have mark: "vs_cursor (case z of None \<Rightarrow> s | Some line \<Rightarrow> foldl (\<lambda>s (_, a, b). mark_cols x hc r c0 a (m b) s) s (ys line))
      = vs_cursor s" for z x r c0 m ys and s :: virtual_screen
    by (auto split: option.split prod.split intro!: foldl_cursor simp: mark_cols_cursor)
  show ?thesis
  proof (cases "Option.bind (pw_block_mode v) bm_filter")
    case (Some f)
    show ?thesis
    proof (cases "bf_query f = [] \<or> alt (pw_screen v) \<noteq> None")
      case False
      show ?thesis
        unfolding paint_block_filter_def Some option.case Let_def if_not_P [OF False]
        by (rule trans [OF foldl_cursor foldl_cursor]) (rule mark, rule dim)
    qed (simp add: paint_block_filter_def Some)
  qed (simp add: paint_block_filter_def)
qed

subsection \<open>Borders and annotations\<close>

lemma title_cursor: "vs_cursor (paint_title_loop mk m r c gs s) = vs_cursor s"
  by (induction mk m r c gs s rule: paint_title_loop.induct) (simp_all add: cursor_kept)

lemma borders_cursor [cursor_kept]: "vs_cursor (draw_borders u fs band blocks rings s) = vs_cursor s"
proof -
  have cells: "vs_cursor (draw_border_cells fs band blocks rings s) = vs_cursor s"
    unfolding draw_border_cells_def by (rule foldl_cursor) (simp add: cursor_kept split: prod.split)
  have "vs_cursor (draw_title u fs rings s f) = vs_cursor s" for s f
    by (simp add: draw_title_def paint_title_def title_cursor split: option.split)
  then show ?thesis unfolding draw_borders_def by (simp add: foldl_cursor cells)
qed

lemma annotate_cursor [cursor_kept]: "vs_cursor (annotate_pane u blocks panes offset area hc s v) = vs_cursor s"
proof -
  have "vs_cursor (annotate_row u blocks panes offset area hc v s r) = vs_cursor s" for s r
    by (simp add: annotate_row_def Let_def cursor_kept split: option.split block_line_status.split)
  then show ?thesis by (simp add: annotate_pane_def foldl_cursor)
qed

lemma sticky_cursor [cursor_kept]: "vs_cursor (sticky_header u blocks panes offset area hc s v) = vs_cursor s"
  by (simp add: sticky_header_def Let_def cursor_kept case_prod_beta split: option.split)

subsection \<open>Prompts, boxes and the popup\<close>

lemma prompts_cursor [cursor_kept]:
  "vs_cursor (paint_search_prompt u panes offset hc s) = vs_cursor s"
  "vs_cursor (paint_filter_prompt u panes offset hc s) = vs_cursor s"
  "vs_cursor (paint_message u msg offset area hc s) = vs_cursor s"
  by (simp_all add: paint_search_prompt_def paint_filter_prompt_def paint_message_def Let_def cursor_kept
      case_prod_beta split: option.split)

lemma fill_cursor [cursor_kept]: "vs_cursor (fill_chars u r a b ch st s) = vs_cursor s"
  unfolding fill_chars_def by (rule foldl_cursor) (simp add: cursor_kept)

lemma box_cursor [cursor_kept]:
  "vs_cursor (draw_box u row0 col0 h w t ft ch s) = vs_cursor s"
  "vs_cursor (paint_selectable_rows u items r0 left right vtop shown sel s) = vs_cursor s"
  by (auto simp: draw_box_def paint_selectable_rows_def Let_def cursor_kept case_prod_beta split: prod.split intro!: foldl_cursor)

lemma lines_cursor: "(\<And>r l s. vs_cursor (fst (put r l s)) = vs_cursor s) \<Longrightarrow> vs_cursor (paint_lines put row0 ls s) = vs_cursor s"
  unfolding paint_lines_def by (rule foldl_cursor) (simp split: prod.split)

lemma boxes_cursor [cursor_kept]:
  "vs_cursor (paint_help_box u ls n offset area cols ch s) = vs_cursor s"
  "vs_cursor (paint_welcome u wls offset area cols ch s) = vs_cursor s"
  "vs_cursor (paint_finder_box u t ft em items flt k sel offset area cols ch s) = vs_cursor s"
  "vs_cursor (paint_list_box u t ft eo items sel offset area cols ch s) = vs_cursor s"
  by (simp_all add: paint_help_box_def paint_welcome_def paint_finder_box_def paint_list_box_def Let_def cursor_kept
      lines_cursor case_prod_beta split: option.split)

lemma hint_cursor [cursor_kept]: "vs_cursor (paint_hint u st hc offset R cols s) = vs_cursor s"
  by (simp add: paint_hint_def Let_def cursor_kept case_prod_beta split: prod.split)

lemma popup_parts_cursor [cursor_kept]:
  "vs_cursor (popup_interior p offset s) = vs_cursor s"
  "vs_cursor (popup_statuses p offset area cols bb s) = vs_cursor s"
  by (auto simp: popup_interior_def popup_statuses_def Let_def cursor_kept split: option.split prod.split intro!: foldl_cursor)

text \<open>
  What a pane shows reaches the frame: the layers after the copy of the panes leave a cell of a pane alone when
  it is not blank.
\<close>

section \<open>Panes apart\<close>

text \<open>The rectangle of the second pane and the row above it, where its title is, do not meet the first.\<close>

definition apart :: "pane_view \<Rightarrow> pane_view \<Rightarrow> bool" where
  "apart v w \<longleftrightarrow>
     rc_row (pw_rect v) + rc_rows (pw_rect v) \<le> rc_row (pw_rect w) - 1
     \<or> rc_row (pw_rect w) + rc_rows (pw_rect w) \<le> rc_row (pw_rect v)
     \<or> rc_col (pw_rect v) + rc_cols (pw_rect v) \<le> rc_col (pw_rect w)
     \<or> rc_col (pw_rect w) + rc_cols (pw_rect w) \<le> rc_col (pw_rect v)"

definition panes_apart :: "pane_view list \<Rightarrow> bool" where
  "panes_apart panes \<longleftrightarrow> sorted_wrt (\<lambda>v w. apart v w \<and> apart w v) panes \<and> distinct (map pw_id panes)"

text \<open>A pane in no mode.\<close>

definition plain_pane :: "pane_view \<Rightarrow> bool" where
  "plain_pane v \<longleftrightarrow> pw_copy_mode v = None \<and> pw_block_mode v = None"

text \<open>Nothing on top of the panes.\<close>

definition quiet :: "layers \<Rightarrow> bool" where
  "quiet ly \<longleftrightarrow> ly_selection ly = None \<and> ly_overlay ly = None \<and> ly_popup ly = None \<and> ly_message ly = None
     \<and> (case ly_blocks ly of Some bb \<Rightarrow> \<not> bb_sticky_header bb | None \<Rightarrow> True)"

text \<open>No grapheme is so wide that a column past it does not fit 16 bits.\<close>

definition widths_fit :: "unicode \<Rightarrow> nat \<Rightarrow> bool" where
  "widths_fit u cols \<longleftrightarrow> (\<forall>g. cols + grapheme_advance (uc_width u) g \<le> u16_max)"

lemma ctx_of_pane: "distinct (map pw_id panes) \<Longrightarrow> v \<in> set panes \<Longrightarrow> ctx_of panes v = fold_ctx_for v"
proof -
  assume d: "distinct (map pw_id panes)" and v: "v \<in> set panes"
  have "distinct (map fst (rev (map (\<lambda>w. (pw_id w, fold_ctx_for w)) panes)))"
    using d by (simp add: rev_map [symmetric] o_def)
  moreover have "(pw_id v, fold_ctx_for v) \<in> set (rev (map (\<lambda>w. (pw_id w, fold_ctx_for w)) panes))" using v by auto
  ultimately have "map_of (rev (map (\<lambda>w. (pw_id w, fold_ctx_for w)) panes)) (pw_id v) = Some (fold_ctx_for v)"
    by (rule map_of_is_SomeI)
  then show ?thesis by (simp add: ctx_of_def)
qed

section \<open>One step of a painter sets a cell\<close>

lemma foldl_reaches:
  assumes "vs_wf s" "\<And>s y. vs_wf s \<Longrightarrow> only_on UNIV s (f s y)"
    and "\<And>t. vs_wf t \<Longrightarrow> vs_rows t = vs_rows s \<Longrightarrow> vs_cols t = vs_cols s \<Longrightarrow> vs_cell (f t x) r c = Some z"
    and "\<And>s y. vs_wf s \<Longrightarrow> y \<in> set ys \<Longrightarrow> only_on (- {(r, c)}) s (f s y)"
  shows "vs_cell (foldl f s (xs @ x # ys)) r c = Some z"
proof -
  have a: "only_on UNIV s (foldl f s xs)" by (rule only_on_foldl [OF assms(1,2)])
  have b: "vs_cell (f (foldl f s xs) x) r c = Some z"
    using only_on_dims [OF a] by (intro assms(3) only_on_wf [OF a]) simp_all
  have "only_on (- {(r, c)}) (f (foldl f s xs) x) (foldl f (f (foldl f s xs) x) ys)"
    by (rule only_on_foldl [OF only_on_wf [OF assms(2) [OF only_on_wf [OF a]]] assms(4)])
  from only_on_cell [OF this, of r c] b show ?thesis by simp
qed

lemma copy_row_on: "vs_wf s \<Longrightarrow> {r} \<times> {c0..<c0 + length xs} \<subseteq> A \<Longrightarrow> c0 + length xs \<le> u16_max \<Longrightarrow>
    only_on A s (copy_row hc r c0 xs s)"
  unfolding copy_row_def
  by (rule only_on_foldl) (auto simp: in_set_enumerate_eq sadd16_def subset_iff intro!: only_on_put)

lemma copy_row_cell:
  assumes "vs_wf s" "vs_cols s = hc" "r < vs_rows s" "c0 + length xs \<le> hc" "hc \<le> u16_max" "i < length xs"
  shows "vs_cell (copy_row hc r c0 xs s) r (c0 + i) = Some (xs ! i)"
proof -
  have split: "enumerate 0 xs = enumerate 0 (take i xs) @ (i, xs ! i) # enumerate (Suc i) (drop (Suc i) xs)"
    using assms(6) by (subst id_take_nth_drop [OF assms(6)]) (simp add: enumerate_append_eq min_def)
  show ?thesis
    unfolding copy_row_def split
  proof (rule foldl_reaches [OF assms(1)])
    fix t :: virtual_screen
    assume t: "vs_wf t" "vs_rows t = vs_rows s" "vs_cols t = vs_cols s"
    have "sadd16 c0 i = c0 + i" using assms(4,5,6) by (simp add: sadd16_def)
    moreover have "\<exists>x. vs_cell t r (c0 + i) = Some x"
      using t assms vs_cell_row [OF t(1), of r "c0 + i"] by simp
    ultimately show "vs_cell (case (i, xs ! i) of (i, x) \<Rightarrow> if sadd16 c0 i \<ge> hc then t else vs_put r (sadd16 c0 i) x t) r (c0 + i) = Some (xs ! i)"
      using t assms(4,6) by (auto simp: vs_put_def vs_cell_mut_cell)
  next
    fix s :: virtual_screen and y
    assume y: "vs_wf s" "y \<in> set (enumerate (Suc i) (drop (Suc i) xs))"
    obtain j x where jx: "y = (j, x)" by (cases y)
    have "j < length xs" "i < j" using y(2) assms(6) by (auto simp: in_set_enumerate_eq jx)
    then have "sadd16 c0 j = c0 + j" "c0 + j \<noteq> c0 + i" using assms(4,5) by (simp_all add: sadd16_def)
    then show "only_on (- {(r, c0 + i)}) s (case y of (i, x) \<Rightarrow> if sadd16 c0 i \<ge> hc then s else vs_put r (sadd16 c0 i) x s)"
      using y(1) by (simp add: jx only_on_put)
  qed (auto intro!: only_on_put split: prod.split)
qed

section \<open>Text from a column on\<close>

lemma put_graphemes_from:
  assumes "vs_wf s" "list_all (\<lambda>(_, w). m + w \<le> u16_max) gs"
  shows "only_on (stretch r c m) s (fst (put_graphemes mk m r c gs s))"
  using assms
proof (induction mk m r c gs s rule: put_graphemes.induct)
  case (2 mk m r c g w gs s)
  show ?case
  proof (cases "c \<ge> m \<or> c \<ge> vs_cols s \<or> w = 2 \<and> (c + 1 \<ge> m \<or> c + 1 \<ge> vs_cols s)")
    case True
    then show ?thesis using 2(2) by auto
  next
    case False
    have g: "only_on (stretch r c m) s (put_glyph r c w (mk g) s)"
      using False by (intro only_on_glyph 2(2)) auto
    have "wadd16 c w = c + w" using False 2(3) by (intro wadd16_exact) simp
    moreover have "only_on (stretch r (wadd16 c w) m) (put_glyph r c w (mk g) s)
        (fst (put_graphemes mk m r (wadd16 c w) gs (put_glyph r c w (mk g) s)))"
      using False 2(3) by (intro 2(1) only_on_wf [OF g]) auto
    ultimately have "only_on (stretch r c m) (put_glyph r c w (mk g) s)
        (fst (put_graphemes mk m r (wadd16 c w) gs (put_glyph r c w (mk g) s)))"
      by (auto elim!: only_on_mono)
    then show ?thesis using False only_on_trans [OF g] by auto
  qed
qed simp

lemma put_str_from:
  assumes "vs_wf s" "widths_fit u m" "stretch r c m \<subseteq> A"
  shows "only_on A s (fst (put_str u r c t a m s))"
proof -
  have "list_all (\<lambda>(_, w). m + w \<le> u16_max) (graphemes_with_width u t)"
    using assms(2) by (simp add: widths_fit_def graphemes_with_width_def list_all_iff)
  then show ?thesis unfolding put_str_def by (rule only_on_mono [OF put_graphemes_from [OF assms(1)] assms(3)])
qed

lemma title_from:
  assumes "vs_wf s" "list_all (\<lambda>(_, w). m + w \<le> u16_max) gs"
  shows "only_on (stretch r c (m + 1)) s (paint_title_loop mk m r c gs s)"
  using assms
proof (induction mk m r c gs s rule: paint_title_loop.induct)
  case (2 mk m r c g w gs s)
  have mw: "m + w \<le> u16_max" using 2(3) by simp
  show ?case
  proof (cases "c > m \<or> c \<ge> vs_cols s \<or> w = 2 \<and> (wadd16 c 1 > m \<or> wadd16 c 1 \<ge> vs_cols s)")
    case True
    then show ?thesis using 2(2) by auto
  next
    case False
    have "w = 2 \<Longrightarrow> wadd16 c 1 = c + 1" using False mw by (intro wadd16_exact) simp
    then have g: "only_on (stretch r c (m + 1)) s (put_glyph r c w (mk g) s)"
      using False by (intro only_on_glyph 2(2)) auto
    have "wadd16 c w = c + w" using False mw by (intro wadd16_exact) simp
    moreover have "only_on (stretch r (wadd16 c w) (m + 1)) (put_glyph r c w (mk g) s)
        (paint_title_loop mk m r (wadd16 c w) gs (put_glyph r c w (mk g) s))"
      using False 2(3) by (intro 2(1) only_on_wf [OF g]) auto
    ultimately have "only_on (stretch r c (m + 1)) (put_glyph r c w (mk g) s)
        (paint_title_loop mk m r (wadd16 c w) gs (put_glyph r c w (mk g) s))"
      by (auto elim!: only_on_mono)
    then show ?thesis using False only_on_trans [OF g] by auto
  qed
qed simp

section \<open>The copy\<close>

definition pane_in_frame :: "nat \<Rightarrow> nat \<Rightarrow> pane_view \<Rightarrow> bool" where
  "pane_in_frame area cols v \<longleftrightarrow> pane_inside area v \<and> rc_col (pw_rect v) + rc_cols (pw_rect v) \<le> cols"

text \<open>A cell of a pane, in the frame.\<close>

definition frame_cell :: "nat \<Rightarrow> pane_view \<Rightarrow> nat \<Rightarrow> nat \<Rightarrow> nat \<times> nat" where
  "frame_cell offset v r c = (offset + rc_row (pw_rect v) + r, rc_col (pw_rect v) + c)"

lemma pane_row_length: "length (pane_row v ctx r) \<le> rc_cols (pw_rect v)"
  by (auto simp: pane_row_def split: option.split)

lemma pane_rows_exact:
  assumes "pane_in_frame area cols v" "offset + area \<le> u16_max" "r < rc_rows (pw_rect v)"
  shows "sadd16 (rc_row (pw_rect v)) r = rc_row (pw_rect v) + r" "rc_row (pw_rect v) + r < area"
    "wadd16 offset (rc_row (pw_rect v) + r) = offset + rc_row (pw_rect v) + r"
    "wadd16 (wadd16 offset (rc_row (pw_rect v))) r = offset + rc_row (pw_rect v) + r"
proof -
  show b: "rc_row (pw_rect v) + r < area" using assms(1,3) by (simp add: pane_in_frame_def pane_inside_def)
  note e = pane_row_exact [OF b assms(2)]
  show "sadd16 (rc_row (pw_rect v)) r = rc_row (pw_rect v) + r" "wadd16 (wadd16 offset (rc_row (pw_rect v))) r = offset + rc_row (pw_rect v) + r"
    by (rule e)+
  show "wadd16 offset (rc_row (pw_rect v) + r) = offset + rc_row (pw_rect v) + r" using e(2,3) by simp
qed

lemma copy_pane_misses:
  assumes "vs_wf s" "pane_in_frame area cols w" "offset + area \<le> u16_max" "cols \<le> u16_max"
    and "\<And>r c. r < rc_rows (pw_rect w) \<Longrightarrow> c < rc_cols (pw_rect w) \<Longrightarrow> frame_cell offset w r c \<in> A"
  shows "only_on A s (copy_pane offset area cols ctx w s)"
  unfolding copy_pane_def
proof (rule only_on_foldl [OF assms(1)])
  fix s :: virtual_screen and r
  assume s: "vs_wf s" and "r \<in> set [0..<rc_rows (pw_rect w)]"
  then have r: "r < rc_rows (pw_rect w)" by simp
  note e = pane_rows_exact [OF assms(2,3) r]
  note len = pane_row_length [of w ctx r]
  have "{offset + rc_row (pw_rect w) + r} \<times> {rc_col (pw_rect w)..<rc_col (pw_rect w) + length (pane_row w ctx r)} \<subseteq> A"
  proof clarify
    fix x assume "x \<in> {rc_col (pw_rect w)..<rc_col (pw_rect w) + length (pane_row w ctx r)}"
    then show "(offset + rc_row (pw_rect w) + r, x) \<in> A"
      using assms(5) [OF r, of "x - rc_col (pw_rect w)"] len by (simp add: frame_cell_def less_diff_conv2)
  qed
  moreover have "rc_col (pw_rect w) + length (pane_row w ctx r) \<le> u16_max"
    using len assms(2,4) by (simp add: pane_in_frame_def)
  ultimately show "only_on A s (if sadd16 (rc_row (pw_rect w)) r \<ge> area then s
       else copy_row cols (wadd16 offset (sadd16 (rc_row (pw_rect w)) r)) (rc_col (pw_rect w)) (pane_row w ctx r) s)"
    using s e by (simp add: copy_row_on)
qed

lemma copy_pane_cell:
  assumes "vs_wf s" "pane_in_frame area cols v" "offset + area \<le> vs_rows s" "vs_rows s \<le> u16_max" "vs_cols s = cols" "cols \<le> u16_max"
    and "r < rc_rows (pw_rect v)" "c < length (pane_row v ctx r)" "frame_cell offset v r c = (fr, fc)"
  shows "vs_cell (copy_pane offset area cols ctx v s) fr fc = Some (pane_row v ctx r ! c)"
proof -
  have fit: "offset + area \<le> u16_max" using assms(3,4) by simp
  have split: "[0..<rc_rows (pw_rect v)] = [0..<r] @ r # [Suc r..<rc_rows (pw_rect v)]"
    using assms(7) by (metis less_imp_add_positive upt_add_eq_append upt_rec zero_le less_or_eq_imp_le upt_conv_Cons)
  have f: "fr = offset + rc_row (pw_rect v) + r" "fc = rc_col (pw_rect v) + c" using assms(9) by (simp_all add: frame_cell_def)
  note e = pane_rows_exact [OF assms(2) fit assms(7)]
  have wide: "rc_col (pw_rect v) + length (pane_row v ctx r') \<le> cols" for r'
    using pane_row_length [of v ctx r'] assms(2) by (simp add: pane_in_frame_def)
  show ?thesis
    unfolding copy_pane_def split
  proof (rule foldl_reaches [OF assms(1)])
    show "only_on UNIV s (if sadd16 (rc_row (pw_rect v)) y \<ge> area then s
       else copy_row cols (wadd16 offset (sadd16 (rc_row (pw_rect v)) y)) (rc_col (pw_rect v)) (pane_row v ctx y) s)"
      if "vs_wf s" for s :: virtual_screen and y
      using that wide [of y] assms(6) by (simp add: copy_row_on)
  next
    fix t :: virtual_screen
    assume t: "vs_wf t" "vs_rows t = vs_rows s" "vs_cols t = vs_cols s"
    have "offset + rc_row (pw_rect v) + r < vs_rows t" using e(2) assms(3) t(2) by simp
    then show "vs_cell (if sadd16 (rc_row (pw_rect v)) r \<ge> area then t
       else copy_row cols (wadd16 offset (sadd16 (rc_row (pw_rect v)) r)) (rc_col (pw_rect v)) (pane_row v ctx r) t) fr fc
      = Some (pane_row v ctx r ! c)"
      using copy_row_cell [OF t(1), of cols "offset + rc_row (pw_rect v) + r" "rc_col (pw_rect v)" "pane_row v ctx r" c]
        t(3) assms(5,6,8) wide [of r] e by (simp add: f)
  next
    fix s :: virtual_screen and y
    assume y: "vs_wf s" "y \<in> set [Suc r..<rc_rows (pw_rect v)]"
    then have yr: "y < rc_rows (pw_rect v)" "r < y" by simp_all
    note ey = pane_rows_exact [OF assms(2) fit yr(1)]
    have "wadd16 offset (sadd16 (rc_row (pw_rect v)) y) \<noteq> fr" using ey yr(2) by (simp add: f)
    then show "only_on (- {(fr, fc)}) s (if sadd16 (rc_row (pw_rect v)) y \<ge> area then s
       else copy_row cols (wadd16 offset (sadd16 (rc_row (pw_rect v)) y)) (rc_col (pw_rect v)) (pane_row v ctx y) s)"
      using y(1) wide [of y] assms(6) by (auto intro!: copy_row_on)
  qed
qed

lemma apart_cell:
  assumes "apart v w \<or> apart w v" "r < rc_rows (pw_rect v)" "c < rc_cols (pw_rect v)" "r' < rc_rows (pw_rect w)" "c' < rc_cols (pw_rect w)"
  shows "frame_cell offset w r' c' \<noteq> frame_cell offset v r c"
  using assms by (auto simp: apart_def frame_cell_def)

lemma panes_apart_split:
  assumes "panes_apart panes" "v \<in> set panes"
  obtains xs ys where "panes = xs @ v # ys" "\<And>w. w \<in> set xs \<union> set ys \<Longrightarrow> apart v w \<and> apart w v"
proof -
  obtain xs ys where p: "panes = xs @ v # ys" using assms(2) by (meson split_list)
  have "\<And>w. w \<in> set xs \<union> set ys \<Longrightarrow> apart v w \<and> apart w v"
    using assms(1) by (auto simp: p panes_apart_def sorted_wrt_append)
  with p show thesis by (rule that)
qed

lemma copies_cell:
  assumes "vs_wf s" "list_all (pane_in_frame area cols) panes" "panes_apart panes" "offset + area \<le> vs_rows s"
    "vs_rows s \<le> u16_max" "vs_cols s = cols" "cols \<le> u16_max" "v \<in> set panes"
    and "r < rc_rows (pw_rect v)" "c < length (pane_row v (fold_ctx_for v) r)" "frame_cell offset v r c = (fr, fc)"
  shows "vs_cell (foldl (\<lambda>s v. copy_pane offset area cols (ctx_of panes v) v s) s panes) fr fc =
    Some (pane_row v (fold_ctx_for v) r ! c)"
proof -
  obtain xs ys where panes: "panes = xs @ v # ys" and ap: "\<And>w. w \<in> set xs \<union> set ys \<Longrightarrow> apart v w \<and> apart w v"
    using panes_apart_split [OF assms(3,8)] by blast
  have ctx: "ctx_of panes v = fold_ctx_for v" using assms(3,8) by (simp add: ctx_of_pane panes_apart_def)
  have inf: "pane_in_frame area cols w" if "w \<in> set panes" for w using assms(2) that by (simp add: list_all_iff)
  have fit: "offset + area \<le> u16_max" using assms(4,5) by simp
  have c: "c < rc_cols (pw_rect v)" using assms(10) pane_row_length [of v] by (meson less_le_trans)
  have xs: "only_on UNIV s (foldl (\<lambda>s v. copy_pane offset area cols (ctx_of panes v) v s) s xs)"
    by (rule only_on_foldl [OF assms(1)]) (auto simp: panes intro!: copy_pane_misses inf fit assms(7))
  note dims = only_on_dims [OF xs]
  have hit: "vs_cell (copy_pane offset area cols (ctx_of panes v) v
      (foldl (\<lambda>s v. copy_pane offset area cols (ctx_of panes v) v s) s xs)) fr fc = Some (pane_row v (fold_ctx_for v) r ! c)"
    unfolding ctx by (rule copy_pane_cell [OF only_on_wf [OF xs] inf [OF assms(8)] _ _ _ assms(7,9,10,11)])
      (use dims assms(4-6) in simp_all)
  have one: "only_on UNIV (foldl (\<lambda>s v. copy_pane offset area cols (ctx_of panes v) v s) s xs)
      (copy_pane offset area cols (ctx_of panes v) v (foldl (\<lambda>s v. copy_pane offset area cols (ctx_of panes v) v s) s xs))"
    by (rule copy_pane_misses [OF only_on_wf [OF xs] inf [OF assms(8)] fit assms(7)]) simp
  have ys: "only_on (- {(fr, fc)}) t (foldl (\<lambda>s v. copy_pane offset area cols (ctx_of panes v) v s) t ys)" if "vs_wf t" for t
  proof (rule only_on_foldl [OF that])
    fix s :: virtual_screen and w
    assume s: "vs_wf s" and w: "w \<in> set ys"
    have inw: "pane_in_frame area cols w" using inf w by (simp add: panes)
    have "frame_cell offset w r' c' \<in> - {(fr, fc)}" if "r' < rc_rows (pw_rect w)" "c' < rc_cols (pw_rect w)" for r' c'
      using apart_cell [of v w r c r' c' offset] ap [of w] w that assms(9,11) c by simp
    then show "only_on (- {(fr, fc)}) s (copy_pane offset area cols (ctx_of panes w) w s)"
      by (rule copy_pane_misses [OF s inw fit assms(7)])
  qed
  show ?thesis
    using only_on_cell [OF ys [OF only_on_wf [OF one]], of fr fc] hit by (simp add: panes)
qed

section \<open>What is drawn around and over\<close>

text \<open>A painter that leaves a cell alone as long as it shows \<open>x\<close>.\<close>

lemma foldl_spares:
  assumes "vs_wf s" "vs_cell s r c = Some x"
    and "\<And>s y. vs_wf s \<Longrightarrow> vs_cell s r c = Some x \<Longrightarrow> y \<in> set ys \<Longrightarrow> only_on (- {(r, c)}) s (f s y)"
  shows "only_on (- {(r, c)}) s (foldl f s ys)"
  using assms
proof (induction ys arbitrary: s)
  case (Cons y ys)
  have one: "only_on (- {(r, c)}) s (f s y)" using Cons.prems by simp
  have "vs_cell (f s y) r c = Some x" using only_on_cell [OF one, of r c] Cons.prems(2) by simp
  then have "only_on (- {(r, c)}) (f s y) (foldl f (f s y) ys)"
    using Cons.prems(3) by (intro Cons.IH only_on_wf [OF one]) simp_all
  then show ?case using only_on_trans [OF one] by simp
qed simp

lemma content_end_beyond:
  assumes "vs_cell s r c = Some x" "\<not> is_blank x" "a \<le> c" "c < b"
  shows "c < content_end s r a b"
proof -
  let ?P = "\<lambda>c. case vs_cell s r c of Some x \<Rightarrow> \<not> is_blank x | None \<Rightarrow> False"
  have "c < (case find ?P (rev [a..<b]) of Some d \<Rightarrow> d + 1 | None \<Rightarrow> a)"
    using assms(3,4)
  proof (induction b)
    case (Suc b)
    then have rev: "rev [a..<Suc b] = b # rev [a..<b]" by simp
    show ?case
    proof (cases "c = b")
      case True
      then show ?thesis using assms(1,2) rev by simp
    next
      case False
      then show ?thesis using Suc rev by (simp split: option.split)
    qed
  qed simp
  then show ?thesis unfolding content_end_def .
qed

lemma find_in_set: "find P xs = Some x \<Longrightarrow> x \<in> set xs"
  by (auto simp: find_Some_iff)

lemma content_end_ge: "a \<le> content_end s r a b"
  unfolding content_end_def by (auto split: option.split dest!: find_in_set)

lemma annotate_row_spares:
  assumes "vs_wf s" "vs_cell s fr fc = Some x" "\<not> is_blank x" "pane_in_frame area cols w" "offset + area \<le> u16_max"
    "widths_fit u cols" "r < rc_rows (pw_rect w)"
  shows "only_on (- {(fr, fc)}) s (annotate_row u blocks panes offset area cols w s r)"
proof -
  let ?R = "pw_rect w"
  note e = pane_rows_exact [OF assms(4,5,7)]
  have cols: "rc_col ?R + rc_cols ?R \<le> cols" "cols \<le> u16_max"
    using assms(4,6) by (auto simp: pane_in_frame_def widths_fit_def dest: spec [of _ "[]"])
  define right where "right = rc_col ?R + rc_cols ?R"
  have right: "min (wadd16 (rc_col ?R) (rc_cols ?R)) cols = right" using cols by (simp add: right_def wadd16_exact)
  define hr where "hr = offset + rc_row ?R + r"
  have spare: "(hr, y) \<noteq> (fr, fc)"
    if "\<not> content_end s hr (rc_col ?R) right \<ge> start" "start \<le> y" "y < right" for start y
  proof
    assume eq: "(hr, y) = (fr, fc)"
    have low: "rc_col ?R \<le> content_end s hr (rc_col ?R) right"
      by (rule content_end_ge)
    then have "y < content_end s hr (rc_col ?R) right"
      using eq assms(2,3) that by (intro content_end_beyond) auto
    then show False using that by simp
  qed
  have wf: "widths_fit u right" using assms(6) cols(1) unfolding widths_fit_def right_def
    by (meson add_le_mono1 le_trans)
  have put: "only_on (- {(fr, fc)}) s (fst (put_str u hr start t a right s))"
    if "\<not> content_end s hr (rc_col ?R) right \<ge> start" for start t a
    by (rule put_str_from [OF assms(1) wf]) (use spare [OF that] in auto)
  have tint: "only_on (- {(fr, fc)}) s (foldl (\<lambda>s c. vs_cell_mut hr c g s) (fst (put_str u hr start t a right s)) [start..<right])"
    if "\<not> content_end s hr (rc_col ?R) right \<ge> start" for start t a g
    by (rule only_on_chain [OF put [OF that]], rule only_on_foldl, assumption, rule only_on_mut, assumption)
      (use spare [OF that] in auto)
  show ?thesis
    using assms(1) put tint unfolding annotate_row_def Let_def e(4) right hr_def [symmetric]
    by (auto split: option.split block_line_status.split)
qed

lemma annotate_spares:
  assumes "vs_wf s" "vs_cell s fr fc = Some x" "\<not> is_blank x" "list_all (pane_in_frame area cols) panes"
    "offset + area \<le> u16_max" "widths_fit u cols"
  shows "only_on (- {(fr, fc)}) s (foldl (annotate_pane u blocks panes offset area cols) s panes)"
proof (rule foldl_spares [OF assms(1,2)])
  fix s :: virtual_screen and w
  assume s: "vs_wf s" "vs_cell s fr fc = Some x" and w: "w \<in> set panes"
  have w: "pane_in_frame area cols w" using assms(4) w by (simp add: list_all_iff)
  have "only_on (- {(fr, fc)}) s (foldl (annotate_row u blocks panes offset area cols w) s [0..<rc_rows (pw_rect w)])"
    by (rule foldl_spares [OF s]) (auto intro: annotate_row_spares [OF _ _ assms(3) w assms(5,6)])
  then show "only_on (- {(fr, fc)}) s (annotate_pane u blocks panes offset area cols s w)"
    using s(1) by (simp add: annotate_pane_def)
qed

lemma borders_spare:
  assumes "vs_wf s" "list_all (pane_in_frame area cols) panes" "panes_apart panes" "offset + area \<le> u16_max"
    "widths_fit u cols" "v \<in> set panes" "r < rc_rows (pw_rect v)" "c < rc_cols (pw_rect v)" "frame_cell offset v r c = (fr, fc)"
  shows "only_on (- {(fr, fc)}) s
    (draw_borders u (map (pane_frame_of panes offset blocks sc) panes) (mk_rect (mk_point offset 0) (mk_size area cols)) blocks rings s)"
proof -
  let ?fs = "map (pane_frame_of panes offset blocks sc) panes" and ?band = "mk_rect (mk_point offset 0) (mk_size area cols)"
  have cols: "cols \<le> u16_max" using assms(5) by (auto simp: widths_fit_def dest: spec [of _ "[]"])
  have inf: "pane_in_frame area cols w" if "w \<in> set panes" for w using assms(2) that by (simp add: list_all_iff)
  have fr: "fr = offset + rc_row (pw_rect v) + r" "fc = rc_col (pw_rect v) + c" using assms(9) by (simp_all add: frame_cell_def)
  have rect: "pf_rect (pane_frame_of panes offset blocks sc w) = (pw_rect w)\<lparr>rc_row := rc_row (pw_rect w) + offset\<rparr>"
    if "w \<in> set panes" for w
    using inf [OF that] assms(4)
    by (simp add: pane_frame_of_def Let_def mk_rect_def mk_point_def mk_size_def pane_in_frame_def pane_inside_def sadd16_def)
  have "contains ((pw_rect v)\<lparr>rc_row := rc_row (pw_rect v) + offset\<rparr>) (mk_point fr fc)"
    using inf [OF assms(6)] assms(4,7,8) cols
    by (simp add: contains_def fr mk_point_def sadd16_def pane_in_frame_def pane_inside_def)
  then have "list_ex (\<lambda>R. contains R (mk_point fr fc)) (map pf_rect ?fs)"
    using assms(6) rect by (force simp: list_ex_iff)
  then have not_border: "\<not> is_border fr fc ?band (map pf_rect ?fs)" by (simp add: is_border_def)
  have cells: "only_on (- {(fr, fc)}) s (draw_border_cells ?fs ?band blocks rings s)"
    unfolding draw_border_cells_def
    by (rule only_on_foldl [OF assms(1)]) (use not_border in \<open>auto intro!: only_on_put\<close>)
  have title: "only_on (- {(fr, fc)}) s (draw_title u ?fs rings s f)" if s: "vs_wf s" and f: "f \<in> set ?fs" for s :: virtual_screen and f
  proof -
    obtain w where w: "w \<in> set panes" "f = pane_frame_of panes offset blocks sc w" using f by auto
    let ?R = "pw_rect w"
    note inw = inf [OF w(1)]
    have e: "rc_row (pf_rect f) - 1 = rc_row ?R + offset - 1" "right_edge_col (pf_rect f) = rc_col ?R + rc_cols ?R - 1"
      "sadd16 (rc_col (pf_rect f)) 1 = rc_col ?R + 1 \<or> sadd16 (rc_col (pf_rect f)) 1 = u16_max"
      using inw cols unfolding w(2) rect [OF w(1)] by (auto simp: right_edge_col_def sadd16_def pane_in_frame_def)
    have m: "list_all (\<lambda>(_, x). right_edge_col (pf_rect f) + x \<le> u16_max) (graphemes_with_width u t)" for t
    proof -
      have "rc_col ?R + rc_cols ?R \<le> cols" using inw by (simp add: pane_in_frame_def)
      then have "rc_col ?R + rc_cols ?R - 1 \<le> cols" by linarith
      then show ?thesis using assms(5) unfolding e(2)
        by (auto simp: widths_fit_def graphemes_with_width_def list_all_iff intro: le_trans [OF add_le_mono1])
    qed
    have miss: "stretch (rc_row (pf_rect f) - 1) (sadd16 (rc_col (pf_rect f)) 1) (right_edge_col (pf_rect f) + 1) \<subseteq> - {(fr, fc)}"
    proof -
      have "\<not> (rc_row ?R + offset - 1 = fr \<and> rc_col ?R < fc \<and> fc < rc_col ?R + rc_cols ?R)"
      proof (cases "w = v")
        case True
        then show ?thesis using fr inw by (auto simp: pane_in_frame_def pane_inside_def)
      next
        case False
        obtain xs ys where p: "panes = xs @ v # ys" "\<And>w. w \<in> set xs \<union> set ys \<Longrightarrow> apart v w \<and> apart w v"
          using panes_apart_split [OF assms(3,6)] by blast
        have "apart v w" using p False w(1) by auto
        then show ?thesis using fr assms(7,8) inw by (auto simp: apart_def pane_in_frame_def pane_inside_def)
      qed
      moreover have "rc_col ?R < y \<and> y < rc_col ?R + rc_cols ?R"
        if "sadd16 (rc_col (pf_rect f)) 1 \<le> y" "y < right_edge_col (pf_rect f) + 1" "y < cols" for y
        using that e(2,3) cols by auto
      moreover have "fc < cols" using inf [OF assms(6)] assms(8) fr(2) by (simp add: pane_in_frame_def)
      ultimately show ?thesis using e(1) by (auto simp: stretch_def)
    qed
    have "only_on (- {(fr, fc)}) s (paint_title u (rc_row (pf_rect f) - 1) (sadd16 (rc_col (pf_rect f)) 1) (right_edge_col (pf_rect f)) t col s)" for t col
      unfolding paint_title_def by (rule only_on_mono [OF title_from [OF s m] miss])
    then show ?thesis using s by (auto simp: draw_title_def split: option.split)
  qed
  show ?thesis unfolding draw_borders_def by (rule only_on_chain [OF cells only_on_foldl]) (auto intro: title)
qed

lemma paint_cells_on: "vs_wf s \<Longrightarrow> {r} \<times> UNIV \<subseteq> A \<Longrightarrow> only_on A s (paint_cells r c cs s)"
proof (induction r c cs s rule: paint_cells.induct)
  case (2 r c g w st cs s)
  have g: "only_on A s (put_glyph r c w (cell_for g st) s)" using 2(2,3) by (intro only_on_glyph) auto
  then show ?case using 2 only_on_trans [OF g] only_on_wf [OF g] by auto
qed simp

lemma status_row_on: "vs_wf s \<Longrightarrow> {r} \<times> UNIV \<subseteq> A \<Longrightarrow> only_on A s (paint_status_row u sl cols r s)"
  unfolding paint_status_row_def Let_def
  by (auto split: prod.split intro!: only_on_chain [OF only_on_chain [OF paint_cells_on paint_cells_on] paint_cells_on])

end
