(* ===== verification/Compositor_Props.thy ===== *)
theory Compositor_Props
  imports Frame_Facts
begin

unbundle bit_operations_syntax

text \<open>
  The composed frame: nothing drawn over the panes covers the status bar, and the bar shows its parts; the
  cursor stays in the frame; the contents of a plain pane reach the frame; the identities of images survive the
  renaming to the host's; and two layers that break the pairs of wide characters they are drawn over.
\<close>

section \<open>The layers above the panes\<close>



lemma place_cursor_on [simp]: "only_on A s (place_cursor panes offset area hc s) = vs_wf s"
  by (auto simp: place_cursor_def Let_def dest: only_on_wf split: option.split prod.split)




section \<open>The cursor\<close>







section \<open>Pane contents\<close>



section \<open>Images\<close>

lemma as_u8_split: "n < 2 ^ 24 \<Longrightarrow> as_u8 (n div 2 ^ 16) * 2 ^ 16 + as_u8 (n div 2 ^ 8) * 2 ^ 8 + as_u8 n = n"
proof -
  assume "n < 2 ^ 24"
  then have "n div 65536 < 256" by (simp add: less_mult_imp_div_less)
  then have "as_u8 (n div 65536) = n div 65536" by (simp add: as_u8_def)
  moreover have "n div 65536 = n div 256 div 256" by (simp add: div_mult2_eq [symmetric])
  moreover have "n div 256 div 256 * 65536 + n div 256 mod 256 * 256 + n mod 256 = n"
    using mult_div_mod_eq [of 256 n] mult_div_mod_eq [of 256 "n div 256"] by linarith
  ultimately show ?thesis by (simp add: as_u8_def)
qed

lemma virtual_id_parts:
  "virtual_host_image_id pane raw mod 2 ^ 24 = virtual_host_image_id pane (raw mod 2 ^ 24) \<and>
   virtual_host_image_id pane raw mod 2 ^ 24 \<noteq> 0 \<and>
   virtual_host_image_id pane raw div 2 ^ 24 = raw div 2 ^ 24 mod 2 ^ 8"
proof -
  define f where "f = max (wmul64 (pane * 2 ^ 24 + raw mod 2 ^ 24) 0x9E3779B97F4A7C15 div 2 ^ 40 mod 2 ^ 24) 1"
  have f: "f < 2 ^ 24" "f \<noteq> 0" by (simp_all add: f_def max_def)
  have id: "virtual_host_image_id pane raw = (raw div 2 ^ 24 mod 2 ^ 8) * 2 ^ 24 + f"
    by (simp only: virtual_host_image_id_def Let_def f_def)
  have low: "virtual_host_image_id pane (raw mod 2 ^ 24) = f"
    by (simp add: virtual_host_image_id_def Let_def f_def)
  show ?thesis unfolding low unfolding id using f by simp
qed

lemma refold_color:
  assumes "head_opt (grapheme x) = Some KITTY_PLACEHOLDER" "color_id (c_fg x) = Some (raw mod 2 ^ 24)"
  shows "color_id (c_fg (refold_placeholder_cell pane x)) = Some (virtual_host_image_id pane raw mod 2 ^ 24)"
proof -
  let ?w = "virtual_host_image_id pane (raw mod 2 ^ 24)"
  have w: "?w = virtual_host_image_id pane raw mod 2 ^ 24" using virtual_id_parts by metis
  then have "?w < 2 ^ 24" by simp
  from as_u8_split [OF this] w show ?thesis
    using assms by (simp add: refold_placeholder_cell_def Let_def color_id_def)
qed

section \<open>Strips of an image\<close>

lemma crop_end:
  assumes "pixels \<le> u32_max" "off + vis \<le> cs" "1 \<le> cs"
  shows "fst (crop_axis pixels cs off vis) = pixels * off div cs"
    "fst (crop_axis pixels cs off vis) + snd (crop_axis pixels cs off vis) = pixels * (off + vis) div cs"
proof -
  have m: "max cs 1 = cs" using assms(3) by (simp add: max_absorb1)
  have le: "pixels * k div cs \<le> pixels" if "k \<le> cs" for k
  proof -
    have "pixels * k div cs \<le> pixels * cs div cs" using that by (intro div_le_mono mult_le_mono2)
    then show ?thesis using assms(3) by simp
  qed
  have a: "pixels * off div cs \<le> pixels" and b: "pixels * (off + vis) div cs \<le> pixels" using le assms(2) by simp_all
  have ab: "pixels * off div cs \<le> pixels * (off + vis) div cs" by (intro div_le_mono mult_le_mono2) simp
  have u: "as_u32 n = n" if "n \<le> pixels" for n using that assms(1) by (simp add: as_u32_def)
  have "fst (crop_axis pixels cs off vis) = pixels * off div cs \<and>
    fst (crop_axis pixels cs off vis) + snd (crop_axis pixels cs off vis) = pixels * (off + vis) div cs"
  proof (cases "off = 0 \<and> vis \<ge> cs")
    case True
    then have "vis = cs" using assms(2) by simp
    then show ?thesis using True assms(3) m by (simp add: crop_axis_def)
  next
    case False
    have d: "pixels * (off + vis) div cs - pixels * off div cs \<le> pixels" using b by simp
    show ?thesis
      unfolding crop_axis_def Let_def m if_not_P [OF False] min_absorb1 [OF b] fst_conv snd_conv u [OF a] u [OF d]
      using ab by simp
  qed
  then show "fst (crop_axis pixels cs off vis) = pixels * off div cs"
    "fst (crop_axis pixels cs off vis) + snd (crop_axis pixels cs off vis) = pixels * (off + vis) div cs" by auto
qed

section \<open>The left border of the popup\<close>

definition frame_glyphs_narrow :: "unicode \<Rightarrow> bool" where
  "frame_glyphs_narrow u \<longleftrightarrow> list_all (\<lambda>ch. uc_char_width u ch \<le> 1) [32, 0x2500, 0x2502, 0x250C, 0x2510, 0x2514, 0x2518]"

definition popup_fits :: "rect \<Rightarrow> nat \<Rightarrow> nat \<Rightarrow> nat \<Rightarrow> bool" where
  "popup_fits R offset area cols \<longleftrightarrow> 3 \<le> rc_rows R \<and> 3 \<le> rc_cols R \<and> rc_row R + rc_rows R \<le> area \<and> rc_col R + rc_cols R \<le> cols
     \<and> offset + area \<le> u16_max \<and> cols \<le> u16_max"

lemma popup_left_border:
  assumes "vs_wf s" "popup_fits (pv_rect p) offset area cols" "frame_glyphs_narrow u" "offset + area \<le> vs_rows s" "cols \<le> vs_cols s"
    "0 < k" "k < rc_rows (pv_rect p) - 1" "r = offset + rc_row (pv_rect p) + k"
  shows "vs_cell (paint_popup u p offset area cols None s) r (rc_col (pv_rect p)) = Some (plain_cell [0x2502] 0)"
    and "c < rc_col (pv_rect p) \<Longrightarrow> vs_cell (paint_popup u p offset area cols None s) r c = vs_cell s r c"
proof -
  let ?R = "pv_rect p" and ?s = "s\<lparr>vs_cursor_style := None\<rparr>"
  let ?L = "rc_col (pv_rect p)"
  have fit: "3 \<le> rc_rows ?R" "3 \<le> rc_cols ?R" "rc_row ?R + rc_rows ?R \<le> area" "?L + rc_cols ?R \<le> cols" "offset + area \<le> u16_max" "cols \<le> u16_max"
    using assms(2) by (simp_all add: popup_fits_def)
  have r0: "wadd16 offset (rc_row ?R) = offset + rc_row ?R" using fit by (intro wadd16_exact) simp
  have narrow: "max (uc_char_width u (border_glyph a b h w)) 1 = 1" for a b h w
    using assms(3) by (simp add: border_glyph_def Let_def frame_glyphs_narrow_def max_absorb2)
  let ?put = "\<lambda>s (a, b). fst (put_char u (wadd16 (wadd16 offset (rc_row ?R)) a) (wadd16 ?L b) (border_glyph a b (rc_rows ?R) (rc_cols ?R)) 0 s)"
  have put: "?put t (a, b) = (if offset + rc_row ?R + a \<ge> vs_rows t \<or> ?L + b \<ge> vs_cols t then t
      else vs_put (offset + rc_row ?R + a) (?L + b) (plain_cell [border_glyph a b (rc_rows ?R) (rc_cols ?R)] 0) t)"
    if "a < rc_rows ?R" "b < rc_cols ?R" for t a b
  proof -
    have "wadd16 (offset + rc_row ?R) a = offset + rc_row ?R + a" "wadd16 ?L b = ?L + b"
      using that fit by (intro wadd16_exact; simp)+
    then show ?thesis by (simp add: r0 put_char_def narrow put_glyph_def Let_def del: One_nat_def)
  qed
  have step: "only_on A t (?put t (a, b))"
    if "vs_wf t" "a < rc_rows ?R" "b < rc_cols ?R" "(offset + rc_row ?R + a, ?L + b) \<in> A" for t A a b
    unfolding put [OF that(2,3)] using that by (auto intro: only_on_put)
  let ?xs = "box_cells (rc_rows ?R) (rc_cols ?R)"
  define s1 where "s1 = foldl ?put ?s ?xs"
  have wf: "vs_wf ?s" using assms(1) by simp
  have left1: "only_on (UNIV \<times> {?L..}) ?s s1"
    unfolding s1_def
  proof (rule only_on_foldl [OF wf])
    fix t :: virtual_screen and y
    assume t: "vs_wf t" and "y \<in> set ?xs"
    then obtain a b where ab: "y = (a, b)" "a < rc_rows ?R" "b < rc_cols ?R" by (auto simp: box_cells_def)
    show "only_on (UNIV \<times> {?L..}) t (?put t y)" unfolding ab(1) by (rule step [OF t ab(2,3)]) simp
  qed
  have any: "only_on UNIV t (?put t y)" if "vs_wf t" for t y
  proof (cases y)
    case (Pair a b)
    then show ?thesis using put_char_on [OF that] by simp
  qed
  have hit: "vs_cell s1 r ?L = Some (plain_cell [0x2502] 0)"
  proof -
    have mem: "(k, 0) \<in> set ?xs" using assms(7) fit by (auto simp: box_cells_def)
    obtain xs ys where xs: "?xs = xs @ (k, 0) # ys" using split_list [OF mem] by blast
    have "distinct ?xs" by (simp add: box_cells_def distinct_product)
    then have ys: "(k, 0) \<notin> set ys" "set ys \<subseteq> set ?xs" unfolding xs by auto
    have glyph: "border_glyph k 0 (rc_rows ?R) (rc_cols ?R) = 0x2502" using assms(6,7) by (auto simp: border_glyph_def)
    have k: "k < rc_rows ?R" "0 < rc_cols ?R" using assms(7) fit by simp_all
    show ?thesis
      unfolding s1_def xs
    proof (rule foldl_reaches [OF wf any])
      fix t :: virtual_screen
      assume t: "vs_wf t" "vs_rows t = vs_rows ?s" "vs_cols t = vs_cols ?s"
      have "r < vs_rows t" "?L < vs_cols t" using t assms(4,5,7,8) fit by simp_all
      then show "vs_cell (?put t (k, 0)) r ?L = Some (plain_cell [0x2502] 0)"
        using vs_cell_row [OF t(1)] unfolding put [OF k] glyph assms(8) [symmetric]
        by (simp add: vs_put_def vs_cell_mut_cell [OF t(1)])
    next
      fix t :: virtual_screen and y
      assume y: "vs_wf t" "y \<in> set ys"
      obtain a b where ab: "y = (a, b)" by (cases y)
      have "a < rc_rows ?R" "b < rc_cols ?R" "a \<noteq> k \<or> b \<noteq> 0"
        using y(2) ys ab by (auto simp: box_cells_def intro: gr0I)
      then show "only_on (- {(r, ?L)}) t (?put t y)" unfolding ab using assms(8) by (intro step [OF y(1)]) auto
    qed
  qed
  define tt where "tt = [32] @ pv_title p @ [32]"
  define s2 where "s2 = fst (put_str u (offset + rc_row ?R) (wadd16 (wadd16 ?L 1) ((rc_cols ?R - 2 - dwidth u tt) div 2)) tt 0 (wsub16 (wadd16 ?L (rc_cols ?R)) 1) s1)"
  have s2: "only_on ({offset + rc_row ?R} \<times> UNIV) s1 s2"
    unfolding s2_def by (rule put_str_on [OF only_on_wf [OF left1]]) (auto simp: stretch_def)
  have in1: "wadd16 (wadd16 ?L 1) b = ?L + 1 + b" if "b < rc_cols ?R - 2" for b
  proof -
    have "?L + 1 + b \<le> u16_max" using that fit by linarith
    then show ?thesis by (simp add: wadd16_exact del: One_nat_def)
  qed
  have s3: "only_on (UNIV \<times> {?L + 1..}) s2 (popup_interior p offset s2)"
    unfolding popup_interior_def Let_def
    by (rule only_on_foldl [OF only_on_wf [OF s2]])
      (auto simp: box_cells_def in1 simp del: One_nat_def split: option.split intro!: only_on_put)
  have pop: "vs_cell (paint_popup u p offset area cols None s) x y = vs_cell (popup_interior p offset s2) x y" for x y
  proof -
    have guards: "\<not> (rc_rows ?R < 3 \<or> rc_cols ?R < 3)"
      "\<not> (sadd16 (rc_row ?R) (rc_rows ?R) > area \<or> sadd16 ?L (rc_cols ?R) > cols)"
      using fit by (auto simp: sadd16_def)
    show ?thesis
      unfolding paint_popup_def Let_def if_not_P [OF guards(1)] if_not_P [OF guards(2)] r0 [symmetric] s2_def tt_def s1_def
      by (simp add: vs_cell_def)
  qed
  have keep: "vs_cell (popup_interior p offset s2) r y = vs_cell s1 r y" if "y \<le> ?L" for y
    using only_on_cell [OF s3, of r y] only_on_cell [OF s2, of r y] that assms(6,8) by simp
  show "vs_cell (paint_popup u p offset area cols None s) r ?L = Some (plain_cell [0x2502] 0)"
    using hit by (simp add: pop keep)
  show "vs_cell (paint_popup u p offset area cols None s) r c = vs_cell s r c" if "c < ?L"
  proof -
    have "vs_cell ?s r c = vs_cell s r c" by (simp add: vs_cell_def)
    then show ?thesis using that only_on_cell [OF left1, of r c] by (simp add: pop keep)
  qed
qed

section \<open>Samples\<close>

definition sample_uc :: unicode where
  "sample_uc = \<lparr>uc_width = (\<lambda>g. if g = [0x597D] then 2 else 1), uc_graphemes = map (\<lambda>c. [c]),
     uc_char_width = (\<lambda>_. 1), uc_lower = (\<lambda>s. s)\<rparr>"

definition sample_popup :: popup_view where
  "sample_popup = \<lparr>pv_rect = mk_rect (mk_point 0 1) (mk_size 3 3), pv_screen = screen_new 1 1, pv_title = []\<rparr>"

text \<open>A frame with a wide character in the first two columns of its second row.\<close>

definition wide_under :: virtual_screen where
  "wide_under = vs_put 1 1 wide_spacer (vs_put 1 0 (plain_cell [0x597D] 0) (vs_blank 4 5))"

text \<open>A pane of one row that shows "hi".\<close>

definition hi_row :: grid_row where
  "hi_row = (blank_row 2)\<lparr>cells := [plain_cell [104] 0, plain_cell [105] 0]\<rparr>"

definition hi_screen :: screen where
  "hi_screen = (screen_new 1 2)\<lparr>active := \<lparr>g_rows = [hi_row], g_cols = 2\<rparr>\<rparr>"

definition sample_pane :: pane_view where
  "sample_pane = \<lparr>pw_id = 7, pw_rect = mk_rect (mk_point 1 1) (mk_size 1 2), pw_screen = hi_screen,
     pw_is_active = True, pw_scroll_offset = 0, pw_copy_mode = None, pw_block_mode = None, pw_title = None,
     pw_marked = False, pw_drag_role = DragNone\<rparr>"







lemma sample_rect [simp]: "pw_rect sample_pane = mk_rect (mk_point 1 1) (mk_size 1 2)"
  by (simp add: sample_pane_def)





definition placed_pane :: pane_view where
  "placed_pane = sample_pane\<lparr>pw_screen := hi_screen\<lparr>images := \<lparr>st_map = [0x01000005 \<mapsto> \<lparr>im_id = 0x01000005, im_protocol = Kitty,
     im_format = Png, im_w = 1, im_h = 1, im_data = [], im_iterm_args = None, im_generation = 1, im_frames = [], im_anim = None\<rparr>],
     st_order = [0x01000005], st_bytes = 0\<rparr>\<rparr>\<rparr>"

definition sample_placement :: virtual_placement where
  "sample_placement = \<lparr>vp_image = 0x01000005, vp_id = 1, vp_rows = 1, vp_cols = 1, vp_seq = 1\<rparr>"

definition placeholder_cell :: cell where
  "placeholder_cell = (plain_cell [KITTY_PLACEHOLDER] 0)\<lparr>c_fg := Rgb 0 0 5\<rparr>"

lemma sample_placed: "place_virtual placed_pane sample_placement = Some (the (place_virtual placed_pane sample_placement))"
  by (simp add: place_virtual_def placed_pane_def sample_placement_def store_get_def)

section \<open>Properties\<close>







text \<open>
  C27: a placeholder finds its image.  The identity written into the colour of a placeholder cell of a pane
  is the low part of the identity under which the host knows the image of the virtual placement; it is not
  zero, and the high part, which the terminal reads from a combining mark, is that of the image.
\<close>

theorem placeholder_finds_its_image:
  assumes "place_virtual v p = Some q" "head_opt (grapheme x) = Some KITTY_PLACEHOLDER"
    "color_id (c_fg x) = Some (vp_image p mod 2 ^ 24)"
  shows "color_id (c_fg (refold_placeholder_cell (pw_id v) x)) = Some (vvp_image_id q mod 2 ^ 24)
    \<and> vvp_image_id q mod 2 ^ 24 \<noteq> 0 \<and> vvp_image_id q div 2 ^ 24 = vp_image p div 2 ^ 24 mod 2 ^ 8"
proof -
  have "vvp_image_id q = virtual_host_image_id (pw_id v) (vp_image p)"
    using assms(1) by (auto simp: place_virtual_def split: bind_splits)
  then show ?thesis using refold_color [OF assms(2,3)] virtual_id_parts by metis
qed

theorem placeholder_finds_its_image_witness:
  "color_id (c_fg (refold_placeholder_cell (pw_id placed_pane) placeholder_cell)) =
      Some (vvp_image_id (the (place_virtual placed_pane sample_placement)) mod 2 ^ 24)
    \<and> vvp_image_id (the (place_virtual placed_pane sample_placement)) mod 2 ^ 24 \<noteq> 0
    \<and> vvp_image_id (the (place_virtual placed_pane sample_placement)) div 2 ^ 24 = vp_image sample_placement div 2 ^ 24 mod 2 ^ 8"
  by (rule placeholder_finds_its_image [OF sample_placed])
    (simp_all add: placeholder_cell_def plain_cell_def color_id_def sample_placement_def head_opt_def)

text \<open>
  C31: the strips of an image fit together.  Cut along one axis into three runs of cells, the strips of source
  pixels shown for them follow one another without a gap or an overlap, from the first pixel to the last.
\<close>

theorem image_strips_tile:
  assumes "pixels \<le> u32_max" "a + b + c = cs" "1 \<le> cs" "0 < a"
  shows "fst (crop_axis pixels cs 0 a) = 0
    \<and> fst (crop_axis pixels cs a b) = fst (crop_axis pixels cs 0 a) + snd (crop_axis pixels cs 0 a)
    \<and> fst (crop_axis pixels cs (a + b) c) = fst (crop_axis pixels cs a b) + snd (crop_axis pixels cs a b)
    \<and> fst (crop_axis pixels cs (a + b) c) + snd (crop_axis pixels cs (a + b) c) = pixels"
  using crop_end [OF assms(1), of 0 a cs] crop_end [OF assms(1), of a b cs] crop_end [OF assms(1), of "a + b" c cs] assms(2,3)
  by auto

theorem image_strips_tile_witness:
  "fst (crop_axis 100 3 0 1) = 0
    \<and> fst (crop_axis 100 3 1 1) = fst (crop_axis 100 3 0 1) + snd (crop_axis 100 3 0 1)
    \<and> fst (crop_axis 100 3 (1 + 1) 1) = fst (crop_axis 100 3 1 1) + snd (crop_axis 100 3 1 1)
    \<and> fst (crop_axis 100 3 (1 + 1) 1) + snd (crop_axis 100 3 (1 + 1) 1) = 100"
  by (rule image_strips_tile) (simp_all add: u32_max_def)

text \<open>
  C37: a popup cuts a wide character in two.  Where the left border of a popup falls on the second column of a
  wide character, the frame keeps the first half and shows the border in the place of the spacer: the pair
  the renderer of frames counts on is broken, in every row of the popup between its top and its bottom.
\<close>

theorem popup_cuts_wide_characters:
  assumes "vs_wf s" "popup_fits (pv_rect p) offset area cols" "frame_glyphs_narrow u" "offset + area \<le> vs_rows s" "cols \<le> vs_cols s"
    "0 < k" "k < rc_rows (pv_rect p) - 1" "r = offset + rc_row (pv_rect p) + k" "rc_col (pv_rect p) = c + 1"
    "vs_cell s r c = Some x" "is_wide wd x" "vs_cell s r (c + 1) = Some wide_spacer"
  shows "vs_cell (paint_popup u p offset area cols None s) r c = Some x
    \<and> (\<exists>y. vs_cell (paint_popup u p offset area cols None s) r (c + 1) = Some y \<and> \<not> is_wide_spacer y)"
  using popup_left_border [OF assms(1-8)] assms(9,10) by (simp add: is_wide_spacer_def plain_cell_def)

theorem popup_cuts_wide_characters_witness:
  "vs_cell (paint_popup sample_uc sample_popup 0 4 5 None wide_under) 1 0 = Some (plain_cell [0x597D] 0)
    \<and> (\<exists>y. vs_cell (paint_popup sample_uc sample_popup 0 4 5 None wide_under) 1 (0 + 1) = Some y \<and> \<not> is_wide_spacer y)"
proof (rule popup_cuts_wide_characters [where k = 1 and wd = "uc_width sample_uc"])
  have blank: "vs_wf (vs_blank 4 5)" by (rule vs_blank_wf)
  have dims: "vs_rows wide_under = 4" "vs_cols wide_under = 5"
    by (simp_all add: wide_under_def vs_put_def vs_blank_def)
  show "vs_wf wide_under" using blank by (simp add: wide_under_def vs_put_def)
  show "vs_cell wide_under 1 0 = Some (plain_cell [0x597D] 0)" "vs_cell wide_under 1 (0 + 1) = Some wide_spacer"
    using vs_cell_row [OF blank, of 1 0] vs_cell_row [OF blank, of 1 1]
    by (simp_all add: wide_under_def vs_put_def vs_cell_mut_cell blank) (simp_all add: vs_blank_def)
  show "0 + 4 \<le> vs_rows wide_under" "5 \<le> vs_cols wide_under" using dims by simp_all
qed (simp_all add: sample_popup_def popup_fits_def frame_glyphs_narrow_def sample_uc_def mk_rect_def mk_point_def mk_size_def
    u16_max_def is_wide_def plain_cell_def display_width_def)

end
