(* ===== verification/Prompt_Props.thy ===== *)
theory Prompt_Props
  imports Overlay "HOL-Library.Sublist"
begin

text \<open>
  The command prompt: which verbs it knows, what Tab completes a token to, and that the entries of the palette
  are commands the rest of the program understands.
\<close>

section \<open>Verbs\<close>

definition prompt_aliases :: "rstr list" where
  "prompt_aliases = [lit ''join-pane'', lit ''swap-pane'']"

lemma plain_known: "map_of plain_prompt_commands verb \<noteq> None \<Longrightarrow> verb \<in> set VERBS"
  by (auto simp: plain_prompt_commands_def VERBS_def split: if_splits)

text \<open>No error but the one for an unknown verb begins with the letter u.\<close>

definition known_result :: "parse_error + prompt_command \<Rightarrow> bool" where
  "known_result r \<longleftrightarrow> (case r of Inl e \<Rightarrow> e \<noteq> [] \<and> hd e \<noteq> 117 | Inr _ \<Rightarrow> True)"

lemma unknown_result: "\<not> known_result (Inl (lit ''unknown command: '' @ v))"
  by (simp add: known_result_def lit_def)

lemma known_results:
  "known_result (Inr c)"
  "known_result (parse_save_buffer rest)" "known_result (parse_monitor_silence args)" "known_result (parse_win args)"
  "known_result (parse_focus args)" "known_result (parse_resize args)" "known_result (parse_layout rest)"
  "e \<noteq> [] \<Longrightarrow> hd e \<noteq> 117 \<Longrightarrow> known_result (rest_or_error rest e f)"
  by (simp_all add: known_result_def parse_save_buffer_def parse_monitor_silence_def parse_win_def parse_focus_def
      parse_resize_def parse_layout_def rest_or_error_def lit_def Let_def split: option.split list.split sum.split)

lemma known_plain: "map_of plain_prompt_commands verb = Some c \<Longrightarrow> verb \<noteq> [] \<and> hd verb \<noteq> 117"
  by (auto simp: plain_prompt_commands_def lit_def split: if_splits)

lemma verbs_split:
  assumes "verb \<in> set VERBS \<union> set prompt_aliases" "map_of plain_prompt_commands verb = None"
  shows "verb \<in> set (map lit [''paste'', ''set-buffer'', ''save-buffer'', ''load-buffer'', ''monitor-silence'', ''join'', ''join-pane'',
    ''swap'', ''swap-pane'', ''win'', ''split'', ''kill'', ''focus'', ''resize'', ''rename'', ''rename-pane'', ''switch'', ''popup'',
    ''pipe-pane'', ''layout''])"
proof -
  have "verb \<notin> fst ` set plain_prompt_commands" using assms(2) by (simp add: map_of_eq_None_iff)
  then show ?thesis using assms(1) unfolding VERBS_def prompt_aliases_def plain_prompt_commands_def by auto
qed

lemma known_literals [simp]: "known_result (Inl (x # e)) \<longleftrightarrow> x \<noteq> 117"
  by (simp add: known_result_def)

lemma known_rest: "x \<noteq> 117 \<Longrightarrow> known_result (rest_or_error rest (x # e) f)"
  by (simp add: rest_or_error_def known_results)

lemma verb_results:
  "known_result (parse_verb (lit ''paste'') args rest)"
  "known_result (parse_verb (lit ''set-buffer'') args rest)"
  "known_result (parse_verb (lit ''save-buffer'') args rest)"
  "known_result (parse_verb (lit ''load-buffer'') args rest)"
  "known_result (parse_verb (lit ''monitor-silence'') args rest)"
  "known_result (parse_verb (lit ''join'') args rest)"
  "known_result (parse_verb (lit ''join-pane'') args rest)"
  "known_result (parse_verb (lit ''swap'') args rest)"
  "known_result (parse_verb (lit ''swap-pane'') args rest)"
  "known_result (parse_verb (lit ''win'') args rest)"
  "known_result (parse_verb (lit ''split'') args rest)"
  "known_result (parse_verb (lit ''kill'') args rest)"
  "known_result (parse_verb (lit ''focus'') args rest)"
  "known_result (parse_verb (lit ''resize'') args rest)"
  "known_result (parse_verb (lit ''rename'') args rest)"
  "known_result (parse_verb (lit ''rename-pane'') args rest)"
  "known_result (parse_verb (lit ''switch'') args rest)"
  "known_result (parse_verb (lit ''popup'') args rest)"
  "known_result (parse_verb (lit ''pipe-pane'') args rest)"
  "known_result (parse_verb (lit ''layout'') args rest)"
  by (simp_all add: parse_verb_def plain_prompt_commands_def known_results known_rest split: list.split)

lemma parse_verb_known:
  assumes "verb \<in> set VERBS \<union> set prompt_aliases"
  shows "known_result (parse_verb verb args rest)"
proof (cases "map_of plain_prompt_commands verb")
  case (Some c)
  then show ?thesis using known_plain [OF Some] by (simp add: parse_verb_def known_result_def)
next
  case None
  have "list_all (\<lambda>v. known_result (parse_verb v args rest)) (map lit [''paste'', ''set-buffer'', ''save-buffer'', ''load-buffer'',
    ''monitor-silence'', ''join'', ''join-pane'', ''swap'', ''swap-pane'', ''win'', ''split'', ''kill'', ''focus'', ''resize'',
    ''rename'', ''rename-pane'', ''switch'', ''popup'', ''pipe-pane'', ''layout''])"
    by (simp only: list.map list.pred_inject verb_results simp_thms)
  then show ?thesis using verbs_split [OF assms None] unfolding list_all_iff by blast
qed

lemma parse_verb_unknown:
  "verb \<notin> set VERBS \<union> set prompt_aliases \<Longrightarrow> parse_verb verb args rest = Inl (lit ''unknown command: '' @ verb)"
proof -
  assume v: "verb \<notin> set VERBS \<union> set prompt_aliases"
  have "map_of plain_prompt_commands verb = None" using plain_known v by blast
  then show ?thesis using v unfolding parse_verb_def by (simp add: VERBS_def prompt_aliases_def)
qed

section \<open>Completion\<close>

lemma common_prefix_is: "prefix t (common_prefix xs ys) \<longleftrightarrow> prefix t xs \<and> prefix t ys"
proof (induction xs ys arbitrary: t rule: common_prefix.induct)
  case (1 x xs y ys)
  then show ?case by (cases t) auto
qed (auto simp: prefix_Nil)

lemma common_prefix_take: "common_prefix xs ys = take (length (common_prefix xs ys)) xs"
  by (induction xs ys rule: common_prefix.induct) auto

lemma prefix_take_common: "prefix t (take (min n (length (common_prefix xs ys))) xs) \<longleftrightarrow> prefix t (take n xs) \<and> prefix t ys"
proof -
  have "take (min n (length (common_prefix xs ys))) xs = take n (common_prefix xs ys)"
    by (metis common_prefix_take take_take)
  moreover have "prefix t (take n xs) \<longleftrightarrow> length t \<le> n \<and> prefix t xs" for t n and xs :: "'a list"
    by (metis append_eq_conv_conj length_take min.bounded_iff prefix_def prefix_length_le take_is_prefix prefix_order.trans take_all_iff take_take)
  ultimately show ?thesis using common_prefix_is by metis
qed

lemma longest_common_prefix_is:
  assumes "items \<noteq> []"
  shows "prefix t (Command_Prompt.longest_common_prefix items) \<longleftrightarrow> list_all (prefix t) items"
proof -
  obtain first rest where items: "items = first # rest" using assms by (cases items) auto
  have "prefix t (take (foldl (\<lambda>end s. min end (length (common_prefix first s))) n rest) first) \<longleftrightarrow>
      prefix t (take n first) \<and> list_all (prefix t) rest" for n
  proof (induction rest arbitrary: n)
    case (Cons s rest)
    then show ?case by (simp add: prefix_take_common)
  qed simp
  then show ?thesis by (simp add: items Command_Prompt.longest_common_prefix_def)
qed

section \<open>Properties\<close>

text \<open>
  C33: the prompt knows its verbs.  A line is refused as an unknown command exactly when its first word is neither one of
  the verbs offered for completion nor one of the two aliases \<open>join-pane\<close> and \<open>swap-pane\<close>.
\<close>

theorem prompt_knows_its_verbs:
  assumes "split_whitespace (trim line) = verb # args"
  shows "parse_prompt line = Inl (lit ''unknown command: '' @ verb) \<longleftrightarrow> verb \<notin> set VERBS \<union> set prompt_aliases"
proof (cases "verb \<in> set VERBS \<union> set prompt_aliases")
  case True
  have "known_result (parse_prompt line)"
    using parse_verb_known [OF True] assms by (simp add: parse_prompt_def Let_def)
  then have "parse_prompt line \<noteq> Inl (lit ''unknown command: '' @ verb)" using unknown_result by metis
  then show ?thesis using True by blast
next
  case False
  have "parse_prompt line = Inl (lit ''unknown command: '' @ verb)"
    unfolding parse_prompt_def Let_def assms list.case by (rule parse_verb_unknown [OF False])
  then show ?thesis using False by blast
qed

theorem prompt_knows_its_verbs_witness:
  "parse_prompt (lit ''quit now'') = Inl (lit ''unknown command: '' @ lit ''quit'') \<longleftrightarrow> lit ''quit'' \<notin> set VERBS \<union> set prompt_aliases"
  by (rule prompt_knows_its_verbs [where args = "[lit ''now'']"])
    (simp add: trim_def split_whitespace_def is_whitespace_def)

text \<open>
  C24: Tab goes as far as the candidates agree and no further.  A token completes to the one candidate that extends it;
  or to a longer token that is extended by the same candidates, the longest there is; or to nothing, when no
  candidate extends it or several do that already differ after it.
\<close>

theorem completion_is_longest:
  "case complete pre cs of
     CompletionUnique s \<Rightarrow> filter (prefix pre) cs = [s]
   | CompletionPartial s \<Rightarrow> strict_prefix pre s \<and> (\<forall>t. prefix t s \<longleftrightarrow> list_all (prefix t) (filter (prefix pre) cs))
   | CompletionNone \<Rightarrow> filter (prefix pre) cs = [] \<or>
       2 \<le> length (filter (prefix pre) cs) \<and> (\<forall>t. prefix t pre \<longleftrightarrow> list_all (prefix t) (filter (prefix pre) cs))"
proof -
  have pre: "take (length pre) c = pre \<longleftrightarrow> prefix pre c" for c
    by (metis append_eq_conv_conj prefix_def take_is_prefix)
  define ms where "ms = filter (prefix pre) cs"
  show ?thesis
  proof (cases ms rule: remdups_adj.cases)
    case (3 a b rest)
    let ?l = "Command_Prompt.longest_common_prefix ms"
    have l: "prefix t ?l \<longleftrightarrow> list_all (prefix t) ms" for t by (rule longest_common_prefix_is) (simp add: 3)
    have "prefix pre ?l" unfolding l by (simp add: ms_def list_all_iff)
    then have "length pre \<le> length ?l" and eq: "\<not> length ?l > length pre \<Longrightarrow> ?l = pre" and
      strict: "length ?l > length pre \<Longrightarrow> strict_prefix pre ?l"
      by (simp_all add: prefix_length_le strict_prefix_def prefix_def) (auto simp: prefix_def)
    have "complete pre cs = (if length ?l > length pre then CompletionPartial ?l else CompletionNone)"
      unfolding complete_def pre ms_def [symmetric] by (simp add: 3 Let_def)
    then show ?thesis using l eq strict unfolding ms_def [symmetric] by (auto simp: 3)
  qed (simp_all add: complete_def pre ms_def [symmetric])
qed

lemma plain_binding:
  assumes "list_all (\<lambda>c. 95 \<le> c \<and> c \<le> 122) b" "b \<in> fst ` set plain_commands"
  shows "\<not> isl (parse_bound_command b)"
proof -
  have ws: "c \<in> set b \<Longrightarrow> \<not> is_whitespace c" and colon: "58 \<notin> set b" for c
    using assms(1) by (auto simp: list_all_iff is_whitespace_def)
  have "dropWhile is_whitespace b = b" "dropWhile is_whitespace (rev b) = rev b"
    using ws by (simp_all add: dropWhile_eq_self_iff hd_in_set hd_rev) (use ws last_in_set in blast)
  then have trim: "trim b = b" by (simp add: trim_def)
  have "split_once 58 b = None" using colon by (induction b) auto
  moreover obtain c where "map_of plain_commands b = Some c" using assms(2) by (meson map_of_eq_None_iff not_Some_eq)
  ultimately show ?thesis by (simp add: parse_bound_command_def trim)
qed

definition plain_names :: "string list" where
  "plain_names =
    [''new_window'', ''split_v'', ''split_h'', ''kill_pane'', ''kill_window'', ''zoom_toggle'', ''next_window'',
     ''prev_window'', ''detach'', ''cancel'', ''enter_copy_mode'', ''enter_block_mode'', ''toggle_sync_panes'',
     ''reload_config'', ''select_next_pane'', ''select_prev_pane'', ''select_pane_left'', ''select_pane_right'',
     ''select_pane_up'', ''select_pane_down'', ''resize_pane_left'', ''resize_pane_right'', ''resize_pane_up'',
     ''resize_pane_down'', ''select_last_window'', ''select_last_pane'', ''rename_window'', ''rename_pane'',
     ''show_help'', ''command_prompt'', ''command_palette'', ''choose_session'', ''choose_tree'', ''history'',
     ''hints'', ''mark_pane'', ''break_pane'', ''swap_pane_next'', ''swap_pane_prev'', ''join_pane'',
     ''swap_marked_pane'', ''paste_buffer'', ''choose_buffer'', ''toggle_monitor_activity'', ''toggle_monitor_bell'',
     ''toggle_monitor_command'', ''close_popup'', ''next_layout'', ''prev_prompt'', ''next_prompt'', ''copy_output'']"

lemma plain_names: "fst ` set plain_commands = set (map lit plain_names)"
  by (simp only: plain_commands_def plain_names_def list.map list.set image_insert image_empty fst_conv)

text \<open>The bindings of the palette but for the layouts and the popup.\<close>

definition palette_bindings :: "string list" where
  "palette_bindings =
    [''new_window'', ''next_window'', ''prev_window'', ''select_last_window'', ''rename_window'', ''kill_window'',
     ''split_h'', ''split_v'', ''zoom_toggle'', ''kill_pane'', ''select_pane_left'', ''select_pane_right'',
     ''select_pane_up'', ''select_pane_down'', ''select_next_pane'', ''select_prev_pane'', ''select_last_pane'',
     ''resize_pane_left'', ''resize_pane_right'', ''resize_pane_up'', ''resize_pane_down'', ''rename_pane'',
     ''mark_pane'', ''break_pane'', ''join_pane'', ''swap_pane_next'', ''swap_pane_prev'', ''swap_marked_pane'',
     ''choose_session'', ''choose_tree'', ''history'', ''hints'', ''enter_copy_mode'', ''enter_block_mode'',
     ''toggle_sync_panes'', ''detach'', ''reload_config'', ''show_help'', ''prev_prompt'', ''next_prompt'',
     ''copy_output'', ''toggle_monitor_activity'', ''toggle_monitor_bell'', ''toggle_monitor_command'',
     ''paste_buffer'', ''choose_buffer'', ''close_popup'']"

lemma palette_bindings_plain: "list_all (\<lambda>b. b \<in> set plain_names) palette_bindings"
  by (simp add: palette_bindings_def plain_names_def)

lemma palette_bindings_letters: "list_all (\<lambda>b. list_all (\<lambda>c. 95 \<le> c \<and> c \<le> 122) (lit b)) palette_bindings"
  by (simp add: palette_bindings_def)

lemma palette_bound: "b \<in> set palette_bindings \<Longrightarrow> \<not> isl (parse_bound_command (lit b))"
  using palette_bindings_plain palette_bindings_letters unfolding list_all_iff
  by (intro plain_binding) (auto simp: plain_names list_all_iff)

lemma other_bound:
  "\<not> isl (parse_bound_command (lit ''popup''))" "\<not> isl (parse_bound_command (lit ''layout:even-horizontal''))"
  "\<not> isl (parse_bound_command (lit ''layout:even-vertical''))" "\<not> isl (parse_bound_command (lit ''layout:main-horizontal''))"
  "\<not> isl (parse_bound_command (lit ''layout:main-vertical''))" "\<not> isl (parse_bound_command (lit ''layout:tiled''))"
  by (simp_all add: parse_bound_command_def trim_def is_whitespace_def plain_commands_def given_def preset_parse_def preset_all_def)

text \<open>
  C40: the palette offers what exists.  Every entry that has a binding carries an action of the configuration language,
  and every entry that opens the prompt fills in a verb of the prompt, followed by a blank.
\<close>

theorem palette_entries_exist:
  "list_all (\<lambda>e. (case pe_binding_verb e of Some b \<Rightarrow> \<not> isl (parse_bound_command b) | None \<Rightarrow> True)
     \<and> (case pe_action e of PaPrompt prefill \<Rightarrow> list_ex (\<lambda>v. prefill = v @ [32]) VERBS | PaRun _ \<Rightarrow> True)) (catalog lower)"
proof -
  have bound: "list_all (\<lambda>b. case b of Some b \<Rightarrow> \<not> isl (parse_bound_command b) | None \<Rightarrow> True) (map pe_binding_verb (catalog lower))"
    unfolding catalog_def pal_run_def pal_prompt_def pal_entry_def list.map palette_entry.simps list.pred_inject option.case
    by (intro conjI TrueI other_bound) (rule palette_bound list.pred_inject(1), (simp add: palette_bindings_def)?)+
  have fill: "list_all (\<lambda>a. case a of PaPrompt prefill \<Rightarrow> list_ex (\<lambda>v. prefill = v @ [32]) VERBS | PaRun _ \<Rightarrow> True) (map pe_action (catalog lower))"
    unfolding catalog_def pal_run_def pal_prompt_def pal_entry_def list.map palette_entry.simps
    by code_simp
  show ?thesis using bound fill by (simp add: list_all_iff)
qed

end
