(* ===== verification/Spec2Isabelle.thy ===== *)
theory Spec2Isabelle
  imports Terminal_Props Table_Props Screen_Props Layout_Props Keys_Props Keymap_Props Input_Props
    Protocol_Props Overlay_Props Block_Props Selection_Props Diff_Props Copy_Props Block_Mode_Props Hint_Props
    Compositor_Props Prompt_Props
begin

text \<open>
  A verification of plexy-glass, a terminal multiplexer in Rust.

  \<^bold>\<open>The program.\<close>  A daemon (\<open>crates/daemon\<close>) owns the sessions; each pane runs a child under a
  pseudo-terminal and interprets what the child writes with a terminal emulator (\<open>crates/emulator\<close>).
  The multiplexer (\<open>crates/mux\<close>) lays panes out, finds the command blocks in their screens, composes the
  screens into one and writes the difference to each client.  Clients (\<open>crates/client\<close>) send raw input
  over a framed protocol (\<open>crates/protocol\<close>); the daemon cuts it into keys, mouse events and pastes
  (\<open>crates/keys\<close>, \<open>mux/mouse.rs\<close>), looks keys up in the keymap and hands the rest to the overlay that is
  open or, encoded again, to the child.

  \<^bold>\<open>Theories and code: the emulator\<close> (files under \<open>src/crates/emulator/src\<close>).
  \<^item> \<open>Prelude\<close>: Rust's fixed-width arithmetic (saturating, wrapping, casts) on \<open>nat\<close>, slices, decimal
    numbers, and three interfaces as locales: \<open>invariant_machine\<close> (a transition that keeps an
    invariant; what holds after any run), \<open>bounded_buffer\<close> (a buffer that drops its oldest item; what
    it holds after any pushes) and \<open>simulation\<close> (a functional refinement: a model whose every operation
    commutes with an abstraction).
  \<^item> \<open>Utf8\<close>: the standard library's UTF-8 decoding, strict and lossy.
  \<^item> \<open>Cells\<close> (\<open>attrs.rs\<close>, \<open>cell.rs\<close>, \<open>color.rs\<close>, \<open>coords.rs\<close>, \<open>width.rs\<close>), \<open>Grid\<close> (\<open>grid.rs\<close>), \<open>Cursor\<close>
    (\<open>cursor.rs\<close>), \<open>Screen_Tables\<close> (\<open>tabs.rs\<close>, \<open>hyperlinks.rs\<close>, \<open>modes.rs\<close>), \<open>Keyboard\<close> (\<open>keyboard.rs\<close>),
    \<open>Scrollback\<close> (\<open>scrollback.rs\<close>), \<open>Terminfo\<close> (\<open>terminfo.rs\<close>), \<open>Graphics\<close> and
    \<open>Graphics_Parse\<close> (\<open>graphics.rs\<close>), \<open>Reflow\<close> (\<open>reflow.rs\<close>): one definition per method, the struct as a
    record, with the component's invariant and the closed forms of its loops.
  \<^item> \<open>Screen\<close>, \<open>Screen_Csi\<close>, \<open>Screen_Graphics\<close>, \<open>Screen_Osc\<close> (\<open>screen.rs\<close>): the screen's state, printing,
    line feeds, C0 and ESC; CSI, one definition per final byte; captured images; OSC and DCS, and
    \<open>screen_step\<close>, the transition on one call of the trait \<open>ScreenOps\<close>.
  \<^item> \<open>Parser\<close> (\<open>parser.rs\<close>): the pre-scan, the grapheme buffer and the callbacks of the \<open>vte\<close> automaton.
  \<^item> \<open>Emulator\<close> (\<open>emulator.rs\<close>): feeding bytes, resizing, and the step relation of a terminal.
  \<^item> \<open>Screen_Inv\<close>, \<open>Screen_Alt\<close>, \<open>Screen_Pairs\<close>: what every event keeps -- the screen's invariant
    \<open>screen_wf\<close>, the isolation of the main screen from the alternate one, whole wide characters.
    \<open>Terminal_Props\<close>, \<open>Screen_Props\<close>, \<open>Table_Props\<close>: the properties.

  \<^bold>\<open>The multiplexer\<close> (files under \<open>src/crates/mux/src\<close>).
  \<^item> \<open>Float32\<close>: the \<open>f32\<close> operations of the split ratios, as rationals rounded to nearest even.
    \<open>Geometry\<close> (\<open>rect.rs\<close>, \<open>direction.rs\<close>, \<open>pane_id.rs\<close>, \<open>Ratio\<close>), \<open>Layout\<close> (\<open>layout.rs\<close>), \<open>Preset\<close>
    (\<open>preset.rs\<close>): rectangles and their subdivision, the tree of splits with every operation on it.
    \<open>Layout_Facts\<close> relates the tree to the list of its panes, \<open>Layout_Geometry\<close> the rectangles to the cells
    they cover; \<open>Layout_Props\<close> has the refinement of the list, the tiling of the viewport, hit tests,
    drags and focus moves.
  \<^item> \<open>Blocks\<close> (\<open>blocks.rs\<close>, \<open>line.rs\<close>): the command blocks that the shell-integration marks delimit in
    scrollback and grid, their text, status and folds, the projection between all lines and the
    visible ones, and scrolling.  \<open>Block_Facts\<close>, \<open>Block_Props\<close>: the projection is an order isomorphism
    onto the lines not folded, folding hides exactly the output, the one-pass status of a viewport is
    the status line by line.
  \<^item> \<open>Selection\<close> (\<open>selection.rs\<close>), \<open>Selection_Props\<close>: mouse selection and its text.
  \<^item> \<open>Finder\<close> (\<open>finder.rs\<close>, \<open>history.rs\<close>, \<open>buffer.rs\<close>) and \<open>Tree_View\<close> (\<open>tree.rs\<close>), with \<open>Overlay_Props\<close>: the
    filterable lists and the tree of sessions; what their keys do, and that no index is out of range.
  \<^item> \<open>Keys\<close> (\<open>key.rs\<close>), \<open>Mouse\<close> (\<open>mouse.rs\<close>), \<open>Keymap\<close> (\<open>keymap.rs\<close>, \<open>crates/keys/src/build.rs\<close>): key and
    mouse events, the mouse parser and encoder, the trie of chords and the key it waits in.
  \<^item> \<open>Virtual_Screen\<close> (\<open>virtual_screen.rs\<close>), \<open>Diff\<close>, \<open>Diff_Images\<close> (\<open>diff.rs\<close>): the frame, and the renderer
    that turns what a client shows into the next frame, as terminal commands.  \<open>Diff_Host\<close> is the
    client's terminal, the screen of the emulator driven by these commands; \<open>Diff_Rows\<close>, \<open>Diff_Frames\<close>,
    \<open>Diff_Props\<close>: what a cell, a row and a frame do to it, and that it always shows the last frame.
  \<^item> \<open>Copy_Mode\<close> (\<open>copy_mode.rs\<close>), \<open>Block_Mode\<close> (\<open>block_mode.rs\<close>), \<open>Hint\<close> (\<open>hint.rs\<close>): the modes in which keys
    move over the screen's lines, over its command blocks and over the targets found in it, each with every
    key and its search or filter; \<open>Copy_Props\<close>, \<open>Block_Mode_Props\<close>, \<open>Hint_Props\<close>: safety under any keys, what
    a search finds, the filter against a full scan, the labels and what typing one picks.
  \<^item> \<open>Command_Prompt\<close> (\<open>command_prompt.rs\<close>), \<open>Palette\<close> (\<open>palette.rs\<close>), \<open>Overlay\<close> (\<open>overlay.rs\<close>): the commands typed at
    the prompt and their completion, the catalog of the palette, and the keys of the modal overlays;
    \<open>Prompt_Props\<close>: which verbs are known, how far Tab goes, that the catalog names existing commands.
  \<^item> \<open>Paint\<close>, \<open>Boxes\<close>, \<open>Compositor\<close> (\<open>compositor.rs\<close>, \<open>status.rs\<close>, the styles of \<open>crates/status\<close>) and \<open>Borders\<close>
    (\<open>borders.rs\<close>): text and boxes on a frame; every overlay and the popup; panes, folds, selections,
    searches, filters, borders, annotations, images, the status bar, the cursor, and \<open>compose\<close>, which
    puts the layers on one another.  \<open>Paint_Facts\<close> has the calculus \<open>only_on\<close> of what a painter may touch,
    \<open>Compositor_Facts\<close> that every layer but the bar stays in the rows of the panes, \<open>Frame_Facts\<close> the
    row of the bar, who moves the cursor, and what leaves the cells of a pane alone;
    \<open>Compositor_Props\<close>: the bar is never covered, the cursor stays in the frame, panes reach the frame.
  \<^bold>\<open>Input and protocol.\<close>
  \<^item> \<open>Key_Parser\<close>, \<open>Key_Encode\<close>, \<open>Paste_Parser\<close>, \<open>Key_Spec\<close> (\<open>crates/keys/src\<close>): the byte automaton, the
    encoder for the legacy, modifyOtherKeys and Kitty protocols, bracketed paste, the syntax of chords
    and commands.  \<open>Key_Facts\<close>, \<open>Keymap_Facts\<close>: the invariant of the automaton, what a written sequence
    parses to, the trie against its bindings.  \<open>Keys_Props\<close>, \<open>Keymap_Props\<close>: no byte is lost or held
    for ever, events survive encoding, the keymap is a search of its bindings.
  \<^item> \<open>Input_Router\<close> (\<open>crates/daemon/src/input_router.rs\<close>), \<open>Input_Props\<close>: the three parsers in a row.
  \<^item> \<open>Protocol\<close> (\<open>crates/protocol/src\<close>), \<open>Protocol_Props\<close>: messages, frames, the version handshake.

  \<^bold>\<open>State and errors.\<close>  Methods that take \<open>&mut self\<close> are functions from the state to the new state.
  \<open>u8\<close>, \<open>u16\<close>, \<open>u32\<close>, \<open>usize\<close> values are natural numbers with saturation and wrap-around written out as the
  code has them; flag sets are words.  An out-of-range \<open>get_mut\<close> is a list update out of range, which
  changes nothing; where the code indexes and would panic, the operation returns \<open>None\<close>.  A \<open>Result\<close> is a
  sum.  A Rust string is a list of scalar values, a byte buffer a list of characters.

  \<^bold>\<open>Parameters.\<close>  Code of other crates is a parameter: \<open>wd\<close> the width of a string (\<open>unicode-width\<close>; used:
  \<open>width_ok\<close>, \<open>glyphs_ok\<close>), \<open>seg\<close> the cutting into grapheme clusters (\<open>unicode-segmentation\<close>), \<open>b64\<close> the
  base64 decoder, \<open>vadv\<close> the automaton of \<open>vte\<close>, \<open>now\<close> the clock, \<open>wire\<close> the two ends of a connection
  (\<open>tokio\<close>), \<open>postcard\<close> the serialisation of messages, \<open>ord\<close> the order in which a hash map yields its
  keys.  The Unicode tables of the standard library are
  parameters too: \<open>lower\<close> and \<open>upc\<close> (case mapping; used: \<open>lower_narrows\<close>), \<open>alnum\<close> (\<open>char::is_alphanumeric\<close>),
  \<open>is_upper\<close> (\<open>char::is_uppercase\<close>); \<open>pats\<close> and \<open>line_col\<close> are the matches of the patterns (\<open>regex\<close>);
  the record \<open>unicode\<close> has widths, clusters and case mapping for the painters.  The theorems hold
  for all of them but for the hypotheses they state.

  \<^bold>\<open>Bounds.\<close>  Every loop is a structural recursion, a fold, or a recursion with a measure, but for the
  loops that need not end, which are \<open>partial_function (option)\<close>: there \<open>None\<close> is not returning, and a
  theorem says when that is.  No fuel is used.  Sizes are at most \<open>u16_max\<close>; resizing asks for two columns
  less, as the code's \<open>u16\<close> column counter passes the width by up to two.

  \<^bold>\<open>Not modelled.\<close>  Trace output.  Sessions, windows and connections of the daemon; the client; the
  widgets of the status line; the configuration but for the keymap.  Input and output, sockets, tasks and locks stay out.
\<close>

end
